(* ===== verification/Prelude.thy ===== *)
theory Prelude
  imports Complex_Main "HOL-Library.Word" "HOL-Library.AList" "HOL-Library.Sublist"
begin

unbundle bit_operations_syntax

section \<open>Shared vocabulary of the development\<close>

text \<open>
  Collections of rewrite rules, the type synonyms the components share (Go integers and
  times, association lists standing for Go maps), and the generic lemmas on words,
  association lists and maps that the component theories use.

  A Go map is an association list with distinct keys. The order of the list is one
  possible iteration order of the map (Go leaves the order open), so properties of
  operations that iterate are stated up to the set or multiset of the result.
  Go's \<open>time.Time\<close> is an integer number of nanoseconds, and the value of
  \<open>time.Now()\<close> is an argument of the operation that reads the clock.
\<close>

named_theorems alist_simps \<open>lookup and update in association lists\<close>
named_theorems word_arith \<open>reading 32-bit address arithmetic as natural numbers\<close>

type_synonym go_time = int
type_synonym go_id = int
type_synonym ('k, 'v) gomap = "('k \<times> 'v) list"

subsection \<open>Go maps as association lists\<close>

text \<open>Insertion of a key (\<open>m[k] = v\<close>), deletion (\<open>delete(m, k)\<close>) and the key set.\<close>

abbreviation gput :: "'k \<Rightarrow> 'v \<Rightarrow> ('k, 'v) gomap \<Rightarrow> ('k, 'v) gomap" where
  "gput k v m \<equiv> AList.update k v m"

abbreviation gdel :: "'k \<Rightarrow> ('k, 'v) gomap \<Rightarrow> ('k, 'v) gomap" where
  "gdel k m \<equiv> AList.delete k m"

abbreviation gkeys :: "('k, 'v) gomap \<Rightarrow> 'k set" where
  "gkeys m \<equiv> fst ` set m"

definition gmap_ok :: "('k, 'v) gomap \<Rightarrow> bool" where
  "gmap_ok m \<longleftrightarrow> distinct (map fst m)"

lemma gmap_ok_Nil [simp, alist_simps]: "gmap_ok []"
  by (simp add: gmap_ok_def)

lemma gmap_ok_gput [simp, alist_simps]: "gmap_ok m \<Longrightarrow> gmap_ok (gput k v m)"
  by (simp add: gmap_ok_def distinct_update)

lemma gmap_ok_gdel [simp, alist_simps]: "gmap_ok m \<Longrightarrow> gmap_ok (gdel k m)"
  by (simp add: gmap_ok_def distinct_delete)

lemma map_of_gput [simp, alist_simps]: "map_of (gput k v m) = (map_of m)(k \<mapsto> v)"
  by (rule update_conv')

lemma map_of_gdel [simp, alist_simps]: "map_of (gdel k m) = (map_of m)(k := None)"
  by (rule delete_conv')

lemma gkeys_dom: "gkeys m = dom (map_of m)"
  by (simp add: dom_map_of_conv_image_fst)

lemma gmap_mem_iff [alist_simps]: "gmap_ok m \<Longrightarrow> (k, v) \<in> set m \<longleftrightarrow> map_of m k = Some v"
  by (auto simp: gmap_ok_def dest: map_of_SomeD)

lemma gmap_okD: "gmap_ok m \<Longrightarrow> (k, v) \<in> set m \<Longrightarrow> (k, v') \<in> set m \<Longrightarrow> v = v'"
  by (auto simp: gmap_mem_iff)

lemma set_gput: "gmap_ok m \<Longrightarrow> set (gput k v m) = {(j, w) \<in> set m. j \<noteq> k} \<union> {(k, v)}"
proof -
  assume ok: "gmap_ok m"
  have "(j, w) \<in> set (gput k v m) \<longleftrightarrow> (j \<noteq> k \<and> (j, w) \<in> set m) \<or> (j = k \<and> w = v)" for j w
    using ok by (auto simp: gmap_mem_iff split: if_splits)
  then show ?thesis by auto
qed

lemma set_gdel: "set (gdel k m) = {(j, w) \<in> set m. j \<noteq> k}"
  by (induction m) auto

lemma gmap_ok_values_inj: "gmap_ok m \<Longrightarrow> inj_on fst (set m)"
  by (simp add: gmap_ok_def distinct_map)

lemma gmap_ok_distinct: "gmap_ok m \<Longrightarrow> distinct m"
  by (simp add: gmap_ok_def distinct_map)

text \<open>A value-wise update of every entry keeps the keys and maps the lookups.\<close>

lemma map_of_map_vals: "map_of (map (\<lambda>(k, v). (k, f k v)) m) k = map_option (f k) (map_of m k)"
  by (induction m) auto

lemma gmap_ok_map_vals [simp]: "gmap_ok (map (\<lambda>(k, v). (k, f k v)) m) = gmap_ok m"
proof -
  have "map fst (map (\<lambda>(k, v). (k, f k v)) m) = map fst m" by (induction m) auto
  then show ?thesis unfolding gmap_ok_def by (simp only:)
qed

lemma fold_gput_ok: "gmap_ok m \<Longrightarrow> gmap_ok (fold (\<lambda>k. gput k (f k)) ks m)"
  by (induction ks arbitrary: m) auto

lemma map_of_fold_gput:
  "map_of (fold (\<lambda>k. gput k (f k)) ks m) k = (if k \<in> set ks then Some (f k) else map_of m k)"
  by (induction ks arbitrary: m) auto

subsection \<open>32-bit words as natural numbers\<close>

lemma unat_lt32 [simp]: "unat (w :: 32 word) < 4294967296"
  using unsigned_less[of w] by simp

lemma unat_le32: "unat (w :: 32 word) \<le> 4294967295"
  using unat_lt32[of w] by linarith

lemma unat_eq_iff32: "(a :: 32 word) = b \<longleftrightarrow> unat a = unat b"
  by (simp add: word_unat_eq_iff)

lemma unat_add_noov [word_arith]:
  "unat (a :: 32 word) + unat b < 4294967296 \<Longrightarrow> unat (a + b) = unat a + unat b"
  by (simp add: unat_word_ariths)

lemma unat_sub1 [word_arith]: "(a :: 32 word) \<noteq> 0 \<Longrightarrow> unat (a - 1) = unat a - 1"
  by (metis unat_minus_one)

lemma unat_plus1 [word_arith]:
  "(a :: 32 word) \<noteq> - 1 \<Longrightarrow> unat (a + 1) = unat a + 1"
  by (metis add.commute add_eq_0_iff2 unatSuc plus_1_eq_Suc Suc_eq_plus1)

lemma unat_max32: "unat (- 1 :: 32 word) = 4294967295"
  by (simp add: unsigned_minus_1_eq_mask mask_eq_exp_minus_1)

lemma nat_div_eq_interval:
  fixes a b h :: nat
  assumes "0 < h"
  shows "b div h = a div h \<longleftrightarrow> (a div h) * h \<le> b \<and> b \<le> (a div h) * h + (h - 1)"
proof
  assume e: "b div h = a div h"
  have "b = (b div h) * h + b mod h" by simp
  moreover have "b mod h \<le> h - 1" using assms mod_less_divisor[of h b] by linarith
  ultimately show "(a div h) * h \<le> b \<and> b \<le> (a div h) * h + (h - 1)"
    unfolding e by linarith
next
  assume a: "(a div h) * h \<le> b \<and> b \<le> (a div h) * h + (h - 1)"
  then have "(a div h) * h \<le> b" "b < (a div h) * h + h" using assms by auto
  then show "b div h = a div h"
    by (intro div_nat_eqI) (auto simp: mult.commute)
qed

end
