(* ===== verification/GoLib.thy ===== *)
theory GoLib
  imports Prelude "HOL-Library.Char_ord" "HOL-Library.List_Lexorder"
begin

section \<open>The parts of Go's standard library the program uses\<close>

text \<open>
  Go strings are byte sequences; a \<open>string\<close> here is its list of bytes.
  \<open>trimSpace\<close> follows \<open>strings.TrimSpace\<close> on UTF-8 text: it removes the six ASCII
  spaces and the UTF-8 encodings of the other Unicode spaces at both ends.
  \<open>toLower\<close> is \<open>strings.ToLower\<close> on ASCII text, and leaves bytes outside ASCII alone.
  \<open>decodeRune\<close> is \<open>utf8.DecodeRuneInString\<close> with its treatment of invalid bytes
  (rune U+FFFD, width 1).
\<close>

type_synonym bytes = "char list"

abbreviation cnum :: "char \<Rightarrow> nat" where
  "cnum c \<equiv> of_char c"

subsection \<open>Decimal numbers\<close>

definition is_digit :: "char \<Rightarrow> bool" where
  "is_digit c \<longleftrightarrow> 48 \<le> cnum c \<and> cnum c \<le> 57"

definition digit_val :: "char \<Rightarrow> nat" where
  "digit_val c = cnum c - 48"

definition digit_char :: "nat \<Rightarrow> char" where
  "digit_char n = char_of (48 + n)"

text \<open>\<open>strconv.Itoa\<close> on a natural number.\<close>

fun itoa :: "nat \<Rightarrow> string" where
  "itoa n = (if n < 10 then [digit_char n] else itoa (n div 10) @ [digit_char (n mod 10)])"

declare itoa.simps [simp del]

definition itoa_int :: "int \<Rightarrow> string" where
  "itoa_int i = (if i < 0 then CHR ''-'' # itoa (nat (- i)) else itoa (nat i))"

text \<open>The value of an unsigned decimal (\<open>strconv.Atoi\<close> on digits only); \<open>None\<close> otherwise.\<close>

fun digits_val :: "nat \<Rightarrow> string \<Rightarrow> nat option" where
  "digits_val acc [] = Some acc"
| "digits_val acc (c # cs) = (if is_digit c then digits_val (acc * 10 + digit_val c) cs else None)"

definition atoi_digits :: "string \<Rightarrow> nat option" where
  "atoi_digits s = (if s = [] then None else digits_val 0 s)"

lemma digit_char_facts:
  assumes "n < 10"
  shows "is_digit (digit_char n)" and "digit_val (digit_char n) = n"
  using assms by (simp_all add: is_digit_def digit_val_def digit_char_def of_char_of)

lemma digit_char_neq:
  assumes "n < 10"
  shows "digit_char n \<noteq> CHR ''.''" "digit_char n \<noteq> CHR ''/''" "digit_char n \<noteq> CHR '':''"
    "digit_char n \<noteq> CHR ''%''"
  using digit_char_facts(1)[OF assms] by (auto simp: is_digit_def)

lemma itoa_not_Nil [simp]: "itoa n \<noteq> []"
  by (subst itoa.simps) simp

lemma digits_val_append:
  "digits_val a (xs @ ys) = (case digits_val a xs of None \<Rightarrow> None | Some b \<Rightarrow> digits_val b ys)"
  by (induction a xs rule: digits_val.induct) auto

lemma digits_val_itoa: "digits_val 0 (itoa n) = Some n"
proof (induction n rule: itoa.induct)
  case (1 n)
  show ?case
  proof (cases "n < 10")
    case True
    then show ?thesis by (subst itoa.simps) (simp add: digit_char_facts)
  next
    case False
    with 1 have "digits_val 0 (itoa (n div 10)) = Some (n div 10)" by simp
    with False show ?thesis
      by (subst itoa.simps) (simp add: digits_val_append digit_char_facts)
  qed
qed

lemma atoi_itoa [simp]: "atoi_digits (itoa n) = Some n"
  by (simp add: atoi_digits_def digits_val_itoa)

lemma set_itoa: "c \<in> set (itoa n) \<Longrightarrow> is_digit c"
proof (induction n rule: itoa.induct)
  case (1 n)
  then show ?case
    by (subst (asm) itoa.simps) (auto split: if_splits simp: digit_char_facts)
qed

lemma itoa_1digit: "n < 10 \<Longrightarrow> itoa n = [digit_char n]"
  by (subst itoa.simps) simp

lemma itoa_2digits: "10 \<le> n \<Longrightarrow> n < 100 \<Longrightarrow> itoa n = [digit_char (n div 10), digit_char (n mod 10)]"
  by (subst itoa.simps) (simp add: itoa_1digit)

lemma itoa_3digits: "100 \<le> n \<Longrightarrow> n < 1000 \<Longrightarrow>
    itoa n = [digit_char (n div 100), digit_char (n div 10 mod 10), digit_char (n mod 10)]"
  by (subst itoa.simps) (simp add: itoa_2digits div_mult2_eq[symmetric])

lemma digit_char_inj: "m < 10 \<Longrightarrow> n < 10 \<Longrightarrow> digit_char m = digit_char n \<longleftrightarrow> m = n"
  by (metis digit_char_facts(2))

lemma itoa_inj: "itoa m = itoa n \<Longrightarrow> m = n"
  by (metis digits_val_itoa option.inject)

subsection \<open>Searching and splitting\<close>

text \<open>\<open>strings.Contains\<close>, \<open>strings.HasPrefix\<close>, \<open>strings.HasSuffix\<close>, \<open>strings.TrimSuffix\<close>.\<close>

fun str_contains :: "string \<Rightarrow> string \<Rightarrow> bool" where
  "str_contains s pat = (prefix pat s \<or> (case s of [] \<Rightarrow> False | _ # cs \<Rightarrow> str_contains cs pat))"

declare str_contains.simps [simp del]

lemma str_contains_iff: "str_contains s pat \<longleftrightarrow> sublist pat s"
proof (induction s)
  case Nil
  show ?case by (subst str_contains.simps) simp
next
  case (Cons c cs)
  then show ?case by (subst str_contains.simps) (auto simp: sublist_Cons_right)
qed

definition has_suffix :: "string \<Rightarrow> string \<Rightarrow> bool" where
  "has_suffix s suf \<longleftrightarrow> suffix suf s"

definition trim_suffix :: "string \<Rightarrow> string \<Rightarrow> string" where
  "trim_suffix s suf = (if suffix suf s then take (length s - length suf) s else s)"

definition trim_prefix :: "string \<Rightarrow> string \<Rightarrow> string" where
  "trim_prefix s pre = (if prefix pre s then drop (length pre) s else s)"

text \<open>\<open>strings.SplitN(s, sep, 2)\<close> on a one-byte separator: \<open>None\<close> when there is no separator
  (one part), and otherwise the two parts.\<close>

fun split2 :: "char \<Rightarrow> string \<Rightarrow> (string \<times> string) option" where
  "split2 sep [] = None"
| "split2 sep (c # cs) =
     (if c = sep then Some ([], cs)
      else case split2 sep cs of None \<Rightarrow> None | Some (a, b) \<Rightarrow> Some (c # a, b))"

lemma split2_SomeD: "split2 sep s = Some (a, b) \<Longrightarrow> s = a @ sep # b \<and> sep \<notin> set a"
  by (induction sep s arbitrary: a b rule: split2.induct) (auto split: option.splits if_splits)

lemma split2_append: "sep \<notin> set a \<Longrightarrow> split2 sep (a @ sep # b) = Some (a, b)"
  by (induction a) auto

lemma split2_Some: "split2 sep s = Some (a, b) \<longleftrightarrow> s = a @ sep # b \<and> sep \<notin> set a"
  by (auto dest: split2_SomeD simp: split2_append)

lemma split2_None: "split2 sep s = None \<longleftrightarrow> sep \<notin> set s"
  by (induction sep s rule: split2.induct) (auto split: option.splits)

text \<open>The text before and after the last separator (\<open>strings.LastIndexByte\<close>).\<close>

fun split_last :: "char \<Rightarrow> string \<Rightarrow> (string \<times> string) option" where
  "split_last sep [] = None"
| "split_last sep (c # cs) =
     (case split_last sep cs of
        Some (a, b) \<Rightarrow> Some (c # a, b)
      | None \<Rightarrow> if c = sep then Some ([], cs) else None)"

lemma split_last_None: "split_last sep s = None \<longleftrightarrow> sep \<notin> set s"
  by (induction sep s rule: split_last.induct) (auto split: option.splits)

lemma split_last_append: "sep \<notin> set b \<Longrightarrow> split_last sep (a @ sep # b) = Some (a, b)"
  by (induction a) (auto simp: split_last_None[THEN iffD2])

subsection \<open>White space and case\<close>

definition space_encodings :: "string list" where
  "space_encodings =
     map (map char_of)
       ([[9], [10], [11], [12], [13], [32], [194, 133], [194, 160], [225, 154, 128],
         [226, 128, 168], [226, 128, 169], [226, 128, 175], [226, 129, 159], [227, 128, 128]]
        @ map (\<lambda>k. [226, 128, k]) [128 ..< 139 :: nat])"

fun strip_any :: "string list \<Rightarrow> string \<Rightarrow> string option" where
  "strip_any [] s = None"
| "strip_any (p # ps) s = (if p \<noteq> [] \<and> prefix p s then Some (drop (length p) s) else strip_any ps s)"

lemma strip_any_shorter: "strip_any ps s = Some t \<Longrightarrow> length t < length s"
  by (induction ps s rule: strip_any.induct)
    (auto split: if_splits dest: prefix_length_le simp: diff_less_mono2 prefix_def)

function trim_left_with :: "string list \<Rightarrow> string \<Rightarrow> string" where
  "trim_left_with ps s = (case strip_any ps s of None \<Rightarrow> s | Some t \<Rightarrow> trim_left_with ps t)"
  by pat_completeness auto
termination
  by (relation "measure (\<lambda>(ps, s). length s)") (auto dest: strip_any_shorter)

declare trim_left_with.simps [simp del]

definition trimSpace :: "string \<Rightarrow> string" where
  "trimSpace s =
     rev (trim_left_with (map rev space_encodings) (rev (trim_left_with space_encodings s)))"

text \<open>Text whose first and last bytes are ASCII and not spaces is left alone.\<close>

definition graphic :: "char \<Rightarrow> bool" where
  "graphic c \<longleftrightarrow> 33 \<le> cnum c \<and> cnum c \<le> 127"

lemma space_encodings_graphic:
  "p \<in> set space_encodings \<Longrightarrow> p \<noteq> [] \<and> \<not> graphic (hd p) \<and> \<not> graphic (last p)"
  by (auto simp: space_encodings_def graphic_def of_char_of)

lemma strip_any_None:
  "s \<noteq> [] \<Longrightarrow> (\<And>p. p \<in> set ps \<Longrightarrow> p \<noteq> [] \<Longrightarrow> hd p \<noteq> hd s) \<Longrightarrow> strip_any ps s = None"
  by (induction ps s rule: strip_any.induct) (force simp: prefix_def)+

lemma trim_left_with_id:
  "s \<noteq> [] \<Longrightarrow> (\<And>p. p \<in> set ps \<Longrightarrow> p \<noteq> [] \<Longrightarrow> hd p \<noteq> hd s) \<Longrightarrow> trim_left_with ps s = s"
  by (subst trim_left_with.simps) (simp add: strip_any_None)

lemma trimSpace_graphic:
  assumes "s \<noteq> []" "graphic (hd s)" "graphic (last s)"
  shows "trimSpace s = s"
proof -
  have "trim_left_with space_encodings s = s"
    using assms by (intro trim_left_with_id) (auto dest: space_encodings_graphic)
  moreover have "trim_left_with (map rev space_encodings) (rev s) = rev s"
    using assms by (intro trim_left_with_id) (auto simp: hd_rev dest: space_encodings_graphic)
  ultimately show ?thesis by (simp add: trimSpace_def)
qed

lemma trimSpace_Nil [simp]: "trimSpace [] = []"
proof -
  have *: "strip_any ps [] = None" for ps by (induction ps) auto
  show ?thesis by (simp add: trimSpace_def trim_left_with.simps[of _ "[]"] *)
qed

definition lower_char :: "char \<Rightarrow> char" where
  "lower_char c = (if 65 \<le> cnum c \<and> cnum c \<le> 90 then char_of (cnum c + 32) else c)"

definition toLower :: "string \<Rightarrow> string" where
  "toLower s = map lower_char s"

lemma lower_char_idem [simp]: "lower_char (lower_char c) = lower_char c"
  by (simp add: lower_char_def of_char_of)

lemma toLower_idem [simp]: "toLower (toLower s) = toLower s"
  by (simp add: toLower_def)

subsection \<open>UTF-8\<close>

definition cont_byte :: "nat \<Rightarrow> nat \<Rightarrow> nat \<Rightarrow> bool" where
  "cont_byte lo hi b \<longleftrightarrow> lo \<le> b \<and> b \<le> hi"

text \<open>The rune at the front of a non-empty byte sequence, and its width.\<close>

definition decodeRune :: "nat list \<Rightarrow> nat \<times> nat" where
  "decodeRune bs = (case bs of
     [] \<Rightarrow> (65533, 0)
   | b0 # r \<Rightarrow>
     if b0 < 128 then (b0, 1)
     else if 194 \<le> b0 \<and> b0 \<le> 223 then
       (case r of b1 # _ \<Rightarrow> if cont_byte 128 191 b1 then ((b0 mod 32) * 64 + b1 mod 64, 2) else (65533, 1)
        | _ \<Rightarrow> (65533, 1))
     else if 224 \<le> b0 \<and> b0 \<le> 239 then
       (case r of b1 # b2 # _ \<Rightarrow>
          if cont_byte (if b0 = 224 then 160 else 128) (if b0 = 237 then 159 else 191) b1
             \<and> cont_byte 128 191 b2
          then ((b0 mod 16) * 4096 + (b1 mod 64) * 64 + b2 mod 64, 3) else (65533, 1)
        | _ \<Rightarrow> (65533, 1))
     else if 240 \<le> b0 \<and> b0 \<le> 244 then
       (case r of b1 # b2 # b3 # _ \<Rightarrow>
          if cont_byte (if b0 = 240 then 144 else 128) (if b0 = 244 then 143 else 191) b1
             \<and> cont_byte 128 191 b2 \<and> cont_byte 128 191 b3
          then ((b0 mod 8) * 262144 + (b1 mod 64) * 4096 + (b2 mod 64) * 64 + b3 mod 64, 4)
          else (65533, 1)
        | _ \<Rightarrow> (65533, 1))
     else (65533, 1))"

lemma decodeRune_width: "bs \<noteq> [] \<Longrightarrow> 1 \<le> snd (decodeRune bs)"
  by (auto simp: decodeRune_def split: list.splits)

text \<open>The runes of a string, in order (\<open>for _, r := range s\<close>).\<close>

function runes_of :: "nat list \<Rightarrow> nat list" where
  "runes_of bs = (if bs = [] then [] else fst (decodeRune bs) # runes_of (drop (snd (decodeRune bs)) bs))"
  by pat_completeness auto
termination
proof (relation "measure length")
  fix bs :: "nat list"
  assume "bs \<noteq> []"
  then show "(drop (snd (decodeRune bs)) bs, bs) \<in> measure length"
    using decodeRune_width[of bs] by (cases bs) auto
qed simp

declare runes_of.simps [simp del]

definition runes :: "string \<Rightarrow> nat list" where
  "runes s = runes_of (map of_char s)"

lemma runes_of_length: "length (runes_of bs) \<le> length bs"
proof (induction bs rule: runes_of.induct)
  case (1 bs)
  show ?case
  proof (cases "bs = []")
    case True
    then show ?thesis by (simp add: runes_of.simps)
  next
    case False
    with 1 have "length (runes_of (drop (snd (decodeRune bs)) bs)) \<le> length bs - snd (decodeRune bs)"
      by simp
    with False decodeRune_width[OF False] show ?thesis
      by (subst runes_of.simps) (cases bs; simp)
  qed
qed

lemma length_runes_le: "length (runes s) \<le> length s"
  using runes_of_length[of "map of_char s"] by (simp add: runes_def)

lemma runes_Nil_iff [simp]: "runes s = [] \<longleftrightarrow> s = []"
  by (subst runes_def, subst runes_of.simps) simp

text \<open>\<open>unicode.IsControl\<close>: the categories Cc, that is C0, DEL and C1.\<close>

definition isControl :: "nat \<Rightarrow> bool" where
  "isControl r \<longleftrightarrow> r < 32 \<or> (127 \<le> r \<and> r \<le> 159)"

subsection \<open>64-bit integers and slices\<close>

text \<open>\<open>wrap64\<close> is the value of an \<open>int64\<close> (or \<open>int\<close>) whose mathematical value is the argument:
  Go's arithmetic wraps around in silence. \<open>go_slice a b xs\<close> is \<open>xs[a:b]\<close>; \<open>None\<close> is the run-time
  panic on bounds that are negative, in the wrong order or past the end.\<close>

definition wrap64 :: "int \<Rightarrow> int" where
  "wrap64 x = (x + 2 ^ 63) mod 2 ^ 64 - 2 ^ 63"

definition go_slice :: "int \<Rightarrow> int \<Rightarrow> 'a list \<Rightarrow> 'a list option" where
  "go_slice a b xs =
     (if 0 \<le> a \<and> a \<le> b \<and> b \<le> int (length xs) then Some (take (nat b - nat a) (drop (nat a) xs)) else None)"

lemma wrap64_id [simp]: "- (2 ^ 63) \<le> x \<Longrightarrow> x < 2 ^ 63 \<Longrightarrow> wrap64 x = x"
  by (simp add: wrap64_def)

lemma wrap64_range: "- (2 ^ 63) \<le> wrap64 x" "wrap64 x < 2 ^ 63"
  using pos_mod_bound[of "2 ^ 64 :: int" "x + 2 ^ 63"] by (simp_all add: wrap64_def)

lemma go_slice_Some: "a \<le> b \<Longrightarrow> b \<le> length xs \<Longrightarrow> go_slice (int a) (int b) xs = Some (take (b - a) (drop a xs))"
  by (simp add: go_slice_def)

lemma go_slice_set: "go_slice a b xs = Some ys \<Longrightarrow> set ys \<subseteq> set xs"
  by (auto simp: go_slice_def split: if_splits dest: in_set_takeD in_set_dropD)

text \<open>The page of a listing, as the in-memory stores compute it: the defaults, the early answer past
  the end, and the slice. The product is an \<open>int\<close>, so a huge page number wraps.\<close>

definition list_page :: "int \<Rightarrow> int \<Rightarrow> int \<Rightarrow> 'a list \<Rightarrow> 'a list option" where
  "list_page default' pg sz xs =
     (let pg = (if pg < 1 then 1 else pg);
          sz = (if sz < 1 then default' else sz);
          start = wrap64 ((pg - 1) * sz);
          total' = int (length xs)
      in if start > total' then Some []
         else let stop = wrap64 (start + sz);
                  stop = (if stop > total' then total' else stop)
              in go_slice start stop xs)"

lemma list_page_set: "list_page d pg sz xs = Some ys \<Longrightarrow> set ys \<subseteq> set xs"
  by (auto simp: list_page_def Let_def split: if_splits dest: go_slice_set)

lemma list_page_first: "0 < d \<Longrightarrow> d < 2 ^ 62 \<Longrightarrow> sz < 2 ^ 62 \<Longrightarrow> int (length xs) < 2 ^ 62 \<Longrightarrow> pg \<le> 1 \<Longrightarrow>
    list_page d pg sz xs = Some (take (nat (if sz < 1 then d else sz)) xs)"
  by (auto simp: list_page_def go_slice_def Let_def)

text \<open>A product that wraps to a negative start is a panic.\<close>

lemma list_page_overflow: "1 \<le> sz \<Longrightarrow> 1 \<le> pg \<Longrightarrow> wrap64 ((pg - 1) * sz) < 0 \<Longrightarrow> list_page d pg sz xs = None"
  by (simp add: list_page_def go_slice_def Let_def)

end
