(* ===== verification/NetIP.thy ===== *)
theory NetIP
  imports GoLib
begin

section \<open>net/netip: addresses and prefixes\<close>

text \<open>
  The value types of Go's package \<open>net/netip\<close> as the program uses them: \<open>Addr\<close> (with
  its zero value), \<open>Prefix\<close> (an address, host bits included, and a length, \<open>-1\<close> when
  invalid), \<open>ParseAddr\<close> and \<open>ParsePrefix\<close> for IPv4 and IPv6 text, \<open>Masked\<close>,
  \<open>Contains\<close>, \<open>As4\<close> and the dotted-decimal printer. Parsers return \<open>None\<close> for an error.
\<close>

datatype addr = NoAddr | V4 "32 word" | V6 "128 word" string

datatype nprefix = Pfx (pfxAddr: addr) (pfxBits: int)

subsection \<open>Addresses\<close>

definition addrIsValid :: "addr \<Rightarrow> bool" where
  "addrIsValid a \<longleftrightarrow> a \<noteq> NoAddr"

definition is4 :: "addr \<Rightarrow> bool" where
  "is4 a \<longleftrightarrow> (case a of V4 _ \<Rightarrow> True | _ \<Rightarrow> False)"

definition bitLen :: "addr \<Rightarrow> int" where
  "bitLen a = (case a of NoAddr \<Rightarrow> 0 | V4 _ \<Rightarrow> 32 | V6 _ _ \<Rightarrow> 128)"

definition withoutZone :: "addr \<Rightarrow> addr" where
  "withoutZone a = (case a of V6 w _ \<Rightarrow> V6 w [] | _ \<Rightarrow> a)"

definition hasZone :: "addr \<Rightarrow> bool" where
  "hasZone a \<longleftrightarrow> (case a of V6 _ z \<Rightarrow> z \<noteq> [] | _ \<Rightarrow> False)"

definition bytes4 :: "32 word \<Rightarrow> 8 word list" where
  "bytes4 w = [ucast (drop_bit 24 w), ucast (drop_bit 16 w), ucast (drop_bit 8 w), ucast w]"

text \<open>\<open>binary.BigEndian.Uint32\<close> of a four-byte slice.\<close>

definition be32 :: "8 word list \<Rightarrow> 32 word" where
  "be32 bs = push_bit 24 (ucast (bs ! 0)) OR push_bit 16 (ucast (bs ! 1))
     OR push_bit 8 (ucast (bs ! 2)) OR ucast (bs ! 3)"

text \<open>\<open>Addr.As4\<close> panics (\<open>None\<close>) on the zero address and on IPv6 addresses that are not
  IPv4-mapped.\<close>

definition as4 :: "addr \<Rightarrow> 8 word list option" where
  "as4 a = (case a of V4 w \<Rightarrow> Some (bytes4 w)
     | V6 w _ \<Rightarrow> if drop_bit 32 w = 65535 then Some (bytes4 (ucast w)) else None
     | NoAddr \<Rightarrow> None)"

definition addrString4 :: "32 word \<Rightarrow> string" where
  "addrString4 w =
     itoa (unat (bytes4 w ! 0)) @ ''.'' @ itoa (unat (bytes4 w ! 1)) @ ''.''
     @ itoa (unat (bytes4 w ! 2)) @ ''.'' @ itoa (unat (bytes4 w ! 3))"

subsection \<open>Parsing\<close>

text \<open>The loop of \<open>parseIPv4Fields\<close>: the previous byte, the value and the digit count of
  the current octet, and the fields completed so far.\<close>

fun parse4_loop :: "char option \<Rightarrow> nat \<Rightarrow> nat \<Rightarrow> nat list \<Rightarrow> string \<Rightarrow> nat list option" where
  "parse4_loop prev val digLen fs [] = (if length fs < 3 then None else Some (fs @ [val]))"
| "parse4_loop prev val digLen fs (c # cs) =
     (if is_digit c then
        if digLen = 1 \<and> val = 0 then None
        else if val * 10 + digit_val c > 255 then None
        else parse4_loop (Some c) (val * 10 + digit_val c) (digLen + 1) fs cs
      else if c = CHR ''.'' then
        if prev = None \<or> cs = [] \<or> prev = Some (CHR ''.'') then None
        else if length fs = 3 then None
        else parse4_loop (Some c) 0 0 (fs @ [val]) cs
      else None)"

definition parse4_fields :: "string \<Rightarrow> nat list option" where
  "parse4_fields s = parse4_loop None 0 0 [] s"

definition word_of_bytes :: "nat list \<Rightarrow> 'a::len word" where
  "word_of_bytes bs = fold (\<lambda>b w. w * 256 + of_nat b) bs 0"

definition hex_val :: "char \<Rightarrow> nat option" where
  "hex_val c = (let n = cnum c in
     if 48 \<le> n \<and> n \<le> 57 then Some (n - 48)
     else if 97 \<le> n \<and> n \<le> 102 then Some (n - 87)
     else if 65 \<le> n \<and> n \<le> 70 then Some (n - 55) else None)"

fun hex_scan :: "nat \<Rightarrow> nat \<Rightarrow> string \<Rightarrow> (nat \<times> nat \<times> string) option" where
  "hex_scan off acc [] = Some (off, acc, [])"
| "hex_scan off acc (c # cs) =
     (case hex_val c of
        None \<Rightarrow> Some (off, acc, c # cs)
      | Some v \<Rightarrow>
          if off > 3 then None
          else if acc * 16 + v > 65535 then None
          else hex_scan (off + 1) (acc * 16 + v) cs)"

text \<open>The loop of \<open>parseIPv6\<close>: the bytes written, the position of the ellipsis and the
  text left. The result is the text left, the bytes and the ellipsis.\<close>

function parse6_loop ::
  "nat list \<Rightarrow> nat option \<Rightarrow> string \<Rightarrow> (string \<times> nat list \<times> nat option) option" where
  "parse6_loop ip ell s =
     (if 16 \<le> length ip then Some (s, ip, ell)
      else case hex_scan 0 0 s of
        None \<Rightarrow> None
      | Some (off, acc, rest) \<Rightarrow>
          if off = 0 then None
          else if rest \<noteq> [] \<and> hd rest = CHR ''.'' then
            (if ell = None \<and> length ip \<noteq> 12 then None
             else if length ip + 4 > 16 then None
             else case parse4_fields s of None \<Rightarrow> None | Some fs \<Rightarrow> Some ([], ip @ fs, ell))
          else (let ip' = ip @ [acc div 256, acc mod 256] in
            case rest of
              [] \<Rightarrow> Some ([], ip', ell)
            | c # rest1 \<Rightarrow>
                if c \<noteq> CHR '':'' then None
                else (case rest1 of
                    [] \<Rightarrow> None
                  | c1 # rest2 \<Rightarrow>
                      if c1 = CHR '':'' then
                        (if ell \<noteq> None then None
                         else if rest2 = [] then Some ([], ip', Some (length ip'))
                         else parse6_loop ip' (Some (length ip')) rest2)
                      else parse6_loop ip' ell rest1)))"
  by pat_completeness auto
termination
  by (relation "measure (\<lambda>(ip, ell, s). 16 - length ip)") auto

declare parse6_loop.simps [simp del]

definition parse6 :: "string \<Rightarrow> addr option" where
  "parse6 txt =
     (let (s, zone, badzone) = (case split2 (CHR ''%'') txt of
            None \<Rightarrow> (txt, [], False) | Some (a, z) \<Rightarrow> (a, z, z = []));
          lead = Sublist.prefix ''::'' s;
          s1 = (if lead then drop 2 s else s);
          ell = (if lead then Some 0 else None)
      in if badzone then None
         else if lead \<and> s1 = [] then Some (V6 0 zone)
         else case parse6_loop [] ell s1 of
           None \<Rightarrow> None
         | Some (rest, ip, e) \<Rightarrow>
             if rest \<noteq> [] then None
             else if length ip < 16 then
               (case e of None \<Rightarrow> None
                | Some k \<Rightarrow> Some (V6 (word_of_bytes
                     (take k ip @ replicate (16 - length ip) 0 @ drop k ip)) zone))
             else if e \<noteq> None then None
             else Some (V6 (word_of_bytes ip) zone))"

fun first_special :: "string \<Rightarrow> char option" where
  "first_special [] = None"
| "first_special (c # cs) =
     (if c = CHR ''.'' \<or> c = CHR '':'' \<or> c = CHR ''%'' then Some c else first_special cs)"

definition parseAddr :: "string \<Rightarrow> addr option" where
  "parseAddr s = (case first_special s of
     Some c \<Rightarrow>
       if c = CHR ''.'' then map_option (\<lambda>fs. V4 (word_of_bytes fs)) (parse4_fields s)
       else if c = CHR '':'' then parse6 s
       else None
   | None \<Rightarrow> None)"

definition prefixFrom :: "addr \<Rightarrow> int \<Rightarrow> nprefix" where
  "prefixFrom a bits =
     Pfx (withoutZone a) (if addrIsValid a \<and> 0 \<le> bits \<and> bits \<le> bitLen a then bits else -1)"

definition parsePrefix :: "string \<Rightarrow> nprefix option" where
  "parsePrefix s = (case split_last (CHR ''/'') s of
     None \<Rightarrow> None
   | Some (astr, bstr) \<Rightarrow>
       (case parseAddr astr of
          None \<Rightarrow> None
        | Some ip \<Rightarrow>
            if hasZone ip then None
            else if length bstr > 1 \<and> (cnum (hd bstr) < 49 \<or> 57 < cnum (hd bstr)) then None
            else (case atoi_digits bstr of
                None \<Rightarrow> None
              | Some bits \<Rightarrow> if int bits > bitLen ip then None else Some (prefixFrom ip (int bits)))))"

subsection \<open>Prefixes\<close>

definition pfxIsValid :: "nprefix \<Rightarrow> bool" where
  "pfxIsValid p \<longleftrightarrow> 0 \<le> pfxBits p"

definition netmask4 :: "nat \<Rightarrow> 32 word \<Rightarrow> 32 word" where
  "netmask4 n w = w AND NOT (mask (32 - n))"

definition netmask6 :: "nat \<Rightarrow> 128 word \<Rightarrow> 128 word" where
  "netmask6 n w = w AND NOT (mask (128 - n))"

definition masked :: "nprefix \<Rightarrow> nprefix" where
  "masked p = (let b = pfxBits p in
     if b < 0 then Pfx NoAddr (-1)
     else case pfxAddr p of
       NoAddr \<Rightarrow> Pfx NoAddr (-1)
     | V4 w \<Rightarrow> if b > 32 then Pfx NoAddr (-1) else prefixFrom (V4 (netmask4 (nat b) w)) b
     | V6 w z \<Rightarrow> if b > 128 then Pfx NoAddr (-1) else prefixFrom (V6 (netmask6 (nat b) w) z) b)"

definition pfxContains :: "nprefix \<Rightarrow> addr \<Rightarrow> bool" where
  "pfxContains p a \<longleftrightarrow>
     pfxIsValid p \<and> \<not> hasZone a \<and>
     (case (pfxAddr p, a) of
        (V4 w, V4 x) \<Rightarrow> drop_bit (32 - nat (pfxBits p)) (x XOR w) = 0
      | (V6 w _, V6 x _) \<Rightarrow> drop_bit (128 - nat (pfxBits p)) (x XOR w) = 0
      | _ \<Rightarrow> False)"

text \<open>\<open>Prefix.String\<close> on an IPv4 prefix.\<close>

definition pfxString4 :: "32 word \<Rightarrow> nat \<Rightarrow> string" where
  "pfxString4 w n = addrString4 w @ ''/'' @ itoa n"

subsection \<open>IPv4 prefixes as address ranges\<close>

text \<open>A valid IPv4 prefix is \<open>v4pfx w n\<close> with \<open>n \<le> 32\<close>.\<close>

abbreviation v4pfx :: "32 word \<Rightarrow> nat \<Rightarrow> nprefix" where
  "v4pfx w n \<equiv> Pfx (V4 w) (int n)"

definition block_size :: "nat \<Rightarrow> nat" where
  "block_size n = 2 ^ (32 - n)"

definition net_lo :: "32 word \<Rightarrow> nat \<Rightarrow> nat" where
  "net_lo w n = (unat w div block_size n) * block_size n"

definition net_hi :: "32 word \<Rightarrow> nat \<Rightarrow> nat" where
  "net_hi w n = net_lo w n + (block_size n - 1)"

definition addrs4 :: "32 word \<Rightarrow> nat \<Rightarrow> 32 word set" where
  "addrs4 w n = {a. unat a div block_size n = unat w div block_size n}"

lemma block_size_pos [simp]: "0 < block_size n"
  by (simp add: block_size_def)

lemma block_size_ge1 [simp]: "Suc 0 \<le> block_size n"
  using block_size_pos[of n] by linarith

lemma block_size_dvd: "n \<le> 32 \<Longrightarrow> block_size n dvd 4294967296"
proof -
  assume "n \<le> 32"
  then have "(2::nat) ^ (32 - n) dvd 2 ^ 32" by (intro le_imp_power_dvd) simp
  then show ?thesis by (simp add: block_size_def)
qed

lemma block_size_le: "n \<le> 32 \<Longrightarrow> block_size n \<le> 4294967296"
  using block_size_dvd by (simp add: dvd_imp_le)

lemma block_size_mono: "m \<le> n \<Longrightarrow> block_size n \<le> block_size m"
  by (simp add: block_size_def power_increasing)

lemma block_size_dvd_mono: "m \<le> n \<Longrightarrow> block_size n dvd block_size m"
  by (simp add: block_size_def le_imp_power_dvd)

lemma in_addrs4: "a \<in> addrs4 w n \<longleftrightarrow> net_lo w n \<le> unat a \<and> unat a \<le> net_hi w n"
  unfolding addrs4_def net_hi_def net_lo_def
  by (simp add: nat_div_eq_interval)

lemma self_in_addrs4 [simp]: "w \<in> addrs4 w n"
  by (simp add: addrs4_def)

lemma net_hi_lt: "n \<le> 32 \<Longrightarrow> net_hi w n < 4294967296"
proof -
  assume n: "n \<le> 32"
  obtain k where k: "4294967296 = block_size n * k" using block_size_dvd[OF n] by (elim dvdE)
  have "unat w < block_size n * k" using unat_lt32[of w] k by simp
  then have "unat w div block_size n < k" by (simp add: less_mult_imp_div_less mult.commute)
  then have "Suc (unat w div block_size n) * block_size n \<le> k * block_size n"
    by (intro mult_le_mono1) simp
  then have "net_lo w n + block_size n \<le> 4294967296"
    using k by (simp add: net_lo_def mult.commute)
  then show ?thesis using block_size_pos[of n] unfolding net_hi_def by linarith
qed

lemma net_lo_lt: "n \<le> 32 \<Longrightarrow> net_lo w n < 4294967296"
  using net_hi_lt[of n w] unfolding net_hi_def by linarith

lemma net_lo_dvd [simp]: "block_size n dvd net_lo w n"
  by (simp add: net_lo_def)

lemma unat_netmask4 [word_arith]: "unat (netmask4 n w) = net_lo w n"
proof -
  have "unat (netmask4 n w) = push_bit (32 - n) (drop_bit (32 - n) (unat w))"
    by (rule bit_eqI)
      (auto simp: netmask4_def bit_unsigned_iff bit_and_iff bit_not_iff bit_mask_iff
        bit_push_bit_iff bit_drop_bit_eq dest: bit_imp_le_length)
  then show ?thesis
    by (simp add: net_lo_def block_size_def push_bit_eq_mult drop_bit_eq_div)
qed

lemma net_lo_netmask4 [simp]: "net_lo (netmask4 n w) n = net_lo w n"
  by (simp add: net_lo_def unat_netmask4)

lemma net_hi_netmask4 [simp]: "net_hi (netmask4 n w) n = net_hi w n"
  by (simp add: net_hi_def)

lemma addrs4_netmask4 [simp]: "addrs4 (netmask4 n w) n = addrs4 w n"
  by (auto simp: in_addrs4)

lemma netmask4_idem [simp]: "netmask4 n (netmask4 n w) = netmask4 n w"
  by (simp add: unat_eq_iff32 unat_netmask4)

lemma unat_drop32: "unat (drop_bit k (w :: 32 word)) = unat w div 2 ^ k"
  by (subst unat_drop_bit_eq) (rule drop_bit_eq_div)

lemma drop_eq_iff:
  "drop_bit h a = drop_bit h (b :: 32 word) \<longleftrightarrow> unat a div 2 ^ h = unat b div 2 ^ h"
  by (simp only: word_unat_eq_iff unat_drop32)

lemma xor_eq_0_iff32: "(a :: 32 word) XOR b = 0 \<longleftrightarrow> a = b"
  by (auto simp: bit_eq_iff bit_xor_iff)

lemma pfxContains_v4 [simp]: "pfxContains (v4pfx w n) (V4 a) \<longleftrightarrow> a \<in> addrs4 w n"
  by (simp add: pfxContains_def pfxIsValid_def hasZone_def xor_eq_0_iff32 drop_eq_iff addrs4_def
      block_size_def)

lemma masked_v4 [simp]: "n \<le> 32 \<Longrightarrow> masked (v4pfx w n) = v4pfx (netmask4 n w) n"
  by (simp add: masked_def prefixFrom_def withoutZone_def addrIsValid_def bitLen_def)

lemma pfxIsValid_v4 [simp]: "pfxIsValid (v4pfx w n)"
  by (simp add: pfxIsValid_def)

lemma is4_simps [simp]: "is4 (V4 w)" "\<not> is4 NoAddr" "\<not> is4 (V6 v z)"
  by (simp_all add: is4_def)

lemma is4E: "is4 a \<Longrightarrow> (\<And>w. a = V4 w \<Longrightarrow> thesis) \<Longrightarrow> thesis"
  by (auto simp: is4_def split: addr.splits)

text \<open>What \<open>ParsePrefix\<close> can return: a prefix that is valid for its family.\<close>

lemma parsePrefix_valid:
  assumes "parsePrefix s = Some p"
  shows "0 \<le> pfxBits p \<and> pfxBits p \<le> bitLen (pfxAddr p) \<and> addrIsValid (pfxAddr p)"
proof -
  from assms obtain a b ip bits where p: "p = prefixFrom ip (int bits)" and ip: "parseAddr a = Some ip"
    and b: "int bits \<le> bitLen ip"
    by (auto simp: parsePrefix_def split: option.splits prod.splits if_splits)
  from ip have "ip \<noteq> NoAddr"
    by (auto simp: parseAddr_def parse6_def Let_def split: option.splits if_splits prod.splits)
  with p b show ?thesis
    by (cases ip) (auto simp: prefixFrom_def addrIsValid_def withoutZone_def bitLen_def)
qed

lemma parsePrefix_is4E:
  assumes "parsePrefix s = Some p" and "is4 (pfxAddr p)"
  obtains w n where "p = v4pfx w n" and "n \<le> 32"
proof -
  from assms(2) obtain w where w: "pfxAddr p = V4 w" by (rule is4E)
  with parsePrefix_valid[OF assms(1)] have b: "0 \<le> pfxBits p" "pfxBits p \<le> 32"
    by (auto simp: bitLen_def)
  show thesis
    by (rule that[of w "nat (pfxBits p)"]) (use w b in \<open>cases p; simp\<close>)+
qed

subsection \<open>Bytes\<close>

lemma be32_bytes4 [simp]: "be32 (bytes4 w) = w"
proof (rule bit_word_eqI)
  fix n
  assume "n < LENGTH(32)"
  then have "n < 32" by simp
  then consider "n < 8" | "8 \<le> n" "n < 16" | "16 \<le> n" "n < 24" | "24 \<le> n" "n < 32"
    by linarith
  then show "bit (be32 (bytes4 w)) n = bit w n"
    by cases (auto simp: be32_def bytes4_def bit_or_iff bit_push_bit_iff bit_ucast_iff bit_drop_bit_eq
        dest: bit_imp_le_length)
qed

lemma bytes4_nth: "bytes4 w ! 0 = ucast (drop_bit 24 w)" "bytes4 w ! Suc 0 = ucast (drop_bit 16 w)"
    "bytes4 w ! 2 = ucast (drop_bit 8 w)" "bytes4 w ! 3 = ucast w" "length (bytes4 w) = 4"
  by (simp_all add: bytes4_def eval_nat_numeral)

lemma unat_byte: "unat (ucast (drop_bit k (w :: 32 word)) :: 8 word) = unat w div 2 ^ k mod 256"
  by (simp only: unsigned_ucast_eq unat_drop32 take_bit_eq_mod) simp

lemma unat_byte0: "unat (ucast (w :: 32 word) :: 8 word) = unat w mod 256"
  using unat_byte[of 0 w] by simp

lemma base256_digits:
  fixes x :: nat
  assumes "x < 4294967296"
  shows "((x div 16777216 mod 256 * 256 + x div 65536 mod 256) * 256 + x div 256 mod 256) * 256
     + x mod 256 = x"
proof -
  have a: "x div 65536 = x div 256 div 256" "x div 16777216 = x div 256 div 256 div 256"
    by (simp_all add: div_mult2_eq[symmetric])
  have "x div 16777216 < 256" using assms by (simp add: less_mult_imp_div_less)
  then have "x div 256 div 256 div 256 mod 256 = x div 256 div 256 div 256" unfolding a by simp
  then show ?thesis unfolding a by (simp only: div_mult_mod_eq)
qed

lemma word_of_bytes_bytes4:
  "(word_of_bytes (map unat (bytes4 w)) :: 32 word) = w"
proof -
  have *: "map unat (bytes4 w) = [unat w div 16777216 mod 256, unat w div 65536 mod 256,
      unat w div 256 mod 256, unat w mod 256]"
    unfolding bytes4_def by (simp only: list.map unat_byte unat_byte0[of w]) simp
  have "(word_of_bytes [a, b, c, d] :: 32 word) = of_nat (((a * 256 + b) * 256 + c) * 256 + d)"
    for a b c d :: nat
    by (simp add: word_of_bytes_def)
  then have "(word_of_bytes (map unat (bytes4 w)) :: 32 word) = of_nat (unat w)"
    unfolding * by (simp only: base256_digits[OF unat_lt32])
  then show ?thesis by simp
qed

subsection \<open>Printing and parsing agree\<close>

lemma parse4_digits:
  assumes "n < 256"
  shows "parse4_loop prev 0 0 fs (itoa n @ rest)
    = parse4_loop (Some (last (itoa n))) n (length (itoa n)) fs rest"
proof -
  consider "n < 10" | "10 \<le> n" "n < 100" | "100 \<le> n" "n < 256" using assms by linarith
  then show ?thesis
  proof cases
    case 1
    then show ?thesis by (simp add: itoa_1digit digit_char_facts)
  next
    case 2
    then have "n div 10 < 10" "n div 10 \<noteq> 0" by auto
    then show ?thesis using 2 by (simp add: itoa_2digits digit_char_facts)
  next
    case 3
    have "n div 100 < 10" "n div 100 \<noteq> 0" "n div 10 mod 10 < 10" "n mod 10 < 10" using 3 by auto
    moreover have "n div 100 * 10 + n div 10 mod 10 = n div 10"
    proof -
      have "n div 100 = n div 10 div 10" by (simp add: div_mult2_eq[symmetric])
      then show ?thesis by presburger
    qed
    moreover have "n div 10 < 256" using 3 by linarith
    ultimately show ?thesis using 3 by (simp add: itoa_3digits digit_char_facts not_less)
  qed
qed

lemma last_itoa_digit: "is_digit (last (itoa n))"
  using set_itoa[of "last (itoa n)" n] by simp

lemma parse4_octets:
  assumes "a < 256" "b < 256" "c < 256" "d < 256"
  shows "parse4_fields (itoa a @ ''.'' @ itoa b @ ''.'' @ itoa c @ ''.'' @ itoa d) = Some [a, b, c, d]"
proof -
  have dot: "\<not> is_digit (CHR ''.'')" by (simp add: is_digit_def)
  have nd: "last (itoa k) \<noteq> CHR ''.''" for k using last_itoa_digit[of k] dot by metis
  show ?thesis
    using assms parse4_digits[of d _ _ "[]"]
    by (simp add: parse4_fields_def parse4_digits dot nd)
qed

lemma first_special_digits:
  "(\<forall>c\<in>set xs. is_digit c) \<Longrightarrow> first_special (xs @ ys) = first_special ys"
  by (induction xs) (auto simp: is_digit_def)

lemma parseAddr_addrString4 [simp]: "parseAddr (addrString4 w) = Some (V4 w)"
proof -
  have "first_special (addrString4 w) = Some (CHR ''.'')"
    by (simp add: addrString4_def first_special_digits set_itoa)
  moreover have "parse4_fields (addrString4 w) = Some (map unat (bytes4 w))"
    unfolding addrString4_def
    by (subst parse4_octets) (simp_all only: bytes4_nth One_nat_def unat_byte unat_byte0,
        simp_all add: bytes4_def unat_byte unat_byte0 del: unsigned_ucast_eq)
  ultimately show ?thesis by (simp add: parseAddr_def word_of_bytes_bytes4)
qed

lemma hd_itoa: "n < 1000 \<Longrightarrow> 1 < length (itoa n) \<Longrightarrow> 49 \<le> cnum (hd (itoa n)) \<and> cnum (hd (itoa n)) \<le> 57"
proof -
  assume n: "n < 1000" and l: "1 < length (itoa n)"
  have h: "49 \<le> cnum (digit_char k) \<and> cnum (digit_char k) \<le> 57" if "0 < k" "k < 10" for k
    using that by (auto simp: digit_char_def of_char_of)
  consider "n < 10" | "10 \<le> n" "n < 100" | "100 \<le> n" using n by linarith
  then show ?thesis
  proof cases
    case 1
    then show ?thesis using l by (simp add: itoa_1digit)
  next
    case 2
    then show ?thesis using h[of "n div 10"] by (simp add: itoa_2digits)
  next
    case 3
    then show ?thesis using h[of "n div 100"] n by (simp add: itoa_3digits)
  qed
qed

lemma parsePrefix_pfxString4 [simp]:
  assumes "n \<le> 32"
  shows "parsePrefix (pfxString4 w n) = Some (v4pfx w n)"
proof -
  have "CHR ''/'' \<notin> set (itoa n)" using set_itoa[of "CHR ''/''" n] by (auto simp: is_digit_def)
  then have "split_last (CHR ''/'') (pfxString4 w n) = Some (addrString4 w, itoa n)"
    by (simp add: pfxString4_def split_last_append)
  moreover have "\<not> (length (itoa n) > 1 \<and> (cnum (hd (itoa n)) < 49 \<or> 57 < cnum (hd (itoa n))))"
    using hd_itoa[of n] assms by auto
  ultimately show ?thesis
    using assms
    by (simp add: parsePrefix_def hasZone_def bitLen_def prefixFrom_def withoutZone_def addrIsValid_def)
qed

end
