(* ===== verification/Domain.thy ===== *)
theory Domain
  imports NetIP
begin

section \<open>The domain types (internal/domain)\<close>

text \<open>
  Pools, accounts, their creation and update commands, the search request and response, and
  the network schema policy with its normalisation and validation. Pool types, statuses and
  sources are strings in the code (any string can be stored; the API checks the valid ones),
  so they are strings here. A nil pointer, slice or map is \<open>None\<close>.
\<close>

subsection \<open>Pool enumerations\<close>

type_synonym pool_type = string
type_synonym pool_status = string
type_synonym pool_source = string

definition PoolTypeSupernet :: pool_type where "PoolTypeSupernet = ''supernet''"
definition PoolTypeRegion :: pool_type where "PoolTypeRegion = ''region''"
definition PoolTypeEnvironment :: pool_type where "PoolTypeEnvironment = ''environment''"
definition PoolTypeVPC :: pool_type where "PoolTypeVPC = ''vpc''"
definition PoolTypeSubnet :: pool_type where "PoolTypeSubnet = ''subnet''"

lemmas pool_type_defs = PoolTypeSupernet_def PoolTypeRegion_def PoolTypeEnvironment_def
  PoolTypeVPC_def PoolTypeSubnet_def

definition ValidPoolTypes :: "pool_type list" where
  "ValidPoolTypes = [PoolTypeSupernet, PoolTypeRegion, PoolTypeEnvironment, PoolTypeVPC, PoolTypeSubnet]"

definition IsValidPoolType :: "pool_type \<Rightarrow> bool" where
  "IsValidPoolType t = list_ex (\<lambda>valid. t = valid) ValidPoolTypes"

definition PoolStatusPlanned :: pool_status where "PoolStatusPlanned = ''planned''"
definition PoolStatusActive :: pool_status where "PoolStatusActive = ''active''"
definition PoolStatusDeprecated :: pool_status where "PoolStatusDeprecated = ''deprecated''"

definition ValidPoolStatuses :: "pool_status list" where
  "ValidPoolStatuses = [PoolStatusPlanned, PoolStatusActive, PoolStatusDeprecated]"

definition IsValidPoolStatus :: "pool_status \<Rightarrow> bool" where
  "IsValidPoolStatus s = list_ex (\<lambda>valid. s = valid) ValidPoolStatuses"

definition PoolSourceManual :: pool_source where "PoolSourceManual = ''manual''"
definition PoolSourceDiscovered :: pool_source where "PoolSourceDiscovered = ''discovered''"
definition PoolSourceImported :: pool_source where "PoolSourceImported = ''imported''"

definition ValidPoolSources :: "pool_source list" where
  "ValidPoolSources = [PoolSourceManual, PoolSourceDiscovered, PoolSourceImported]"

definition IsValidPoolSource :: "pool_source \<Rightarrow> bool" where
  "IsValidPoolSource s = list_ex (\<lambda>valid. s = valid) ValidPoolSources"

subsection \<open>Pools and accounts\<close>

type_synonym tags = "(string, string) gomap option"

record pool =
  poolID :: go_id
  poolName :: string
  poolCIDR :: string
  poolParentID :: "go_id option"
  poolAccountID :: "go_id option"
  poolType :: pool_type
  poolStatus :: pool_status
  poolSource :: pool_source
  poolDescription :: string
  poolTags :: tags
  poolCreatedAt :: go_time
  poolUpdatedAt :: go_time
  poolDeletedAt :: "go_time option"

record pool_stats =
  TotalIPs :: int
  UsedIPs :: int
  AvailableIPs :: int
  Utilization :: rat
  ChildCount :: int
  DirectChildren :: int

datatype pool_with_stats = PoolWithStats (pwsPool: pool) (pwsStats: pool_stats)
  (pwsChildren: "pool_with_stats list")

record create_pool =
  cpName :: string
  cpCIDR :: string
  cpParentID :: "go_id option"
  cpAccountID :: "go_id option"
  cpType :: pool_type
  cpStatus :: pool_status
  cpSource :: pool_source
  cpDescription :: string
  cpTags :: tags

record update_pool =
  upName :: "string option"
  upAccountID :: "go_id option"
  upType :: "pool_type option"
  upStatus :: "pool_status option"
  upDescription :: "string option"
  upTags :: "tags option"

record account =
  accID :: go_id
  accKey :: string
  accName :: string
  accProvider :: string
  accExternalID :: string
  accDescription :: string
  accPlatform :: string
  accTier :: string
  accEnvironment :: string
  accRegions :: "string list option"
  accCreatedAt :: go_time
  accUpdatedAt :: go_time
  accDeletedAt :: "go_time option"

record create_account =
  caKey :: string
  caName :: string
  caProvider :: string
  caExternalID :: string
  caDescription :: string
  caPlatform :: string
  caTier :: string
  caEnvironment :: string
  caRegions :: "string list option"

subsection \<open>Search requests\<close>

record search_request =
  srQuery :: string
  srCIDRContains :: string
  srCIDRWithin :: string
  srTypes :: "string list"
  srPage :: int
  srPageSize :: int

record search_item =
  siType :: string
  siID :: go_id
  siName :: string
  siCIDR :: string
  siDescription :: string
  siStatus :: string
  siPoolType :: string
  siAccountKey :: string
  siProvider :: string
  siParentID :: "go_id option"
  siAccountID :: "go_id option"

record search_response =
  spItems :: "search_item list"
  spTotal :: int
  spPage :: int
  spPageSize :: int

subsection \<open>The network schema policy\<close>

record schema_policy =
  npName :: string
  npOwnership :: string
  npDuplicate :: string
  npHierarchy :: string
  npManual :: bool

definition DefaultNetworkSchemaPolicy :: schema_policy where
  "DefaultNetworkSchemaPolicy = \<lparr>npName = ''account_level'', npOwnership = ''account'',
     npDuplicate = ''account'', npHierarchy = ''account'', npManual = False\<rparr>"

definition NormalizeNetworkSchemaPolicy :: "schema_policy option \<Rightarrow> schema_policy" where
  "NormalizeNetworkSchemaPolicy policy = (case policy of
     None \<Rightarrow> DefaultNetworkSchemaPolicy
   | Some p \<Rightarrow>
      (let name = toLower (trimSpace (npName p)) in
       if name = ''region_level'' then
         \<lparr>npName = name, npOwnership = ''region'', npDuplicate = ''region'', npHierarchy = ''region'',
          npManual = False\<rparr>
       else if name = ''global'' then
         \<lparr>npName = name, npOwnership = ''global'', npDuplicate = ''global'', npHierarchy = ''global'',
          npManual = False\<rparr>
       else if name = ''custom'' \<or> name = ''manual'' then
         \<lparr>npName = name, npOwnership = ''manual'',
          npDuplicate = (if toLower (trimSpace (npDuplicate p)) = ''global'' then ''global'' else ''manual''),
          npHierarchy = ''manual'', npManual = True\<rparr>
       else DefaultNetworkSchemaPolicy))"

definition ValidateNetworkSchemaPolicy :: "schema_policy option \<Rightarrow> string" where
  "ValidateNetworkSchemaPolicy policy = (case policy of
     None \<Rightarrow> ''policy is required''
   | Some p \<Rightarrow>
      (let name = toLower (trimSpace (npName p)) in
       if name = ''account_level'' \<or> name = ''region_level'' \<or> name = ''global'' then
         (let normalized = NormalizeNetworkSchemaPolicy policy in
          if npOwnership p \<noteq> [] \<and> toLower (trimSpace (npOwnership p)) \<noteq> npOwnership normalized
          then ''ownership_strategy does not match schema policy''
          else if npDuplicate p \<noteq> [] \<and> toLower (trimSpace (npDuplicate p)) \<noteq> npDuplicate normalized
          then ''duplicate_scope does not match schema policy''
          else if npHierarchy p \<noteq> [] \<and> toLower (trimSpace (npHierarchy p)) \<noteq> npHierarchy normalized
          then ''hierarchy_scope does not match schema policy''
          else '''')
       else if name = ''custom'' \<or> name = ''manual'' then
         (let duplicateScope = toLower (trimSpace (npDuplicate p)) in
          if npOwnership p \<noteq> [] \<and> toLower (trimSpace (npOwnership p)) \<noteq> ''manual''
          then ''ownership_strategy does not match schema policy''
          else if duplicateScope \<noteq> [] \<and> duplicateScope \<noteq> ''manual'' \<and> duplicateScope \<noteq> ''global''
          then ''duplicate_scope for manual policy must be manual or global''
          else if npHierarchy p \<noteq> [] \<and> toLower (trimSpace (npHierarchy p)) \<noteq> ''manual''
          then ''hierarchy_scope does not match schema policy''
          else '''')
       else ''schema policy must be account_level, region_level, global, manual, or custom''))"

lemma canonical_words:
  "toLower (trimSpace ''account_level'') = ''account_level''"
  "toLower (trimSpace ''region_level'') = ''region_level''"
  "toLower (trimSpace ''account'') = ''account''"
  "toLower (trimSpace ''region'') = ''region''"
  "toLower (trimSpace ''global'') = ''global''"
  "toLower (trimSpace ''manual'') = ''manual''"
  "toLower (trimSpace ''custom'') = ''custom''"
  by (simp_all add: trimSpace_graphic graphic_def toLower_def lower_char_def)

text \<open>The possible results of normalisation.\<close>

definition canonical_policies :: "schema_policy list" where
  "canonical_policies =
     DefaultNetworkSchemaPolicy
     # map (\<lambda>(n, s). \<lparr>npName = n, npOwnership = s, npDuplicate = s, npHierarchy = s, npManual = False\<rparr>)
         [(''region_level'', ''region''), (''global'', ''global'')]
     @ map (\<lambda>(n, d). \<lparr>npName = n, npOwnership = ''manual'', npDuplicate = d, npHierarchy = ''manual'',
           npManual = True\<rparr>)
         [(''custom'', ''manual''), (''custom'', ''global''), (''manual'', ''manual''), (''manual'', ''global'')]"

lemma Normalize_canonical: "NormalizeNetworkSchemaPolicy policy \<in> set canonical_policies"
  by (cases policy)
    (auto simp: NormalizeNetworkSchemaPolicy_def canonical_policies_def Let_def)

lemma canonical_fixed_all:
  "list_all (\<lambda>p. NormalizeNetworkSchemaPolicy (Some p) = p) canonical_policies"
  by (simp add: canonical_policies_def NormalizeNetworkSchemaPolicy_def DefaultNetworkSchemaPolicy_def
      canonical_words Let_def)

lemma canonical_fixed:
  "p \<in> set canonical_policies \<Longrightarrow> NormalizeNetworkSchemaPolicy (Some p) = p"
  using canonical_fixed_all by (simp add: list_all_iff)

definition clean_policy :: "schema_policy \<Rightarrow> bool" where
  "clean_policy p \<longleftrightarrow> toLower (trimSpace (npName p)) = npName p
     \<and> toLower (trimSpace (npOwnership p)) = npOwnership p
     \<and> toLower (trimSpace (npDuplicate p)) = npDuplicate p
     \<and> toLower (trimSpace (npHierarchy p)) = npHierarchy p"

lemma canonical_clean_all: "list_all clean_policy canonical_policies"
  by (simp add: canonical_policies_def clean_policy_def DefaultNetworkSchemaPolicy_def canonical_words)

lemma fixed_clean_valid:
  assumes "NormalizeNetworkSchemaPolicy (Some p) = p" "clean_policy p"
    "npName p \<in> {''account_level'', ''region_level'', ''global''}"
  shows "ValidateNetworkSchemaPolicy (Some p) = []"
  using assms by (auto simp: ValidateNetworkSchemaPolicy_def clean_policy_def Let_def)

lemma manual_clean_valid:
  assumes "clean_policy p" "npName p \<in> {''custom'', ''manual''}" "npOwnership p = ''manual''"
    "npHierarchy p = ''manual''" "npDuplicate p \<in> {''manual'', ''global''}"
  shows "ValidateNetworkSchemaPolicy (Some p) = []"
proof -
  have low: "toLower (trimSpace (npName p)) = npName p" "toLower (trimSpace (npDuplicate p)) = npDuplicate p"
    "toLower (trimSpace (npOwnership p)) = ''manual''" "toLower (trimSpace (npHierarchy p)) = ''manual''"
    using assms(1) unfolding clean_policy_def assms(3,4) by blast+
  have n: "npName p = ''custom'' \<or> npName p = ''manual''" using assms(2) by blast
  have na: "(npName p = ''account_level'' \<or> npName p = ''region_level'' \<or> npName p = ''global'') = False"
    using n by (elim disjE) (simp_all only:, simp_all)
  have d: "(npDuplicate p \<noteq> [] \<and> npDuplicate p \<noteq> ''manual'' \<and> npDuplicate p \<noteq> ''global'') = False"
    using assms(5) by blast
  show ?thesis
    unfolding ValidateNetworkSchemaPolicy_def Let_def option.case low na if_False d
    using n by (simp only: if_True not_True_eq_False simp_thms if_False)
qed

lemma canonical_split_all:
  "list_all (\<lambda>p. npName p \<in> {''account_level'', ''region_level'', ''global''}
     \<or> (npName p \<in> {''custom'', ''manual''} \<and> npOwnership p = ''manual'' \<and> npHierarchy p = ''manual''
        \<and> npDuplicate p \<in> {''manual'', ''global''})) canonical_policies"
  by (simp add: canonical_policies_def DefaultNetworkSchemaPolicy_def)

lemma canonical_valid:
  assumes "p \<in> set canonical_policies"
  shows "ValidateNetworkSchemaPolicy (Some p) = []"
proof -
  have "clean_policy p" using canonical_clean_all assms by (simp only: list_all_iff)
  moreover have "npName p \<in> {''account_level'', ''region_level'', ''global''}
     \<or> (npName p \<in> {''custom'', ''manual''} \<and> npOwnership p = ''manual'' \<and> npHierarchy p = ''manual''
        \<and> npDuplicate p \<in> {''manual'', ''global''})"
    using canonical_split_all assms unfolding list_all_iff by (rule bspec)
  ultimately show ?thesis
    using fixed_clean_valid[OF canonical_fixed[OF assms]] manual_clean_valid[of p] by blast
qed

end
