(* ===== verification/Cidr.thy ===== *)
theory Cidr
  imports Domain
begin

section \<open>CIDR arithmetic (internal/cidr, internal/api/cidr.go, internal/planning/cidr\_helpers.go)\<close>

text \<open>
  The three packages have their own CIDR helpers: \<open>cidr.PrefixContains\<close> sets host bits byte
  by byte, \<open>api.lastAddr\<close> works on \<open>uint32\<close>, \<open>planning.prefixToInterval\<close> computes an
  interval. Each is modelled as it is written, on 32-bit words with wrap-around, and the
  lemmas relate them all to the address set \<open>addrs4 w n\<close> of a prefix. A function that can
  panic (\<open>As4\<close> on an IPv6 address) returns \<open>None\<close> there.
\<close>

subsection \<open>internal/cidr/cidr.go\<close>

definition set_host_bit :: "nat \<Rightarrow> 8 word list \<Rightarrow> 8 word list" where
  "set_host_bit i a4 = a4[3 - i div 8 := a4 ! (3 - i div 8) OR push_bit (i mod 8) 1]"

definition cidr_lastAddr :: "nprefix \<Rightarrow> addr option" where
  "cidr_lastAddr p = (case as4 (pfxAddr (masked p)) of
     None \<Rightarrow> None
   | Some a4 \<Rightarrow> Some (V4 (be32 (fold set_host_bit [0 ..< nat (32 - pfxBits p)] a4))))"

text \<open>\<open>lastAddr\<close> cannot panic here: both prefixes have passed \<open>Is4\<close>.\<close>

definition PrefixContains :: "nprefix \<Rightarrow> nprefix \<Rightarrow> bool" where
  "PrefixContains outer inner =
     (if \<not> pfxIsValid outer \<or> \<not> pfxIsValid inner then False
      else if \<not> is4 (pfxAddr outer) \<or> \<not> is4 (pfxAddr inner) then False
      else if pfxBits inner < pfxBits outer then False
      else pfxContains outer (pfxAddr (masked inner)) \<and>
        (case cidr_lastAddr inner of None \<Rightarrow> False | Some a \<Rightarrow> pfxContains outer a))"

definition PrefixContainsAddr :: "nprefix \<Rightarrow> addr \<Rightarrow> bool" where
  "PrefixContainsAddr p a =
     (if \<not> pfxIsValid p \<or> \<not> addrIsValid a then False else pfxContains p a)"

datatype cidr_parse_error = OnlyIPv4Supported | InvalidCIDROrIP

definition ParseCIDROrIP :: "string \<Rightarrow> cidr_parse_error + nprefix" where
  "ParseCIDROrIP s = (case parsePrefix s of
     Some p \<Rightarrow> if \<not> is4 (pfxAddr p) then Inl OnlyIPv4Supported else Inr (masked p)
   | None \<Rightarrow>
      (case parseAddr s of
         Some a \<Rightarrow> if \<not> is4 a then Inl OnlyIPv4Supported else Inr (prefixFrom a 32)
       | None \<Rightarrow> Inl InvalidCIDROrIP))"

subsection \<open>internal/api/cidr.go\<close>

definition api_ipv4ToUint32 :: "addr \<Rightarrow> 32 word option" where
  "api_ipv4ToUint32 a = map_option be32 (as4 a)"

text \<open>Through the textual form, as the code does.\<close>

definition api_uint32ToIPv4 :: "32 word \<Rightarrow> addr" where
  "api_uint32ToIPv4 u = (case parseAddr (addrString4 u) of Some a \<Rightarrow> a | None \<Rightarrow> NoAddr)"

definition api_lastAddr :: "nprefix \<Rightarrow> addr option" where
  "api_lastAddr p =
     (if \<not> is4 (pfxAddr p) then None
      else case api_ipv4ToUint32 (pfxAddr (masked p)) of
        None \<Rightarrow> None
      | Some base \<Rightarrow> Some (api_uint32ToIPv4 (base + push_bit (nat (32 - pfxBits p)) 1 - 1)))"

datatype child_error = InvalidParent | InvalidChild | ChildOnlyIPv4 | ChildLenNotGreater | ChildNotWithin

text \<open>\<open>None\<close> is the nil error.\<close>

definition validateChildCIDR :: "string \<Rightarrow> string \<Rightarrow> child_error option" where
  "validateChildCIDR parentCIDR childCIDR = (case parsePrefix parentCIDR of
     None \<Rightarrow> Some InvalidParent
   | Some pp \<Rightarrow> (case parsePrefix childCIDR of
       None \<Rightarrow> Some InvalidChild
     | Some cp \<Rightarrow>
         if \<not> is4 (pfxAddr pp) \<or> \<not> is4 (pfxAddr cp) then Some ChildOnlyIPv4
         else if pfxBits cp \<le> pfxBits pp then Some ChildLenNotGreater
         else (case api_lastAddr cp of
             None \<Rightarrow> Some ChildOnlyIPv4
           | Some cend \<Rightarrow>
               if \<not> pfxContains pp (pfxAddr (masked cp)) \<or> \<not> pfxContains pp cend
               then Some ChildNotWithin else None)))"

definition prefixesOverlapIPv4 :: "nprefix \<Rightarrow> nprefix \<Rightarrow> bool" where
  "prefixesOverlapIPv4 a b =
     (if \<not> is4 (pfxAddr a) \<or> \<not> is4 (pfxAddr b) then False
      else case (api_ipv4ToUint32 (pfxAddr (masked a)), Option.bind (api_lastAddr a) api_ipv4ToUint32,
                 api_ipv4ToUint32 (pfxAddr (masked b)), Option.bind (api_lastAddr b) api_ipv4ToUint32) of
        (Some aStart, Some aEnd, Some bStart, Some bEnd) \<Rightarrow> aEnd \<ge> bStart \<and> bEnd \<ge> aStart
      | _ \<Rightarrow> False)"

definition usableHostsIPv4 :: "int \<Rightarrow> nat" where
  "usableHostsIPv4 prefixLen =
     (if prefixLen < 0 \<or> prefixLen > 32 then 0
      else let total = 2 ^ nat (32 - prefixLen)
        in if prefixLen \<le> 30 \<and> total \<ge> 2 then total - 2 else total)"

definition MaxSubnetExpansion :: int where
  "MaxSubnetExpansion = 65536"

datatype subnets_error = SubnetsInvalidParent | SubnetsOnlyIPv4 | SubnetsBadLen int | SubnetsTooMany int

definition subnet_string :: "32 word \<Rightarrow> int \<Rightarrow> int \<Rightarrow> string" where
  "subnet_string base newPrefixLen i =
     (case api_uint32ToIPv4 (base + of_int i * push_bit (nat (32 - newPrefixLen)) 1) of
        V4 w \<Rightarrow> pfxString4 w (nat newPrefixLen)
      | _ \<Rightarrow> ''invalid Prefix'')"

definition computeSubnetsIPv4Window ::
  "string \<Rightarrow> int \<Rightarrow> int \<Rightarrow> int \<Rightarrow> subnets_error + (string list \<times> nat \<times> int)" where
  "computeSubnetsIPv4Window parentCIDR newPrefixLen offset limit = (case parsePrefix parentCIDR of
     None \<Rightarrow> Inl SubnetsInvalidParent
   | Some pp \<Rightarrow>
       if \<not> is4 (pfxAddr pp) then Inl SubnetsOnlyIPv4
       else if newPrefixLen < pfxBits pp \<or> newPrefixLen > 32 then Inl (SubnetsBadLen (pfxBits pp))
       else (case api_ipv4ToUint32 (pfxAddr (masked pp)) of
           None \<Rightarrow> Inl SubnetsOnlyIPv4
         | Some base \<Rightarrow>
            (let count = 2 ^ nat (newPrefixLen - pfxBits pp);
                 off = (if offset < 0 then 0 else if offset > count then count else offset);
                 lim = (if limit > MaxSubnetExpansion then MaxSubnetExpansion else limit)
             in if limit \<le> 0 \<and> count > MaxSubnetExpansion then Inl (SubnetsTooMany count)
                else
                 (let start = (if limit > 0 then off else 0);
                      end' = (if limit > 0 then (if off + lim > count then count else off + lim) else count)
                  in Inr (map (subnet_string base newPrefixLen) [start .. end' - 1],
                          usableHostsIPv4 newPrefixLen, count)))))"

subsection \<open>internal/planning/cidr\_helpers.go and types.go\<close>

type_synonym interval = "32 word \<times> 32 word"

definition planning_ipv4ToUint32 :: "addr \<Rightarrow> 32 word option" where
  "planning_ipv4ToUint32 a = map_option be32 (as4 a)"

definition planning_uint32ToIPv4 :: "32 word \<Rightarrow> addr" where
  "planning_uint32ToIPv4 u = V4 (be32 (bytes4 u))"

text \<open>\<open>As4\<close> panics on an IPv6 prefix, and so does the negative shift on an IPv4-mapped one.\<close>

definition prefixToInterval :: "nprefix \<Rightarrow> interval option" where
  "prefixToInterval p = (case planning_ipv4ToUint32 (pfxAddr (masked p)) of
     None \<Rightarrow> None
   | Some start \<Rightarrow>
       if pfxBits p > 32 then None
       else Some (start, start + push_bit (nat (32 - pfxBits p)) 1 - 1))"

definition prefixesOverlap :: "nprefix \<Rightarrow> nprefix \<Rightarrow> bool option" where
  "prefixesOverlap a b = (case (prefixToInterval (masked a), prefixToInterval (masked b)) of
     (Some ai, Some bi) \<Rightarrow> Some (snd ai \<ge> fst bi \<and> snd bi \<ge> fst ai)
   | _ \<Rightarrow> None)"

text \<open>\<open>bits.TrailingZeros32\<close>, \<open>bits.Len64\<close> and \<open>bits.LeadingZeros64\<close>.\<close>

fun ctz_nat :: "nat \<Rightarrow> nat" where
  "ctz_nat n = (if n = 0 \<or> odd n then 0 else Suc (ctz_nat (n div 2)))"

declare ctz_nat.simps [simp del]

definition trailingZeros32 :: "32 word \<Rightarrow> nat" where
  "trailingZeros32 w = (if w = 0 then 32 else ctz_nat (unat w))"

fun bit_len :: "nat \<Rightarrow> nat" where
  "bit_len n = (if n = 0 then 0 else Suc (bit_len (n div 2)))"

declare bit_len.simps [simp del]

definition leadingZeros64 :: "nat \<Rightarrow> nat" where
  "leadingZeros64 n = 64 - bit_len n"

definition fit_bits :: "32 word \<Rightarrow> 32 word \<Rightarrow> nat" where
  "fit_bits start end' =
     (let maxBits = (if start \<noteq> 0 then trailingZeros32 start else 32);
          remaining = unat end' - unat start + 1;
          fitBits = 63 - leadingZeros64 remaining
      in if fitBits > maxBits then maxBits else fitBits)"

lemma bit_len_bounds: "0 < n \<Longrightarrow> 2 ^ (bit_len n - 1) \<le> n \<and> n < 2 ^ bit_len n \<and> 0 < bit_len n"
proof (induction n rule: bit_len.induct)
  case (1 n)
  show ?case
  proof (cases "n div 2 = 0")
    case True
    with 1 have "n = 1" by linarith
    then show ?thesis by (simp add: bit_len.simps)
  next
    case False
    with 1 have ih: "2 ^ (bit_len (n div 2) - 1) \<le> n div 2" "n div 2 < 2 ^ bit_len (n div 2)"
      "0 < bit_len (n div 2)" by auto
    have b: "bit_len n = Suc (bit_len (n div 2))" using 1 by (subst bit_len.simps) simp
    have "(2::nat) ^ bit_len (n div 2) = 2 * 2 ^ (bit_len (n div 2) - 1)"
      using ih(3) by (cases "bit_len (n div 2)") auto
    moreover have "n = 2 * (n div 2) + n mod 2" "n mod 2 < 2" by simp_all
    ultimately have "2 ^ bit_len (n div 2) \<le> n" "n < 2 * 2 ^ bit_len (n div 2)"
      using ih by linarith+
    then show ?thesis unfolding b by simp
  qed
qed

lemma bit_len_le: "n < 2 ^ k \<Longrightarrow> bit_len n \<le> k"
proof (cases "n = 0")
  case True
  then show ?thesis by (simp add: bit_len.simps)
next
  case False
  assume "n < 2 ^ k"
  moreover have b: "2 ^ (bit_len n - 1) \<le> n" "0 < bit_len n" using bit_len_bounds[of n] False by auto
  ultimately have "(2::nat) ^ (bit_len n - 1) < 2 ^ k" by linarith
  then have "bit_len n - 1 < k" by (rule power_less_imp_less_exp[rotated]) simp
  with b(2) show ?thesis by linarith
qed

lemma ctz_dvd: "2 ^ ctz_nat n dvd n"
proof (induction n rule: ctz_nat.induct)
  case (1 n)
  show ?case
  proof (cases "n = 0 \<or> odd n")
    case True
    then show ?thesis by (subst ctz_nat.simps) simp
  next
    case False
    with 1 have "2 ^ ctz_nat (n div 2) dvd n div 2" by simp
    then have "2 * 2 ^ ctz_nat (n div 2) dvd 2 * (n div 2)" by (rule mult_dvd_mono[OF dvd_refl])
    with False show ?thesis by (subst ctz_nat.simps) simp
  qed
qed

lemma ctz_greatest: "0 < n \<Longrightarrow> 2 ^ k dvd n \<Longrightarrow> k \<le> ctz_nat n"
proof (induction n arbitrary: k rule: ctz_nat.induct)
  case (1 n)
  show ?case
  proof (cases k)
    case 0
    then show ?thesis by simp
  next
    case (Suc j)
    with 1 have e: "even n" by (metis dvd_trans dvd_triv_left power_Suc)
    with 1 Suc have "2 ^ j dvd n div 2" by (auto elim!: dvdE)
    with 1 e have "j \<le> ctz_nat (n div 2)" by auto
    with 1 e Suc show ?thesis by (subst ctz_nat.simps) simp
  qed
qed

lemma fit_bits_facts:
  assumes "start \<le> end'"
  shows "fit_bits start end' \<le> 32"
    and "2 ^ fit_bits start end' dvd unat start"
    and "unat start + 2 ^ fit_bits start end' \<le> unat end' + 1"
    and "\<And>k. k \<le> 32 \<Longrightarrow> 2 ^ k dvd unat start \<Longrightarrow> unat start + 2 ^ k \<le> unat end' + 1
      \<Longrightarrow> k \<le> fit_bits start end'"
proof -
  let ?r = "unat end' - unat start + 1"
  have se: "unat start \<le> unat end'" using assms by (simp add: word_le_nat_alt)
  have r32: "?r \<le> 2 ^ 32" using unat_le32[of end'] by simp
  then have r33: "?r < 2 ^ 33" by simp
  have l: "bit_len ?r \<le> 33" using bit_len_le[OF r33] .
  have f: "63 - leadingZeros64 ?r = bit_len ?r - 1"
    unfolding leadingZeros64_def using bit_len_bounds[of ?r] l by simp
  have b: "2 ^ (bit_len ?r - 1) \<le> ?r" "?r < 2 ^ bit_len ?r" using bit_len_bounds[of ?r] by auto
  let ?m = "if start \<noteq> 0 then trailingZeros32 start else 32"
  have fb: "fit_bits start end' = min ?m (bit_len ?r - 1)"
    unfolding fit_bits_def Let_def f by auto
  have m: "2 ^ ?m dvd unat start"
    by (simp add: trailingZeros32_def ctz_dvd)
  show "fit_bits start end' \<le> 32" unfolding fb using l by auto
  have "(2::nat) ^ fit_bits start end' dvd 2 ^ ?m" unfolding fb by (intro le_imp_power_dvd) simp
  then show "2 ^ fit_bits start end' dvd unat start" using m by (rule dvd_trans)
  have "(2::nat) ^ fit_bits start end' \<le> 2 ^ (bit_len ?r - 1)"
    unfolding fb by (intro power_increasing) auto
  then show "unat start + 2 ^ fit_bits start end' \<le> unat end' + 1" using b se by linarith
  fix k :: nat
  assume k: "k \<le> 32" "2 ^ k dvd unat start" "unat start + 2 ^ k \<le> unat end' + 1"
  then have "2 ^ k \<le> ?r" by linarith
  with b have "(2::nat) ^ k < 2 ^ bit_len ?r" by linarith
  then have "k < bit_len ?r" by simp
  moreover have "k \<le> ?m"
    using k ctz_greatest[of "unat start" k] by (simp add: trailingZeros32_def unat_gt_0)
  ultimately show "k \<le> fit_bits start end'" unfolding fb by simp
qed

declare push_bit_of_1 [simp del]

lemma unat_push: "unat (push_bit k 1 :: 32 word) = 2 ^ k mod 4294967296"
  by (subst unsigned_push_bit_eq) (simp add: push_bit_eq_mult take_bit_eq_mod)

lemma unat_push1 [word_arith]: "k < 32 \<Longrightarrow> unat (push_bit k 1 :: 32 word) = 2 ^ k"
proof -
  assume "k < 32"
  then have "(2::nat) ^ k < 2 ^ 32" by (intro power_strict_increasing) simp_all
  then show ?thesis unfolding unat_push by simp
qed

lemma push1_32 [simp]: "push_bit 32 (1 :: 32 word) = 0"
  unfolding unat_eq_iff32 unat_push by simp

lemma next_start:
  assumes "start \<le> end'"
  shows "if unat start + 2 ^ fit_bits start end' = 4294967296
    then start + push_bit (fit_bits start end') 1 = 0
    else unat (start + push_bit (fit_bits start end') 1) = unat start + 2 ^ fit_bits start end'"
proof -
  note f = fit_bits_facts[OF assms]
  let ?k = "fit_bits start end'"
  have le: "unat start + 2 ^ ?k \<le> 4294967296" using f(3) unat_le32[of end'] by linarith
  show ?thesis
  proof (cases "?k = 32")
    case True
    then show ?thesis using le unfolding True push1_32 by (simp add: unat_eq_0)
  next
    case False
    then have u: "unat (push_bit ?k 1 :: 32 word) = 2 ^ ?k" using f(1) by (simp add: unat_push1)
    have "unat (start + push_bit ?k 1) = (unat start + 2 ^ ?k) mod 4294967296"
      using u by (simp only: unat_word_ariths) simp
    then show ?thesis using le by (auto simp: unat_eq_0[symmetric] less_le)
  qed
qed

function rangeToCIDRs :: "32 word \<Rightarrow> 32 word \<Rightarrow> nprefix list" where
  "rangeToCIDRs start end' =
     (if start \<le> end' then
        (let fitBits = fit_bits start end';
             prefixLen = 32 - int fitBits;
             start' = start + push_bit fitBits 1
         in prefixFrom (planning_uint32ToIPv4 start) prefixLen
            # (if start' = 0 then [] else rangeToCIDRs start' end'))
      else [])"
  by pat_completeness auto
termination
proof (relation "measure (\<lambda>(s, e). unat e + 1 - unat s)", goal_cases)
  case 1
  show ?case by simp
next
  case (2 start end' fitBits prefixLen start')
  then have "unat start' = unat start + 2 ^ fit_bits start end'"
    using next_start[OF 2(1)] by (auto split: if_splits)
  moreover have "unat start \<le> unat end'" using 2(1) by (simp add: word_le_nat_alt)
  moreover have "(0::nat) < 2 ^ fit_bits start end'" by simp
  ultimately have "unat end' + 1 - unat start' < unat end' + 1 - unat start" by linarith
  then show ?case by simp
qed

declare rangeToCIDRs.simps [simp del]

definition rfc1918_prefixes :: "nprefix list" where
  "rfc1918_prefixes = List.map_filter parsePrefix [''10.0.0.0/8'', ''172.16.0.0/12'', ''192.168.0.0/16'']"

definition isRFC1918 :: "nprefix \<Rightarrow> bool option" where
  "isRFC1918 p = (case prefixToInterval (masked p) of
     None \<Rightarrow> None
   | Some piv \<Rightarrow> Some (list_ex (\<lambda>r. case prefixToInterval r of
         None \<Rightarrow> False | Some ri \<Rightarrow> fst piv \<ge> fst ri \<and> snd piv \<le> snd ri) rfc1918_prefixes))"

text \<open>\<open>1 << (32 - p.Bits())\<close> in 64 bits; the argument is an IPv4 prefix at every call.\<close>

definition prefixAddressCount :: "nprefix \<Rightarrow> nat" where
  "prefixAddressCount p = 2 ^ nat (32 - pfxBits p)"

end
