(* ===== verification/CidrFacts.thy ===== *)
theory CidrFacts
  imports Cidr
begin

section \<open>What the CIDR helpers compute\<close>

text \<open>
  Every helper of theory \<open>Cidr\<close> related to the address set of a prefix: last addresses,
  intervals, containment and overlap tests, the split of a range into aligned blocks (an exact
  and minimal cover), and the window of subnets of a parent.
\<close>

subsection \<open>Last addresses and intervals\<close>

definition last4 :: "32 word \<Rightarrow> nat \<Rightarrow> 32 word" where
  "last4 w n = netmask4 n w + push_bit (32 - n) 1 - 1"

lemma unat_last4 [word_arith]:
  assumes "n \<le> 32"
  shows "unat (last4 w n) = net_hi w n"
proof (cases "n = 0")
  case True
  have "net_lo w 0 = 0" unfolding net_lo_def block_size_def by simp
  then have "netmask4 0 w = 0" by (simp add: unat_eq_iff32 unat_netmask4)
  then show ?thesis
    unfolding last4_def True by (simp add: unat_max32 net_hi_def net_lo_def block_size_def)
next
  case False
  then have k: "32 - n < 32" using assms by simp
  have lo: "net_lo w n + block_size n \<le> 4294967296"
    using net_hi_lt[OF assms, of w] block_size_pos[of n] unfolding net_hi_def by linarith
  have bs: "1 \<le> unat (push_bit (32 - n) 1 :: 32 word)" by (simp add: unat_push1[OF k])
  have "push_bit (32 - n) (1 :: 32 word) \<noteq> 0" using bs by (metis unat_0 not_one_le_zero)
  then have "unat (push_bit (32 - n) 1 - 1 :: 32 word) = block_size n - 1"
    by (simp add: unat_sub1 unat_push1[OF k] block_size_def)
  moreover have "last4 w n = netmask4 n w + (push_bit (32 - n) 1 - 1)" by (simp add: last4_def)
  ultimately show ?thesis
    using lo block_size_pos[of n] by (simp add: unat_add_noov unat_netmask4 net_hi_def)
qed

lemma netmask4_le: "netmask4 n w \<le> x \<longleftrightarrow> net_lo w n \<le> unat x"
  by (simp add: word_le_nat_alt unat_netmask4)

lemma le_last4: "n \<le> 32 \<Longrightarrow> x \<le> last4 w n \<longleftrightarrow> unat x \<le> net_hi w n"
  by (simp add: word_le_nat_alt unat_last4)

lemma addrs4_range: "n \<le> 32 \<Longrightarrow> addrs4 w n = {netmask4 n w .. last4 w n}"
  by (auto simp: in_addrs4 netmask4_le le_last4)

lemma net_lo_le_hi [simp]: "net_lo w n \<le> net_hi w n"
  by (simp add: net_hi_def del: One_nat_def)

lemma net_hi_less: "net_hi w n < x \<longleftrightarrow> net_lo w n + block_size n \<le> x"
  using block_size_pos[of n] unfolding net_hi_def by linarith

lemma le_net_hi: "x \<le> net_hi w n \<longleftrightarrow> x < net_lo w n + block_size n"
  using block_size_pos[of n] unfolding net_hi_def by linarith

lemma netmask4_in [simp]: "netmask4 n w \<in> addrs4 w n"
  by (simp add: in_addrs4 unat_netmask4)

lemma last4_in [simp]: "n \<le> 32 \<Longrightarrow> last4 w n \<in> addrs4 w n"
  by (simp add: in_addrs4 unat_last4)

lemma last4_netmask4 [simp]: "n \<le> 32 \<Longrightarrow> last4 (netmask4 n w) n = last4 w n"
  by (simp add: unat_eq_iff32 unat_last4)

lemma as4_V4 [simp]: "as4 (V4 w) = Some (bytes4 w)"
  by (simp add: as4_def)

lemma ipv4ToUint32_V4 [simp]: "api_ipv4ToUint32 (V4 w) = Some w" "planning_ipv4ToUint32 (V4 w) = Some w"
  by (simp_all add: api_ipv4ToUint32_def planning_ipv4ToUint32_def)

lemma uint32ToIPv4_V4 [simp]: "api_uint32ToIPv4 u = V4 u" "planning_uint32ToIPv4 u = V4 u"
  by (simp_all add: api_uint32ToIPv4_def planning_uint32ToIPv4_def)

lemma nat_minus_int: "n \<le> 32 \<Longrightarrow> nat (32 - int n) = 32 - n"
  by simp

lemma api_lastAddr_v4 [simp]: "n \<le> 32 \<Longrightarrow> api_lastAddr (v4pfx w n) = Some (V4 (last4 w n))"
  by (simp add: api_lastAddr_def last4_def nat_minus_int)

lemma prefixToInterval_v4 [simp]:
  "n \<le> 32 \<Longrightarrow> prefixToInterval (v4pfx w n) = Some (netmask4 n w, last4 w n)"
  by (simp add: prefixToInterval_def last4_def nat_minus_int)

lemma list4_upd:
  "[a, b, c, d][3 := x] = [a, b, c, x]" "[a, b, c, d][2 := x] = [a, b, x, d]"
  "[a, b, c, d][1 := x] = [a, x, c, d]" "[a, b, c, d][0 := x] = [x, b, c, d]"
  "[a, b, c, d] ! 3 = d" "[a, b, c, d] ! 2 = c" "[a, b, c, d] ! 1 = b" "[a, b, c, d] ! 0 = a"
  by (simp_all add: numeral_3_eq_3 numeral_2_eq_2)

lemma be32_list: "be32 [a, b, c, d] = push_bit 24 (ucast a) OR push_bit 16 (ucast b)
      OR push_bit 8 (ucast c) OR ucast d"
  by (simp only: be32_def list4_upd)

lemma push_ucast_or_bit:
  assumes "j < 8"
  shows "push_bit m (ucast (x OR push_bit j 1 :: 8 word)) =
      (push_bit m (ucast x) OR push_bit (m + j) 1 :: 32 word)"
  using assms by (intro bit_word_eqI) (auto simp: bit_push_bit_iff bit_ucast_iff bit_or_iff bit_1_iff)

lemma ucast_or_bit:
  "j < 8 \<Longrightarrow> ucast (x OR push_bit j 1 :: 8 word) = (ucast x OR push_bit j 1 :: 32 word)"
  using push_ucast_or_bit[of j 0 x] by simp

lemma be32_set_host_bit:
  assumes "i < 32" "length bs = 4"
  shows "be32 (set_host_bit i bs) = be32 bs OR push_bit i 1"
proof -
  obtain a b c d where bs: "bs = [a, b, c, d]"
    using assms(2) by (auto simp: length_Suc_conv eval_nat_numeral)
  define j where "j = i mod 8"
  have j: "j < 8" by (simp add: j_def)
  have e: "i = 8 * (i div 8) + j" by (simp add: j_def)
  have "i div 8 < 4" using assms(1) by linarith
  then consider "i div 8 = 0" | "i div 8 = 1" | "i div 8 = 2" | "i div 8 = 3" by linarith
  then show ?thesis
  proof cases
    case 1
    then have "set_host_bit i bs = [a, b, c, d OR push_bit j 1]"
      unfolding set_host_bit_def bs j_def by (simp only: diff_zero list4_upd)
    moreover have "i = j" using 1 e by simp
    ultimately show ?thesis by (simp only: bs be32_list ucast_or_bit[OF j] or.assoc)
  next
    case 2
    then have "set_host_bit i bs = [a, b, c OR push_bit j 1, d]"
      unfolding set_host_bit_def bs j_def by (simp add: list4_upd)
    moreover have "i = 8 + j" using 2 e by simp
    ultimately show ?thesis by (simp only: bs be32_list push_ucast_or_bit[OF j] or.assoc or.commute or.left_commute)
  next
    case 3
    then have "set_host_bit i bs = [a, b OR push_bit j 1, c, d]"
      unfolding set_host_bit_def bs j_def by (simp add: list4_upd)
    moreover have "i = 16 + j" using 3 e by simp
    ultimately show ?thesis by (simp only: bs be32_list push_ucast_or_bit[OF j] or.assoc or.commute or.left_commute)
  next
    case 4
    then have "set_host_bit i bs = [a OR push_bit j 1, b, c, d]"
      unfolding set_host_bit_def bs j_def by (simp add: list4_upd)
    moreover have "i = 24 + j" using 4 e by simp
    ultimately show ?thesis by (simp only: bs be32_list push_ucast_or_bit[OF j] or.assoc or.commute or.left_commute)
  qed
qed

lemma length_set_host_bit [simp]: "length (set_host_bit i bs) = length bs"
  by (simp add: set_host_bit_def)

lemma be32_fold_host_bits:
  "h \<le> 32 \<Longrightarrow> length bs = 4 \<Longrightarrow> be32 (fold set_host_bit [0 ..< h] bs) = be32 bs OR mask h
    \<and> length (fold set_host_bit [0 ..< h] bs) = 4"
proof (induction h)
  case 0
  then show ?case by simp
next
  case (Suc h)
  then have "be32 (fold set_host_bit [0 ..< Suc h] bs) = (be32 bs OR mask h) OR push_bit h 1"
    by (simp add: be32_set_host_bit)
  also have "\<dots> = be32 bs OR mask (Suc h)"
    using Suc.prems by (intro bit_word_eqI)
      (auto simp: bit_or_iff bit_mask_iff bit_push_bit_iff bit_1_iff less_Suc_eq)
  finally show ?case using Suc by simp
qed

lemma netmask4_or_mask:
  assumes "n \<le> 32"
  shows "netmask4 n w OR mask (32 - n) = last4 w n"
proof -
  have "netmask4 n w AND mask (32 - n) = 0"
    by (rule bit_word_eqI) (auto simp: netmask4_def bit_and_iff bit_not_iff)
  then have "netmask4 n w OR mask (32 - n) = netmask4 n w + mask (32 - n)"
    by (simp add: disjunctive_add_eq_or)
  then show ?thesis by (simp add: last4_def mask_eq_exp_minus_1 push_bit_of_1)
qed

lemma cidr_lastAddr_v4 [simp]:
  assumes "n \<le> 32"
  shows "cidr_lastAddr (v4pfx w n) = Some (V4 (last4 w n))"
proof -
  have "be32 (fold set_host_bit [0 ..< 32 - n] (bytes4 (netmask4 n w))) = netmask4 n w OR mask (32 - n)"
    using be32_fold_host_bits[of "32 - n" "bytes4 (netmask4 n w)"] by (simp add: bytes4_nth(5))
  then show ?thesis using assms by (simp add: cidr_lastAddr_def nat_minus_int netmask4_or_mask)
qed

subsection \<open>Containment and overlap as relations between address sets\<close>

lemma addrs4_nested_or_disjoint:
  assumes "m \<le> n"
  shows "addrs4 x n \<subseteq> addrs4 w m \<or> addrs4 x n \<inter> addrs4 w m = {}"
proof -
  obtain k where k: "block_size m = block_size n * k" using block_size_dvd_mono[OF assms] by (elim dvdE)
  have "unat a div block_size m = unat a div block_size n div k" for a :: "32 word"
    by (simp add: k div_mult2_eq)
  then show ?thesis by (auto simp: addrs4_def)
qed

lemma card_addrs4:
  assumes "n \<le> 32"
  shows "card (addrs4 w n) = block_size n"
proof -
  have "unat ` addrs4 w n = {net_lo w n ..< net_lo w n + block_size n}"
  proof (intro set_eqI iffI)
    fix x
    assume x: "x \<in> {net_lo w n ..< net_lo w n + block_size n}"
    then have "x < 4294967296" using net_hi_lt[OF assms, of w] unfolding net_hi_def by auto
    then have "unat (of_nat x :: 32 word) = x" by (simp add: unat_of_nat)
    with x show "x \<in> unat ` addrs4 w n"
      by (intro image_eqI[of _ _ "of_nat x"]) (auto simp: in_addrs4 le_net_hi)
  next
    fix x
    assume "x \<in> unat ` addrs4 w n"
    then show "x \<in> {net_lo w n ..< net_lo w n + block_size n}"
      by (auto simp: in_addrs4 le_net_hi)
  qed
  moreover have "inj_on unat (addrs4 w n)" by (simp add: inj_on_def unat_eq_iff32)
  ultimately show ?thesis by (metis card_image card_atLeastLessThan add_diff_cancel_left')
qed

lemma finite_addrs4 [simp]: "finite (addrs4 w n)"
  by (rule finite)

lemma addrs4_subset_len:
  assumes "addrs4 x n \<subseteq> addrs4 w m" "m \<le> 32" "n \<le> 32"
  shows "m \<le> n"
proof (rule ccontr)
  assume "\<not> m \<le> n"
  then have "block_size m < block_size n" using assms(2) by (simp add: block_size_def)
  moreover have "block_size n \<le> block_size m"
    using card_mono[OF finite_addrs4 assms(1)] by (simp add: card_addrs4 assms)
  ultimately show False by simp
qed

lemma PrefixContains_v4:
  assumes "n \<le> 32" "m \<le> 32"
  shows "PrefixContains (v4pfx w m) (v4pfx x n) \<longleftrightarrow> addrs4 x n \<subseteq> addrs4 w m"
proof (cases "m \<le> n")
  case True
  have "PrefixContains (v4pfx w m) (v4pfx x n) \<longleftrightarrow>
      netmask4 n x \<in> addrs4 w m \<and> last4 x n \<in> addrs4 w m"
    using assms True by (simp add: PrefixContains_def)
  also have "\<dots> \<longleftrightarrow> addrs4 x n \<subseteq> addrs4 w m"
    using addrs4_nested_or_disjoint[OF True, of x w] netmask4_in[of n x] last4_in[OF assms(1), of x]
    by blast
  finally show ?thesis .
next
  case False
  then show ?thesis using assms addrs4_subset_len[of x n w m] by (auto simp: PrefixContains_def)
qed

lemma intervals_meet:
  assumes "m \<le> 32" "n \<le> 32"
  shows "last4 w m \<ge> netmask4 n x \<and> last4 x n \<ge> netmask4 m w \<longleftrightarrow> addrs4 w m \<inter> addrs4 x n \<noteq> {}"
    (is "?l \<longleftrightarrow> ?r")
proof
  assume l: ?l
  show ?r
  proof (cases "netmask4 m w \<le> netmask4 n x")
    case True
    with l have "netmask4 n x \<in> addrs4 w m" by (simp add: addrs4_range assms)
    then show ?thesis using netmask4_in[of n x] by blast
  next
    case False
    with l have "netmask4 m w \<in> addrs4 x n" by (simp add: addrs4_range assms)
    then show ?thesis using netmask4_in[of m w] by blast
  qed
next
  assume ?r
  then obtain y where "y \<in> addrs4 w m" "y \<in> addrs4 x n" by blast
  then show ?l by (auto simp: addrs4_range assms intro: order_trans)
qed

lemma prefixesOverlapIPv4_v4:
  "m \<le> 32 \<Longrightarrow> n \<le> 32 \<Longrightarrow>
    prefixesOverlapIPv4 (v4pfx w m) (v4pfx x n) \<longleftrightarrow> addrs4 w m \<inter> addrs4 x n \<noteq> {}"
  by (simp add: prefixesOverlapIPv4_def intervals_meet)

lemma prefixesOverlap_v4:
  "m \<le> 32 \<Longrightarrow> n \<le> 32 \<Longrightarrow>
    prefixesOverlap (v4pfx w m) (v4pfx x n) = Some (addrs4 w m \<inter> addrs4 x n \<noteq> {})"
  by (simp add: prefixesOverlap_def intervals_meet)

subsection \<open>The split of a range into blocks\<close>

text \<open>A list of half-open ranges laid end to end from \<open>lo\<close> to \<open>hi\<close>.\<close>

fun chain :: "(nat \<times> nat) list \<Rightarrow> nat \<Rightarrow> nat \<Rightarrow> bool" where
  "chain [] lo hi \<longleftrightarrow> lo = hi"
| "chain ((a, b) # r) lo hi \<longleftrightarrow> a = lo \<and> a < b \<and> chain r b hi"

definition pfx_range :: "nprefix \<Rightarrow> nat \<times> nat" where
  "pfx_range p = (case pfxAddr p of V4 w \<Rightarrow> (unat w, unat w + 2 ^ nat (32 - pfxBits p)) | _ \<Rightarrow> (0, 0))"

definition aligned4 :: "nprefix \<Rightarrow> bool" where
  "aligned4 p \<longleftrightarrow> (\<exists>w n. p = v4pfx w n \<and> n \<le> 32 \<and> netmask4 n w = w)"

definition pfx_addrs :: "nprefix \<Rightarrow> 32 word set" where
  "pfx_addrs p = {a. pfxContains p (V4 a)}"

lemma pfx_addrs_v4 [simp]: "pfx_addrs (v4pfx w n) = addrs4 w n"
  by (simp add: pfx_addrs_def)

lemma aligned_iff_dvd: "netmask4 n w = w \<longleftrightarrow> block_size n dvd unat w"
  by (simp add: unat_eq_iff32 unat_netmask4 net_lo_def dvd_eq_mod_eq_0)
    (metis add_cancel_left_right div_mult_mod_eq)

lemma first_block:
  assumes "start \<le> end'"
  obtains n where "prefixFrom (planning_uint32ToIPv4 start) (32 - int (fit_bits start end')) = v4pfx start n"
    "n \<le> 32" "n = 32 - fit_bits start end'" "netmask4 n start = start"
    "block_size n = 2 ^ fit_bits start end'"
proof (rule that[of "32 - fit_bits start end'"])
  note f = fit_bits_facts[OF assms]
  show b: "block_size (32 - fit_bits start end') = 2 ^ fit_bits start end'"
    using f(1) by (simp add: block_size_def)
  show "netmask4 (32 - fit_bits start end') start = start"
    using f(2) by (simp add: aligned_iff_dvd b)
qed (use fit_bits_facts(1)[OF assms] in \<open>simp_all add: prefixFrom_def withoutZone_def addrIsValid_def bitLen_def\<close>)

lemma rangeToCIDRs_spec:
  "start \<le> end' \<Longrightarrow> (\<forall>p\<in>set (rangeToCIDRs start end'). aligned4 p)
     \<and> chain (map pfx_range (rangeToCIDRs start end')) (unat start) (unat end' + 1)"
proof (induction start end' rule: rangeToCIDRs.induct)
  case (1 start end')
  let ?k = "fit_bits start end'" and ?s = "start + push_bit (fit_bits start end') 1"
  note f = fit_bits_facts[OF "1.prems"] and nx = next_start[OF "1.prems"]
  obtain n where n: "prefixFrom (planning_uint32ToIPv4 start) (32 - int ?k) = v4pfx start n" "n \<le> 32"
    "n = 32 - ?k" "netmask4 n start = start"
    using first_block[OF "1.prems"] by metis
  have r: "pfx_range (v4pfx start n) = (unat start, unat start + 2 ^ ?k)"
    using n f(1) by (simp add: pfx_range_def)
  have a: "aligned4 (v4pfx start n)" using n by (auto simp: aligned4_def)
  have eq: "rangeToCIDRs start end' = v4pfx start n # (if ?s = 0 then [] else rangeToCIDRs ?s end')"
    using "1.prems" by (subst rangeToCIDRs.simps) (simp add: n(1)[simplified])
  show ?case
  proof (cases "?s = 0")
    case True
    then have "unat start + 2 ^ ?k = 4294967296"
      using nx unat_0[where 'a = 32] by (auto split: if_splits)
    then have "unat start + 2 ^ ?k = unat end' + 1" using f(3) unat_le32[of end'] by linarith
    moreover have "unat start < unat start + 2 ^ ?k" by simp
    ultimately show ?thesis using True a r eq by simp
  next
    case False
    then have u: "unat ?s = unat start + 2 ^ ?k" using nx by (auto split: if_splits)
    show ?thesis
    proof (cases "?s \<le> end'")
      case True
      with "1.IH"[OF "1.prems" refl refl refl False] show ?thesis using False a r eq u by simp
    next
      case le: False
      then have "rangeToCIDRs ?s end' = []" by (subst rangeToCIDRs.simps) simp
      moreover have "unat start + 2 ^ ?k = unat end' + 1"
        using le u f(3) by (simp add: word_le_nat_alt)
      moreover have "unat start < unat start + 2 ^ ?k" by simp
      ultimately show ?thesis using False a r eq by simp
    qed
  qed
qed

lemma chain_le: "chain rs lo hi \<Longrightarrow> lo \<le> hi"
  by (induction rs lo hi rule: chain.induct) auto

lemma chain_cover: "chain rs lo hi \<Longrightarrow> (\<exists>r\<in>set rs. fst r \<le> x \<and> x < snd r) \<longleftrightarrow> lo \<le> x \<and> x < hi"
proof (induction rs lo hi rule: chain.induct)
  case (2 a b r lo hi)
  then have "a = lo" "a < b" "b \<le> hi" by (auto dest: chain_le)
  with 2 show ?case by auto
qed simp

lemma chain_sum: "chain rs lo hi \<Longrightarrow> sum_list (map (\<lambda>r. snd r - fst r) rs) = hi - lo"
proof (induction rs lo hi rule: chain.induct)
  case (2 a b r lo hi)
  then have "a = lo" "a < b" "b \<le> hi" by (auto dest: chain_le)
  with 2 show ?case by simp
qed simp

lemma chain_bounds: "chain rs lo hi \<Longrightarrow> r \<in> set rs \<Longrightarrow> lo \<le> fst r \<and> fst r < snd r \<and> snd r \<le> hi"
proof (induction rs lo hi rule: chain.induct)
  case (2 a b rs lo hi)
  then show ?case by (auto dest: chain_le)
qed simp

lemma chain_sorted: "chain rs lo hi \<Longrightarrow> sorted_wrt (\<lambda>r s. snd r \<le> fst s) rs"
proof (induction rs lo hi rule: chain.induct)
  case (2 a b rs lo hi)
  then show ?case using chain_bounds[of rs b hi] by auto
qed simp

lemma aligned_addrs: "aligned4 p \<Longrightarrow> x \<in> pfx_addrs p \<longleftrightarrow> fst (pfx_range p) \<le> unat x \<and> unat x < snd (pfx_range p)"
proof -
  assume "aligned4 p"
  then obtain w n where p: "p = v4pfx w n" "n \<le> 32" "netmask4 n w = w" by (auto simp: aligned4_def)
  then have "net_lo w n = unat w" by (metis unat_netmask4)
  with p show ?thesis
    by (simp add: in_addrs4 le_net_hi pfx_range_def block_size_def nat_minus_int)
qed

lemma rangeToCIDRs_cover:
  assumes "start \<le> end'"
  shows "(\<Union>p\<in>set (rangeToCIDRs start end'). pfx_addrs p) = {start .. end'}"
proof -
  note s = rangeToCIDRs_spec[OF assms]
  show ?thesis
  proof (rule set_eqI)
    fix x
    have "x \<in> (\<Union>p\<in>set (rangeToCIDRs start end'). pfx_addrs p) \<longleftrightarrow>
        (\<exists>r\<in>set (map pfx_range (rangeToCIDRs start end')). fst r \<le> unat x \<and> unat x < snd r)"
      using s by (auto simp: aligned_addrs)
    also have "\<dots> \<longleftrightarrow> unat start \<le> unat x \<and> unat x < unat end' + 1"
      using chain_cover[OF conjunct2[OF s]] by blast
    finally show "x \<in> (\<Union>p\<in>set (rangeToCIDRs start end'). pfx_addrs p) \<longleftrightarrow> x \<in> {start .. end'}"
      by (auto simp: word_le_nat_alt)
  qed
qed

lemma rangeToCIDRs_disjoint:
  assumes "start \<le> end'"
  shows "sorted_wrt (\<lambda>p q. pfx_addrs p \<inter> pfx_addrs q = {}) (rangeToCIDRs start end')"
proof -
  note s = rangeToCIDRs_spec[OF assms]
  have "sorted_wrt (\<lambda>p q. snd (pfx_range p) \<le> fst (pfx_range q)) (rangeToCIDRs start end')"
    using chain_sorted[OF conjunct2[OF s]] by (simp add: sorted_wrt_map)
  then show ?thesis
    by (rule sorted_wrt_mono_rel[rotated]) (use s in \<open>force simp: aligned_addrs\<close>)
qed

lemma prefixAddressCount_v4: "n \<le> 32 \<Longrightarrow> prefixAddressCount (v4pfx w n) = block_size n"
  by (simp add: prefixAddressCount_def block_size_def nat_minus_int)

lemma rangeToCIDRs_count:
  assumes "start \<le> end'"
  shows "sum_list (map prefixAddressCount (rangeToCIDRs start end')) = unat end' + 1 - unat start"
proof -
  note s = rangeToCIDRs_spec[OF assms]
  have "map prefixAddressCount (rangeToCIDRs start end')
      = map (\<lambda>p. snd (pfx_range p) - fst (pfx_range p)) (rangeToCIDRs start end')"
    using s by (auto simp: aligned4_def pfx_range_def prefixAddressCount_def)
  then show ?thesis using chain_sum[OF conjunct2[OF s]] by (simp only: map_map o_def)
qed

subsection \<open>The split is minimal\<close>

lemma block_meeting_first:
  assumes se: "start \<le> end'" and sub: "addrs4 w n \<subseteq> {start .. end'}" and n: "n \<le> 32"
    and k: "k = 32 - fit_bits start end'" and meet: "addrs4 w n \<inter> addrs4 start k \<noteq> {}"
  shows "addrs4 w n \<subseteq> addrs4 start k"
proof (cases "k \<le> n")
  case True
  then show ?thesis using addrs4_nested_or_disjoint[OF True] meet by blast
next
  case False
  then have "n \<le> k" by simp
  then have "addrs4 start k \<subseteq> addrs4 w n"
    using addrs4_nested_or_disjoint[of n k start w] meet by blast
  then have st: "start \<in> addrs4 w n" by auto
  have "netmask4 n w \<in> addrs4 w n" by simp
  with sub have "start \<le> netmask4 n w" by (metis atLeastAtMost_iff subsetD)
  with st have lo: "net_lo w n = unat start" by (simp add: in_addrs4 word_le_nat_alt unat_netmask4)
  have "last4 w n \<in> {start .. end'}" using sub last4_in[OF n] by blast
  then have "net_hi w n \<le> unat end'" by (simp add: word_le_nat_alt unat_last4 n)
  then have "unat start + block_size n \<le> unat end' + 1"
    using lo block_size_pos[of n] unfolding net_hi_def by linarith
  then have "unat start + 2 ^ (32 - n) \<le> unat end' + 1" by (simp only: block_size_def)
  moreover have "2 ^ (32 - n) dvd unat start" using net_lo_dvd[of n w] lo by (simp add: block_size_def)
  ultimately have "32 - n \<le> fit_bits start end'" using fit_bits_facts(4)[OF se, of "32 - n"] by simp
  then show ?thesis using False k n by linarith
qed

lemma rangeToCIDRs_minimal_set:
  "start \<le> end' \<Longrightarrow> finite Q \<Longrightarrow> (\<forall>(w, n)\<in>Q. n \<le> 32) \<Longrightarrow>
    (\<Union>(w, n)\<in>Q. addrs4 w n) = {start .. end'} \<Longrightarrow> length (rangeToCIDRs start end') \<le> card Q"
proof (induction start end' arbitrary: Q rule: rangeToCIDRs.induct)
  case (1 start end')
  note f = fit_bits_facts[OF "1.prems"(1)] and nx = next_start[OF "1.prems"(1)]
  let ?s = "start + push_bit (fit_bits start end') 1" and ?k = "32 - fit_bits start end'"
  let ?A = "addrs4 start ?k"
  define Q' where "Q' = {(w, n) \<in> Q. addrs4 w n \<inter> ?A = {}}"
  have bs: "block_size ?k = 2 ^ fit_bits start end'" using f(1) by (simp add: block_size_def)
  have lo: "net_lo start ?k = unat start" using f(2) by (simp add: net_lo_def bs)
  have inA: "x \<in> ?A \<longleftrightarrow> unat start \<le> unat x \<and> unat x < unat start + 2 ^ fit_bits start end'" for x
    by (simp add: in_addrs4 le_net_hi lo bs)
  have "start \<in> {start .. end'}" using "1.prems"(1) by simp
  then have "start \<in> (\<Union>(w, n)\<in>Q. addrs4 w n)" by (simp only: "1.prems"(4))
  then obtain w0 n0 where q0: "(w0, n0) \<in> Q" "start \<in> addrs4 w0 n0" by blast
  then have "(w0, n0) \<notin> Q'" by (auto simp: Q'_def)
  then have card: "card Q' < card Q"
    using q0 "1.prems"(2) by (intro psubset_card_mono) (auto simp: Q'_def)
  have sub: "addrs4 w n \<subseteq> {start .. end'}" if "(w, n) \<in> Q" for w n using "1.prems"(4) that by blast
  have Q'cov: "(\<Union>(w, n)\<in>Q'. addrs4 w n) = {start .. end'} - ?A"
  proof -
    have "addrs4 w n \<subseteq> ?A \<or> (w, n) \<in> Q'" if "(w, n) \<in> Q" for w n
      using block_meeting_first[OF "1.prems"(1) sub[OF that] _ refl] "1.prems"(3) that
      unfolding Q'_def by blast
    then show ?thesis unfolding "1.prems"(4)[symmetric] by (auto simp: Q'_def)
  qed
  have eq: "rangeToCIDRs start end' =
      prefixFrom (planning_uint32ToIPv4 start) (32 - int (fit_bits start end'))
      # (if ?s = 0 then [] else rangeToCIDRs ?s end')"
    using "1.prems"(1) by (subst rangeToCIDRs.simps) (simp only: Let_def if_True)
  show ?case
  proof (cases "?s \<noteq> 0 \<and> ?s \<le> end'")
    case True
    then have u: "unat ?s = unat start + 2 ^ fit_bits start end'" using nx by (auto split: if_splits)
    have "{start .. end'} - ?A = {?s .. end'}"
      using u by (auto simp: inA word_le_nat_alt)
    then have cov': "(\<Union>(w, n)\<in>Q'. addrs4 w n) = {?s .. end'}" using Q'cov by (simp only:)
    have "Q' \<subseteq> Q" by (auto simp: Q'_def)
    then have fin: "finite Q'" and len: "\<forall>(w, n)\<in>Q'. n \<le> 32"
      using "1.prems"(2,3) by (auto intro: finite_subset)
    have "length (rangeToCIDRs ?s end') \<le> card Q'"
      using "1.IH"[OF "1.prems"(1) refl refl refl _ _ fin len cov'] True by blast
    then show ?thesis using card True by (simp add: eq)
  next
    case False
    then have "(if ?s = 0 then [] else rangeToCIDRs ?s end') = []"
      by (subst rangeToCIDRs.simps) auto
    then have "length (rangeToCIDRs start end') = 1" unfolding eq by simp
    then show ?thesis using card by linarith
  qed
qed

subsection \<open>The window of subnets\<close>

definition subnet_base :: "32 word \<Rightarrow> nat \<Rightarrow> nat \<Rightarrow> nat \<Rightarrow> 32 word" where
  "subnet_base w m n i = of_nat (net_lo w m + i * block_size n)"

lemma block_size_split: "m \<le> n \<Longrightarrow> n \<le> 32 \<Longrightarrow> block_size m = 2 ^ (n - m) * block_size n"
  by (simp add: block_size_def power_add[symmetric])

lemma subnet_base_bound:
  assumes "m \<le> n" "n \<le> 32" "i < 2 ^ (n - m)"
  shows "net_lo w m + i * block_size n + block_size n \<le> net_lo w m + block_size m"
proof -
  have "Suc i * block_size n \<le> 2 ^ (n - m) * block_size n" using assms(3) by (intro mult_le_mono1) simp
  then show ?thesis using block_size_split[OF assms(1,2)] by simp
qed

lemma unat_of_nat32: "x < 4294967296 \<Longrightarrow> unat (of_nat x :: 32 word) = x"
  by (simp add: unat_of_nat)

lemma unat_subnet_base:
  assumes "m \<le> n" "n \<le> 32" "i < 2 ^ (n - m)"
  shows "unat (subnet_base w m n i) = net_lo w m + i * block_size n"
proof -
  have "net_lo w m + i * block_size n < 4294967296"
    using subnet_base_bound[OF assms, of w] net_hi_lt[of m w] assms block_size_pos[of n]
    unfolding net_hi_def by linarith
  then show ?thesis unfolding subnet_base_def by (rule unat_of_nat32)
qed

lemma subnet_base_word:
  assumes "m \<le> n" "n \<le> 32" "i < 2 ^ (n - m)"
  shows "netmask4 m w + of_int (int i) * push_bit (nat (32 - int n)) 1 = subnet_base w m n i"
proof -
  have st: "push_bit (nat (32 - int n)) 1 = (of_nat (block_size n) :: 32 word)"
    using assms by (simp add: nat_minus_int block_size_def push_bit_of_1)
  have "netmask4 m w = (of_nat (net_lo w m) :: 32 word)"
    unfolding unat_netmask4[symmetric] by simp
  then show ?thesis unfolding st by (simp add: subnet_base_def)
qed

lemma subnet_string_eq:
  assumes "m \<le> n" "n \<le> 32" "i < 2 ^ (n - m)"
  shows "subnet_string (netmask4 m w) (int n) (int i) = pfxString4 (subnet_base w m n i) n"
  unfolding subnet_string_def uint32ToIPv4_V4 subnet_base_word[OF assms] by simp

lemma div_eq_iff_range: "0 < b \<Longrightarrow> (z :: nat) div b = i \<longleftrightarrow> i * b \<le> z \<and> z < i * b + b"
proof
  assume b: "0 < b" and e: "z div b = i"
  have "z = i * b + z mod b" using div_mult_mod_eq[of z b] e by simp
  moreover have "z mod b < b" using b by simp
  ultimately show "i * b \<le> z \<and> z < i * b + b" by linarith
next
  assume "0 < b" "i * b \<le> z \<and> z < i * b + b"
  then show "z div b = i" by (intro div_nat_eqI) (simp_all add: mult.commute)
qed

lemma subnet_addrs:
  assumes "m \<le> n" "n \<le> 32" "i < 2 ^ (n - m)"
  shows "x \<in> addrs4 (subnet_base w m n i) n \<longleftrightarrow>
    x \<in> addrs4 w m \<and> (unat x - net_lo w m) div block_size n = i"
proof -
  obtain q where q: "net_lo w m = block_size n * q"
    using dvd_trans[OF block_size_dvd_mono[OF assms(1)] net_lo_dvd[of m w]] by (elim dvdE)
  have lo: "net_lo (subnet_base w m n i) n = net_lo w m + i * block_size n"
    by (simp add: net_lo_def[of "subnet_base w m n i"] unat_subnet_base[OF assms] q algebra_simps)
  have iv: "(y - l) div b = i \<longleftrightarrow> l + i * b \<le> y \<and> y < l + i * b + b" if "0 < b" "l \<le> y" for y l b :: nat
    using that by (auto simp: div_eq_iff_range)
  have bound: "net_lo w m + i * block_size n + block_size n \<le> net_lo w m + block_size m"
    using subnet_base_bound[OF assms] .
  show ?thesis
  proof
    assume "x \<in> addrs4 (subnet_base w m n i) n"
    then have "net_lo w m + i * block_size n \<le> unat x" "unat x < net_lo w m + i * block_size n + block_size n"
      by (simp_all add: in_addrs4 le_net_hi lo)
    with bound iv[of "block_size n" "net_lo w m" "unat x"]
    show "x \<in> addrs4 w m \<and> (unat x - net_lo w m) div block_size n = i"
      by (simp add: in_addrs4 le_net_hi)
  next
    assume "x \<in> addrs4 w m \<and> (unat x - net_lo w m) div block_size n = i"
    then show "x \<in> addrs4 (subnet_base w m n i) n"
      using iv[of "block_size n" "net_lo w m" "unat x"] by (simp add: in_addrs4 le_net_hi lo)
  qed
qed

lemma aligned_subnet:
  assumes "m \<le> n" "n \<le> 32" "i < 2 ^ (n - m)"
  shows "aligned4 (v4pfx (subnet_base w m n i) n)"
proof -
  have "block_size n dvd net_lo w m + i * block_size n"
    using dvd_trans[OF block_size_dvd_mono[OF assms(1)] net_lo_dvd[of m w]] by simp
  then show ?thesis using assms(2)
    by (auto simp: aligned4_def aligned_iff_dvd unat_subnet_base[OF assms])
qed

text \<open>The window that the offset and the limit select.\<close>

definition window_from :: "int \<Rightarrow> int \<Rightarrow> int \<Rightarrow> int" where
  "window_from count offset limit = (if limit \<le> 0 then 0 else min count (max 0 offset))"

definition window_to :: "int \<Rightarrow> int \<Rightarrow> int \<Rightarrow> int" where
  "window_to count offset limit =
     (if limit \<le> 0 then count else min count (window_from count offset limit + min MaxSubnetExpansion limit))"

lemma computeSubnets_ok:
  assumes "parsePrefix parentCIDR = Some (v4pfx w m)" "m \<le> n" "n \<le> 32"
    "0 < limit \<or> 2 ^ (n - m) \<le> MaxSubnetExpansion"
  shows "computeSubnetsIPv4Window parentCIDR (int n) offset limit =
    Inr (map (\<lambda>i. pfxString4 (subnet_base w m n (nat i)) n)
           [window_from (2 ^ (n - m)) offset limit .. window_to (2 ^ (n - m)) offset limit - 1],
         usableHostsIPv4 (int n), 2 ^ (n - m))"
proof -
  let ?c = "2 ^ (n - m) :: int"
  let ?l = "[window_from ?c offset limit .. window_to ?c offset limit - 1]"
  have c: "nat (int n - int m) = n - m" using assms(2) by simp
  have m: "m \<le> 32" using assms by simp
  have strs: "map (subnet_string (netmask4 m w) (int n)) ?l = map (\<lambda>i. pfxString4 (subnet_base w m n (nat i)) n) ?l"
  proof (rule map_cong[OF refl])
    fix i
    assume "i \<in> set ?l"
    then have "0 \<le> i" "i < ?c" by (auto simp: window_from_def window_to_def split: if_splits)
    then have "nat i < 2 ^ (n - m)" by (simp add: nat_less_iff)
    with \<open>0 \<le> i\<close> show "subnet_string (netmask4 m w) (int n) i = pfxString4 (subnet_base w m n (nat i)) n"
      using subnet_string_eq[OF assms(2,3), of "nat i" w] by simp
  qed
  have w: "window_from ?c offset limit = (if limit > 0 then if offset < 0 then 0 else if offset > ?c then ?c else offset else 0)"
    by (auto simp: window_from_def)
  have v: "window_to ?c offset limit = (if limit > 0 then
      if window_from ?c offset limit + (if limit > MaxSubnetExpansion then MaxSubnetExpansion else limit) > ?c then ?c
      else window_from ?c offset limit + (if limit > MaxSubnetExpansion then MaxSubnetExpansion else limit) else ?c)"
    by (auto simp: window_to_def min_def)
  have guard: "\<not> (limit \<le> 0 \<and> ?c > MaxSubnetExpansion)" using assms(4) by auto
  have "computeSubnetsIPv4Window parentCIDR (int n) offset limit =
      Inr (map (subnet_string (netmask4 m w) (int n)) ?l, usableHostsIPv4 (int n), ?c)"
  proof (cases "limit > 0")
    case True
    then show ?thesis
      using assms(2,3) unfolding computeSubnetsIPv4Window_def v w
      by (simp add: assms(1) m c Let_def)
  next
    case False
    then show ?thesis
      using guard assms(2,3) unfolding computeSubnetsIPv4Window_def v w
      by (simp add: assms(1) m c Let_def)
  qed
  with strs show ?thesis by simp
qed

section \<open>Properties\<close>

lemma covers_by_list:
  assumes "start \<le> end'" "\<And>q. q \<in> set qs \<Longrightarrow> \<exists>w n. q = v4pfx w n \<and> n \<le> 32"
    "(\<Union>q\<in>set qs. pfx_addrs q) = {start .. end'}"
  shows "length (rangeToCIDRs start end') \<le> length qs"
proof -
  let ?f = "\<lambda>q. case pfxAddr q of V4 w \<Rightarrow> (w, nat (pfxBits q)) | _ \<Rightarrow> (0, 0)"
  let ?Q = "?f ` set qs"
  have e: "pfx_addrs q = (case ?f q of (w, n) \<Rightarrow> addrs4 w n)" if "q \<in> set qs" for q
    using assms(2)[OF that] by auto
  have "(\<Union>(w, n)\<in>?Q. addrs4 w n) = (\<Union>q\<in>set qs. pfx_addrs q)"
    using e by (simp add: case_prod_beta)
  moreover have "\<forall>(w, n)\<in>?Q. n \<le> 32" using assms(2) by fastforce
  ultimately have "length (rangeToCIDRs start end') \<le> card ?Q"
    using assms(1,3) by (intro rangeToCIDRs_minimal_set) auto
  also have "\<dots> \<le> length qs"
    by (rule le_trans[OF card_image_le[OF finite_set] card_length])
  finally show ?thesis .
qed

text \<open>C35: splitting an address range into CIDR blocks is exact. For every range with
  \<open>start \<le> end\<close>, whole-address-space ranges whose cursor overflows included, the blocks
  \<open>rangeToCIDRs\<close> returns are aligned on their own size, their addresses are exactly those of the
  range, no two blocks share an address, and their address counts add up to the size of the range.\<close>

theorem rangeToCIDRs_exact:
  assumes "start \<le> end'"
  shows "(\<forall>p\<in>set (rangeToCIDRs start end'). aligned4 p)
    \<and> (\<Union>p\<in>set (rangeToCIDRs start end'). pfx_addrs p) = {start .. end'}
    \<and> sorted_wrt (\<lambda>p q. pfx_addrs p \<inter> pfx_addrs q = {}) (rangeToCIDRs start end')
    \<and> sum_list (map prefixAddressCount (rangeToCIDRs start end')) = unat end' - unat start + 1"
  using rangeToCIDRs_spec[OF assms] rangeToCIDRs_cover[OF assms] rangeToCIDRs_disjoint[OF assms]
    rangeToCIDRs_count[OF assms] assms by (simp add: word_le_nat_alt)

theorem rangeToCIDRs_exact_witness:
  "(\<Union>p\<in>set (rangeToCIDRs 0 (- 1)). pfx_addrs p) = {0 .. - 1 :: 32 word}"
  using rangeToCIDRs_exact[of 0 "- 1"] by simp

text \<open>C36: the split is minimal, as its comment promises: no list of IPv4 prefixes that covers
  exactly the same range is shorter than the one \<open>rangeToCIDRs\<close> returns.\<close>

theorem rangeToCIDRs_minimal:
  assumes "start \<le> end'" and "\<And>q. q \<in> set qs \<Longrightarrow> \<exists>w n. q = v4pfx w n \<and> n \<le> 32"
    and "(\<Union>q\<in>set qs. pfx_addrs q) = {start .. end'}"
  shows "length (rangeToCIDRs start end') \<le> length qs"
  using assms by (rule covers_by_list)

theorem rangeToCIDRs_minimal_witness:
  "length (rangeToCIDRs 0 (- 1)) \<le> length [v4pfx 77 0]"
proof (rule rangeToCIDRs_minimal)
  have "addrs4 77 0 = UNIV" by (auto simp: addrs4_def block_size_def)
  then show "(\<Union>q\<in>set [v4pfx 77 0]. pfx_addrs q) = {0 .. - 1}"
    using pfx_addrs_v4[of 77 0] by auto
qed auto

text \<open>C37: containment is inclusion of address sets. For any two CIDR strings that parse as IPv4
  prefixes, host bits set or not, \<open>PrefixContains\<close> (a length comparison, the masked address and
  the last address, set byte by byte) holds exactly when every address of the inner prefix is an
  address of the outer one.\<close>

theorem PrefixContains_iff_subset:
  assumes "parsePrefix s = Some outer" "is4 (pfxAddr outer)" "parsePrefix t = Some inner" "is4 (pfxAddr inner)"
  shows "PrefixContains outer inner \<longleftrightarrow> pfx_addrs inner \<subseteq> pfx_addrs outer"
proof -
  obtain w m where w: "outer = v4pfx w m" "m \<le> 32" using assms(1,2) by (rule parsePrefix_is4E)
  obtain x n where x: "inner = v4pfx x n" "n \<le> 32" using assms(3,4) by (rule parsePrefix_is4E)
  show ?thesis using w x by (simp add: PrefixContains_v4)
qed

theorem PrefixContains_iff_subset_witness:
  "PrefixContains (v4pfx 167772160 8) (v4pfx 167837697 24) \<longleftrightarrow>
    pfx_addrs (v4pfx 167837697 24) \<subseteq> pfx_addrs (v4pfx 167772160 8)"
  by (rule PrefixContains_iff_subset[of "pfxString4 167772160 8" _ "pfxString4 167837697 24"]) simp_all

text \<open>The three last-address computations of the program agree. For any IPv4 CIDR string, the
  byte loop of \<open>cidr.lastAddr\<close>, the \<open>uint32\<close> arithmetic of \<open>api.lastAddr\<close> (with the shift by 32
  that gives 0 for a /0) and the end of \<open>planning.prefixToInterval\<close> are the same address, and the
  prefix holds exactly the addresses from its network address to it.\<close>

theorem last_addresses_agree:
  assumes "parsePrefix s = Some p" "is4 (pfxAddr p)"
  shows "\<exists>lo hi. prefixToInterval p = Some (lo, hi) \<and> cidr_lastAddr p = Some (V4 hi)
    \<and> api_lastAddr p = Some (V4 hi) \<and> pfx_addrs p = {lo .. hi} \<and> lo \<le> hi"
proof -
  obtain w n where w: "p = v4pfx w n" "n \<le> 32" using assms by (rule parsePrefix_is4E)
  have "netmask4 n w \<le> last4 w n" using w(2) by (simp add: netmask4_le unat_last4)
  then show ?thesis using w by (auto simp: addrs4_range)
qed

theorem last_addresses_agree_witness:
  "\<exists>lo hi. prefixToInterval (v4pfx 5 0) = Some (lo, hi) \<and> cidr_lastAddr (v4pfx 5 0) = Some (V4 hi)
    \<and> api_lastAddr (v4pfx 5 0) = Some (V4 hi) \<and> pfx_addrs (v4pfx 5 0) = {lo .. hi} \<and> lo \<le> hi"
  by (rule last_addresses_agree[of "pfxString4 5 0"]) simp_all

lemma validateChildCIDR_None_iff:
  "validateChildCIDR parentCIDR childCIDR = None \<longleftrightarrow>
    (\<exists>w m x n. parsePrefix parentCIDR = Some (v4pfx w m) \<and> parsePrefix childCIDR = Some (v4pfx x n)
       \<and> m < n \<and> n \<le> 32 \<and> addrs4 x n \<subseteq> addrs4 w m)"
proof (cases "\<exists>pp cp. parsePrefix parentCIDR = Some pp \<and> parsePrefix childCIDR = Some cp
    \<and> is4 (pfxAddr pp) \<and> is4 (pfxAddr cp)")
  case True
  then obtain pp cp where p: "parsePrefix parentCIDR = Some pp" "parsePrefix childCIDR = Some cp"
    "is4 (pfxAddr pp)" "is4 (pfxAddr cp)" by blast
  obtain w m where w: "pp = v4pfx w m" "m \<le> 32" using p(1,3) by (rule parsePrefix_is4E)
  obtain x n where x: "cp = v4pfx x n" "n \<le> 32" using p(2,4) by (rule parsePrefix_is4E)
  have "netmask4 n x \<in> addrs4 w m \<and> last4 x n \<in> addrs4 w m \<longleftrightarrow> addrs4 x n \<subseteq> addrs4 w m" if "m < n"
    using PrefixContains_v4[OF x(2) w(2), of w x] x w that by (simp add: PrefixContains_def)
  then show ?thesis using p w x by (auto simp: validateChildCIDR_def)
next
  case False
  then have "\<nexists>w m x n. parsePrefix parentCIDR = Some (v4pfx w m) \<and> parsePrefix childCIDR = Some (v4pfx x n)"
    by (metis is4_simps(1) nprefix.sel(1))
  moreover have "validateChildCIDR parentCIDR childCIDR \<noteq> None"
    using False by (auto simp: validateChildCIDR_def split: option.splits)
  ultimately show ?thesis by blast
qed

text \<open>The child check is exact. \<open>validateChildCIDR\<close> accepts a child exactly when both strings
  are IPv4 prefixes, the child is strictly longer, and all its addresses lie in the parent.\<close>

theorem validateChildCIDR_ok:
  "validateChildCIDR parentCIDR childCIDR = None \<longleftrightarrow>
    (\<exists>w m x n. parsePrefix parentCIDR = Some (v4pfx w m) \<and> parsePrefix childCIDR = Some (v4pfx x n)
       \<and> m < n \<and> n \<le> 32 \<and> addrs4 x n \<subseteq> addrs4 w m)"
  by (rule validateChildCIDR_None_iff)

text \<open>C38: printing and parsing IPv4 prefixes are inverse. Every IPv4 prefix prints as a string that
  \<open>ParseCIDROrIP\<close> reads back as the same network in masked form, and a bare address reads back as
  its /32.\<close>

theorem ParseCIDROrIP_roundtrip:
  assumes "n \<le> 32"
  shows "ParseCIDROrIP (pfxString4 w n) = Inr (v4pfx (netmask4 n w) n)
    \<and> ParseCIDROrIP (addrString4 w) = Inr (v4pfx w 32)"
proof -
  have "\<not> is_digit (CHR ''/'')" by (simp add: is_digit_def)
  then have "CHR ''/'' \<notin> set (addrString4 w)" by (auto simp: addrString4_def dest: set_itoa)
  then have "parsePrefix (addrString4 w) = None"
    by (simp add: parsePrefix_def split_last_None[THEN iffD2])
  then show ?thesis using assms
    by (simp add: ParseCIDROrIP_def prefixFrom_def withoutZone_def addrIsValid_def bitLen_def)
qed

theorem ParseCIDROrIP_roundtrip_witness:
  "ParseCIDROrIP (pfxString4 167837697 24) = Inr (v4pfx (netmask4 24 167837697) 24)"
  using ParseCIDROrIP_roundtrip[of 24 167837697] by simp

text \<open>C39: an unpaginated subnet expansion partitions the parent. When it succeeds for an IPv4 parent
  /m and a new length n, it returns \<open>2^(n-m)\<close> strings; the i-th parses to an aligned /n prefix
  whose addresses are exactly the parent's addresses with offset in the i-th block, so every
  parent address is in exactly one of the subnets.\<close>

theorem subnets_partition_parent:
  assumes "parsePrefix parentCIDR = Some (v4pfx w m)"
    and "computeSubnetsIPv4Window parentCIDR (int n) offset 0 = Inr (blocks, hosts, cnt)"
  shows "m \<le> n \<and> n \<le> 32 \<and> cnt = 2 ^ (n - m) \<and> length blocks = 2 ^ (n - m)
    \<and> (\<forall>i < length blocks. \<exists>p. parsePrefix (blocks ! i) = Some p \<and> aligned4 p \<and>
         pfx_addrs p = {x \<in> addrs4 w m. (unat x - net_lo w m) div block_size n = i})"
proof -
  have m: "m \<le> 32" using parsePrefix_valid[OF assms(1)] by (simp add: bitLen_def)
  have mn: "m \<le> n" "n \<le> 32" "\<not> (2 ^ (n - m) > MaxSubnetExpansion)"
    using assms m by (auto simp: computeSubnetsIPv4Window_def Let_def nat_diff_distrib' split: if_splits)
  have "computeSubnetsIPv4Window parentCIDR (int n) offset 0 =
      Inr (map (\<lambda>i. pfxString4 (subnet_base w m n (nat i)) n) [0 .. 2 ^ (n - m) - 1],
        usableHostsIPv4 (int n), 2 ^ (n - m))"
    using computeSubnets_ok[OF assms(1) mn(1,2), of 0 offset] mn(3)
    by (simp add: window_from_def window_to_def)
  with assms(2) have b: "blocks = map (\<lambda>i. pfxString4 (subnet_base w m n (nat i)) n) [0 .. 2 ^ (n - m) - 1]"
    "cnt = 2 ^ (n - m)" by (auto simp del: of_nat_less_iff)
  then have len: "length blocks = 2 ^ (n - m)" by (simp add: nat_power_eq)
  have "\<exists>p. parsePrefix (blocks ! i) = Some p \<and> aligned4 p \<and>
      pfx_addrs p = {x \<in> addrs4 w m. (unat x - net_lo w m) div block_size n = i}"
    if i: "i < length blocks" for i
  proof -
    have i': "i < 2 ^ (n - m)" using i len by simp
    then have "blocks ! i = pfxString4 (subnet_base w m n i) n" using i by (simp add: b)
    then show ?thesis
      using mn aligned_subnet[OF mn(1,2) i'] subnet_addrs[OF mn(1,2) i', of _ w] by auto
  qed
  then show ?thesis using mn b len by blast
qed

theorem subnets_partition_parent_witness:
  "\<exists>blocks hosts cnt. computeSubnetsIPv4Window (pfxString4 167772160 8) (int 10) 0 0 = Inr (blocks, hosts, cnt)
    \<and> length blocks = 4"
proof -
  have p: "parsePrefix (pfxString4 167772160 8) = Some (v4pfx 167772160 8)" by simp
  have "computeSubnetsIPv4Window (pfxString4 167772160 8) (int 10) 0 0 =
      Inr (map (\<lambda>i. pfxString4 (subnet_base 167772160 8 10 (nat i)) 10) [0 .. 3], usableHostsIPv4 10, 4)"
    using computeSubnets_ok[OF p, of 10 0 0] by (simp add: MaxSubnetExpansion_def window_from_def window_to_def)
  then show ?thesis using subnets_partition_parent[OF p] by auto
qed

text \<open>A page of a subnet expansion is the window its offset and limit ask for, clipped to the
  range of blocks and to the expansion limit, and it never exceeds \<open>MaxSubnetExpansion\<close> entries;
  without a limit a wider expansion is refused.\<close>

theorem subnets_page_is_window:
  assumes "parsePrefix parentCIDR = Some (v4pfx w m)" "m \<le> n" "n \<le> 32"
  shows "if limit \<le> 0 \<and> 2 ^ (n - m) > MaxSubnetExpansion
    then computeSubnetsIPv4Window parentCIDR (int n) offset limit = Inl (SubnetsTooMany (2 ^ (n - m)))
    else \<exists>a b. a \<le> b \<and> b - a \<le> MaxSubnetExpansion \<and> 0 \<le> a \<and> b \<le> 2 ^ (n - m)
      \<and> (0 < limit \<and> 0 \<le> offset \<and> offset \<le> 2 ^ (n - m) \<longrightarrow> a = offset \<and> (b = 2 ^ (n - m) \<or> b = offset + min limit MaxSubnetExpansion))
      \<and> computeSubnetsIPv4Window parentCIDR (int n) offset limit =
          Inr (map (\<lambda>i. pfxString4 (subnet_base w m n (nat i)) n) [a .. b - 1], usableHostsIPv4 (int n), 2 ^ (n - m))"
proof (cases "limit \<le> 0 \<and> 2 ^ (n - m) > MaxSubnetExpansion")
  case True
  have "m \<le> 32" using assms by simp
  with True assms show ?thesis
    by (simp add: computeSubnetsIPv4Window_def Let_def nat_diff_distrib')
next
  case False
  then have g: "0 < limit \<or> 2 ^ (n - m) \<le> MaxSubnetExpansion" by auto
  let ?c = "2 ^ (n - m) :: int"
  have "0 < ?c" by simp
  then have "window_from ?c offset limit \<le> window_to ?c offset limit
      \<and> window_to ?c offset limit - window_from ?c offset limit \<le> MaxSubnetExpansion
      \<and> 0 \<le> window_from ?c offset limit \<and> window_to ?c offset limit \<le> ?c
      \<and> (0 < limit \<and> 0 \<le> offset \<and> offset \<le> ?c \<longrightarrow> window_from ?c offset limit = offset
          \<and> (window_to ?c offset limit = ?c \<or> window_to ?c offset limit = offset + min limit MaxSubnetExpansion))"
    using g by (auto simp: window_from_def window_to_def MaxSubnetExpansion_def min_def max_def)
  with computeSubnets_ok[OF assms g, of offset] False show ?thesis by auto
qed

theorem subnets_page_is_window_witness:
  "\<exists>a b. a \<le> b \<and> b \<le> (2::int) ^ 16 \<and> computeSubnetsIPv4Window (pfxString4 167772160 8) (int 24) 100 50 =
    Inr (map (\<lambda>i. pfxString4 (subnet_base 167772160 8 24 (nat i)) 24) [a .. b - 1], usableHostsIPv4 (int 24), 2 ^ 16)"
  using subnets_page_is_window[of "pfxString4 167772160 8" 167772160 8 24 50 100] by (auto simp: MaxSubnetExpansion_def)

end
