(* ===== verification/Validation.thy ===== *)
theory Validation
  imports CidrFacts
begin

section \<open>Input validation (internal/validation)\<close>

text \<open>
  \<open>ValidateCIDRWithOptions\<close>, \<open>ValidateAccountKey\<close> and \<open>ValidateNameWithOptions\<close> with every
  early return in the order of the code. An error is the sentinel the code wraps, with the
  numbers its message carries; the nil error is \<open>None\<close>. The account-id patterns, regular
  expressions in the code, are the predicates they denote, on bytes.
\<close>

datatype validation_error =
    ErrEmptyValue | ErrTooLong | ErrInvalidFormat | ErrReservedRange nprefix | ErrInvalidPrefix int int
  | ErrIPv6NotSupported | ErrNotCanonical nprefix | ErrControlCharacter | ErrInvalidProvider
  | ErrInvalidAccountID

definition MaxNameLength :: int where "MaxNameLength = 255"
definition MaxAccountKeyLength :: nat where "MaxAccountKeyLength = 100"
definition MinPrefixLength :: int where "MinPrefixLength = 8"
definition MaxPrefixLength :: int where "MaxPrefixLength = 30"

definition reservedIPv4Ranges :: "nprefix list" where
  "reservedIPv4Ranges = List.map_filter parsePrefix
     [''0.0.0.0/8'', ''127.0.0.0/8'', ''169.254.0.0/16'', ''224.0.0.0/4'', ''240.0.0.0/4'',
      ''255.255.255.255/32'']"

record cidr_options =
  AllowReserved :: bool
  AllowNonCanonical :: bool
  MinPrefix :: int
  MaxPrefix :: int

definition prefixOverlaps :: "nprefix \<Rightarrow> nprefix \<Rightarrow> bool" where
  "prefixOverlaps a b \<longleftrightarrow> pfxContains a (pfxAddr b) \<or> pfxContains b (pfxAddr a)"

definition ValidateCIDRWithOptions :: "string \<Rightarrow> cidr_options \<Rightarrow> validation_error option" where
  "ValidateCIDRWithOptions cidr0 opts =
     (let cidr = trimSpace cidr0 in
      if cidr = [] then Some ErrEmptyValue
      else if \<not> str_contains cidr ''/'' then Some ErrInvalidFormat
      else (case parsePrefix cidr of
          None \<Rightarrow> Some ErrInvalidFormat
        | Some pfx \<Rightarrow>
            if \<not> is4 (pfxAddr pfx) then Some ErrIPv6NotSupported
            else if \<not> AllowNonCanonical opts \<and> pfxAddr pfx \<noteq> pfxAddr (masked pfx)
            then Some (ErrNotCanonical (masked pfx))
            else (case (if AllowReserved opts then None else find (prefixOverlaps pfx) reservedIPv4Ranges) of
                Some reserved \<Rightarrow> Some (ErrReservedRange reserved)
              | None \<Rightarrow>
                  (let minPrefix = (if MinPrefix opts > 0 then MinPrefix opts else MinPrefixLength);
                       maxPrefix = (if MaxPrefix opts > 0 then MaxPrefix opts else MaxPrefixLength);
                       bits = pfxBits pfx
                   in if bits < minPrefix then Some (ErrInvalidPrefix bits minPrefix)
                      else if bits > maxPrefix then Some (ErrInvalidPrefix bits maxPrefix)
                      else None))))"

definition ValidateCIDR :: "string \<Rightarrow> validation_error option" where
  "ValidateCIDR cidr = ValidateCIDRWithOptions cidr
     \<lparr>AllowReserved = False, AllowNonCanonical = False, MinPrefix = 0, MaxPrefix = 0\<rparr>"

subsection \<open>Account keys\<close>

definition is_lower :: "char \<Rightarrow> bool" where
  "is_lower c \<longleftrightarrow> 97 \<le> cnum c \<and> cnum c \<le> 122"

definition is_upper :: "char \<Rightarrow> bool" where
  "is_upper c \<longleftrightarrow> 65 \<le> cnum c \<and> cnum c \<le> 90"

definition is_alnum :: "char \<Rightarrow> bool" where
  "is_alnum c \<longleftrightarrow> is_lower c \<or> is_upper c \<or> is_digit c"

definition is_lower_hex :: "char \<Rightarrow> bool" where
  "is_lower_hex c \<longleftrightarrow> is_digit c \<or> (97 \<le> cnum c \<and> cnum c \<le> 102)"

text \<open>\<open>^\d{12}$\<close>\<close>

definition awsAccountPattern :: "string \<Rightarrow> bool" where
  "awsAccountPattern s \<longleftrightarrow> length s = 12 \<and> list_all is_digit s"

text \<open>\<open>^[a-z][a-z0-9-]{4,28}[a-z0-9]$\<close>\<close>

definition gcpProjectPattern :: "string \<Rightarrow> bool" where
  "gcpProjectPattern s \<longleftrightarrow> 6 \<le> length s \<and> length s \<le> 30 \<and> is_lower (hd s)
     \<and> list_all (\<lambda>c. is_lower c \<or> is_digit c \<or> c = CHR ''-'') (butlast (tl s))
     \<and> (is_lower (last s) \<or> is_digit (last s))"

text \<open>Lower-case hexadecimal groups of 8, 4, 4, 4 and 12 digits separated by hyphens.\<close>

definition azureSubscriptionPattern :: "string \<Rightarrow> bool" where
  "azureSubscriptionPattern s \<longleftrightarrow> length s = 36
     \<and> list_all (\<lambda>i. if i \<in> {8, 13, 18, 23} then s ! i = CHR ''-'' else is_lower_hex (s ! i)) [0 ..< 36]"

text \<open>\<open>^[a-zA-Z0-9][a-zA-Z0-9_-]{0,62}[a-zA-Z0-9]$|^[a-zA-Z0-9]$\<close>\<close>

definition onpremIDPattern :: "string \<Rightarrow> bool" where
  "onpremIDPattern s \<longleftrightarrow>
     (2 \<le> length s \<and> length s \<le> 64 \<and> is_alnum (hd s)
        \<and> list_all (\<lambda>c. is_alnum c \<or> c = CHR ''_'' \<or> c = CHR ''-'') (butlast (tl s))
        \<and> is_alnum (last s))
     \<or> (length s = 1 \<and> is_alnum (hd s))"

definition ValidProviders :: "string list" where
  "ValidProviders = [''aws'', ''gcp'', ''azure'', ''onprem'']"

definition ValidateAccountKey :: "string \<Rightarrow> validation_error option" where
  "ValidateAccountKey key0 =
     (let key = trimSpace key0 in
      if key = [] then Some ErrEmptyValue
      else if length key > MaxAccountKeyLength then Some ErrTooLong
      else (case split2 (CHR '':'') key of
          None \<Rightarrow> Some ErrInvalidFormat
        | Some (provider, accountID) \<Rightarrow>
            if provider = [] \<or> accountID = [] then Some ErrInvalidFormat
            else if provider \<noteq> toLower provider then Some ErrInvalidProvider
            else if \<not> list_ex (\<lambda>p. provider = p) ValidProviders then Some ErrInvalidProvider
            else if provider = ''aws'' then
              (if awsAccountPattern accountID then None else Some ErrInvalidAccountID)
            else if provider = ''gcp'' then
              (if gcpProjectPattern accountID then None else Some ErrInvalidAccountID)
            else if provider = ''azure'' then
              (if azureSubscriptionPattern (toLower accountID) then None else Some ErrInvalidAccountID)
            else if provider = ''onprem'' then
              (if length accountID > 64 then Some ErrTooLong
               else if onpremIDPattern accountID then None else Some ErrInvalidAccountID)
            else None))"

subsection \<open>Names\<close>

record name_options =
  MaxLength :: int
  MinLength :: int
  AllowControlChars :: bool

definition ValidateNameWithOptions :: "string \<Rightarrow> name_options \<Rightarrow> validation_error option" where
  "ValidateNameWithOptions name0 opts =
     (let name = trimSpace name0 in
      if name = [] then Some ErrEmptyValue
      else
       (let maxLen = (if MaxLength opts > 0 then MaxLength opts else MaxNameLength);
            minLen = (if MinLength opts > 0 then MinLength opts else 1);
            nameLen = int (length (runes name))
        in if nameLen > maxLen then Some ErrTooLong
           else if nameLen < minLen then Some ErrEmptyValue
           else if \<not> AllowControlChars opts \<and> list_ex isControl (runes name) then Some ErrControlCharacter
           else None))"

definition ValidateName :: "string \<Rightarrow> validation_error option" where
  "ValidateName name = ValidateNameWithOptions name
     \<lparr>MaxLength = 0, MinLength = 0, AllowControlChars = False\<rparr>"

text \<open>\<open>s[:maxLen]\<close> panics (\<open>None\<close>) on a negative length.\<close>

definition truncate_str :: "string \<Rightarrow> int \<Rightarrow> string option" where
  "truncate_str s maxLen =
     (if int (length s) \<le> maxLen then Some s
      else if maxLen < 4 then (if maxLen < 0 then None else Some (take (nat maxLen) s))
      else Some (take (nat (maxLen - 3)) s @ ''...''))"

subsection \<open>Facts\<close>

lemma addrs4_meet_iff:
  "addrs4 w m \<inter> addrs4 x n \<noteq> {} \<longleftrightarrow> x \<in> addrs4 w m \<or> w \<in> addrs4 x n"
proof (cases "m \<le> n")
  case True
  then show ?thesis
    using addrs4_nested_or_disjoint[OF True, of x w] self_in_addrs4[of x n] self_in_addrs4[of w m] by blast
next
  case False
  then have "n \<le> m" by simp
  then show ?thesis
    using addrs4_nested_or_disjoint[of n m w x] self_in_addrs4[of x n] self_in_addrs4[of w m] by blast
qed

lemma prefixOverlaps_v4: "prefixOverlaps (v4pfx w m) (v4pfx x n) \<longleftrightarrow> addrs4 w m \<inter> addrs4 x n \<noteq> {}"
  by (simp add: prefixOverlaps_def addrs4_meet_iff)

lemma parse_reserved:
  "parsePrefix ''0.0.0.0/8'' = Some (v4pfx 0 8)"
  "parsePrefix ''127.0.0.0/8'' = Some (v4pfx 2130706432 8)"
  "parsePrefix ''169.254.0.0/16'' = Some (v4pfx 2851995648 16)"
  "parsePrefix ''224.0.0.0/4'' = Some (v4pfx 3758096384 4)"
  "parsePrefix ''240.0.0.0/4'' = Some (v4pfx 4026531840 4)"
  "parsePrefix ''255.255.255.255/32'' = Some (v4pfx 4294967295 32)"
  by code_simp+

lemma reservedIPv4Ranges_eq:
  "reservedIPv4Ranges = [v4pfx 0 8, v4pfx 2130706432 8, v4pfx 2851995648 16, v4pfx 3758096384 4,
     v4pfx 4026531840 4, v4pfx 4294967295 32]"
  by (simp only: reservedIPv4Ranges_def List.map_filter_simps parse_reserved option.case)

lemma split_last_SomeD: "split_last sep s = Some (a, b) \<Longrightarrow> s = a @ sep # b"
  by (induction sep s arbitrary: a b rule: split_last.induct) (auto split: option.splits if_splits)

lemma parsePrefix_slash: "parsePrefix s = Some p \<Longrightarrow> str_contains s ''/''"
  by (auto simp: parsePrefix_def str_contains_iff split: option.splits prod.splits dest!: split_last_SomeD)
    (metis append_Cons append_Nil sublist_appendI)+

lemma find_None_reserved:
  "find (prefixOverlaps p) reservedIPv4Ranges = None \<longleftrightarrow> (\<forall>r\<in>set reservedIPv4Ranges. \<not> prefixOverlaps p r)"
  by (auto simp: find_None_iff)

lemma reserved_v4: "r \<in> set reservedIPv4Ranges \<Longrightarrow> \<exists>w n. r = v4pfx w n \<and> n \<le> 32"
  by (auto simp: reservedIPv4Ranges_eq intro: exI[of _ "8::nat"] exI[of _ "16::nat"] exI[of _ "4::nat"] exI[of _ "32::nat"])

subsection \<open>The characters of an accepted key\<close>

definition key_char :: "char \<Rightarrow> bool" where
  "key_char c \<longleftrightarrow> is_alnum c \<or> c \<in> {CHR '':'', CHR ''-'', CHR ''_''}"

lemma list_all_ends:
  assumes "2 \<le> length s" "P (hd s)" "list_all P (butlast (tl s))" "P (last s)"
  shows "list_all P s"
proof -
  obtain a t where s: "s = a # t" "t \<noteq> []" using assms(1) by (cases s; cases "tl s") auto
  then have "list_all P (butlast t)" "list_all P [last t]" using assms by auto
  then have "list_all P (butlast t @ [last t])" unfolding list_all_append by blast
  then have "list_all P t" using s(2) by simp
  then show ?thesis using assms s by simp
qed

lemma key_char_alnum: "is_alnum c \<Longrightarrow> key_char c" "is_lower c \<Longrightarrow> key_char c" "is_digit c \<Longrightarrow> key_char c"
    "key_char (CHR ''-'')" "key_char (CHR ''_'')" "key_char (CHR '':'')"
  by (simp_all add: key_char_def is_alnum_def)

lemma gcp_key_chars:
  assumes "gcpProjectPattern s"
  shows "list_all key_char s"
proof (rule list_all_ends)
  note a = assms[unfolded gcpProjectPattern_def]
  show "2 \<le> length s" using a by simp
  show "key_char (hd s)" "key_char (last s)" using a key_char_alnum by blast+
  have "list_all (\<lambda>c. is_lower c \<or> is_digit c \<or> c = CHR ''-'') (butlast (tl s))" using a by blast
  then show "list_all key_char (butlast (tl s))"
    by (rule list.pred_mono_strong) (use key_char_alnum in blast)
qed

lemma onprem_key_chars:
  assumes "onpremIDPattern s"
  shows "list_all key_char s"
proof (cases "length s = 1")
  case True
  then have "is_alnum (hd s)" using assms by (auto simp: onpremIDPattern_def)
  then show ?thesis using True key_char_alnum by (cases s) auto
next
  case False
  with assms have a: "2 \<le> length s" "is_alnum (hd s)" "is_alnum (last s)"
    "list_all (\<lambda>c. is_alnum c \<or> c = CHR ''_'' \<or> c = CHR ''-'') (butlast (tl s))"
    unfolding onpremIDPattern_def by blast+
  from a(4) have "list_all key_char (butlast (tl s))"
    by (rule list.pred_mono_strong) (use key_char_alnum in blast)
  then show ?thesis
    by (rule list_all_ends[OF a(1) key_char_alnum(1)[OF a(2)] _ key_char_alnum(1)[OF a(3)]])
qed

lemma aws_key_chars: "awsAccountPattern s \<Longrightarrow> list_all key_char s"
  by (auto simp: awsAccountPattern_def key_char_def is_alnum_def elim!: list.pred_mono_strong)

lemma lower_hex_key_char: "is_lower_hex (lower_char c) \<Longrightarrow> key_char c"
  by (auto simp: is_lower_hex_def lower_char_def key_char_def is_alnum_def is_lower_def is_upper_def
      is_digit_def of_char_of split: if_splits)

lemma lower_hyphen: "lower_char c = CHR ''-'' \<Longrightarrow> c = CHR ''-''"
proof -
  assume a: "lower_char c = CHR ''-''"
  have "\<not> (65 \<le> cnum c \<and> cnum c \<le> 90)"
  proof
    assume b: "65 \<le> cnum c \<and> cnum c \<le> 90"
    then have "cnum (lower_char c) = cnum c + 32" by (simp add: lower_char_def of_char_of)
    with a b show False by simp
  qed
  with a show ?thesis by (auto simp: lower_char_def split: if_splits)
qed

lemma azure_key_chars: "azureSubscriptionPattern (toLower s) \<Longrightarrow> list_all key_char s"
proof -
  assume a: "azureSubscriptionPattern (toLower s)"
  then have l: "length s = 36" by (simp add: azureSubscriptionPattern_def toLower_def)
  have "key_char (s ! i)" if "i < length s" for i
  proof -
    have "if i \<in> {8, 13, 18, 23} then toLower s ! i = CHR ''-'' else is_lower_hex (toLower s ! i)"
      using a that l unfolding azureSubscriptionPattern_def list_all_iff by (auto simp del: insert_iff)
    then show ?thesis using that lower_hex_key_char lower_hyphen[of "s ! i"]
      by (auto simp: toLower_def key_char_def split: if_splits)
  qed
  then show ?thesis by (simp add: list_all_length)
qed

section \<open>Properties\<close>

lemma ValidateCIDR_None_iff:
  "ValidateCIDR s = None \<longleftrightarrow>
    (\<exists>w n. parsePrefix (trimSpace s) = Some (v4pfx w n) \<and> 8 \<le> n \<and> n \<le> 30 \<and> aligned4 (v4pfx w n)
       \<and> (\<forall>r\<in>set reservedIPv4Ranges. addrs4 w n \<inter> pfx_addrs r = {}))"
proof (cases "\<exists>w n. parsePrefix (trimSpace s) = Some (v4pfx w n) \<and> n \<le> 32")
  case True
  then obtain w n where p: "parsePrefix (trimSpace s) = Some (v4pfx w n)" "n \<le> 32" by blast
  then have ne: "trimSpace s \<noteq> []" by (auto simp: parsePrefix_def)
  have "(\<forall>r\<in>set reservedIPv4Ranges. \<not> prefixOverlaps (v4pfx w n) r) \<longleftrightarrow>
      (\<forall>r\<in>set reservedIPv4Ranges. addrs4 w n \<inter> pfx_addrs r = {})"
    by (intro ball_cong refl) (auto dest!: reserved_v4 simp: prefixOverlaps_v4)
  then have "find (prefixOverlaps (v4pfx w n)) reservedIPv4Ranges = None \<longleftrightarrow>
      (\<forall>r\<in>set reservedIPv4Ranges. addrs4 w n \<inter> pfx_addrs r = {})"
    by (simp only: find_None_reserved)
  then show ?thesis
    using p ne parsePrefix_slash[OF p(1)]
    by (auto simp: ValidateCIDR_def ValidateCIDRWithOptions_def Let_def aligned4_def MinPrefixLength_def
        MaxPrefixLength_def split: option.splits)
next
  case False
  have "ValidateCIDR s \<noteq> None"
  proof
    assume a: "ValidateCIDR s = None"
    then obtain p where p: "parsePrefix (trimSpace s) = Some p" "is4 (pfxAddr p)"
      by (auto simp: ValidateCIDR_def ValidateCIDRWithOptions_def Let_def split: if_splits option.splits)
    then show False using False by (metis parsePrefix_is4E)
  qed
  moreover have "n \<le> 32" if "parsePrefix (trimSpace s) = Some (v4pfx w n)" for w n
    using parsePrefix_valid[OF that] by (simp add: bitLen_def)
  ultimately show ?thesis using False by blast
qed

text \<open>C40: what \<open>ValidateCIDR\<close> accepts. A string passes exactly when, trimmed, it parses as an IPv4
  prefix of length 8 to 30 whose address is its network address and which shares no address with
  any reserved range (this network, loopback, link-local, multicast, class E, broadcast).\<close>

theorem ValidateCIDR_accepts_iff:
  "ValidateCIDR s = None \<longleftrightarrow>
    (\<exists>w n. parsePrefix (trimSpace s) = Some (v4pfx w n) \<and> 8 \<le> n \<and> n \<le> 30 \<and> aligned4 (v4pfx w n)
       \<and> (\<forall>r\<in>set reservedIPv4Ranges. addrs4 w n \<inter> pfx_addrs r = {}))"
  by (rule ValidateCIDR_None_iff)

theorem ValidateCIDR_accepts_iff_witness:
  "\<exists>w n. parsePrefix (trimSpace ''10.0.0.0/8'') = Some (v4pfx w n) \<and> 8 \<le> n \<and> n \<le> 30
     \<and> aligned4 (v4pfx w n) \<and> (\<forall>r\<in>set reservedIPv4Ranges. addrs4 w n \<inter> pfx_addrs r = {})"
proof -
  have t: "trimSpace ''10.0.0.0/8'' = ''10.0.0.0/8''"
    by (rule trimSpace_graphic) (simp_all add: graphic_def)
  have "ValidateCIDR ''10.0.0.0/8'' = None"
    unfolding ValidateCIDR_def ValidateCIDRWithOptions_def t by code_simp
  then show ?thesis by (rule ValidateCIDR_accepts_iff[THEN iffD1])
qed

text \<open>The overlap tests of the three packages are the same relation. For any two IPv4 CIDR
  strings, \<open>api.prefixesOverlapIPv4\<close> (interval ends on \<open>uint32\<close>), \<open>planning.prefixesOverlap\<close> and
  \<open>validation.prefixOverlaps\<close> (each prefix against the other's address) all hold exactly when the
  two prefixes share an address.\<close>

theorem overlap_tests_agree:
  assumes "parsePrefix s = Some a" "is4 (pfxAddr a)" "parsePrefix t = Some b" "is4 (pfxAddr b)"
  shows "prefixesOverlapIPv4 a b = (pfx_addrs a \<inter> pfx_addrs b \<noteq> {})
    \<and> prefixesOverlap a b = Some (pfx_addrs a \<inter> pfx_addrs b \<noteq> {})
    \<and> prefixOverlaps a b = (pfx_addrs a \<inter> pfx_addrs b \<noteq> {})"
proof -
  obtain w m where w: "a = v4pfx w m" "m \<le> 32" using assms(1,2) by (rule parsePrefix_is4E)
  obtain x n where x: "b = v4pfx x n" "n \<le> 32" using assms(3,4) by (rule parsePrefix_is4E)
  show ?thesis using w x by (simp add: prefixesOverlapIPv4_v4 prefixesOverlap_v4 prefixOverlaps_v4)
qed

theorem overlap_tests_agree_witness:
  "prefixesOverlapIPv4 (v4pfx 167772160 8) (v4pfx 3232235520 16)
    = (pfx_addrs (v4pfx 167772160 8) \<inter> pfx_addrs (v4pfx 3232235520 16) \<noteq> {})"
  using overlap_tests_agree[of "pfxString4 167772160 8" "v4pfx 167772160 8" "pfxString4 3232235520 16"
      "v4pfx 3232235520 16"] by simp

text \<open>An accepted account key is \<open>provider:id\<close> with a known provider and, trimmed, at most 100
  bytes, all of them ASCII letters, digits, colons, hyphens or underscores: no control character,
  space or non-ASCII byte gets into a stored key, on any provider branch.\<close>

theorem accepted_account_key_charset:
  assumes "ValidateAccountKey key = None"
  shows "list_all key_char (trimSpace key) \<and> length (trimSpace key) \<le> 100
    \<and> (\<exists>provider ident. trimSpace key = provider @ CHR '':'' # ident \<and> provider \<in> set ValidProviders
        \<and> ident \<noteq> [])"
proof -
  from assms obtain provider ident where
    sp: "split2 (CHR '':'') (trimSpace key) = Some (provider, ident)" and
    ne: "ident \<noteq> []" and v: "provider \<in> set ValidProviders" and
    len: "length (trimSpace key) \<le> 100" and
    pat: "awsAccountPattern ident \<or> gcpProjectPattern ident \<or> azureSubscriptionPattern (toLower ident)
      \<or> onpremIDPattern ident"
    by (auto simp: ValidateAccountKey_def Let_def MaxAccountKeyLength_def list_ex_iff ValidProviders_def
        split: if_splits option.splits prod.splits)
  have k: "trimSpace key = provider @ CHR '':'' # ident" using sp by (simp add: split2_Some)
  have "list_all (list_all key_char) ValidProviders"
    by (simp add: ValidProviders_def key_char_def is_alnum_def is_lower_def)
  then have "list_all key_char provider" using v by (simp add: list_all_iff)
  moreover have "list_all key_char ident"
    using pat aws_key_chars gcp_key_chars azure_key_chars onprem_key_chars by blast
  moreover have "key_char (CHR '':'')" by (simp add: key_char_def)
  ultimately show ?thesis using k v ne len by auto
qed

theorem accepted_account_key_charset_witness:
  "list_all key_char (trimSpace ''aws:123456789012'')"
proof -
  have t: "trimSpace ''aws:123456789012'' = ''aws:123456789012''"
    by (rule trimSpace_graphic) (simp_all add: graphic_def)
  have "ValidateAccountKey ''aws:123456789012'' = None"
    unfolding ValidateAccountKey_def t by code_simp
  then show ?thesis using accepted_account_key_charset[of "''aws:123456789012''"] by blast
qed

end
