(* ===== verification/PoolStore.thy ===== *)
theory PoolStore
  imports Validation "HOL-Library.Monad_Syntax" "HOL-Library.Multiset"
begin

section \<open>The in-memory store of pools and accounts (internal/storage/store.go)\<close>

text \<open>
  The state of \<open>MemoryStore\<close> is a record of its two maps and two id counters, and each
  method is a function on it: a reading method returns its result, a writing one the new
  state with the result. The mutex makes every method one atomic step, so interleavings of
  calls are sequences of these functions. \<open>time.Now()\<close> is the argument \<open>now\<close>. A method
  that returns a pool with a found flag returns an option; one that can fail returns a sum.
  Ids are int64 counters, read as integers.
\<close>

subsection \<open>Errors (errors.go)\<close>

datatype sentinel = NotFoundS | ConflictS | ValidationS | DuplicateIssuerS

datatype go_error = GoErr (errText: string) (errSentinel: "sentinel option")

definition ErrNotFound :: go_error where "ErrNotFound = GoErr ''not found'' (Some NotFoundS)"
definition ErrConflict :: go_error where "ErrConflict = GoErr ''conflict'' (Some ConflictS)"
definition ErrValidation :: go_error where
  "ErrValidation = GoErr ''validation error'' (Some ValidationS)"
definition ErrDuplicateIssuer :: go_error where
  "ErrDuplicateIssuer = GoErr ''duplicate issuer URL'' (Some DuplicateIssuerS)"

text \<open>\<open>errors.Is(err, sentinel)\<close> and \<open>fmt.Errorf("msg: %w", err)\<close>.\<close>

definition errorsIs :: "go_error \<Rightarrow> go_error \<Rightarrow> bool" where
  "errorsIs e s = (errSentinel e \<noteq> None \<and> errSentinel e = errSentinel s)"

definition wrapf :: "string \<Rightarrow> go_error \<Rightarrow> go_error" where
  "wrapf msg e = GoErr (msg @ '': '' @ errText e) (errSentinel e)"

definition plainErr :: "string \<Rightarrow> go_error" where
  "plainErr msg = GoErr msg None"

definition WrapIfConflict :: "go_error option \<Rightarrow> go_error option" where
  "WrapIfConflict err = (case err of None \<Rightarrow> None
     | Some e \<Rightarrow> if str_contains (errText e) ''UNIQUE'' \<or> str_contains (errText e) ''duplicate''
         then Some (GoErr (errText ErrConflict @ '': '' @ errText e) (errSentinel ErrConflict))
         else Some e)"

lemma errorsIs_wrapf [simp]: "errorsIs (wrapf msg e) s = errorsIs e s"
  by (simp add: errorsIs_def wrapf_def)

lemma errorsIs_sentinels [simp]:
  "errorsIs ErrNotFound ErrNotFound" "errorsIs ErrConflict ErrConflict"
  "errorsIs ErrValidation ErrValidation" "\<not> errorsIs ErrNotFound ErrConflict"
  "\<not> errorsIs ErrConflict ErrNotFound" "\<not> errorsIs ErrConflict ErrValidation"
  "\<not> errorsIs ErrValidation ErrConflict" "\<not> errorsIs ErrNotFound ErrValidation"
  "\<not> errorsIs ErrValidation ErrNotFound"
  by (simp_all add: errorsIs_def ErrNotFound_def ErrConflict_def ErrValidation_def)

subsection \<open>Copies (clone.go)\<close>

definition cloneStringSlice :: "string list option \<Rightarrow> string list option" where
  "cloneStringSlice xs = (case xs of None \<Rightarrow> None | Some l \<Rightarrow> Some (map (\<lambda>i. l ! i) [0..<length l]))"

definition cloneStringStringMap :: "tags \<Rightarrow> tags" where
  "cloneStringStringMap t = (case t of None \<Rightarrow> None
     | Some m \<Rightarrow> Some (fold (\<lambda>(k, v) out. gput k v out) m []))"

definition clonePool :: "pool \<Rightarrow> pool" where
  "clonePool p = p\<lparr>poolTags := cloneStringStringMap (poolTags p)\<rparr>"

definition cloneAccount :: "account \<Rightarrow> account" where
  "cloneAccount a = a\<lparr>accRegions := cloneStringSlice (accRegions a)\<rparr>"

definition tags_ok :: "tags \<Rightarrow> bool" where
  "tags_ok t = (case t of None \<Rightarrow> True | Some m \<Rightarrow> gmap_ok m)"

lemma gput_fresh: "k \<notin> gkeys m \<Longrightarrow> gput k v m = m @ [(k, v)]"
  by (induction m) auto

lemma fold_gput_copy:
  "gmap_ok (out @ m) \<Longrightarrow> fold (\<lambda>(k, v) out. gput k v out) m out = out @ m"
proof (induction m arbitrary: out)
  case (Cons e m)
  obtain k v where [simp]: "e = (k, v)" by (cases e)
  have "k \<notin> gkeys out" using Cons.prems by (auto simp: gmap_ok_def)
  then show ?case using Cons.IH[of "out @ [(k, v)]"] Cons.prems by (simp add: gput_fresh)
qed simp

lemma cloneStringStringMap_id [simp]: "tags_ok t \<Longrightarrow> cloneStringStringMap t = t"
  using fold_gput_copy[of "[]"] by (cases t) (auto simp: cloneStringStringMap_def tags_ok_def)

lemma cloneStringSlice_id [simp]: "cloneStringSlice t = t"
  by (cases t) (auto simp: cloneStringSlice_def map_nth)

lemma clonePool_id [simp]: "tags_ok (poolTags p) \<Longrightarrow> clonePool p = p"
  by (simp add: clonePool_def)

lemma cloneAccount_id [simp]: "cloneAccount a = a"
  by (simp add: cloneAccount_def)

lemma clonePool_fields [simp]:
  "poolID (clonePool p) = poolID p" "poolName (clonePool p) = poolName p"
  "poolCIDR (clonePool p) = poolCIDR p" "poolParentID (clonePool p) = poolParentID p"
  "poolAccountID (clonePool p) = poolAccountID p" "poolDeletedAt (clonePool p) = poolDeletedAt p"
  by (simp_all add: clonePool_def)

subsection \<open>State\<close>

record mstore =
  pools :: "(go_id, pool) gomap"
  nextPool :: go_id
  accounts :: "(go_id, account) gomap"
  nextAccount :: go_id

definition NewMemoryStore :: mstore where
  "NewMemoryStore = \<lparr>pools = [], nextPool = 1, accounts = [], nextAccount = 1\<rparr>"

text \<open>Reading a missing key of a Go map gives the zero value.\<close>

definition zero_pool :: pool where
  "zero_pool = \<lparr>poolID = 0, poolName = [], poolCIDR = [], poolParentID = None,
     poolAccountID = None, poolType = [], poolStatus = [], poolSource = [], poolDescription = [],
     poolTags = None, poolCreatedAt = 0, poolUpdatedAt = 0, poolDeletedAt = None\<rparr>"

definition gget :: "'v \<Rightarrow> ('k, 'v) gomap \<Rightarrow> 'k \<Rightarrow> 'v" where
  "gget z m k = (case map_of m k of None \<Rightarrow> z | Some v \<Rightarrow> v)"

abbreviation poolDeleted :: "pool \<Rightarrow> bool" where
  "poolDeleted p \<equiv> poolDeletedAt p \<noteq> None"

abbreviation accDeleted :: "account \<Rightarrow> bool" where
  "accDeleted a \<equiv> accDeletedAt a \<noteq> None"

subsection \<open>Pools\<close>

definition ListPools :: "mstore \<Rightarrow> pool list" where
  "ListPools s = [clonePool p. (_, p) \<leftarrow> pools s, \<not> poolDeleted p]"

definition CreatePool :: "go_time \<Rightarrow> mstore \<Rightarrow> create_pool \<Rightarrow> mstore \<times> (go_error + pool)" where
  "CreatePool now s inp =
     (if cpName inp = [] \<or> cpCIDR inp = []
      then (s, Inl (wrapf ''name and cidr required'' ErrValidation))
      else
        let i = nextPool s;
            ptype = (if cpType inp = [] then PoolTypeSubnet else cpType inp);
            pstatus = (if cpStatus inp = [] then PoolStatusActive else cpStatus inp);
            psource = (if cpSource inp = [] then PoolSourceManual else cpSource inp);
            p = \<lparr>poolID = i, poolName = cpName inp, poolCIDR = cpCIDR inp,
                 poolParentID = cpParentID inp, poolAccountID = cpAccountID inp,
                 poolType = ptype, poolStatus = pstatus, poolSource = psource,
                 poolDescription = cpDescription inp,
                 poolTags = cloneStringStringMap (cpTags inp),
                 poolCreatedAt = now, poolUpdatedAt = now, poolDeletedAt = None\<rparr>
        in (s\<lparr>pools := gput i p (pools s), nextPool := i + 1\<rparr>, Inr (clonePool p)))"

definition GetPool :: "mstore \<Rightarrow> go_id \<Rightarrow> pool option" where
  "GetPool s i = (case map_of (pools s) i of None \<Rightarrow> None
     | Some p \<Rightarrow> if poolDeleted p then None else Some (clonePool p))"

definition UpdatePoolAccount ::
    "mstore \<Rightarrow> go_id \<Rightarrow> go_id option \<Rightarrow> mstore \<times> pool option" where
  "UpdatePoolAccount s i accountID = (case map_of (pools s) i of None \<Rightarrow> (s, None)
     | Some p \<Rightarrow>
         let p = p\<lparr>poolAccountID := accountID\<rparr>
         in (s\<lparr>pools := gput i p (pools s)\<rparr>, Some (clonePool p)))"

definition UpdatePoolMeta ::
    "go_time \<Rightarrow> mstore \<Rightarrow> go_id \<Rightarrow> string option \<Rightarrow> go_id option \<Rightarrow> mstore \<times> pool option" where
  "UpdatePoolMeta now s i name accountID = (case map_of (pools s) i of None \<Rightarrow> (s, None)
     | Some p \<Rightarrow>
         let p = (case name of None \<Rightarrow> p | Some n \<Rightarrow> p\<lparr>poolName := n\<rparr>);
             p = p\<lparr>poolAccountID := accountID\<rparr>;
             p = p\<lparr>poolUpdatedAt := now\<rparr>
         in (s\<lparr>pools := gput i p (pools s)\<rparr>, Some (clonePool p)))"

definition apply_update :: "go_time \<Rightarrow> update_pool \<Rightarrow> pool \<Rightarrow> pool" where
  "apply_update now u p =
     (let p = (case upName u of None \<Rightarrow> p | Some n \<Rightarrow> p\<lparr>poolName := n\<rparr>);
          p = p\<lparr>poolAccountID := upAccountID u\<rparr>;
          p = (case upType u of None \<Rightarrow> p | Some t \<Rightarrow> p\<lparr>poolType := t\<rparr>);
          p = (case upStatus u of None \<Rightarrow> p | Some t \<Rightarrow> p\<lparr>poolStatus := t\<rparr>);
          p = (case upDescription u of None \<Rightarrow> p | Some d \<Rightarrow> p\<lparr>poolDescription := d\<rparr>);
          p = (case upTags u of None \<Rightarrow> p | Some t \<Rightarrow> p\<lparr>poolTags := cloneStringStringMap t\<rparr>)
      in p\<lparr>poolUpdatedAt := now\<rparr>)"

definition UpdatePool :: "go_time \<Rightarrow> mstore \<Rightarrow> go_id \<Rightarrow> update_pool \<Rightarrow> mstore \<times> pool option" where
  "UpdatePool now s i u = (case map_of (pools s) i of None \<Rightarrow> (s, None)
     | Some p \<Rightarrow>
         let p = apply_update now u p
         in (s\<lparr>pools := gput i p (pools s)\<rparr>, Some (clonePool p)))"

text \<open>The mark every deletion leaves: \<open>DeletedAt\<close> and \<open>UpdatedAt\<close> set to the same instant.\<close>

definition soft_delete :: "go_time \<Rightarrow> pool \<Rightarrow> pool" where
  "soft_delete now p = p\<lparr>poolDeletedAt := Some now, poolUpdatedAt := now\<rparr>"

definition live_child_of :: "go_id \<Rightarrow> pool \<Rightarrow> bool" where
  "live_child_of i ch = (poolParentID ch = Some i \<and> \<not> poolDeleted ch)"

definition DeletePool :: "go_time \<Rightarrow> mstore \<Rightarrow> go_id \<Rightarrow> mstore \<times> (go_error + bool)" where
  "DeletePool now s i = (case map_of (pools s) i of None \<Rightarrow> (s, Inr False)
     | Some p \<Rightarrow>
         if poolDeleted p then (s, Inr False)
         else if list_ex (\<lambda>(_, ch). live_child_of i ch) (pools s)
         then (s, Inl (wrapf ''pool has child pools'' ErrConflict))
         else (s\<lparr>pools := gput i (soft_delete now p) (pools s)\<rparr>, Inr True))"

subsection \<open>The cascade\<close>

text \<open>
  One visit of the inner loop, one pass over the map, and the outer loop that repeats the
  pass while it makes progress. \<open>toDelete\<close> is the list of ids in the order they were added.
\<close>

definition cascade_visit :: "go_id \<times> pool \<Rightarrow> go_id list \<times> bool \<Rightarrow> go_id list \<times> bool" where
  "cascade_visit e acc = (case e of (pid, pp) \<Rightarrow> case acc of (toDelete, progressed) \<Rightarrow>
     if pid \<in> set toDelete then (toDelete, progressed)
     else if poolDeleted pp then (toDelete, progressed)
     else case poolParentID pp of
       None \<Rightarrow> (toDelete, progressed)
     | Some q \<Rightarrow> if q \<in> set toDelete then (toDelete @ [pid], True) else (toDelete, progressed))"

definition cascade_pass :: "(go_id, pool) gomap \<Rightarrow> go_id list \<Rightarrow> go_id list \<times> bool" where
  "cascade_pass ps toDelete = fold cascade_visit ps (toDelete, False)"

lemma cascade_fold_progress:
  "fold cascade_visit ps (d, b) = (d', b') \<Longrightarrow>
     set d \<subseteq> set d' \<and> (b \<longrightarrow> b') \<and> (b' \<and> \<not> b \<longrightarrow> (\<exists>x. x \<in> gkeys ps \<and> x \<in> set d' \<and> x \<notin> set d))"
proof (induction ps arbitrary: d b)
  case (Cons e ps)
  obtain pid pp where e: "e = (pid, pp)" by (cases e)
  obtain d1 b1 where v: "cascade_visit e (d, b) = (d1, b1)" by fastforce
  have step: "(d1, b1) = (d, b) \<or> (pid \<notin> set d \<and> d1 = d @ [pid] \<and> b1)"
    using v unfolding e cascade_visit_def by (auto split: if_splits option.splits)
  show ?case using Cons.IH[of d1 b1] Cons.prems step v unfolding e by auto
qed simp

function cascade_close :: "(go_id, pool) gomap \<Rightarrow> go_id list \<Rightarrow> go_id list" where
  "cascade_close ps toDelete =
     (case cascade_pass ps toDelete of (toDelete', progressed) \<Rightarrow>
        if progressed then cascade_close ps toDelete' else toDelete')"
  by pat_completeness auto
termination
proof (relation "measure (\<lambda>(ps, d). card (gkeys ps - set d))", simp)
  fix ps d x y
  assume "(x, y) = cascade_pass ps d" "y"
  then have "fold cascade_visit ps (d, False) = (x, True)" by (simp add: cascade_pass_def)
  from cascade_fold_progress[OF this]
  have "set d \<subseteq> set x" "\<exists>z. z \<in> gkeys ps \<and> z \<in> set x \<and> z \<notin> set d" by simp_all
  then have "gkeys ps - set x \<subset> gkeys ps - set d" by blast
  then show "((ps, x), (ps, d)) \<in> measure (\<lambda>(ps, d). card (gkeys ps - set d))"
    by (simp add: psubset_card_mono)
qed

declare cascade_close.simps [simp del]

definition mark_deleted :: "go_time \<Rightarrow> go_id list \<Rightarrow> (go_id, pool) gomap \<Rightarrow> (go_id, pool) gomap" where
  "mark_deleted now ids ps =
     fold (\<lambda>pid ps. gput pid (soft_delete now (gget zero_pool ps pid)) ps) ids ps"

definition DeletePoolCascade :: "go_time \<Rightarrow> mstore \<Rightarrow> go_id \<Rightarrow> mstore \<times> bool" where
  "DeletePoolCascade now s i = (case map_of (pools s) i of None \<Rightarrow> (s, False)
     | Some p \<Rightarrow>
         if poolDeleted p then (s, False)
         else (s\<lparr>pools := mark_deleted now (cascade_close (pools s) [i]) (pools s)\<rparr>, True))"

subsection \<open>Accounts\<close>

definition ListAccounts :: "mstore \<Rightarrow> account list" where
  "ListAccounts s = [cloneAccount a. (_, a) \<leftarrow> accounts s, \<not> accDeleted a]"

text \<open>\<open>append([]string(nil), xs...)\<close> copies a slice and turns an empty one into nil.\<close>

definition append_nil :: "string list option \<Rightarrow> string list option" where
  "append_nil xs = (case xs of None \<Rightarrow> None | Some [] \<Rightarrow> None | Some l \<Rightarrow> Some l)"

definition CreateAccount ::
    "go_time \<Rightarrow> mstore \<Rightarrow> create_account \<Rightarrow> mstore \<times> (go_error + account)" where
  "CreateAccount now s inp =
     (if caKey inp = [] \<or> caName inp = []
      then (s, Inl (wrapf ''key and name required'' ErrValidation))
      else
        let i = nextAccount s;
            a = \<lparr>accID = i, accKey = caKey inp, accName = caName inp,
                 accProvider = caProvider inp, accExternalID = caExternalID inp,
                 accDescription = caDescription inp, accPlatform = caPlatform inp,
                 accTier = caTier inp, accEnvironment = caEnvironment inp,
                 accRegions = append_nil (caRegions inp),
                 accCreatedAt = now, accUpdatedAt = now, accDeletedAt = None\<rparr>
        in (s\<lparr>accounts := gput i a (accounts s), nextAccount := i + 1\<rparr>, Inr (cloneAccount a)))"

definition UpdateAccount ::
    "go_time \<Rightarrow> mstore \<Rightarrow> go_id \<Rightarrow> account \<Rightarrow> mstore \<times> account option" where
  "UpdateAccount now s i u = (case map_of (accounts s) i of None \<Rightarrow> (s, None)
     | Some a \<Rightarrow>
         let a = (if accName u \<noteq> [] then a\<lparr>accName := accName u\<rparr> else a);
             a = a\<lparr>accProvider := accProvider u, accExternalID := accExternalID u,
                  accDescription := accDescription u, accPlatform := accPlatform u,
                  accTier := accTier u, accEnvironment := accEnvironment u\<rparr>;
             a = (case accRegions u of None \<Rightarrow> a
                  | Some l \<Rightarrow> a\<lparr>accRegions := append_nil (Some l)\<rparr>);
             a = a\<lparr>accUpdatedAt := now\<rparr>
         in (s\<lparr>accounts := gput i a (accounts s)\<rparr>, Some (cloneAccount a)))"

definition account_delete_mark :: "go_time \<Rightarrow> account \<Rightarrow> account" where
  "account_delete_mark now a = a\<lparr>accDeletedAt := Some now, accUpdatedAt := now\<rparr>"

definition live_pool_of_account :: "go_id \<Rightarrow> pool \<Rightarrow> bool" where
  "live_pool_of_account i p = (poolAccountID p = Some i \<and> \<not> poolDeleted p)"

definition DeleteAccount :: "go_time \<Rightarrow> mstore \<Rightarrow> go_id \<Rightarrow> mstore \<times> (go_error + bool)" where
  "DeleteAccount now s i = (case map_of (accounts s) i of None \<Rightarrow> (s, Inr False)
     | Some a \<Rightarrow>
         if accDeleted a then (s, Inr False)
         else if list_ex (\<lambda>(_, p). live_pool_of_account i p) (pools s)
         then (s, Inl (wrapf ''account in use by pools'' ErrConflict))
         else (s\<lparr>accounts := gput i (account_delete_mark now a) (accounts s)\<rparr>, Inr True))"

definition DeleteAccountCascade :: "go_time \<Rightarrow> mstore \<Rightarrow> go_id \<Rightarrow> mstore \<times> bool" where
  "DeleteAccountCascade now s i = (case map_of (accounts s) i of None \<Rightarrow> (s, False)
     | Some a \<Rightarrow>
         if accDeleted a then (s, False)
         else
           let roots = [pid. (pid, p) \<leftarrow> pools s, live_pool_of_account i p];
               toDelete = cascade_close (pools s) roots
           in (s\<lparr>pools := mark_deleted now toDelete (pools s),
                 accounts := gput i (account_delete_mark now a) (accounts s)\<rparr>, True))"

definition GetAccount :: "mstore \<Rightarrow> go_id \<Rightarrow> account option" where
  "GetAccount s i = (case map_of (accounts s) i of None \<Rightarrow> None
     | Some a \<Rightarrow> if accDeleted a then None else Some (cloneAccount a))"

definition GetAccountByKey :: "mstore \<Rightarrow> string \<Rightarrow> go_error + account" where
  "GetAccountByKey s key =
     (case find (\<lambda>(_, a). accKey a = key \<and> \<not> accDeleted a) (accounts s) of
        Some (_, a) \<Rightarrow> Inr (cloneAccount a)
      | None \<Rightarrow> Inl ErrNotFound)"

subsection \<open>Statistics\<close>

text \<open>
  The address count of a pool, with the code's cap for IPv6. \<open>float64\<close> arithmetic on the
  utilisation is read as exact rational arithmetic.
\<close>

definition pool_total_ips :: "nprefix \<Rightarrow> int" where
  "pool_total_ips pfx =
     (if is4 (pfxAddr pfx) then 2 ^ nat (32 - pfxBits pfx)
      else let bits = 128 - pfxBits pfx in if bits \<ge> 63 then 2 ^ 62 else 2 ^ nat bits)"

text \<open>
  \<open>countDescendants\<close> recurses through the whole map for each child it finds. The second
  argument is the part of the map the loop of the current call still has to visit. It does
  not return on a cyclic parent relation; then the value is \<open>None\<close>.
\<close>

partial_function (option) count_loop ::
    "(go_id, pool) gomap \<Rightarrow> (go_id, pool) gomap \<Rightarrow> go_id \<Rightarrow> int option" where
  "count_loop ps rest parentID = (case rest of [] \<Rightarrow> Some 0
     | e # rest' \<Rightarrow>
         if live_child_of parentID (snd e)
         then do {
           sub \<leftarrow> count_loop ps ps (poolID (snd e));
           more \<leftarrow> count_loop ps rest' parentID;
           Some (1 + sub + more)
         }
         else count_loop ps rest' parentID)"

definition countDescendants :: "(go_id, pool) gomap \<Rightarrow> go_id \<Rightarrow> int option" where
  "countDescendants ps parentID = count_loop ps ps parentID"

fun child_sums :: "pool \<Rightarrow> (go_id, pool) gomap \<Rightarrow> int \<times> int" where
  "child_sums p [] = (0, 0)"
| "child_sums p ((_, child) # rest) =
     (let (direct, used) = child_sums p rest in
      if live_child_of (poolID p) child then
        (case parsePrefix (poolCIDR child) of
           None \<Rightarrow> (direct + 1, used)
         | Some cp \<Rightarrow> (direct + 1, if is4 (pfxAddr cp) then used + 2 ^ nat (32 - pfxBits cp) else used))
      else (direct, used))"

definition zero_stats :: pool_stats where
  "zero_stats = \<lparr>TotalIPs = 0, UsedIPs = 0, AvailableIPs = 0, Utilization = 0,
     ChildCount = 0, DirectChildren = 0\<rparr>"

definition calculatePoolStatsLocked :: "(go_id, pool) gomap \<Rightarrow> pool \<Rightarrow> pool_stats option" where
  "calculatePoolStatsLocked ps p = (case parsePrefix (poolCIDR p) of
     None \<Rightarrow> Some zero_stats
   | Some pfx \<Rightarrow>
       let totalIPs = pool_total_ips pfx;
           (directChildren, usedIPs) = child_sums p ps
       in do {
         totalChildCount \<leftarrow> countDescendants ps (poolID p);
         Some \<lparr>TotalIPs = totalIPs, UsedIPs = usedIPs, AvailableIPs = totalIPs - usedIPs,
           Utilization = (if totalIPs > 0 then of_int usedIPs / of_int totalIPs * 100 else 0),
           ChildCount = totalChildCount, DirectChildren = directChildren\<rparr>
       })"

definition GetPoolWithStats :: "mstore \<Rightarrow> go_id \<Rightarrow> (go_error + pool_with_stats) option" where
  "GetPoolWithStats s i = (case map_of (pools s) i of
     None \<Rightarrow> Some (Inl (wrapf ''pool not found'' ErrNotFound))
   | Some p \<Rightarrow>
       if poolDeleted p then Some (Inl (wrapf ''pool not found'' ErrNotFound))
       else do { stats \<leftarrow> calculatePoolStatsLocked (pools s) p; Some (Inr (PoolWithStats p stats [])) })"

definition CalculatePoolUtilization :: "mstore \<Rightarrow> go_id \<Rightarrow> (go_error + pool_stats) option" where
  "CalculatePoolUtilization s i = (case map_of (pools s) i of
     None \<Rightarrow> Some (Inl (wrapf ''pool not found'' ErrNotFound))
   | Some p \<Rightarrow>
       if poolDeleted p then Some (Inl (wrapf ''pool not found'' ErrNotFound))
       else do { stats \<leftarrow> calculatePoolStatsLocked (pools s) p; Some (Inr stats) })"

subsection \<open>Hierarchy\<close>

text \<open>
  \<open>children[pid]\<close> in the order of the map, and \<open>buildTree\<close> on a list of ids (the loop of
  \<open>buildTree\<close> over the children and the one over the roots are this list).
\<close>

definition child_ids :: "(go_id, pool) gomap \<Rightarrow> go_id \<Rightarrow> go_id list" where
  "child_ids ps pid = [poolID p. (_, p) \<leftarrow> ps, live_child_of pid p]"

partial_function (option) buildTrees ::
    "(go_id, pool) gomap \<Rightarrow> go_id list \<Rightarrow> pool_with_stats list option" where
  "buildTrees ps ids = (case ids of [] \<Rightarrow> Some []
     | pid # rest \<Rightarrow> do {
         stats \<leftarrow> calculatePoolStatsLocked ps (gget zero_pool ps pid);
         ch \<leftarrow> buildTrees ps (child_ids ps pid);
         more \<leftarrow> buildTrees ps rest;
         Some (PoolWithStats (gget zero_pool ps pid) stats ch # more)
       })"

definition root_ids :: "(go_id, pool) gomap \<Rightarrow> go_id list" where
  "root_ids ps = [poolID p. (_, p) \<leftarrow> ps, poolParentID p = None \<and> \<not> poolDeleted p]"

definition GetPoolHierarchy ::
    "mstore \<Rightarrow> go_id option \<Rightarrow> (go_error + pool_with_stats list) option" where
  "GetPoolHierarchy s rootID = (case rootID of
     Some r \<Rightarrow>
       (case map_of (pools s) r of
          None \<Rightarrow> Some (Inl (wrapf ''root pool not found'' ErrNotFound))
        | Some rp \<Rightarrow>
            if poolDeleted rp then Some (Inl (wrapf ''root pool not found'' ErrNotFound))
            else do { t \<leftarrow> buildTrees (pools s) [r]; Some (Inr t) })
   | None \<Rightarrow> do { t \<leftarrow> buildTrees (pools s) (root_ids (pools s)); Some (Inr t) })"

definition GetPoolChildren :: "mstore \<Rightarrow> go_id \<Rightarrow> go_error + pool list" where
  "GetPoolChildren s parentID = (case map_of (pools s) parentID of
     None \<Rightarrow> Inl (wrapf ''parent pool not found'' ErrNotFound)
   | Some pp \<Rightarrow>
       if poolDeleted pp then Inl (wrapf ''parent pool not found'' ErrNotFound)
       else Inr [clonePool p. (_, p) \<leftarrow> pools s, live_child_of parentID p])"

subsection \<open>Search\<close>

text \<open>A CIDR filter is \<open>None\<close> when its flag (\<open>hasCIDRContains\<close>, \<open>hasCIDRWithin\<close>) is false.\<close>

definition matchPool :: "pool \<Rightarrow> string \<Rightarrow> nprefix option \<Rightarrow> nprefix option \<Rightarrow> bool" where
  "matchPool p query cidrContains cidrWithin =
     ((case cidrContains of None \<Rightarrow> True
       | Some c \<Rightarrow> (case parsePrefix (poolCIDR p) of None \<Rightarrow> False | Some pp \<Rightarrow> PrefixContains pp c))
      \<and> (case cidrWithin of None \<Rightarrow> True
       | Some w \<Rightarrow> (case parsePrefix (poolCIDR p) of None \<Rightarrow> False | Some pp \<Rightarrow> PrefixContains w pp))
      \<and> (query = [] \<or> str_contains (toLower (poolName p)) query
          \<or> str_contains (toLower (poolCIDR p)) query
          \<or> str_contains (toLower (poolDescription p)) query
          \<or> str_contains (toLower (poolType p)) query
          \<or> str_contains (toLower (poolStatus p)) query))"

definition matchAccount :: "account \<Rightarrow> string \<Rightarrow> bool" where
  "matchAccount a query =
     (str_contains (toLower (accName a)) query \<or> str_contains (toLower (accKey a)) query
      \<or> str_contains (toLower (accDescription a)) query
      \<or> str_contains (toLower (accProvider a)) query)"

text \<open>The error of \<open>ParseCIDROrIP\<close>, without the input it quotes after the message.\<close>

definition cidr_error :: "cidr_parse_error \<Rightarrow> go_error" where
  "cidr_error e = (case e of OnlyIPv4Supported \<Rightarrow> plainErr ''only IPv4 supported''
     | InvalidCIDROrIP \<Rightarrow> plainErr ''invalid CIDR or IP'')"

definition search_filter :: "string \<Rightarrow> string \<Rightarrow> go_error + nprefix option" where
  "search_filter label v =
     (if v = [] then Inr None
      else case ParseCIDROrIP v of Inl e \<Rightarrow> Inl (wrapf (''invalid '' @ label) (cidr_error e)) | Inr p \<Rightarrow> Inr (Some p))"

definition pool_item :: "pool \<Rightarrow> search_item" where
  "pool_item p = \<lparr>siType = ''pool'', siID = poolID p, siName = poolName p, siCIDR = poolCIDR p,
     siDescription = poolDescription p, siStatus = poolStatus p, siPoolType = poolType p,
     siAccountKey = [], siProvider = [], siParentID = poolParentID p, siAccountID = poolAccountID p\<rparr>"

definition account_item :: "account \<Rightarrow> search_item" where
  "account_item a = \<lparr>siType = ''account'', siID = accID a, siName = accName a, siCIDR = [],
     siDescription = accDescription a, siStatus = [], siPoolType = [],
     siAccountKey = accKey a, siProvider = accProvider a, siParentID = None, siAccountID = None\<rparr>"

definition search_items ::
    "mstore \<Rightarrow> search_request \<Rightarrow> nprefix option \<Rightarrow> nprefix option \<Rightarrow> search_item list" where
  "search_items s req cidrContains cidrWithin =
     (let searchPools = (srTypes req = [] \<or> ''pool'' \<in> set (srTypes req));
          searchAccounts = (srTypes req = [] \<or> ''account'' \<in> set (srTypes req));
          query = toLower (srQuery req)
      in (if searchPools
          then [pool_item p. (_, p) \<leftarrow> pools s,
                  \<not> poolDeleted p \<and> matchPool p query cidrContains cidrWithin]
          else [])
       @ (if searchAccounts \<and> cidrContains = None \<and> cidrWithin = None
          then [account_item a. (_, a) \<leftarrow> accounts s,
                  \<not> accDeleted a \<and> (query = [] \<or> matchAccount a query)]
          else []))"

text \<open>The start is a 64-bit product, which wraps for a huge page number; \<open>None\<close> is the panic of the
  slice expression.\<close>

definition paginate :: "search_item list \<Rightarrow> int \<Rightarrow> int \<Rightarrow> search_response option" where
  "paginate items reqPage reqPageSize =
     (let total' = int (length items);
          page = (if reqPage < 1 then 1 else reqPage);
          pageSize = (if reqPageSize < 1 then 50 else reqPageSize);
          pageSize = (if pageSize > 200 then 200 else pageSize);
          start = wrap64 ((page - 1) * pageSize);
          start = (if start > total' then total' else start);
          stop = wrap64 (start + pageSize);
          stop = (if stop > total' then total' else stop)
      in map_option (\<lambda>items'. \<lparr>spItems = items', spTotal = total', spPage = page, spPageSize = pageSize\<rparr>)
           (go_slice start stop items))"

definition Search :: "mstore \<Rightarrow> search_request \<Rightarrow> (go_error + search_response) option" where
  "Search s req = (case search_filter ''cidr_contains'' (srCIDRContains req) of
     Inl e \<Rightarrow> Some (Inl e)
   | Inr cidrContains \<Rightarrow> (case search_filter ''cidr_within'' (srCIDRWithin req) of
       Inl e \<Rightarrow> Some (Inl e)
     | Inr cidrWithin \<Rightarrow>
         map_option Inr (paginate (search_items s req cidrContains cidrWithin) (srPage req) (srPageSize req))))"

end
