(* ===== verification/PoolForest.thy ===== *)
theory PoolForest
  imports PoolStoreFacts
begin

section \<open>Reachable stores are forests\<close>

text \<open>
  The step relation of the store when pools are created under live parents (which the
  create handler checks before it calls the store), the forest invariant of its reachable
  states, and what it gives: the recursive count of descendants and the hierarchy both
  terminate, the count is the number of descendants, and the hierarchy lists every live
  pool exactly once.
\<close>

subsection \<open>The forest invariant\<close>

definition forest_ok :: "mstore \<Rightarrow> bool" where
  "forest_ok s \<longleftrightarrow> (\<forall>k p q. map_of (pools s) k = Some p \<longrightarrow> live_child_of q p \<longrightarrow>
     q < k \<and> (\<exists>pp. map_of (pools s) q = Some pp \<and> \<not> poolDeleted pp))"

lemma forest_okI:
  "(\<And>k p q. map_of (pools s) k = Some p \<Longrightarrow> live_child_of q p \<Longrightarrow>
     q < k \<and> (\<exists>pp. map_of (pools s) q = Some pp \<and> \<not> poolDeleted pp)) \<Longrightarrow> forest_ok s"
  by (auto simp: forest_ok_def)

lemma forest_okD:
  "forest_ok s \<Longrightarrow> map_of (pools s) k = Some p \<Longrightarrow> live_child_of q p \<Longrightarrow>
     q < k \<and> (\<exists>pp. map_of (pools s) q = Some pp \<and> \<not> poolDeleted pp)"
  by (auto simp: forest_ok_def)

text \<open>Replacing a pool by one with the same parent and deletion mark keeps the forest.\<close>

lemma forest_gput_same:
  assumes "forest_ok s" "map_of (pools s) i = Some p"
    "poolParentID p' = poolParentID p" "poolDeletedAt p' = poolDeletedAt p"
  shows "forest_ok (s\<lparr>pools := gput i p' (pools s)\<rparr>)"
proof (rule forest_okI)
  fix k r q
  assume "map_of (pools (s\<lparr>pools := gput i p' (pools s)\<rparr>)) k = Some r" "live_child_of q r"
  then obtain r0 where "map_of (pools s) k = Some r0" "live_child_of q r0"
    using assms by (auto simp: live_child_of_def split: if_splits)
  from forest_okD[OF assms(1) this] show "q < k \<and> (\<exists>pp. map_of (pools (s\<lparr>pools := gput i p' (pools s)\<rparr>)) q
      = Some pp \<and> \<not> poolDeleted pp)"
    using assms by auto
qed

text \<open>Marking a set of pools that is closed under live children keeps the forest.\<close>

lemma forest_mark:
  assumes inv: "forest_ok s" and
    closed: "\<And>k p q. map_of (pools s) k = Some p \<Longrightarrow> live_child_of q p \<Longrightarrow> q \<in> set ids \<Longrightarrow> k \<in> set ids"
  shows "forest_ok (s\<lparr>pools := mark_deleted now ids (pools s), accounts := accs\<rparr>)"
proof (rule forest_okI)
  fix k p q
  assume k: "map_of (pools (s\<lparr>pools := mark_deleted now ids (pools s), accounts := accs\<rparr>)) k = Some p"
    and c: "live_child_of q p"
  then have "k \<notin> set ids" "map_of (pools s) k = Some p"
    by (auto simp: map_of_mark_deleted live_child_of_def split: if_splits)
  with forest_okD[OF inv _ c] closed[OF _ c]
  show "q < k \<and> (\<exists>pp. map_of (pools (s\<lparr>pools := mark_deleted now ids (pools s), accounts := accs\<rparr>)) q
      = Some pp \<and> \<not> poolDeleted pp)"
    by (auto simp: map_of_mark_deleted)
qed

lemma cascade_closed:
  assumes "store_inv s" "map_of (pools s) k = Some p" "live_child_of q p"
    "q \<in> set (cascade_close (pools s) d)"
  shows "k \<in> set (cascade_close (pools s) d)"
  using assms by (auto simp: cascade_close_set store_inv_mem[symmetric] intro: live_below.child)

lemma forest_CreatePool:
  assumes "store_inv s" "forest_ok s" "\<And>q. cpParentID c = Some q \<Longrightarrow> GetPool s q \<noteq> None"
  shows "forest_ok (fst (CreatePool now s c))"
proof -
  have "forest_ok (s\<lparr>pools := gput (nextPool s) p (pools s), nextPool := n\<rparr>)"
    if "poolParentID p = cpParentID c" for p n
  proof (rule forest_okI)
    fix k r q
    assume k: "map_of (pools (s\<lparr>pools := gput (nextPool s) p (pools s), nextPool := n\<rparr>)) k = Some r"
      and r: "live_child_of q r"
    show "q < k \<and> (\<exists>pp. map_of (pools (s\<lparr>pools := gput (nextPool s) p (pools s), nextPool := n\<rparr>)) q
        = Some pp \<and> \<not> poolDeleted pp)"
    proof (cases "k = nextPool s")
      case True
      then have "cpParentID c = Some q" using k r that by (simp add: live_child_of_def)
      then obtain pp where "map_of (pools s) q = Some pp" "\<not> poolDeleted pp"
        using assms(3) by (auto simp: GetPool_def split: option.splits if_splits)
      then show ?thesis using True store_invD(3)[OF assms(1)] by fastforce
    next
      case False
      then have "map_of (pools s) k = Some r" using k by simp
      from forest_okD[OF assms(2) this r] show ?thesis
        using store_invD(3)[OF assms(1)] by fastforce
    qed
  qed
  then show ?thesis using assms(2) by (auto simp: CreatePool_def Let_def)
qed

lemma forest_UpdatePoolAccount: "forest_ok s \<Longrightarrow> forest_ok (fst (UpdatePoolAccount s i a))"
  by (auto simp: UpdatePoolAccount_def Let_def split: option.split intro: forest_gput_same)

lemma forest_UpdatePoolMeta: "forest_ok s \<Longrightarrow> forest_ok (fst (UpdatePoolMeta now s i n a))"
  by (auto simp: UpdatePoolMeta_def Let_def split: option.split intro!: forest_gput_same)

lemma forest_UpdatePool: "forest_ok s \<Longrightarrow> forest_ok (fst (UpdatePool now s i u))"
  by (auto simp: UpdatePool_def Let_def split: option.split intro: forest_gput_same)

lemma forest_DeletePool:
  assumes "store_inv s" "forest_ok s"
  shows "forest_ok (fst (DeletePool now s i))"
proof (cases "map_of (pools s) i")
  case None then show ?thesis using assms by (simp add: DeletePool_def)
next
  case (Some p)
  show ?thesis
  proof (cases "poolDeleted p \<or> list_ex (\<lambda>(_, ch). live_child_of i ch) (pools s)")
    case True
    then show ?thesis using assms Some by (auto simp: DeletePool_def)
  next
    case False
    then have "\<And>k c. map_of (pools s) k = Some c \<Longrightarrow> \<not> live_child_of i c"
      using store_inv_mem[OF assms(1)] by (fastforce simp: list_ex_iff)
    then have "forest_ok (s\<lparr>pools := mark_deleted now [i] (pools s), accounts := accounts s\<rparr>)"
      using assms by (intro forest_mark) auto
    then show ?thesis using False Some
      by (simp add: DeletePool_def mark_deleted_def gget_def)
  qed
qed

lemma forest_DeletePoolCascade:
  assumes "store_inv s" "forest_ok s"
  shows "forest_ok (fst (DeletePoolCascade now s i))"
proof -
  have "forest_ok (s\<lparr>pools := mark_deleted now (cascade_close (pools s) [i]) (pools s), accounts := accounts s\<rparr>)"
    using assms cascade_closed by (intro forest_mark)
  then show ?thesis using assms(2) by (auto simp: DeletePoolCascade_def split: option.split)
qed

lemma forest_same_pools: "forest_ok s \<Longrightarrow> pools t = pools s \<Longrightarrow> forest_ok t"
  by (simp add: forest_ok_def)

lemma pools_account_ops [simp]:
  "pools (fst (CreateAccount now s c)) = pools s" "pools (fst (UpdateAccount now s i u)) = pools s"
  "pools (fst (DeleteAccount now s i)) = pools s"
  by (auto simp: CreateAccount_def UpdateAccount_def DeleteAccount_def Let_def split: option.split)

lemma forest_DeleteAccountCascade:
  assumes "store_inv s" "forest_ok s"
  shows "forest_ok (fst (DeleteAccountCascade now s i))"
proof -
  have "forest_ok (s\<lparr>pools := mark_deleted now (cascade_close (pools s) (account_roots s i)) (pools s),
      accounts := accs\<rparr>)" for accs
    using assms cascade_closed by (intro forest_mark)
  then show ?thesis using assms(2)
    by (auto simp: DeleteAccountCascade_def Let_def account_roots_def split: option.split)
qed

subsection \<open>Reachable stores\<close>

inductive store_step :: "mstore \<Rightarrow> mstore \<Rightarrow> bool" where
  create_pool: "(\<And>q. cpParentID c = Some q \<Longrightarrow> GetPool s q \<noteq> None) \<Longrightarrow> store_step s (fst (CreatePool now s c))"
| update_account: "store_step s (fst (UpdatePoolAccount s i a))"
| update_meta: "store_step s (fst (UpdatePoolMeta now s i n a))"
| update_pool: "store_step s (fst (UpdatePool now s i u))"
| delete_pool: "store_step s (fst (DeletePool now s i))"
| delete_cascade: "store_step s (fst (DeletePoolCascade now s i))"
| create_account: "store_step s (fst (CreateAccount now s ca))"
| change_account: "store_step s (fst (UpdateAccount now s i au))"
| delete_account: "store_step s (fst (DeleteAccount now s i))"
| delete_account_cascade: "store_step s (fst (DeleteAccountCascade now s i))"

inductive store_reachable :: "mstore \<Rightarrow> bool" where
  init: "store_reachable NewMemoryStore"
| step: "store_reachable s \<Longrightarrow> store_step s t \<Longrightarrow> store_reachable t"

lemma store_step_invs:
  "store_step s t \<Longrightarrow> store_inv s \<Longrightarrow> forest_ok s \<Longrightarrow> store_inv t \<and> forest_ok t"
  by (induction rule: store_step.induct)
    (auto intro: store_inv_ops forest_CreatePool forest_UpdatePoolAccount forest_UpdatePoolMeta
      forest_UpdatePool forest_DeletePool forest_DeletePoolCascade forest_DeleteAccountCascade
      forest_same_pools[OF _ pools_account_ops(1)] forest_same_pools[OF _ pools_account_ops(2)]
      forest_same_pools[OF _ pools_account_ops(3)])

lemma reachable_invs: "store_reachable s \<Longrightarrow> store_inv s \<and> forest_ok s"
proof (induction rule: store_reachable.induct)
  case init
  have "pools NewMemoryStore = []" by (simp add: NewMemoryStore_def)
  then show ?case using store_inv_NewMemoryStore by (simp add: forest_ok_def)
next
  case (step s t) then show ?case using store_step_invs by blast
qed

subsection \<open>Counting descendants\<close>

definition tree_ok :: "(go_id, pool) gomap \<Rightarrow> go_id \<Rightarrow> bool" where
  "tree_ok ps b \<longleftrightarrow> gmap_ok ps \<and> (\<forall>(k, p) \<in> set ps. poolID p = k \<and> k < b \<and> (\<forall>q. live_child_of q p \<longrightarrow> q < k))"

lemma tree_okD:
  "tree_ok ps b \<Longrightarrow> (k, p) \<in> set ps \<Longrightarrow> poolID p = k \<and> k < b"
  "tree_ok ps b \<Longrightarrow> (k, p) \<in> set ps \<Longrightarrow> live_child_of q p \<Longrightarrow> q < k"
  by (auto simp: tree_ok_def)

lemma reachable_tree_ok: "store_reachable s \<Longrightarrow> tree_ok (pools s) (nextPool s)"
  using reachable_invs[of s] store_invD[of s] forest_okD[of s]
  by (fastforce simp: tree_ok_def store_inv_mem)

definition below :: "(go_id, pool) gomap \<Rightarrow> go_id \<Rightarrow> go_id set" where
  "below ps r = {x. live_below ps {r} x}"

definition descendants :: "(go_id, pool) gomap \<Rightarrow> go_id \<Rightarrow> go_id set" where
  "descendants ps r = below ps r - {r}"

lemma below_self [simp]: "r \<in> below ps r"
  by (simp add: below_def live_below.root)

lemma below_trans: "x \<in> below ps q \<Longrightarrow> q \<in> below ps r \<Longrightarrow> x \<in> below ps r"
  using live_below_trans[of ps "{q}" x "{r}"] by (simp add: below_def)

lemma below_child: "(k, p) \<in> set ps \<Longrightarrow> live_child_of r p \<Longrightarrow> k \<in> below ps r"
  by (auto simp: below_def intro: live_below.child live_below.root)

lemma below_unfold: "below ps r = insert r (\<Union>k \<in> {k. \<exists>p. (k, p) \<in> set ps \<and> live_child_of r p}. below ps k)"
proof -
  have "x = r \<or> (\<exists>k p. (k, p) \<in> set ps \<and> live_child_of r p \<and> x \<in> below ps k)" if "live_below ps {r} x" for x
    using that
  proof (induction rule: live_below.induct)
    case (child q x p)
    show ?case
    proof (cases "q = r")
      case True then show ?thesis using child.hyps below_self by blast
    next
      case False
      then show ?thesis using child below_child[of x p ps q] below_trans by blast
    qed
  qed simp
  moreover have "(\<Union>k \<in> {k. \<exists>p. (k, p) \<in> set ps \<and> live_child_of r p}. below ps k) \<subseteq> below ps r"
    using below_child below_trans by blast
  ultimately show ?thesis using below_self[of r ps] unfolding below_def by blast
qed

lemma below_order: "tree_ok ps b \<Longrightarrow> x \<in> below ps r \<Longrightarrow> x = r \<or> r < x"
proof -
  assume t: "tree_ok ps b" and "x \<in> below ps r"
  then have "live_below ps {r} x" by (simp add: below_def)
  then show ?thesis using t by induction (auto dest: tree_okD(2))
qed

lemma below_finite: "finite (below ps r)"
proof (rule finite_subset)
  show "below ps r \<subseteq> insert r (gkeys ps)"
  proof
    fix x assume "x \<in> below ps r"
    then have "live_below ps {r} x" by (simp add: below_def)
    then show "x \<in> insert r (gkeys ps)" by cases force+
  qed
qed simp

lemma live_child_of_inj: "live_child_of q p \<Longrightarrow> live_child_of q' p \<Longrightarrow> q = q'"
  by (simp add: live_child_of_def)

lemma below_siblings:
  assumes t: "tree_ok ps b" and c: "(k, p) \<in> set ps" "live_child_of r p" "(k', p') \<in> set ps"
    "live_child_of r p'" "k \<noteq> k'"
  shows "below ps k \<inter> below ps k' = {}"
proof -
  have "x \<notin> below ps k'" if "live_below ps {k} x" for x
    using that
  proof (induction rule: live_below.induct)
    case (root x)
    show ?case
    proof
      assume "x \<in> below ps k'"
      then have "live_below ps {k'} k" using root by (simp add: below_def)
      then show False
      proof cases
        case root then show False using c by simp
      next
        case (child q p2)
        then have "q = r" using c t by (metis gmap_okD live_child_of_inj tree_ok_def)
        then have "r \<in> below ps k'" using child by (simp add: below_def)
        then show False using below_order[OF t] tree_okD(2)[OF t c(3,4)] by fastforce
      qed
    qed
  next
    case (child q x p1)
    show ?case
    proof
      assume "x \<in> below ps k'"
      then have "live_below ps {k'} x" by (simp add: below_def)
      then show False
      proof cases
        case root
        then have "q = r" using child c t by (metis empty_iff gmap_okD insert_iff live_child_of_inj tree_ok_def)
        moreover have "q \<in> below ps k" using child by (simp add: below_def)
        ultimately show False using below_order[OF t] tree_okD(2)[OF t c(1,2)] by fastforce
      next
        case (child q2 p2)
        have "q2 = q" using child.hyps child(2,3) \<open>(x, p1) \<in> set ps\<close> \<open>live_child_of q p1\<close> t
          by (metis gmap_okD live_child_of_inj tree_ok_def)
        then show False using child(1) \<open>q \<notin> below ps k'\<close> by (simp add: below_def)
      qed
    qed
  qed
  then show ?thesis by (auto simp: below_def)
qed

lemma mset_set_Union_list:
  assumes "distinct xs" "\<And>x. x \<in> set xs \<Longrightarrow> finite (f x)"
    "\<And>x y. x \<in> set xs \<Longrightarrow> y \<in> set xs \<Longrightarrow> x \<noteq> y \<Longrightarrow> f x \<inter> f y = {}"
  shows "mset_set (\<Union>x \<in> set xs. f x) = sum_list (map (\<lambda>x. mset_set (f x)) xs)"
  using assms
proof (induction xs)
  case (Cons x xs)
  have "f x \<inter> (\<Union>y \<in> set xs. f y) = {}" using Cons.prems by fastforce
  then show ?case using Cons by (simp add: mset_set_Union)
qed simp

lemma child_ids_set:
  "tree_ok ps b \<Longrightarrow> set (child_ids ps r) = {k. \<exists>p. (k, p) \<in> set ps \<and> live_child_of r p}"
  by (force simp: child_ids_def dest: tree_okD(1))

lemma child_ids_fst: "tree_ok ps b \<Longrightarrow> child_ids ps r = map fst (filter (\<lambda>(k, p). live_child_of r p) ps)"
  unfolding child_ids_def tree_ok_def
  by (induction ps) (auto simp: gmap_ok_def split: prod.splits)

lemma child_ids_distinct: "tree_ok ps b \<Longrightarrow> distinct (child_ids ps r)"
  unfolding child_ids_fst by (simp add: distinct_map_filter tree_ok_def gmap_ok_def)

lemma child_ids_gt: "tree_ok ps b \<Longrightarrow> k \<in> set (child_ids ps r) \<Longrightarrow> r < k \<and> k < b \<and> k \<in> gkeys ps"
  by (force simp: child_ids_set dest: tree_okD)

lemma below_mset:
  assumes t: "tree_ok ps b"
  shows "mset_set (below ps r) = add_mset r (sum_list (map (\<lambda>k. mset_set (below ps k)) (child_ids ps r)))"
proof -
  have "r \<notin> (\<Union>k \<in> set (child_ids ps r). below ps k)"
    using below_order[OF t] child_ids_gt[OF t] by fastforce
  moreover have "below ps r = insert r (\<Union>k \<in> set (child_ids ps r). below ps k)"
    using below_unfold[of ps r] child_ids_set[OF t] by simp
  moreover have "mset_set (\<Union>k \<in> set (child_ids ps r). below ps k) =
      sum_list (map (\<lambda>k. mset_set (below ps k)) (child_ids ps r))"
    using child_ids_distinct[OF t] below_finite
  proof (rule mset_set_Union_list)
    fix x y assume "x \<in> set (child_ids ps r)" "y \<in> set (child_ids ps r)" "x \<noteq> y"
    then show "below ps x \<inter> below ps y = {}"
      using below_siblings[OF t] unfolding child_ids_set[OF t] by blast
  qed
  ultimately show ?thesis by (simp add: below_finite)
qed

lemma card_below:
  "tree_ok ps b \<Longrightarrow> card (below ps r) = 1 + sum_list (map (\<lambda>k. card (below ps k)) (child_ids ps r))"
proof -
  assume t: "tree_ok ps b"
  have sz: "size (sum_list (map g xs)) = sum_list (map (\<lambda>x. size (g x)) xs)" for g :: "go_id \<Rightarrow> go_id multiset" and xs
    by (induction xs) auto
  show ?thesis using arg_cong[OF below_mset[OF t, of r], of size] by (simp add: sz)
qed

lemma sum_list_int: "sum_list (map (\<lambda>k. int (f k)) xs) = int (sum_list (map f xs))"
  by (induction xs) auto

lemma count_loop_children:
  assumes "\<And>k. k \<in> set (child_ids rest r) \<Longrightarrow> count_loop ps ps k = Some (f k)"
  shows "count_loop ps rest r = Some (sum_list (map (\<lambda>k. 1 + f k) (child_ids rest r)))"
  using assms
proof (induction rest)
  case Nil show ?case by (subst count_loop.simps) (simp add: child_ids_def)
next
  case (Cons e rest)
  obtain k p where e: "e = (k, p)" by (cases e)
  have IH: "count_loop ps rest r = Some (sum_list (map (\<lambda>k. 1 + f k) (child_ids rest r)))"
    using Cons by (simp add: child_ids_def split: prod.splits)
  show ?case
    by (subst count_loop.simps)
      (use Cons.prems IH in \<open>auto simp: e child_ids_def\<close>)
qed

lemma count_loop_below:
  assumes t: "tree_ok ps b"
  shows "count_loop ps ps r = Some (int (card (below ps r)) - 1)"
proof (induction "nat (b - r)" arbitrary: r rule: less_induct)
  case less
  have "count_loop ps ps k = Some (int (card (below ps k)) - 1)" if "k \<in> set (child_ids ps r)" for k
    using less[of k] child_ids_gt[OF t that] by simp
  from count_loop_children[OF this]
  have "count_loop ps ps r = Some (sum_list (map (\<lambda>k. int (card (below ps k))) (child_ids ps r)))"
    by simp
  also have "sum_list (map (\<lambda>k. int (card (below ps k))) (child_ids ps r)) = int (card (below ps r)) - 1"
    by (simp add: card_below[OF t, of r] sum_list_int)
  finally show ?case .
qed

lemma countDescendants_card:
  "tree_ok ps b \<Longrightarrow> countDescendants ps r = Some (int (card (descendants ps r)))"
proof -
  assume t: "tree_ok ps b"
  have "0 < card (below ps r)" using below_self[of r ps] below_finite card_gt_0_iff by blast
  then show ?thesis using count_loop_below[OF t]
    by (simp add: countDescendants_def descendants_def below_finite)
qed

lemma stats_defined: "tree_ok ps b \<Longrightarrow> \<exists>st. calculatePoolStatsLocked ps p = Some st"
  by (auto simp: calculatePoolStatsLocked_def Let_def countDescendants_card split: option.split prod.split)

subsection \<open>The hierarchy\<close>

text \<open>The ids of a tree of pools, in preorder.\<close>

fun tree_ids :: "pool_with_stats \<Rightarrow> go_id list" where
  "tree_ids (PoolWithStats p st ch) = poolID p # concat (map tree_ids ch)"

lemma buildTrees_Cons:
  "buildTrees ps (i # rest) = do {
     stats \<leftarrow> calculatePoolStatsLocked ps (gget zero_pool ps i);
     ch \<leftarrow> buildTrees ps (child_ids ps i);
     more \<leftarrow> buildTrees ps rest;
     Some (PoolWithStats (gget zero_pool ps i) stats ch # more)}"
  by (subst buildTrees.simps) simp

lemma buildTrees_list:
  assumes "\<And>i. i \<in> set is \<Longrightarrow> i \<in> gkeys ps"
    and "\<And>i. i \<in> set is \<Longrightarrow> \<exists>ch. buildTrees ps (child_ids ps i) = Some ch
           \<and> add_mset i (mset (concat (map tree_ids ch))) = mset_set (below ps i)"
    and t: "tree_ok ps b"
  shows "\<exists>ts. buildTrees ps is = Some ts \<and> map (\<lambda>t. poolID (pwsPool t)) ts = is
     \<and> mset (concat (map tree_ids ts)) = sum_list (map (\<lambda>i. mset_set (below ps i)) is)"
  using assms(1,2)
proof (induction "is")
  case Nil show ?case by (subst buildTrees.simps) simp
next
  case (Cons i js)
  obtain ts where ts: "buildTrees ps js = Some ts" "map (\<lambda>t. poolID (pwsPool t)) ts = js"
    "mset (concat (map tree_ids ts)) = sum_list (map (\<lambda>i. mset_set (below ps i)) js)"
    using Cons by auto
  obtain ch where ch: "buildTrees ps (child_ids ps i) = Some ch"
    "add_mset i (mset (concat (map tree_ids ch))) = mset_set (below ps i)"
    using Cons.prems(2) by auto
  obtain st where st: "calculatePoolStatsLocked ps (gget zero_pool ps i) = Some st"
    using stats_defined[OF t] by blast
  obtain p where p: "map_of ps i = Some p" using Cons.prems(1)[of i] by (auto simp: gkeys_dom)
  then have "poolID (gget zero_pool ps i) = i"
    using tree_okD(1)[OF t map_of_SomeD[OF p]] by (simp add: gget_def)
  then show ?case using ts ch(2)[symmetric] by (simp add: buildTrees_Cons st ch(1))
qed

lemma buildTrees_below:
  assumes t: "tree_ok ps b"
  shows "\<exists>ch. buildTrees ps (child_ids ps r) = Some ch
     \<and> add_mset r (mset (concat (map tree_ids ch))) = mset_set (below ps r)"
proof (induction "nat (b - r)" arbitrary: r rule: less_induct)
  case less
  have "\<exists>ts. buildTrees ps (child_ids ps r) = Some ts \<and> map (\<lambda>t. poolID (pwsPool t)) ts = child_ids ps r
     \<and> mset (concat (map tree_ids ts)) = sum_list (map (\<lambda>i. mset_set (below ps i)) (child_ids ps r))"
  proof (rule buildTrees_list[OF _ _ t])
    fix i assume "i \<in> set (child_ids ps r)"
    from child_ids_gt[OF t this] less[of i]
    show "i \<in> gkeys ps" "\<exists>ch. buildTrees ps (child_ids ps i) = Some ch
        \<and> add_mset i (mset (concat (map tree_ids ch))) = mset_set (below ps i)" by simp_all
  qed
  then show ?case using below_mset[OF t, of r] by auto
qed

lemma buildTrees_total:
  assumes "tree_ok ps b" "set is \<subseteq> gkeys ps"
  shows "\<exists>ts. buildTrees ps is = Some ts \<and> map (\<lambda>t. poolID (pwsPool t)) ts = is
     \<and> mset (concat (map tree_ids ts)) = sum_list (map (\<lambda>i. mset_set (below ps i)) is)"
  using assms buildTrees_below by (intro buildTrees_list) auto

text \<open>Every live pool is below exactly one root.\<close>

definition live_ids :: "mstore \<Rightarrow> go_id set" where
  "live_ids s = {k. \<exists>p. map_of (pools s) k = Some p \<and> \<not> poolDeleted p}"

lemma live_child_of_live: "live_child_of q p \<Longrightarrow> \<not> poolDeleted p"
  by (simp add: live_child_of_def)

lemma below_live:
  assumes "store_inv s" "r \<in> live_ids s" "x \<in> below (pools s) r"
  shows "x \<in> live_ids s"
proof -
  have "live_below (pools s) {r} x" using assms(3) by (simp add: below_def)
  then show ?thesis using assms(2)
    by cases (auto simp: live_ids_def store_inv_mem[OF assms(1)] dest: live_child_of_live)
qed

lemma root_ids_set:
  "store_inv s \<Longrightarrow> set (root_ids (pools s)) =
     {k. \<exists>p. map_of (pools s) k = Some p \<and> poolParentID p = None \<and> \<not> poolDeleted p}"
  using store_invD(3)[of s] by (force simp: root_ids_def store_inv_mem)

lemma root_ids_distinct: "tree_ok ps b \<Longrightarrow> distinct (root_ids ps)"
proof -
  assume t: "tree_ok ps b"
  have "root_ids ps = map fst (filter (\<lambda>(k, p). poolParentID p = None \<and> \<not> poolDeleted p) ps)"
    using t unfolding root_ids_def tree_ok_def
    by (induction ps) (auto simp: gmap_ok_def split: prod.splits)
  then show ?thesis using t by (simp add: distinct_map_filter tree_ok_def gmap_ok_def)
qed

lemma live_has_root:
  assumes inv: "store_inv s" "forest_ok s"
  shows "x \<in> live_ids s \<Longrightarrow> \<exists>r \<in> set (root_ids (pools s)). x \<in> below (pools s) r"
proof (induction "nat x" arbitrary: x rule: less_induct)
  case less
  then obtain p where p: "map_of (pools s) x = Some p" "\<not> poolDeleted p" by (auto simp: live_ids_def)
  show ?case
  proof (cases "poolParentID p")
    case None
    then show ?thesis using p root_ids_set[OF inv(1)] by (intro bexI[of _ x]) auto
  next
    case (Some q)
    then have c: "live_child_of q p" using p by (simp add: live_child_of_def)
    from forest_okD[OF inv(2) p(1) c] obtain pp where
      q: "q < x" "map_of (pools s) q = Some pp" "\<not> poolDeleted pp" by auto
    then have "\<exists>r \<in> set (root_ids (pools s)). q \<in> below (pools s) r"
      using less.hyps[of q] store_invD(3)[OF inv(1)] by (fastforce simp: live_ids_def)
    then show ?thesis
      using below_child[of x p "pools s" q] c p store_inv_mem[OF inv(1)] below_trans by blast
  qed
qed

lemma roots_disjoint:
  assumes inv: "store_inv s" and t: "tree_ok (pools s) b"
    and r: "r \<in> set (root_ids (pools s))" "r' \<in> set (root_ids (pools s))" "r \<noteq> r'"
  shows "below (pools s) r \<inter> below (pools s) r' = {}"
proof -
  have nochild: "\<not> live_child_of q p" if "(k, p) \<in> set (pools s)" "k \<in> set (root_ids (pools s))" for k p q
    using that by (auto simp: root_ids_set[OF inv] live_child_of_def store_inv_mem[OF inv])
  have "x \<notin> below (pools s) r'" if "live_below (pools s) {r} x" for x
    using that
  proof (induction rule: live_below.induct)
    case (root x)
    show ?case
    proof
      assume "x \<in> below (pools s) r'"
      then have "live_below (pools s) {r'} r" using root by (simp add: below_def)
      then show False using r nochild by cases auto
    qed
  next
    case (child q x p1)
    show ?case
    proof
      assume "x \<in> below (pools s) r'"
      then have "live_below (pools s) {r'} x" by (simp add: below_def)
      then show False
      proof cases
        case root then show False using child.hyps nochild r by auto
      next
        case (child q2 p2)
        have "q2 = q" using child(2,3) \<open>(x, p1) \<in> set (pools s)\<close> \<open>live_child_of q p1\<close> t
          by (metis gmap_okD live_child_of_inj tree_ok_def)
        then show False using child(1) \<open>q \<notin> below (pools s) r'\<close> by (simp add: below_def)
      qed
    qed
  qed
  then show ?thesis by (auto simp: below_def)
qed

lemma live_ids_roots:
  assumes "store_inv s" "forest_ok s"
  shows "live_ids s = (\<Union>r \<in> set (root_ids (pools s)). below (pools s) r)"
  using live_has_root[OF assms] below_live[OF assms(1)] root_ids_set[OF assms(1)]
  by (fastforce simp: live_ids_def)

end
