(* ===== verification/StoreProps.thy ===== *)
theory StoreProps
  imports PoolForest
begin

section \<open>Properties of the pool and account store\<close>

text \<open>
  The store's properties over its reachable states, with a concrete store on which they are
  witnessed: a /8 root (id 1) with the /16 pools 2 and 3 below it and a /24 below pool 2.
\<close>

subsection \<open>A concrete store\<close>

definition demo_pool :: "string \<Rightarrow> string \<Rightarrow> go_id option \<Rightarrow> go_id option \<Rightarrow> create_pool" where
  "demo_pool n c par acct = \<lparr>cpName = n, cpCIDR = c, cpParentID = par, cpAccountID = acct, cpType = [],
     cpStatus = [], cpSource = [], cpDescription = [], cpTags = None\<rparr>"

definition demo_account :: create_account where
  "demo_account = \<lparr>caKey = ''k'', caName = ''acct'', caProvider = [], caExternalID = [],
     caDescription = [], caPlatform = [], caTier = [], caEnvironment = [], caRegions = None\<rparr>"

definition demo_s1 :: mstore where
  "demo_s1 = fst (CreatePool 2 (fst (CreateAccount 1 NewMemoryStore demo_account))
     (demo_pool ''root'' ''10.0.0.0/8'' None None))"
definition demo_s2 :: mstore where
  "demo_s2 = fst (CreatePool 3 demo_s1 (demo_pool ''a'' ''10.1.0.0/16'' (Some 1) (Some 1)))"
definition demo_s3 :: mstore where
  "demo_s3 = fst (CreatePool 4 demo_s2 (demo_pool ''b'' ''10.2.0.0/16'' (Some 1) None))"
definition demo_store :: mstore where
  "demo_store = fst (CreatePool 5 demo_s3 (demo_pool ''c'' ''10.1.1.0/24'' (Some 2) None))"

definition demo_pools :: "(go_id \<times> string \<times> go_id option \<times> go_id option \<times> go_time) list" where
  "demo_pools = [(1, ''10.0.0.0/8'', None, None, 2), (2, ''10.1.0.0/16'', Some 1, Some 1, 3),
     (3, ''10.2.0.0/16'', Some 1, None, 4), (4, ''10.1.1.0/24'', Some 2, None, 5)]"

lemma demo_store_pools:
  "map (\<lambda>(k, p). (k, poolCIDR p, poolParentID p, poolAccountID p, poolCreatedAt p)) (pools demo_store) = demo_pools"
  "list_all (\<lambda>(k, p). poolDeletedAt p = None \<and> poolID p = k) (pools demo_store)"
  "map (\<lambda>(k, a). (k, accDeletedAt a)) (accounts demo_store) = [(1, None)]"
  "nextPool demo_store = 5"
  by code_simp+

lemma demo_GetPool: "GetPool demo_store 1 \<noteq> None" "GetPool demo_store 2 \<noteq> None"
  by code_simp+

lemma reachable_create:
  "store_reachable s \<Longrightarrow> (case cpParentID c of None \<Rightarrow> True | Some q \<Rightarrow> GetPool s q \<noteq> None)
     \<Longrightarrow> store_reachable (fst (CreatePool now s c))"
  by (erule store_reachable.step) (rule store_step.create_pool, simp)

lemma demo_reachable: "store_reachable demo_store"
proof -
  have "store_reachable (fst (CreateAccount 1 NewMemoryStore demo_account))"
    by (rule store_reachable.step[OF store_reachable.init store_step.create_account])
  then have "store_reachable demo_s1"
    unfolding demo_s1_def by (rule reachable_create) (simp add: demo_pool_def)
  then have "store_reachable demo_s2"
    unfolding demo_s2_def by (rule reachable_create) code_simp
  then have "store_reachable demo_s3"
    unfolding demo_s3_def by (rule reachable_create) code_simp
  then show ?thesis
    unfolding demo_store_def by (rule reachable_create) code_simp
qed

lemma demo_inv: "store_inv demo_store" "forest_ok demo_store"
  using reachable_invs[OF demo_reachable] by simp_all

subsection \<open>Facts behind the properties\<close>

lemma DeletePoolCascade_effect:
  assumes "store_inv s" "GetPool s r = Some p"
  shows "snd (DeletePoolCascade now s r)"
    "map_of (pools (fst (DeletePoolCascade now s r))) x =
       (if x \<in> below (pools s) r then map_option (soft_delete now) (map_of (pools s) x) else map_of (pools s) x)"
    "accounts (fst (DeletePoolCascade now s r)) = accounts s"
proof -
  obtain p0 where p0: "map_of (pools s) r = Some p0" "\<not> poolDeleted p0"
    using assms(2) by (auto simp: GetPool_def split: option.splits if_splits)
  have keys: "x \<in> below (pools s) r \<Longrightarrow> \<exists>q. map_of (pools s) x = Some q" for x
    using live_below_keys[of "pools s" "{r}" x] p0 by (auto simp: below_def gkeys_dom)
  show "snd (DeletePoolCascade now s r)" "accounts (fst (DeletePoolCascade now s r)) = accounts s"
    using p0 by (simp_all add: DeletePoolCascade_def)
  show "map_of (pools (fst (DeletePoolCascade now s r))) x =
      (if x \<in> below (pools s) r then map_option (soft_delete now) (map_of (pools s) x) else map_of (pools s) x)"
    using p0 keys[of x] by (auto simp: DeletePoolCascade_def map_of_mark_deleted cascade_close_set below_def gget_def)
qed

lemma GetPool_iff_live: "GetPool s i \<noteq> None \<longleftrightarrow> i \<in> live_ids s"
  by (auto simp: GetPool_def live_ids_def split: option.splits)

lemma live_ids_cascade:
  assumes "store_inv s" "GetPool s r = Some p"
  shows "live_ids (fst (DeletePoolCascade now s r)) = live_ids s - below (pools s) r"
  by (auto simp: live_ids_def DeletePoolCascade_effect[OF assms] split: if_splits)

definition child_usage :: "pool \<Rightarrow> int" where
  "child_usage c = (case parsePrefix (poolCIDR c) of None \<Rightarrow> 0
     | Some cp \<Rightarrow> if is4 (pfxAddr cp) then 2 ^ nat (32 - pfxBits cp) else 0)"

lemma child_sums_lists:
  "child_sums p ps = (int (length (filter (\<lambda>(k, c). live_child_of (poolID p) c) ps)),
     sum_list (map (\<lambda>x. child_usage (snd x)) (filter (\<lambda>(k, c). live_child_of (poolID p) c) ps)))"
  by (induction ps) (auto simp: child_usage_def Let_def split: option.split prod.splits)

lemma sum_card_disjoint:
  assumes "distinct xs" "\<And>x. x \<in> set xs \<Longrightarrow> A x \<subseteq> B" "finite B"
    "\<And>x y. x \<in> set xs \<Longrightarrow> y \<in> set xs \<Longrightarrow> x \<noteq> y \<Longrightarrow> A x \<inter> A y = {}"
  shows "sum_list (map (\<lambda>x. card (A x)) xs) \<le> card B"
proof -
  have "sum_list (map (\<lambda>x. card (A x)) xs) = (\<Sum>x \<in> set xs. card (A x))"
    using assms(1) by (simp add: sum_list_distinct_conv_sum_set)
  also have "\<dots> = card (\<Union>x \<in> set xs. A x)"
    using assms by (intro card_UN_disjoint[symmetric]) (auto intro: finite_subset)
  also have "\<dots> \<le> card B" using assms by (intro card_mono) auto
  finally show ?thesis .
qed

text \<open>The addresses of a pool's CIDR; none when it does not parse as an IPv4 prefix.\<close>

definition cidr_addrs :: "string \<Rightarrow> 32 word set" where
  "cidr_addrs c = (case parsePrefix c of None \<Rightarrow> {} | Some p \<Rightarrow> if is4 (pfxAddr p) then pfx_addrs p else {})"

lemma child_usage_card: "child_usage c = int (card (cidr_addrs (poolCIDR c)))"
proof (cases "\<exists>cp. parsePrefix (poolCIDR c) = Some cp \<and> is4 (pfxAddr cp)")
  case True
  then obtain cp where cp: "parsePrefix (poolCIDR c) = Some cp" "is4 (pfxAddr cp)" by blast
  then obtain w n where "cp = v4pfx w n" "n \<le> 32" by (rule parsePrefix_is4E)
  then show ?thesis using cp
    by (simp add: child_usage_def cidr_addrs_def card_addrs4 block_size_def nat_minus_int)
qed (auto simp: child_usage_def cidr_addrs_def split: option.split)

lemma total_ips_card:
  assumes "parsePrefix c = Some cp" "is4 (pfxAddr cp)"
  shows "pool_total_ips cp = int (card (cidr_addrs c))" "0 < pool_total_ips cp"
proof -
  obtain w n where "cp = v4pfx w n" "n \<le> 32" using assms by (rule parsePrefix_is4E)
  then show "pool_total_ips cp = int (card (cidr_addrs c))" "0 < pool_total_ips cp"
    using assms by (simp_all add: pool_total_ips_def cidr_addrs_def card_addrs4 block_size_def nat_minus_int)
qed

definition children_of :: "mstore \<Rightarrow> go_id \<Rightarrow> pool list" where
  "children_of s i = map snd (filter (\<lambda>(k, p). live_child_of i p) (pools s))"

lemma stats_value:
  assumes "store_reachable s" "GetPool s i = Some p"
  obtains st where "CalculatePoolUtilization s i = Some (Inr st)"
    "calculatePoolStatsLocked (pools s) p = Some st"
    "poolID p = i"
proof -
  have inv: "store_inv s" using reachable_invs[OF assms(1)] by simp
  have p: "map_of (pools s) i = Some p" "\<not> poolDeleted p"
    using assms(2) store_invD(3)[OF inv] by (auto simp: GetPool_def split: option.splits if_splits)
  obtain st where "calculatePoolStatsLocked (pools s) p = Some st"
    using stats_defined[OF reachable_tree_ok[OF assms(1)]] by blast
  with p store_invD(3)[OF inv p(1)] show thesis
    by (intro that[of st]) (simp_all add: CalculatePoolUtilization_def)
qed

text \<open>Page \<open>n + 1\<close>, as long as the product of page and size fits in 62 bits (then no wrap-around).\<close>

lemma paginate_page:
  assumes "1 \<le> ps" "ps \<le> 200" "n * ps < 2 ^ 62" "length items < 2 ^ 62"
  shows "paginate items (int n + 1) (int ps) =
    Some \<lparr>spItems = take ps (drop (n * ps) items), spTotal = int (length items), spPage = int n + 1,
      spPageSize = int ps\<rparr>"
proof -
  have ps: "int ps \<le> 200" "\<not> int ps < 1" using assms(1,2) by simp_all
  have m: "int n * int ps = int (n * ps)" by simp
  have "int (n * ps) < 2 ^ 62" using assms(3) by (metis of_nat_less_numeral_power_cancel_iff)
  then have w: "wrap64 (int (n * ps)) = int (n * ps)"
    by (intro wrap64_id) (simp_all del: of_nat_mult)
  show ?thesis
  proof (cases "n * ps > length items")
    case True
    then have "int (n * ps) > int (length items)" by (simp only: of_nat_less_iff)
    moreover have "wrap64 (int (length items) + int ps) = int (length items) + int ps"
      using ps assms(4) by (intro wrap64_id) simp_all
    ultimately show ?thesis using ps True w
      by (simp add: paginate_def m go_slice_def del: of_nat_mult)
  next
    case False
    then have "\<not> int (n * ps) > int (length items)" by (simp del: of_nat_mult)
    moreover have "wrap64 (int (n * ps) + int ps) = int (n * ps + ps)"
      using ps \<open>int (n * ps) < 2 ^ 62\<close> by (subst wrap64_id) (simp_all del: of_nat_mult)
    ultimately show ?thesis using ps False w
      by (auto simp: paginate_def m go_slice_def Let_def simp del: of_nat_mult of_nat_add)
  qed
qed

lemma pages_concat:
  assumes "1 \<le> ps" "ps \<le> 200" "n * ps < 2 ^ 62" "length items < 2 ^ 62"
  shows "concat (map (\<lambda>k. spItems (the (paginate items (int k + 1) (int ps)))) [0..<n]) = take (n * ps) items"
  using assms(3)
proof (induction n)
  case (Suc n)
  then have n: "n * ps < 2 ^ 62" by simp
  have "concat (map (\<lambda>k. spItems (the (paginate items (int k + 1) (int ps)))) [0..<Suc n]) =
      take (n * ps) items @ take ps (drop (n * ps) items)"
    using Suc.IH[OF n] paginate_page[OF assms(1,2) n assms(4)] by simp
  also have "\<dots> = take (n * ps + ps) items" by (simp only: take_add)
  finally show ?case by (simp add: add.commute)
qed simp

text \<open>A page number whose product wraps to a negative start makes the search panic, for every store
  and every filter that parses; page \<open>2^61 + 1\<close> with page size 7 is one.\<close>

lemma search_huge_page_panics:
  assumes "search_filter ''cidr_contains'' (srCIDRContains req) = Inr cc"
    "search_filter ''cidr_within'' (srCIDRWithin req) = Inr cw"
  shows "Search s (req\<lparr>srPage := 2 ^ 61 + 1, srPageSize := 7\<rparr>) = None"
  using assms by (simp add: Search_def paginate_def go_slice_def wrap64_def Let_def)

lemma length_concat_le:
  assumes "\<And>x. length (f x) \<le> 1"
  shows "length (concat (map f xs)) \<le> length xs"
  by (induction xs) (simp_all add: add_mono[OF assms, simplified])

lemma search_items_length: "length (search_items s req cc cw) \<le> length (pools s) + length (accounts s)"
proof -
  have "length (concat (map (\<lambda>(_, p). if \<not> poolDeleted p \<and> matchPool p q cc cw then [pool_item p] else []) (pools s)))
      \<le> length (pools s)" for q
    by (rule length_concat_le) auto
  moreover have "length (concat (map (\<lambda>(_, a). if \<not> accDeleted a \<and> (q = [] \<or> matchAccount a q) then [account_item a] else [])
      (accounts s))) \<le> length (accounts s)" for q
    by (rule length_concat_le) auto
  ultimately show ?thesis
    unfolding search_items_def Let_def length_append by (intro add_mono) simp_all
qed

lemma search_items_set:
  assumes "store_inv s"
  shows "set (search_items s req cc cw) =
     (if srTypes req = [] \<or> ''pool'' \<in> set (srTypes req)
      then {pool_item p |i p. GetPool s i = Some p \<and> matchPool p (toLower (srQuery req)) cc cw} else {})
   \<union> (if (srTypes req = [] \<or> ''account'' \<in> set (srTypes req)) \<and> cc = None \<and> cw = None
      then {account_item a |i a. GetAccount s i = Some a
              \<and> (srQuery req = [] \<or> matchAccount a (toLower (srQuery req)))} else {})"
proof -
  have get: "GetPool s i = Some p \<longleftrightarrow> (i, p) \<in> set (pools s) \<and> \<not> poolDeleted p" for i p
    using store_invD(3)[OF assms] by (auto simp: GetPool_def store_inv_mem[OF assms] split: option.splits)
  have acc: "GetAccount s i = Some a \<longleftrightarrow> (i, a) \<in> set (accounts s) \<and> \<not> accDeleted a" for i a
    using store_invD(2)[OF assms] by (auto simp: GetAccount_def gmap_mem_iff split: option.splits)
  have q: "toLower q = [] \<longleftrightarrow> q = []" for q by (simp add: toLower_def)
  have P: "set [pool_item p. (_, p) \<leftarrow> pools s, \<not> poolDeleted p \<and> Q p] =
      {pool_item p |i p. GetPool s i = Some p \<and> Q p}" for Q
    unfolding get by force
  have A: "set [account_item a. (_, a) \<leftarrow> accounts s, \<not> accDeleted a \<and> Q a] =
      {account_item a |i a. GetAccount s i = Some a \<and> Q a}" for Q
    unfolding acc by force
  show ?thesis unfolding search_items_def Let_def q set_append P A if_distrib[of set] by simp
qed

text \<open>
  Two observations on concrete inputs. \<open>UpdatePool\<close> finds a pool that was deleted, although
  \<open>GetPool\<close> does not (the PostgreSQL store filters on \<open>deleted_at IS NULL\<close>). And the store accepts
  a second pool with the same parent and CIDR, which the SQL schemas exclude by a unique index,
  so that the children of a pool can use more addresses than it has.
\<close>

definition no_update :: update_pool where
  "no_update = \<lparr>upName = Some ''new'', upAccountID = None, upType = None, upStatus = None,
     upDescription = None, upTags = None\<rparr>"

lemma UpdatePool_after_delete:
  "GetPool (fst (DeletePool 8 demo_store 4)) 4 = None
   \<and> map_option poolName (snd (UpdatePool 9 (fst (DeletePool 8 demo_store 4)) 4 no_update)) = Some ''new''"
  by code_simp

lemma duplicate_cidr_overcounts:
  "(case child_sums (the (GetPool demo_store 2))
      (pools (fst (CreatePool 8 (fst (CreatePool 7 demo_store (demo_pool ''d'' ''10.1.0.0/17'' (Some 2) None)))
         (demo_pool ''e'' ''10.1.0.0/17'' (Some 2) None)))) of (n, used) \<Rightarrow> n = 3 \<and> used > 65536)"
  by code_simp

subsection \<open>The properties\<close>



text \<open>C3: the cascade deletes exactly the subtree. \<open>DeletePoolCascade\<close> on a live pool succeeds,
  marks that pool and all its live descendants as deleted at the same instant whatever the
  iteration order of the map, and leaves every other pool and the accounts untouched; the live pools
  afterwards are the former ones without the subtree.\<close>

theorem cascade_deletes_subtree:
  assumes "store_inv s" "GetPool s r = Some p"
  shows "snd (DeletePoolCascade now s r)
    \<and> live_ids (fst (DeletePoolCascade now s r)) = live_ids s - below (pools s) r
    \<and> (\<forall>x. map_of (pools (fst (DeletePoolCascade now s r))) x =
         (if x \<in> below (pools s) r then map_option (soft_delete now) (map_of (pools s) x)
          else map_of (pools s) x))
    \<and> accounts (fst (DeletePoolCascade now s r)) = accounts s"
  using DeletePoolCascade_effect[OF assms] live_ids_cascade[OF assms] by blast

theorem cascade_deletes_subtree_witness:
  "live_ids (fst (DeletePoolCascade 9 demo_store 2)) = live_ids demo_store - below (pools demo_store) 2"
proof -
  obtain p where "GetPool demo_store 2 = Some p" using demo_GetPool by blast
  from cascade_deletes_subtree[OF demo_inv(1) this] show ?thesis by blast
qed







text \<open>C31: the utilisation is the fraction of the pool's addresses its children cover. When the live
  children of an IPv4 pool lie inside it and are pairwise disjoint, the statistics return with
  \<open>TotalIPs\<close> the number of addresses of the pool, \<open>UsedIPs\<close> the sum over the children of theirs,
  at most the total, and a utilisation between 0 and 100.\<close>

theorem utilization_bounds:
  assumes "store_reachable s" "GetPool s i = Some p" "parsePrefix (poolCIDR p) = Some pp"
    "is4 (pfxAddr pp)"
    and inside: "\<And>k c. GetPool s k = Some c \<Longrightarrow> poolParentID c = Some i \<Longrightarrow> cidr_addrs (poolCIDR c) \<subseteq> cidr_addrs (poolCIDR p)"
    and disjoint: "\<And>k c l d. GetPool s k = Some c \<Longrightarrow> GetPool s l = Some d \<Longrightarrow> poolParentID c = Some i
       \<Longrightarrow> poolParentID d = Some i \<Longrightarrow> k \<noteq> l \<Longrightarrow> cidr_addrs (poolCIDR c) \<inter> cidr_addrs (poolCIDR d) = {}"
  shows "\<exists>st. CalculatePoolUtilization s i = Some (Inr st)
    \<and> TotalIPs st = int (card (cidr_addrs (poolCIDR p)))
    \<and> UsedIPs st = sum_list (map (\<lambda>c. int (card (cidr_addrs (poolCIDR c)))) (children_of s i))
    \<and> 0 \<le> UsedIPs st \<and> UsedIPs st \<le> TotalIPs st \<and> AvailableIPs st = TotalIPs st - UsedIPs st
    \<and> 0 \<le> Utilization st \<and> Utilization st \<le> 100"
proof -
  obtain st where st: "CalculatePoolUtilization s i = Some (Inr st)"
    "calculatePoolStatsLocked (pools s) p = Some st" "poolID p = i"
    using stats_value[OF assms(1,2)] by blast
  have inv: "store_inv s" using reachable_invs[OF assms(1)] by simp
  have get: "GetPool s k = Some q \<longleftrightarrow> (k, q) \<in> set (pools s) \<and> \<not> poolDeleted q" for k q
    using store_invD(3)[OF inv] by (auto simp: GetPool_def store_inv_mem[OF inv] split: option.splits)
  let ?cs = "filter (\<lambda>(k, c). live_child_of i c) (pools s)"
  have mem: "x \<in> set ?cs \<Longrightarrow> GetPool s (fst x) = Some (snd x) \<and> poolParentID (snd x) = Some i" for x
    by (auto simp: get live_child_of_def)
  have d: "distinct ?cs" using store_invD(1)[OF inv] by (simp add: gmap_ok_distinct)
  have fin: "finite (cidr_addrs (poolCIDR p))"
    using assms(3,4) by (auto simp: cidr_addrs_def elim: parsePrefix_is4E)
  have le: "sum_list (map (\<lambda>x. card (cidr_addrs (poolCIDR (snd x)))) ?cs) \<le> card (cidr_addrs (poolCIDR p))"
  proof (rule sum_card_disjoint[OF d _ fin])
    show "cidr_addrs (poolCIDR (snd x)) \<subseteq> cidr_addrs (poolCIDR p)" if "x \<in> set ?cs" for x
      using mem[OF that] inside by blast
    show "cidr_addrs (poolCIDR (snd x)) \<inter> cidr_addrs (poolCIDR (snd y)) = {}"
      if "x \<in> set ?cs" "y \<in> set ?cs" "x \<noteq> y" for x y
      using mem[OF that(1)] mem[OF that(2)] disjoint that(3) by (metis option.inject prod.collapse)
  qed
  have used: "UsedIPs st = int (sum_list (map (\<lambda>x. card (cidr_addrs (poolCIDR (snd x)))) ?cs))"
    and tot: "TotalIPs st = pool_total_ips pp" "AvailableIPs st = TotalIPs st - UsedIPs st"
    and util: "Utilization st = of_int (UsedIPs st) / of_int (TotalIPs st) * 100"
    using st assms(3) total_ips_card(2)[OF assms(3,4)]
    by (auto simp: calculatePoolStatsLocked_def child_sums_lists child_usage_card Let_def
        sum_list_int[symmetric] split: Option.bind_splits)
  have T: "TotalIPs st = int (card (cidr_addrs (poolCIDR p)))" "0 < TotalIPs st"
    using tot total_ips_card[OF assms(3,4)] by simp_all
  have U: "0 \<le> UsedIPs st" "UsedIPs st \<le> TotalIPs st" using used le T by simp_all
  then have "(of_int (UsedIPs st) :: rat) \<le> of_int (TotalIPs st)" "(0 :: rat) < of_int (TotalIPs st)"
    using T(2) by (simp_all only: of_int_le_iff of_int_0_less_iff)
  then have "0 \<le> Utilization st" "Utilization st \<le> 100"
    using U(1) by (simp_all add: util divide_le_eq)
  with st(1) tot(2) T U used show ?thesis
    by (auto simp: children_of_def sum_list_int[symmetric] o_def)
qed

theorem utilization_bounds_witness:
  "\<exists>st. CalculatePoolUtilization demo_store 2 = Some (Inr st) \<and> 0 < TotalIPs st
    \<and> UsedIPs st \<le> TotalIPs st \<and> Utilization st \<le> 100"
proof -
  obtain p where p: "GetPool demo_store 2 = Some p" using demo_GetPool by blast
  have pc: "poolCIDR (the (GetPool demo_store 2)) = ''10.1.0.0/16''" by code_simp
  have par: "parsePrefix ''10.1.0.0/16'' = Some (v4pfx 0x0A010000 16)" by code_simp
  have ch: "parsePrefix ''10.1.1.0/24'' = Some (v4pfx 0x0A010100 24)" by code_simp
  have "PrefixContains (v4pfx 0x0A010000 16) (v4pfx 0x0A010100 24)" by code_simp
  then have sub: "addrs4 0x0A010100 24 \<subseteq> addrs4 0x0A010000 16"
    using PrefixContains_v4[of 24 16 "0x0A010000" "0x0A010100"] by simp
  have kids: "list_all (\<lambda>(k, c). poolParentID c = Some 2 \<longrightarrow> k = 4 \<and> poolCIDR c = ''10.1.1.0/24'') (pools demo_store)"
    by code_simp
  have kid: "k = 4 \<and> poolCIDR c = ''10.1.1.0/24''" if "GetPool demo_store k = Some c" "poolParentID c = Some 2" for k c
    using that kids store_invD(3)[OF demo_inv(1)]
    by (fastforce simp: GetPool_def list_all_iff split: option.splits if_splits dest: map_of_SomeD)
  have P: "cidr_addrs (poolCIDR p) = addrs4 0x0A010000 16" "cidr_addrs ''10.1.1.0/24'' = addrs4 0x0A010100 24"
    using pc p par ch pfx_addrs_v4[of _ 16] pfx_addrs_v4[of _ 24] by (simp_all add: cidr_addrs_def)
  have "\<exists>st. CalculatePoolUtilization demo_store 2 = Some (Inr st)
    \<and> TotalIPs st = int (card (cidr_addrs (poolCIDR p)))
    \<and> UsedIPs st = sum_list (map (\<lambda>c. int (card (cidr_addrs (poolCIDR c)))) (children_of demo_store 2))
    \<and> 0 \<le> UsedIPs st \<and> UsedIPs st \<le> TotalIPs st \<and> AvailableIPs st = TotalIPs st - UsedIPs st
    \<and> 0 \<le> Utilization st \<and> Utilization st \<le> 100"
  proof (rule utilization_bounds[OF demo_reachable p])
    show "parsePrefix (poolCIDR p) = Some (v4pfx 0x0A010000 16)" using pc p par by simp
    show "cidr_addrs (poolCIDR c) \<subseteq> cidr_addrs (poolCIDR p)"
      if "GetPool demo_store k = Some c" "poolParentID c = Some 2" for k c
      using kid[OF that] P sub by simp
    show "cidr_addrs (poolCIDR c) \<inter> cidr_addrs (poolCIDR d) = {}"
      if "GetPool demo_store k = Some c" "GetPool demo_store l = Some d" "poolParentID c = Some 2"
        "poolParentID d = Some 2" "k \<noteq> l" for k c l d
      using kid[OF that(1,3)] kid[OF that(2,4)] that(5) by simp
  qed simp
  moreover have "int (card (cidr_addrs (poolCIDR p))) = 65536"
    unfolding P by (simp add: card_addrs4 block_size_def)
  ultimately show ?thesis by auto
qed

text \<open>C33: deleting an account by cascade leaves nothing that refers to it. After
  \<open>DeleteAccountCascade\<close> on a live account the account is gone, the live pools are the former ones
  without the account's pools and everything below them, and so no live pool has this account.\<close>

theorem account_cascade_leaves_no_reference:
  assumes "store_inv s" "GetAccount s i = Some a"
  shows "snd (DeleteAccountCascade now s i)
    \<and> GetAccount (fst (DeleteAccountCascade now s i)) i = None
    \<and> live_ids (fst (DeleteAccountCascade now s i)) = live_ids s
        - (\<Union>r \<in> {r. \<exists>p. GetPool s r = Some p \<and> poolAccountID p = Some i}. below (pools s) r)
    \<and> (\<forall>k p. GetPool (fst (DeleteAccountCascade now s i)) k = Some p \<longrightarrow> poolAccountID p \<noteq> Some i)"
proof -
  let ?t = "fst (DeleteAccountCascade now s i)"
  have get: "GetPool s k = Some p \<longleftrightarrow> map_of (pools s) k = Some p \<and> \<not> poolDeleted p" for k p
    using store_invD(3)[OF assms(1)] by (auto simp: GetPool_def split: option.splits)
  obtain a0 where a0: "map_of (accounts s) i = Some a0" "\<not> accDeleted a0"
    using assms(2) by (auto simp: GetAccount_def split: option.splits if_splits)
  have roots: "set (account_roots s i) = {r. \<exists>p. GetPool s r = Some p \<and> poolAccountID p = Some i}"
    by (force simp: account_roots_def get live_pool_of_account_def store_inv_mem[OF assms(1)])
  have below: "set (cascade_close (pools s) (account_roots s i)) =
      (\<Union>r \<in> set (account_roots s i). below (pools s) r)" (is "_ = ?D")
  proof -
    have "\<exists>r \<in> S. live_below (pools s) {r} x" if "live_below (pools s) S x" for S x
      using that by induction (auto intro: live_below.intros)
    then show ?thesis
      unfolding cascade_close_set below_def using live_below_mono[of "pools s"] by fast
  qed
  have m: "map_of (pools ?t) k = (if k \<in> ?D then Some (soft_delete now (gget zero_pool (pools s) k)) else map_of (pools s) k)" for k
    using a0 below by (simp add: DeleteAccountCascade_def Let_def map_of_mark_deleted account_roots_def)
  have live: "live_ids ?t = live_ids s - ?D"
    by (auto simp: live_ids_def m split: if_splits)
  have "poolAccountID p \<noteq> Some i" if "GetPool ?t k = Some p" for k p
  proof -
    have inv: "store_inv ?t" using assms(1) by (rule store_inv_DeleteAccountCascade)
    have "map_of (pools ?t) k = Some p \<and> \<not> poolDeleted p"
      using that store_invD(3)[OF inv] by (auto simp: GetPool_def split: option.splits if_splits)
    then have "k \<notin> ?D" "GetPool s k = Some p" by (auto simp: m get split: if_splits)
    then show ?thesis using roots below_self by blast
  qed
  moreover have "GetAccount ?t i = None" "snd (DeleteAccountCascade now s i)"
    using a0 by (simp_all add: DeleteAccountCascade_def Let_def GetAccount_def)
  ultimately show ?thesis using live roots by simp
qed

theorem account_cascade_leaves_no_reference_witness:
  "snd (DeleteAccountCascade 9 demo_store 1)
    \<and> live_ids (fst (DeleteAccountCascade 9 demo_store 1)) = live_ids demo_store
        - (\<Union>r \<in> {r. \<exists>p. GetPool demo_store r = Some p \<and> poolAccountID p = Some 1}. below (pools demo_store) r)"
proof -
  have "GetAccount demo_store 1 \<noteq> None" by code_simp
  then obtain a where "GetAccount demo_store 1 = Some a" by blast
  from account_cascade_leaves_no_reference[OF demo_inv(1) this] show ?thesis by blast
qed


definition demo_request :: search_request where
  "demo_request = \<lparr>srQuery = ''a'', srCIDRContains = [], srCIDRWithin = [], srTypes = [], srPage = 0, srPageSize = 0\<rparr>"


end
