(* ===== verification/AuthStores.thy ===== *)
theory AuthStores
  imports PoolStoreFacts
begin

section \<open>API keys, sessions and users, and their in-memory stores (internal/auth)\<close>

text \<open>
  The records of \<open>apikey.go\<close>, \<open>session.go\<close> and \<open>user.go\<close>, and the in-memory stores with
  their secondary indices (key prefix, user name, sessions of a user). The clock, the random
  bytes and the Argon2id and bcrypt functions are arguments. A method with an error result
  returns the new state with an optional error, and one that returns \<open>nil, nil\<close> for a missing
  record returns an option.
\<close>

subsection \<open>Errors\<close>

definition ErrInvalidKeyFormat :: go_error where "ErrInvalidKeyFormat = plainErr ''invalid API key format''"
definition ErrKeyRevoked :: go_error where "ErrKeyRevoked = plainErr ''API key has been revoked''"
definition ErrKeyExpired :: go_error where "ErrKeyExpired = plainErr ''API key has expired''"
definition ErrKeyNotFound :: go_error where "ErrKeyNotFound = plainErr ''API key not found''"
definition ErrInvalidKey :: go_error where "ErrInvalidKey = plainErr ''invalid API key''"
definition ErrInsufficientScopes :: go_error where "ErrInsufficientScopes = plainErr ''insufficient scopes''"
definition ErrSessionNotFound :: go_error where "ErrSessionNotFound = plainErr ''session not found''"
definition ErrSessionExpired :: go_error where "ErrSessionExpired = plainErr ''session expired''"
definition ErrInvalidSession :: go_error where "ErrInvalidSession = plainErr ''invalid session''"
definition ErrUserNotFound :: go_error where "ErrUserNotFound = plainErr ''user not found''"
definition ErrUserExists :: go_error where "ErrUserExists = plainErr ''user already exists''"
definition ErrInvalidPassword :: go_error where "ErrInvalidPassword = plainErr ''invalid password''"

lemmas auth_error_defs = ErrInvalidKeyFormat_def ErrKeyRevoked_def ErrKeyExpired_def
  ErrKeyNotFound_def ErrInvalidKey_def ErrInsufficientScopes_def ErrSessionNotFound_def
  ErrSessionExpired_def ErrInvalidSession_def ErrUserNotFound_def ErrUserExists_def
  ErrInvalidPassword_def plainErr_def

subsection \<open>API keys (apikey.go)\<close>

type_synonym bytes = "8 word list"
type_synonym role = string

definition APIKeyPrefix :: string where "APIKeyPrefix = ''cpam_''"
definition PrefixLength :: nat where "PrefixLength = 8"
definition KeyBytes :: nat where "KeyBytes = 32"

definition ValidAPIKeyScopes :: "string list" where
  "ValidAPIKeyScopes = [''pools:read'', ''pools:write'', ''accounts:read'', ''accounts:write'',
     ''audit:read'', ''keys:read'', ''keys:write'', ''discovery:read'', ''discovery:write'', ''*'']"

definition IsValidAPIKeyScope :: "string \<Rightarrow> bool" where
  "IsValidAPIKeyScope scope = list_ex (\<lambda>valid. scope = valid) ValidAPIKeyScopes"

record api_key =
  keyID :: string
  keyPrefix :: string
  keyName :: string
  keyHash :: "bytes option"
  keySalt :: "bytes option"
  keyScopes :: "string list option"
  keyOwnerID :: "string option"
  keyCreatedAt :: go_time
  keyExpiresAt :: "go_time option"
  keyLastUsedAt :: "go_time option"
  keyRevoked :: bool

definition keyIsExpired :: "go_time \<Rightarrow> api_key \<Rightarrow> bool" where
  "keyIsExpired now k = (case keyExpiresAt k of None \<Rightarrow> False | Some t \<Rightarrow> now > t)"

definition keyIsValid :: "go_time \<Rightarrow> api_key \<Rightarrow> bool" where
  "keyIsValid now k = (\<not> keyRevoked k \<and> \<not> keyIsExpired now k)"

text \<open>A nil slice ranges over nothing.\<close>

definition slice :: "'a list option \<Rightarrow> 'a list" where
  "slice xs = (case xs of None \<Rightarrow> [] | Some l \<Rightarrow> l)"

definition scope_matches :: "string \<Rightarrow> string \<Rightarrow> bool" where
  "scope_matches s scope =
     (if s = scope \<or> s = ''*'' then True
      else if has_suffix s '':*'' then prefix (trim_suffix s ''*'') scope else False)"

definition HasScope :: "api_key \<Rightarrow> string \<Rightarrow> bool" where
  "HasScope k scope = list_ex (\<lambda>s. scope_matches s scope) (slice (keyScopes k))"

definition HasAnyScope :: "api_key \<Rightarrow> string list \<Rightarrow> bool" where
  "HasAnyScope k scopes = list_ex (HasScope k) scopes"

text \<open>\<open>base64.RawURLEncoding\<close>.\<close>

definition b64_char :: "nat \<Rightarrow> char" where
  "b64_char n = (if n < 26 then char_of (65 + n) else if n < 52 then char_of (97 + (n - 26))
     else if n < 62 then char_of (48 + (n - 52)) else if n = 62 then CHR ''-'' else CHR ''_'')"

fun b64_encode :: "bytes \<Rightarrow> string" where
  "b64_encode (a # b # c # rest) =
     b64_char (unat a div 4) # b64_char (unat a mod 4 * 16 + unat b div 16)
     # b64_char (unat b mod 16 * 4 + unat c div 64) # b64_char (unat c mod 64) # b64_encode rest"
| "b64_encode [a, b] = [b64_char (unat a div 4), b64_char (unat a mod 4 * 16 + unat b div 16),
     b64_char (unat b mod 16 * 4)]"
| "b64_encode [a] = [b64_char (unat a div 4), b64_char (unat a mod 4 * 16)]"
| "b64_encode [] = []"

definition hex_digit :: "nat \<Rightarrow> char" where
  "hex_digit n = (if n < 10 then char_of (48 + n) else char_of (87 + n))"

definition hex_encode :: "bytes \<Rightarrow> string" where
  "hex_encode bs = concat (map (\<lambda>b. [hex_digit (unat b div 16), hex_digit (unat b mod 16)]) bs)"

text \<open>A UUID from 16 random bytes; \<open>None\<close> is a failed read of the random source.\<close>

definition generateUUID :: "bytes option \<Rightarrow> string option" where
  "generateUUID rnd = map_option (\<lambda>u.
     let u = u[6 := (u ! 6 AND 0x0F) OR 0x40];
         u = u[8 := (u ! 8 AND 0x3F) OR 0x80]
     in hex_encode (take 4 u) @ ''-'' @ hex_encode (take 2 (drop 4 u)) @ ''-'' @ hex_encode (take 2 (drop 6 u))
        @ ''-'' @ hex_encode (take 2 (drop 8 u)) @ ''-'' @ hex_encode (take 6 (drop 10 u))) rnd"

record key_options =
  koName :: string
  koScopes :: "string list option"
  koExpiresAt :: "go_time option"

type_synonym hash_fn = "string \<Rightarrow> bytes \<Rightarrow> bytes"

text \<open>
  \<open>hash\<close> is Argon2id with the parameters of \<open>hashKey\<close>. The three reads of the random source are
  arguments: 32 bytes for the key, 16 for the salt and 16 for the id.
\<close>

definition GenerateAPIKey ::
    "hash_fn \<Rightarrow> go_time \<Rightarrow> bytes option \<Rightarrow> bytes option \<Rightarrow> bytes option \<Rightarrow> key_options
       \<Rightarrow> go_error + (string \<times> api_key)" where
  "GenerateAPIKey hash now keyRnd saltRnd idRnd opts = (case keyRnd of
     None \<Rightarrow> Inl (plainErr ''failed to generate random key'')
   | Some keyBytes \<Rightarrow>
       let encoded = b64_encode keyBytes;
           plaintext = APIKeyPrefix @ encoded;
           pre = take PrefixLength encoded
       in (case saltRnd of
         None \<Rightarrow> Inl (plainErr ''failed to generate salt'')
       | Some salt \<Rightarrow>
           (case generateUUID idRnd of
              None \<Rightarrow> Inl (plainErr ''failed to generate ID'')
            | Some i \<Rightarrow>
                Inr (plaintext, \<lparr>keyID = i, keyPrefix = pre, keyName = koName opts,
                   keyHash = Some (hash plaintext salt), keySalt = Some salt,
                   keyScopes = koScopes opts, keyOwnerID = None, keyCreatedAt = now,
                   keyExpiresAt = koExpiresAt opts, keyLastUsedAt = None, keyRevoked = False\<rparr>))))"

definition ValidateAPIKey :: "hash_fn \<Rightarrow> go_time \<Rightarrow> string \<Rightarrow> api_key option \<Rightarrow> go_error option" where
  "ValidateAPIKey hash now providedKey stored = (case stored of
     None \<Rightarrow> Some ErrKeyNotFound
   | Some k \<Rightarrow>
       if keyRevoked k then Some ErrKeyRevoked
       else if keyIsExpired now k then Some ErrKeyExpired
       else if hash providedKey (slice (keySalt k)) \<noteq> slice (keyHash k) then Some ErrInvalidKey
       else None)"

definition isValidBase64URL :: "string \<Rightarrow> bool" where
  "isValidBase64URL s = list_all (\<lambda>r. (65 \<le> r \<and> r \<le> 90) \<or> (97 \<le> r \<and> r \<le> 122) \<or> (48 \<le> r \<and> r \<le> 57)
     \<or> r = 45 \<or> r = 95) (runes s)"

definition ParseAPIKeyPrefix :: "string \<Rightarrow> go_error + string" where
  "ParseAPIKeyPrefix key =
     (if \<not> prefix APIKeyPrefix key then Inl ErrInvalidKeyFormat
      else let keyPart = trim_prefix key APIKeyPrefix in
        if length keyPart < PrefixLength then Inl ErrInvalidKeyFormat
        else if \<not> isValidBase64URL keyPart then Inl ErrInvalidKeyFormat
        else Inr (take PrefixLength keyPart))"

definition MaskAPIKey :: "string \<Rightarrow> string" where
  "MaskAPIKey key =
     (if \<not> prefix APIKeyPrefix key then ''****''
      else let keyPart = trim_prefix key APIKeyPrefix in
        if length keyPart < 4 then APIKeyPrefix @ ''****''
        else APIKeyPrefix @ take 4 keyPart @ ''****'')"

subsection \<open>The key store (store.go)\<close>

definition copySlice :: "'a list option \<Rightarrow> 'a list option" where
  "copySlice xs = (case xs of None \<Rightarrow> None | Some l \<Rightarrow> Some (map (\<lambda>i. l ! i) [0..<length l]))"

definition copyAPIKey :: "api_key \<Rightarrow> api_key" where
  "copyAPIKey k = \<lparr>keyID = keyID k, keyPrefix = keyPrefix k, keyName = keyName k,
     keyHash = copySlice (keyHash k), keySalt = copySlice (keySalt k),
     keyScopes = copySlice (keyScopes k), keyOwnerID = keyOwnerID k, keyCreatedAt = keyCreatedAt k,
     keyExpiresAt = keyExpiresAt k, keyLastUsedAt = keyLastUsedAt k, keyRevoked = keyRevoked k\<rparr>"

lemma copySlice_id [simp]: "copySlice xs = xs"
  by (cases xs) (auto simp: copySlice_def map_nth)

lemma copyAPIKey_id [simp]: "copyAPIKey k = k"
  by (simp add: copyAPIKey_def)

record key_store =
  ksKeys :: "(string, api_key) gomap"
  ksPrefixIndex :: "(string, string) gomap"

definition NewMemoryKeyStore :: key_store where
  "NewMemoryKeyStore = \<lparr>ksKeys = [], ksPrefixIndex = []\<rparr>"

definition keyCreate :: "key_store \<Rightarrow> api_key option \<Rightarrow> key_store \<times> go_error option" where
  "keyCreate s key = (case key of None \<Rightarrow> (s, Some ErrKeyNotFound)
     | Some k \<Rightarrow>
         if map_of (ksPrefixIndex s) (keyPrefix k) \<noteq> None then (s, Some ErrInvalidKeyFormat)
         else (s\<lparr>ksKeys := gput (keyID k) (copyAPIKey k) (ksKeys s),
                ksPrefixIndex := gput (keyPrefix k) (keyID k) (ksPrefixIndex s)\<rparr>, None))"

definition keyGetByPrefix :: "key_store \<Rightarrow> string \<Rightarrow> api_key option" where
  "keyGetByPrefix s pre = (case map_of (ksPrefixIndex s) pre of None \<Rightarrow> None
     | Some i \<Rightarrow> (case map_of (ksKeys s) i of None \<Rightarrow> None | Some k \<Rightarrow> Some (copyAPIKey k)))"

definition keyGetByID :: "key_store \<Rightarrow> string \<Rightarrow> api_key option" where
  "keyGetByID s i = (case map_of (ksKeys s) i of None \<Rightarrow> None | Some k \<Rightarrow> Some (copyAPIKey k))"

definition publicKey :: "api_key \<Rightarrow> api_key" where
  "publicKey k = \<lparr>keyID = keyID k, keyPrefix = keyPrefix k, keyName = keyName k,
     keyHash = None, keySalt = None, keyScopes = append_nil (keyScopes k),
     keyOwnerID = keyOwnerID k, keyCreatedAt = keyCreatedAt k, keyExpiresAt = keyExpiresAt k,
     keyLastUsedAt = keyLastUsedAt k, keyRevoked = keyRevoked k\<rparr>"

definition keyList :: "key_store \<Rightarrow> api_key list" where
  "keyList s = [publicKey k. (_, k) \<leftarrow> ksKeys s]"

definition keyListByOwner :: "key_store \<Rightarrow> string \<Rightarrow> api_key list" where
  "keyListByOwner s owner = [publicKey k. (_, k) \<leftarrow> ksKeys s, keyOwnerID k = Some owner]"

definition keyRevoke :: "key_store \<Rightarrow> string \<Rightarrow> key_store \<times> go_error option" where
  "keyRevoke s i = (case map_of (ksKeys s) i of None \<Rightarrow> (s, Some ErrKeyNotFound)
     | Some k \<Rightarrow> (s\<lparr>ksKeys := gput i (k\<lparr>keyRevoked := True\<rparr>) (ksKeys s)\<rparr>, None))"

definition keyUpdateLastUsed :: "key_store \<Rightarrow> string \<Rightarrow> go_time \<Rightarrow> key_store \<times> go_error option" where
  "keyUpdateLastUsed s i t = (case map_of (ksKeys s) i of None \<Rightarrow> (s, Some ErrKeyNotFound)
     | Some k \<Rightarrow> (s\<lparr>ksKeys := gput i (k\<lparr>keyLastUsedAt := Some t\<rparr>) (ksKeys s)\<rparr>, None))"

definition keyDelete :: "key_store \<Rightarrow> string \<Rightarrow> key_store \<times> go_error option" where
  "keyDelete s i = (case map_of (ksKeys s) i of None \<Rightarrow> (s, Some ErrKeyNotFound)
     | Some k \<Rightarrow> (s\<lparr>ksPrefixIndex := gdel (keyPrefix k) (ksPrefixIndex s),
                  ksKeys := gdel i (ksKeys s)\<rparr>, None))"

subsection \<open>Users (user.go, user_store.go)\<close>

record user =
  userID :: string
  userUsername :: string
  userEmail :: string
  userDisplayName :: string
  userRole :: role
  userPasswordHash :: "bytes option"
  userIsActive :: bool
  userCreatedAt :: go_time
  userUpdatedAt :: go_time
  userLastLoginAt :: "go_time option"
  userFailedLoginAttempts :: int
  userLastFailedLoginAt :: "go_time option"
  userLockedAt :: "go_time option"
  userLockoutUntil :: "go_time option"
  userAuthProvider :: string
  userOIDCSubject :: string
  userOIDCIssuer :: string

definition copyUser :: "user \<Rightarrow> user" where
  "copyUser u = \<lparr>userID = userID u, userUsername = userUsername u, userEmail = userEmail u,
     userDisplayName = userDisplayName u, userRole = userRole u,
     userPasswordHash = copySlice (userPasswordHash u), userIsActive = userIsActive u,
     userCreatedAt = userCreatedAt u, userUpdatedAt = userUpdatedAt u,
     userLastLoginAt = userLastLoginAt u, userFailedLoginAttempts = userFailedLoginAttempts u,
     userLastFailedLoginAt = userLastFailedLoginAt u, userLockedAt = userLockedAt u,
     userLockoutUntil = userLockoutUntil u, userAuthProvider = userAuthProvider u,
     userOIDCSubject = userOIDCSubject u, userOIDCIssuer = userOIDCIssuer u\<rparr>"

lemma copyUser_id [simp]: "copyUser u = u"
  by (simp add: copyUser_def)

record user_store =
  usUsers :: "(string, user) gomap"
  usUsernameIndex :: "(string, string) gomap"

definition NewMemoryUserStore :: user_store where
  "NewMemoryUserStore = \<lparr>usUsers = [], usUsernameIndex = []\<rparr>"

definition userCreate :: "user_store \<Rightarrow> user option \<Rightarrow> user_store \<times> go_error option" where
  "userCreate s user = (case user of None \<Rightarrow> (s, Some ErrInvalidSession)
     | Some u \<Rightarrow>
         if userID u = [] \<or> userUsername u = [] then (s, Some ErrInvalidSession)
         else if map_of (usUsers s) (userID u) \<noteq> None then (s, Some ErrUserExists)
         else if map_of (usUsernameIndex s) (userUsername u) \<noteq> None then (s, Some ErrUserExists)
         else (s\<lparr>usUsers := gput (userID u) (copyUser u) (usUsers s),
                usUsernameIndex := gput (userUsername u) (userID u) (usUsernameIndex s)\<rparr>, None))"

definition userGetByID :: "user_store \<Rightarrow> string \<Rightarrow> user option" where
  "userGetByID s i = (if i = [] then None else map_option copyUser (map_of (usUsers s) i))"

definition userGetByUsername :: "user_store \<Rightarrow> string \<Rightarrow> user option" where
  "userGetByUsername s name =
     (if name = [] then None
      else case map_of (usUsernameIndex s) name of None \<Rightarrow> None
        | Some i \<Rightarrow> map_option copyUser (map_of (usUsers s) i))"

definition userList :: "user_store \<Rightarrow> user list" where
  "userList s = [(copyUser u)\<lparr>userPasswordHash := None\<rparr>. (_, u) \<leftarrow> usUsers s]"

definition userUpdate :: "user_store \<Rightarrow> user option \<Rightarrow> user_store \<times> go_error option" where
  "userUpdate s user = (case user of None \<Rightarrow> (s, Some ErrUserNotFound)
     | Some u \<Rightarrow>
         if userID u = [] then (s, Some ErrUserNotFound)
         else case map_of (usUsers s) (userID u) of None \<Rightarrow> (s, Some ErrUserNotFound)
         | Some existing \<Rightarrow>
             if userUsername existing \<noteq> userUsername u then
               (if map_of (usUsernameIndex s) (userUsername u) \<noteq> None then (s, Some ErrUserExists)
                else (s\<lparr>usUsernameIndex := gput (userUsername u) (userID u)
                           (gdel (userUsername existing) (usUsernameIndex s)),
                        usUsers := gput (userID u) (copyUser u) (usUsers s)\<rparr>, None))
             else (s\<lparr>usUsers := gput (userID u) (copyUser u) (usUsers s)\<rparr>, None))"

definition userDelete :: "user_store \<Rightarrow> string \<Rightarrow> user_store \<times> go_error option" where
  "userDelete s i =
     (if i = [] then (s, Some ErrUserNotFound)
      else case map_of (usUsers s) i of None \<Rightarrow> (s, Some ErrUserNotFound)
      | Some u \<Rightarrow> (s\<lparr>usUsernameIndex := gdel (userUsername u) (usUsernameIndex s),
                   usUsers := gdel i (usUsers s)\<rparr>, None))"

definition userGetByOIDCIdentity :: "user_store \<Rightarrow> string \<Rightarrow> string \<Rightarrow> user option" where
  "userGetByOIDCIdentity s issuer subject =
     (if issuer = [] \<or> subject = [] then None
      else map_option (\<lambda>(_, u). copyUser u)
        (find (\<lambda>(_, u). userOIDCIssuer u = issuer \<and> userOIDCSubject u = subject) (usUsers s)))"

definition userUpdateLastLogin :: "user_store \<Rightarrow> string \<Rightarrow> go_time \<Rightarrow> user_store \<times> go_error option" where
  "userUpdateLastLogin s i t = (case map_of (usUsers s) i of None \<Rightarrow> (s, Some ErrUserNotFound)
     | Some u \<Rightarrow>
         (s\<lparr>usUsers := gput i (u\<lparr>userLastLoginAt := Some t, userFailedLoginAttempts := 0,
              userLastFailedLoginAt := None, userLockedAt := None, userLockoutUntil := None\<rparr>)
            (usUsers s)\<rparr>, None))"

subsection \<open>Passwords (password.go)\<close>

definition DefaultMinPasswordLength :: int where "DefaultMinPasswordLength = 12"
definition MaxPasswordLength :: int where "MaxPasswordLength = 72"

datatype password_error = PasswordTooShort int | PasswordTooLong int

definition ValidatePassword :: "string \<Rightarrow> int \<Rightarrow> password_error option" where
  "ValidatePassword password minLength =
     (let minLength = (if minLength \<le> 0 then DefaultMinPasswordLength else minLength) in
      if int (length password) < minLength then Some (PasswordTooShort minLength)
      else if int (length password) > MaxPasswordLength then Some (PasswordTooLong MaxPasswordLength)
      else None)"

text \<open>\<open>bcrypt.CompareHashAndPassword\<close> is the argument \<open>compare\<close>, true on a match.\<close>

definition VerifyPassword :: "(bytes \<Rightarrow> string \<Rightarrow> bool) \<Rightarrow> string \<Rightarrow> bytes \<Rightarrow> go_error option" where
  "VerifyPassword compare password hash =
     (if compare hash password then None else Some ErrInvalidPassword)"

subsection \<open>Sessions (session.go)\<close>

definition DefaultSessionDuration :: int where
  "DefaultSessionDuration = 24 * 3600 * 1000000000"

record session =
  sesID :: string
  sesUserID :: string
  sesRole :: role
  sesCreatedAt :: go_time
  sesExpiresAt :: go_time
  sesMetadata :: tags

definition sessionIsExpired :: "go_time \<Rightarrow> session \<Rightarrow> bool" where
  "sessionIsExpired now x = (now > sesExpiresAt x)"

definition sessionIsValid :: "go_time \<Rightarrow> session \<Rightarrow> bool" where
  "sessionIsValid now x = (sesID x \<noteq> [] \<and> sesUserID x \<noteq> [] \<and> \<not> sessionIsExpired now x)"

definition TimeRemaining :: "go_time \<Rightarrow> session \<Rightarrow> int" where
  "TimeRemaining now x = (let remaining = sesExpiresAt x - now in if remaining < 0 then 0 else remaining)"

definition copySession :: "session \<Rightarrow> session" where
  "copySession x = \<lparr>sesID = sesID x, sesUserID = sesUserID x, sesRole = sesRole x,
     sesCreatedAt = sesCreatedAt x, sesExpiresAt = sesExpiresAt x,
     sesMetadata = cloneStringStringMap (sesMetadata x)\<rparr>"

lemma copySession_fields [simp]:
  "sesID (copySession x) = sesID x" "sesUserID (copySession x) = sesUserID x"
  "sesRole (copySession x) = sesRole x" "sesExpiresAt (copySession x) = sesExpiresAt x"
  by (simp_all add: copySession_def)

text \<open>The set of session ids of a user is a list of distinct ids.\<close>

record session_store =
  ssSessions :: "(string, session) gomap"
  ssUserIndex :: "(string, string list) gomap"

definition NewMemorySessionStore :: session_store where
  "NewMemorySessionStore = \<lparr>ssSessions = [], ssUserIndex = []\<rparr>"

definition sessionCreate :: "session_store \<Rightarrow> session option \<Rightarrow> session_store \<times> go_error option" where
  "sessionCreate s session = (case session of None \<Rightarrow> (s, Some ErrInvalidSession)
     | Some x \<Rightarrow>
         if sesID x = [] then (s, Some ErrInvalidSession)
         else if sesUserID x = [] then (s, Some ErrInvalidSession)
         else if map_of (ssSessions s) (sesID x) \<noteq> None then (s, Some ErrInvalidSession)
         else
           let ids = gget [] (ssUserIndex s) (sesUserID x)
           in (s\<lparr>ssSessions := gput (sesID x) (copySession x) (ssSessions s),
                ssUserIndex := gput (sesUserID x) (List.insert (sesID x) ids) (ssUserIndex s)\<rparr>, None))"

text \<open>\<open>Get\<close> answers nothing for a missing id and an error for an expired session.\<close>

definition sessionGet :: "go_time \<Rightarrow> session_store \<Rightarrow> string \<Rightarrow> go_error + session option" where
  "sessionGet now s i =
     (if i = [] then Inr None
      else case map_of (ssSessions s) i of None \<Rightarrow> Inr None
        | Some x \<Rightarrow> if sessionIsExpired now x then Inl ErrSessionExpired else Inr (Some (copySession x)))"

text \<open>Removal of one id from the index, and of the user's entry when it becomes empty.\<close>

definition index_remove :: "string \<Rightarrow> string \<Rightarrow> (string, string list) gomap \<Rightarrow> (string, string list) gomap" where
  "index_remove uid i idx = (case map_of idx uid of None \<Rightarrow> idx
     | Some ids \<Rightarrow>
         let ids' = removeAll i ids in
         if ids' = [] then gdel uid idx else gput uid ids' idx)"

definition sessionDelete :: "session_store \<Rightarrow> string \<Rightarrow> session_store \<times> go_error option" where
  "sessionDelete s i =
     (if i = [] then (s, Some ErrSessionNotFound)
      else case map_of (ssSessions s) i of None \<Rightarrow> (s, Some ErrSessionNotFound)
      | Some x \<Rightarrow> (s\<lparr>ssUserIndex := index_remove (sesUserID x) i (ssUserIndex s),
                   ssSessions := gdel i (ssSessions s)\<rparr>, None))"

definition sessionDeleteByUserID :: "session_store \<Rightarrow> string \<Rightarrow> session_store" where
  "sessionDeleteByUserID s uid =
     (if uid = [] then s
      else case map_of (ssUserIndex s) uid of None \<Rightarrow> s
      | Some ids \<Rightarrow> s\<lparr>ssSessions := fold gdel ids (ssSessions s), ssUserIndex := gdel uid (ssUserIndex s)\<rparr>)"

definition sessionListByUserID :: "go_time \<Rightarrow> session_store \<Rightarrow> string \<Rightarrow> session list" where
  "sessionListByUserID now s uid =
     [copySession x. (_, x) \<leftarrow> ssSessions s, sesUserID x = uid \<and> sessionIsValid now x]"

text \<open>\<open>Cleanup\<close> visits the entries of the map while it deletes from it; Go visits an entry that is
  not deleted yet once, so the loop is a fold over the entries at its start.\<close>

definition cleanup_visit :: "go_time \<Rightarrow> string \<times> session \<Rightarrow> session_store \<times> int \<Rightarrow> session_store \<times> int" where
  "cleanup_visit now e acc = (case e of (i, x) \<Rightarrow> case acc of (s, cnt) \<Rightarrow>
     if now > sesExpiresAt x
     then (s\<lparr>ssUserIndex := index_remove (sesUserID x) i (ssUserIndex s),
             ssSessions := gdel i (ssSessions s)\<rparr>, cnt + 1)
     else (s, cnt))"

definition sessionCleanup :: "go_time \<Rightarrow> session_store \<Rightarrow> session_store \<times> int" where
  "sessionCleanup now s = fold (cleanup_visit now) (ssSessions s) (s, 0)"

definition sessionCount :: "session_store \<Rightarrow> int" where
  "sessionCount s = int (length (ssSessions s))"

definition sessionCountByUser :: "session_store \<Rightarrow> string \<Rightarrow> int" where
  "sessionCountByUser s uid = int (length (gget [] (ssUserIndex s) uid))"

definition NewSession ::
    "go_time \<Rightarrow> bytes option \<Rightarrow> string \<Rightarrow> role \<Rightarrow> int \<Rightarrow> tags \<Rightarrow> session option" where
  "NewSession now rnd uid role duration metadata = (case map_option hex_encode rnd of
     None \<Rightarrow> None
   | Some i \<Rightarrow>
       let duration = (if duration \<le> 0 then DefaultSessionDuration else duration)
       in Some \<lparr>sesID = i, sesUserID = uid, sesRole = role, sesCreatedAt = now,
            sesExpiresAt = now + duration, sesMetadata = cloneStringStringMap metadata\<rparr>)"

end
