(* ===== verification/AuthStoreFacts.thy ===== *)
theory AuthStoreFacts
  imports AuthStores
begin

section \<open>The authentication stores: indices, reachable states and lookups\<close>

text \<open>
  Primary map and unique secondary index as one invariant with its preservation lemmas, the
  interface locale of a store with a secondary lookup (interpreted on the key store and on the
  user store), the session store's index, and the end-to-end properties of keys and sessions.
\<close>

subsection \<open>A map with a unique secondary index\<close>

definition index_ok :: "('r \<Rightarrow> 'k) \<Rightarrow> ('i, 'r) gomap \<Rightarrow> ('k, 'i) gomap \<Rightarrow> bool" where
  "index_ok sec rows idx \<longleftrightarrow> gmap_ok rows \<and> gmap_ok idx
     \<and> (\<forall>k i. map_of idx k = Some i \<longrightarrow> (\<exists>r. map_of rows i = Some r \<and> sec r = k))
     \<and> (\<forall>i r. map_of rows i = Some r \<longrightarrow> map_of idx (sec r) = Some i)"

lemma index_okI:
  assumes "gmap_ok rows" "gmap_ok idx"
    "\<And>k i. map_of idx k = Some i \<Longrightarrow> \<exists>r. map_of rows i = Some r \<and> sec r = k"
    "\<And>i r. map_of rows i = Some r \<Longrightarrow> map_of idx (sec r) = Some i"
  shows "index_ok sec rows idx"
  using assms unfolding index_ok_def by blast

lemma index_okD:
  assumes "index_ok sec rows idx"
  shows "gmap_ok rows" "gmap_ok idx"
    "map_of idx k = Some i \<Longrightarrow> \<exists>r. map_of rows i = Some r \<and> sec r = k"
    "map_of rows i = Some r \<Longrightarrow> map_of idx (sec r) = Some i"
  using assms unfolding index_ok_def by blast+

lemma index_unique:
  assumes "index_ok sec rows idx" "map_of rows i = Some r" "map_of rows j = Some r'" "sec r = sec r'"
  shows "i = j"
proof -
  have "map_of idx (sec r') = Some i" using index_okD(4)[OF assms(1,2)] unfolding assms(4) .
  moreover have "map_of idx (sec r') = Some j" by (rule index_okD(4)[OF assms(1,3)])
  ultimately show ?thesis by simp
qed

lemma index_insert:
  assumes "index_ok sec rows idx" "map_of rows i = None" "map_of idx (sec r) = None"
  shows "index_ok sec (gput i r rows) (gput (sec r) i idx)"
proof (rule index_okI)
  fix k j assume a: "map_of (gput (sec r) i idx) k = Some j"
  show "\<exists>r'. map_of (gput i r rows) j = Some r' \<and> sec r' = k"
  proof (cases "k = sec r")
    case True
    then show ?thesis using a by simp
  next
    case False
    then have "map_of idx k = Some j" using a by simp
    then obtain r' where r': "map_of rows j = Some r'" "sec r' = k" using index_okD(3)[OF assms(1)] by blast
    then have "j \<noteq> i" using assms(2) by force
    then show ?thesis using r' by simp
  qed
next
  fix j r' assume a: "map_of (gput i r rows) j = Some r'"
  show "map_of (gput (sec r) i idx) (sec r') = Some j"
  proof (cases "j = i")
    case True
    then show ?thesis using a by simp
  next
    case False
    then have "map_of idx (sec r') = Some j" using a index_okD(4)[OF assms(1)] by simp
    moreover from this have "sec r' \<noteq> sec r" using assms(3) by force
    ultimately show ?thesis by simp
  qed
qed (use index_okD(1,2)[OF assms(1)] in simp_all)

lemma index_update:
  assumes "index_ok sec rows idx" "map_of rows i = Some r0" "sec r = sec r0"
  shows "index_ok sec (gput i r rows) idx"
proof (rule index_okI)
  fix k j assume "map_of idx k = Some j"
  from index_okD(3)[OF assms(1) this] assms(2,3)
  show "\<exists>r'. map_of (gput i r rows) j = Some r' \<and> sec r' = k" by fastforce
next
  fix j r' assume "map_of (gput i r rows) j = Some r'"
  then show "map_of idx (sec r') = Some j"
    using index_okD(4)[OF assms(1)] assms(2,3) by (auto split: if_splits)
qed (use index_okD(1,2)[OF assms(1)] in simp_all)

lemma index_delete:
  assumes "index_ok sec rows idx" "map_of rows i = Some r0"
  shows "index_ok sec (gdel i rows) (gdel (sec r0) idx)"
proof (rule index_okI)
  fix k j assume "map_of (gdel (sec r0) idx) k = Some j"
  then have k: "k \<noteq> sec r0" "map_of idx k = Some j" by (auto split: if_splits)
  from index_okD(3)[OF assms(1) k(2)] k(1) assms(2)
  show "\<exists>r'. map_of (gdel i rows) j = Some r' \<and> sec r' = k" by fastforce
next
  fix j r' assume "map_of (gdel i rows) j = Some r'"
  then have j: "j \<noteq> i" "map_of rows j = Some r'" by (auto split: if_splits)
  then show "map_of (gdel (sec r0) idx) (sec r') = Some j"
    using index_okD(4)[OF assms(1) j(2)] index_unique[OF assms(1,2) j(2)] by auto
qed (use index_okD(1,2)[OF assms(1)] in simp_all)

lemma index_cong:
  "index_ok sec rows idx \<Longrightarrow> gmap_ok rows' \<Longrightarrow> map_of rows' = map_of rows \<Longrightarrow> index_ok sec rows' idx"
  by (simp add: index_ok_def)

lemma index_rename:
  assumes "index_ok sec rows idx" "map_of rows i = Some r0" "map_of idx (sec r) = None"
  shows "index_ok sec (gput i r rows) (gput (sec r) i (gdel (sec r0) idx))"
proof -
  have "index_ok sec (gput i r (gdel i rows)) (gput (sec r) i (gdel (sec r0) idx))"
    using assms by (intro index_insert index_delete) auto
  then show ?thesis
    by (rule index_cong) (use index_okD(1)[OF assms(1)] in simp_all)
qed

lemma index_lookup:
  assumes "index_ok sec rows idx"
  shows "(\<exists>i. map_of idx k = Some i \<and> map_of rows i = Some r) \<longleftrightarrow> (\<exists>i. map_of rows i = Some r) \<and> sec r = k"
  using index_okD(3,4)[OF assms] by fastforce

subsection \<open>The interface of a store with a secondary lookup\<close>

locale secondary_lookup =
  fixes inv :: "'s \<Rightarrow> bool"
    and by_id :: "'s \<Rightarrow> string \<Rightarrow> 'r option"
    and by_sec :: "'s \<Rightarrow> string \<Rightarrow> 'r option"
    and id_of :: "'r \<Rightarrow> string"
    and sec_of :: "'r \<Rightarrow> string"
  assumes by_id_id: "inv s \<Longrightarrow> by_id s i = Some r \<Longrightarrow> id_of r = i"
    and by_sec_iff: "inv s \<Longrightarrow> k \<noteq> [] \<Longrightarrow> by_sec s k = Some r \<longleftrightarrow> by_id s (id_of r) = Some r \<and> sec_of r = k"
begin

lemma found_by_sec: "inv s \<Longrightarrow> by_id s i = Some r \<Longrightarrow> sec_of r \<noteq> [] \<Longrightarrow> by_sec s (sec_of r) = Some r"
  using by_id_id by_sec_iff by blast

lemma sec_unique:
  assumes "inv s" "by_id s i = Some r" "by_id s j = Some r'" "sec_of r = sec_of r'" "sec_of r \<noteq> []"
  shows "i = j"
proof -
  have "by_sec s (sec_of r) = Some r" using found_by_sec[OF assms(1,2,5)] .
  moreover have "by_sec s (sec_of r') = Some r'"
    using found_by_sec[OF assms(1,3)] assms(4,5) by argo
  ultimately have "r = r'" unfolding assms(4) by simp
  then show ?thesis using by_id_id[OF assms(1,2)] by_id_id[OF assms(1,3)] by simp
qed

end

locale secondary_store = secondary_lookup +
  fixes remove :: "'a \<Rightarrow> string \<Rightarrow> 'a"
  assumes remove_inv: "inv s \<Longrightarrow> inv (remove s i)"
    and remove_by_id: "inv s \<Longrightarrow> by_id (remove s i) = (by_id s)(i := None)"
begin

lemma removed_by_sec:
  assumes "inv s" "by_id s i = Some r" "sec_of r \<noteq> []"
  shows "by_sec (remove s i) (sec_of r) = None"
proof (rule ccontr)
  assume "by_sec (remove s i) (sec_of r) \<noteq> None"
  then obtain r' where "by_sec (remove s i) (sec_of r) = Some r'" by blast
  then have r': "by_id (remove s i) (id_of r') = Some r'" "sec_of r' = sec_of r"
    using by_sec_iff[OF remove_inv[OF assms(1)] assms(3)] by simp_all
  then have "id_of r' \<noteq> i" "by_id s (id_of r') = Some r'"
    using remove_by_id[OF assms(1)] by (auto split: if_splits)
  then show False using sec_unique[OF assms(1,2) _ r'(2)[symmetric] assms(3)] by blast
qed

end

subsection \<open>The key store\<close>

definition key_inv :: "key_store \<Rightarrow> bool" where
  "key_inv s \<longleftrightarrow> index_ok keyPrefix (ksKeys s) (ksPrefixIndex s)
     \<and> (\<forall>i k. map_of (ksKeys s) i = Some k \<longrightarrow> keyID k = i)"

text \<open>Keys are created with a fresh random id.\<close>

inductive key_step :: "key_store \<Rightarrow> key_store \<Rightarrow> bool" where
  create: "keyGetByID s (keyID k) = None \<Longrightarrow> key_step s (fst (keyCreate s (Some k)))"
| revoke: "key_step s (fst (keyRevoke s i))"
| touch: "key_step s (fst (keyUpdateLastUsed s i t))"
| delete: "key_step s (fst (keyDelete s i))"

lemma key_inv_new: "key_inv NewMemoryKeyStore"
  by (simp add: key_inv_def NewMemoryKeyStore_def index_ok_def)

lemma key_step_inv: "key_step s t \<Longrightarrow> key_inv s \<Longrightarrow> key_inv t"
proof (induction rule: key_step.induct)
  case (create s k)
  then have "map_of (ksKeys s) (keyID k) = None" by (simp add: keyGetByID_def split: option.splits)
  then show ?case using create.prems by (auto simp: keyCreate_def key_inv_def intro!: index_insert)
next
  case (revoke s i)
  then show ?case by (auto simp: keyRevoke_def key_inv_def split: option.split intro!: index_update)
next
  case (touch s i t)
  then show ?case by (auto simp: keyUpdateLastUsed_def key_inv_def split: option.split intro!: index_update)
next
  case (delete s i)
  then show ?case by (auto simp: keyDelete_def key_inv_def split: option.split intro!: index_delete)
qed

inductive key_reachable :: "key_store \<Rightarrow> bool" where
  init: "key_reachable NewMemoryKeyStore"
| step: "key_reachable s \<Longrightarrow> key_step s t \<Longrightarrow> key_reachable t"

lemma key_reachable_inv: "key_reachable s \<Longrightarrow> key_inv s"
  by (induction rule: key_reachable.induct) (auto intro: key_inv_new key_step_inv)

lemma keyGetByPrefix_iff:
  assumes "key_inv s"
  shows "keyGetByPrefix s p = Some k \<longleftrightarrow> keyGetByID s (keyID k) = Some k \<and> keyPrefix k = p"
proof -
  have ix: "index_ok keyPrefix (ksKeys s) (ksPrefixIndex s)"
    and ids: "\<And>i k. map_of (ksKeys s) i = Some k \<Longrightarrow> keyID k = i"
    using assms by (simp_all add: key_inv_def)
  have "keyGetByPrefix s p = Some k \<longleftrightarrow> (\<exists>i. map_of (ksPrefixIndex s) p = Some i \<and> map_of (ksKeys s) i = Some k)"
    by (simp add: keyGetByPrefix_def split: option.split)
  also have "\<dots> \<longleftrightarrow> (\<exists>i. map_of (ksKeys s) i = Some k) \<and> keyPrefix k = p"
    by (rule index_lookup[OF ix])
  also have "(\<exists>i. map_of (ksKeys s) i = Some k) \<longleftrightarrow> keyGetByID s (keyID k) = Some k"
    using ids by (auto simp: keyGetByID_def split: option.split)
  finally show ?thesis .
qed

interpretation keys: secondary_store key_inv keyGetByID keyGetByPrefix keyID keyPrefix "\<lambda>s i. fst (keyDelete s i)"
proof
  show "keyID r = i" if "key_inv s" "keyGetByID s i = Some r" for s i r
    using that by (auto simp: keyGetByID_def key_inv_def split: option.splits)
  show "keyGetByPrefix s k = Some r \<longleftrightarrow> keyGetByID s (keyID r) = Some r \<and> keyPrefix r = k"
    if "key_inv s" "k \<noteq> []" for s k r using that(1) by (rule keyGetByPrefix_iff)
  show "key_inv (fst (keyDelete s i))" if "key_inv s" for s i
    using key_step_inv[OF key_step.delete that] .
  show "keyGetByID (fst (keyDelete s i)) = (keyGetByID s)(i := None)" if "key_inv s" for s i
    by (auto simp: keyDelete_def keyGetByID_def split: option.split)
qed

subsection \<open>The user store\<close>

definition user_inv :: "user_store \<Rightarrow> bool" where
  "user_inv s \<longleftrightarrow> index_ok userUsername (usUsers s) (usUsernameIndex s)
     \<and> (\<forall>i u. map_of (usUsers s) i = Some u \<longrightarrow> userID u = i \<and> i \<noteq> [])"

inductive user_step :: "user_store \<Rightarrow> user_store \<Rightarrow> bool" where
  create: "user_step s (fst (userCreate s u))"
| update: "user_step s (fst (userUpdate s u))"
| delete: "user_step s (fst (userDelete s i))"
| login: "user_step s (fst (userUpdateLastLogin s i t))"

lemma user_inv_new: "user_inv NewMemoryUserStore"
  by (simp add: user_inv_def NewMemoryUserStore_def index_ok_def)

lemma user_step_inv: "user_step s t \<Longrightarrow> user_inv s \<Longrightarrow> user_inv t"
proof (induction rule: user_step.induct)
  case (create s u)
  then show ?case by (auto simp: userCreate_def user_inv_def split: option.split intro!: index_insert)
next
  case (update s u)
  then show ?case
    by (auto simp: userUpdate_def user_inv_def split: option.split intro!: index_update index_rename)
next
  case (delete s i)
  then show ?case by (auto simp: userDelete_def user_inv_def split: option.split intro!: index_delete)
next
  case (login s i t)
  then show ?case by (auto simp: userUpdateLastLogin_def user_inv_def split: option.split intro!: index_update)
qed

inductive user_reachable :: "user_store \<Rightarrow> bool" where
  init: "user_reachable NewMemoryUserStore"
| step: "user_reachable s \<Longrightarrow> user_step s t \<Longrightarrow> user_reachable t"

lemma user_reachable_inv: "user_reachable s \<Longrightarrow> user_inv s"
  by (induction rule: user_reachable.induct) (auto intro: user_inv_new user_step_inv)

lemma userGetByUsername_iff:
  assumes "user_inv s" "name \<noteq> []"
  shows "userGetByUsername s name = Some u \<longleftrightarrow> userGetByID s (userID u) = Some u \<and> userUsername u = name"
proof -
  have ix: "index_ok userUsername (usUsers s) (usUsernameIndex s)"
    and ids: "\<And>i u. map_of (usUsers s) i = Some u \<Longrightarrow> userID u = i \<and> i \<noteq> []"
    using assms(1) by (simp_all add: user_inv_def)
  have "userGetByUsername s name = Some u \<longleftrightarrow> (\<exists>i. map_of (usUsernameIndex s) name = Some i \<and> map_of (usUsers s) i = Some u)"
    using assms(2) by (simp add: userGetByUsername_def split: option.split)
  also have "\<dots> \<longleftrightarrow> (\<exists>i. map_of (usUsers s) i = Some u) \<and> userUsername u = name"
    by (rule index_lookup[OF ix])
  also have "(\<exists>i. map_of (usUsers s) i = Some u) \<longleftrightarrow> userGetByID s (userID u) = Some u"
    using ids by (auto simp: userGetByID_def)
  finally show ?thesis .
qed

interpretation users: secondary_store user_inv userGetByID userGetByUsername userID userUsername
  "\<lambda>s i. fst (userDelete s i)"
proof
  show "userID r = i" if "user_inv s" "userGetByID s i = Some r" for s i r
    using that by (auto simp: userGetByID_def user_inv_def split: if_splits)
  show "userGetByUsername s k = Some r \<longleftrightarrow> userGetByID s (userID r) = Some r \<and> userUsername r = k"
    if "user_inv s" "k \<noteq> []" for s k r using that by (rule userGetByUsername_iff)
  show "user_inv (fst (userDelete s i))" if "user_inv s" for s i
    using user_step_inv[OF user_step.delete that] .
  show "userGetByID (fst (userDelete s i)) = (userGetByID s)(i := None)" if "user_inv s" for s i
    by (auto simp: userDelete_def userGetByID_def split: option.split)
qed

subsection \<open>The session store\<close>

definition session_inv :: "session_store \<Rightarrow> bool" where
  "session_inv s \<longleftrightarrow> gmap_ok (ssSessions s) \<and> gmap_ok (ssUserIndex s)
     \<and> (\<forall>i x. map_of (ssSessions s) i = Some x \<longrightarrow> sesID x = i \<and> i \<noteq> [] \<and> sesUserID x \<noteq> [])
     \<and> (\<forall>u. distinct (gget [] (ssUserIndex s) u))
     \<and> (\<forall>u i. i \<in> set (gget [] (ssUserIndex s) u) \<longleftrightarrow> (\<exists>x. map_of (ssSessions s) i = Some x \<and> sesUserID x = u))"

lemma session_invD:
  assumes "session_inv s"
  shows "gmap_ok (ssSessions s)" "gmap_ok (ssUserIndex s)"
    "map_of (ssSessions s) i = Some x \<Longrightarrow> sesID x = i \<and> i \<noteq> [] \<and> sesUserID x \<noteq> []"
    "distinct (gget [] (ssUserIndex s) u)"
    "i \<in> set (gget [] (ssUserIndex s) u) \<longleftrightarrow> (\<exists>x. map_of (ssSessions s) i = Some x \<and> sesUserID x = u)"
  using assms unfolding session_inv_def by blast+

lemma gget_gput [simp]: "gget z (gput k v m) j = (if j = k then v else gget z m j)"
  by (simp add: gget_def)

lemma gget_gdel [simp]: "gget z (gdel k m) j = (if j = k then z else gget z m j)"
  by (simp add: gget_def)

lemma gget_index_remove:
  "gget [] (index_remove u i idx) v = (if v = u then removeAll i (gget [] idx u) else gget [] idx v)"
  by (cases "map_of idx u") (auto simp: index_remove_def Let_def gget_def)

lemma gmap_ok_index_remove [simp]: "gmap_ok idx \<Longrightarrow> gmap_ok (index_remove u i idx)"
  by (simp add: index_remove_def Let_def split: option.split)

lemma session_inv_new: "session_inv NewMemorySessionStore"
  by (simp add: session_inv_def NewMemorySessionStore_def gget_def)

lemma session_inv_create:
  assumes "session_inv s" shows "session_inv (fst (sessionCreate s x))"
proof (cases "\<exists>y. x = Some y \<and> sesID y \<noteq> [] \<and> sesUserID y \<noteq> [] \<and> map_of (ssSessions s) (sesID y) = None")
  case True
  then obtain y where y: "x = Some y" "sesID y \<noteq> []" "sesUserID y \<noteq> []" "map_of (ssSessions s) (sesID y) = None"
    by blast
  define t where "t = fst (sessionCreate s x)"
  have S: "map_of (ssSessions t) i = (if i = sesID y then Some (copySession y) else map_of (ssSessions s) i)" for i
    using y by (simp add: t_def sessionCreate_def Let_def)
  have I: "gget [] (ssUserIndex t) u = (if u = sesUserID y then List.insert (sesID y) (gget [] (ssUserIndex s) u)
      else gget [] (ssUserIndex s) u)" for u
    using y by (simp add: t_def sessionCreate_def Let_def)
  have ok: "gmap_ok (ssSessions t)" "gmap_ok (ssUserIndex t)"
    using y session_invD(1,2)[OF assms] by (simp_all add: t_def sessionCreate_def Let_def)
  have "i \<in> set (gget [] (ssUserIndex t) u) \<longleftrightarrow> (\<exists>x. map_of (ssSessions t) i = Some x \<and> sesUserID x = u)" for u i
    using session_invD(5)[OF assms, of i u] y(4) by (auto simp: S I)
  moreover have "sesID x = i \<and> i \<noteq> [] \<and> sesUserID x \<noteq> []" if "map_of (ssSessions t) i = Some x" for i x
    using that session_invD(3)[OF assms, of i x] y(2,3) by (auto simp: S split: if_splits)
  moreover have "distinct (gget [] (ssUserIndex t) u)" for u
    using session_invD(4)[OF assms] by (simp add: I distinct_insert)
  ultimately show ?thesis using ok unfolding session_inv_def t_def[symmetric] by blast
next
  case False
  then have "fst (sessionCreate s x) = s" by (auto simp: sessionCreate_def split: option.split)
  then show ?thesis using assms by simp
qed

lemma session_inv_remove:
  assumes "session_inv s" "map_of (ssSessions s) i = Some x"
  shows "session_inv (s\<lparr>ssUserIndex := index_remove (sesUserID x) i (ssUserIndex s),
    ssSessions := gdel i (ssSessions s)\<rparr>)" (is "session_inv ?t")
proof -
  have "j \<in> set (gget [] (ssUserIndex ?t) u) \<longleftrightarrow> (\<exists>y. map_of (ssSessions ?t) j = Some y \<and> sesUserID y = u)" for u j
    using session_invD(5)[OF assms(1), of j u] assms(2) by (auto simp: gget_index_remove)
  moreover have "sesID y = j \<and> j \<noteq> [] \<and> sesUserID y \<noteq> []" if "map_of (ssSessions ?t) j = Some y" for j y
    using that session_invD(3)[OF assms(1), of j y] by (auto split: if_splits)
  moreover have "distinct (gget [] (ssUserIndex ?t) u)" for u
    using session_invD(4)[OF assms(1)] by (simp add: gget_index_remove distinct_removeAll)
  moreover have "gmap_ok (ssSessions ?t)" "gmap_ok (ssUserIndex ?t)"
    using session_invD(1,2)[OF assms(1)] by simp_all
  ultimately show ?thesis unfolding session_inv_def by blast
qed

lemma session_inv_delete: "session_inv s \<Longrightarrow> session_inv (fst (sessionDelete s i))"
  by (auto simp: sessionDelete_def split: option.split intro: session_inv_remove)

lemma fold_gdel_map_of: "map_of (fold gdel ks m) k = (if k \<in> set ks then None else map_of m k)"
  by (induction ks arbitrary: m) auto

lemma fold_gdel_ok: "gmap_ok m \<Longrightarrow> gmap_ok (fold gdel ks m)"
  by (induction ks arbitrary: m) auto

lemma sessionDeleteByUserID_map_of:
  assumes "session_inv s" "uid \<noteq> []"
  shows "map_of (ssSessions (sessionDeleteByUserID s uid)) i =
    (case map_of (ssSessions s) i of None \<Rightarrow> None | Some x \<Rightarrow> if sesUserID x = uid then None else Some x)"
proof (cases "map_of (ssUserIndex s) uid")
  case None
  then have "gget [] (ssUserIndex s) uid = []" by (simp add: gget_def)
  then show ?thesis using assms None session_invD(5)[OF assms(1), of i uid]
    by (auto simp: sessionDeleteByUserID_def split: option.split)
next
  case (Some ids)
  then have "gget [] (ssUserIndex s) uid = ids" by (simp add: gget_def)
  then show ?thesis using assms Some session_invD(5)[OF assms(1), of i uid]
    by (auto simp: sessionDeleteByUserID_def fold_gdel_map_of split: option.split)
qed

lemma session_inv_delete_user:
  assumes "session_inv s" shows "session_inv (sessionDeleteByUserID s uid)"
proof (cases "uid = [] \<or> map_of (ssUserIndex s) uid = None")
  case True then show ?thesis using assms by (auto simp: sessionDeleteByUserID_def)
next
  case False
  then obtain ids where ids: "map_of (ssUserIndex s) uid = Some ids" by blast
  let ?t = "sessionDeleteByUserID s uid"
  have t: "?t = s\<lparr>ssSessions := fold gdel ids (ssSessions s), ssUserIndex := gdel uid (ssUserIndex s)\<rparr>"
    using False ids by (simp add: sessionDeleteByUserID_def)
  have m: "map_of (ssSessions ?t) i =
      (case map_of (ssSessions s) i of None \<Rightarrow> None | Some x \<Rightarrow> if sesUserID x = uid then None else Some x)" for i
    using sessionDeleteByUserID_map_of[OF assms] False by blast
  have ok: "gmap_ok (ssSessions ?t)" "gmap_ok (ssUserIndex ?t)"
    using session_invD(1,2)[OF assms] t by (simp_all add: fold_gdel_ok)
  have g: "gget [] (ssUserIndex ?t) u = (if u = uid then [] else gget [] (ssUserIndex s) u)" for u
    by (simp add: t)
  have "i \<in> set (gget [] (ssUserIndex s) u) \<longleftrightarrow> (\<exists>x. map_of (ssSessions s) i = Some x \<and> sesUserID x = u)" for u i
    by (rule session_invD(5)[OF assms])
  then have "i \<in> set (gget [] (ssUserIndex ?t) u) \<longleftrightarrow> (\<exists>x. map_of (ssSessions ?t) i = Some x \<and> sesUserID x = u)" for u i
    by (auto simp: m g split: option.split)
  moreover have "sesID x = i \<and> i \<noteq> [] \<and> sesUserID x \<noteq> []" if "map_of (ssSessions ?t) i = Some x" for i x
    using that session_invD(3)[OF assms, of i x] by (auto simp: m split: option.splits if_splits)
  moreover have "distinct (gget [] (ssUserIndex ?t) u)" for u
    using session_invD(4)[OF assms, of u] by (simp add: g)
  ultimately show ?thesis using ok unfolding session_inv_def by blast
qed

lemma cleanup_fold:
  assumes "session_inv s" "distinct (map fst es)" "\<And>i x. (i, x) \<in> set es \<Longrightarrow> map_of (ssSessions s) i = Some x"
  shows "session_inv (fst (fold (cleanup_visit now) es (s, n)))
    \<and> (\<forall>i. map_of (ssSessions (fst (fold (cleanup_visit now) es (s, n)))) i =
         (if \<exists>x. (i, x) \<in> set es \<and> sessionIsExpired now x then None else map_of (ssSessions s) i))
    \<and> snd (fold (cleanup_visit now) es (s, n)) = n + int (length (filter (\<lambda>(i, x). sessionIsExpired now x) es))"
  using assms
proof (induction es arbitrary: s n)
  case (Cons e es)
  obtain i x where e: "e = (i, x)" by (cases e)
  define s1 where "s1 = fst (cleanup_visit now e (s, n))"
  define n1 where "n1 = snd (cleanup_visit now e (s, n))"
  have x: "map_of (ssSessions s) i = Some x" using Cons.prems(3) e by simp
  have s1: "session_inv s1" "\<And>j. map_of (ssSessions s1) j = (if j = i \<and> sessionIsExpired now x then None else map_of (ssSessions s) j)"
    "n1 = n + (if sessionIsExpired now x then 1 else 0)"
    using Cons.prems(1) x session_inv_remove[OF Cons.prems(1) x]
    by (auto simp: s1_def n1_def e cleanup_visit_def sessionIsExpired_def)
  have "map_of (ssSessions s1) j = Some y" if "(j, y) \<in> set es" for j y
  proof -
    have "j \<noteq> i" using that Cons.prems(2) e by force
    then show ?thesis using that Cons.prems(3) s1(2) by simp
  qed
  from Cons.IH[OF s1(1) _ this, of n1] Cons.prems(2) e
  have IH: "session_inv (fst (fold (cleanup_visit now) es (s1, n1)))"
    "\<And>j. map_of (ssSessions (fst (fold (cleanup_visit now) es (s1, n1)))) j =
         (if \<exists>x. (j, x) \<in> set es \<and> sessionIsExpired now x then None else map_of (ssSessions s1) j)"
    "snd (fold (cleanup_visit now) es (s1, n1)) = n1 + int (length (filter (\<lambda>(i, x). sessionIsExpired now x) es))"
    by simp_all
  have f: "fold (cleanup_visit now) (e # es) (s, n) = fold (cleanup_visit now) es (s1, n1)"
    by (simp add: s1_def n1_def)
  show ?case unfolding f using IH s1 by (auto simp: e)
qed simp

lemma sessionCleanup_effect:
  assumes "session_inv s"
  shows "session_inv (fst (sessionCleanup now s))"
    "map_of (ssSessions (fst (sessionCleanup now s))) i =
       (case map_of (ssSessions s) i of None \<Rightarrow> None | Some x \<Rightarrow> if sessionIsExpired now x then None else Some x)"
    "snd (sessionCleanup now s) = int (length (filter (\<lambda>(i, x). sessionIsExpired now x) (ssSessions s)))"
proof -
  have ok: "gmap_ok (ssSessions s)" using session_invD(1)[OF assms] .
  have c: "session_inv (fst (sessionCleanup now s))
    \<and> (\<forall>i. map_of (ssSessions (fst (sessionCleanup now s))) i =
         (if \<exists>x. (i, x) \<in> set (ssSessions s) \<and> sessionIsExpired now x then None else map_of (ssSessions s) i))
    \<and> snd (sessionCleanup now s) = 0 + int (length (filter (\<lambda>(i, x). sessionIsExpired now x) (ssSessions s)))"
    unfolding sessionCleanup_def using ok
    by (intro cleanup_fold[OF assms]) (auto simp: gmap_ok_def map_of_eq_Some_iff)
  then show "session_inv (fst (sessionCleanup now s))"
    "snd (sessionCleanup now s) = int (length (filter (\<lambda>(i, x). sessionIsExpired now x) (ssSessions s)))" by simp_all
  show "map_of (ssSessions (fst (sessionCleanup now s))) i =
       (case map_of (ssSessions s) i of None \<Rightarrow> None | Some x \<Rightarrow> if sessionIsExpired now x then None else Some x)"
    using c ok by (auto simp: gmap_mem_iff split: option.split)
qed

inductive session_step :: "session_store \<Rightarrow> session_store \<Rightarrow> bool" where
  create: "session_step s (fst (sessionCreate s x))"
| delete: "session_step s (fst (sessionDelete s i))"
| delete_user: "session_step s (sessionDeleteByUserID s u)"
| cleanup: "session_step s (fst (sessionCleanup now s))"

inductive session_reachable :: "session_store \<Rightarrow> bool" where
  init: "session_reachable NewMemorySessionStore"
| step: "session_reachable s \<Longrightarrow> session_step s t \<Longrightarrow> session_reachable t"

lemma session_reachable_inv: "session_reachable s \<Longrightarrow> session_inv s"
proof (induction rule: session_reachable.induct)
  case (step s t)
  from step.hyps(2) step.IH show ?case
    by (cases rule: session_step.cases)
      (auto intro: session_inv_create session_inv_delete session_inv_delete_user sessionCleanup_effect(1))
qed (rule session_inv_new)

end
