(* ===== verification/AuthStoreProps.thy ===== *)
theory AuthStoreProps
  imports AuthStoreFacts
begin

section \<open>Properties of the authentication stores\<close>

text \<open>
  Keys that are generated, stored and presented again are accepted, and rejected once revoked;
  user names and key prefixes identify one record; the session store removes what it says.
\<close>

subsection \<open>Base64 keys\<close>

lemma runes_ascii: "list_all (\<lambda>c. (of_char c :: nat) < 128) s \<Longrightarrow> runes s = map of_char s"
proof (induction s)
  case (Cons c s)
  have "runes (c # s) = fst (decodeRune (map of_char (c # s))) # runes_of (drop (snd (decodeRune (map of_char (c # s)))) (map of_char (c # s)))"
    unfolding runes_def by (subst runes_of.simps) simp
  also have "decodeRune (map of_char (c # s)) = (of_char c, 1)"
    using Cons.prems by (simp add: decodeRune_def)
  finally show ?case using Cons by (simp add: runes_def)
qed (simp add: runes_def runes_of.simps)

definition b64url :: "nat \<Rightarrow> bool" where
  "b64url r \<longleftrightarrow> (65 \<le> r \<and> r \<le> 90) \<or> (97 \<le> r \<and> r \<le> 122) \<or> (48 \<le> r \<and> r \<le> 57) \<or> r = 45 \<or> r = 95"

lemma b64url_char: "n < 64 \<Longrightarrow> b64url (of_char (b64_char n))"
  by (auto simp: b64_char_def b64url_def of_char_of)

lemma b64url_ascii: "b64url r \<Longrightarrow> r < 128"
  by (auto simp: b64url_def)

lemma sextets:
  fixes a b :: "8 word"
  shows "unat a div 4 < 64" "unat a mod 4 * 16 + unat b div 16 < 64" "unat a mod 4 * 16 < 64"
    "unat a mod 16 * 4 + unat b div 64 < 64" "unat a mod 16 * 4 < 64" "unat a mod 64 < 64"
proof -
  have lt: "unat a < 256" "unat b < 256" using unsigned_less[of a] unsigned_less[of b] by simp_all
  show "unat a div 4 < 64" using lt(1) by (simp add: less_mult_imp_div_less)
  have "unat b div 16 < 16" "unat b div 64 < 4" using lt(2) by (simp_all add: less_mult_imp_div_less)
  moreover have "unat a mod 4 < 4" "unat a mod 16 < 16" by simp_all
  ultimately show "unat a mod 4 * 16 + unat b div 16 < 64" "unat a mod 4 * 16 < 64"
    "unat a mod 16 * 4 + unat b div 64 < 64" "unat a mod 16 * 4 < 64" by linarith+
qed simp

lemma b64_encode_chars: "list_all (\<lambda>c. b64url (of_char c)) (b64_encode bs)"
  by (induction bs rule: b64_encode.induct) (simp_all add: b64url_char sextets)

lemma length_b64_encode: "length (b64_encode bs) = (8 * length bs + 5) div 6"
  by (induction bs rule: b64_encode.induct) auto

lemma isValidBase64URL_encode: "isValidBase64URL (b64_encode bs)"
proof -
  have c: "list_all (\<lambda>c. b64url (of_char c)) (b64_encode bs)" by (rule b64_encode_chars)
  then have "list_all (\<lambda>c. (of_char c :: nat) < 128) (b64_encode bs)"
    by (rule list.pred_mono_strong) (rule b64url_ascii)
  then show ?thesis using c
    by (simp add: isValidBase64URL_def runes_ascii list.pred_map o_def b64url_def)
qed

lemma ParseAPIKeyPrefix_generated:
  "8 \<le> length (b64_encode bs) \<Longrightarrow>
     ParseAPIKeyPrefix (APIKeyPrefix @ b64_encode bs) = Inr (take PrefixLength (b64_encode bs))"
  by (simp add: ParseAPIKeyPrefix_def trim_prefix_def isValidBase64URL_encode PrefixLength_def Let_def)

lemma GenerateAPIKey_Inr:
  assumes "GenerateAPIKey hash now keyRnd saltRnd idRnd opts = Inr (pt, k)"
  obtains kb salt i where "keyRnd = Some kb" "saltRnd = Some salt" "generateUUID idRnd = Some i"
    "pt = APIKeyPrefix @ b64_encode kb" "keyPrefix k = take PrefixLength (b64_encode kb)" "keyID k = i"
    "keyHash k = Some (hash pt salt)" "keySalt k = Some salt" "keyRevoked k = False"
    "keyExpiresAt k = koExpiresAt opts" "keyScopes k = koScopes opts"
  using assms by (auto simp: GenerateAPIKey_def Let_def split: option.splits)

lemma keyCreate_ok:
  "map_of (ksPrefixIndex s) (keyPrefix k) = None \<Longrightarrow>
     snd (keyCreate s (Some k)) = None \<and> keyGetByID (fst (keyCreate s (Some k))) (keyID k) = Some k"
  by (simp add: keyCreate_def keyGetByID_def)

lemma prefix_free:
  assumes "key_inv s" "keyGetByPrefix s p = None"
  shows "map_of (ksPrefixIndex s) p = None"
proof (rule ccontr)
  assume "map_of (ksPrefixIndex s) p \<noteq> None"
  then obtain i where i: "map_of (ksPrefixIndex s) p = Some i" by blast
  then obtain r where "map_of (ksKeys s) i = Some r"
    using index_okD(3)[of keyPrefix "ksKeys s" "ksPrefixIndex s" p i] assms(1) by (auto simp: key_inv_def)
  with i assms(2) show False by (simp add: keyGetByPrefix_def)
qed

subsection \<open>The properties\<close>

text \<open>A generated API key authenticates until it is revoked. For a key generated from 32
  random bytes and stored in a reachable store where its id and prefix are new: the presented plaintext parses
  to the stored prefix, the lookup by prefix finds exactly this record, validation accepts the
  plaintext while the key has not expired and rejects any other text whose hash differs, and after
  \<open>Revoke\<close> the lookup still finds the key and validation answers that it is revoked.\<close>

theorem api_key_lifecycle:
  assumes "key_reachable s" "GenerateAPIKey hash now (Some kb) saltRnd idRnd opts = Inr (pt, k)"
    "length kb = KeyBytes" "keyGetByID s (keyID k) = None" "keyGetByPrefix s (keyPrefix k) = None"
  shows "let s1 = fst (keyCreate s (Some k)); s2 = fst (keyRevoke s1 (keyID k)) in
    snd (keyCreate s (Some k)) = None
    \<and> ParseAPIKeyPrefix pt = Inr (keyPrefix k)
    \<and> keyGetByPrefix s1 (keyPrefix k) = Some k
    \<and> (\<forall>later. \<not> keyIsExpired later k \<longrightarrow> ValidateAPIKey hash later pt (keyGetByPrefix s1 (keyPrefix k)) = None)
    \<and> (\<forall>later other. hash other (slice (keySalt k)) \<noteq> slice (keyHash k) \<longrightarrow>
         ValidateAPIKey hash later other (keyGetByPrefix s1 (keyPrefix k)) \<noteq> None)
    \<and> (\<forall>later other. ValidateAPIKey hash later other (keyGetByPrefix s2 (keyPrefix k)) = Some ErrKeyRevoked)"
proof -
  define s1 where "s1 = fst (keyCreate s (Some k))"
  define s2 where "s2 = fst (keyRevoke s1 (keyID k))"
  obtain salt where k: "pt = APIKeyPrefix @ b64_encode kb" "keyPrefix k = take PrefixLength (b64_encode kb)"
    "keyHash k = Some (hash pt salt)" "keySalt k = Some salt" "keyRevoked k = False"
    using GenerateAPIKey_Inr[OF assms(2)] by (metis option.inject)
  have inv: "key_inv s" using assms(1) by (rule key_reachable_inv)
  have new: "snd (keyCreate s (Some k)) = None" "keyGetByID s1 (keyID k) = Some k"
    using keyCreate_ok[OF prefix_free[OF inv assms(5)]] by (simp_all add: s1_def)
  have inv1: "key_inv s1" unfolding s1_def by (rule key_step_inv[OF key_step.create[OF assms(4)] inv])
  have inv2: "key_inv s2" unfolding s2_def by (rule key_step_inv[OF key_step.revoke inv1])
  have g1: "keyGetByPrefix s1 (keyPrefix k) = Some k" using keyGetByPrefix_iff[OF inv1] new(2) by simp
  have "keyGetByID s2 (keyID k) = Some (k\<lparr>keyRevoked := True\<rparr>)"
    using new(2) by (simp add: s2_def keyRevoke_def keyGetByID_def split: option.splits)
  then have g2: "keyGetByPrefix s2 (keyPrefix k) = Some (k\<lparr>keyRevoked := True\<rparr>)"
    using keyGetByPrefix_iff[OF inv2, of "keyPrefix k" "k\<lparr>keyRevoked := True\<rparr>"] by simp
  have "8 \<le> length (b64_encode kb)" using assms(3) by (simp add: length_b64_encode KeyBytes_def)
  then have "ParseAPIKeyPrefix pt = Inr (keyPrefix k)" using ParseAPIKeyPrefix_generated k by simp
  then show ?thesis using new g1 g2 k
    unfolding Let_def s1_def[symmetric] s2_def[symmetric] by (simp add: ValidateAPIKey_def slice_def)
qed

definition demo_hash :: hash_fn where
  "demo_hash t salt = map (\<lambda>c. of_nat (of_char c)) t @ salt"

definition demo_opts :: key_options where
  "demo_opts = \<lparr>koName = ''ci'', koScopes = Some [''pools:read''], koExpiresAt = None\<rparr>"

theorem api_key_lifecycle_witness:
  "\<exists>pt k. ParseAPIKeyPrefix pt = Inr (keyPrefix k)
     \<and> ValidateAPIKey demo_hash 7 pt (keyGetByPrefix (fst (keyCreate NewMemoryKeyStore (Some k))) (keyPrefix k)) = None"
proof -
  define kb :: bytes where "kb = replicate KeyBytes 5"
  obtain i where i: "generateUUID (Some (replicate 16 2)) = Some i" by (simp add: generateUUID_def)
  obtain pt k where k: "GenerateAPIKey demo_hash 0 (Some kb) (Some []) (Some (replicate 16 2)) demo_opts = Inr (pt, k)"
    unfolding GenerateAPIKey_def Let_def i by simp
  have e: "keyExpiresAt k = None" using k by (rule GenerateAPIKey_Inr) (simp add: demo_opts_def)
  have "keyGetByID NewMemoryKeyStore (keyID k) = None" "keyGetByPrefix NewMemoryKeyStore (keyPrefix k) = None"
    by (simp_all add: NewMemoryKeyStore_def keyGetByID_def keyGetByPrefix_def)
  from api_key_lifecycle[OF key_reachable.init k _ this] e show ?thesis
    unfolding Let_def by (auto simp: kb_def keyIsExpired_def)
qed

text \<open>A user name identifies one user. In every reachable user store the lookup by a non-empty name
  finds exactly the user stored under its id with that name, two users never share a name, and
  after the deletion of a user its name is free again.\<close>

theorem usernames_identify_users:
  assumes "user_reachable s"
  shows "(\<forall>name u. name \<noteq> [] \<longrightarrow>
      (userGetByUsername s name = Some u \<longleftrightarrow> userGetByID s (userID u) = Some u \<and> userUsername u = name))
    \<and> (\<forall>i j u v. userGetByID s i = Some u \<longrightarrow> userGetByID s j = Some v \<longrightarrow> userUsername u = userUsername v
         \<longrightarrow> userUsername u \<noteq> [] \<longrightarrow> i = j)
    \<and> (\<forall>i u. userGetByID s i = Some u \<longrightarrow> userUsername u \<noteq> [] \<longrightarrow>
         userGetByUsername (fst (userDelete s i)) (userUsername u) = None)"
proof -
  have inv: "user_inv s" using assms by (rule user_reachable_inv)
  show ?thesis
    using users.by_sec_iff[OF inv] users.sec_unique[OF inv] users.removed_by_sec[OF inv]
    by (intro conjI allI impI)
qed

definition demo_user :: "string \<Rightarrow> string \<Rightarrow> user" where
  "demo_user i n = \<lparr>userID = i, userUsername = n, userEmail = [], userDisplayName = [], userRole = ''viewer'',
     userPasswordHash = None, userIsActive = True, userCreatedAt = 0, userUpdatedAt = 0,
     userLastLoginAt = None, userFailedLoginAttempts = 0, userLastFailedLoginAt = None,
     userLockedAt = None, userLockoutUntil = None, userAuthProvider = ''local'', userOIDCSubject = [],
     userOIDCIssuer = []\<rparr>"

definition demo_users :: user_store where
  "demo_users = fst (userCreate (fst (userCreate NewMemoryUserStore (Some (demo_user ''1'' ''ann''))))
     (Some (demo_user ''2'' ''bob'')))"

lemma demo_users_reachable: "user_reachable demo_users"
  unfolding demo_users_def by (intro user_reachable.step[OF _ user_step.create] user_reachable.init)

theorem usernames_identify_users_witness:
  "userGetByUsername demo_users ''bob'' = Some (demo_user ''2'' ''bob'')
   \<and> userGetByUsername (fst (userDelete demo_users ''2'')) ''bob'' = None"
proof -
  have g: "userGetByID demo_users ''2'' = Some (demo_user ''2'' ''bob'')" by code_simp
  have u: "userID (demo_user ''2'' ''bob'') = ''2''" "userUsername (demo_user ''2'' ''bob'') = ''bob''"
    by (simp_all add: demo_user_def)
  show ?thesis using usernames_identify_users[OF demo_users_reachable] g u by (metis list.distinct(1))
qed

text \<open>The session store removes what it says. In every reachable session store, ending all
  sessions of a user removes exactly that user's sessions, whatever the index holds; \<open>Cleanup\<close>
  removes exactly the expired sessions and returns their number; \<open>Get\<close> never hands out an expired
  session; and the per-user count is the number of that user's sessions.\<close>

theorem sessions_removed_exactly:
  assumes "session_reachable s"
  shows "(\<forall>uid i. uid \<noteq> [] \<longrightarrow> map_of (ssSessions (sessionDeleteByUserID s uid)) i =
      (case map_of (ssSessions s) i of None \<Rightarrow> None | Some x \<Rightarrow> if sesUserID x = uid then None else Some x))
    \<and> (\<forall>now i. map_of (ssSessions (fst (sessionCleanup now s))) i =
      (case map_of (ssSessions s) i of None \<Rightarrow> None | Some x \<Rightarrow> if sessionIsExpired now x then None else Some x))
    \<and> (\<forall>now. snd (sessionCleanup now s) = int (length (filter (\<lambda>(i, x). sessionIsExpired now x) (ssSessions s))))
    \<and> (\<forall>now i x. sessionGet now s i = Inr (Some x) \<longrightarrow> now \<le> sesExpiresAt x)
    \<and> (\<forall>uid. sessionCountByUser s uid = int (card {i. \<exists>x. map_of (ssSessions s) i = Some x \<and> sesUserID x = uid}))"
proof -
  have inv: "session_inv s" using assms by (rule session_reachable_inv)
  have "now \<le> sesExpiresAt x" if "sessionGet now s i = Inr (Some x)" for now i x
    using that by (auto simp: sessionGet_def sessionIsExpired_def split: if_splits option.splits)
  moreover have "sessionCountByUser s uid = int (card {i. \<exists>x. map_of (ssSessions s) i = Some x \<and> sesUserID x = uid})" for uid
  proof -
    have "{i. \<exists>x. map_of (ssSessions s) i = Some x \<and> sesUserID x = uid} = set (gget [] (ssUserIndex s) uid)"
      using session_invD(5)[OF inv] by blast
    then show ?thesis using distinct_card[OF session_invD(4)[OF inv, of uid]]
      by (simp add: sessionCountByUser_def)
  qed
  ultimately show ?thesis
    using sessionDeleteByUserID_map_of[OF inv] sessionCleanup_effect(2,3)[OF inv] by blast
qed

definition demo_session :: "string \<Rightarrow> string \<Rightarrow> go_time \<Rightarrow> session" where
  "demo_session i u t = \<lparr>sesID = i, sesUserID = u, sesRole = ''viewer'', sesCreatedAt = 0, sesExpiresAt = t,
     sesMetadata = None\<rparr>"

definition demo_sessions :: session_store where
  "demo_sessions = fst (sessionCreate (fst (sessionCreate NewMemorySessionStore
     (Some (demo_session ''a'' ''u1'' 10)))) (Some (demo_session ''b'' ''u2'' 20)))"

theorem sessions_removed_exactly_witness:
  "map_of (ssSessions (sessionDeleteByUserID demo_sessions ''u1'')) ''a'' = None
   \<and> map_of (ssSessions (fst (sessionCleanup 15 demo_sessions))) ''a'' = None
   \<and> map_of (ssSessions (fst (sessionCleanup 15 demo_sessions))) ''b'' \<noteq> None"
proof -
  have r: "session_reachable demo_sessions"
    unfolding demo_sessions_def by (intro session_reachable.step[OF _ session_step.create] session_reachable.init)
  have a: "map_of (ssSessions demo_sessions) ''a'' = Some (demo_session ''a'' ''u1'' 10)"
    and b: "map_of (ssSessions demo_sessions) ''b'' = Some (demo_session ''b'' ''u2'' 20)" by code_simp+
  have "map_of (ssSessions (sessionDeleteByUserID demo_sessions ''u1'')) i =
      (case map_of (ssSessions demo_sessions) i of None \<Rightarrow> None | Some x \<Rightarrow> if sesUserID x = ''u1'' then None else Some x)"
    "map_of (ssSessions (fst (sessionCleanup 15 demo_sessions))) i =
      (case map_of (ssSessions demo_sessions) i of None \<Rightarrow> None | Some x \<Rightarrow> if sessionIsExpired 15 x then None else Some x)" for i
    using sessions_removed_exactly[OF r] by blast+
  then show ?thesis using a b by (simp add: demo_session_def sessionIsExpired_def)
qed

end
