(* ===== verification/Rbac.thy ===== *)
theory Rbac
  imports AuthStoreProps
begin

section \<open>Roles, permissions and the authentication context (rbac.go, context.go, role_store.go)\<close>

text \<open>
  Roles and permissions are strings and pairs of strings as in the code. The role store the
  server registers with \<open>SetRoleStoreProvider\<close> is the argument \<open>provider\<close> (\<open>None\<close> before it is set).
  The values an HTTP request carries in its context (explicit role, session, API key, user) are
  the record \<open>auth_ctx\<close>, and \<open>now\<close> is the clock that expiry is tested against.
\<close>

subsection \<open>Roles, resources and actions\<close>

definition RoleAdmin :: role where "RoleAdmin = ''admin''"
definition RoleOperator :: role where "RoleOperator = ''operator''"
definition RoleViewer :: role where "RoleViewer = ''viewer''"
definition RoleAuditor :: role where "RoleAuditor = ''auditor''"
definition RoleNone :: role where "RoleNone = []"

lemmas role_defs = RoleAdmin_def RoleOperator_def RoleViewer_def RoleAuditor_def RoleNone_def

definition ResourcePools :: string where "ResourcePools = ''pools''"
definition ResourceAccounts :: string where "ResourceAccounts = ''accounts''"
definition ResourceAPIKeys :: string where "ResourceAPIKeys = ''apikeys''"
definition ResourceAudit :: string where "ResourceAudit = ''audit''"
definition ResourceUsers :: string where "ResourceUsers = ''users''"
definition ResourceDiscovery :: string where "ResourceDiscovery = ''discovery''"
definition ResourceSettings :: string where "ResourceSettings = ''settings''"

definition ActionCreate :: string where "ActionCreate = ''create''"
definition ActionRead :: string where "ActionRead = ''read''"
definition ActionUpdate :: string where "ActionUpdate = ''update''"
definition ActionDelete :: string where "ActionDelete = ''delete''"
definition ActionList :: string where "ActionList = ''list''"
definition ActionWrite :: string where "ActionWrite = ''write''"

lemmas resource_defs = ResourcePools_def ResourceAccounts_def ResourceAPIKeys_def ResourceAudit_def
  ResourceUsers_def ResourceDiscovery_def ResourceSettings_def
lemmas action_defs = ActionCreate_def ActionRead_def ActionUpdate_def ActionDelete_def
  ActionList_def ActionWrite_def

datatype permission = perm (permResource: string) (permAction: string)

definition permString :: "permission \<Rightarrow> string" where
  "permString p = permResource p @ '':'' @ permAction p"

datatype permission_definition = pdef (pdID: string) (pdResource: string) (pdAction: string)
  (pdName: string) (pdDescription: string) (pdCategory: string)

definition PermissionCatalog :: "permission_definition list" where
  "PermissionCatalog = [
     pdef ''pools:create'' ResourcePools ActionCreate ''Create pools'' ''Create address pools and planned allocations.'' ''IPAM'',
     pdef ''pools:read'' ResourcePools ActionRead ''Read pools'' ''View pool details, blocks, utilization, and schema checks.'' ''IPAM'',
     pdef ''pools:update'' ResourcePools ActionUpdate ''Update pools'' ''Edit pool metadata, hierarchy, and assignment.'' ''IPAM'',
     pdef ''pools:delete'' ResourcePools ActionDelete ''Delete pools'' ''Delete pools and planned allocations.'' ''IPAM'',
     pdef ''pools:list'' ResourcePools ActionList ''List pools'' ''Browse pool lists and tree views.'' ''IPAM'',
     pdef ''accounts:create'' ResourceAccounts ActionCreate ''Create accounts'' ''Create cloud account records.'' ''Accounts'',
     pdef ''accounts:read'' ResourceAccounts ActionRead ''Read accounts'' ''View account details and account-linked resources.'' ''Accounts'',
     pdef ''accounts:update'' ResourceAccounts ActionUpdate ''Update accounts'' ''Edit account metadata.'' ''Accounts'',
     pdef ''accounts:delete'' ResourceAccounts ActionDelete ''Delete accounts'' ''Delete account records.'' ''Accounts'',
     pdef ''accounts:list'' ResourceAccounts ActionList ''List accounts'' ''Browse account lists.'' ''Accounts'',
     pdef ''apikeys:create'' ResourceAPIKeys ActionCreate ''Create API keys'' ''Create API tokens within the caller's permission envelope.'' ''Identity'',
     pdef ''apikeys:read'' ResourceAPIKeys ActionRead ''Read API keys'' ''View API key metadata.'' ''Identity'',
     pdef ''apikeys:update'' ResourceAPIKeys ActionUpdate ''Update API keys'' ''Reserved for future API key metadata updates.'' ''Identity'',
     pdef ''apikeys:delete'' ResourceAPIKeys ActionDelete ''Delete API keys'' ''Revoke API keys.'' ''Identity'',
     pdef ''apikeys:list'' ResourceAPIKeys ActionList ''List API keys'' ''Browse API key metadata.'' ''Identity'',
     pdef ''audit:read'' ResourceAudit ActionRead ''Read audit logs'' ''View audit event details.'' ''Audit'',
     pdef ''audit:list'' ResourceAudit ActionList ''List audit logs'' ''Browse audit events.'' ''Audit'',
     pdef ''users:create'' ResourceUsers ActionCreate ''Create users'' ''Create local user accounts.'' ''Identity'',
     pdef ''users:read'' ResourceUsers ActionRead ''Read users'' ''View user account details.'' ''Identity'',
     pdef ''users:update'' ResourceUsers ActionUpdate ''Update users'' ''Edit users, roles, password state, and active status.'' ''Identity'',
     pdef ''users:delete'' ResourceUsers ActionDelete ''Delete users'' ''Deactivate user accounts.'' ''Identity'',
     pdef ''users:list'' ResourceUsers ActionList ''List users'' ''Browse user accounts.'' ''Identity'',
     pdef ''discovery:create'' ResourceDiscovery ActionCreate ''Start discovery'' ''Start discovery syncs and register agents.'' ''Discovery'',
     pdef ''discovery:read'' ResourceDiscovery ActionRead ''Read discovery'' ''View discovered resources, agents, drift, and recommendations.'' ''Discovery'',
     pdef ''discovery:update'' ResourceDiscovery ActionUpdate ''Update discovery'' ''Apply discovery results and reconcile drift.'' ''Discovery'',
     pdef ''discovery:delete'' ResourceDiscovery ActionDelete ''Delete discovery'' ''Reserved for future discovery cleanup operations.'' ''Discovery'',
     pdef ''discovery:list'' ResourceDiscovery ActionList ''List discovery'' ''Browse discovery resources, jobs, agents, drift, and recommendations.'' ''Discovery'',
     pdef ''settings:read'' ResourceSettings ActionRead ''Read settings'' ''View security, OIDC, update, and system configuration.'' ''Settings'',
     pdef ''settings:write'' ResourceSettings ActionWrite ''Write settings'' ''Change security, OIDC, update, and system configuration.'' ''Settings'']"

definition IsValidPermission :: "permission \<Rightarrow> bool" where
  "IsValidPermission p = list_ex (\<lambda>d. pdID d = permString p) PermissionCatalog"

text \<open>The second result is the validity flag.\<close>

definition PermissionFromID :: "string \<Rightarrow> permission \<times> bool" where
  "PermissionFromID i = (case split2 CHR '':'' (trimSpace i) of
     None \<Rightarrow> (perm [] [], False)
   | Some (r, a) \<Rightarrow> (perm r a, IsValidPermission (perm r a)))"

definition ErrRoleNotFound :: go_error where "ErrRoleNotFound = plainErr ''role not found''"
definition ErrRoleExists :: go_error where "ErrRoleExists = plainErr ''role already exists''"
definition ErrBuiltinRole :: go_error where "ErrBuiltinRole = plainErr ''built-in roles cannot be modified''"
definition ErrRoleInUse :: go_error where "ErrRoleInUse = plainErr ''role is assigned to active users''"
definition ErrInvalidRole :: go_error where "ErrInvalidRole = plainErr ''invalid role''"
definition ErrInvalidPermission :: go_error where "ErrInvalidPermission = plainErr ''invalid permission''"

text \<open>The duplicate check of \<open>seen\<close> has no effect on the result.\<close>

fun validate_perms :: "string list \<Rightarrow> permission list \<Rightarrow> go_error option" where
  "validate_perms seen [] = None"
| "validate_perms seen (p # ps) =
     (if \<not> IsValidPermission p then Some ErrInvalidPermission
      else if permString p \<in> set seen then validate_perms seen ps
      else validate_perms (permString p # seen) ps)"

definition ValidatePermissions :: "permission list \<Rightarrow> go_error option" where
  "ValidatePermissions ps = validate_perms [] ps"

definition RolePermissions :: "(role, permission list) gomap" where
  "RolePermissions = [
   (RoleAdmin, [
     perm ResourcePools ActionCreate, perm ResourcePools ActionRead, perm ResourcePools ActionUpdate,
     perm ResourcePools ActionDelete, perm ResourcePools ActionList, perm ResourceAccounts ActionCreate,
     perm ResourceAccounts ActionRead, perm ResourceAccounts ActionUpdate,
     perm ResourceAccounts ActionDelete, perm ResourceAccounts ActionList,
     perm ResourceAPIKeys ActionCreate, perm ResourceAPIKeys ActionRead, perm ResourceAPIKeys ActionUpdate,
     perm ResourceAPIKeys ActionDelete, perm ResourceAPIKeys ActionList, perm ResourceAudit ActionRead,
     perm ResourceAudit ActionList, perm ResourceUsers ActionCreate, perm ResourceUsers ActionRead,
     perm ResourceUsers ActionUpdate, perm ResourceUsers ActionDelete, perm ResourceUsers ActionList,
     perm ResourceDiscovery ActionCreate, perm ResourceDiscovery ActionRead,
     perm ResourceDiscovery ActionUpdate, perm ResourceDiscovery ActionDelete,
     perm ResourceDiscovery ActionList, perm ResourceSettings ActionRead, perm ResourceSettings ActionWrite]),
   (RoleOperator, [
     perm ResourcePools ActionCreate, perm ResourcePools ActionRead, perm ResourcePools ActionUpdate,
     perm ResourcePools ActionDelete, perm ResourcePools ActionList, perm ResourceAccounts ActionCreate,
     perm ResourceAccounts ActionRead, perm ResourceAccounts ActionUpdate,
     perm ResourceAccounts ActionDelete, perm ResourceAccounts ActionList,
     perm ResourceDiscovery ActionCreate, perm ResourceDiscovery ActionRead,
     perm ResourceDiscovery ActionUpdate, perm ResourceDiscovery ActionList]),
   (RoleViewer, [
     perm ResourcePools ActionRead, perm ResourcePools ActionList, perm ResourceAccounts ActionRead,
     perm ResourceAccounts ActionList, perm ResourceDiscovery ActionRead, perm ResourceDiscovery ActionList]),
   (RoleAuditor, [perm ResourceAudit ActionRead, perm ResourceAudit ActionList])]"

text \<open>\<open>rolePermissionCache\<close>, as \<open>init\<close> fills it: resource, action, flag.\<close>

definition cache_add :: "permission \<Rightarrow> (string, (string, bool) gomap) gomap \<Rightarrow> (string, (string, bool) gomap) gomap" where
  "cache_add p c =
     gput (permResource p) (gput (permAction p) True (gget [] c (permResource p))) c"

definition rolePermissionCache :: "(role, (string, (string, bool) gomap) gomap) gomap" where
  "rolePermissionCache = map (\<lambda>(role, ps). (role, fold cache_add ps [])) RolePermissions"

definition IsBuiltinRole :: "role \<Rightarrow> bool" where
  "IsBuiltinRole r = (r = RoleAdmin \<or> r = RoleOperator \<or> r = RoleViewer \<or> r = RoleAuditor)"

definition ValidRoles :: "role list" where
  "ValidRoles = [RoleAdmin, RoleOperator, RoleViewer, RoleAuditor]"

definition IsValidRole :: "role \<Rightarrow> bool" where
  "IsValidRole r = (r = RoleAdmin \<or> r = RoleOperator \<or> r = RoleViewer \<or> r = RoleAuditor)"

definition ParseRole :: "string \<Rightarrow> role" where
  "ParseRole s = (let r = toLower (trimSpace s) in if IsValidRole r then r else RoleNone)"

definition RoleLevel :: "role \<Rightarrow> int" where
  "RoleLevel r = (if r = RoleAdmin then 4 else if r = RoleOperator then 3 else if r = RoleViewer then 2
     else if r = RoleAuditor then 1 else 0)"

definition GetStaticPermissions :: "role \<Rightarrow> permission list option" where
  "GetStaticPermissions r = map_of RolePermissions r"

definition copyPermissions :: "permission list \<Rightarrow> permission list" where
  "copyPermissions ps = map (\<lambda>i. ps ! i) [0..<length ps]"

lemma copyPermissions_id [simp]: "copyPermissions ps = ps"
  by (simp add: copyPermissions_def map_nth)

subsection \<open>The role store (role_store.go)\<close>

record role_definition =
  rdID :: string
  rdName :: role
  rdDescription :: string
  rdIsBuiltin :: bool
  rdPermissions :: "permission list"
  rdCreatedAt :: go_time
  rdUpdatedAt :: go_time

definition NormalizeRoleName :: "string \<Rightarrow> role" where
  "NormalizeRoleName name = toLower (trimSpace name)"

text \<open>\<open>^[a-z][a-z0-9_-]{1,62}$\<close>\<close>

definition roleNamePattern :: "string \<Rightarrow> bool" where
  "roleNamePattern s = (case s of [] \<Rightarrow> False
     | c # cs \<Rightarrow> is_lower c \<and> 1 \<le> length cs \<and> length cs \<le> 62
         \<and> list_all (\<lambda>d. is_lower d \<or> is_digit d \<or> d = CHR ''_'' \<or> d = CHR ''-'') cs)"

definition ValidateCustomRoleName :: "role \<Rightarrow> go_error option" where
  "ValidateCustomRoleName name =
     (if IsBuiltinRole name then Some ErrBuiltinRole
      else if name = RoleNone \<or> \<not> roleNamePattern name then Some ErrInvalidRole else None)"

definition builtin_description :: "role \<Rightarrow> string" where
  "builtin_description r =
     (if r = RoleAdmin then ''Full application administration''
      else if r = RoleOperator then ''Manage pools, accounts, and discovery workflows''
      else if r = RoleViewer then ''Read-only access to pools, accounts, and discovery''
      else if r = RoleAuditor then ''Read-only audit log access'' else [])"

definition BuiltinRoleDefinition :: "role \<Rightarrow> role_definition option" where
  "BuiltinRoleDefinition r = (case GetStaticPermissions r of None \<Rightarrow> None
     | Some ps \<Rightarrow> Some \<lparr>rdID = r, rdName = r, rdDescription = builtin_description r,
         rdIsBuiltin = True, rdPermissions = ps, rdCreatedAt = 0, rdUpdatedAt = 0\<rparr>)"

definition copyRoleDefinition :: "role_definition \<Rightarrow> role_definition" where
  "copyRoleDefinition d = \<lparr>rdID = rdID d, rdName = rdName d, rdDescription = rdDescription d,
     rdIsBuiltin = rdIsBuiltin d, rdPermissions = copyPermissions (rdPermissions d),
     rdCreatedAt = rdCreatedAt d, rdUpdatedAt = rdUpdatedAt d\<rparr>"

lemma copyRoleDefinition_id [simp]: "copyRoleDefinition d = d"
  by (simp add: copyRoleDefinition_def)

record role_store =
  rsRoles :: "(role, role_definition) gomap"
  rsUsers :: "user_store option"

definition NewMemoryRoleStore :: "user_store option \<Rightarrow> role_store" where
  "NewMemoryRoleStore us = \<lparr>rsRoles = fold (\<lambda>r m. case BuiltinRoleDefinition r of None \<Rightarrow> m
       | Some d \<Rightarrow> gput r (copyRoleDefinition d) m) ValidRoles [], rsUsers = us\<rparr>"

text \<open>Built-in roles first, then by name (names are unique, so the order is determined).\<close>

definition ListRoles :: "role_store \<Rightarrow> role_definition list" where
  "ListRoles s = sort_key (\<lambda>r. if rdIsBuiltin r then 0 else (1 :: nat))
     (sort_key rdName [copyRoleDefinition r. (_, r) \<leftarrow> rsRoles s])"

definition GetRole :: "role_store \<Rightarrow> role \<Rightarrow> go_error + role_definition" where
  "GetRole s name = (case map_of (rsRoles s) (NormalizeRoleName name) of
     None \<Rightarrow> Inl ErrRoleNotFound | Some d \<Rightarrow> Inr (copyRoleDefinition d))"

definition CreateRole ::
    "go_time \<Rightarrow> role_store \<Rightarrow> role_definition option \<Rightarrow> role_store \<times> (go_error + role_definition)" where
  "CreateRole now s rd = (case rd of None \<Rightarrow> (s, Inl ErrInvalidRole)
     | Some d \<Rightarrow>
         let d = d\<lparr>rdName := NormalizeRoleName (rdName d)\<rparr> in
         (case ValidateCustomRoleName (rdName d) of Some e \<Rightarrow> (s, Inl e)
          | None \<Rightarrow> (case ValidatePermissions (rdPermissions d) of Some e \<Rightarrow> (s, Inl e)
            | None \<Rightarrow>
                if map_of (rsRoles s) (rdName d) \<noteq> None then (s, Inl ErrRoleExists)
                else let d = d\<lparr>rdID := rdName d, rdIsBuiltin := False, rdCreatedAt := now, rdUpdatedAt := now\<rparr>
                  in (s\<lparr>rsRoles := gput (rdName d) (copyRoleDefinition d) (rsRoles s)\<rparr>, Inr d))))"

definition UpdateRole ::
    "go_time \<Rightarrow> role_store \<Rightarrow> role \<Rightarrow> string \<Rightarrow> permission list \<Rightarrow> role_store \<times> (go_error + role_definition)" where
  "UpdateRole now s name description ps =
     (let name = NormalizeRoleName name in
      if IsBuiltinRole name then (s, Inl ErrBuiltinRole)
      else case ValidatePermissions ps of Some e \<Rightarrow> (s, Inl e)
      | None \<Rightarrow> (case map_of (rsRoles s) name of None \<Rightarrow> (s, Inl ErrRoleNotFound)
        | Some d \<Rightarrow>
            let d = d\<lparr>rdDescription := trimSpace description, rdPermissions := copyPermissions ps, rdUpdatedAt := now\<rparr>
            in (s\<lparr>rsRoles := gput name d (rsRoles s)\<rparr>, Inr (copyRoleDefinition d))))"

definition RoleAssignedToActiveUsers :: "role_store \<Rightarrow> role \<Rightarrow> bool" where
  "RoleAssignedToActiveUsers s name = (case rsUsers s of None \<Rightarrow> False
     | Some us \<Rightarrow> list_ex (\<lambda>u. userIsActive u \<and> userRole u = name) (userList us))"

definition DeleteRole :: "role_store \<Rightarrow> role \<Rightarrow> role_store \<times> go_error option" where
  "DeleteRole s name =
     (let name = NormalizeRoleName name in
      if IsBuiltinRole name then (s, Some ErrBuiltinRole)
      else if RoleAssignedToActiveUsers s name then (s, Some ErrRoleInUse)
      else if map_of (rsRoles s) name = None then (s, Some ErrRoleNotFound)
      else (s\<lparr>rsRoles := gdel name (rsRoles s)\<rparr>, None))"

subsection \<open>Permission of a role\<close>

definition HasRolePermissionContext :: "role_store option \<Rightarrow> role \<Rightarrow> string \<Rightarrow> string \<Rightarrow> bool" where
  "HasRolePermissionContext provider role resource action =
     (if role = RoleNone then False
      else case (case provider of None \<Rightarrow> None
                 | Some rs \<Rightarrow> (case GetRole rs role of Inl _ \<Rightarrow> None | Inr d \<Rightarrow> Some d)) of
        Some d \<Rightarrow> list_ex (\<lambda>p. permResource p = resource \<and> permAction p = action) (rdPermissions d)
      | None \<Rightarrow> (case map_of rolePermissionCache role of None \<Rightarrow> False
          | Some resourcePerms \<Rightarrow> (case map_of resourcePerms resource of None \<Rightarrow> False
              | Some actionPerms \<Rightarrow> gget False actionPerms action)))"

definition GetRolePermissionsContext :: "role_store option \<Rightarrow> role \<Rightarrow> permission list option" where
  "GetRolePermissionsContext provider role =
     (case (case provider of None \<Rightarrow> None
            | Some rs \<Rightarrow> (case GetRole rs role of Inl _ \<Rightarrow> None | Inr d \<Rightarrow> Some d)) of
        Some d \<Rightarrow> Some (copyPermissions (rdPermissions d))
      | None \<Rightarrow> GetStaticPermissions role)"

definition RoleExists :: "role_store option \<Rightarrow> role \<Rightarrow> bool" where
  "RoleExists provider role =
     (if IsBuiltinRole role then True
      else case provider of None \<Rightarrow> False
        | Some rs \<Rightarrow> (case GetRole rs role of Inl _ \<Rightarrow> False | Inr _ \<Rightarrow> True))"

subsection \<open>Scopes of API keys\<close>

definition ScopeAllowsPermission :: "string \<Rightarrow> string \<Rightarrow> string \<Rightarrow> bool" where
  "ScopeAllowsPermission scope resource action =
     (let scope = trimSpace scope in
      if scope = ''*'' then True
      else case split2 CHR '':'' scope of None \<Rightarrow> False
      | Some (r, a) \<Rightarrow>
          let scopeResource = (if r = ''keys'' then ResourceAPIKeys else r) in
          if scopeResource \<noteq> resource then False
          else if a = ''*'' then True
          else if a = ''read'' then action = ActionRead \<or> action = ActionList
          else if a = ''write'' then action = ActionCreate \<or> action = ActionRead \<or> action = ActionUpdate
              \<or> action = ActionDelete \<or> action = ActionList \<or> action = ActionWrite
          else a = action)"

definition ScopesAllowPermission :: "string list \<Rightarrow> string \<Rightarrow> string \<Rightarrow> bool" where
  "ScopesAllowPermission scopes resource action =
     list_ex (\<lambda>scope. ScopeAllowsPermission scope resource action) scopes"

definition PermissionsFromScopes :: "string list \<Rightarrow> permission list" where
  "PermissionsFromScopes scopes = [perm (pdResource d) (pdAction d). d \<leftarrow> PermissionCatalog,
     ScopesAllowPermission scopes (pdResource d) (pdAction d)]"

record scope_flags =
  hasAdmin :: bool
  hasWrite :: bool
  hasRead :: bool
  hasAudit :: bool

definition managed_resource :: "string \<Rightarrow> bool" where
  "managed_resource r = (r = ''pools'' \<or> r = ''accounts'' \<or> r = ''keys'' \<or> r = ''discovery'')"

definition scope_flag_step :: "string \<Rightarrow> scope_flags \<Rightarrow> scope_flags" where
  "scope_flag_step scope f =
     (let scope = trimSpace scope in
      if scope = ''*'' then f\<lparr>hasAdmin := True\<rparr>
      else if has_suffix scope '':*'' then
        (let resource = trim_suffix scope '':*'' in
         if managed_resource resource then f\<lparr>hasWrite := True\<rparr>
         else if resource = ''audit'' then f\<lparr>hasAudit := True\<rparr> else f)
      else case split2 CHR '':'' scope of None \<Rightarrow> f
      | Some (resource, action) \<Rightarrow>
          if managed_resource resource then
            (if action = ''write'' then f\<lparr>hasWrite := True\<rparr>
             else if action = ''read'' then f\<lparr>hasRead := True\<rparr> else f)
          else if resource = ''audit'' then
            (if action = ''read'' then f\<lparr>hasAudit := True\<rparr> else f)
          else f)"

definition GetRoleFromScopes :: "string list \<Rightarrow> role" where
  "GetRoleFromScopes scopes =
     (let f = fold scope_flag_step scopes \<lparr>hasAdmin = False, hasWrite = False, hasRead = False, hasAudit = False\<rparr>
      in if hasAdmin f then RoleAdmin else if hasWrite f then RoleOperator
         else if hasRead f then RoleViewer else if hasAudit f then RoleAuditor else RoleNone)"

subsection \<open>The context of a request (context.go)\<close>

record auth_ctx =
  ctxRole :: role
  ctxSession :: "session option"
  ctxAPIKey :: "api_key option"
  ctxUser :: "user option"

definition valid_session :: "go_time \<Rightarrow> auth_ctx \<Rightarrow> session option" where
  "valid_session now c = (case ctxSession c of None \<Rightarrow> None | Some x \<Rightarrow> if sessionIsValid now x then Some x else None)"

definition valid_key :: "go_time \<Rightarrow> auth_ctx \<Rightarrow> api_key option" where
  "valid_key now c = (case ctxAPIKey c of None \<Rightarrow> None | Some k \<Rightarrow> if keyIsValid now k then Some k else None)"

definition IsAuthenticated :: "go_time \<Rightarrow> auth_ctx \<Rightarrow> bool" where
  "IsAuthenticated now c = (if valid_key now c \<noteq> None then True else valid_session now c \<noteq> None)"

definition RequireScope :: "auth_ctx \<Rightarrow> string \<Rightarrow> go_error option" where
  "RequireScope c scope = (case ctxAPIKey c of None \<Rightarrow> Some ErrKeyNotFound
     | Some k \<Rightarrow> if \<not> HasScope k scope then Some ErrInsufficientScopes else None)"

definition RequireAnyScope :: "auth_ctx \<Rightarrow> string list \<Rightarrow> go_error option" where
  "RequireAnyScope c scopes = (case ctxAPIKey c of None \<Rightarrow> Some ErrKeyNotFound
     | Some k \<Rightarrow> if \<not> HasAnyScope k scopes then Some ErrInsufficientScopes else None)"

definition GetEffectiveRole :: "go_time \<Rightarrow> auth_ctx \<Rightarrow> role" where
  "GetEffectiveRole now c =
     (if ctxRole c \<noteq> RoleNone then ctxRole c
      else case valid_session now c of Some x \<Rightarrow> sesRole x
      | None \<Rightarrow> (case valid_key now c of Some k \<Rightarrow> GetRoleFromScopes (slice (keyScopes k)) | None \<Rightarrow> RoleNone))"

definition HasPermissionContext ::
    "role_store option \<Rightarrow> go_time \<Rightarrow> auth_ctx \<Rightarrow> role \<Rightarrow> string \<Rightarrow> string \<Rightarrow> bool" where
  "HasPermissionContext provider now c role resource action =
     (if ctxRole c \<noteq> RoleNone then HasRolePermissionContext provider role resource action
      else case valid_session now c of Some _ \<Rightarrow> HasRolePermissionContext provider role resource action
      | None \<Rightarrow> (case valid_key now c of
          Some k \<Rightarrow> ScopesAllowPermission (slice (keyScopes k)) resource action
        | None \<Rightarrow> HasRolePermissionContext provider role resource action))"

definition GetPermissionsContext ::
    "role_store option \<Rightarrow> go_time \<Rightarrow> auth_ctx \<Rightarrow> role \<Rightarrow> permission list option" where
  "GetPermissionsContext provider now c role =
     (if ctxRole c \<noteq> RoleNone then GetRolePermissionsContext provider role
      else case valid_session now c of Some _ \<Rightarrow> GetRolePermissionsContext provider role
      | None \<Rightarrow> (case valid_key now c of
          Some k \<Rightarrow> Some (PermissionsFromScopes (slice (keyScopes k)))
        | None \<Rightarrow> GetRolePermissionsContext provider role))"

definition RequirePermission ::
    "role_store option \<Rightarrow> go_time \<Rightarrow> auth_ctx \<Rightarrow> string \<Rightarrow> string \<Rightarrow> go_error option" where
  "RequirePermission provider now c resource action =
     (let answer = (\<lambda>ok. if ok then None else Some ErrInsufficientScopes) in
      if ctxRole c \<noteq> RoleNone then answer (HasRolePermissionContext provider (ctxRole c) resource action)
      else case valid_session now c of
        Some x \<Rightarrow> answer (HasRolePermissionContext provider (sesRole x) resource action)
      | None \<Rightarrow> (case valid_key now c of
          Some k \<Rightarrow> answer (ScopesAllowPermission (slice (keyScopes k)) resource action)
        | None \<Rightarrow> answer (HasRolePermissionContext provider RoleNone resource action)))"

definition ScopeAllowedByRolePermissions ::
    "role_store option \<Rightarrow> go_time \<Rightarrow> auth_ctx \<Rightarrow> role \<Rightarrow> string \<Rightarrow> bool" where
  "ScopeAllowedByRolePermissions provider now c role scope =
     (let scope = trimSpace scope; has = HasPermissionContext provider now c role in
      if scope = ''*'' then list_all (\<lambda>d. has (pdResource d) (pdAction d)) PermissionCatalog
      else case split2 CHR '':'' scope of None \<Rightarrow> False
      | Some (r, action) \<Rightarrow>
          let resource = (if r = ''keys'' then ResourceAPIKeys else r) in
          if action = ''read'' then has resource ActionRead \<or> has resource ActionList
          else if action = ''write'' \<or> action = ''*'' then
            has resource ActionCreate \<and> has resource ActionRead \<and> has resource ActionUpdate
            \<and> has resource ActionDelete \<and> has resource ActionList
          else has resource action)"

end
