(* ===== verification/RbacProps.thy ===== *)
theory RbacProps
  imports Rbac
begin

section \<open>Properties of access control\<close>

text \<open>
  The permission cache is the role table, the role store keeps the built-in roles, validity of a
  permission is membership in the catalog, and the decisions of \<open>RequirePermission\<close>, of scopes and
  of the roles derived from scopes.
\<close>

subsection \<open>The cache is the table\<close>

definition cached :: "(string, (string, bool) gomap) gomap \<Rightarrow> string \<Rightarrow> string \<Rightarrow> bool" where
  "cached c r a = (case map_of c r of None \<Rightarrow> False | Some m \<Rightarrow> gget False m a)"

lemma cached_cache_add: "cached (cache_add p c) r a \<longleftrightarrow> p = perm r a \<or> cached c r a"
  by (cases p) (auto simp: cached_def cache_add_def gget_def split: option.splits)

lemma cached_fold: "cached (fold cache_add ps c) r a \<longleftrightarrow> perm r a \<in> set ps \<or> cached c r a"
  by (induction ps arbitrary: c) (auto simp: cached_cache_add)

definition static_allows :: "role \<Rightarrow> string \<Rightarrow> string \<Rightarrow> bool" where
  "static_allows role r a = (case GetStaticPermissions role of None \<Rightarrow> False | Some ps \<Rightarrow> perm r a \<in> set ps)"

lemma cache_lookup:
  "(case map_of rolePermissionCache role of None \<Rightarrow> False
     | Some rp \<Rightarrow> (case map_of rp r of None \<Rightarrow> False | Some ap \<Rightarrow> gget False ap a)) = static_allows role r a"
proof -
  have m: "map_of rolePermissionCache role = map_option (\<lambda>ps. fold cache_add ps []) (map_of RolePermissions role)"
    unfolding rolePermissionCache_def
    using map_of_map_vals[of "\<lambda>_ ps. fold cache_add ps []" RolePermissions role] by simp
  have "cached [] r a = False" by (simp add: cached_def)
  then show ?thesis
    unfolding static_allows_def GetStaticPermissions_def m
    using cached_fold[of _ "[]" r a] by (auto simp: cached_def split: option.split)
qed

lemma HasRole_static:
  "HasRolePermissionContext None role r a \<longleftrightarrow> role \<noteq> RoleNone \<and> static_allows role r a"
  by (cases "role = RoleNone") (simp_all add: HasRolePermissionContext_def cache_lookup)

subsection \<open>Reachable role stores\<close>

lemma role_strings:
  "toLower (trimSpace RoleAdmin) = RoleAdmin" "toLower (trimSpace RoleOperator) = RoleOperator"
  "toLower (trimSpace RoleViewer) = RoleViewer" "toLower (trimSpace RoleAuditor) = RoleAuditor"
proof -
  have t: "trimSpace r = r" if "list_all graphic r" for r
  proof (cases "r = []")
    case False
    then show ?thesis using that by (intro trimSpace_graphic) (auto simp: list_all_iff)
  qed simp
  have "list_all graphic RoleAdmin" "list_all graphic RoleOperator" "list_all graphic RoleViewer"
    "list_all graphic RoleAuditor" by code_simp+
  note t = this[THEN t]
  show "toLower (trimSpace RoleAdmin) = RoleAdmin" unfolding t by code_simp
  show "toLower (trimSpace RoleOperator) = RoleOperator" unfolding t by code_simp
  show "toLower (trimSpace RoleViewer) = RoleViewer" unfolding t by code_simp
  show "toLower (trimSpace RoleAuditor) = RoleAuditor" unfolding t by code_simp
qed

lemma NormalizeRoleName_builtin: "IsBuiltinRole r \<Longrightarrow> NormalizeRoleName r = r"
  unfolding IsBuiltinRole_def NormalizeRoleName_def using role_strings by blast

lemma builtin_defined: "IsBuiltinRole r \<Longrightarrow> \<exists>ps. GetStaticPermissions r = Some ps"
proof -
  have "GetStaticPermissions RoleAdmin \<noteq> None" "GetStaticPermissions RoleOperator \<noteq> None"
    "GetStaticPermissions RoleViewer \<noteq> None" "GetStaticPermissions RoleAuditor \<noteq> None" by code_simp+
  then show "IsBuiltinRole r \<Longrightarrow> \<exists>ps. GetStaticPermissions r = Some ps"
    unfolding IsBuiltinRole_def by blast
qed

lemma IsBuiltinRole_iff: "IsBuiltinRole r \<longleftrightarrow> r \<in> set ValidRoles"
  by (simp add: IsBuiltinRole_def ValidRoles_def)

definition perm_list :: "permission list" where
  "perm_list = map (\<lambda>d. perm (pdResource d) (pdAction d)) PermissionCatalog"

text \<open>The id of a catalog entry is its permission's string, with one colon.\<close>

lemma catalog_ids:
  "list_all (\<lambda>d. pdID d = permString (perm (pdResource d) (pdAction d))
     \<and> CHR '':'' \<notin> set (pdResource d) \<and> CHR '':'' \<notin> set (pdAction d)) PermissionCatalog"
  by code_simp

lemma colon_split:
  assumes "r @ CHR '':'' # a = x @ CHR '':'' # y" "CHR '':'' \<notin> set x" "CHR '':'' \<notin> set y"
  shows "r = x \<and> a = y"
proof -
  have "length (filter ((=) CHR '':'') (r @ CHR '':'' # a)) = length (filter ((=) CHR '':'') (x @ CHR '':'' # y))"
    unfolding assms(1) ..
  moreover have "filter ((=) CHR '':'') x = []" "filter ((=) CHR '':'') y = []"
    using assms(2,3) by (auto simp: filter_empty_conv)
  ultimately have "length (filter ((=) CHR '':'') r) = 0" by simp
  then have "CHR '':'' \<notin> set r" by (auto simp: filter_empty_conv)
  then have "split2 CHR '':'' (r @ CHR '':'' # a) = Some (r, a)" by (rule split2_append)
  moreover have "split2 CHR '':'' (x @ CHR '':'' # y) = Some (x, y)" using assms(2) by (rule split2_append)
  ultimately show ?thesis unfolding assms(1) by simp
qed

lemma IsValidPermission_iff: "IsValidPermission p \<longleftrightarrow> p \<in> set perm_list"
proof
  assume "IsValidPermission p"
  then obtain d where d: "d \<in> set PermissionCatalog" "pdID d = permString p"
    by (auto simp: IsValidPermission_def list_ex_iff)
  have "pdID d = permString (perm (pdResource d) (pdAction d))" "CHR '':'' \<notin> set (pdResource d)"
    "CHR '':'' \<notin> set (pdAction d)"
    using catalog_ids d(1) unfolding list_all_iff by blast+
  with d(2) have "p = perm (pdResource d) (pdAction d)"
    using colon_split[of "permResource p" "permAction p" "pdResource d" "pdAction d"]
    by (cases p) (simp add: permString_def)
  with d(1) show "p \<in> set perm_list" by (auto simp: perm_list_def)
next
  assume "p \<in> set perm_list"
  then obtain d where d: "d \<in> set PermissionCatalog" "p = perm (pdResource d) (pdAction d)"
    by (auto simp: perm_list_def)
  then show "IsValidPermission p"
    using catalog_ids unfolding IsValidPermission_def list_ex_iff list_all_iff by blast
qed

lemma validate_perms_None: "validate_perms seen ps = None \<longleftrightarrow> (\<forall>p \<in> set ps. IsValidPermission p)"
proof (induction ps arbitrary: seen)
  case (Cons p ps)
  then show ?case by (cases "IsValidPermission p"; cases "permString p \<in> set seen") simp_all
qed simp

definition role_inv :: "role_store \<Rightarrow> bool" where
  "role_inv s \<longleftrightarrow> gmap_ok (rsRoles s)
     \<and> (\<forall>r. IsBuiltinRole r \<longrightarrow> map_of (rsRoles s) r = BuiltinRoleDefinition r)
     \<and> (\<forall>r d. map_of (rsRoles s) r = Some d \<longrightarrow> \<not> IsBuiltinRole r \<longrightarrow>
          rdName d = r \<and> \<not> rdIsBuiltin d \<and> roleNamePattern r \<and> set (rdPermissions d) \<subseteq> set perm_list)"

lemma role_invD:
  assumes "role_inv s"
  shows "gmap_ok (rsRoles s)" "IsBuiltinRole r \<Longrightarrow> map_of (rsRoles s) r = BuiltinRoleDefinition r"
    "map_of (rsRoles s) r = Some d \<Longrightarrow> \<not> IsBuiltinRole r \<Longrightarrow>
       rdName d = r \<and> \<not> rdIsBuiltin d \<and> roleNamePattern r \<and> set (rdPermissions d) \<subseteq> set perm_list"
  using assms unfolding role_inv_def by blast+

lemma role_invI:
  assumes "gmap_ok (rsRoles s)" "\<And>r. IsBuiltinRole r \<Longrightarrow> map_of (rsRoles s) r = BuiltinRoleDefinition r"
    "\<And>r d. map_of (rsRoles s) r = Some d \<Longrightarrow> \<not> IsBuiltinRole r \<Longrightarrow>
       rdName d = r \<and> \<not> rdIsBuiltin d \<and> roleNamePattern r \<and> set (rdPermissions d) \<subseteq> set perm_list"
  shows "role_inv s"
  using assms unfolding role_inv_def by blast

lemma new_roles:
  "map_of (rsRoles (NewMemoryRoleStore us)) r = (if IsBuiltinRole r then BuiltinRoleDefinition r else None)"
proof -
  have f: "map_of (fold (\<lambda>r m. case BuiltinRoleDefinition r of None \<Rightarrow> m | Some d \<Rightarrow> gput r (copyRoleDefinition d) m) rs m0) r =
      (if r \<in> set rs \<and> BuiltinRoleDefinition r \<noteq> None then BuiltinRoleDefinition r else map_of m0 r)" for rs m0
    by (induction rs arbitrary: m0) (auto split: option.split)
  have "IsBuiltinRole r \<Longrightarrow> BuiltinRoleDefinition r \<noteq> None"
    using builtin_defined[of r] by (auto simp: BuiltinRoleDefinition_def)
  then show ?thesis by (simp add: NewMemoryRoleStore_def f IsBuiltinRole_iff)
qed

lemma role_inv_new: "role_inv (NewMemoryRoleStore us)"
proof (rule role_invI)
  have "gmap_ok (fold (\<lambda>r m. case BuiltinRoleDefinition r of None \<Rightarrow> m | Some d \<Rightarrow> gput r (copyRoleDefinition d) m) rs m0)"
    if "gmap_ok m0" for rs m0
    using that by (induction rs arbitrary: m0) (auto split: option.split)
  then show "gmap_ok (rsRoles (NewMemoryRoleStore us))" by (simp add: NewMemoryRoleStore_def)
qed (simp_all add: new_roles)

inductive role_step :: "role_store \<Rightarrow> role_store \<Rightarrow> bool" where
  create: "role_step s (fst (CreateRole now s rd))"
| update: "role_step s (fst (UpdateRole now s name desc ps))"
| delete: "role_step s (fst (DeleteRole s name))"
| users: "role_step s (s\<lparr>rsUsers := us\<rparr>)"

inductive role_reachable :: "role_store \<Rightarrow> bool" where
  init: "role_reachable (NewMemoryRoleStore us)"
| step: "role_reachable s \<Longrightarrow> role_step s t \<Longrightarrow> role_reachable t"

lemma CreateRole_cases:
  obtains "fst (CreateRole now s rd) = s"
  | d n where "fst (CreateRole now s rd) = s\<lparr>rsRoles := gput n d (rsRoles s)\<rparr>" "rdName d = n" "\<not> rdIsBuiltin d"
      "\<not> IsBuiltinRole n" "roleNamePattern n" "set (rdPermissions d) \<subseteq> set perm_list" "map_of (rsRoles s) n = None"
proof (cases rd)
  case (Some d0)
  define n where "n = NormalizeRoleName (rdName d0)"
  show ?thesis
  proof (cases "ValidateCustomRoleName n = None \<and> ValidatePermissions (rdPermissions d0) = None \<and> map_of (rsRoles s) n = None")
    case True
    have "\<not> IsBuiltinRole n" "roleNamePattern n"
      using True by (auto simp: ValidateCustomRoleName_def split: if_splits)
    moreover have "set (rdPermissions d0) \<subseteq> set perm_list"
      using True by (auto simp: ValidatePermissions_def validate_perms_None IsValidPermission_iff)
    ultimately show ?thesis using True Some
      by (intro that(2)[of n "d0\<lparr>rdName := n, rdID := n, rdIsBuiltin := False, rdCreatedAt := now, rdUpdatedAt := now\<rparr>"])
        (simp_all add: CreateRole_def n_def[symmetric] Let_def)
  next
    case False
    then show ?thesis using Some that(1)
      by (auto simp: CreateRole_def n_def[symmetric] Let_def split: option.splits)
  qed
qed (use that(1) in \<open>simp add: CreateRole_def\<close>)

lemma role_step_inv: "role_step s t \<Longrightarrow> role_inv s \<Longrightarrow> role_inv t"
proof (induction rule: role_step.induct)
  case (create s now rd)
  show ?case
  proof (cases rule: CreateRole_cases[of now s rd])
    case 1 then show ?thesis using create by simp
  next
    case (2 d n)
    show ?thesis unfolding 2(1)
      by (rule role_invI) (use role_invD[OF create] 2 in \<open>auto split: if_splits\<close>)
  qed
next
  case (update s now name desc ps)
  let ?n = "NormalizeRoleName name"
  show ?case
  proof (cases "IsBuiltinRole ?n \<or> ValidatePermissions ps \<noteq> None \<or> map_of (rsRoles s) ?n = None")
    case True
    then have "fst (UpdateRole now s name desc ps) = s" by (auto simp: UpdateRole_def Let_def split: option.split)
    then show ?thesis using update by simp
  next
    case False
    then obtain d where d: "map_of (rsRoles s) ?n = Some d" by blast
    have ps: "set ps \<subseteq> set perm_list"
      using False by (auto simp: ValidatePermissions_def validate_perms_None IsValidPermission_iff)
    have t: "fst (UpdateRole now s name desc ps) = s\<lparr>rsRoles := gput ?n
        (d\<lparr>rdDescription := trimSpace desc, rdPermissions := ps, rdUpdatedAt := now\<rparr>) (rsRoles s)\<rparr>"
      using False d by (auto simp: UpdateRole_def Let_def)
    show ?thesis unfolding t
      by (rule role_invI) (use role_invD[OF update] False d ps in \<open>auto split: if_splits\<close>)
  qed
next
  case (delete s name)
  have "role_inv (s\<lparr>rsRoles := gdel n (rsRoles s)\<rparr>)" if "\<not> IsBuiltinRole n" for n
    by (rule role_invI) (use role_invD[OF delete] that in \<open>auto split: if_splits\<close>)
  then show ?case using delete by (auto simp: DeleteRole_def Let_def)
next
  case (users s us)
  then show ?case by (simp add: role_inv_def)
qed

lemma role_reachable_inv: "role_reachable s \<Longrightarrow> role_inv s"
  by (induction rule: role_reachable.induct) (auto intro: role_inv_new role_step_inv)

lemma HasRole_builtin:
  assumes "role_reachable rs" "IsBuiltinRole r"
  shows "HasRolePermissionContext (Some rs) r res act = static_allows r res act"
proof -
  obtain ps where ps: "GetStaticPermissions r = Some ps" using builtin_defined[OF assms(2)] by blast
  have "r \<noteq> RoleNone" using assms(2) unfolding IsBuiltinRole_def role_defs by auto
  moreover have "GetRole rs r = Inr (the (BuiltinRoleDefinition r))"
    using role_invD(2)[OF role_reachable_inv[OF assms(1)] assms(2)] ps
    by (simp add: GetRole_def NormalizeRoleName_builtin[OF assms(2)] BuiltinRoleDefinition_def)
  ultimately show ?thesis using ps
    by (simp add: HasRolePermissionContext_def BuiltinRoleDefinition_def static_allows_def list_ex_iff)
      (metis permission.collapse permission.sel)
qed

subsection \<open>Scopes against roles\<close>

text \<open>What a scope grants within the catalog, once its text is parsed.\<close>

lemma scope_within_role:
  assumes scope: "ScopeAllowedByRolePermissions provider now c role scope"
    and d: "d \<in> set PermissionCatalog" "ScopeAllowsPermission scope (pdResource d) (pdAction d)"
    and read: "\<And>r. has r ActionList \<Longrightarrow> has r ActionRead"
    and list_all': "\<And>r. has r ActionRead \<Longrightarrow> perm r ActionList \<in> set perm_list \<Longrightarrow> has r ActionList"
    and writes: "\<And>r. has r ActionCreate \<Longrightarrow> perm r ActionWrite \<in> set perm_list \<Longrightarrow> has r ActionWrite"
    and has: "has = HasPermissionContext provider now c role"
  shows "has (pdResource d) (pdAction d)"
proof (cases "trimSpace scope = ''*''")
  case True
  then show ?thesis using scope d(1)
    by (simp add: ScopeAllowedByRolePermissions_def Let_def has list_all_iff)
next
  case False
  have p: "perm (pdResource d) (pdAction d) \<in> set perm_list" using d(1) by (auto simp: perm_list_def)
  obtain r a where ra: "split2 CHR '':'' (trimSpace scope) = Some (r, a)"
    using scope False by (auto simp: ScopeAllowedByRolePermissions_def Let_def split: option.splits)
  define res where "res = (if r = ''keys'' then ResourceAPIKeys else r)"
  have S: "if a = ''read'' then has res ActionRead \<or> has res ActionList
      else if a = ''write'' \<or> a = ''*'' then has res ActionCreate \<and> has res ActionRead \<and> has res ActionUpdate
        \<and> has res ActionDelete \<and> has res ActionList else has res a"
    using scope False ra by (simp add: ScopeAllowedByRolePermissions_def Let_def has res_def)
  have A: "res = pdResource d" "a = ''*'' \<or> (if a = ''read'' then pdAction d = ActionRead \<or> pdAction d = ActionList
      else if a = ''write'' then pdAction d \<in> {ActionCreate, ActionRead, ActionUpdate, ActionDelete, ActionList, ActionWrite}
      else a = pdAction d)"
    using d(2) False ra by (auto simp: ScopeAllowsPermission_def Let_def res_def split: if_splits)
  have act: "pdAction d \<in> {ActionCreate, ActionRead, ActionUpdate, ActionDelete, ActionList, ActionWrite}"
  proof -
    have "list_all (\<lambda>d. List.member [ActionCreate, ActionRead, ActionUpdate, ActionDelete, ActionList, ActionWrite] (pdAction d)) PermissionCatalog"
      by code_simp
    then show ?thesis using d(1) by (auto simp: list_all_iff)
  qed
  consider "a = ''read''" | "a = ''write'' \<or> a = ''*''" "a \<noteq> ''read''" | "a \<noteq> ''read''" "a \<noteq> ''write''" "a \<noteq> ''*''" by blast
  then show ?thesis
  proof cases
    case 1
    then have "has res ActionRead" using S read by auto
    moreover have "pdAction d = ActionRead \<or> pdAction d = ActionList" using A(2) 1 by auto
    ultimately show ?thesis using list_all' p A(1) by auto
  next
    case 2
    then have "has res ActionCreate" "has res ActionRead" "has res ActionUpdate" "has res ActionDelete" "has res ActionList"
      using S by auto
    then show ?thesis using act writes p A(1) by auto
  next
    case 3
    then show ?thesis using S A by auto
  qed
qed

lemma static_pairs:
  assumes "IsBuiltinRole role"
  shows "static_allows role r ActionList \<Longrightarrow> static_allows role r ActionRead"
    and "static_allows role r ActionRead \<Longrightarrow> perm r ActionList \<in> set perm_list \<Longrightarrow> static_allows role r ActionList"
    and "static_allows role r ActionCreate \<Longrightarrow> perm r ActionWrite \<in> set perm_list \<Longrightarrow> static_allows role r ActionWrite"
proof -
  define ps where "ps = the (GetStaticPermissions role)"
  have "GetStaticPermissions role \<noteq> None" using builtin_defined[OF assms] by blast
  then have sa: "static_allows role r a \<longleftrightarrow> perm r a \<in> set ps" for r a
    by (auto simp: static_allows_def ps_def)
  have all: "list_all (\<lambda>role. let ps = the (GetStaticPermissions role) in list_all (\<lambda>p.
        (permAction p = ActionList \<longrightarrow> perm (permResource p) ActionRead \<in> set ps)
      \<and> (permAction p = ActionRead \<longrightarrow> perm (permResource p) ActionList \<in> set perm_list \<longrightarrow> perm (permResource p) ActionList \<in> set ps)
      \<and> (permAction p = ActionCreate \<longrightarrow> perm (permResource p) ActionWrite \<notin> set perm_list)) ps) ValidRoles"
    by code_simp
  then have "list_all (\<lambda>p.
        (permAction p = ActionList \<longrightarrow> perm (permResource p) ActionRead \<in> set ps)
      \<and> (permAction p = ActionRead \<longrightarrow> perm (permResource p) ActionList \<in> set perm_list \<longrightarrow> perm (permResource p) ActionList \<in> set ps)
      \<and> (permAction p = ActionCreate \<longrightarrow> perm (permResource p) ActionWrite \<notin> set perm_list)) ps"
    using assms unfolding IsBuiltinRole_iff list_all_iff[of _ ValidRoles] Let_def ps_def by blast
  then have q: "(permAction p = ActionList \<longrightarrow> perm (permResource p) ActionRead \<in> set ps)
      \<and> (permAction p = ActionRead \<longrightarrow> perm (permResource p) ActionList \<in> set perm_list \<longrightarrow> perm (permResource p) ActionList \<in> set ps)
      \<and> (permAction p = ActionCreate \<longrightarrow> perm (permResource p) ActionWrite \<notin> set perm_list)" if "p \<in> set ps" for p
    using that unfolding list_all_iff by blast
  show "static_allows role r ActionList \<Longrightarrow> static_allows role r ActionRead"
    using q[of "perm r ActionList"] by (simp add: sa)
  show "static_allows role r ActionRead \<Longrightarrow> perm r ActionList \<in> set perm_list \<Longrightarrow> static_allows role r ActionList"
    using q[of "perm r ActionRead"] by (simp add: sa)
  show "static_allows role r ActionCreate \<Longrightarrow> perm r ActionWrite \<in> set perm_list \<Longrightarrow> static_allows role r ActionWrite"
    using q[of "perm r ActionCreate"] by (simp add: sa)
qed

text \<open>The role derived from scopes is the highest level that one of the scopes gives.\<close>

definition scope_level :: "string \<Rightarrow> int" where
  "scope_level scope = RoleLevel (GetRoleFromScopes [scope])"

definition no_flags :: scope_flags where
  "no_flags = \<lparr>hasAdmin = False, hasWrite = False, hasRead = False, hasAudit = False\<rparr>"

lemma flag_fold:
  "(\<And>s f. has (scope_flag_step s f) \<longleftrightarrow> has f \<or> g s) \<Longrightarrow>
     has (fold scope_flag_step ss f) \<longleftrightarrow> has f \<or> (\<exists>s \<in> set ss. g s)"
  by (induction ss arbitrary: f) auto

lemma flag_step:
  "hasAdmin (scope_flag_step s f) \<longleftrightarrow> hasAdmin f \<or> hasAdmin (scope_flag_step s no_flags)"
  "hasWrite (scope_flag_step s f) \<longleftrightarrow> hasWrite f \<or> hasWrite (scope_flag_step s no_flags)"
  "hasRead (scope_flag_step s f) \<longleftrightarrow> hasRead f \<or> hasRead (scope_flag_step s no_flags)"
  "hasAudit (scope_flag_step s f) \<longleftrightarrow> hasAudit f \<or> hasAudit (scope_flag_step s no_flags)"
  unfolding scope_flag_step_def Let_def no_flags_def by (simp_all split: option.split prod.split)

lemmas scope_flags_fold = flag_fold[where has = hasAdmin, OF flag_step(1)]
  flag_fold[where has = hasWrite, OF flag_step(2)] flag_fold[where has = hasRead, OF flag_step(3)]
  flag_fold[where has = hasAudit, OF flag_step(4)]

lemma no_flags_sel [simp]: "\<not> hasAdmin no_flags" "\<not> hasWrite no_flags" "\<not> hasRead no_flags" "\<not> hasAudit no_flags"
  by (simp_all add: no_flags_def)

definition flags_level :: "scope_flags \<Rightarrow> int" where
  "flags_level f = (if hasAdmin f then 4 else if hasWrite f then 3 else if hasRead f then 2 else if hasAudit f then 1 else 0)"

lemma RoleLevel_scopes: "RoleLevel (GetRoleFromScopes ss) = flags_level (fold scope_flag_step ss no_flags)"
  by (simp add: GetRoleFromScopes_def Let_def flags_level_def no_flags_def[symmetric] RoleLevel_def role_defs)

lemma scope_level_max:
  "RoleLevel (GetRoleFromScopes ss) = Max (insert 0 (scope_level ` set ss))"
proof -
  have l: "scope_level s = flags_level (scope_flag_step s no_flags)" for s
    by (simp add: scope_level_def RoleLevel_scopes)
  have ge: "scope_level s \<le> RoleLevel (GetRoleFromScopes ss)" if "s \<in> set ss" for s
    using that by (auto simp: l RoleLevel_scopes flags_level_def scope_flags_fold)
  have "RoleLevel (GetRoleFromScopes ss) \<in> insert 0 (scope_level ` set ss)"
  proof (cases "RoleLevel (GetRoleFromScopes ss) = 0")
    case False
    then obtain s where "s \<in> set ss" "flags_level (scope_flag_step s no_flags) \<ge> RoleLevel (GetRoleFromScopes ss)"
      by (auto simp: RoleLevel_scopes flags_level_def scope_flags_fold split: if_splits)
    then have "scope_level s = RoleLevel (GetRoleFromScopes ss)" using ge[of s] l by simp
    then show ?thesis using \<open>s \<in> set ss\<close> by force
  qed simp
  moreover have "0 \<le> RoleLevel (GetRoleFromScopes ss)" by (simp add: RoleLevel_scopes flags_level_def)
  ultimately show ?thesis using ge by (intro Max_eqI[symmetric]) auto
qed

subsection \<open>The properties\<close>

lemma static_perm_list: "static_allows role r a \<Longrightarrow> perm r a \<in> set perm_list"
proof -
  have "list_all (\<lambda>(_, ps). list_all (\<lambda>p. List.member perm_list p) ps) RolePermissions" by code_simp
  then have "ps \<in> snd ` set RolePermissions \<Longrightarrow> p \<in> set ps \<Longrightarrow> p \<in> set perm_list" for ps p
    by (auto simp: list_all_iff)
  then show "static_allows role r a \<Longrightarrow> perm r a \<in> set perm_list"
    by (force simp: static_allows_def GetStaticPermissions_def split: option.splits dest: map_of_SomeD)
qed

lemma admin_all: "perm r a \<in> set perm_list \<Longrightarrow> static_allows RoleAdmin r a"
proof -
  have "list_all (\<lambda>p. static_allows RoleAdmin (permResource p) (permAction p)) perm_list" by code_simp
  then show "perm r a \<in> set perm_list \<Longrightarrow> static_allows RoleAdmin r a"
    unfolding list_all_iff by force
qed

text \<open>C24: permission checks agree and deny by default. \<open>RequirePermission\<close> passes exactly when
  \<open>HasPermissionContext\<close> passes for the effective role of the same context, whatever combination
  of explicit role, session and API key the request carries; and it never passes for a request
  without an explicit role that has neither a valid session nor a valid key.\<close>

theorem RequirePermission_iff:
  "(RequirePermission provider now c res act = None \<longleftrightarrow>
      HasPermissionContext provider now c (GetEffectiveRole now c) res act)
   \<and> (RequirePermission provider now c res act = None \<longrightarrow> ctxRole c \<noteq> RoleNone \<or> IsAuthenticated now c)"
proof -
  have "\<not> HasRolePermissionContext provider RoleNone res act" by (simp add: HasRolePermissionContext_def)
  then show ?thesis
    by (auto simp: RequirePermission_def HasPermissionContext_def GetEffectiveRole_def IsAuthenticated_def Let_def
        split: option.splits)
qed

definition demo_ctx :: "role \<Rightarrow> auth_ctx" where
  "demo_ctx r = \<lparr>ctxRole = r, ctxSession = None, ctxAPIKey = None, ctxUser = None\<rparr>"

theorem RequirePermission_iff_witness:
  "HasPermissionContext None 0 (demo_ctx RoleViewer) (GetEffectiveRole 0 (demo_ctx RoleViewer)) ResourcePools ActionRead"
proof -
  have "RequirePermission None 0 (demo_ctx RoleViewer) ResourcePools ActionRead = None" by code_simp
  then show ?thesis using RequirePermission_iff by blast
qed

text \<open>C29: built-in roles cannot be changed and custom roles stay in the catalog. In every role store
  reachable by \<open>CreateRole\<close>, \<open>UpdateRole\<close> and \<open>DeleteRole\<close> (in any order and with any users), a built-in
  role allows exactly the permissions of its row of \<open>RolePermissions\<close>, the administrator the whole
  catalog, and any other role that allows something is stored under a valid name that is not
  built-in or is unknown to the store, and allows only permissions of the catalog.\<close>

theorem role_store_permissions:
  assumes "role_reachable rs"
  shows "(\<forall>r res act. IsBuiltinRole r \<longrightarrow> HasRolePermissionContext (Some rs) r res act = static_allows r res act)
    \<and> (\<forall>res act. HasRolePermissionContext (Some rs) RoleAdmin res act \<longleftrightarrow> IsValidPermission (perm res act))
    \<and> (\<forall>r res act. HasRolePermissionContext (Some rs) r res act \<longrightarrow> IsValidPermission (perm res act))
    \<and> (\<forall>r d. GetRole rs r = Inr d \<longrightarrow> \<not> IsBuiltinRole (NormalizeRoleName r) \<longrightarrow> roleNamePattern (rdName d) \<and> \<not> rdIsBuiltin d)"
proof -
  have inv: "role_inv rs" using assms by (rule role_reachable_inv)
  have builtin: "HasRolePermissionContext (Some rs) r res act = static_allows r res act" if "IsBuiltinRole r" for r res act
    using HasRole_builtin[OF assms that] .
  have valid: "IsValidPermission (perm res act)" if h: "HasRolePermissionContext (Some rs) r res act" for r res act
  proof (cases "GetRole rs r")
    case (Inl e)
    then have "static_allows r res act" using h unfolding HasRolePermissionContext_def by (auto simp: cache_lookup split: if_splits)
    then show ?thesis by (simp add: IsValidPermission_iff static_perm_list)
  next
    case (Inr d)
    then have d: "map_of (rsRoles rs) (NormalizeRoleName r) = Some d"
      by (simp add: GetRole_def split: option.splits)
    have p: "perm res act \<in> set (rdPermissions d)"
      using h Inr unfolding HasRolePermissionContext_def list_ex_iff
      by (auto split: if_splits)
    show ?thesis
    proof (cases "IsBuiltinRole (NormalizeRoleName r)")
      case True
      then have "GetStaticPermissions (NormalizeRoleName r) = Some (rdPermissions d)"
        using role_invD(2)[OF inv True] d by (auto simp: BuiltinRoleDefinition_def split: option.splits)
      then have "static_allows (NormalizeRoleName r) res act" using p by (simp add: static_allows_def)
      then show ?thesis by (simp add: IsValidPermission_iff static_perm_list)
    next
      case False
      then show ?thesis using role_invD(3)[OF inv d] p by (auto simp: IsValidPermission_iff)
    qed
  qed
  have "IsBuiltinRole RoleAdmin" by (simp add: IsBuiltinRole_def)
  then have "HasRolePermissionContext (Some rs) RoleAdmin res act \<longleftrightarrow> IsValidPermission (perm res act)" for res act
    using builtin[of RoleAdmin res act] admin_all static_perm_list by (auto simp: IsValidPermission_iff)
  moreover have "roleNamePattern (rdName d) \<and> \<not> rdIsBuiltin d"
    if "GetRole rs r = Inr d" "\<not> IsBuiltinRole (NormalizeRoleName r)" for r d
    using role_invD(3)[OF inv _ that(2)] that(1) by (auto simp: GetRole_def split: option.splits)
  ultimately show ?thesis using builtin valid by blast
qed

definition list_role :: role_definition where
  "list_role = \<lparr>rdID = [], rdName = ''lister'', rdDescription = [], rdIsBuiltin = False,
     rdPermissions = [perm ResourcePools ActionList, perm ResourceAPIKeys ActionCreate], rdCreatedAt = 0, rdUpdatedAt = 0\<rparr>"

definition demo_roles :: role_store where
  "demo_roles = fst (CreateRole 1 (NewMemoryRoleStore None) (Some list_role))"

lemma demo_roles_reachable: "role_reachable demo_roles"
  unfolding demo_roles_def by (rule role_reachable.step[OF role_reachable.init role_step.create])

theorem role_store_permissions_witness:
  "HasRolePermissionContext (Some demo_roles) RoleAdmin ResourceUsers ActionDelete
   \<and> \<not> HasRolePermissionContext (Some demo_roles) RoleViewer ResourceUsers ActionDelete"
proof -
  have "IsValidPermission (perm ResourceUsers ActionDelete)" "\<not> static_allows RoleViewer ResourceUsers ActionDelete"
    "IsBuiltinRole RoleViewer" by code_simp+
  then show ?thesis using role_store_permissions[OF demo_roles_reachable] by blast
qed

text \<open>C30: an API key never gets more than the built-in role that issues it. In every reachable role
  store, when a caller with an explicit built-in role or a valid session is allowed to issue a key with some scope
  (\<open>ScopeAllowedByRolePermissions\<close>), every permission of the catalog that the scope grants is one
  the role has.\<close>

theorem key_scopes_within_builtin_role:
  assumes "role_reachable rs" "IsBuiltinRole role" "ctxRole c \<noteq> RoleNone \<or> valid_session now c \<noteq> None"
    "ScopeAllowedByRolePermissions (Some rs) now c role scope"
    "IsValidPermission (perm res act)" "ScopeAllowsPermission scope res act"
  shows "HasRolePermissionContext (Some rs) role res act"
proof -
  have has: "HasPermissionContext (Some rs) now c role = static_allows role"
    using assms(3) HasRole_builtin[OF assms(1,2)] by (intro ext) (auto simp: HasPermissionContext_def)
  obtain d where d: "d \<in> set PermissionCatalog" "res = pdResource d" "act = pdAction d"
    using assms(5) by (auto simp: IsValidPermission_iff perm_list_def)
  have "static_allows role (pdResource d) (pdAction d)"
    by (rule scope_within_role[OF assms(4) d(1) _ _ _ _ has[symmetric]])
      (use assms(6) d static_pairs[OF assms(2)] in \<open>auto\<close>)
  then show ?thesis using HasRole_builtin[OF assms(1,2)] d by simp
qed

theorem key_scopes_within_builtin_role_witness:
  "HasRolePermissionContext (Some demo_roles) RoleViewer ResourcePools ActionList"
proof -
  have s: "trimSpace ''pools:read'' = ''pools:read''"
    by (rule trimSpace_graphic) (simp_all add: graphic_def)
  have has: "HasRolePermissionContext (Some demo_roles) RoleViewer ResourcePools ActionRead"
    unfolding HasRole_builtin[OF demo_roles_reachable, of RoleViewer, unfolded IsBuiltinRole_def, simplified] by code_simp
  have "ScopeAllowedByRolePermissions (Some demo_roles) 0 (demo_ctx RoleViewer) RoleViewer ''pools:read''"
    unfolding ScopeAllowedByRolePermissions_def s Let_def
    using has by (simp add: HasPermissionContext_def demo_ctx_def role_defs ResourcePools_def)
  moreover have "ScopeAllowsPermission ''pools:read'' ResourcePools ActionList"
    unfolding ScopeAllowsPermission_def s Let_def by code_simp
  moreover have "IsValidPermission (perm ResourcePools ActionList)" "IsBuiltinRole RoleViewer" by code_simp+
  moreover have "ctxRole (demo_ctx RoleViewer) \<noteq> RoleNone" by code_simp
  ultimately show ?thesis using key_scopes_within_builtin_role[OF demo_roles_reachable] by blast
qed

text \<open>A custom role can issue a key that exceeds it. With a custom role that may list pools and
  create API keys but not read pools, the check allows the scope \<open>pools:read\<close>, and that scope grants
  reading pools, which the role itself does not have.\<close>

theorem custom_role_key_escalation:
  "role_reachable demo_roles
   \<and> ScopeAllowedByRolePermissions (Some demo_roles) 0 (demo_ctx ''lister'') ''lister'' ''pools:read''
   \<and> ScopeAllowsPermission ''pools:read'' ResourcePools ActionRead
   \<and> \<not> HasPermissionContext (Some demo_roles) 0 (demo_ctx ''lister'') ''lister'' ResourcePools ActionRead"
proof -
  have s: "trimSpace ''pools:read'' = ''pools:read''" "trimSpace ''lister'' = ''lister''"
    by (rule trimSpace_graphic, simp_all add: graphic_def)+
  have n: "NormalizeRoleName ''lister'' = ''lister''" unfolding NormalizeRoleName_def s by code_simp
  have v: "ValidateCustomRoleName ''lister'' = None" "ValidatePermissions (rdPermissions list_role) = None" by code_simp+
  have g: "map_of (rsRoles (NewMemoryRoleStore None)) ''lister'' = None" unfolding new_roles by code_simp
  have name: "rdName list_role = ''lister''" by (simp add: list_role_def)
  have "GetRole demo_roles ''lister'' = Inr (list_role\<lparr>rdID := ''lister'', rdCreatedAt := 1, rdUpdatedAt := 1\<rparr>)"
    unfolding GetRole_def n demo_roles_def CreateRole_def
    by (simp add: name n v g Let_def) (simp add: list_role_def)
  then have has: "HasRolePermissionContext (Some demo_roles) ''lister'' r a \<longleftrightarrow>
      perm r a \<in> set [perm ResourcePools ActionList, perm ResourceAPIKeys ActionCreate]" for r a
    by (auto simp: HasRolePermissionContext_def list_role_def RoleNone_def)
  have ctx: "HasPermissionContext (Some demo_roles) 0 (demo_ctx ''lister'') ''lister'' r a \<longleftrightarrow>
      HasRolePermissionContext (Some demo_roles) ''lister'' r a" for r a
    by (simp add: HasPermissionContext_def demo_ctx_def RoleNone_def)
  show ?thesis
    using demo_roles_reachable
    by (simp add: ScopeAllowedByRolePermissions_def ScopeAllowsPermission_def s Let_def ctx has resource_defs action_defs)
qed

text \<open>The role derived from an API key's scopes is the highest one. The level of
  \<open>GetRoleFromScopes\<close> is the maximum of the levels the single scopes give (0 for none), so order and repetition of
  scopes do not matter and adding a scope never lowers the role.\<close>

theorem role_from_scopes_is_highest:
  "RoleLevel (GetRoleFromScopes scopes) = Max (insert 0 ((\<lambda>s. RoleLevel (GetRoleFromScopes [s])) ` set scopes))"
  using scope_level_max[of scopes] by (simp add: scope_level_def[abs_def])

end
