(* ===== verification/Planning.thy ===== *)
theory Planning
  imports StoreProps
begin

section \<open>Network analysis (internal/planning)\<close>

text \<open>
  Gap analysis, fragmentation, compliance and the combined report of \<open>AnalysisService\<close>, reading
  the in-memory store. The outer option of a result is \<open>None\<close> when the Go code panics (an IPv6
  pool reaching \<open>As4\<close>) or does not return; the inner sum is the error result. Address counts are
  64-bit words as in the code. A float64 operation is the exact rational operation followed by
  the argument \<open>fl\<close>, the rounding to float64. Rendered message texts are left out.
\<close>

type_synonym rounding = "rat \<Rightarrow> rat"

subsection \<open>Free ranges (gaps.go)\<close>

fun merge_from :: "interval \<Rightarrow> interval list \<Rightarrow> interval list" where
  "merge_from last' [] = [last']"
| "merge_from last' (c # cs) =
     (if fst c \<le> snd last' + 1
      then merge_from (if snd c > snd last' then (fst last', snd c) else last') cs
      else last' # merge_from c cs)"

text \<open>The walk over the merged intervals, with the gap after the last one at its end; the loop
  stops when the cursor wraps to 0, and then there is no final gap.\<close>

fun walk_gaps :: "32 word \<Rightarrow> 32 word \<Rightarrow> 32 word \<Rightarrow> interval list \<Rightarrow> interval list" where
  "walk_gaps parentStart parentEnd cursor [] =
     (if cursor \<noteq> 0 \<and> cursor \<le> parentEnd then [(cursor, parentEnd)] else [])"
| "walk_gaps parentStart parentEnd cursor (m # ms) =
     (if snd m < parentStart \<or> fst m > parentEnd then walk_gaps parentStart parentEnd cursor ms
      else
        let mStart = (if fst m < parentStart then parentStart else fst m);
            mEnd = (if snd m > parentEnd then parentEnd else snd m);
            gap = (if cursor < mStart then [(cursor, mStart - 1)] else []);
            cursor' = mEnd + 1
        in if cursor' = 0 then gap else gap @ walk_gaps parentStart parentEnd cursor' ms)"

definition findFreeRanges :: "32 word \<Rightarrow> 32 word \<Rightarrow> interval list \<Rightarrow> interval list" where
  "findFreeRanges parentStart parentEnd children = (case sort_key fst children of
     [] \<Rightarrow> [(parentStart, parentEnd)]
   | c # cs \<Rightarrow> walk_gaps parentStart parentEnd parentStart (merge_from c cs))"

subsection \<open>Gap analysis\<close>

record allocated_block =
  abPoolID :: go_id
  abName :: string
  abCIDR :: string
  abUtilization :: rat

record available_block =
  avCIDR :: string
  avAddressCount :: "64 word"

record gap_analysis =
  gaPoolID :: go_id
  gaPoolName :: string
  gaParentCIDR :: string
  gaAllocatedBlocks :: "allocated_block list"
  gaAvailableBlocks :: "available_block list"
  gaTotalAddresses :: "64 word"
  gaUsedAddresses :: "64 word"
  gaFreeAddresses :: "64 word"
  gaUtilization :: rat

definition prefix_string :: "nprefix \<Rightarrow> string" where
  "prefix_string p = (case pfxAddr p of V4 w \<Rightarrow> pfxString4 w (nat (pfxBits p)) | _ \<Rightarrow> ''invalid Prefix'')"

text \<open>The utilisation shown for a child: 0 when the statistics answer an error.\<close>

definition child_utilization :: "mstore \<Rightarrow> go_id \<Rightarrow> rat option" where
  "child_utilization s i = (case CalculatePoolUtilization s i of None \<Rightarrow> None
     | Some (Inl _) \<Rightarrow> Some 0 | Some (Inr st) \<Rightarrow> Some (Utilization st))"

fun child_blocks :: "mstore \<Rightarrow> pool list \<Rightarrow> (interval list \<times> allocated_block list) option" where
  "child_blocks s [] = Some ([], [])"
| "child_blocks s (child # rest) = (case parsePrefix (poolCIDR child) of
     None \<Rightarrow> child_blocks s rest
   | Some cp \<Rightarrow> do {
       iv \<leftarrow> prefixToInterval (masked cp);
       util \<leftarrow> child_utilization s (poolID child);
       (ivs, blocks) \<leftarrow> child_blocks s rest;
       Some (iv # ivs, \<lparr>abPoolID = poolID child, abName = poolName child, abCIDR = poolCIDR child,
                        abUtilization = util\<rparr> # blocks)
     })"

definition available_blocks :: "interval list \<Rightarrow> available_block list" where
  "available_blocks freeRanges = [\<lparr>avCIDR = prefix_string c, avAddressCount = of_nat (prefixAddressCount c)\<rparr>.
     fr \<leftarrow> freeRanges, c \<leftarrow> rangeToCIDRs (fst fr) (snd fr)]"

definition percent :: "rounding \<Rightarrow> 64 word \<Rightarrow> 64 word \<Rightarrow> rat" where
  "percent fl used total' =
     (if total' > 0 then fl (fl (of_nat (unat used) / of_nat (unat total')) * 100) else 0)"

definition AnalyzeGaps :: "rounding \<Rightarrow> mstore \<Rightarrow> go_id \<Rightarrow> (go_error + gap_analysis) option" where
  "AnalyzeGaps fl s i = (case GetPool s i of
     None \<Rightarrow> Some (Inl (wrapf (''pool '' @ itoa_int i) ErrNotFound))
   | Some pool \<Rightarrow> (case parsePrefix (poolCIDR pool) of
       None \<Rightarrow> Some (Inl (plainErr ''parse pool CIDR''))
     | Some pp \<Rightarrow>
         let parent = masked pp in
         (case GetPoolChildren s i of
            Inl e \<Rightarrow> Some (Inl (wrapf (''get children for pool '' @ itoa_int i) e))
          | Inr children \<Rightarrow> do {
              (childIntervals, allocated) \<leftarrow> child_blocks s children;
              parentIv \<leftarrow> prefixToInterval parent;
              let available = available_blocks (findFreeRanges (fst parentIv) (snd parentIv) childIntervals);
                  freeAddrs = sum_list (map avAddressCount available);
                  totalAddrs = of_nat (prefixAddressCount parent);
                  usedAddrs = totalAddrs - freeAddrs
              in Some (Inr \<lparr>gaPoolID = i, gaPoolName = poolName pool, gaParentCIDR = poolCIDR pool,
                   gaAllocatedBlocks = allocated, gaAvailableBlocks = available,
                   gaTotalAddresses = totalAddrs, gaUsedAddresses = usedAddrs,
                   gaFreeAddresses = freeAddrs, gaUtilization = percent fl usedAddrs totalAddrs\<rparr>)
            })))"

subsection \<open>Which pools (resolvePools)\<close>

fun resolve_requested :: "mstore \<Rightarrow> go_id list \<Rightarrow> go_error + pool list" where
  "resolve_requested s [] = Inr []"
| "resolve_requested s (i # is) = (case GetPool s i of
     None \<Rightarrow> Inl (wrapf (''pool '' @ itoa_int i) ErrNotFound)
   | Some p \<Rightarrow> (case resolve_requested s is of Inl e \<Rightarrow> Inl e | Inr ps \<Rightarrow> Inr (p # ps)))"

text \<open>One child of the pool at the head of the queue: \<open>seen\<close> and the pools found so far.\<close>

definition bfs_visit :: "pool \<Rightarrow> go_id list \<times> pool list \<Rightarrow> go_id list \<times> pool list" where
  "bfs_visit c acc = (case acc of (seen, new) \<Rightarrow>
     if poolID c \<in> set seen then (seen, new) else (seen @ [poolID c], new @ [c]))"

definition store_ids :: "mstore \<Rightarrow> go_id set" where
  "store_ids s = poolID ` snd ` set (pools s)"

lemma GetPoolChildren_ids: "GetPoolChildren s i = Inr cs \<Longrightarrow> poolID ` set cs \<subseteq> store_ids s"
  by (force simp: GetPoolChildren_def store_ids_def split: option.splits if_splits)

lemma bfs_visit_fold:
  "fold bfs_visit cs (seen, new) = (seen', new') \<Longrightarrow>
     \<exists>added. new' = new @ added \<and> seen' = seen @ map poolID added \<and> set added \<subseteq> set cs
       \<and> distinct (map poolID added) \<and> poolID ` set added \<inter> set seen = {}
       \<and> set seen' = set seen \<union> poolID ` set cs"
proof (induction cs arbitrary: seen new)
  case (Cons c cs)
  show ?case
  proof (cases "poolID c \<in> set seen")
    case True
    then have "bfs_visit c (seen, new) = (seen, new)" by (simp add: bfs_visit_def)
    then have "fold bfs_visit cs (seen, new) = (seen', new')" using Cons.prems by simp
    from Cons.IH[OF this] True show ?thesis by auto
  next
    case False
    then have "bfs_visit c (seen, new) = (seen @ [poolID c], new @ [c])" by (simp add: bfs_visit_def)
    then have "fold bfs_visit cs (seen @ [poolID c], new @ [c]) = (seen', new')"
      using Cons.prems by simp
    from Cons.IH[OF this] obtain added where "new' = (new @ [c]) @ added"
      "seen' = (seen @ [poolID c]) @ map poolID added" "set added \<subseteq> set cs" "distinct (map poolID added)"
      "poolID ` set added \<inter> set (seen @ [poolID c]) = {}"
      "set seen' = set (seen @ [poolID c]) \<union> poolID ` set cs" by blast
    then show ?thesis using False by (intro exI[of _ "c # added"]) auto
  qed
qed simp

function bfs :: "mstore \<Rightarrow> go_id list \<Rightarrow> pool list \<Rightarrow> go_id list \<Rightarrow> pool list" where
  "bfs s seen found queue = (case queue of [] \<Rightarrow> found
     | i # rest \<Rightarrow> (case GetPoolChildren s i of
         Inl _ \<Rightarrow> bfs s seen found rest
       | Inr children \<Rightarrow> (case fold bfs_visit children (seen, []) of (seen', new) \<Rightarrow>
           bfs s seen' (found @ new) (rest @ map poolID new))))"
  by pat_completeness auto
termination
proof (relation "measures [\<lambda>(s, seen, found, queue). card (store_ids s - set seen), \<lambda>(s, seen, found, queue). length queue]",
    simp, simp)
  fix s seen found queue i rest cs seen' new
  assume q: "queue = i # rest" and c: "GetPoolChildren s i = Inr cs" and f: "(seen', new) = fold bfs_visit cs (seen, [])"
  from bfs_visit_fold[OF f[symmetric]] obtain added where a: "new = added" "seen' = seen @ map poolID added"
    "set added \<subseteq> set cs" "poolID ` set added \<inter> set seen = {}" by auto
  show "((s, seen', found @ new, rest @ map poolID new), s, seen, found, queue)
      \<in> measures [\<lambda>(s, seen, found, queue). card (store_ids s - set seen), \<lambda>(s, seen, found, queue). length queue]"
  proof (cases "added = []")
    case True then show ?thesis using a q by simp
  next
    case False
    then obtain x where x: "x \<in> set added" by fastforce
    then have "poolID x \<in> store_ids s - set seen" "poolID x \<in> set seen'"
      using GetPoolChildren_ids[OF c] a by auto
    then have "store_ids s - set seen' \<subset> store_ids s - set seen" using a(2) by auto
    moreover have "finite (store_ids s - set seen)" by (simp add: store_ids_def)
    ultimately show ?thesis by (simp add: psubset_card_mono)
  qed
qed

declare bfs.simps [simp del]

definition resolvePools :: "mstore \<Rightarrow> go_id list \<Rightarrow> bool \<Rightarrow> go_error + pool list" where
  "resolvePools s poolIDs includeChildren =
     (case (if poolIDs = [] then Inr (ListPools s) else resolve_requested s poolIDs) of
        Inl e \<Rightarrow> Inl e
      | Inr ps \<Rightarrow>
          if includeChildren then Inr (bfs s (map poolID ps) ps (map poolID ps)) else Inr ps)"

subsection \<open>Compliance (compliance.go)\<close>

record violation =
  viRuleID :: string
  viSeverity :: string
  viPoolID :: go_id
  viPoolName :: string
  viCIDR :: string

record compliance_report =
  crTotalChecks :: int
  crPassed :: int
  crFailed :: int
  crWarnings :: int
  crViolations :: "violation list"

definition violation_of :: "pool \<Rightarrow> string \<Rightarrow> string \<Rightarrow> violation" where
  "violation_of p rule sev = \<lparr>viRuleID = rule, viSeverity = sev, viPoolID = poolID p, viPoolName = poolName p,
     viCIDR = poolCIDR p\<rparr>"

text \<open>The loop over the candidates for siblings: true at the first overlap.\<close>

fun overlaps_sibling :: "pool \<Rightarrow> pool list \<Rightarrow> bool option" where
  "overlaps_sibling p [] = Some False"
| "overlaps_sibling p (sib # rest) =
     (if poolID sib = poolID p \<or> poolParentID sib = None \<or> poolParentID sib \<noteq> poolParentID p
      then overlaps_sibling p rest
      else case (parsePrefix (poolCIDR p), parsePrefix (poolCIDR sib)) of
        (Some pp, Some sp) \<Rightarrow> do {
          ov \<leftarrow> prefixesOverlap (masked pp) (masked sp);
          if ov then Some True else overlaps_sibling p rest
        }
      | _ \<Rightarrow> overlaps_sibling p rest)"

definition checkOverlap :: "pool \<Rightarrow> pool list \<Rightarrow> compliance_report \<Rightarrow> compliance_report option" where
  "checkOverlap p allPools r =
     (let r = r\<lparr>crTotalChecks := crTotalChecks r + 1\<rparr> in
      if poolParentID p = None then Some r
      else do {
        ov \<leftarrow> overlaps_sibling p allPools;
        Some (if ov then r\<lparr>crFailed := crFailed r + 1,
                 crViolations := crViolations r @ [violation_of p ''OVERLAP-001'' ''error'']\<rparr> else r)
      })"

definition checkRFC1918 :: "pool \<Rightarrow> compliance_report \<Rightarrow> compliance_report option" where
  "checkRFC1918 p r =
     (let r = r\<lparr>crTotalChecks := crTotalChecks r + 1\<rparr> in
      case parsePrefix (poolCIDR p) of None \<Rightarrow> Some r
      | Some pp \<Rightarrow> do {
          priv \<leftarrow> isRFC1918 (masked pp);
          Some (if \<not> priv then r\<lparr>crWarnings := crWarnings r + 1,
                  crViolations := crViolations r @ [violation_of p ''RFC1918-001'' ''warning'']\<rparr> else r)
        })"

definition isParentType :: "pool \<Rightarrow> bool" where
  "isParentType p = (poolType p = PoolTypeSupernet \<or> poolType p = PoolTypeRegion
     \<or> poolType p = PoolTypeEnvironment \<or> poolType p = PoolTypeVPC)"

definition checkEmpty :: "mstore \<Rightarrow> pool \<Rightarrow> compliance_report \<Rightarrow> compliance_report" where
  "checkEmpty s p r =
     (let r = r\<lparr>crTotalChecks := crTotalChecks r + 1\<rparr> in
      case GetPoolChildren s (poolID p) of Inl _ \<Rightarrow> r
      | Inr children \<Rightarrow>
          if isParentType p \<and> children = [] then r\<lparr>crWarnings := crWarnings r + 1,
            crViolations := crViolations r @ [violation_of p ''EMPTY-001'' ''warning'']\<rparr> else r)"

definition checkNaming :: "pool \<Rightarrow> compliance_report \<Rightarrow> compliance_report" where
  "checkNaming p r =
     (let r = r\<lparr>crTotalChecks := crTotalChecks r + 1\<rparr>;
          r = (if poolName p = [] then r\<lparr>crWarnings := crWarnings r + 1,
                 crViolations := crViolations r @ [violation_of p ''NAME-001'' ''info'']\<rparr> else r);
          r = r\<lparr>crTotalChecks := crTotalChecks r + 1\<rparr>
      in if poolDescription p = [] then r\<lparr>crViolations := crViolations r @ [violation_of p ''NAME-002'' ''info'']\<rparr> else r)"

definition checkPool :: "mstore \<Rightarrow> pool list \<Rightarrow> pool \<Rightarrow> compliance_report \<Rightarrow> compliance_report option" where
  "checkPool s allPools p r = do {
     r \<leftarrow> checkOverlap p allPools r;
     r \<leftarrow> checkRFC1918 p r;
     Some (checkNaming p (checkEmpty s p r))
   }"

fun check_pools :: "mstore \<Rightarrow> pool list \<Rightarrow> pool list \<Rightarrow> compliance_report \<Rightarrow> compliance_report option" where
  "check_pools s allPools [] r = Some r"
| "check_pools s allPools (p # ps) r = do { r \<leftarrow> checkPool s allPools p r; check_pools s allPools ps r }"

definition empty_report :: compliance_report where
  "empty_report = \<lparr>crTotalChecks = 0, crPassed = 0, crFailed = 0, crWarnings = 0, crViolations = []\<rparr>"

definition CheckCompliance :: "mstore \<Rightarrow> go_id list \<Rightarrow> bool \<Rightarrow> (go_error + compliance_report) option" where
  "CheckCompliance s poolIDs includeChildren = (case resolvePools s poolIDs includeChildren of
     Inl e \<Rightarrow> Some (Inl e)
   | Inr ps \<Rightarrow> do {
       r \<leftarrow> check_pools s ps ps empty_report;
       Some (Inr (r\<lparr>crPassed := crTotalChecks r - crFailed r - crWarnings r\<rparr>))
     })"

end
