(* ===== verification/GapFacts.thy ===== *)
theory GapFacts
  imports Planning
begin

section \<open>Gap analysis is exact\<close>

text \<open>
  The merge and the walk of \<open>findFreeRanges\<close> compute the parent range without the children, and
  \<open>AnalyzeGaps\<close> turns it into aligned blocks with the right address counts.
\<close>

subsection \<open>Merge and walk\<close>

definition ivs_union :: "interval list \<Rightarrow> 32 word set" where
  "ivs_union ivs = (\<Union>iv \<in> set ivs. {fst iv .. snd iv})"

lemma ivs_union_simps [simp]:
  "ivs_union [] = {}" "ivs_union (iv # ivs) = {fst iv .. snd iv} \<union> ivs_union ivs"
  "ivs_union (xs @ ys) = ivs_union xs \<union> ivs_union ys"
  by (auto simp: ivs_union_def)

text \<open>Intervals inside the parent, and gaps in increasing order with something between them.\<close>

definition iv_in :: "32 word \<Rightarrow> 32 word \<Rightarrow> interval \<Rightarrow> bool" where
  "iv_in ps pe iv \<longleftrightarrow> ps \<le> fst iv \<and> fst iv \<le> snd iv \<and> snd iv \<le> pe"

fun gaps_from :: "32 word \<Rightarrow> 32 word \<Rightarrow> interval list \<Rightarrow> bool" where
  "gaps_from cursor pe [] = True"
| "gaps_from cursor pe (g # gs) =
     (cursor \<le> fst g \<and> fst g \<le> snd g \<and> snd g \<le> pe
      \<and> (gs = [] \<or> (unat (snd g) + 2 \<le> unat (fst (hd gs)) \<and> gaps_from (fst (hd gs)) pe gs)))"

lemma gaps_from_weaken: "gaps_from c pe gs \<Longrightarrow> c' \<le> c \<Longrightarrow> gaps_from c' pe gs"
  by (cases gs) (auto intro: order_trans)

lemma gaps_from_head: "gaps_from c pe gs \<Longrightarrow> gs \<noteq> [] \<Longrightarrow> c \<le> fst (hd gs) \<and> gaps_from (fst (hd gs)) pe gs"
  by (cases gs) auto

lemma atMost_minus_one: "(0 :: 32 word) < m \<Longrightarrow> {c .. m - 1} = {c ..< m}"
proof -
  assume m: "0 < m"
  have "x \<le> m - 1 \<longleftrightarrow> x < m" for x
  proof -
    have "m \<noteq> 0" using m by auto
    then have e: "unat (m - 1) = unat m - 1" by (rule unat_sub1)
    have p: "0 < unat m" using m by (simp add: word_less_nat_alt)
    have "x \<le> m - 1 \<longleftrightarrow> unat x \<le> unat m - 1" unfolding word_le_nat_alt e ..
    also have "\<dots> \<longleftrightarrow> unat x < unat m" using p by linarith
    finally show ?thesis by (simp only: word_less_nat_alt)
  qed
  then show ?thesis unfolding set_eq_iff atLeastAtMost_iff atLeastLessThan_iff by simp
qed

lemma succ_le_iff: "(e :: 32 word) + 1 \<noteq> 0 \<Longrightarrow> e + 1 \<le> x \<longleftrightarrow> e < x"
proof -
  assume "e + 1 \<noteq> 0"
  then have "unat (e + 1) = unat e + 1" by (intro unat_plus1) auto
  then show ?thesis by (auto simp: word_le_nat_alt word_less_nat_alt)
qed

lemma succ_zero_iff: "(e :: 32 word) + 1 = 0 \<longleftrightarrow> e = - 1"
  by (metis add.right_neutral add_left_cancel eq_neg_iff_add_eq_0)

lemma le_max32 [simp]: "(x :: 32 word) \<le> - 1"
  by (rule word_order.extremum)

text \<open>The head interval of the walk, when it lies in the parent.\<close>

lemma walk_head:
  assumes "iv_in ps pe m" "cursor \<le> fst m"
  shows "walk_gaps ps pe cursor (m # ms) =
    (if cursor < fst m then [(cursor, fst m - 1)] else [])
    @ (if snd m + 1 = 0 then [] else walk_gaps ps pe (snd m + 1) ms)"
  using assms by (auto simp: iv_in_def Let_def not_less dest: order_trans leD)

lemma walk_step:
  assumes l: "iv_in ps pe l" "cursor \<le> fst l"
    and U: "\<And>x. x \<in> U \<Longrightarrow> fst l \<le> x"
    and R: "snd l + 1 \<noteq> 0 \<Longrightarrow> ivs_union R = {snd l + 1 .. pe} - U \<and> gaps_from (snd l + 1) pe R"
    and G: "G = (if cursor < fst l then [(cursor, fst l - 1)] else []) @ (if snd l + 1 = 0 then [] else R)"
  shows "ivs_union G = {cursor .. pe} - ({fst l .. snd l} \<union> U) \<and> gaps_from cursor pe G"
proof -
  have lb: "fst l \<le> snd l" "snd l \<le> pe" using l(1) by (auto simp: iv_in_def)
  define R' where "R' = (if snd l + 1 = 0 then [] else R)"
  have R'set: "ivs_union R' = {x. snd l < x \<and> x \<le> pe} - U"
  proof (cases "snd l + 1 = 0")
    case True
    then have "snd l = - 1" by (simp add: succ_zero_iff)
    then have "\<not> snd l < x" for x by (simp add: not_less)
    then show ?thesis using True by (simp add: R'_def)
  next
    case False
    then show ?thesis using R succ_le_iff[OF False] by (auto simp: R'_def)
  qed
  have gap1: "cursor < fst l \<Longrightarrow> {cursor .. fst l - 1} = {cursor ..< fst l}"
    using atMost_minus_one[of "fst l" cursor] word_gt_0 by (metis leD word_zero_le)
  have "ivs_union G = {cursor ..< fst l} \<union> ivs_union R'"
    using gap1 by (auto simp: G R'_def)
  also have "\<dots> = {cursor .. pe} - ({fst l .. snd l} \<union> U)"
  proof (rule set_eqI)
    fix x
    show "x \<in> {cursor ..< fst l} \<union> ivs_union R' \<longleftrightarrow> x \<in> {cursor .. pe} - ({fst l .. snd l} \<union> U)"
    proof (cases "x < fst l")
      case True
      then have "x \<notin> U" "x \<le> pe" "\<not> snd l < x" using U lb by (auto dest: leD)
      then show ?thesis using True by (auto simp: R'set)
    next
      case False
      then show ?thesis using l(2) by (auto simp: R'set)
    qed
  qed
  finally have S: "ivs_union G = {cursor .. pe} - ({fst l .. snd l} \<union> U)" .
  have gR: "gaps_from cursor pe R' \<and> (R' \<noteq> [] \<longrightarrow> unat (snd l) + 1 \<le> unat (fst (hd R')) \<and> gaps_from (fst (hd R')) pe R')"
  proof (cases "snd l + 1 = 0 \<or> R = []")
    case True then show ?thesis by (auto simp: R'_def)
  next
    case False
    then have g: "gaps_from (snd l + 1) pe R" using R by blast
    have e: "unat (snd l + 1) = unat (snd l) + 1" using False by (intro unat_plus1) auto
    have "cursor \<le> snd l + 1"
      using l(2) lb e by (simp add: word_le_nat_alt)
    moreover have "snd l + 1 \<le> fst (hd R) \<and> gaps_from (fst (hd R)) pe R"
      using gaps_from_head[OF g] False by blast
    ultimately show ?thesis using gaps_from_weaken[OF g] e False by (simp add: R'_def word_le_nat_alt)
  qed
  have "gaps_from cursor pe G"
  proof (cases "cursor < fst l")
    case False
    then show ?thesis using gR by (simp add: G R'_def)
  next
    case True
    then have "fst l \<noteq> 0" using word_zero_le[of cursor] by auto
    then have e: "unat (fst l - 1) = unat (fst l) - 1" "0 < unat (fst l)"
      by (simp_all add: unat_sub1 unat_gt_0)
    have "cursor \<le> fst l - 1" "fst l - 1 \<le> pe" "unat (fst l - 1) + 2 \<le> unat (snd l) + 1"
      using True lb e by (auto simp: word_le_nat_alt word_less_nat_alt)
    then show ?thesis using True gR by (auto simp: G R'_def[symmetric])
  qed
  with S show ?thesis by blast
qed

lemma walk_merge:
  assumes "iv_in ps pe l" "\<forall>c \<in> set cs. iv_in ps pe c" "sorted (map fst (l # cs))" "cursor \<le> fst l"
  shows "ivs_union (walk_gaps ps pe cursor (merge_from l cs)) = {cursor .. pe} - ivs_union (l # cs)
    \<and> gaps_from cursor pe (walk_gaps ps pe cursor (merge_from l cs))"
  using assms
proof (induction cs arbitrary: l cursor)
  case Nil
  have "ivs_union (walk_gaps ps pe cursor (merge_from l [])) = {cursor .. pe} - ({fst l .. snd l} \<union> {})
      \<and> gaps_from cursor pe (walk_gaps ps pe cursor (merge_from l []))"
  proof (rule walk_step[OF Nil.prems(1,4)])
    show "walk_gaps ps pe cursor (merge_from l []) = (if cursor < fst l then [(cursor, fst l - 1)] else [])
        @ (if snd l + 1 = 0 then [] else walk_gaps ps pe (snd l + 1) [])"
      by (simp only: merge_from.simps walk_head[OF Nil.prems(1,4)])
    show "ivs_union (walk_gaps ps pe (snd l + 1) []) = {snd l + 1 .. pe} - {} \<and> gaps_from (snd l + 1) pe (walk_gaps ps pe (snd l + 1) [])"
      if "snd l + 1 \<noteq> 0" using that by (cases "snd l + 1 \<le> pe") simp_all
  qed simp
  then show ?case by simp
next
  case (Cons c cs)
  have lb: "fst l \<le> fst c" "\<forall>d \<in> set (c # cs). fst l \<le> fst d"
    "sorted (map fst (c # cs))" "iv_in ps pe c" using Cons.prems by auto
  show ?case
  proof (cases "fst c \<le> snd l + 1")
    case True
    define l' where "l' = (if snd c > snd l then (fst l, snd c) else l)"
    have l': "iv_in ps pe l'" "fst l' = fst l" "sorted (map fst (l' # cs))"
      using Cons.prems lb by (auto simp: l'_def iv_in_def intro: order_trans)
    have "{fst l' .. snd l'} = {fst l .. snd l} \<union> {fst c .. snd c}"
    proof (cases "snd l + 1 = 0")
      case True
      then have "snd l = - 1" by (simp add: succ_zero_iff)
      then show ?thesis using lb by (auto simp: l'_def dest: leD)
    next
      case False
      have up: "fst c \<le> x \<Longrightarrow> fst l \<le> x" and meet: "x \<le> snd l \<or> fst c \<le> x" for x
        using lb True succ_le_iff[OF False] by (auto simp: not_le intro: order_trans)
      show ?thesis
      proof (rule set_eqI)
        fix x show "x \<in> {fst l' .. snd l'} \<longleftrightarrow> x \<in> {fst l .. snd l} \<union> {fst c .. snd c}"
          using up[of x] meet[of x] by (auto simp: l'_def not_less)
      qed
    qed
    moreover have "ivs_union (walk_gaps ps pe cursor (merge_from l' cs)) = {cursor .. pe} - ivs_union (l' # cs)
        \<and> gaps_from cursor pe (walk_gaps ps pe cursor (merge_from l' cs))"
      using Cons.IH[OF l'(1) _ l'(3)] Cons.prems l'(2) by simp
    moreover have "merge_from l (c # cs) = merge_from l' cs" using True by (simp add: l'_def)
    ultimately show ?thesis by (simp add: Un_assoc)
  next
    case False
    define R where "R = walk_gaps ps pe (snd l + 1) (merge_from c cs)"
    have "ivs_union R = {snd l + 1 .. pe} - ivs_union (c # cs) \<and> gaps_from (snd l + 1) pe R"
      unfolding R_def using Cons.IH[OF lb(4) _ lb(3)] Cons.prems False by simp
    moreover have "walk_gaps ps pe cursor (merge_from l (c # cs)) =
        (if cursor < fst l then [(cursor, fst l - 1)] else []) @ (if snd l + 1 = 0 then [] else R)"
      using False walk_head[OF Cons.prems(1,4)] by (simp add: R_def)
    moreover have "fst l \<le> x" if "x \<in> ivs_union (c # cs)" for x
      using that lb(2) unfolding ivs_union_def by (auto intro: order_trans)
    ultimately have "ivs_union (walk_gaps ps pe cursor (merge_from l (c # cs))) = {cursor .. pe} - ({fst l .. snd l} \<union> ivs_union (c # cs))
        \<and> gaps_from cursor pe (walk_gaps ps pe cursor (merge_from l (c # cs)))"
      by (intro walk_step[OF Cons.prems(1,4)]) auto
    then show ?thesis by simp
  qed
qed

lemma findFreeRanges_spec:
  assumes "ps \<le> pe" "\<forall>c \<in> set children. iv_in ps pe c"
  shows "ivs_union (findFreeRanges ps pe children) = {ps .. pe} - ivs_union children
    \<and> gaps_from ps pe (findFreeRanges ps pe children)"
proof (cases "sort_key fst children")
  case Nil
  then have "children = []" by (metis set_empty set_sort)
  then show ?thesis using assms(1) by (simp add: findFreeRanges_def)
next
  case (Cons c cs)
  have s: "set (c # cs) = set children" "sorted (map fst (c # cs))"
    by (simp_all only: Cons[symmetric] set_sort sorted_sort_key)
  have "ivs_union (c # cs) = ivs_union children" using s(1) by (simp only: ivs_union_def)
  moreover have c: "iv_in ps pe c" "\<forall>d \<in> set cs. iv_in ps pe d" using s(1) assms(2) by auto
  moreover have "ps \<le> fst c" using c by (simp add: iv_in_def)
  ultimately show ?thesis
    using walk_merge[OF c s(2), of ps] by (simp add: findFreeRanges_def Cons)
qed

subsection \<open>From ranges to blocks\<close>

definition range_blocks :: "interval list \<Rightarrow> nprefix list" where
  "range_blocks frs = concat (map (\<lambda>fr. rangeToCIDRs (fst fr) (snd fr)) frs)"

lemma available_blocks_eq:
  "available_blocks frs = map (\<lambda>c. \<lparr>avCIDR = prefix_string c, avAddressCount = of_nat (prefixAddressCount c)\<rparr>) (range_blocks frs)"
  by (induction frs) (simp_all add: available_blocks_def range_blocks_def)

lemma gaps_from_mem: "gaps_from c pe gs \<Longrightarrow> g \<in> set gs \<Longrightarrow> c \<le> fst g \<and> fst g \<le> snd g \<and> snd g \<le> pe"
proof (induction gs arbitrary: c)
  case (Cons h gs)
  show ?case
  proof (cases "g = h")
    case False
    then have "g \<in> set gs" "gs \<noteq> []" using Cons.prems by auto
    then have "fst (hd gs) \<le> fst g \<and> fst g \<le> snd g \<and> snd g \<le> pe" using Cons by auto
    moreover have "c \<le> fst (hd gs)"
    proof -
      have "c \<le> fst h" "fst h \<le> snd h" "unat (snd h) + 2 \<le> unat (fst (hd gs))"
        using Cons.prems \<open>gs \<noteq> []\<close> by auto
      then show ?thesis unfolding word_le_nat_alt by linarith
    qed
    ultimately show ?thesis by (auto intro: order_trans)
  qed (use Cons.prems in auto)
qed simp

lemma range_blocks_spec:
  assumes "gaps_from c pe frs"
  shows "(\<Union>p \<in> set (range_blocks frs). pfx_addrs p) = ivs_union frs
    \<and> (\<forall>p \<in> set (range_blocks frs). aligned4 p)
    \<and> sorted_wrt (\<lambda>p q. pfx_addrs p \<inter> pfx_addrs q = {}) (range_blocks frs)"
  using assms
proof (induction frs arbitrary: c)
  case (Cons g gs)
  have g: "fst g \<le> snd g" using Cons.prems by simp
  have IH: "(\<Union>p \<in> set (range_blocks gs). pfx_addrs p) = ivs_union gs
    \<and> (\<forall>p \<in> set (range_blocks gs). aligned4 p)
    \<and> sorted_wrt (\<lambda>p q. pfx_addrs p \<inter> pfx_addrs q = {}) (range_blocks gs)"
  proof (cases "gs = []")
    case True then show ?thesis by (simp add: range_blocks_def)
  next
    case False then show ?thesis using Cons by auto
  qed
  have e: "range_blocks (g # gs) = rangeToCIDRs (fst g) (snd g) @ range_blocks gs" by (simp add: range_blocks_def)
  have cov: "(\<Union>p \<in> set (rangeToCIDRs (fst g) (snd g)). pfx_addrs p) = {fst g .. snd g}"
    by (rule rangeToCIDRs_cover[OF g])
  have "x \<notin> ivs_union gs" if "x \<in> {fst g .. snd g}" for x
  proof
    assume "x \<in> ivs_union gs"
    then obtain h where h: "h \<in> set gs" "fst h \<le> x" by (auto simp: ivs_union_def)
    then have "gaps_from (fst (hd gs)) pe gs" "unat (snd g) + 2 \<le> unat (fst (hd gs))" using Cons.prems by auto
    then have "fst (hd gs) \<le> fst h" using gaps_from_mem h(1) by blast
    then show False using h(2) that \<open>unat (snd g) + 2 \<le> _\<close> by (auto simp: word_le_nat_alt)
  qed
  then have "{fst g .. snd g} \<inter> ivs_union gs = {}" by blast
  then have "\<forall>p \<in> set (rangeToCIDRs (fst g) (snd g)). \<forall>q \<in> set (range_blocks gs). pfx_addrs p \<inter> pfx_addrs q = {}"
    using cov IH by blast
  then show ?case
    using IH cov rangeToCIDRs_disjoint[OF g] rangeToCIDRs_spec[OF g] unfolding e
    by (simp add: sorted_wrt_append ball_Un)
qed (simp add: range_blocks_def)

lemma card_disjoint_list:
  assumes "sorted_wrt (\<lambda>p q. A p \<inter> A q = {}) xs" "\<And>p. p \<in> set xs \<Longrightarrow> finite (A p)"
  shows "card (\<Union>p \<in> set xs. A p) = sum_list (map (\<lambda>p. card (A p)) xs)"
  using assms
proof (induction xs)
  case (Cons x xs)
  have "A x \<inter> (\<Union>p \<in> set xs. A p) = {}" using Cons.prems(1) by auto
  then have "card (A x \<union> (\<Union>p \<in> set xs. A p)) = card (A x) + card (\<Union>p \<in> set xs. A p)"
    using Cons.prems(2) by (intro card_Un_disjoint) auto
  then show ?case using Cons by simp
qed simp

lemma aligned4_card: "aligned4 p \<Longrightarrow> finite (pfx_addrs p) \<and> card (pfx_addrs p) = prefixAddressCount p"
  by (auto simp: aligned4_def card_addrs4 prefixAddressCount_v4)

lemma range_blocks_count:
  assumes "gaps_from c pe frs"
  shows "sum_list (map prefixAddressCount (range_blocks frs)) = card (ivs_union frs)"
proof -
  have u: "(\<Union>p \<in> set (range_blocks frs). pfx_addrs p) = ivs_union frs"
    and a: "\<And>p. p \<in> set (range_blocks frs) \<Longrightarrow> aligned4 p"
    and d: "sorted_wrt (\<lambda>p q. pfx_addrs p \<inter> pfx_addrs q = {}) (range_blocks frs)"
    using range_blocks_spec[OF assms] by blast+
  have "card (\<Union>p \<in> set (range_blocks frs). pfx_addrs p) = sum_list (map (\<lambda>p. card (pfx_addrs p)) (range_blocks frs))"
    using d by (rule card_disjoint_list) (use a aligned4_card in blast)
  also have "map (\<lambda>p. card (pfx_addrs p)) (range_blocks frs) = map prefixAddressCount (range_blocks frs)"
    using a aligned4_card by (intro map_cong refl) blast
  finally show ?thesis unfolding u ..
qed

lemma prefix_string_parse: "aligned4 p \<Longrightarrow> parsePrefix (prefix_string p) = Some p"
  by (auto simp: aligned4_def prefix_string_def)

subsection \<open>AnalyzeGaps\<close>

text \<open>What the analysis needs of float64 rounding: it is monotone and exact on the integers up to
  \<open>2 ^ 53\<close>, which IEEE 754 guarantees.\<close>

definition float64_rounding :: "rounding \<Rightarrow> bool" where
  "float64_rounding fl \<longleftrightarrow> mono fl \<and> (\<forall>n :: int. abs n \<le> 2 ^ 53 \<longrightarrow> fl (of_int n) = of_int n)"

lemma fl_int: "float64_rounding fl \<Longrightarrow> abs n \<le> 2 ^ 53 \<Longrightarrow> fl (of_int n) = of_int n"
  by (simp add: float64_rounding_def)

lemma fl_between:
  assumes "float64_rounding fl" "of_int a \<le> x" "x \<le> of_int b" "abs a \<le> 2 ^ 53" "abs b \<le> 2 ^ 53"
  shows "of_int a \<le> fl x \<and> fl x \<le> of_int b"
proof -
  have "mono fl" using assms(1) by (simp add: float64_rounding_def)
  then have "fl (of_int a) \<le> fl x" "fl x \<le> fl (of_int b)" using assms(2,3) by (auto dest: monoD)
  then show ?thesis using fl_int[OF assms(1)] assms(4,5) by simp
qed

lemma fl_01: "float64_rounding fl \<Longrightarrow> 0 \<le> x \<Longrightarrow> x \<le> 1 \<Longrightarrow> 0 \<le> fl x \<and> fl x \<le> 1"
  using fl_between[of fl 0 x 1] by simp

lemma float64_rounding_id: "float64_rounding (\<lambda>x. x)"
  by (simp add: float64_rounding_def mono_def)

lemma nat_ratio: "a \<le> b \<Longrightarrow> 0 < b \<Longrightarrow> 0 \<le> (of_nat a / of_nat b :: rat)" "a \<le> b \<Longrightarrow> 0 < b \<Longrightarrow> (of_nat a / of_nat b :: rat) \<le> 1"
  by (simp_all add: divide_le_eq)

lemma percent_bounds:
  assumes "float64_rounding fl" "used \<le> total'"
  shows "0 \<le> percent fl used total' \<and> percent fl used total' \<le> 100"
proof (cases "total' > 0")
  case True
  define q :: rat where "q = of_nat (unat used) / of_nat (unat total')"
  have "unat used \<le> unat total'" "0 < unat total'" using assms(2) True by (simp_all add: word_le_nat_alt word_less_nat_alt)
  then have "0 \<le> q" "q \<le> 1" unfolding q_def by (rule nat_ratio)+
  then have "0 \<le> fl q" "fl q \<le> 1" using fl_01[OF assms(1)] by simp_all
  then have "0 \<le> fl (fl q * 100) \<and> fl (fl q * 100) \<le> 100"
    using fl_between[OF assms(1), of 0 "fl q * 100" 100] by simp
  then show ?thesis using True by (simp add: percent_def q_def)
qed (simp add: percent_def)

definition child_interval :: "pool \<Rightarrow> interval" where
  "child_interval c = the (prefixToInterval (masked (the (parsePrefix (poolCIDR c)))))"

definition v4_cidr :: "string \<Rightarrow> bool" where
  "v4_cidr c \<longleftrightarrow> (\<exists>w n. parsePrefix c = Some (v4pfx w n) \<and> n \<le> 32)"

lemma v4_cidr_addrs:
  assumes "parsePrefix c = Some (v4pfx w n)" "n \<le> 32"
  shows "cidr_addrs c = addrs4 w n"
  using assms by (simp add: cidr_addrs_def)

lemma child_interval_addrs:
  assumes "v4_cidr (poolCIDR c)"
  shows "{fst (child_interval c) .. snd (child_interval c)} = cidr_addrs (poolCIDR c)"
    "prefixToInterval (masked (the (parsePrefix (poolCIDR c)))) = Some (child_interval c)"
    "fst (child_interval c) \<le> snd (child_interval c)"
proof -
  obtain w n where p: "parsePrefix (poolCIDR c) = Some (v4pfx w n)" "n \<le> 32" using assms by (auto simp: v4_cidr_def)
  have i: "child_interval c = (netmask4 n w, last4 w n)" using p by (simp add: child_interval_def)
  show "{fst (child_interval c) .. snd (child_interval c)} = cidr_addrs (poolCIDR c)"
    using v4_cidr_addrs[OF p] addrs4_range[OF p(2), of w] by (simp add: i)
  show "prefixToInterval (masked (the (parsePrefix (poolCIDR c)))) = Some (child_interval c)"
    using p i by simp
  show "fst (child_interval c) \<le> snd (child_interval c)"
    using netmask4_in[of n w] addrs4_range[OF p(2), of w] by (simp add: i)
qed

lemma child_blocks_total:
  assumes "\<And>c. c \<in> set cs \<Longrightarrow> v4_cidr (poolCIDR c)"
    "\<And>c. c \<in> set cs \<Longrightarrow> child_utilization s (poolID c) \<noteq> None"
  shows "\<exists>blocks. child_blocks s cs = Some (map child_interval cs, blocks) \<and> map abPoolID blocks = map poolID cs"
  using assms
proof (induction cs)
  case (Cons c cs)
  obtain blocks where "child_blocks s cs = Some (map child_interval cs, blocks)" "map abPoolID blocks = map poolID cs"
    using Cons by auto
  moreover obtain pp where "parsePrefix (poolCIDR c) = Some pp" using Cons.prems(1)[of c] by (auto simp: v4_cidr_def)
  moreover have "prefixToInterval (masked (the (parsePrefix (poolCIDR c)))) = Some (child_interval c)"
    using child_interval_addrs(2) Cons.prems(1) by simp
  moreover obtain u where "child_utilization s (poolID c) = Some u" using Cons.prems(2)[of c] by auto
  ultimately show ?case by simp
qed simp

lemma clone_children:
  "\<forall>e \<in> set ps. tags_ok (poolTags (snd e)) \<Longrightarrow>
     [clonePool p. (_, p) \<leftarrow> ps, live_child_of i p] = map snd (filter (\<lambda>(k, p). live_child_of i p) ps)"
  by (induction ps) auto

lemma GetPoolChildren_eq:
  assumes "store_inv s" "GetPool s i = Some p"
  shows "GetPoolChildren s i = Inr (children_of s i)"
proof -
  obtain p0 where p0: "map_of (pools s) i = Some p0" "\<not> poolDeleted p0"
    using assms(2) by (auto simp: GetPool_def split: option.splits if_splits)
  have "tags_ok (poolTags (snd e))" if "e \<in> set (pools s)" for e
  proof -
    have "map_of (pools s) (fst e) = Some (snd e)" using that store_inv_mem[OF assms(1), of "fst e" "snd e"] by simp
    then show ?thesis using store_invD(3)[OF assms(1)] by blast
  qed
  then have "[clonePool p. (_, p) \<leftarrow> pools s, live_child_of i p] = children_of s i"
    unfolding children_of_def by (intro clone_children) blast
  then show ?thesis using p0 unfolding GetPoolChildren_def by simp
qed

lemma GetPool_mem:
  assumes "store_inv s"
  shows "GetPool s k = Some p \<longleftrightarrow> (k, p) \<in> set (pools s) \<and> \<not> poolDeleted p"
proof -
  have "map_of (pools s) k = Some q \<Longrightarrow> clonePool q = q" for q using store_invD(3)[OF assms, of k q] by simp
  then have "GetPool s k = Some p \<longleftrightarrow> map_of (pools s) k = Some p \<and> \<not> poolDeleted p"
    by (auto simp: GetPool_def split: option.splits)
  then show ?thesis unfolding store_inv_mem[OF assms] .
qed

lemma children_of_mem:
  assumes "store_inv s"
  shows "c \<in> set (children_of s i) \<longleftrightarrow> GetPool s (poolID c) = Some c \<and> poolParentID c = Some i"
proof -
  have "c \<in> set (children_of s i) \<longleftrightarrow> (\<exists>k. (k, c) \<in> set (pools s) \<and> live_child_of i c)"
    by (force simp: children_of_def)
  moreover have "(k, c) \<in> set (pools s) \<Longrightarrow> poolID c = k" for k
    using store_invD(3)[OF assms, of k c] by (simp add: store_inv_mem[OF assms])
  ultimately have "c \<in> set (children_of s i) \<longleftrightarrow> (poolID c, c) \<in> set (pools s) \<and> live_child_of i c" by metis
  then show ?thesis unfolding GetPool_mem[OF assms] live_child_of_def by auto
qed

lemma utilization_defined:
  assumes "store_reachable s"
  shows "\<exists>r. CalculatePoolUtilization s i = Some r"
proof (cases "map_of (pools s) i")
  case (Some q)
  obtain st where "calculatePoolStatsLocked (pools s) q = Some st"
    using stats_defined[OF reachable_tree_ok[OF assms]] by blast
  then show ?thesis using Some by (simp add: CalculatePoolUtilization_def)
qed (simp add: CalculatePoolUtilization_def)

lemma child_utilization_defined: "store_reachable s \<Longrightarrow> child_utilization s i \<noteq> None"
  using utilization_defined[of s i] by (auto simp: child_utilization_def split: sum.split)

lemma aligned4_prefixToInterval:
  "n \<le> 32 \<Longrightarrow> prefixToInterval (masked (v4pfx w n)) = Some (netmask4 n w, last4 w n)"
  by simp

lemma masked_count: "n \<le> 32 \<Longrightarrow> prefixAddressCount (masked (v4pfx w n)) = card (addrs4 w n)"
  by (simp add: prefixAddressCount_v4 card_addrs4)

lemma unat_of_nat64: "n \<le> 2 ^ 32 \<Longrightarrow> unat (of_nat n :: 64 word) = n"
  by (simp add: unsigned_of_nat take_bit_nat_eq_self)

lemma card_word32: "card (A :: 32 word set) \<le> 2 ^ 32"
  using card_mono[OF finite, of A UNIV] by (simp add: card_word)

lemma block_count64: "aligned4 q \<Longrightarrow> unat (of_nat (prefixAddressCount q) :: 64 word) = card (pfx_addrs q)"
  using unat_of_nat64[OF card_word32, of "pfx_addrs q"] aligned4_card[of q] by simp

lemma sum_counts:
  "sum_list (map (\<lambda>p. of_nat (f p) :: 64 word) ps) = of_nat (sum_list (map f ps))"
  by (induction ps) simp_all

lemma ivs_union_children:
  assumes "\<forall>c \<in> set cs. v4_cidr (poolCIDR c)"
  shows "ivs_union (map child_interval cs) = (\<Union>c \<in> set cs. cidr_addrs (poolCIDR c))"
  using assms by (induction cs) (simp_all add: child_interval_addrs)

lemma child_interval_in:
  assumes "v4_cidr (poolCIDR c)" "cidr_addrs (poolCIDR c) \<subseteq> {ps .. pe}"
  shows "iv_in ps pe (child_interval c)"
proof -
  note f = child_interval_addrs[OF assms(1)]
  have "{fst (child_interval c) .. snd (child_interval c)} \<subseteq> {ps .. pe}" using assms(2) f(1) by simp
  then show ?thesis using f(3) by (simp add: iv_in_def)
qed


subsection \<open>The pools an analysis is run on\<close>

definition kid_ids :: "mstore \<Rightarrow> go_id \<Rightarrow> go_id set" where
  "kid_ids s i = poolID ` set (children_of s i)"

lemma kid_ids_below: "store_inv s \<Longrightarrow> k \<in> kid_ids s i \<Longrightarrow> k \<in> below (pools s) i"
  by (auto simp: kid_ids_def children_of_mem GetPool_mem live_child_of_def intro: below_child)

lemma kid_ids_live: "store_inv s \<Longrightarrow> c \<in> set (children_of s i) \<Longrightarrow> GetPool s (poolID c) = Some c"
  by (simp add: children_of_mem)

lemma below_closed:
  assumes "store_inv s" "r \<in> S" "\<And>x. x \<in> S \<Longrightarrow> kid_ids s x \<subseteq> S"
  shows "below (pools s) r \<subseteq> S"
proof
  fix x assume "x \<in> below (pools s) r"
  then have "live_below (pools s) S x" using assms(2) by (auto simp: below_def intro: live_below_mono)
  then show "x \<in> S"
  proof (rule live_below_closed)
    fix y p q assume h: "(y, p) \<in> set (pools s)" "live_child_of q p" "q \<in> S"
    have "poolID p = y" using h(1) store_invD(3)[OF assms(1)] by (simp add: store_inv_mem[OF assms(1)])
    then have "p \<in> set (children_of s q)"
      using h by (simp add: children_of_mem[OF assms(1)] GetPool_mem[OF assms(1)] live_child_of_def)
    then show "y \<in> S" using assms(3)[OF h(3)] \<open>poolID p = y\<close> by (auto simp: kid_ids_def)
  qed
qed

definition bfs_ok :: "mstore \<Rightarrow> go_id list \<Rightarrow> pool list \<Rightarrow> go_id list \<Rightarrow> bool" where
  "bfs_ok s seen found queue \<longleftrightarrow> set queue \<subseteq> set seen \<and> set seen = poolID ` set found
     \<and> (\<forall>q \<in> set found. GetPool s (poolID q) = Some q)
     \<and> (\<forall>x \<in> set seen - set queue. kid_ids s x \<subseteq> set seen)"

lemma bfs_result:
  assumes "store_inv s" "bfs_ok s seen found queue"
  shows "\<exists>extra. bfs s seen found queue = found @ extra \<and> distinct (map poolID extra)
    \<and> poolID ` set extra \<inter> set seen = {} \<and> (\<forall>q \<in> set extra. GetPool s (poolID q) = Some q)
    \<and> poolID ` set extra \<subseteq> (\<Union>i \<in> set queue. below (pools s) i)
    \<and> (\<forall>x \<in> set seen \<union> poolID ` set extra. kid_ids s x \<subseteq> set seen \<union> poolID ` set extra)"
  using assms
proof (induction s seen found queue rule: bfs.induct)
  case (1 s seen found queue)
  show ?case
  proof (cases queue)
    case Nil
    have "\<forall>x \<in> set seen - set queue. kid_ids s x \<subseteq> set seen"
      using 1(4) unfolding bfs_ok_def by (elim conjE)
    then show ?thesis using Nil by (intro exI[of _ "[]"]) (simp add: bfs.simps[of s seen found "[]"])
  next
    case (Cons i rest)
    have "i \<in> poolID ` set found" using 1(4) Cons by (auto simp: bfs_ok_def)
    then obtain p where "GetPool s i = Some p" using 1(4) by (auto simp: bfs_ok_def)
    then have c: "GetPoolChildren s i = Inr (children_of s i)" by (rule GetPoolChildren_eq[OF 1(3)])
    obtain seen' new where f: "fold bfs_visit (children_of s i) (seen, []) = (seen', new)" by fastforce
    from bfs_visit_fold[OF f] have a: "seen' = seen @ map poolID new" "set new \<subseteq> set (children_of s i)"
      "distinct (map poolID new)" "poolID ` set new \<inter> set seen = {}" "set seen' = set seen \<union> kid_ids s i"
      by (auto simp: kid_ids_def)
    have "bfs_ok s seen' (found @ new) (rest @ map poolID new)"
      unfolding bfs_ok_def
    proof (intro conjI ballI)
      show "set (rest @ map poolID new) \<subseteq> set seen'" "set seen' = poolID ` set (found @ new)"
        using 1(4) a(1) Cons unfolding bfs_ok_def by auto
      show "GetPool s (poolID q) = Some q" if "q \<in> set (found @ new)" for q
        using that 1(4) a(2) kid_ids_live[OF 1(3)] unfolding bfs_ok_def by auto
      show "kid_ids s x \<subseteq> set seen'" if "x \<in> set seen' - set (rest @ map poolID new)" for x
      proof (cases "x = i")
        case False
        then have "x \<in> set seen - set queue" using that a(1) Cons by auto
        then show ?thesis using 1(4) a(5) unfolding bfs_ok_def by blast
      qed (use a(5) in blast)
    qed
    from 1(2)[OF Cons c f[symmetric] 1(3) this] obtain extra where e:
      "bfs s seen' (found @ new) (rest @ map poolID new) = (found @ new) @ extra" "distinct (map poolID extra)"
      "poolID ` set extra \<inter> set seen' = {}" "\<forall>q \<in> set extra. GetPool s (poolID q) = Some q"
      "poolID ` set extra \<subseteq> (\<Union>i \<in> set (rest @ map poolID new). below (pools s) i)"
      "\<forall>x \<in> set seen' \<union> poolID ` set extra. kid_ids s x \<subseteq> set seen' \<union> poolID ` set extra" by blast
    have nb: "poolID ` set new \<subseteq> below (pools s) i"
      using a(2) kid_ids_below[OF 1(3)] by (auto simp: kid_ids_def)
    have "poolID ` set (new @ extra) \<subseteq> (\<Union>i \<in> set queue. below (pools s) i)"
    proof
      fix x assume "x \<in> poolID ` set (new @ extra)"
      then have "x \<in> below (pools s) i \<or> (\<exists>j \<in> set (rest @ map poolID new). x \<in> below (pools s) j)"
        using nb e(5) by fastforce
      then show "x \<in> (\<Union>i \<in> set queue. below (pools s) i)"
        using nb below_trans Cons by fastforce
    qed
    moreover have "bfs s seen found queue = found @ (new @ extra)" using e(1) by (simp add: bfs.simps Cons c f)
    moreover have "set seen \<union> poolID ` set (new @ extra) = set seen' \<union> poolID ` set extra" using a(1) by auto
    moreover have "distinct (map poolID (new @ extra))" using a(1,3) e(2,3) by auto
    moreover have "poolID ` set (new @ extra) \<inter> set seen = {}" using a(1,4) e(3) by auto
    moreover have "\<forall>q \<in> set (new @ extra). GetPool s (poolID q) = Some q"
      using a(2) e(4) kid_ids_live[OF 1(3)] by auto
    ultimately show ?thesis using e(6) by (intro exI[of _ "new @ extra"] conjI) simp_all
  qed
qed

lemma resolve_requested_spec:
  "(case resolve_requested s is of Inr ps \<Rightarrow> map (GetPool s) is = map Some ps
      | Inl e \<Rightarrow> errorsIs e ErrNotFound \<and> (\<exists>i \<in> set is. GetPool s i = None))"
  by (induction "is") (auto split: option.split sum.splits)


lemma ListPools_filter:
  assumes "store_inv s"
  shows "ListPools s = map snd (filter (\<lambda>(k, p). \<not> poolDeleted p) (pools s))"
proof -
  have "\<forall>e \<in> set (pools s). tags_ok (poolTags (snd e))"
    using store_invD(3)[OF assms] store_inv_mem[OF assms] by (metis prod.collapse)
  then have "[clonePool p. (_, p) \<leftarrow> ps, \<not> poolDeleted p] = map snd (filter (\<lambda>(k, p). \<not> poolDeleted p) ps)"
    if "set ps \<subseteq> set (pools s)" for ps
    using that by (induction ps) auto
  then show ?thesis by (simp add: ListPools_def)
qed

lemma pool_entry_id: "store_inv s \<Longrightarrow> (k, p) \<in> set (pools s) \<Longrightarrow> poolID p = k"
  using store_invD(3)[of s k p] by (simp add: store_inv_mem)

lemma ListPools_mem:
  assumes "store_inv s"
  shows "q \<in> set (ListPools s) \<longleftrightarrow> GetPool s (poolID q) = Some q"
proof -
  have "q \<in> set (ListPools s) \<longleftrightarrow> (\<exists>k. (k, q) \<in> set (pools s) \<and> \<not> poolDeleted q)"
    unfolding ListPools_filter[OF assms] by force
  also have "\<dots> \<longleftrightarrow> (poolID q, q) \<in> set (pools s) \<and> \<not> poolDeleted q" using pool_entry_id[OF assms] by metis
  finally show ?thesis unfolding GetPool_mem[OF assms] .
qed

lemma ListPools_distinct:
  assumes "store_inv s"
  shows "distinct (map poolID (ListPools s))"
proof -
  have e: "poolID (snd e) = fst e" if "e \<in> set (pools s)" for e
    using that pool_entry_id[OF assms, of "fst e" "snd e"] by simp
  have "map poolID (ListPools s) = map fst (filter (\<lambda>(k, p). \<not> poolDeleted p) (pools s))"
    unfolding ListPools_filter[OF assms] by (auto simp: e)
  then show ?thesis using store_invD(1)[OF assms] by (simp add: gmap_ok_def distinct_map_filter)
qed


lemma base_pools:
  assumes "store_inv s" "(if is = [] then Inr (ListPools s) else resolve_requested s is) = Inr ps"
  shows "\<forall>q \<in> set ps. GetPool s (poolID q) = Some q"
    "poolID ` set ps = (if is = [] then live_ids s else set is)"
    "take (length is) (map poolID ps) = is" "distinct (map poolID ps) = distinct is"
    "is \<noteq> [] \<Longrightarrow> map poolID ps = is"
proof -
  have req: "map poolID ps = is \<and> (\<forall>q \<in> set ps. GetPool s (poolID q) = Some q)" if "is \<noteq> []"
  proof -
    have m: "map (GetPool s) is = map Some ps"
      using that assms(2) resolve_requested_spec[of "is" s] by simp
    have "\<And>i q. GetPool s i = Some q \<Longrightarrow> poolID q = i"
      using pool_entry_id[OF assms(1)] GetPool_mem[OF assms(1)] by blast
    with m show ?thesis
      by (induction "is" arbitrary: ps) (auto simp: Cons_eq_map_conv map_eq_Cons_conv)
  qed
  then show "is \<noteq> [] \<Longrightarrow> map poolID ps = is" by blast
  have all: "is = [] \<Longrightarrow> ps = ListPools s" using assms(2) by simp
  show "\<forall>q \<in> set ps. GetPool s (poolID q) = Some q"
    using req all ListPools_mem[OF assms(1)] by (cases "is = []") auto
  have "poolID ` set (ListPools s) = live_ids s"
  proof
    show "poolID ` set (ListPools s) \<subseteq> live_ids s"
      using ListPools_mem[OF assms(1)] GetPool_iff_live[of s] by fastforce
    show "live_ids s \<subseteq> poolID ` set (ListPools s)"
    proof
      fix k assume "k \<in> live_ids s"
      then obtain q where q: "GetPool s k = Some q" using GetPool_iff_live[of s k] by blast
      then have "poolID q = k" using pool_entry_id[OF assms(1)] GetPool_mem[OF assms(1)] by blast
      then show "k \<in> poolID ` set (ListPools s)" using q ListPools_mem[OF assms(1), of q] by blast
    qed
  qed
  then show "poolID ` set ps = (if is = [] then live_ids s else set is)"
    using req all by (cases "is = []") (auto simp flip: set_map)
  show "take (length is) (map poolID ps) = is" using req by (cases "is = []") auto
  show "distinct (map poolID ps) = distinct is"
    using req all ListPools_distinct[OF assms(1)] by (cases "is = []") auto
qed

end
