(* ===== verification/Analysis.thy ===== *)
theory Analysis
  imports GapFacts
begin

section \<open>Fragmentation and the combined report (internal/planning)\<close>

text \<open>
  \<open>AnalyzeFragmentation\<close> and \<open>Analyze\<close>. Scores are float64 in the code: an operation is the
  rational one followed by the rounding \<open>fl\<close>. The descriptions of the issues are left out. The
  statistics a score compares are quotients by a power of two, which float64 represents exactly.
\<close>

text \<open>Integer division and the conversion of a float64 to an integer truncate towards zero.\<close>

definition go_div :: "int \<Rightarrow> int \<Rightarrow> int" where
  "go_div a b = sgn a * sgn b * (abs a div abs b)"

definition go_trunc :: "rat \<Rightarrow> int" where
  "go_trunc x = (if x < 0 then - \<lfloor>- x\<rfloor> else \<lfloor>x\<rfloor>)"

subsection \<open>Fragmentation (fragmentation.go)\<close>

record fragmentation_issue =
  fiType :: string
  fiSeverity :: string
  fiCIDR :: string
  fiPoolID :: go_id

record fragmentation_analysis =
  faPoolID :: go_id
  faPoolName :: string
  faScore :: int
  faIssues :: "fragmentation_issue list"
  faRecommendations :: "string list"

definition severityForScore :: "rounding \<Rightarrow> rat \<Rightarrow> string" where
  "severityForScore fl x = (if x \<ge> fl (7 / 10) then ''error'' else if x \<ge> fl (4 / 10) then ''warning'' else ''info'')"

definition frag_issue :: "string \<Rightarrow> string \<Rightarrow> pool \<Rightarrow> fragmentation_issue" where
  "frag_issue typ sev p = \<lparr>fiType = typ, fiSeverity = sev, fiCIDR = poolCIDR p, fiPoolID = poolID p\<rparr>"

text \<open>The children whose statistics satisfy a test; a child whose statistics fail is skipped.\<close>

fun children_where :: "mstore \<Rightarrow> (pool_stats \<Rightarrow> bool) \<Rightarrow> pool list \<Rightarrow> pool list option" where
  "children_where s test [] = Some []"
| "children_where s test (c # cs) = (case CalculatePoolUtilization s (poolID c) of
     None \<Rightarrow> None
   | Some (Inl _) \<Rightarrow> children_where s test cs
   | Some (Inr st) \<Rightarrow> do {
       rest \<leftarrow> children_where s test cs;
       Some (if test st then c # rest else rest)
     })"

definition oversized :: "pool_stats \<Rightarrow> bool" where
  "oversized st = (Utilization st < 25 \<and> ChildCount st = 0)"

definition undersized :: "pool_stats \<Rightarrow> bool" where
  "undersized st = (Utilization st > 90)"

definition child_prefix_lens :: "pool list \<Rightarrow> int list" where
  "child_prefix_lens cs = remdups (map pfxBits (List.map_filter (\<lambda>c. parsePrefix (poolCIDR c)) cs))"

definition ratio :: "rounding \<Rightarrow> nat \<Rightarrow> nat \<Rightarrow> rat" where
  "ratio fl a b = (if b > 0 then fl (of_nat a / of_nat b) else 0)"

definition misaligned_score :: "rounding \<Rightarrow> nat \<Rightarrow> rat" where
  "misaligned_score fl k = (if k > 1 then fl (1 - fl (1 / of_nat k)) else 0)"

definition frag_score :: "rounding \<Rightarrow> rat \<Rightarrow> rat \<Rightarrow> rat \<Rightarrow> rat \<Rightarrow> int" where
  "frag_score fl scattered loose tight mis =
     (let score = fl (fl (fl (fl (scattered * 40) + fl (loose * 20)) + fl (tight * 20)) + fl (mis * 20));
          score = (if score > 100 then 100 else score)
      in go_trunc score)"

definition frag_recommendations :: "rounding \<Rightarrow> rat \<Rightarrow> nat \<Rightarrow> nat \<Rightarrow> nat \<Rightarrow> string list" where
  "frag_recommendations fl scattered loose tight lens =
     (if scattered > fl (3 / 10) then [''Consider consolidating allocations to reduce gaps in the address space''] else [])
   @ (if loose > 0 then [''Review '' @ itoa_int (int loose) @ '' oversized pools with <25% utilization for right-sizing''] else [])
   @ (if tight > 0 then [''Plan capacity expansion for '' @ itoa_int (int tight) @ '' pools with >90% utilization''] else [])
   @ (if lens > 2 then [''Standardize subnet sizes to reduce addressing complexity''] else [])"

definition AnalyzeFragmentation ::
    "rounding \<Rightarrow> mstore \<Rightarrow> go_id \<Rightarrow> (go_error + fragmentation_analysis) option" where
  "AnalyzeFragmentation fl s i = (case GetPool s i of
     None \<Rightarrow> Some (Inl (wrapf (''pool '' @ itoa_int i) ErrNotFound))
   | Some p \<Rightarrow> (case GetPoolChildren s i of
       Inl e \<Rightarrow> Some (Inl (wrapf (''get children for pool '' @ itoa_int i) e))
     | Inr children \<Rightarrow>
         if children = [] then
           Some (Inr \<lparr>faPoolID = i, faPoolName = poolName p, faScore = 0, faIssues = [], faRecommendations = []\<rparr>)
         else do {
           gaps \<leftarrow> AnalyzeGaps fl s i;
           case gaps of Inl e \<Rightarrow> Some (Inl (wrapf ''gap analysis for fragmentation'' e))
           | Inr ga \<Rightarrow> do {
               loose \<leftarrow> children_where s oversized children;
               tight \<leftarrow> children_where s undersized children;
               let gapCount = length (gaAvailableBlocks ga);
                   childCount = length children;
                   lens = child_prefix_lens children;
                   scattered = ratio fl gapCount (childCount + gapCount);
                   mis = misaligned_score fl (length lens)
               in Some (Inr \<lparr>faPoolID = i, faPoolName = poolName p,
                    faScore = frag_score fl scattered (ratio fl (length loose) childCount)
                      (ratio fl (length tight) childCount) mis,
                    faIssues =
                      (if gapCount > 1 then [frag_issue ''scattered'' (severityForScore fl scattered) (p\<lparr>poolID := i\<rparr>)] else [])
                      @ map (frag_issue ''oversized'' ''warning'') loose
                      @ map (frag_issue ''undersized'' ''warning'') tight
                      @ (if length lens > 1 then [frag_issue ''misaligned'' (severityForScore fl mis) (p\<lparr>poolID := i\<rparr>)] else []),
                    faRecommendations = frag_recommendations fl scattered (length loose) (length tight) (length lens)\<rparr>)
             }
         }))"

subsection \<open>The combined report (analysis.go)\<close>

record analysis_summary =
  asTotalPools :: int
  asTotalAddresses :: "64 word"
  asUsedAddresses :: "64 word"
  asAvailableAddresses :: "64 word"
  asUtilization :: rat
  asHealthScore :: int
  asErrorCount :: int
  asWarningCount :: int
  asInfoCount :: int

record analysis_report =
  arGeneratedAt :: go_time
  arSummary :: analysis_summary
  arGapAnalyses :: "gap_analysis list"
  arFragmentation :: "fragmentation_analysis option"
  arCompliance :: "compliance_report option"

definition zero_summary :: analysis_summary where
  "zero_summary = \<lparr>asTotalPools = 0, asTotalAddresses = 0, asUsedAddresses = 0, asAvailableAddresses = 0,
     asUtilization = 0, asHealthScore = 100, asErrorCount = 0, asWarningCount = 0, asInfoCount = 0\<rparr>"

fun gap_loop :: "rounding \<Rightarrow> mstore \<Rightarrow> go_id list \<Rightarrow> (go_error + gap_analysis list) option" where
  "gap_loop fl s [] = Some (Inr [])"
| "gap_loop fl s (i # is) = do {
     g \<leftarrow> AnalyzeGaps fl s i;
     case g of Inl e \<Rightarrow> Some (Inl (wrapf (''gap analysis for pool '' @ itoa_int i) e))
     | Inr ga \<Rightarrow> do {
         rest \<leftarrow> gap_loop fl s is;
         Some (case rest of Inl e \<Rightarrow> Inl e | Inr gas \<Rightarrow> Inr (ga # gas))
       }
   }"

text \<open>One violation: the health score and the three counters.\<close>

definition health_step :: "violation \<Rightarrow> int \<times> int \<times> int \<times> int \<Rightarrow> int \<times> int \<times> int \<times> int" where
  "health_step v acc = (case acc of (health, errs, warns, infos) \<Rightarrow>
     if viSeverity v = ''error'' then (health - 15, errs + 1, warns, infos)
     else if viSeverity v = ''warning'' then (health - 5, errs, warns + 1, infos)
     else if viSeverity v = ''info'' then (health - 1, errs, warns, infos + 1)
     else acc)"

definition health_score :: "int \<Rightarrow> fragmentation_analysis option \<Rightarrow> int" where
  "health_score health frag =
     (let health = (case frag of None \<Rightarrow> health | Some f \<Rightarrow> health - go_div (faScore f) 5)
      in if health < 0 then 0 else health)"

definition root_pool_ids :: "go_id list \<Rightarrow> pool list \<Rightarrow> go_id list" where
  "root_pool_ids requested ps =
     (if requested = [] then map poolID (filter (\<lambda>p. poolParentID p = None) ps) else requested)"

definition Analyze ::
    "rounding \<Rightarrow> go_time \<Rightarrow> mstore \<Rightarrow> go_id list \<Rightarrow> bool \<Rightarrow> (go_error + analysis_report) option" where
  "Analyze fl now s poolIDs includeChildren = (case resolvePools s poolIDs includeChildren of
     Inl e \<Rightarrow> Some (Inl e)
   | Inr ps \<Rightarrow>
       if ps = [] then Some (Inr \<lparr>arGeneratedAt = now, arSummary = zero_summary, arGapAnalyses = [],
           arFragmentation = None, arCompliance = None\<rparr>)
       else do {
         let rootIDs = root_pool_ids poolIDs ps;
         gaps \<leftarrow> gap_loop fl s rootIDs;
         case gaps of Inl e \<Rightarrow> Some (Inl e)
         | Inr gas \<Rightarrow> do {
             frag \<leftarrow> (case rootIDs of [] \<Rightarrow> Some None
               | r # _ \<Rightarrow> map_option (\<lambda>x. case x of Inl _ \<Rightarrow> None | Inr f \<Rightarrow> Some f) (AnalyzeFragmentation fl s r));
             comp \<leftarrow> CheckCompliance s (map poolID ps) False;
             case comp of Inl e \<Rightarrow> Some (Inl (wrapf ''compliance check'' e))
             | Inr cr \<Rightarrow>
                 let totalAddr = sum_list (map gaTotalAddresses gas);
                     usedAddr = sum_list (map gaUsedAddresses gas);
                     (health, errs, warns, infos) = fold health_step (crViolations cr) (100, 0, 0, 0)
                 in Some (Inr \<lparr>arGeneratedAt = now,
                      arSummary = \<lparr>asTotalPools = int (length ps), asTotalAddresses = totalAddr,
                        asUsedAddresses = usedAddr, asAvailableAddresses = totalAddr - usedAddr,
                        asUtilization = percent fl usedAddr totalAddr, asHealthScore = health_score health frag,
                        asErrorCount = errs, asWarningCount = warns, asInfoCount = infos\<rparr>,
                      arGapAnalyses = gas, arFragmentation = frag, arCompliance = Some cr\<rparr>)
           }
       })"

end
