(* ===== verification/Compliance.thy ===== *)
theory Compliance
  imports GapFacts
begin

section \<open>The compliance check against its rules\<close>

text \<open>
  The rules of \<open>compliance.go\<close> stated on address sets, and the proof that the checks, run over a
  list of pools with the counters threaded through, report exactly the violations of the rules.
\<close>

definition not_v6 :: "string \<Rightarrow> bool" where
  "not_v6 c \<longleftrightarrow> (case parsePrefix c of None \<Rightarrow> True | Some p \<Rightarrow> is4 (pfxAddr p))"

lemma not_v6E:
  assumes "not_v6 c"
  obtains "parsePrefix c = None" "cidr_addrs c = {}"
  | w n where "parsePrefix c = Some (v4pfx w n)" "n \<le> 32" "cidr_addrs c = addrs4 w n"
proof (cases "parsePrefix c")
  case None
  then show thesis using that(1) by (simp add: cidr_addrs_def)
next
  case (Some p)
  then have "is4 (pfxAddr p)" using assms by (simp add: not_v6_def)
  then obtain w n where "p = v4pfx w n" "n \<le> 32" using Some by (elim parsePrefix_is4E)
  then show thesis using that(2) Some v4_cidr_addrs by blast
qed

definition sibling_overlap :: "pool list \<Rightarrow> pool \<Rightarrow> bool" where
  "sibling_overlap ps p \<longleftrightarrow> (\<exists>q \<in> set ps. poolID q \<noteq> poolID p \<and> poolParentID q \<noteq> None
     \<and> poolParentID q = poolParentID p \<and> cidr_addrs (poolCIDR q) \<inter> cidr_addrs (poolCIDR p) \<noteq> {})"

definition private_cidr :: "string \<Rightarrow> bool" where
  "private_cidr c \<longleftrightarrow> (\<exists>r \<in> set rfc1918_prefixes. cidr_addrs c \<subseteq> pfx_addrs r)"

definition pool_violations :: "mstore \<Rightarrow> pool list \<Rightarrow> pool \<Rightarrow> violation list" where
  "pool_violations s ps p =
     (if sibling_overlap ps p then [violation_of p ''OVERLAP-001'' ''error''] else [])
   @ (if private_cidr (poolCIDR p) then [] else [violation_of p ''RFC1918-001'' ''warning''])
   @ (if isParentType p \<and> children_of s (poolID p) = [] then [violation_of p ''EMPTY-001'' ''warning''] else [])
   @ (if poolName p = [] then [violation_of p ''NAME-001'' ''info''] else [])
   @ (if poolDescription p = [] then [violation_of p ''NAME-002'' ''info''] else [])"

definition of_rule :: "string \<Rightarrow> violation list \<Rightarrow> nat" where
  "of_rule rule vs = length (filter (\<lambda>v. viRuleID v = rule) vs)"

lemma of_rule_simps [simp]:
  "of_rule rule [] = 0" "of_rule rule (vs @ ws) = of_rule rule vs + of_rule rule ws"
  "of_rule rule [violation_of p rule' sev] = (if rule' = rule then 1 else 0)"
  by (simp_all add: of_rule_def violation_of_def)

definition add_violations :: "nat \<Rightarrow> violation list \<Rightarrow> compliance_report \<Rightarrow> compliance_report" where
  "add_violations n vs r = r\<lparr>crTotalChecks := crTotalChecks r + int n,
     crFailed := crFailed r + int (of_rule ''OVERLAP-001'' vs),
     crWarnings := crWarnings r + int (of_rule ''RFC1918-001'' vs + of_rule ''EMPTY-001'' vs + of_rule ''NAME-001'' vs),
     crViolations := crViolations r @ vs\<rparr>"

lemma add_violations_add:
  "add_violations m ws (add_violations n vs r) = add_violations (n + m) (vs @ ws) r"
  by (simp add: add_violations_def)

lemma overlaps_sibling_iff:
  assumes "not_v6 (poolCIDR p)" "\<forall>q \<in> set ps. not_v6 (poolCIDR q)"
  shows "overlaps_sibling p ps = Some (sibling_overlap ps p)"
  using assms(2)
proof (induction ps)
  case (Cons q ps)
  have step: "sibling_overlap (q # ps) p \<longleftrightarrow> (poolID q \<noteq> poolID p \<and> poolParentID q \<noteq> None
      \<and> poolParentID q = poolParentID p \<and> cidr_addrs (poolCIDR q) \<inter> cidr_addrs (poolCIDR p) \<noteq> {})
      \<or> sibling_overlap ps p"
    by (auto simp: sibling_overlap_def)
  have q: "not_v6 (poolCIDR q)" using Cons.prems by simp
  show ?case using Cons
    by (cases rule: not_v6E[OF assms(1)]; cases rule: not_v6E[OF q])
      (auto simp: step prefixesOverlap_v4 Int_commute)
qed (simp add: sibling_overlap_def)

lemma rfc1918_prefixes_eq:
  "rfc1918_prefixes = [v4pfx 0x0A000000 8, v4pfx 0xAC100000 12, v4pfx 0xC0A80000 16]"
  by code_simp

lemma rfc1918_v4:
  assumes "r \<in> set rfc1918_prefixes"
  obtains w n where "r = v4pfx w n" "n \<le> 32"
  using assms unfolding rfc1918_prefixes_eq set_simps
  by (elim insertE emptyE) (rule that, assumption, simp)+

lemma isRFC1918_v4:
  assumes "n \<le> 32"
  shows "isRFC1918 (masked (v4pfx w n)) = Some (\<exists>r \<in> set rfc1918_prefixes. addrs4 w n \<subseteq> pfx_addrs r)"
proof -
  let ?iv = "(netmask4 n w, last4 w n)"
  have "(case prefixToInterval r of None \<Rightarrow> False | Some ri \<Rightarrow> fst ?iv \<ge> fst ri \<and> snd ?iv \<le> snd ri)
      \<longleftrightarrow> addrs4 w n \<subseteq> pfx_addrs r" if r0: "r \<in> set rfc1918_prefixes" for r
  proof -
    obtain x m where r: "r = v4pfx x m" "m \<le> 32" by (rule rfc1918_v4[OF r0])
    have "netmask4 n w \<le> last4 w n" using netmask4_in[of n w] addrs4_range[OF assms, of w] by simp
    then show ?thesis using r assms by (simp add: addrs4_range)
  qed
  then have "list_ex (\<lambda>r. case prefixToInterval r of None \<Rightarrow> False | Some ri \<Rightarrow> fst ?iv \<ge> fst ri \<and> snd ?iv \<le> snd ri)
      rfc1918_prefixes \<longleftrightarrow> (\<exists>r \<in> set rfc1918_prefixes. addrs4 w n \<subseteq> pfx_addrs r)"
    unfolding list_ex_iff by blast
  then show ?thesis using assms by (simp add: isRFC1918_def)
qed

lemma checkOverlap_eq:
  assumes "not_v6 (poolCIDR p)" "\<forall>q \<in> set ps. not_v6 (poolCIDR q)"
  shows "checkOverlap p ps r = Some (add_violations 1
     (if sibling_overlap ps p then [violation_of p ''OVERLAP-001'' ''error''] else []) r)"
proof (cases "poolParentID p")
  case None
  then have "\<not> sibling_overlap ps p" by (auto simp: sibling_overlap_def)
  then show ?thesis using None by (simp add: checkOverlap_def add_violations_def)
qed (simp add: checkOverlap_def overlaps_sibling_iff[OF assms] add_violations_def Let_def)

lemma checkRFC1918_eq:
  assumes "not_v6 (poolCIDR p)"
  shows "checkRFC1918 p r = Some (add_violations 1
     (if private_cidr (poolCIDR p) then [] else [violation_of p ''RFC1918-001'' ''warning'']) r)"
proof (cases rule: not_v6E[OF assms])
  case 1
  have "private_cidr (poolCIDR p)" using 1 unfolding private_cidr_def rfc1918_prefixes_eq
    by (metis empty_subsetI list.set_intros(1))
  then show ?thesis using 1 by (simp add: checkRFC1918_def add_violations_def)
next
  case (2 w n)
  then show ?thesis using isRFC1918_v4[OF 2(2), of w]
    by (simp add: checkRFC1918_def add_violations_def private_cidr_def Let_def)
qed

lemma checkEmpty_eq:
  assumes "store_inv s" "GetPool s (poolID p) = Some p"
  shows "checkEmpty s p r = add_violations 1 (if isParentType p \<and> children_of s (poolID p) = []
     then [violation_of p ''EMPTY-001'' ''warning''] else []) r"
  using GetPoolChildren_eq[OF assms] by (simp add: checkEmpty_def add_violations_def Let_def)

lemma checkNaming_eq:
  "checkNaming p r = add_violations 2 ((if poolName p = [] then [violation_of p ''NAME-001'' ''info''] else [])
     @ (if poolDescription p = [] then [violation_of p ''NAME-002'' ''info''] else [])) r"
  by (simp add: checkNaming_def add_violations_def Let_def)

lemma check_pools_eq:
  assumes "store_inv s" "\<forall>q \<in> set all. not_v6 (poolCIDR q)" "set ps \<subseteq> set all"
    "\<forall>q \<in> set ps. GetPool s (poolID q) = Some q"
  shows "check_pools s all ps r = Some (add_violations (5 * length ps) (concat (map (pool_violations s all) ps)) r)"
  using assms(3,4)
proof (induction ps arbitrary: r)
  case (Cons p ps)
  have "not_v6 (poolCIDR p)" "GetPool s (poolID p) = Some p" using Cons.prems assms(2) by auto
  then have "checkPool s all p r = Some (add_violations 5 (pool_violations s all p) r)"
    by (simp add: checkPool_def checkOverlap_eq[OF _ assms(2)] checkRFC1918_eq checkEmpty_eq[OF assms(1)]
        checkNaming_eq add_violations_add pool_violations_def numeral_eq_Suc)
  then show ?case using Cons by (simp add: add_violations_add)
qed (simp add: add_violations_def)

lemma pool_violations_count:
  "int (length (pool_violations s all p)) = int (of_rule ''OVERLAP-001'' (pool_violations s all p))
     + int (of_rule ''RFC1918-001'' (pool_violations s all p) + of_rule ''EMPTY-001'' (pool_violations s all p)
        + of_rule ''NAME-001'' (pool_violations s all p)) + int (of_rule ''NAME-002'' (pool_violations s all p))"
  by (simp add: pool_violations_def)

end
