(* ===== verification/AnalysisFacts.thy ===== *)
theory AnalysisFacts
  imports Analysis Compliance
begin

section \<open>Totality and bounds of the analysis\<close>

text \<open>Every pass of the analysis returns when the live pools are not IPv6, and its scores keep
  their ranges for any float64 rounding.\<close>

lemma children_where_defined:
  assumes "store_reachable s"
  shows "\<exists>r. children_where s test cs = Some r \<and> length r \<le> length cs \<and> set r \<subseteq> set cs"
proof (induction cs)
  case (Cons c cs)
  then obtain r where r: "children_where s test cs = Some r" "length r \<le> length cs" "set r \<subseteq> set cs" by blast
  obtain u where u: "CalculatePoolUtilization s (poolID c) = Some u"
    using utilization_defined[OF assms] by blast
  then show ?case using r by (cases u) auto
qed simp

lemma ratio_bounds: "float64_rounding fl \<Longrightarrow> a \<le> b \<Longrightarrow> 0 \<le> ratio fl a b \<and> ratio fl a b \<le> 1"
  using fl_01[of fl "of_nat a / of_nat b"] nat_ratio[of a b] by (simp add: ratio_def)

lemma misaligned_bounds:
  assumes "float64_rounding fl"
  shows "0 \<le> misaligned_score fl k \<and> misaligned_score fl k \<le> 1"
proof (cases "k > 1")
  case True
  have "0 \<le> fl (1 / of_nat k) \<and> fl (1 / of_nat k) \<le> 1"
    using True by (intro fl_01[OF assms]) (simp_all add: divide_le_eq)
  then show ?thesis using True fl_01[OF assms, of "1 - fl (1 / of_nat k)"] by (simp add: misaligned_score_def)
qed (simp add: misaligned_score_def)

lemma fl_upto: "float64_rounding fl \<Longrightarrow> 0 \<le> x \<Longrightarrow> x \<le> of_int n \<Longrightarrow> n \<le> 2 ^ 53 \<Longrightarrow> 0 \<le> fl x \<and> fl x \<le> of_int n"
proof -
  assume a: "float64_rounding fl" "0 \<le> x" "x \<le> of_int n" "n \<le> 2 ^ 53"
  have "0 \<le> (of_int n :: rat)" using a by linarith
  then have "0 \<le> n" by simp
  then show ?thesis using fl_between[OF a(1), of 0 x n] a by simp
qed

lemma frag_score_bounds:
  assumes fl: "float64_rounding fl" and "0 \<le> a" "a \<le> 1" "0 \<le> b" "b \<le> 1" "0 \<le> c" "c \<le> 1" "0 \<le> d" "d \<le> 1"
  shows "0 \<le> frag_score fl a b c d \<and> frag_score fl a b c d \<le> 100"
proof -
  define s1 where "s1 = fl (fl (a * 40) + fl (b * 20))"
  define s2 where "s2 = fl (s1 + fl (c * 20))"
  define s3 where "s3 = fl (s2 + fl (d * 20))"
  have a: "0 \<le> fl (a * 40) \<and> fl (a * 40) \<le> 40" using fl_upto[OF fl, of "a * 40" 40] assms by simp
  have b: "0 \<le> fl (x * 20) \<and> fl (x * 20) \<le> 20" if "0 \<le> x" "x \<le> 1" for x
    using fl_upto[OF fl, of "x * 20" 20] that by simp
  have s1: "0 \<le> s1 \<and> s1 \<le> 60" unfolding s1_def using fl_upto[OF fl, of _ 60] a b[of b] assms by fastforce
  have s2: "0 \<le> s2 \<and> s2 \<le> 80" unfolding s2_def using fl_upto[OF fl, of _ 80] s1 b[of c] assms by fastforce
  have s3: "0 \<le> s3 \<and> s3 \<le> 100" unfolding s3_def using fl_upto[OF fl, of _ 100] s2 b[of d] assms by fastforce
  have "frag_score fl a b c d = \<lfloor>s3\<rfloor>"
    using s3 by (simp add: frag_score_def s1_def s2_def s3_def go_trunc_def Let_def)
  then show ?thesis using s3 by (simp add: floor_le_iff)
qed

lemma child_blocks_defined:
  assumes "store_reachable s" "\<forall>c \<in> set cs. not_v6 (poolCIDR c)"
  shows "\<exists>r. child_blocks s cs = Some r"
  using assms(2)
proof (induction cs)
  case (Cons c cs)
  then obtain ivs bs where r: "child_blocks s cs = Some (ivs, bs)" by auto
  obtain u where u: "child_utilization s (poolID c) = Some u" using child_utilization_defined[OF assms(1)] by blast
  have "not_v6 (poolCIDR c)" using Cons.prems by simp
  then show ?case by (cases rule: not_v6E) (simp_all add: r u)
qed simp

definition all_v4 :: "mstore \<Rightarrow> bool" where
  "all_v4 s \<longleftrightarrow> (\<forall>q \<in> set (ListPools s). v4_cidr (poolCIDR q))"

lemma all_v4_get: "store_inv s \<Longrightarrow> all_v4 s \<Longrightarrow> GetPool s i = Some p \<Longrightarrow> v4_cidr (poolCIDR p)"
  using ListPools_mem[of s p] pool_entry_id[of s i p] by (auto simp: all_v4_def GetPool_mem)

lemma v4_not_v6: "v4_cidr c \<Longrightarrow> not_v6 c"
  by (auto simp: v4_cidr_def not_v6_def)

lemma AnalyzeGaps_defined:
  assumes "store_reachable s" "all_v4 s" "GetPool s i = Some p"
  shows "\<exists>ga. AnalyzeGaps fl s i = Some (Inr ga)"
proof -
  have inv: "store_inv s" using reachable_invs[OF assms(1)] by simp
  obtain w n where p: "parsePrefix (poolCIDR p) = Some (v4pfx w n)" "n \<le> 32"
    using all_v4_get[OF inv assms(2,3)] by (auto simp: v4_cidr_def)
  have "\<forall>c \<in> set (children_of s i). not_v6 (poolCIDR c)"
    using all_v4_get[OF inv assms(2)] v4_not_v6 by (auto simp: children_of_mem[OF inv])
  then obtain ivs bs where "child_blocks s (children_of s i) = Some (ivs, bs)"
    using child_blocks_defined[OF assms(1)] by fastforce
  then show ?thesis using p GetPoolChildren_eq[OF inv assms(3)] by (simp add: AnalyzeGaps_def assms(3) Let_def)
qed

lemma AnalyzeFragmentation_bounds:
  assumes "store_reachable s" "all_v4 s" "GetPool s i = Some p" "float64_rounding fl"
  shows "\<exists>f. AnalyzeFragmentation fl s i = Some (Inr f) \<and> 0 \<le> faScore f \<and> faScore f \<le> 100"
proof -
  let ?cs = "children_of s i"
  have c: "GetPoolChildren s i = Inr ?cs" using GetPoolChildren_eq[OF _ assms(3)] reachable_invs[OF assms(1)] by simp
  obtain ga where ga: "AnalyzeGaps fl s i = Some (Inr ga)" using AnalyzeGaps_defined[OF assms(1-3)] by blast
  obtain lo where lo: "children_where s oversized ?cs = Some lo" "length lo \<le> length ?cs"
    using children_where_defined[OF assms(1)] by blast
  obtain ti where ti: "children_where s undersized ?cs = Some ti" "length ti \<le> length ?cs"
    using children_where_defined[OF assms(1)] by blast
  have "length (gaAvailableBlocks ga) \<le> length ?cs + length (gaAvailableBlocks ga)" by simp
  then show ?thesis
    using c ga lo ti ratio_bounds[OF assms(4)] misaligned_bounds[OF assms(4)] frag_score_bounds[OF assms(4)]
    by (simp add: AnalyzeFragmentation_def assms(3) Let_def)
qed

definition severity_count :: "string \<Rightarrow> violation list \<Rightarrow> int" where
  "severity_count sev vs = int (length (filter (\<lambda>v. viSeverity v = sev) vs))"

lemma fold_health_step:
  "fold health_step vs (h, e, w, i) =
     (h - 15 * severity_count ''error'' vs - 5 * severity_count ''warning'' vs - severity_count ''info'' vs,
      e + severity_count ''error'' vs, w + severity_count ''warning'' vs, i + severity_count ''info'' vs)"
  by (induction vs arbitrary: h e w i) (simp_all add: severity_count_def health_step_def)

lemma gap_loop_defined:
  assumes "store_reachable s" "all_v4 s" "\<forall>i \<in> set is. GetPool s i \<noteq> None"
  shows "\<exists>gas. gap_loop fl s is = Some (Inr gas)"
  using assms(3)
proof (induction "is")
  case (Cons i "is")
  then obtain p where "GetPool s i = Some p" by auto
  then obtain ga where "AnalyzeGaps fl s i = Some (Inr ga)" using AnalyzeGaps_defined[OF assms(1,2)] by blast
  then show ?case using Cons by auto
qed simp


lemma resolve_again:
  assumes "\<forall>q \<in> set ps. GetPool s (poolID q) = Some q"
  shows "resolve_requested s (map poolID ps) = Inr ps"
  using assms by (induction ps) simp_all

lemma severity_count_simps [simp]:
  "severity_count sev [] = 0" "severity_count sev (vs @ ws) = severity_count sev vs + severity_count sev ws"
  "severity_count sev [violation_of p rule sev'] = (if sev' = sev then 1 else 0)"
  by (simp_all add: severity_count_def violation_of_def)

lemma severity_pool:
  "severity_count ''error'' (pool_violations s all p) + severity_count ''warning'' (pool_violations s all p)
     + severity_count ''info'' (pool_violations s all p) = int (length (pool_violations s all p))"
  by (simp add: pool_violations_def)

lemma severity_split:
  "severity_count ''error'' (concat (map (pool_violations s all) ps))
     + severity_count ''warning'' (concat (map (pool_violations s all) ps))
     + severity_count ''info'' (concat (map (pool_violations s all) ps))
     = int (length (concat (map (pool_violations s all) ps)))"
proof (induction ps)
  case (Cons p ps)
  then show ?case using severity_pool[of s all p] by simp
qed simp

lemma go_div_nonneg: "0 \<le> x \<Longrightarrow> 0 < y \<Longrightarrow> go_div x y = x div y \<and> 0 \<le> x div y"
  by (cases "x = 0") (simp_all add: go_div_def pos_imp_zdiv_nonneg_iff)

lemma health_score_range:
  assumes "h \<le> 100" "\<And>f. frag = Some f \<Longrightarrow> 0 \<le> faScore f"
  shows "health_score h frag = max 0 (h - (case frag of None \<Rightarrow> 0 | Some f \<Rightarrow> faScore f div 5))
    \<and> 0 \<le> health_score h frag \<and> health_score h frag \<le> 100"
proof (cases frag)
  case None
  then show ?thesis using assms(1) unfolding health_score_def Let_def by simp
next
  case (Some f)
  define d where "d = faScore f div 5"
  have "go_div (faScore f) 5 = d" "0 \<le> d" using go_div_nonneg[of "faScore f" 5] assms(2) Some by (simp_all add: d_def)
  then show ?thesis using assms(1) Some unfolding health_score_def Let_def by (simp add: d_def[symmetric])
qed

lemma severity_count_nonneg [simp]: "0 \<le> severity_count sev vs"
  by (simp add: severity_count_def)

end
