(* ===== verification/PlanningProps.thy ===== *)
theory PlanningProps
  imports AnalysisFacts
begin

section \<open>Properties of the network analysis\<close>

text \<open>C4: for every pool of a reachable store with an IPv4 CIDR whose live children are IPv4 and
  lie inside it, \<open>AnalyzeGaps\<close> answers: it lists every child once; the free blocks it
  prints parse back to aligned, pairwise disjoint prefixes that cover exactly the pool's addresses
  minus the children's; each count is the number of addresses it names, and the percentage lies
  between 0 and 100 for any float64 rounding.\<close>
theorem gap_analysis_exact:
  assumes "store_reachable s" "GetPool s i = Some p" "v4_cidr (poolCIDR p)"
    "\<forall>c \<in> set (children_of s i). v4_cidr (poolCIDR c) \<and> cidr_addrs (poolCIDR c) \<subseteq> cidr_addrs (poolCIDR p)"
    "float64_rounding fl"
  shows "\<exists>ga ps. AnalyzeGaps fl s i = Some (Inr ga)
    \<and> map abPoolID (gaAllocatedBlocks ga) = map poolID (children_of s i)
    \<and> map (\<lambda>b. parsePrefix (avCIDR b)) (gaAvailableBlocks ga) = map Some ps
    \<and> map (\<lambda>b. unat (avAddressCount b)) (gaAvailableBlocks ga) = map (\<lambda>q. card (pfx_addrs q)) ps
    \<and> (\<forall>q \<in> set ps. aligned4 q) \<and> sorted_wrt (\<lambda>q r. pfx_addrs q \<inter> pfx_addrs r = {}) ps
    \<and> (\<Union>q \<in> set ps. pfx_addrs q)
        = cidr_addrs (poolCIDR p) - (\<Union>c \<in> set (children_of s i). cidr_addrs (poolCIDR c))
    \<and> unat (gaTotalAddresses ga) = card (cidr_addrs (poolCIDR p))
    \<and> unat (gaFreeAddresses ga) = card (\<Union>q \<in> set ps. pfx_addrs q)
    \<and> unat (gaUsedAddresses ga) = card (\<Union>c \<in> set (children_of s i). cidr_addrs (poolCIDR c))
    \<and> 0 \<le> gaUtilization ga \<and> gaUtilization ga \<le> 100"
proof -
  let ?cs = "children_of s i"
  define kids where "kids = (\<Union>c \<in> set ?cs. cidr_addrs (poolCIDR c))"
  obtain w n where w: "parsePrefix (poolCIDR p) = Some (v4pfx w n)" "n \<le> 32" using assms(3) by (auto simp: v4_cidr_def)
  define A where "A = addrs4 w n"
  define lo where "lo = netmask4 n w"
  define hi where "hi = last4 w n"
  have addrs: "cidr_addrs (poolCIDR p) = A" "A = {lo .. hi}" "lo \<le> hi"
    using v4_cidr_addrs[OF w] addrs4_range[OF w(2), of w] netmask4_in[of n w]
    by (auto simp: A_def lo_def hi_def)
  have v4: "\<forall>c \<in> set ?cs. v4_cidr (poolCIDR c)" using assms(4) by blast
  have sub: "kids \<subseteq> A" using assms(4) by (auto simp: kids_def addrs(1))
  obtain blocks where b: "child_blocks s ?cs = Some (map child_interval ?cs, blocks)" "map abPoolID blocks = map poolID ?cs"
    using child_blocks_total[of ?cs s] v4 child_utilization_defined[OF assms(1)] by blast
  define frs where "frs = findFreeRanges lo hi (map child_interval ?cs)"
  define ps where "ps = range_blocks frs"
  have "\<forall>iv \<in> set (map child_interval ?cs). iv_in lo hi iv"
    using assms(4) child_interval_in by (auto simp: addrs)
  then have free: "ivs_union frs = A - kids" "gaps_from lo hi frs"
    using findFreeRanges_spec[OF addrs(3), of "map child_interval ?cs"]
    unfolding frs_def kids_def ivs_union_children[OF v4] addrs(2) by blast+
  note rb = range_blocks_spec[OF free(2), folded ps_def]
  have al: "\<And>q. q \<in> set ps \<Longrightarrow> aligned4 q" using rb by blast
  have un: "(\<Union>q \<in> set ps. pfx_addrs q) = A - kids" using rb free(1) by blast
  have fre: "sum_list (map avAddressCount (available_blocks frs)) = of_nat (card (A - kids))"
    using sum_counts[of prefixAddressCount ps] range_blocks_count[OF free(2)] free(1)
    by (simp add: available_blocks_eq ps_def comp_def)
  have tot: "of_nat (prefixAddressCount (masked (v4pfx w n))) = (of_nat (card A) :: 64 word)"
    using masked_count[OF w(2), of w] by (simp add: A_def)
  have cards: "card (A - kids) \<le> card A" "card kids = card A - card (A - kids)"
    using sub by (simp_all add: card_mono card_Diff_subset)
  note u = unat_of_nat64[OF card_word32]
  have le: "(of_nat (card (A - kids)) :: 64 word) \<le> of_nat (card A)"
    using cards(1) by (simp add: word_le_nat_alt u)
  have used: "unat (of_nat (card A) - of_nat (card (A - kids)) :: 64 word) = card kids"
    using unat_sub[OF le] cards(2) by (simp add: u)
  have usedle: "(of_nat (card A) - of_nat (card (A - kids)) :: 64 word) \<le> of_nat (card A)"
    using used cards by (simp add: word_le_nat_alt u)
  define ga where "ga = \<lparr>gaPoolID = i, gaPoolName = poolName p, gaParentCIDR = poolCIDR p,
      gaAllocatedBlocks = blocks, gaAvailableBlocks = available_blocks frs, gaTotalAddresses = of_nat (card A),
      gaUsedAddresses = of_nat (card A) - of_nat (card (A - kids)), gaFreeAddresses = of_nat (card (A - kids)),
      gaUtilization = percent fl (of_nat (card A) - of_nat (card (A - kids))) (of_nat (card A))\<rparr>"
  have run: "AnalyzeGaps fl s i = Some (Inr ga)"
    using GetPoolChildren_eq[OF _ assms(2)] reachable_invs[OF assms(1)] b(1) tot fre w(2)
    by (simp add: AnalyzeGaps_def assms(2) w(1) aligned4_prefixToInterval Let_def frs_def lo_def hi_def ga_def)
  have "map (\<lambda>b. parsePrefix (avCIDR b)) (available_blocks frs) = map Some ps"
    using al prefix_string_parse by (simp add: available_blocks_eq ps_def)
  moreover have "map (\<lambda>b. unat (avAddressCount b)) (available_blocks frs) = map (\<lambda>q. card (pfx_addrs q)) ps"
    using al block_count64 by (simp add: available_blocks_eq ps_def)
  ultimately show ?thesis
    using b(2) rb un used percent_bounds[OF assms(5) usedle]
    by (intro exI[of _ ga] exI[of _ ps] conjI) (simp_all add: run addrs(1) kids_def[symmetric] u ga_def)
qed


lemma demo_pool2:
  "map_option poolCIDR (GetPool demo_store 2) = Some ''10.1.0.0/16''"
  "map (\<lambda>c. (poolID c, poolCIDR c)) (children_of demo_store 2) = [(4, ''10.1.1.0/24'')]"
  "parsePrefix ''10.1.0.0/16'' = Some (v4pfx 0x0A010000 16)"
  "parsePrefix ''10.1.1.0/24'' = Some (v4pfx 0x0A010100 24)"
  "PrefixContains (v4pfx 0x0A010000 16) (v4pfx 0x0A010100 24)"
  by code_simp+

theorem gap_analysis_exact_witness:
  "\<exists>ga. AnalyzeGaps (\<lambda>x. x) demo_store 2 = Some (Inr ga) \<and> map abPoolID (gaAllocatedBlocks ga) = [4]
     \<and> unat (gaTotalAddresses ga) = 65536 \<and> unat (gaUsedAddresses ga) = 256 \<and> gaUtilization ga \<le> 100"
proof -
  obtain p where p: "GetPool demo_store 2 = Some p" "poolCIDR p = ''10.1.0.0/16''"
    using demo_pool2(1) by auto
  obtain c where c: "children_of demo_store 2 = [c]" "poolID c = 4" "poolCIDR c = ''10.1.1.0/24''"
    using demo_pool2(2) by auto
  have v: "v4_cidr ''10.1.0.0/16''" "v4_cidr ''10.1.1.0/24''"
    unfolding v4_cidr_def demo_pool2 by (intro exI conjI, rule refl, simp)+
  have A: "cidr_addrs ''10.1.0.0/16'' = addrs4 0x0A010000 16" "cidr_addrs ''10.1.1.0/24'' = addrs4 0x0A010100 24"
    using v4_cidr_addrs demo_pool2(3,4) by simp_all
  have sub: "cidr_addrs ''10.1.1.0/24'' \<subseteq> cidr_addrs ''10.1.0.0/16''"
    unfolding A using PrefixContains_v4[of 24 16 "0x0A010000" "0x0A010100"] demo_pool2(5) by simp
  have "\<forall>c \<in> set (children_of demo_store 2). v4_cidr (poolCIDR c) \<and> cidr_addrs (poolCIDR c) \<subseteq> cidr_addrs (poolCIDR p)"
    using v sub by (simp add: c p(2))
  from gap_analysis_exact[OF demo_reachable p(1) v(1)[folded p(2)] this float64_rounding_id]
  show ?thesis by (auto simp: c p(2) A card_addrs4 block_size_def)
qed


lemma resolvePools_spec:
  assumes "store_reachable s"
  shows "case resolvePools s is kids of
      Inl e \<Rightarrow> errorsIs e ErrNotFound \<and> (\<exists>i \<in> set is. GetPool s i = None)
    | Inr ps \<Rightarrow> (\<forall>q \<in> set ps. GetPool s (poolID q) = Some q)
        \<and> poolID ` set ps = (if is = [] then live_ids s
             else if kids then (\<Union>i \<in> set is. below (pools s) i) else set is)
        \<and> take (length is) (map poolID ps) = is \<and> distinct (map poolID ps) = distinct is"
proof -
  have inv: "store_inv s" using reachable_invs[OF assms] by simp
  define base where "base = (if is = [] then Inr (ListPools s) else resolve_requested s is)"
  show ?thesis
  proof (cases base)
    case (Inl e)
    then have "is \<noteq> []" "resolve_requested s is = Inl e" by (auto simp: base_def split: if_splits)
    then show ?thesis using resolve_requested_spec[of "is" s] by (simp add: resolvePools_def)
  next
    case (Inr ps)
    note b = base_pools[OF inv Inr[unfolded base_def]]
    show ?thesis
    proof (cases kids)
      case False
      then show ?thesis using b Inr by (simp add: resolvePools_def base_def[symmetric])
    next
      case True
      let ?ids = "map poolID ps"
      have ok: "bfs_ok s ?ids ps ?ids" using b by (simp add: bfs_ok_def)
      from bfs_result[OF inv ok] obtain extra where e: "bfs s ?ids ps ?ids = ps @ extra" "distinct (map poolID extra)"
        "poolID ` set extra \<inter> set ?ids = {}" "\<forall>q \<in> set extra. GetPool s (poolID q) = Some q"
        "poolID ` set extra \<subseteq> (\<Union>i \<in> set ?ids. below (pools s) i)"
        "\<forall>x \<in> set ?ids \<union> poolID ` set extra. kid_ids s x \<subseteq> set ?ids \<union> poolID ` set extra" by blast
      have all: "poolID ` set (ps @ extra) = (\<Union>i \<in> set ?ids. below (pools s) i)"
      proof
        show "poolID ` set (ps @ extra) \<subseteq> (\<Union>i \<in> set ?ids. below (pools s) i)"
          using e(5) below_self by fastforce
        show "(\<Union>i \<in> set ?ids. below (pools s) i) \<subseteq> poolID ` set (ps @ extra)"
        proof
          fix x assume "x \<in> (\<Union>i \<in> set ?ids. below (pools s) i)"
          then obtain i where "i \<in> set ?ids" "x \<in> below (pools s) i" by blast
          then have "x \<in> set ?ids \<union> poolID ` set extra"
            using below_closed[OF inv, of i "set ?ids \<union> poolID ` set extra"] e(6) by blast
          then show "x \<in> poolID ` set (ps @ extra)" by auto
        qed
      qed
      have "resolvePools s is kids = Inr (ps @ extra)"
        using True Inr e(1) by (simp add: resolvePools_def base_def[symmetric])
      moreover have "is = [] \<Longrightarrow> (\<Union>i \<in> set ?ids. below (pools s) i) = live_ids s"
        using b below_live[OF inv] below_self by fastforce
      ultimately show ?thesis using True b e(2-4) all by auto
    qed
  qed
qed

text \<open>The pools an analysis runs on. In a reachable store \<open>resolvePools\<close> terminates and
  either reports not found, some requested id being no live pool, or lists live pools: all of them
  when no id is given, the requested pools in order, and with \<open>includeChildren\<close> exactly the
  pools at or below them; no pool twice unless the request names one twice.\<close>
theorem resolvePools_subtrees:
  assumes "store_reachable s"
  shows "case resolvePools s is kids of
      Inl e \<Rightarrow> errorsIs e ErrNotFound \<and> (\<exists>i \<in> set is. GetPool s i = None)
    | Inr ps \<Rightarrow> (\<forall>q \<in> set ps. GetPool s (poolID q) = Some q)
        \<and> poolID ` set ps = (if is = [] then live_ids s
             else if kids then (\<Union>i \<in> set is. below (pools s) i) else set is)
        \<and> take (length is) (map poolID ps) = is \<and> distinct (map poolID ps) = distinct is"
  using assms by (rule resolvePools_spec)

theorem resolvePools_subtrees_witness:
  "\<exists>ps. resolvePools demo_store [2] True = Inr ps \<and> map poolID ps = [2, 4]
     \<and> poolID ` set ps = below (pools demo_store) 2"
proof -
  have r: "(case resolvePools demo_store [2] True of Inl _ \<Rightarrow> [] | Inr ps \<Rightarrow> map poolID ps) = [2, 4]" by code_simp
  then obtain ps where ps: "resolvePools demo_store [2] True = Inr ps" "map poolID ps = [2, 4]"
    by (cases "resolvePools demo_store [2] True") simp_all
  then show ?thesis using resolvePools_subtrees[OF demo_reachable, of "[2]" True] by simp
qed

lemma concat_counts:
  "of_rule rule (concat (map f ps)) = sum_list (map (\<lambda>p. of_rule rule (f p)) ps)"
  by (induction ps) simp_all

lemma passed_count:
  "int (length (concat (map (pool_violations s all) ps)))
     = int (of_rule ''OVERLAP-001'' (concat (map (pool_violations s all) ps)))
     + int (of_rule ''RFC1918-001'' (concat (map (pool_violations s all) ps))
        + of_rule ''EMPTY-001'' (concat (map (pool_violations s all) ps))
        + of_rule ''NAME-001'' (concat (map (pool_violations s all) ps)))
     + int (of_rule ''NAME-002'' (concat (map (pool_violations s all) ps)))"
  "length (concat (map (pool_violations s all) ps)) \<le> 5 * length ps"
proof -
  have "length (pool_violations s all p) \<le> 5" for p by (simp add: pool_violations_def)
  then show "length (concat (map (pool_violations s all) ps)) \<le> 5 * length ps"
    by (induction ps) (simp_all add: add_mono)
qed (induction ps, simp_all add: pool_violations_count)

text \<open>C25: the compliance report is the rules. When the resolved pools of a reachable store are
  not IPv6, \<open>CheckCompliance\<close> returns a report whose violations are, pool by pool and in
  order, those the rules on address sets give: a sibling with common addresses, a block outside
  the private ranges, a parent-type pool without children, an empty name, an empty description.
  It counts five checks per pool, the overlaps as failed, the next three as warnings, and the rest
  as passed, so that a missing description, though listed as a violation, counts as passed.\<close>
theorem compliance_reports_rules:
  assumes "store_reachable s" "resolvePools s is kids = Inr ps" "\<forall>p \<in> set ps. not_v6 (poolCIDR p)"
  shows "\<exists>r. CheckCompliance s is kids = Some (Inr r)
    \<and> crViolations r = concat (map (pool_violations s ps) ps)
    \<and> crTotalChecks r = 5 * int (length ps)
    \<and> crFailed r = int (of_rule ''OVERLAP-001'' (crViolations r))
    \<and> crWarnings r = int (of_rule ''RFC1918-001'' (crViolations r) + of_rule ''EMPTY-001'' (crViolations r)
        + of_rule ''NAME-001'' (crViolations r))
    \<and> crPassed r = crTotalChecks r - int (length (crViolations r)) + int (of_rule ''NAME-002'' (crViolations r))
    \<and> 0 \<le> crPassed r"
proof -
  have "store_inv s" "\<forall>q \<in> set ps. GetPool s (poolID q) = Some q"
    using reachable_invs[OF assms(1)] resolvePools_spec[OF assms(1), of "is" kids] assms(2) by simp_all
  then have "check_pools s ps ps empty_report
      = Some (add_violations (5 * length ps) (concat (map (pool_violations s ps) ps)) empty_report)"
    using assms(3) by (intro check_pools_eq) simp_all
  then show ?thesis using passed_count[of s ps ps]
    by (simp add: CheckCompliance_def assms(2) add_violations_def empty_report_def)
qed

theorem compliance_reports_rules_witness:
  "\<exists>r. CheckCompliance demo_store [1] True = Some (Inr r)
     \<and> crTotalChecks r = 20 \<and> crFailed r = 0 \<and> 0 \<le> crPassed r"
proof -
  obtain ps where ps: "resolvePools demo_store [1] True = Inr ps" "length ps = 4"
      "list_all (\<lambda>p. not_v6 (poolCIDR p)) ps" "list_all (\<lambda>p. overlaps_sibling p ps = Some False) ps"
  proof -
    have "case resolvePools demo_store [1] True of Inl _ \<Rightarrow> False | Inr ps \<Rightarrow> length ps = 4
        \<and> list_all (\<lambda>p. not_v6 (poolCIDR p)) ps \<and> list_all (\<lambda>p. overlaps_sibling p ps = Some False) ps" by code_simp
    then show thesis using that by (cases "resolvePools demo_store [1] True") simp_all
  qed
  have v: "\<forall>p \<in> set ps. not_v6 (poolCIDR p)" using ps(3) by (simp add: list_all_iff)
  have "of_rule ''OVERLAP-001'' (pool_violations demo_store ps p) = 0" if "p \<in> set ps" for p
    using that ps(4) v overlaps_sibling_iff[of p ps] by (simp add: list_all_iff pool_violations_def)
  then have "of_rule ''OVERLAP-001'' (concat (map (pool_violations demo_store ps) ps)) = 0"
    unfolding concat_counts by simp
  then show ?thesis using compliance_reports_rules[OF demo_reachable ps(1) v] ps(2) by auto
qed


text \<open>C28: the combined report. When the live pools of a reachable store are IPv4,
  \<open>Analyze\<close> returns for any request: a not-found error only when a requested pool is not live,
  and otherwise a report whose violation counters add up, whose fragmentation score lies in
  0..100, and whose health score is 100 less 15 per error, 5 per warning, 1 per remark and a
  fifth of the fragmentation score, cut off at 0.\<close>
theorem analysis_report_scores:
  assumes "store_reachable s" "all_v4 s" "float64_rounding fl"
  shows "\<exists>r. Analyze fl now s is kids = Some r \<and> (case r of
      Inl e \<Rightarrow> errorsIs e ErrNotFound \<and> (\<exists>i \<in> set is. GetPool s i = None)
    | Inr rep \<Rightarrow> 0 \<le> asHealthScore (arSummary rep) \<and> asHealthScore (arSummary rep) \<le> 100
        \<and> (case arFragmentation rep of None \<Rightarrow> True | Some f \<Rightarrow> 0 \<le> faScore f \<and> faScore f \<le> 100)
        \<and> (case arCompliance rep of None \<Rightarrow> asHealthScore (arSummary rep) = 100
           | Some c \<Rightarrow> asErrorCount (arSummary rep) + asWarningCount (arSummary rep) + asInfoCount (arSummary rep)
                 = int (length (crViolations c))
             \<and> asHealthScore (arSummary rep) = max 0 (100 - 15 * asErrorCount (arSummary rep)
                 - 5 * asWarningCount (arSummary rep) - asInfoCount (arSummary rep)
                 - (case arFragmentation rep of None \<Rightarrow> 0 | Some f \<Rightarrow> faScore f div 5))))"
proof (cases "resolvePools s is kids")
  case (Inl e)
  then show ?thesis using resolvePools_spec[OF assms(1), of "is" kids] by (simp add: Analyze_def)
next
  case (Inr ps)
  have inv: "store_inv s" using reachable_invs[OF assms(1)] by simp
  have ps: "\<forall>q \<in> set ps. GetPool s (poolID q) = Some q" "poolID ` set ps = (if is = [] then live_ids s
             else if kids then (\<Union>i \<in> set is. below (pools s) i) else set is)"
    using resolvePools_spec[OF assms(1), of "is" kids] Inr by simp_all
  show ?thesis
  proof (cases "ps = []")
    case True
    then show ?thesis using Inr by (simp add: Analyze_def zero_summary_def)
  next
    case False
    let ?roots = "root_pool_ids is ps"
    have "i \<in> poolID ` set ps" if "i \<in> set is" for i
      unfolding ps(2) using that UN_I[where B = "below (pools s)", OF that below_self] by auto
    then have "set ?roots \<subseteq> poolID ` set ps" by (auto simp: root_pool_ids_def)
    then have live: "\<forall>i \<in> set ?roots. GetPool s i \<noteq> None" using ps(1) by auto
    then obtain gas where gas: "gap_loop fl s ?roots = Some (Inr gas)" using gap_loop_defined[OF assms(1,2)] by blast
    obtain frag where frag: "(case ?roots of [] \<Rightarrow> Some None
        | r # _ \<Rightarrow> map_option (\<lambda>x. case x of Inl _ \<Rightarrow> None | Inr f \<Rightarrow> Some f) (AnalyzeFragmentation fl s r)) = Some frag"
        "\<And>f. frag = Some f \<Longrightarrow> 0 \<le> faScore f \<and> faScore f \<le> 100"
    proof (cases ?roots)
      case (Cons r rs)
      then obtain p where "GetPool s r = Some p" using live by auto
      then obtain f where "AnalyzeFragmentation fl s r = Some (Inr f)" "0 \<le> faScore f \<and> faScore f \<le> 100"
        using AnalyzeFragmentation_bounds[OF assms(1,2) _ assms(3)] by blast
      then show thesis using Cons that[of "Some f"] by simp
    qed (use that[of None] in simp)
    have v: "\<forall>q \<in> set ps. not_v6 (poolCIDR q)" using ps(1) all_v4_get[OF inv assms(2)] v4_not_v6 by blast
    define vs where "vs = concat (map (pool_violations s ps) ps)"
    have "resolvePools s (map poolID ps) False = Inr ps"
      using False resolve_again[OF ps(1)] by (simp add: resolvePools_def)
    then obtain cr where cr: "CheckCompliance s (map poolID ps) False = Some (Inr cr)" "crViolations cr = vs"
      using check_pools_eq[OF inv v order_refl ps(1), of empty_report]
      by (simp add: CheckCompliance_def vs_def add_violations_def empty_report_def)
    have fd: "case frag of None \<Rightarrow> True | Some f \<Rightarrow> 0 \<le> faScore f div 5"
      using frag(2) by (auto simp: pos_imp_zdiv_nonneg_iff split: option.split)
    obtain e w i where ewi: "severity_count ''error'' vs = e" "severity_count ''warning'' vs = w"
        "severity_count ''info'' vs = i" "0 \<le> e" "0 \<le> w" "0 \<le> i"
      using severity_count_nonneg by metis
    have h: "health_score (100 - 15 * e - 5 * w - i) frag
          = max 0 (100 - 15 * e - 5 * w - i - (case frag of None \<Rightarrow> 0 | Some f \<Rightarrow> faScore f div 5))"
        "0 \<le> health_score (100 - 15 * e - 5 * w - i) frag" "health_score (100 - 15 * e - 5 * w - i) frag \<le> 100"
      using health_score_range[of "100 - 15 * e - 5 * w - i" frag] ewi(4-6) frag(2) by auto
    have sev: "e + w + i = int (length vs)"
      using severity_split[of s ps ps] ewi(1-3) by (simp add: vs_def)
    show ?thesis
      using Inr False gas frag cr h sev fd ewi
      by (simp add: Analyze_def Let_def fold_health_step split: option.splits)
  qed
qed

lemma demo_all_v4: "all_v4 demo_store"
proof -
  have e: "list_all (\<lambda>q. poolCIDR q = ''10.0.0.0/8'' \<or> poolCIDR q = ''10.1.0.0/16'' \<or> poolCIDR q = ''10.2.0.0/16''
      \<or> poolCIDR q = ''10.1.1.0/24'') (ListPools demo_store)"
    and p: "parsePrefix ''10.0.0.0/8'' = Some (v4pfx 0x0A000000 8)" "parsePrefix ''10.2.0.0/16'' = Some (v4pfx 0x0A020000 16)"
    by code_simp+
  have v: "v4_cidr ''10.0.0.0/8''" "v4_cidr ''10.1.0.0/16''" "v4_cidr ''10.2.0.0/16''" "v4_cidr ''10.1.1.0/24''"
    unfolding v4_cidr_def p demo_pool2 by (intro exI conjI, rule refl, simp)+
  from e have "\<And>q. q \<in> set (ListPools demo_store) \<Longrightarrow> v4_cidr (poolCIDR q)"
    unfolding list_all_iff using v by metis
  then show ?thesis by (simp add: all_v4_def)
qed

theorem analysis_report_scores_witness:
  "\<exists>rep. Analyze (\<lambda>x. x) 9 demo_store [2] True = Some (Inr rep)
     \<and> 0 \<le> asHealthScore (arSummary rep) \<and> asHealthScore (arSummary rep) \<le> 100"
proof -
  have "GetPool demo_store 2 \<noteq> None" by code_simp
  then show ?thesis
    using analysis_report_scores[OF demo_reachable demo_all_v4 float64_rounding_id, of 9 "[2]" True]
    by (elim exE) (rename_tac r, case_tac r, simp_all)
qed

end
