(* ===== verification/Recommendations.thy ===== *)
theory Recommendations
  imports AnalysisFacts
begin

section \<open>Recommendations (internal/planning/recommendations.go, storage/recommendations_memory.go)\<close>

text \<open>
  \<open>MemoryRecommendationStore\<close>, and \<open>Generate\<close>, \<open>Apply\<close> and \<open>Dismiss\<close> of
  \<open>RecommendationService\<close> over it and the pool store. The ids \<open>uuid.New\<close> gives are a
  parameter, the n-th call answering \<open>uid n\<close>; nothing is assumed of it. The outer option of a
  result is \<open>None\<close> for a panic. Descriptions are left out.
\<close>

subsection \<open>Data\<close>

definition RecommendationTypeAllocation :: string where "RecommendationTypeAllocation = ''allocation''"
definition RecommendationTypeCompliance :: string where "RecommendationTypeCompliance = ''compliance''"
definition RecommendationStatusPending :: string where "RecommendationStatusPending = ''pending''"
definition RecommendationStatusApplied :: string where "RecommendationStatusApplied = ''applied''"
definition RecommendationStatusDismissed :: string where "RecommendationStatusDismissed = ''dismissed''"
definition RecommendationPriorityHigh :: string where "RecommendationPriorityHigh = ''high''"
definition RecommendationPriorityMedium :: string where "RecommendationPriorityMedium = ''medium''"
definition RecommendationPriorityLow :: string where "RecommendationPriorityLow = ''low''"

lemmas rec_consts = RecommendationTypeAllocation_def RecommendationTypeCompliance_def
  RecommendationStatusPending_def RecommendationStatusApplied_def RecommendationStatusDismissed_def

record recommendation =
  recID :: string
  recPoolID :: go_id
  recType :: string
  recStatus :: string
  recPriority :: string
  recTitle :: string
  recSuggestedCIDR :: string
  recRuleID :: string
  recScore :: int
  recMetadata :: tags
  recDismissReason :: string
  recAppliedPoolID :: "go_id option"
  recCreatedAt :: go_time
  recUpdatedAt :: go_time

record recommendation_filters =
  rfPoolID :: go_id
  rfType :: string
  rfStatus :: string
  rfPriority :: string
  rfPage :: int
  rfPageSize :: int

type_synonym rec_store = "(string, recommendation) gomap"

subsection \<open>The store (recommendations_memory.go)\<close>

definition cloneRecommendation :: "recommendation \<Rightarrow> recommendation" where
  "cloneRecommendation r = r\<lparr>recMetadata := cloneStringStringMap (recMetadata r)\<rparr>"

definition CreateRecommendation :: "rec_store \<Rightarrow> recommendation \<Rightarrow> rec_store" where
  "CreateRecommendation m r = gput (recID r) (cloneRecommendation r) m"

definition GetRecommendation :: "rec_store \<Rightarrow> string \<Rightarrow> go_error + recommendation" where
  "GetRecommendation m i = (case map_of m i of None \<Rightarrow> Inl ErrNotFound | Some r \<Rightarrow> Inr (cloneRecommendation r))"

definition rec_matches :: "recommendation_filters \<Rightarrow> recommendation \<Rightarrow> bool" where
  "rec_matches f r = (\<not> (rfPoolID f \<noteq> 0 \<and> recPoolID r \<noteq> rfPoolID f)
     \<and> \<not> (rfType f \<noteq> [] \<and> recType r \<noteq> rfType f)
     \<and> \<not> (rfStatus f \<noteq> [] \<and> recStatus r \<noteq> rfStatus f)
     \<and> \<not> (rfPriority f \<noteq> [] \<and> recPriority r \<noteq> rfPriority f))"

text \<open>\<open>None\<close> is the panic of the page's slice expression.\<close>

definition ListRecommendations :: "rec_store \<Rightarrow> recommendation_filters \<Rightarrow> (recommendation list \<times> int) option" where
  "ListRecommendations m f =
     (let sorted' = sort_key (\<lambda>r. - recCreatedAt r) (filter (rec_matches f) (map snd m))
      in map_option (\<lambda>page'. (map cloneRecommendation page', int (length sorted')))
           (list_page 50 (rfPage f) (rfPageSize f) sorted'))"

definition UpdateRecommendationStatus ::
    "go_time \<Rightarrow> rec_store \<Rightarrow> string \<Rightarrow> string \<Rightarrow> string \<Rightarrow> go_id option \<Rightarrow> rec_store \<times> go_error option" where
  "UpdateRecommendationStatus now m i status reason applied = (case map_of m i of
     None \<Rightarrow> (m, Some ErrNotFound)
   | Some r \<Rightarrow> (gput i (r\<lparr>recStatus := status, recDismissReason := reason, recAppliedPoolID := applied,
                     recUpdatedAt := now\<rparr>) m, None))"

definition DeletePendingForPool :: "rec_store \<Rightarrow> go_id \<Rightarrow> rec_store" where
  "DeletePendingForPool m i =
     filter (\<lambda>(_, r). \<not> (recPoolID r = i \<and> recStatus r = RecommendationStatusPending)) m"

subsection \<open>Scores\<close>

definition priorityFromScore :: "int \<Rightarrow> string" where
  "priorityFromScore score = (if score \<ge> 70 then RecommendationPriorityHigh
     else if score \<ge> 40 then RecommendationPriorityMedium else RecommendationPriorityLow)"

text \<open>The loop over the children: stops at the first that touches the block.\<close>

fun adjacent_child :: "interval \<Rightarrow> pool list \<Rightarrow> bool option" where
  "adjacent_child b [] = Some False"
| "adjacent_child b (c # cs) = (case parsePrefix (poolCIDR c) of
     None \<Rightarrow> adjacent_child b cs
   | Some cp \<Rightarrow> do {
       ci \<leftarrow> prefixToInterval (masked cp);
       if snd ci + 1 = fst b \<or> snd b + 1 = fst ci then Some True else adjacent_child b cs
     })"

definition size_fit :: "int \<Rightarrow> int \<Rightarrow> int" where
  "size_fit bits desired =
     (if desired > 0 then
        if bits = desired then 30
        else if abs (bits - desired) \<le> 2 then 15 else 0
      else if bits \<ge> 24 \<and> bits \<le> 28 then 30
      else if bits \<ge> 20 \<and> bits \<le> 30 then 15 else 0)"

text \<open>\<open>uint32(1) << 32\<close> is 0 for a /0 block, and the modulus then panics.\<close>

definition scoreAllocation :: "mstore \<Rightarrow> string \<Rightarrow> pool \<Rightarrow> int \<Rightarrow> int option" where
  "scoreAllocation s cidr p desired = (case parsePrefix cidr of
     None \<Rightarrow> Some 0
   | Some pp \<Rightarrow> do {
       let pf = masked pp;
       a \<leftarrow> planning_ipv4ToUint32 (pfxAddr pf);
       let blockSize = push_bit (nat (32 - pfxBits pf)) (1 :: 32 word);
       aligned \<leftarrow> (if blockSize = 0 then None else Some (a mod blockSize = 0));
       contiguous \<leftarrow> (case GetPoolChildren s (poolID p) of Inl _ \<Rightarrow> Some False
         | Inr children \<Rightarrow> do { b \<leftarrow> prefixToInterval pf; adjacent_child b children });
       priv \<leftarrow> isRFC1918 pf;
       let score = (if aligned then 30 else 0) + size_fit (pfxBits pf) desired
         + (if contiguous then 20 else 0) + (if priv then 20 else 0);
       Some (if score > 100 then 100 else score)
     })"

definition compliance_score :: "string \<Rightarrow> int" where
  "compliance_score rule = (if rule = ''OVERLAP-001'' then 90 else if rule = ''RFC1918-001'' then 60
     else if rule = ''EMPTY-001'' then 30 else if rule = ''NAME-001'' \<or> rule = ''NAME-002'' then 20 else 50)"

definition compliance_priority :: "string \<Rightarrow> string" where
  "compliance_priority rule = (if rule = ''OVERLAP-001'' then RecommendationPriorityHigh
     else if rule = ''RFC1918-001'' then RecommendationPriorityMedium
     else if rule = ''EMPTY-001'' \<or> rule = ''NAME-001'' \<or> rule = ''NAME-002'' then RecommendationPriorityLow
     else RecommendationPriorityMedium)"

definition compliance_title :: "string \<Rightarrow> string" where
  "compliance_title rule = (if rule = ''OVERLAP-001'' then ''Resolve CIDR overlap''
     else if rule = ''RFC1918-001'' then ''Move to RFC1918 space''
     else if rule = ''EMPTY-001'' then ''Add allocations or reclassify''
     else if rule = ''NAME-001'' then ''Add pool name''
     else if rule = ''NAME-002'' then ''Add pool description''
     else ''Fix compliance issue: '' @ rule)"

definition complianceRecommendation :: "string \<Rightarrow> violation \<Rightarrow> pool \<Rightarrow> go_time \<Rightarrow> recommendation" where
  "complianceRecommendation i v p now = \<lparr>recID = i, recPoolID = poolID p, recType = RecommendationTypeCompliance,
     recStatus = RecommendationStatusPending, recPriority = compliance_priority (viRuleID v),
     recTitle = compliance_title (viRuleID v), recSuggestedCIDR = [], recRuleID = viRuleID v,
     recScore = compliance_score (viRuleID v), recMetadata = None, recDismissReason = [],
     recAppliedPoolID = None, recCreatedAt = now, recUpdatedAt = now\<rparr>"

definition allocationRecommendation :: "string \<Rightarrow> available_block \<Rightarrow> pool \<Rightarrow> int \<Rightarrow> go_time \<Rightarrow> recommendation" where
  "allocationRecommendation i b p score now = \<lparr>recID = i, recPoolID = poolID p, recType = RecommendationTypeAllocation,
     recStatus = RecommendationStatusPending, recPriority = priorityFromScore score,
     recTitle = ''Allocate '' @ avCIDR b, recSuggestedCIDR = avCIDR b, recRuleID = [], recScore = score,
     recMetadata = None, recDismissReason = [], recAppliedPoolID = None, recCreatedAt = now, recUpdatedAt = now\<rparr>"

subsection \<open>Generate\<close>

text \<open>The state of a run: the store, the number of ids drawn, and the recommendations so far.\<close>

type_synonym gen_state = "rec_store \<times> nat \<times> recommendation list"

definition emit :: "recommendation \<Rightarrow> gen_state \<Rightarrow> gen_state" where
  "emit r g = (case g of (m, n, out) \<Rightarrow> (CreateRecommendation m r, n + 1, out @ [r]))"

fun emit_blocks :: "(nat \<Rightarrow> string) \<Rightarrow> go_time \<Rightarrow> mstore \<Rightarrow> pool \<Rightarrow> int \<Rightarrow> available_block list \<Rightarrow> gen_state \<Rightarrow> gen_state option" where
  "emit_blocks uid now s p desired [] g = Some g"
| "emit_blocks uid now s p desired (b # bs) g = do {
     score \<leftarrow> scoreAllocation s (avCIDR b) p desired;
     emit_blocks uid now s p desired bs (emit (allocationRecommendation (uid (fst (snd g))) b p score now) g)
   }"

fun emit_violations :: "(nat \<Rightarrow> string) \<Rightarrow> go_time \<Rightarrow> pool \<Rightarrow> violation list \<Rightarrow> gen_state \<Rightarrow> gen_state" where
  "emit_violations uid now p [] g = g"
| "emit_violations uid now p (v # vs) g =
     (if viPoolID v \<noteq> poolID p then emit_violations uid now p vs g
      else emit_violations uid now p vs (emit (complianceRecommendation (uid (fst (snd g))) v p now) g))"

definition generate_pool ::
    "(nat \<Rightarrow> string) \<Rightarrow> rounding \<Rightarrow> go_time \<Rightarrow> mstore \<Rightarrow> int \<Rightarrow> pool \<Rightarrow> gen_state \<Rightarrow> gen_state option" where
  "generate_pool uid fl now s desired p g = do {
     let g = (case g of (m, n, out) \<Rightarrow> (DeletePendingForPool m (poolID p), n, out));
     gap \<leftarrow> AnalyzeGaps fl s (poolID p);
     g \<leftarrow> (case gap of Inl _ \<Rightarrow> Some g | Inr ga \<Rightarrow> emit_blocks uid now s p desired (gaAvailableBlocks ga) g);
     comp \<leftarrow> CheckCompliance s [poolID p] False;
     Some (case comp of Inl _ \<Rightarrow> g | Inr cr \<Rightarrow> emit_violations uid now p (crViolations cr) g)
   }"

fun generate_pools ::
    "(nat \<Rightarrow> string) \<Rightarrow> rounding \<Rightarrow> go_time \<Rightarrow> mstore \<Rightarrow> int \<Rightarrow> pool list \<Rightarrow> gen_state \<Rightarrow> gen_state option" where
  "generate_pools uid fl now s desired [] g = Some g"
| "generate_pools uid fl now s desired (p # ps) g = do {
     g \<leftarrow> generate_pool uid fl now s desired p g;
     generate_pools uid fl now s desired ps g
   }"

definition Generate ::
    "(nat \<Rightarrow> string) \<Rightarrow> rounding \<Rightarrow> go_time \<Rightarrow> mstore \<Rightarrow> rec_store \<Rightarrow> go_id list \<Rightarrow> bool \<Rightarrow> int
     \<Rightarrow> (rec_store \<times> (go_error + recommendation list)) option" where
  "Generate uid fl now s m poolIDs includeChildren desired = (case resolvePools s poolIDs includeChildren of
     Inl e \<Rightarrow> Some (m, Inl e)
   | Inr ps \<Rightarrow> do {
       (m', n, out) \<leftarrow> generate_pools uid fl now s desired ps (m, 0, []);
       Some (m', Inr out)
     })"

subsection \<open>Apply and Dismiss\<close>

definition not_pending :: "recommendation \<Rightarrow> go_error" where
  "not_pending r = wrapf (''recommendation is '' @ recStatus r @ '', not pending'') ErrConflict"

definition apply_create :: "string \<Rightarrow> go_id option \<Rightarrow> recommendation \<Rightarrow> create_pool" where
  "apply_create name accountID r = \<lparr>cpName = (if name = [] then ''Allocation '' @ recSuggestedCIDR r else name),
     cpCIDR = recSuggestedCIDR r, cpParentID = Some (recPoolID r), cpAccountID = accountID, cpType = [],
     cpStatus = [], cpSource = PoolSourceManual, cpDescription = [], cpTags = None\<rparr>"

definition Apply ::
    "go_time \<Rightarrow> mstore \<Rightarrow> rec_store \<Rightarrow> string \<Rightarrow> string \<Rightarrow> go_id option
     \<Rightarrow> mstore \<times> rec_store \<times> (go_error + recommendation)" where
  "Apply now s m i name accountID = (case GetRecommendation m i of
     Inl e \<Rightarrow> (s, m, Inl e)
   | Inr r \<Rightarrow>
       if recStatus r \<noteq> RecommendationStatusPending then (s, m, Inl (not_pending r))
       else
         let (s', created) =
           (if recType r = RecommendationTypeAllocation then
              (case CreatePool now s (apply_create name accountID r) of
                 (s', Inl e) \<Rightarrow> (s', Inl (wrapf ''create pool from recommendation'' e))
               | (s', Inr p) \<Rightarrow> (s', Inr (Some (poolID p))))
            else (s, Inr None))
         in (case created of Inl e \<Rightarrow> (s', m, Inl e)
           | Inr applied \<Rightarrow>
               (case UpdateRecommendationStatus now m i RecommendationStatusApplied [] applied of
                  (m', Some e) \<Rightarrow> (s', m', Inl e)
                | (m', None) \<Rightarrow> (s', m', Inr (r\<lparr>recStatus := RecommendationStatusApplied, recAppliedPoolID := applied\<rparr>)))))"

definition Dismiss :: "go_time \<Rightarrow> rec_store \<Rightarrow> string \<Rightarrow> string \<Rightarrow> rec_store \<times> (go_error + recommendation)" where
  "Dismiss now m i reason = (case GetRecommendation m i of
     Inl e \<Rightarrow> (m, Inl e)
   | Inr r \<Rightarrow>
       if recStatus r \<noteq> RecommendationStatusPending then (m, Inl (not_pending r))
       else (case UpdateRecommendationStatus now m i RecommendationStatusDismissed reason None of
          (m', Some e) \<Rightarrow> (m', Inl e)
        | (m', None) \<Rightarrow> (m', Inr (r\<lparr>recStatus := RecommendationStatusDismissed, recDismissReason := reason\<rparr>))))"

end
