(* ===== verification/RecommendationProps.thy ===== *)
theory RecommendationProps
  imports Recommendations
begin

section \<open>The life of a recommendation\<close>

text \<open>
  The system of the pool store and the recommendation store under all their operations, its
  invariant, and the transitions of one recommendation.
\<close>

record rec_system =
  rcStore :: mstore
  rcRecs :: rec_store

inductive rec_step :: "rec_system \<Rightarrow> rec_system \<Rightarrow> bool" where
  store: "store_step (rcStore x) s \<Longrightarrow> rec_step x (x\<lparr>rcStore := s\<rparr>)"
| generate: "Generate uid fl now (rcStore x) (rcRecs x) is kids desired = Some (m, res)
     \<Longrightarrow> rec_step x (x\<lparr>rcRecs := m\<rparr>)"
| apply_rec: "Apply now (rcStore x) (rcRecs x) i name acct = (s, m, res)
     \<Longrightarrow> rec_step x (x\<lparr>rcStore := s, rcRecs := m\<rparr>)"
| dismiss: "Dismiss now (rcRecs x) i reason = (m, res) \<Longrightarrow> rec_step x (x\<lparr>rcRecs := m\<rparr>)"

inductive rec_reachable :: "rec_system \<Rightarrow> bool" where
  init: "rec_reachable \<lparr>rcStore = NewMemoryStore, rcRecs = []\<rparr>"
| step: "rec_reachable x \<Longrightarrow> rec_step x y \<Longrightarrow> rec_reachable y"

inductive_simps rec_step_iff: "rec_step x y"

subsection \<open>A pool keeps its CIDR and its parent\<close>

definition keeps_pools :: "mstore \<Rightarrow> mstore \<Rightarrow> bool" where
  "keeps_pools s t \<longleftrightarrow> nextPool s \<le> nextPool t \<and> (\<forall>k p. map_of (pools s) k = Some p \<longrightarrow>
     (\<exists>q. map_of (pools t) k = Some q \<and> poolCIDR q = poolCIDR p \<and> poolParentID q = poolParentID p))"

lemma keeps_poolsI:
  assumes "nextPool s \<le> nextPool t" "\<And>k p. map_of (pools s) k = Some p \<Longrightarrow>
     \<exists>q. map_of (pools t) k = Some q \<and> poolCIDR q = poolCIDR p \<and> poolParentID q = poolParentID p"
  shows "keeps_pools s t"
  using assms by (simp add: keeps_pools_def)

lemma keeps_pools_refl [simp]: "keeps_pools s s"
  by (simp add: keeps_pools_def)

lemma keeps_gput:
  assumes "map_of (pools s) i = Some p" "poolCIDR q = poolCIDR p" "poolParentID q = poolParentID p"
  shows "keeps_pools s (s\<lparr>pools := gput i q (pools s)\<rparr>)"
  using assms by (intro keeps_poolsI) (auto)

lemma keeps_cascade:
  assumes "store_inv s" "set roots \<subseteq> gkeys (pools s)"
  shows "keeps_pools s (s\<lparr>pools := mark_deleted now (cascade_close (pools s) roots) (pools s)\<rparr>)"
    "keeps_pools s (s\<lparr>pools := mark_deleted now (cascade_close (pools s) roots) (pools s), accounts := a\<rparr>)"
  by (rule keeps_poolsI; auto simp: map_of_mark_deleted gget_def)+

lemma keeps_CreatePool: "store_inv s \<Longrightarrow> keeps_pools s (fst (CreatePool now s c))"
  by (rule keeps_poolsI) (auto simp: CreatePool_def Let_def dest: store_invD(3))

lemma keeps_same: "pools t = pools s \<Longrightarrow> nextPool t = nextPool s \<Longrightarrow> keeps_pools s t"
  by (simp add: keeps_pools_def)


lemma store_step_keeps: "store_step s t \<Longrightarrow> store_inv s \<Longrightarrow> keeps_pools s t"
proof (induction rule: store_step.induct)
  case (create_pool c s now) then show ?case by (intro keeps_CreatePool)
next
  case (update_account s i a) then show ?case
    by (auto simp: UpdatePoolAccount_def Let_def split: option.split intro!: keeps_gput)
next
  case (update_meta s now i n a) then show ?case
    by (auto simp: UpdatePoolMeta_def Let_def split: option.split intro!: keeps_gput)
next
  case (update_pool s now i u) then show ?case
    by (auto simp: UpdatePool_def Let_def split: option.split intro!: keeps_gput)
next
  case (delete_pool s now i) then show ?case
    by (auto simp: DeletePool_def Let_def split: option.split intro!: keeps_gput)
next
  case (delete_cascade s now i) then show ?case
    by (auto simp: DeletePoolCascade_def gkeys_dom split: option.split intro!: keeps_cascade)
next
  case (create_account s now ca) then show ?case
    by (intro keeps_same) (auto simp: CreateAccount_def Let_def)
next
  case (change_account s i au) then show ?case
    by (intro keeps_same) (auto simp: UpdateAccount_def Let_def split: option.split)
next
  case (delete_account s now i) then show ?case
    by (intro keeps_same) (auto simp: DeleteAccount_def Let_def split: option.split)
next
  case (delete_account_cascade s now i) then show ?case
    by (auto simp: DeleteAccountCascade_def Let_def account_roots_def[symmetric] split: option.split
        intro!: keeps_cascade account_roots_keys)
qed

lemma store_step_inv: "store_step s t \<Longrightarrow> store_inv s \<Longrightarrow> store_inv t"
  by (induction rule: store_step.induct) (auto intro: store_inv_ops)

subsection \<open>The invariant\<close>

definition rec_ok :: "mstore \<Rightarrow> recommendation \<Rightarrow> bool" where
  "rec_ok s r \<longleftrightarrow> 0 \<le> recScore r \<and> recScore r \<le> 100
     \<and> recStatus r \<in> {RecommendationStatusPending, RecommendationStatusApplied, RecommendationStatusDismissed}
     \<and> (recAppliedPoolID r \<noteq> None \<longleftrightarrow>
         recStatus r = RecommendationStatusApplied \<and> recType r = RecommendationTypeAllocation)
     \<and> (\<forall>j. recAppliedPoolID r = Some j \<longrightarrow> (\<exists>q. map_of (pools s) j = Some q
           \<and> poolCIDR q = recSuggestedCIDR r \<and> poolParentID q = Some (recPoolID r)))"

definition recs_ok :: "mstore \<Rightarrow> rec_store \<Rightarrow> bool" where
  "recs_ok s m \<longleftrightarrow> gmap_ok m \<and> (\<forall>i r. map_of m i = Some r \<longrightarrow> recID r = i \<and> rec_ok s r)
     \<and> (\<forall>i r j r'. map_of m i = Some r \<longrightarrow> map_of m j = Some r' \<longrightarrow> recAppliedPoolID r = recAppliedPoolID r'
          \<longrightarrow> recAppliedPoolID r \<noteq> None \<longrightarrow> i = j)"

lemma recs_okD:
  assumes "recs_ok s m"
  shows "gmap_ok m" "map_of m i = Some r \<Longrightarrow> recID r = i" "map_of m i = Some r \<Longrightarrow> rec_ok s r"
  using assms by (simp_all add: recs_ok_def)

lemma rec_ok_keeps: "keeps_pools s t \<Longrightarrow> rec_ok s r \<Longrightarrow> rec_ok t r"
  unfolding rec_ok_def keeps_pools_def by metis

lemma recs_ok_keeps: "keeps_pools s t \<Longrightarrow> recs_ok s m \<Longrightarrow> recs_ok t m"
  unfolding recs_ok_def using rec_ok_keeps by blast

lemma recs_okI:
  assumes "gmap_ok m" "\<And>i r. map_of m i = Some r \<Longrightarrow> recID r = i \<and> rec_ok s r"
    "\<And>i r j r' k. map_of m i = Some r \<Longrightarrow> map_of m j = Some r' \<Longrightarrow> recAppliedPoolID r = Some k
       \<Longrightarrow> recAppliedPoolID r' = Some k \<Longrightarrow> i = j"
  shows "recs_ok s m"
  using assms(1,2) assms(3) unfolding recs_ok_def by (metis not_None_eq)

lemma recs_ok_inj:
  "recs_ok s m \<Longrightarrow> map_of m i = Some r \<Longrightarrow> map_of m j = Some r' \<Longrightarrow> recAppliedPoolID r = Some k
     \<Longrightarrow> recAppliedPoolID r' = Some k \<Longrightarrow> i = j"
  unfolding recs_ok_def by (metis option.distinct(1))

lemma recs_ok_gput:
  assumes "recs_ok s m" "recID r = i" "rec_ok s r"
    "\<And>k r' j. map_of m k = Some r' \<Longrightarrow> recAppliedPoolID r' = Some j \<Longrightarrow> k \<noteq> i \<Longrightarrow> recAppliedPoolID r \<noteq> Some j"
  shows "recs_ok s (gput i r m)"
proof (rule recs_okI)
  show "gmap_ok (gput i r m)" using recs_okD(1)[OF assms(1)] by simp
  show "recID x = k \<and> rec_ok s x" if "map_of (gput i r m) k = Some x" for k x
    using that assms(2,3) recs_okD(2,3)[OF assms(1), of k x] by (cases "k = i") simp_all
  show "k = l" if "map_of (gput i r m) k = Some x" "map_of (gput i r m) l = Some y"
    "recAppliedPoolID x = Some j" "recAppliedPoolID y = Some j" for k x l y j
  proof -
    consider "k = i" "l = i" | "k = i" "l \<noteq> i" | "k \<noteq> i" "l = i" | "k \<noteq> i" "l \<noteq> i" by blast
    then show ?thesis
    proof cases
      case 2 then show ?thesis using that assms(4)[of l y j] by simp
    next
      case 3 then show ?thesis using that assms(4)[of k x j] by simp
    next
      case 4 then show ?thesis using that recs_ok_inj[OF assms(1), of k x l y j] by simp
    qed simp
  qed
qed

lemma map_of_filter_Some: "gmap_ok m \<Longrightarrow> map_of (filter P m) i = Some x \<Longrightarrow> map_of m i = Some x"
  using map_of_SomeD[of "filter P m" i x] gmap_mem_iff[of m i x] by simp

lemma recs_ok_filter:
  assumes "recs_ok s m"
  shows "recs_ok s (filter P m)"
proof (rule recs_okI)
  note g = recs_okD(1)[OF assms]
  show "gmap_ok (filter P m)" using g by (simp add: gmap_ok_def distinct_map_filter)
  show "recID x = k \<and> rec_ok s x" if "map_of (filter P m) k = Some x" for k x
    using map_of_filter_Some[OF g that] recs_okD(2,3)[OF assms] by blast
  show "k = l" if "map_of (filter P m) k = Some x" "map_of (filter P m) l = Some y"
    "recAppliedPoolID x = Some j" "recAppliedPoolID y = Some j" for k x l y j
    using recs_ok_inj[OF assms] map_of_filter_Some[OF g that(1)] map_of_filter_Some[OF g that(2)] that(3,4) by blast
qed

lemma cloneRecommendation_fields [simp]:
  "recID (cloneRecommendation r) = recID r" "recPoolID (cloneRecommendation r) = recPoolID r"
  "recType (cloneRecommendation r) = recType r" "recStatus (cloneRecommendation r) = recStatus r"
  "recSuggestedCIDR (cloneRecommendation r) = recSuggestedCIDR r" "recScore (cloneRecommendation r) = recScore r"
  "recAppliedPoolID (cloneRecommendation r) = recAppliedPoolID r"
  by (simp_all add: cloneRecommendation_def)

definition fresh_rec :: "recommendation \<Rightarrow> bool" where
  "fresh_rec r \<longleftrightarrow> 0 \<le> recScore r \<and> recScore r \<le> 100 \<and> recStatus r = RecommendationStatusPending
     \<and> recAppliedPoolID r = None"

lemma recs_ok_Create: "recs_ok s m \<Longrightarrow> fresh_rec r \<Longrightarrow> recs_ok s (CreateRecommendation m r)"
  unfolding CreateRecommendation_def
  by (rule recs_ok_gput) (auto simp: fresh_rec_def rec_ok_def rec_consts)

subsection \<open>Generation\<close>

lemma scoreAllocation_range: "scoreAllocation s cidr p d = Some x \<Longrightarrow> 0 \<le> x \<and> x \<le> 100"
  by (auto simp: scoreAllocation_def size_fit_def Let_def split: option.splits Option.bind_splits if_splits sum.splits)

lemma fresh_compliance: "fresh_rec (complianceRecommendation i v p now)"
  by (simp add: fresh_rec_def complianceRecommendation_def compliance_score_def)

lemma fresh_allocation: "scoreAllocation s cidr p d = Some x \<Longrightarrow> fresh_rec (allocationRecommendation i b p x now)"
  using scoreAllocation_range[of s cidr p d x] by (simp add: fresh_rec_def allocationRecommendation_def)

lemma emit_ok: "recs_ok s (fst g) \<Longrightarrow> fresh_rec r \<Longrightarrow> recs_ok s (fst (emit r g))"
  by (cases g) (simp add: emit_def recs_ok_Create)

lemma emit_blocks_ok: "emit_blocks uid now s p d bs g = Some g' \<Longrightarrow> recs_ok s (fst g) \<Longrightarrow> recs_ok s (fst g')"
proof (induction bs arbitrary: g)
  case (Cons b bs)
  obtain x where x: "scoreAllocation s (avCIDR b) p d = Some x"
    "emit_blocks uid now s p d bs (emit (allocationRecommendation (uid (fst (snd g))) b p x now) g) = Some g'"
    using Cons.prems(1) by (auto split: Option.bind_splits)
  show ?case by (rule Cons.IH[OF x(2)]) (rule emit_ok[OF Cons.prems(2) fresh_allocation[OF x(1)]])
qed simp

lemma emit_violations_ok: "recs_ok s (fst g) \<Longrightarrow> recs_ok s (fst (emit_violations uid now p vs g))"
proof (induction vs arbitrary: g)
  case (Cons v vs)
  show ?case
  proof (cases "viPoolID v = poolID p")
    case True
    have "recs_ok s (fst (emit (complianceRecommendation (uid (fst (snd g))) v p now) g))"
      using Cons.prems fresh_compliance by (rule emit_ok)
    from Cons.IH[OF this] True show ?thesis by simp
  qed (use Cons in simp)
qed simp

lemma generate_pool_parts:
  assumes "generate_pool uid fl now s d p g = Some g'"
    "g0 = (case g of (m, n, out) \<Rightarrow> (DeletePendingForPool m (poolID p), n, out))"
  obtains gap :: "go_error + gap_analysis" and g1 :: gen_state and comp :: "go_error + compliance_report" where
    "(case gap of Inl _ \<Rightarrow> Some g0 | Inr ga \<Rightarrow> emit_blocks uid now s p d (gaAvailableBlocks ga) g0) = Some g1"
    "g' = (case comp of Inl _ \<Rightarrow> g1 | Inr cr \<Rightarrow> emit_violations uid now p (crViolations cr) g1)"
proof -
  obtain gap where gap: "AnalyzeGaps fl s (poolID p) = Some gap"
    using assms(1) unfolding generate_pool_def Let_def by (cases "AnalyzeGaps fl s (poolID p)") simp_all
  obtain g1 where g1: "(case gap of Inl _ \<Rightarrow> Some g0 | Inr ga \<Rightarrow> emit_blocks uid now s p d (gaAvailableBlocks ga) g0) = Some g1"
    using assms(1) unfolding generate_pool_def assms(2)[symmetric] Let_def gap bind.bind_lunit
    by (cases "case gap of Inl _ \<Rightarrow> Some g0 | Inr ga \<Rightarrow> emit_blocks uid now s p d (gaAvailableBlocks ga) g0") simp_all
  obtain comp where c: "CheckCompliance s [poolID p] False = Some comp"
    "g' = (case comp of Inl _ \<Rightarrow> g1 | Inr cr \<Rightarrow> emit_violations uid now p (crViolations cr) g1)"
    using assms(1) unfolding generate_pool_def assms(2)[symmetric] Let_def gap bind.bind_lunit g1
    by (cases "CheckCompliance s [poolID p] False") simp_all
  show thesis by (rule that[OF g1 c(2)])
qed

lemma generate_pool_ok:
  assumes "generate_pool uid fl now s d p g = Some g'" "recs_ok s (fst g)"
  shows "recs_ok s (fst g')"
proof -
  define g0 where "g0 = (case g of (m, n, out) \<Rightarrow> (DeletePendingForPool m (poolID p), n, out))"
  have g0: "recs_ok s (fst g0)"
    using assms(2) by (cases g) (simp add: g0_def DeletePendingForPool_def recs_ok_filter)
  obtain gap :: "go_error + gap_analysis" and g1 :: gen_state and comp :: "go_error + compliance_report" where r:
    "(case gap of Inl _ \<Rightarrow> Some g0 | Inr ga \<Rightarrow> emit_blocks uid now s p d (gaAvailableBlocks ga) g0) = Some g1"
    "g' = (case comp of Inl _ \<Rightarrow> g1 | Inr cr \<Rightarrow> emit_violations uid now p (crViolations cr) g1)"
    using generate_pool_parts[OF assms(1) g0_def] .
  have "recs_ok s (fst g1)" using r(1) g0 emit_blocks_ok by (cases gap) auto
  then show ?thesis using r(2) emit_violations_ok by (cases comp) simp_all
qed

lemma generate_pools_ok: "generate_pools uid fl now s d ps g = Some g' \<Longrightarrow> recs_ok s (fst g) \<Longrightarrow> recs_ok s (fst g')"
proof (induction ps arbitrary: g)
  case (Cons p ps)
  obtain g1 where g1: "generate_pool uid fl now s d p g = Some g1" "generate_pools uid fl now s d ps g1 = Some g'"
    using Cons.prems(1) by (cases "generate_pool uid fl now s d p g") simp_all
  show ?case by (rule Cons.IH[OF g1(2) generate_pool_ok[OF g1(1) Cons.prems(2)]])
qed simp

lemma Generate_ok: "Generate uid fl now s m is kids d = Some (m', res) \<Longrightarrow> recs_ok s m \<Longrightarrow> recs_ok s m'"
  using generate_pools_ok[of uid fl now s d _ "(m, 0, [])"]
  by (auto simp: Generate_def split: sum.splits Option.bind_splits prod.splits)

subsection \<open>Apply and Dismiss\<close>

lemma GetRecommendation_cases:
  obtains "map_of m i = None" "GetRecommendation m i = Inl ErrNotFound"
  | r where "map_of m i = Some r" "GetRecommendation m i = Inr (cloneRecommendation r)"
  by (cases "map_of m i") (auto simp: GetRecommendation_def)

lemma Dismiss_ok:
  assumes "recs_ok s m" "Dismiss now m i reason = (m', res)"
  shows "recs_ok s m'"
proof (cases rule: GetRecommendation_cases[of m i])
  case 1 then show ?thesis using assms by (simp add: Dismiss_def)
next
  case (2 r)
  show ?thesis
  proof (cases "recStatus r = RecommendationStatusPending")
    case True
    have m': "m' = gput i (r\<lparr>recStatus := RecommendationStatusDismissed, recDismissReason := reason,
        recAppliedPoolID := None, recUpdatedAt := now\<rparr>) m"
      using assms(2) 2 True by (simp add: Dismiss_def UpdateRecommendationStatus_def)
    show ?thesis unfolding m' using recs_okD(2,3)[OF assms(1) 2(1)]
      by (intro recs_ok_gput[OF assms(1)]) (simp_all add: rec_ok_def rec_consts)
  next
    case False
    then show ?thesis using assms 2 by (simp add: Dismiss_def)
  qed
qed

text \<open>A pending recommendation that is applied: what is created and what is recorded.\<close>

lemma Apply_pending:
  assumes "map_of m i = Some r" "recStatus r = RecommendationStatusPending"
  shows "if recType r = RecommendationTypeAllocation then
      (if recSuggestedCIDR r = [] then (\<exists>e. Apply now s m i name acct = (s, m, Inl e))
       else Apply now s m i name acct = (fst (CreatePool now s (apply_create name acct r)),
          gput i (r\<lparr>recStatus := RecommendationStatusApplied, recDismissReason := [],
            recAppliedPoolID := Some (nextPool s), recUpdatedAt := now\<rparr>) m,
          Inr ((cloneRecommendation r)\<lparr>recStatus := RecommendationStatusApplied, recAppliedPoolID := Some (nextPool s)\<rparr>)))
    else Apply now s m i name acct = (s,
          gput i (r\<lparr>recStatus := RecommendationStatusApplied, recDismissReason := [],
            recAppliedPoolID := None, recUpdatedAt := now\<rparr>) m,
          Inr ((cloneRecommendation r)\<lparr>recStatus := RecommendationStatusApplied, recAppliedPoolID := None\<rparr>))"
  using assms
  by (simp add: Apply_def GetRecommendation_def apply_create_def CreatePool_def UpdateRecommendationStatus_def Let_def)

lemma Apply_not_pending:
  assumes "map_of m i = Some r" "recStatus r \<noteq> RecommendationStatusPending"
  shows "Apply now s m i name acct = (s, m, Inl (not_pending r))"
    "Dismiss now m i reason = (m, Inl (not_pending r))"
  using assms by (simp_all add: Apply_def Dismiss_def GetRecommendation_def not_pending_def)


lemma recs_ok_applied_less:
  assumes "store_inv s" "recs_ok s m" "map_of m k = Some r" "recAppliedPoolID r = Some j"
  shows "j < nextPool s"
proof -
  obtain q where "map_of (pools s) j = Some q"
    using recs_okD(3)[OF assms(2,3)] assms(4) by (auto simp: rec_ok_def)
  then show ?thesis using store_invD(3)[OF assms(1)] by blast
qed

lemma Apply_ok:
  assumes "store_inv s" "recs_ok s m" "Apply now s m i name acct = (s', m', res)"
  shows "store_inv s' \<and> recs_ok s' m'"
proof (cases rule: GetRecommendation_cases[of m i])
  case 1 then show ?thesis using assms by (simp add: Apply_def)
next
  case (2 r)
  note r = recs_okD(2,3)[OF assms(2) 2(1)]
  show ?thesis
  proof (cases "recStatus r = RecommendationStatusPending")
    case False
    then show ?thesis using assms Apply_not_pending(1)[OF 2(1) False] by simp
  next
    case True
    note a = Apply_pending[OF 2(1) True, of now s name acct]
    consider "recType r = RecommendationTypeAllocation" "recSuggestedCIDR r = []"
      | "recType r = RecommendationTypeAllocation" "recSuggestedCIDR r \<noteq> []"
      | "recType r \<noteq> RecommendationTypeAllocation" by blast
    then show ?thesis
    proof cases
      case 1 then show ?thesis using a assms by auto
    next
      case 2
      let ?s = "fst (CreatePool now s (apply_create name acct r))"
      have s': "s' = ?s" and m': "m' = gput i (r\<lparr>recStatus := RecommendationStatusApplied,
          recDismissReason := [], recAppliedPoolID := Some (nextPool s), recUpdatedAt := now\<rparr>) m"
        using a assms(3) 2 by simp_all
      have k: "recs_ok ?s m" using keeps_CreatePool[OF assms(1)] assms(2) by (rule recs_ok_keeps)
      have new: "\<exists>q. map_of (pools ?s) (nextPool s) = Some q \<and> poolCIDR q = recSuggestedCIDR r
          \<and> poolParentID q = Some (recPoolID r)"
        using 2(2) by (auto simp: CreatePool_def apply_create_def Let_def)
      have "recs_ok ?s m'"
        unfolding m' using r 2(1) new recs_ok_applied_less[OF assms(1,2)]
        by (intro recs_ok_gput[OF k]) (fastforce simp: rec_ok_def rec_consts)+
      then show ?thesis using s' store_inv_CreatePool[OF assms(1)] by simp
    next
      case 3
      then show ?thesis using a assms r
        by (auto intro!: recs_ok_gput[OF assms(2)] simp: rec_ok_def rec_consts)
    qed
  qed
qed

lemma rec_step_inv:
  "rec_step x y \<Longrightarrow> store_inv (rcStore x) \<Longrightarrow> recs_ok (rcStore x) (rcRecs x)
     \<Longrightarrow> store_inv (rcStore y) \<and> recs_ok (rcStore y) (rcRecs y)"
proof (induction rule: rec_step.induct)
  case (store x s)
  then show ?case using store_step_inv[OF store(1,2)] recs_ok_keeps[OF store_step_keeps[OF store(1,2)] store(3)] by simp
next
  case (generate uid fl now x "is" kids desired m res)
  then show ?case using Generate_ok[OF generate(1,3)] by simp
next
  case (apply_rec now x i name acct s m res)
  then show ?case using Apply_ok[OF apply_rec(2,3,1)] by simp
next
  case (dismiss now x i reason m res)
  then show ?case using Dismiss_ok[OF dismiss(3,1)] by simp
qed

lemma rec_reachable_inv: "rec_reachable x \<Longrightarrow> store_inv (rcStore x) \<and> recs_ok (rcStore x) (rcRecs x)"
proof (induction rule: rec_reachable.induct)
  case init
  then show ?case using store_inv_NewMemoryStore by (simp add: recs_ok_def gmap_ok_def)
next
  case step then show ?case using rec_step_inv by blast
qed

text \<open>C26: an applied recommendation stands for one pool. In every state the pool store and the
  recommendation store can reach, a recommendation stored under an id carries it and has a score
  in 0..100; it names a pool exactly when it is an applied allocation, that pool was created with
  the suggested CIDR below the recommendation's pool, and no two recommendations name the same
  pool.\<close>
theorem applied_recommendation_has_pool:
  assumes "rec_reachable x" "map_of (rcRecs x) i = Some r"
  shows "recID r = i \<and> 0 \<le> recScore r \<and> recScore r \<le> 100
    \<and> (recAppliedPoolID r \<noteq> None \<longleftrightarrow>
         recStatus r = RecommendationStatusApplied \<and> recType r = RecommendationTypeAllocation)
    \<and> (\<forall>j. recAppliedPoolID r = Some j \<longrightarrow>
         (\<exists>q. map_of (pools (rcStore x)) j = Some q \<and> poolCIDR q = recSuggestedCIDR r
            \<and> poolParentID q = Some (recPoolID r))
         \<and> (\<forall>i' r'. map_of (rcRecs x) i' = Some r' \<longrightarrow> recAppliedPoolID r' = Some j \<longrightarrow> i' = i))"
proof -
  have ok: "recs_ok (rcStore x) (rcRecs x)" using rec_reachable_inv[OF assms(1)] by simp
  have "rec_ok (rcStore x) r" "recID r = i" using recs_okD(2,3)[OF ok assms(2)] by simp_all
  moreover have "i' = i" if "map_of (rcRecs x) i' = Some r'" "recAppliedPoolID r = Some j"
      "recAppliedPoolID r' = Some j" for i' r' j
    using recs_ok_inj[OF ok that(1) assms(2) that(3,2)] .
  ultimately show ?thesis unfolding rec_ok_def by simp
qed

subsection \<open>A pending recommendation is decided once\<close>

lemma emit_other: "recID r \<noteq> i \<Longrightarrow> map_of (fst (emit r g)) i = map_of (fst g) i"
  by (cases g) (simp add: emit_def CreateRecommendation_def)

lemma emit_blocks_other:
  "emit_blocks uid now s p d bs g = Some g' \<Longrightarrow> (\<And>n. uid n \<noteq> i) \<Longrightarrow> map_of (fst g') i = map_of (fst g) i"
proof (induction bs arbitrary: g)
  case (Cons b bs)
  obtain x where x: "scoreAllocation s (avCIDR b) p d = Some x"
    "emit_blocks uid now s p d bs (emit (allocationRecommendation (uid (fst (snd g))) b p x now) g) = Some g'"
    using Cons.prems(1) by (auto split: Option.bind_splits)
  show ?case using Cons.IH[OF x(2) Cons.prems(2)] Cons.prems(2)
    by (simp add: emit_other allocationRecommendation_def)
qed simp

lemma emit_violations_other:
  "(\<And>n. uid n \<noteq> i) \<Longrightarrow> map_of (fst (emit_violations uid now p vs g)) i = map_of (fst g) i"
  by (induction vs arbitrary: g) (simp_all add: emit_other complianceRecommendation_def)

lemma DeletePending_other:
  assumes "gmap_ok m" "map_of m i = Some r" "recStatus r \<noteq> RecommendationStatusPending"
  shows "map_of (DeletePendingForPool m k) i = Some r"
proof -
  have "(i, r) \<in> set (DeletePendingForPool m k)"
    using assms(2,3) map_of_SomeD[OF assms(2)] by (simp add: DeletePendingForPool_def)
  moreover have "gmap_ok (DeletePendingForPool m k)"
    using assms(1) by (simp add: gmap_ok_def DeletePendingForPool_def distinct_map_filter)
  ultimately show ?thesis using gmap_mem_iff[of "DeletePendingForPool m k" i r] by simp
qed

lemma generate_pool_other:
  assumes "generate_pool uid fl now s d p g = Some g'" "\<And>n. uid n \<noteq> i"
    "gmap_ok (fst g)" "map_of (fst g) i = Some r" "recStatus r \<noteq> RecommendationStatusPending"
  shows "map_of (fst g') i = Some r"
proof -
  define g0 where "g0 = (case g of (m, n, out) \<Rightarrow> (DeletePendingForPool m (poolID p), n, out))"
  have g0: "map_of (fst g0) i = Some r"
    using DeletePending_other[OF assms(3-5)] by (cases g) (simp add: g0_def)
  obtain gap :: "go_error + gap_analysis" and g1 :: gen_state and comp :: "go_error + compliance_report" where s:
    "(case gap of Inl _ \<Rightarrow> Some g0 | Inr ga \<Rightarrow> emit_blocks uid now s p d (gaAvailableBlocks ga) g0) = Some g1"
    "g' = (case comp of Inl _ \<Rightarrow> g1 | Inr cr \<Rightarrow> emit_violations uid now p (crViolations cr) g1)"
    using generate_pool_parts[OF assms(1) g0_def] .
  have "map_of (fst g1) i = Some r" using s(1) g0 emit_blocks_other[of uid now s p d _ g0 g1 i] assms(2) by (cases gap) auto
  then show ?thesis using s(2) emit_violations_other[of uid i] assms(2) by (cases comp) simp_all
qed

lemma generate_pools_other:
  "generate_pools uid fl now s d ps g = Some g' \<Longrightarrow> (\<And>n. uid n \<noteq> i) \<Longrightarrow> recs_ok s (fst g)
     \<Longrightarrow> map_of (fst g) i = Some r \<Longrightarrow> recStatus r \<noteq> RecommendationStatusPending \<Longrightarrow> map_of (fst g') i = Some r"
proof (induction ps arbitrary: g)
  case (Cons p ps)
  obtain g1 where g1: "generate_pool uid fl now s d p g = Some g1" "generate_pools uid fl now s d ps g1 = Some g'"
    using Cons.prems(1) by (cases "generate_pool uid fl now s d p g") simp_all
  have "map_of (fst g1) i = Some r"
    using generate_pool_other[OF g1(1) Cons.prems(2) recs_okD(1)[OF Cons.prems(3)] Cons.prems(4,5)] .
  then show ?case
    using Cons.IH[OF g1(2) Cons.prems(2) generate_pool_ok[OF g1(1) Cons.prems(3)] _ Cons.prems(5)] by blast
qed simp

text \<open>C27: a recommendation is decided once. In a reachable state a pending recommendation can be
  dismissed, and applied unless it is an allocation without a CIDR; once it is not pending,
  \<open>Apply\<close> and \<open>Dismiss\<close> answer a conflict and change neither store, and a new generation, whose
  ids do not hit it, leaves it as it is.\<close>
theorem recommendation_decided_once:
  assumes "rec_reachable x" "map_of (rcRecs x) i = Some r"
  shows "if recStatus r = RecommendationStatusPending then
      (\<exists>m' r'. Dismiss now (rcRecs x) i reason = (m', Inr r') \<and> map_of m' i \<noteq> None
         \<and> recStatus (the (map_of m' i)) = RecommendationStatusDismissed)
      \<and> (recSuggestedCIDR r \<noteq> [] \<or> recType r \<noteq> RecommendationTypeAllocation \<longrightarrow>
         (\<exists>s' m' r'. Apply now (rcStore x) (rcRecs x) i name acct = (s', m', Inr r') \<and> map_of m' i \<noteq> None
            \<and> recStatus (the (map_of m' i)) = RecommendationStatusApplied))
    else
      (\<exists>e. errorsIs e ErrConflict \<and> Apply now (rcStore x) (rcRecs x) i name acct = (rcStore x, rcRecs x, Inl e)
         \<and> Dismiss now (rcRecs x) i reason = (rcRecs x, Inl e))
      \<and> (\<forall>uid fl is kids d m' res. Generate uid fl now (rcStore x) (rcRecs x) is kids d = Some (m', res)
           \<longrightarrow> (\<forall>n. uid n \<noteq> i) \<longrightarrow> map_of m' i = Some r)"
proof (cases "recStatus r = RecommendationStatusPending")
  case True
  then show ?thesis using assms(2) Apply_pending[OF assms(2) True, of now "rcStore x" name acct]
    by (auto simp: Dismiss_def GetRecommendation_def UpdateRecommendationStatus_def split: if_splits)
next
  case False
  have ok: "recs_ok (rcStore x) (rcRecs x)" using rec_reachable_inv[OF assms(1)] by simp
  have "map_of m' i = Some r" if "Generate uid fl now (rcStore x) (rcRecs x) is kids d = Some (m', res)"
    "\<forall>n. uid n \<noteq> i" for uid fl "is" kids d m' res
    using that generate_pools_other[of uid fl now "rcStore x" d _ "(rcRecs x, 0, [])" _ i r] ok assms(2) False
    by (auto simp: Generate_def split: sum.splits Option.bind_splits prod.splits)
  moreover have "errorsIs (not_pending r) ErrConflict" by (simp add: not_pending_def)
  ultimately show ?thesis using False Apply_not_pending[OF assms(2) False] by auto
qed

lemma rangeToCIDRs_block:
  assumes "n \<le> 32"
  shows "rangeToCIDRs (netmask4 n w) (last4 w n) = [v4pfx (netmask4 n w) n]"
proof -
  let ?lo = "netmask4 n w" and ?hi = "last4 w n"
  have le: "?lo \<le> ?hi" using netmask4_in[of n w] addrs4_range[OF assms, of w] by simp
  have cover: "(\<Union>p \<in> set (rangeToCIDRs ?lo ?hi). pfx_addrs p) = addrs4 w n"
    using rangeToCIDRs_cover[OF le] addrs4_range[OF assms, of w] by simp
  have "length (rangeToCIDRs ?lo ?hi) \<le> length [v4pfx w n]"
    using le by (rule covers_by_list) (use assms addrs4_range[OF assms, of w] in auto)
  moreover have "rangeToCIDRs ?lo ?hi \<noteq> []"
  proof
    assume "rangeToCIDRs ?lo ?hi = []"
    then have "addrs4 w n = {}" using cover by simp
    then show False using netmask4_in by blast
  qed
  ultimately obtain p where p: "rangeToCIDRs ?lo ?hi = [p]" by (cases "rangeToCIDRs ?lo ?hi") auto
  have "aligned4 p" using rangeToCIDRs_spec[OF le] p by simp
  then obtain x m where x: "p = v4pfx x m" "m \<le> 32" "netmask4 m x = x" by (auto simp: aligned4_def)
  have eq: "addrs4 x m = addrs4 w n" using cover p x by simp
  then have "block_size m = block_size n" using card_addrs4[OF x(2), of x] card_addrs4[OF assms, of w] by simp
  then have mn: "m = n" using x(2) assms by (simp add: block_size_def)
  have "x = ?lo"
    using eq addrs4_range[OF x(2), of x] addrs4_range[OF assms, of w] x(3) netmask4_in[of m x] netmask4_in[of n w]
    by (metis atLeastatMost_subset_iff order_antisym atLeastAtMost_iff order_refl)
  then show ?thesis using p x mn by simp
qed

subsection \<open>A concrete run\<close>

text \<open>A generation for pool 4 of \<open>demo_store\<close>, and what applying its first recommendation does.\<close>

definition demo_uid :: "nat \<Rightarrow> string" where
  "demo_uid n = (if n = 0 then ''r0'' else if n = 1 then ''r1'' else ''r2'')"


lemma demo_pool4:
  "map_option (\<lambda>p. (poolCIDR p, poolID p)) (GetPool demo_store 4) = Some (''10.1.1.0/24'', 4)"
  "GetPoolChildren demo_store 4 = Inr []"
  "parsePrefix ''10.1.1.0/24'' = Some (v4pfx 0x0A010100 24)"
  "netmask4 24 0x0A010100 = 0x0A010100"
  "prefix_string (v4pfx 0x0A010100 24) = ''10.1.1.0/24''"
  "scoreAllocation demo_store ''10.1.1.0/24'' (the (GetPool demo_store 4)) 0 = Some 80"
  "case CheckCompliance demo_store [4] False of Some (Inr cr) \<Rightarrow>
     map (\<lambda>v. (viRuleID v, viPoolID v)) (crViolations cr) = [(''NAME-002'', 4)] | _ \<Rightarrow> False"
  by code_simp+

definition demo_alloc :: recommendation where
  "demo_alloc = allocationRecommendation ''r0'' \<lparr>avCIDR = ''10.1.1.0/24'', avAddressCount = 256\<rparr>
     (the (GetPool demo_store 4)) 80 7"

lemma demo_gaps:
  "\<exists>ga. AnalyzeGaps (\<lambda>x. x) demo_store 4 = Some (Inr ga)
     \<and> gaAvailableBlocks ga = [\<lparr>avCIDR = ''10.1.1.0/24'', avAddressCount = 256\<rparr>]"
proof -
  obtain p where p: "GetPool demo_store 4 = Some p" "poolCIDR p = ''10.1.1.0/24''"
    using demo_pool4(1) by auto
  have "available_blocks [(0x0A010100, last4 0x0A010100 24)] = [\<lparr>avCIDR = ''10.1.1.0/24'', avAddressCount = 256\<rparr>]"
    using rangeToCIDRs_block[of 24 "0x0A010100"] demo_pool4(4,5)
    by (simp add: available_blocks_def prefixAddressCount_def)
  then show ?thesis
    using p demo_pool4(2-4) masked_v4[of 24 "0x0A010100"] prefixToInterval_v4[of 24 "0x0A010100"]
    by (simp add: AnalyzeGaps_def findFreeRanges_def Let_def)
qed

lemma demo_generate:
  "\<exists>m res. Generate demo_uid (\<lambda>x. x) 7 demo_store [] [4] False 0 = Some (m, res)
     \<and> map_of m ''r0'' = Some (cloneRecommendation demo_alloc)"
proof -
  obtain p where p: "GetPool demo_store 4 = Some p" "poolID p = 4" using demo_pool4(1) by auto
  obtain ga where ga: "AnalyzeGaps (\<lambda>x. x) demo_store 4 = Some (Inr ga)"
    "gaAvailableBlocks ga = [\<lparr>avCIDR = ''10.1.1.0/24'', avAddressCount = 256\<rparr>]" using demo_gaps by blast
  obtain cr where cr: "CheckCompliance demo_store [4] False = Some (Inr cr)"
    "map (\<lambda>v. (viRuleID v, viPoolID v)) (crViolations cr) = [(''NAME-002'', 4)]"
    using demo_pool4(7) by (auto split: option.splits sum.splits)
  obtain v where v: "crViolations cr = [v]" "viPoolID v = 4" using cr(2) by auto
  have "resolvePools demo_store [4] False = Inr [p]" using p by (simp add: resolvePools_def)
  then show ?thesis using ga cr(1) v p demo_pool4(6)
    by (simp add: Generate_def generate_pool_def DeletePendingForPool_def emit_def CreateRecommendation_def
        demo_uid_def demo_alloc_def allocationRecommendation_def complianceRecommendation_def)
qed

lemma rec_reachable_store: "store_reachable s \<Longrightarrow> rec_reachable \<lparr>rcStore = s, rcRecs = []\<rparr>"
proof (induction rule: store_reachable.induct)
  case init show ?case by (rule rec_reachable.init)
next
  case (step s t)
  then have "rec_step \<lparr>rcStore = s, rcRecs = []\<rparr> (\<lparr>rcStore = s, rcRecs = []\<rparr>\<lparr>rcStore := t\<rparr>)"
    by (intro rec_step.store) simp
  then show ?case using step.IH by (auto intro: rec_reachable.step)
qed

lemma demo_applied:
  "\<exists>x r. rec_reachable x \<and> map_of (rcRecs x) ''r0'' = Some r \<and> recAppliedPoolID r = Some 5
     \<and> recStatus r = RecommendationStatusApplied"
proof -
  let ?x = "\<lparr>rcStore = demo_store, rcRecs = []\<rparr>"
  obtain m res where m: "Generate demo_uid (\<lambda>x. x) 7 demo_store [] [4] False 0 = Some (m, res)"
    "map_of m ''r0'' = Some (cloneRecommendation demo_alloc)" using demo_generate by blast
  have "rec_step ?x (?x\<lparr>rcRecs := m\<rparr>)" 
    using rec_step.generate[of demo_uid "\<lambda>x. x" 7 ?x "[4]" False 0 m res] m(1) by simp
  then have r1: "rec_reachable \<lparr>rcStore = demo_store, rcRecs = m\<rparr>"
    using rec_reachable_store[OF demo_reachable] by (auto intro: rec_reachable.step)
  have c: "recType (cloneRecommendation demo_alloc) = RecommendationTypeAllocation"
    "recSuggestedCIDR (cloneRecommendation demo_alloc) = ''10.1.1.0/24''"
    "recStatus (cloneRecommendation demo_alloc) = RecommendationStatusPending"
    by (simp_all add: demo_alloc_def allocationRecommendation_def)
  obtain s' m' r' where a: "Apply 8 demo_store m ''r0'' ''new'' None = (s', m', r')" by (cases "Apply 8 demo_store m ''r0'' ''new'' None")
  have "rec_step \<lparr>rcStore = demo_store, rcRecs = m\<rparr> (\<lparr>rcStore = demo_store, rcRecs = m\<rparr>\<lparr>rcStore := s', rcRecs := m'\<rparr>)"
    using rec_step.apply_rec[of 8 "\<lparr>rcStore = demo_store, rcRecs = m\<rparr>" "''r0''" "''new''" None s' m' r'] a by simp
  then have "rec_reachable \<lparr>rcStore = s', rcRecs = m'\<rparr>" using r1 by (auto intro: rec_reachable.step)
  moreover have "map_of m' ''r0'' = Some ((cloneRecommendation demo_alloc)\<lparr>recStatus := RecommendationStatusApplied,
      recDismissReason := [], recAppliedPoolID := Some (nextPool demo_store), recUpdatedAt := 8\<rparr>)"
    using Apply_pending[OF m(2) c(3), of 8 demo_store "''new''" None] c a by auto
  ultimately show ?thesis using demo_store_pools(4)
    by (intro exI[of _ "\<lparr>rcStore = s', rcRecs = m'\<rparr>"]) simp
qed

theorem applied_recommendation_has_pool_witness:
  "\<exists>x r q. rec_reachable x \<and> map_of (rcRecs x) ''r0'' = Some r \<and> recAppliedPoolID r = Some 5
     \<and> map_of (pools (rcStore x)) 5 = Some q \<and> poolCIDR q = recSuggestedCIDR r"
proof -
  obtain x r where x: "rec_reachable x" "map_of (rcRecs x) ''r0'' = Some r" "recAppliedPoolID r = Some 5"
    using demo_applied by blast
  have "\<exists>q. map_of (pools (rcStore x)) 5 = Some q \<and> poolCIDR q = recSuggestedCIDR r"
    using applied_recommendation_has_pool[OF x(1,2)] x(3) by (elim conjE allE[of _ 5]) blast
  then show ?thesis using x by blast
qed

theorem recommendation_decided_once_witness:
  "\<exists>x r e. rec_reachable x \<and> map_of (rcRecs x) ''r0'' = Some r \<and> errorsIs e ErrConflict
     \<and> Dismiss 9 (rcRecs x) ''r0'' ''no'' = (rcRecs x, Inl e)"
proof -
  obtain x r where x: "rec_reachable x" "map_of (rcRecs x) ''r0'' = Some r"
      "recStatus r = RecommendationStatusApplied" using demo_applied by blast
  have "recStatus r \<noteq> RecommendationStatusPending" using x(3) by (simp add: rec_consts)
  then obtain e where "errorsIs e ErrConflict" "Dismiss 9 (rcRecs x) ''r0'' ''no'' = (rcRecs x, Inl e)"
    using recommendation_decided_once[OF x(1,2), of 9 "''no''" "[]" None] by (simp only: if_False) blast
  then show ?thesis using x(1,2) by blast
qed

text \<open>\<open>Apply\<close> does not look at the recommendation's pool again: once that pool is deleted, applying
  creates a live pool below a deleted one, which no operation of the store alone does.\<close>

definition orphan_store :: mstore where
  "orphan_store = fst (Apply 9 (fst (DeletePoolCascade 8 demo_store 4)) [(''r0'', demo_alloc)] ''r0'' ''new'' None)"

lemma apply_below_deleted_pool:
  "GetPool orphan_store 4 = None \<and> map_option poolParentID (GetPool orphan_store 5) = Some (Some 4)"
  by code_simp

end
