(* ===== verification/AuditLog.thy ===== *)
theory AuditLog
  imports RbacProps
begin

section \<open>The audit log (internal/audit)\<close>

text \<open>
  The event, the query options and \<open>MemoryAuditLogger\<close>: a bounded list, newest event first. The
  id \<open>uuid.New\<close> gives an event without one is an argument. A value of the \<open>Changes\<close> maps, of
  type \<open>any\<close> in the code, is one of the kinds the callers put there.
\<close>

datatype go_any = AnyNil | AnyBool bool | AnyInt int | AnyString string | AnyStrings "string list"

record audit_changes =
  acBefore :: "(string, go_any) gomap option"
  acAfter :: "(string, go_any) gomap option"

record audit_event =
  aeID :: string
  aeTimestamp :: "go_time option"
  aeActor :: string
  aeActorType :: string
  aeAction :: string
  aeResourceType :: string
  aeResourceID :: string
  aeResourceName :: string
  aeChanges :: "audit_changes option"
  aeRequestID :: string
  aeIPAddress :: string
  aeStatusCode :: int

record list_options =
  loLimit :: int
  loOffset :: int
  loActor :: string
  loAction :: string
  loResourceType :: string
  loResourceID :: string
  loSince :: "go_time option"
  loUntil :: "go_time option"

definition ActionAuditCreate :: string where "ActionAuditCreate = ''create''"
definition ActionAuditUpdate :: string where "ActionAuditUpdate = ''update''"
definition ActionAuditDelete :: string where "ActionAuditDelete = ''delete''"
definition ResourcePoolName :: string where "ResourcePoolName = ''pool''"
definition ResourceAccountName :: string where "ResourceAccountName = ''account''"
definition ActorTypeAPIKey :: string where "ActorTypeAPIKey = ''api_key''"
definition ActorTypeAnonymous :: string where "ActorTypeAnonymous = ''anonymous''"
definition ActorTypeUser :: string where "ActorTypeUser = ''user''"

record audit_log =
  alEvents :: "audit_event list"
  alMaxEvents :: int

definition DefaultMaxEvents :: int where "DefaultMaxEvents = 10000"

definition WithMaxEvents :: "int \<Rightarrow> audit_log \<Rightarrow> audit_log" where
  "WithMaxEvents n m = (if n > 0 then m\<lparr>alMaxEvents := n\<rparr> else m)"

definition NewMemoryAuditLogger :: "(audit_log \<Rightarrow> audit_log) list \<Rightarrow> audit_log" where
  "NewMemoryAuditLogger opts = fold (\<lambda>opt m. opt m) opts \<lparr>alEvents = [], alMaxEvents = DefaultMaxEvents\<rparr>"

definition copyMap :: "(string, go_any) gomap option \<Rightarrow> (string, go_any) gomap option" where
  "copyMap m = map_option (\<lambda>kv. fold (\<lambda>(k, v) out. gput k v out) kv []) m"

definition copyEvent :: "audit_event \<Rightarrow> audit_event" where
  "copyEvent e = e\<lparr>aeChanges := map_option (\<lambda>c. \<lparr>acBefore = copyMap (acBefore c), acAfter = copyMap (acAfter c)\<rparr>) (aeChanges e)\<rparr>"

definition auditLog :: "string \<Rightarrow> go_time \<Rightarrow> audit_log \<Rightarrow> audit_event option \<Rightarrow> audit_log" where
  "auditLog newid now m event = (case event of None \<Rightarrow> m
     | Some e \<Rightarrow>
         let e = (if aeID e = [] then e\<lparr>aeID := newid\<rparr> else e);
             e = (if aeTimestamp e = None then e\<lparr>aeTimestamp := Some now\<rparr> else e);
             events = copyEvent e # alEvents m
         in m\<lparr>alEvents := (if int (length events) > alMaxEvents m then take (nat (alMaxEvents m)) events else events)\<rparr>)"

definition matchesFilters :: "audit_event \<Rightarrow> list_options \<Rightarrow> bool" where
  "matchesFilters e opts =
     (if loActor opts \<noteq> [] \<and> aeActor e \<noteq> loActor opts then False
      else if loAction opts \<noteq> [] \<and> aeAction e \<noteq> loAction opts then False
      else if loResourceType opts \<noteq> [] \<and> aeResourceType e \<noteq> loResourceType opts then False
      else if loResourceID opts \<noteq> [] \<and> aeResourceID e \<noteq> loResourceID opts then False
      else if (case (loSince opts, aeTimestamp e) of (Some a, Some t) \<Rightarrow> t < a | (Some a, None) \<Rightarrow> True | _ \<Rightarrow> False) then False
      else if (case (loUntil opts, aeTimestamp e) of (Some b, Some t) \<Rightarrow> t > b | _ \<Rightarrow> False) then False
      else True)"

definition auditList :: "audit_log \<Rightarrow> list_options \<Rightarrow> audit_event list \<times> int" where
  "auditList m opts =
     (let filtered = filter (\<lambda>e. matchesFilters e opts) (alEvents m);
          total' = int (length filtered);
          limit = (if loLimit opts \<le> 0 then 50 else loLimit opts);
          limit = (if limit > 1000 then 1000 else limit);
          start = (if loOffset opts < 0 then 0 else loOffset opts);
          start = (if start > total' then total' else start);
          stop = (if start + limit > total' then total' else start + limit)
      in (map copyEvent (take (nat (stop - start)) (drop (nat start) filtered)), total'))"

definition auditGetByResource :: "audit_log \<Rightarrow> string \<Rightarrow> string \<Rightarrow> audit_event list" where
  "auditGetByResource m rtype rid =
     [copyEvent e. e \<leftarrow> alEvents m, aeResourceType e = rtype \<and> aeResourceID e = rid]"

subsection \<open>Facts\<close>

definition changes_ok :: "(string, go_any) gomap option \<Rightarrow> bool" where
  "changes_ok m \<longleftrightarrow> (case m of None \<Rightarrow> True | Some kv \<Rightarrow> gmap_ok kv)"

definition event_ok :: "audit_event \<Rightarrow> bool" where
  "event_ok e \<longleftrightarrow> (case aeChanges e of None \<Rightarrow> True | Some c \<Rightarrow> changes_ok (acBefore c) \<and> changes_ok (acAfter c))"

lemma copyMap_id: "changes_ok m \<Longrightarrow> copyMap m = m"
  using fold_gput_copy[of "[]"] by (cases m) (auto simp: copyMap_def changes_ok_def)

lemma copyEvent_id: "event_ok e \<Longrightarrow> copyEvent e = e"
  by (cases "aeChanges e") (auto simp: copyEvent_def event_ok_def copyMap_id)

text \<open>The event as it is stored.\<close>

definition stamped :: "string \<Rightarrow> go_time \<Rightarrow> audit_event \<Rightarrow> audit_event" where
  "stamped newid now e = (let e = (if aeID e = [] then e\<lparr>aeID := newid\<rparr> else e) in
     copyEvent (if aeTimestamp e = None then e\<lparr>aeTimestamp := Some now\<rparr> else e))"

lemma auditLog_events:
  "0 < alMaxEvents m \<Longrightarrow> alEvents (auditLog newid now m (Some e)) = take (nat (alMaxEvents m)) (stamped newid now e # alEvents m)"
  by (simp add: auditLog_def stamped_def Let_def)

lemma auditLog_max [simp]: "alMaxEvents (auditLog newid now m e) = alMaxEvents m"
  by (cases e) (simp_all add: auditLog_def Let_def)

fun log_all :: "(string \<times> go_time \<times> audit_event) list \<Rightarrow> audit_log \<Rightarrow> audit_log" where
  "log_all [] m = m"
| "log_all ((i, t, e) # es) m = log_all es (auditLog i t m (Some e))"

lemma log_all_max [simp]: "alMaxEvents (log_all es m) = alMaxEvents m"
  by (induction es m rule: log_all.induct) simp_all

lemma take_cons_take: "0 < n \<Longrightarrow> take n (xs @ x # take n ys) = take n (xs @ x # ys)"
  by (simp add: take_Cons' min_def)

lemma log_all_events:
  assumes "0 < alMaxEvents m" "length (alEvents m) \<le> nat (alMaxEvents m)"
  shows "alEvents (log_all es m)
     = take (nat (alMaxEvents m)) (rev (map (\<lambda>(i, t, e). stamped i t e) es) @ alEvents m)"
  using assms
proof (induction es m rule: log_all.induct)
  case (2 i t e es m)
  let ?m = "auditLog i t m (Some e)" and ?n = "nat (alMaxEvents m)"
  have ev: "alEvents ?m = take ?n (stamped i t e # alEvents m)" using auditLog_events 2(2) .
  then have "alEvents (log_all es ?m) = take ?n (rev (map (\<lambda>(i, t, e). stamped i t e) es) @ alEvents ?m)"
    using 2 by simp
  also have "\<dots> = take ?n (rev (map (\<lambda>(i, t, e). stamped i t e) es) @ stamped i t e # alEvents m)"
    unfolding ev by (cases ?n) (simp_all add: take_Cons' min_def)
  finally show ?case by simp
qed simp

text \<open>The audit log keeps the latest events. After any number of calls of \<open>Log\<close> a logger with
  a positive bound holds, newest first, the logged events, each with an id and a time, followed by
  the older ones, cut to the bound; \<open>List\<close> without filters returns the window of that list the
  offset and the limit name (50 by default, at most 1000), with the number of events held.\<close>
theorem audit_log_keeps_latest:
  assumes "0 < alMaxEvents m" "length (alEvents m) \<le> nat (alMaxEvents m)"
    "\<forall>e \<in> set (alEvents m). event_ok e" "\<forall>(i, t, e) \<in> set es. event_ok e"
  shows "alEvents (log_all es m) = take (nat (alMaxEvents m)) (rev (map (\<lambda>(i, t, e). stamped i t e) es) @ alEvents m)
    \<and> int (length (alEvents (log_all es m))) \<le> alMaxEvents m
    \<and> auditList (log_all es m) \<lparr>loLimit = lm, loOffset = off, loActor = [], loAction = [], loResourceType = [],
           loResourceID = [], loSince = None, loUntil = None\<rparr>
        = (take (nat (if lm \<le> 0 then 50 else min lm 1000)) (drop (nat off) (alEvents (log_all es m))),
           int (length (alEvents (log_all es m))))"
proof -
  let ?es = "alEvents (log_all es m)"
  have ev: "?es = take (nat (alMaxEvents m)) (rev (map (\<lambda>(i, t, e). stamped i t e) es) @ alEvents m)"
    using log_all_events[OF assms(1,2)] .
  have st: "event_ok (stamped i t e)" if "event_ok e" for i t e
    using that by (auto simp: stamped_def Let_def event_ok_def copyEvent_id split: if_splits)
  have "\<forall>e \<in> set ?es. event_ok e"
    unfolding ev using assms(3,4) st by (fastforce dest: in_set_takeD)
  then have c: "map copyEvent (take a (drop b ?es)) = take a (drop b ?es)" for a b
    by (intro map_idI copyEvent_id) (meson in_set_takeD in_set_dropD)
  have w: "take (nat ((if s + l > n then n else s + l) - s)) (drop (nat s) ?es) = take (nat l) (drop (nat off) ?es)"
    if "n = int (length ?es)" "s = (if (if off < 0 then 0 else off) > n then n else if off < 0 then 0 else off)" "0 < l"
    for s l n
  proof (cases "off > n")
    case True
    then show ?thesis using that by simp
  next
    case False
    then have "s = (if off < 0 then 0 else off)" "nat s = nat off" using that by auto
    then show ?thesis using that False by (auto simp: nat_diff_distrib nat_add_distrib min_def not_less intro!: take_all)
  qed
  have bound: "int (length ?es) \<le> alMaxEvents m" unfolding ev using assms(1) by simp
  let ?n = "int (length ?es)" and ?l = "if lm \<le> 0 then 50 else min lm 1000"
  let ?s = "if (if off < 0 then 0 else off) > ?n then ?n else if off < 0 then 0 else off"
  have lims: "(if (if lm \<le> 0 then 50 else lm) > 1000 then 1000 else (if lm \<le> 0 then 50 else lm)) = ?l" "0 < ?l"
    by (simp_all add: min_def)
  have "auditList (log_all es m) \<lparr>loLimit = lm, loOffset = off, loActor = [], loAction = [], loResourceType = [],
           loResourceID = [], loSince = None, loUntil = None\<rparr>
      = (map copyEvent (take (nat ((if ?s + ?l > ?n then ?n else ?s + ?l) - ?s)) (drop (nat ?s) ?es)), ?n)"
    unfolding auditList_def Let_def matchesFilters_def by (simp add: lims(1))
  then show ?thesis using ev bound unfolding c w[OF refl refl lims(2)] by blast
qed


definition demo_event :: "string \<Rightarrow> audit_event" where
  "demo_event n = \<lparr>aeID = [], aeTimestamp = None, aeActor = ''anonymous'', aeActorType = ActorTypeAnonymous,
     aeAction = ActionAuditCreate, aeResourceType = ResourcePoolName, aeResourceID = n, aeResourceName = ''p'',
     aeChanges = None, aeRequestID = [], aeIPAddress = [], aeStatusCode = 201\<rparr>"

theorem audit_log_keeps_latest_witness:
  "map aeResourceID (alEvents (log_all [(''i'', 1, demo_event ''a''), (''j'', 2, demo_event ''b''), (''k'', 3, demo_event ''c'')]
      (NewMemoryAuditLogger [WithMaxEvents 2]))) = [''c'', ''b'']"
proof -
  let ?m = "NewMemoryAuditLogger [WithMaxEvents 2]"
  have m: "alMaxEvents ?m = 2" "alEvents ?m = []" by (simp_all add: NewMemoryAuditLogger_def WithMaxEvents_def)
  have e: "event_ok (demo_event n)" for n by (simp add: demo_event_def event_ok_def)
  have s: "aeResourceID (stamped i t (demo_event n)) = n" for i t n
    by (simp add: stamped_def demo_event_def copyEvent_def)
  have "alEvents (log_all [(''i'', 1, demo_event ''a''), (''j'', 2, demo_event ''b''), (''k'', 3, demo_event ''c'')] ?m)
      = take (nat (alMaxEvents ?m)) (rev (map (\<lambda>(i, t, e). stamped i t e)
          [(''i'', 1, demo_event ''a''), (''j'', 2, demo_event ''b''), (''k'', 3, demo_event ''c'')]) @ alEvents ?m)"
    using audit_log_keeps_latest[of ?m "[(''i'', 1, demo_event ''a''), (''j'', 2, demo_event ''b''), (''k'', 3, demo_event ''c'')]" 0 0]
      m e by simp
  then show ?thesis by (simp add: m s)
qed

end
