(* ===== verification/StoreOps.thy ===== *)
theory StoreOps
  imports PoolForest
begin

section \<open>The store interface (internal/storage/store.go) and its contract\<close>

text \<open>
  The HTTP handlers use the store through the Go interface \<open>storage.Store\<close>. \<open>store_ops\<close> is that
  interface as a record of operations over an abstract state: the operations that change the state
  return the new one, every operation may answer an error, and the three operations that walk the
  pool tree or slice a page are partial (\<open>None\<close>: they do not return, or panic). The in-memory store is
  one implementation, \<open>memory_ops\<close>; the SQL stores are others, which are not modelled.

  \<open>pool_store\<close> is the contract the pool handlers rely on, stated over the map \<open>live\<close> of the pools
  that are not deleted: what each read returns of it and how each write changes it. The handlers'
  invariants are proved from the contract alone; the in-memory store meets it.
\<close>

record 's store_ops =
  opListPools :: "'s \<Rightarrow> go_error + pool list"
  opCreatePool :: "go_time \<Rightarrow> 's \<Rightarrow> create_pool \<Rightarrow> 's \<times> (go_error + pool)"
  opGetPool :: "'s \<Rightarrow> go_id \<Rightarrow> go_error + pool option"
  opUpdatePool :: "go_time \<Rightarrow> 's \<Rightarrow> go_id \<Rightarrow> update_pool \<Rightarrow> 's \<times> (go_error + pool option)"
  opDeletePool :: "go_time \<Rightarrow> 's \<Rightarrow> go_id \<Rightarrow> 's \<times> (go_error + bool)"
  opDeletePoolCascade :: "go_time \<Rightarrow> 's \<Rightarrow> go_id \<Rightarrow> 's \<times> (go_error + bool)"
  opListAccounts :: "'s \<Rightarrow> go_error + account list"
  opCreateAccount :: "go_time \<Rightarrow> 's \<Rightarrow> create_account \<Rightarrow> 's \<times> (go_error + account)"
  opUpdateAccount :: "go_time \<Rightarrow> 's \<Rightarrow> go_id \<Rightarrow> account \<Rightarrow> 's \<times> (go_error + account option)"
  opDeleteAccount :: "go_time \<Rightarrow> 's \<Rightarrow> go_id \<Rightarrow> 's \<times> (go_error + bool)"
  opDeleteAccountCascade :: "go_time \<Rightarrow> 's \<Rightarrow> go_id \<Rightarrow> 's \<times> (go_error + bool)"
  opGetAccount :: "'s \<Rightarrow> go_id \<Rightarrow> go_error + account option"
  opGetAccountByKey :: "'s \<Rightarrow> string \<Rightarrow> go_error + account"
  opGetPoolHierarchy :: "'s \<Rightarrow> go_id option \<Rightarrow> (go_error + pool_with_stats list) option"
  opCalculatePoolUtilization :: "'s \<Rightarrow> go_id \<Rightarrow> (go_error + pool_stats) option"
  opSearch :: "'s \<Rightarrow> search_request \<Rightarrow> (go_error + search_response) option"

abbreviation no_err :: "'s \<times> 'a \<Rightarrow> 's \<times> (go_error + 'a)" where
  "no_err x \<equiv> (fst x, Inr (snd x))"

definition memory_ops :: "mstore store_ops" where
  "memory_ops = \<lparr>
     opListPools = \<lambda>s. Inr (ListPools s),
     opCreatePool = CreatePool,
     opGetPool = \<lambda>s i. Inr (GetPool s i),
     opUpdatePool = \<lambda>now s i u. no_err (UpdatePool now s i u),
     opDeletePool = DeletePool,
     opDeletePoolCascade = \<lambda>now s i. no_err (DeletePoolCascade now s i),
     opListAccounts = \<lambda>s. Inr (ListAccounts s),
     opCreateAccount = CreateAccount,
     opUpdateAccount = \<lambda>now s i a. no_err (UpdateAccount now s i a),
     opDeleteAccount = DeleteAccount,
     opDeleteAccountCascade = \<lambda>now s i. no_err (DeleteAccountCascade now s i),
     opGetAccount = \<lambda>s i. Inr (GetAccount s i),
     opGetAccountByKey = GetAccountByKey,
     opGetPoolHierarchy = GetPoolHierarchy,
     opCalculatePoolUtilization = CalculatePoolUtilization,
     opSearch = Search\<rparr>"

lemma memory_ops_simps [simp]:
  "opListPools memory_ops s = Inr (ListPools s)"
  "opCreatePool memory_ops = CreatePool"
  "opGetPool memory_ops s i = Inr (GetPool s i)"
  "opUpdatePool memory_ops now s i u = no_err (UpdatePool now s i u)"
  "opDeletePool memory_ops = DeletePool"
  "opDeletePoolCascade memory_ops now s i = no_err (DeletePoolCascade now s i)"
  "opListAccounts memory_ops s = Inr (ListAccounts s)"
  "opCreateAccount memory_ops = CreateAccount"
  "opUpdateAccount memory_ops now s i a = no_err (UpdateAccount now s i a)"
  "opDeleteAccount memory_ops = DeleteAccount"
  "opDeleteAccountCascade memory_ops now s i = no_err (DeleteAccountCascade now s i)"
  "opGetAccount memory_ops s i = Inr (GetAccount s i)"
  "opGetAccountByKey memory_ops = GetAccountByKey"
  "opGetPoolHierarchy memory_ops = GetPoolHierarchy"
  "opCalculatePoolUtilization memory_ops = CalculatePoolUtilization"
  "opSearch memory_ops = Search"
  by (simp_all add: memory_ops_def)

subsection \<open>The contract\<close>

text \<open>Removing a set of pools that is closed downwards: no pool left has its parent in the set.\<close>

definition closed_removal :: "(go_id \<Rightarrow> pool option) \<Rightarrow> (go_id \<Rightarrow> pool option) \<Rightarrow> bool" where
  "closed_removal m m' \<longleftrightarrow> (\<exists>D. m' = m |` (- D) \<and> (\<forall>i p r. m' i = Some p \<longrightarrow> poolParentID p = Some r \<longrightarrow> r \<notin> D))"

lemma closed_removal_refl [simp]: "closed_removal m m"
  unfolding closed_removal_def by (rule exI[of _ "{}"]) (simp add: restrict_map_def fun_eq_iff)

lemma closed_removalD:
  assumes "closed_removal m m'"
  shows "m' i = Some p \<Longrightarrow> m i = Some p"
    and "m' i = Some p \<Longrightarrow> poolParentID p = Some r \<Longrightarrow> m r = Some q \<Longrightarrow> m' r = Some q"
proof -
  from assms obtain D where D: "m' = m |` (- D) \<and> (\<forall>i p r. m' i = Some p \<longrightarrow> poolParentID p = Some r \<longrightarrow> r \<notin> D)"
    unfolding closed_removal_def ..
  have m': "m' k = (if k \<in> D then None else m k)" for k unfolding conjunct1[OF D] restrict_map_def by simp
  show "m' i = Some p \<Longrightarrow> m i = Some p" by (simp add: m' split: if_splits)
  show "m' i = Some p \<Longrightarrow> poolParentID p = Some r \<Longrightarrow> m r = Some q \<Longrightarrow> m' r = Some q"
    using conjunct2[OF D, THEN spec[of _ i], THEN spec[of _ p], THEN spec[of _ r]] m'[of r] by simp
qed

text \<open>What a write may do to a pool it keeps: the identity, the CIDR and the parent stay.\<close>

definition same_place :: "pool \<Rightarrow> pool \<Rightarrow> bool" where
  "same_place p q \<longleftrightarrow> poolID p = poolID q \<and> poolCIDR p = poolCIDR q \<and> poolParentID p = poolParentID q"

lemma same_place_refl [simp]: "same_place p p"
  by (simp add: same_place_def)

text \<open>The pool that a successful creation stores, from its input and its new id.\<close>

definition default_str :: "string \<Rightarrow> string \<Rightarrow> string" where
  "default_str d s = (if s = [] then d else s)"

definition created_from :: "create_pool \<Rightarrow> pool \<Rightarrow> bool" where
  "created_from c p \<longleftrightarrow> poolName p = cpName c \<and> poolCIDR p = cpCIDR c \<and> poolParentID p = cpParentID c
     \<and> poolAccountID p = cpAccountID c \<and> poolType p = default_str PoolTypeSubnet (cpType c)
     \<and> poolStatus p = default_str PoolStatusActive (cpStatus c)
     \<and> poolSource p = default_str PoolSourceManual (cpSource c) \<and> \<not> poolDeleted p"

definition updated_by :: "update_pool \<Rightarrow> pool \<Rightarrow> pool \<Rightarrow> bool" where
  "updated_by u p q \<longleftrightarrow> same_place p q
     \<and> poolName q = (case upName u of None \<Rightarrow> poolName p | Some n \<Rightarrow> n)
     \<and> poolAccountID q = upAccountID u
     \<and> poolType q = (case upType u of None \<Rightarrow> poolType p | Some t \<Rightarrow> t)
     \<and> poolStatus q = (case upStatus u of None \<Rightarrow> poolStatus p | Some t \<Rightarrow> t)
     \<and> poolSource q = poolSource p"

locale pool_store =
  fixes ops :: "'s store_ops" and inv :: "'s \<Rightarrow> bool" and live :: "'s \<Rightarrow> go_id \<Rightarrow> pool option"
  assumes live_id: "inv s \<Longrightarrow> live s i = Some p \<Longrightarrow> poolID p = i"
    and list_pools: "inv s \<Longrightarrow> opListPools ops s = Inr ps \<Longrightarrow> p \<in> set ps \<longleftrightarrow> live s (poolID p) = Some p"
    and get_pool: "inv s \<Longrightarrow> opGetPool ops s i = Inr r \<Longrightarrow> r = live s i"
    and create_inv: "inv s \<Longrightarrow> (\<And>q. cpParentID c = Some q \<Longrightarrow> live s q \<noteq> None) \<Longrightarrow>
        inv (fst (opCreatePool ops now s c))"
    and create_pool: "inv s \<Longrightarrow> opCreatePool ops now s c = (s', Inr p) \<Longrightarrow>
        live s (poolID p) = None \<and> live s' = (live s)(poolID p \<mapsto> p) \<and> created_from c p"
    and create_error: "inv s \<Longrightarrow> opCreatePool ops now s c = (s', Inl e) \<Longrightarrow> live s' = live s"
    and update_inv: "inv s \<Longrightarrow> inv (fst (opUpdatePool ops now s i u))"
    and update_live: "inv s \<Longrightarrow> live (fst (opUpdatePool ops now s i u)) = live s
        \<or> (\<exists>p q. live s i = Some p \<and> updated_by u p q \<and> live (fst (opUpdatePool ops now s i u)) = (live s)(i \<mapsto> q))"
    and remove_inv: "inv s \<Longrightarrow> inv (fst (opDeletePool ops now s i))"
      "inv s \<Longrightarrow> inv (fst (opDeletePoolCascade ops now s i))"
      "inv s \<Longrightarrow> inv (fst (opDeleteAccount ops now s i))"
      "inv s \<Longrightarrow> inv (fst (opDeleteAccountCascade ops now s i))"
      "inv s \<Longrightarrow> inv (fst (opCreateAccount ops now s ca))"
      "inv s \<Longrightarrow> inv (fst (opUpdateAccount ops now s i au))"
    and remove_live: "inv s \<Longrightarrow> closed_removal (live s) (live (fst (opDeletePool ops now s i)))"
      "inv s \<Longrightarrow> closed_removal (live s) (live (fst (opDeletePoolCascade ops now s i)))"
      "inv s \<Longrightarrow> closed_removal (live s) (live (fst (opDeleteAccountCascade ops now s i)))"
    and account_live: "inv s \<Longrightarrow> live (fst (opDeleteAccount ops now s i)) = live s"
      "inv s \<Longrightarrow> live (fst (opCreateAccount ops now s ca)) = live s"
      "inv s \<Longrightarrow> live (fst (opUpdateAccount ops now s i au)) = live s"
    and hierarchy_returns: "inv s \<Longrightarrow> opGetPoolHierarchy ops s rt \<noteq> None"
    and stats_return: "inv s \<Longrightarrow> opCalculatePoolUtilization ops s i \<noteq> None"
begin

lemma delete_live:
  assumes "inv s"
  shows "closed_removal (live s) (live (fst (if b then opDeletePoolCascade ops now s i else opDeletePool ops now s i)))"
    and "closed_removal (live s) (live (fst (if b then opDeleteAccountCascade ops now s i else opDeleteAccount ops now s i)))"
  using assms remove_live account_live(1) by (simp_all split: if_split)

end

subsection \<open>The in-memory store meets it\<close>

lemma closed_removal_cascade:
  assumes s: "store_inv s"
    and t: "pools t = mark_deleted now (cascade_close (pools s) d) (pools s)" and d: "set d \<subseteq> gkeys (pools s)"
  shows "closed_removal (GetPool s) (GetPool t)"
proof -
  let ?D = "set (cascade_close (pools s) d)"
  have keys: "k \<in> ?D \<Longrightarrow> map_of (pools s) k \<noteq> None" for k
    using live_below_keys[of "pools s" "set d" k] d by (auto simp: cascade_close_set gkeys_dom dom_def)
  have t_at: "map_of (pools t) k = (if k \<in> ?D then map_option (soft_delete now) (map_of (pools s) k) else map_of (pools s) k)" for k
    using keys[of k] by (auto simp: t map_of_mark_deleted gget_def)
  have get: "GetPool t k = (if k \<in> ?D then None else GetPool s k)" for k
    by (auto simp: GetPool_def t_at split: option.split)
  show ?thesis
    unfolding closed_removal_def
  proof (intro exI[of _ ?D] conjI allI impI)
    show "GetPool t = GetPool s |` (- ?D)" by (rule ext) (simp add: get restrict_map_def)
    fix i p r
    assume "GetPool t i = Some p" and r: "poolParentID p = Some r"
    then have i: "i \<notin> ?D" "GetPool s i = Some p" by (auto simp: get split: if_splits)
    then obtain p0 where p0: "map_of (pools s) i = Some p0" "\<not> poolDeleted p0" "p = clonePool p0"
      by (auto simp: GetPool_def split: option.splits if_splits)
    then have "live_child_of r p0" using r by (simp add: live_child_of_def)
    with cascade_closed[OF s p0(1)] i(1) show "r \<notin> ?D" by blast
  qed
qed

lemma closed_removal_DeletePool:
  assumes "store_inv s"
  shows "closed_removal (GetPool s) (GetPool (fst (DeletePool now s i)))"
proof (cases "\<exists>p. map_of (pools s) i = Some p \<and> \<not> poolDeleted p \<and> \<not> list_ex (\<lambda>(_, ch). live_child_of i ch) (pools s)")
  case True
  then obtain p where p: "map_of (pools s) i = Some p" "\<not> poolDeleted p"
    and ch: "\<not> list_ex (\<lambda>(_, ch). live_child_of i ch) (pools s)" by blast
  let ?t = "fst (DeletePool now s i)"
  have t: "pools ?t = gput i (soft_delete now p) (pools s)" using p ch by (simp add: DeletePool_def)
  have get: "GetPool ?t k = (if k = i then None else GetPool s k)" for k
    by (simp add: GetPool_def t)
  show ?thesis
    unfolding closed_removal_def
  proof (intro exI[of _ "{i}"] conjI allI impI)
    show "GetPool ?t = GetPool s |` (- {i})" by (rule ext) (simp add: get restrict_map_def)
    fix k q r
    assume "GetPool ?t k = Some q" and r: "poolParentID q = Some r"
    then have "GetPool s k = Some q" by (simp add: get split: if_splits)
    then obtain q0 where q0: "map_of (pools s) k = Some q0" "\<not> poolDeleted q0" "q = clonePool q0"
      by (auto simp: GetPool_def split: option.splits if_splits)
    then have "(k, q0) \<in> set (pools s)" "live_child_of r q0"
      using r map_of_SomeD[OF q0(1)] by (simp_all add: live_child_of_def)
    with ch show "r \<notin> {i}" by (auto simp: list_ex_iff)
  qed
next
  case False
  then have "fst (DeletePool now s i) = s" by (auto simp: DeletePool_def split: option.split)
  then show ?thesis by simp
qed

lemma ListPools_GetPool:
  assumes "store_inv s"
  shows "p \<in> set (ListPools s) \<longleftrightarrow> GetPool s (poolID p) = Some p"
proof
  assume "p \<in> set (ListPools s)"
  then obtain k q where q: "(k, q) \<in> set (pools s)" "\<not> poolDeleted q" "p = clonePool q"
    by (auto simp: ListPools_def split: if_splits)
  have m: "map_of (pools s) k = Some q" using q(1) store_inv_mem[OF assms] by blast
  then show "GetPool s (poolID p) = Some p" using q store_invD(3)[OF assms m] by (simp add: GetPool_def)
next
  assume "GetPool s (poolID p) = Some p"
  then obtain q where q: "map_of (pools s) (poolID p) = Some q" "\<not> poolDeleted q" "p = clonePool q"
    by (auto simp: GetPool_def split: option.splits if_splits)
  from map_of_SomeD[OF q(1)] q(2,3) show "p \<in> set (ListPools s)"
    by (force simp: ListPools_def)
qed

lemma apply_update_updated:
  "updated_by u p (apply_update now u p)" "poolDeletedAt (apply_update now u p) = poolDeletedAt p"
  by (auto simp: updated_by_def same_place_def apply_update_def Let_def split: option.split)

lemma updated_by_clone: "updated_by u p q \<Longrightarrow> updated_by u (clonePool p) (clonePool q)"
  by (simp add: updated_by_def same_place_def clonePool_def split: option.splits)

lemma GetPool_UpdatePool:
  "GetPool (fst (UpdatePool now s i u)) = GetPool s
   \<or> (\<exists>p q. GetPool s i = Some p \<and> updated_by u p q \<and> GetPool (fst (UpdatePool now s i u)) = (GetPool s)(i \<mapsto> q))"
proof (cases "map_of (pools s) i")
  case None
  then show ?thesis by (simp add: UpdatePool_def)
next
  case (Some p)
  let ?q = "apply_update now u p"
  have get: "GetPool (fst (UpdatePool now s i u)) k =
      (if k = i then if poolDeleted p then None else Some (clonePool ?q) else GetPool s k)" for k
    using Some by (simp add: UpdatePool_def GetPool_def Let_def apply_update_updated(2))
  show ?thesis
  proof (cases "poolDeleted p")
    case True
    then have "GetPool (fst (UpdatePool now s i u)) = GetPool s"
      by (intro ext) (simp add: get, simp add: GetPool_def Some)
    then show ?thesis by blast
  next
    case False
    have "GetPool s i = Some (clonePool p)" using Some False by (simp add: GetPool_def)
    moreover have "GetPool (fst (UpdatePool now s i u)) = (GetPool s)(i \<mapsto> clonePool ?q)"
      using False by (intro ext) (simp add: get)
    ultimately show ?thesis using updated_by_clone[OF apply_update_updated(1)] by blast
  qed
qed

lemma GetPool_same_pools: "pools t = pools s \<Longrightarrow> GetPool t = GetPool s"
  by (rule ext) (simp add: GetPool_def)

lemma CreatePool_result:
  assumes "store_inv s" "CreatePool now s c = (t, Inr p)"
  shows "GetPool s (poolID p) = None \<and> GetPool t = (GetPool s)(poolID p \<mapsto> p) \<and> created_from c p"
proof -
  have ne: "\<not> (cpName c = [] \<or> cpCIDR c = [])" using assms(2) by (auto simp: CreatePool_def split: if_splits)
  let ?p = "\<lparr>poolID = nextPool s, poolName = cpName c, poolCIDR = cpCIDR c, poolParentID = cpParentID c,
      poolAccountID = cpAccountID c, poolType = default_str PoolTypeSubnet (cpType c),
      poolStatus = default_str PoolStatusActive (cpStatus c), poolSource = default_str PoolSourceManual (cpSource c),
      poolDescription = cpDescription c, poolTags = cloneStringStringMap (cpTags c),
      poolCreatedAt = now, poolUpdatedAt = now, poolDeletedAt = None\<rparr>"
  have "CreatePool now s c = (s\<lparr>pools := gput (nextPool s) ?p (pools s), nextPool := nextPool s + 1\<rparr>, Inr (clonePool ?p))"
    using ne by (simp add: CreatePool_def Let_def default_str_def)
  then obtain p0 where p0: "p = clonePool p0" "poolID p0 = nextPool s"
      "t = s\<lparr>pools := gput (nextPool s) p0 (pools s), nextPool := nextPool s + 1\<rparr>" "created_from c p0"
    using assms(2) by (intro that[of ?p]) (simp_all add: created_from_def)
  have "map_of (pools s) (nextPool s) = None"
    using store_invD(3)[OF assms(1), of "nextPool s"] by (cases "map_of (pools s) (nextPool s)") auto
  then have "GetPool s (poolID p) = None" using p0 by (simp add: GetPool_def)
  moreover have "GetPool t = (GetPool s)(poolID p \<mapsto> p)"
    using p0 by (intro ext) (simp add: GetPool_def created_from_def)
  moreover have "created_from c p" using p0(1,4) by (simp add: created_from_def clonePool_def)
  ultimately show ?thesis by blast
qed

lemma CreatePool_error: "CreatePool now s c = (t, Inl e) \<Longrightarrow> t = s"
  by (auto simp: CreatePool_def Let_def split: if_splits)

lemma closed_removal_DeletePoolCascade:
  assumes "store_inv s"
  shows "closed_removal (GetPool s) (GetPool (fst (DeletePoolCascade now s i)))"
proof (cases "\<exists>p. map_of (pools s) i = Some p \<and> \<not> poolDeleted p")
  case True
  then have "set [i] \<subseteq> gkeys (pools s)" by (auto simp: gkeys_dom)
  moreover have "pools (fst (DeletePoolCascade now s i)) = mark_deleted now (cascade_close (pools s) [i]) (pools s)"
    using True by (auto simp: DeletePoolCascade_def)
  ultimately show ?thesis using closed_removal_cascade[OF assms] by blast
next
  case False
  then have "fst (DeletePoolCascade now s i) = s" by (auto simp: DeletePoolCascade_def split: option.split)
  then show ?thesis by simp
qed

lemma closed_removal_DeleteAccountCascade:
  assumes "store_inv s"
  shows "closed_removal (GetPool s) (GetPool (fst (DeleteAccountCascade now s i)))"
proof (cases "\<exists>a. map_of (accounts s) i = Some a \<and> \<not> accDeleted a")
  case True
  let ?roots = "[pid. (pid, p) \<leftarrow> pools s, live_pool_of_account i p]"
  have "set ?roots \<subseteq> gkeys (pools s)" by force
  moreover have "pools (fst (DeleteAccountCascade now s i)) = mark_deleted now (cascade_close (pools s) ?roots) (pools s)"
    using True by (auto simp: DeleteAccountCascade_def Let_def)
  ultimately show ?thesis using closed_removal_cascade[OF assms] by blast
next
  case False
  then have "fst (DeleteAccountCascade now s i) = s" by (auto simp: DeleteAccountCascade_def split: option.split)
  then show ?thesis by simp
qed

lemma reachable_CreatePool:
  "store_reachable s \<Longrightarrow> (\<And>q. cpParentID c = Some q \<Longrightarrow> GetPool s q \<noteq> None) \<Longrightarrow> store_reachable (fst (CreatePool now s c))"
  by (erule store_reachable.step) (rule store_step.create_pool)

lemma reachable_ops:
  assumes "store_reachable s"
  shows "store_reachable (fst (UpdatePool now s i u))" "store_reachable (fst (DeletePool now s i))"
    "store_reachable (fst (DeletePoolCascade now s i))" "store_reachable (fst (DeleteAccount now s i))"
    "store_reachable (fst (DeleteAccountCascade now s i))" "store_reachable (fst (CreateAccount now s ca))"
    "store_reachable (fst (UpdateAccount now s i au))"
  using assms by (blast intro: store_reachable.step store_step.intros)+

lemma root_ids_keys: "tree_ok ps b \<Longrightarrow> set (root_ids ps) \<subseteq> gkeys ps"
  by (force simp: root_ids_def dest: tree_okD(1))

lemma hierarchy_returns:
  assumes "tree_ok (pools s) b"
  shows "GetPoolHierarchy s rt \<noteq> None"
proof (cases rt)
  case None
  then show ?thesis using buildTrees_total[OF assms root_ids_keys[OF assms]] by (auto simp: GetPoolHierarchy_def)
next
  case (Some r)
  have "\<exists>ts. buildTrees (pools s) [r] = Some ts" if "map_of (pools s) r = Some p" for p
    using buildTrees_total[OF assms, of "[r]"] map_of_SomeD[OF that] by force
  then show ?thesis using Some by (fastforce simp: GetPoolHierarchy_def split: option.split)
qed

interpretation mem: pool_store memory_ops store_reachable GetPool
proof
  fix s :: mstore and i :: go_id and p :: pool and ps r c now t e u ca au rt
  assume r: "store_reachable s"
  then have s: "store_inv s" using reachable_invs by blast
  show "GetPool s i = Some p \<Longrightarrow> poolID p = i"
    using store_invD(3)[OF s] by (auto simp: GetPool_def split: option.splits if_splits)
  show "opListPools memory_ops s = Inr ps \<Longrightarrow> p \<in> set ps \<longleftrightarrow> GetPool s (poolID p) = Some p"
    using ListPools_GetPool[OF s] by auto
  show "opGetPool memory_ops s i = Inr r \<Longrightarrow> r = GetPool s i" for r by simp
  show "(\<And>q. cpParentID c = Some q \<Longrightarrow> GetPool s q \<noteq> None) \<Longrightarrow> store_reachable (fst (opCreatePool memory_ops now s c))"
    using reachable_CreatePool[OF r, of c now] by simp
  show "opCreatePool memory_ops now s c = (t, Inr p) \<Longrightarrow>
      GetPool s (poolID p) = None \<and> GetPool t = (GetPool s)(poolID p \<mapsto> p) \<and> created_from c p"
    using CreatePool_result[OF s, of now c t p] by simp
  show "opCreatePool memory_ops now s c = (t, Inl e) \<Longrightarrow> GetPool t = GetPool s"
    using CreatePool_error[of now s c t e] by simp
  show "GetPool (fst (opUpdatePool memory_ops now s i u)) = GetPool s
      \<or> (\<exists>p q. GetPool s i = Some p \<and> updated_by u p q \<and> GetPool (fst (opUpdatePool memory_ops now s i u)) = (GetPool s)(i \<mapsto> q))"
    using GetPool_UpdatePool[of now s i u] by simp
  show "store_reachable (fst (opUpdatePool memory_ops now s i u))" "store_reachable (fst (opDeletePool memory_ops now s i))"
    "store_reachable (fst (opDeletePoolCascade memory_ops now s i))" "store_reachable (fst (opDeleteAccount memory_ops now s i))"
    "store_reachable (fst (opDeleteAccountCascade memory_ops now s i))"
    "store_reachable (fst (opCreateAccount memory_ops now s ca))"
    "store_reachable (fst (opUpdateAccount memory_ops now s i au))"
    using reachable_ops[OF r] by simp_all
  show "closed_removal (GetPool s) (GetPool (fst (opDeletePool memory_ops now s i)))"
    "closed_removal (GetPool s) (GetPool (fst (opDeletePoolCascade memory_ops now s i)))"
    "closed_removal (GetPool s) (GetPool (fst (opDeleteAccountCascade memory_ops now s i)))"
    using closed_removal_DeletePool[OF s] closed_removal_DeletePoolCascade[OF s]
      closed_removal_DeleteAccountCascade[OF s] by simp_all
  show "GetPool (fst (opDeleteAccount memory_ops now s i)) = GetPool s"
    "GetPool (fst (opCreateAccount memory_ops now s ca)) = GetPool s"
    "GetPool (fst (opUpdateAccount memory_ops now s i au)) = GetPool s"
    using GetPool_same_pools[OF pools_account_ops(1)] GetPool_same_pools[OF pools_account_ops(2)]
      GetPool_same_pools[OF pools_account_ops(3)] by simp_all
  show "opGetPoolHierarchy memory_ops s rt \<noteq> None"
    using hierarchy_returns[OF reachable_tree_ok[OF r]] by simp
  show "opCalculatePoolUtilization memory_ops s i \<noteq> None"
  proof (cases "map_of (pools s) i")
    case (Some q)
    obtain st where "calculatePoolStatsLocked (pools s) q = Some st"
      using stats_defined[OF reachable_tree_ok[OF r]] by blast
    then show ?thesis using Some by (simp add: CalculatePoolUtilization_def)
  qed (simp add: CalculatePoolUtilization_def)
qed

end
