(* ===== verification/Http.thy ===== *)
theory Http
  imports AuditLog StoreOps
begin

section \<open>Requests, responses and the server's helpers (internal/api/server.go, helpers)\<close>

text \<open>
  A request is its method, its path and its query; the JSON body reaches a handler already decoded,
  \<open>None\<close> where \<open>json.Decoder\<close> answers an error. A response is the status with the error body of
  \<open>writeErr\<close>, a JSON payload, or no body. Headers, logging and error reporting are left out. The
  message of an error response is the fixed text or the error value whose \<open>Error()\<close> it is.
\<close>

subsection \<open>Strings\<close>

fun split_on :: "char \<Rightarrow> string \<Rightarrow> string list" where
  "split_on sep [] = [[]]"
| "split_on sep (c # cs) =
     (if c = sep then [] # split_on sep cs
      else case split_on sep cs of [] \<Rightarrow> [[c]] | p # ps \<Rightarrow> (c # p) # ps)"

definition trim_char :: "char \<Rightarrow> string \<Rightarrow> string" where
  "trim_char c s = rev (dropWhile ((=) c) (rev (dropWhile ((=) c) s)))"

text \<open>\<open>strconv.ParseInt(s, 10, 64)\<close> and \<open>strconv.Atoi\<close> on a 64-bit machine. \<open>scan_uint\<close> is the digit loop
  of \<open>ParseUint\<close>: it stops with a syntax error (\<open>None\<close>) at the first byte that is not a digit, and with
  a value of at least \<open>2^64\<close> as soon as the number does not fit. The second component of
  \<open>atoi_value\<close> tells success; on a range error the value is the bound that was passed, on a syntax
  error it is 0.\<close>

definition max_int64 :: int where "max_int64 = 2 ^ 63 - 1"

fun scan_uint :: "nat \<Rightarrow> string \<Rightarrow> nat option" where
  "scan_uint acc [] = Some acc"
| "scan_uint acc (c # cs) =
     (if \<not> is_digit c then None
      else let n = acc * 10 + digit_val c in if 2 ^ 64 \<le> n then Some n else scan_uint n cs)"

definition signed_digits :: "string \<Rightarrow> int option" where
  "signed_digits s = (case s of
     [] \<Rightarrow> None
   | c # cs \<Rightarrow>
       if c = CHR ''-'' then (if cs = [] then None else map_option (\<lambda>n. - int n) (scan_uint 0 cs))
       else if c = CHR ''+'' then (if cs = [] then None else map_option int (scan_uint 0 cs))
       else map_option int (scan_uint 0 s))"

definition atoi_value :: "string \<Rightarrow> int \<times> bool" where
  "atoi_value s = (case signed_digits s of
     None \<Rightarrow> (0, False)
   | Some n \<Rightarrow> if n > max_int64 then (max_int64, False) else if n < - max_int64 - 1 then (- max_int64 - 1, False)
       else (n, True))"

definition parseInt64 :: "string \<Rightarrow> int option" where
  "parseInt64 s = (case atoi_value s of (n, ok) \<Rightarrow> if ok then Some n else None)"

lemma split_on_not_Nil [simp]: "split_on sep s \<noteq> []"
  by (induction sep s rule: split_on.induct) (auto split: list.split)

lemma digits_val_mono: "digits_val a s = Some n \<Longrightarrow> a \<le> n"
proof (induction a s rule: digits_val.induct)
  case (2 acc c cs)
  then have "acc * 10 + digit_val c \<le> n" by (auto split: if_splits)
  then show ?case by simp
qed simp

lemma scan_uint_digits: "digits_val a s = Some n \<Longrightarrow> n < 2 ^ 64 \<Longrightarrow> scan_uint a s = Some n"
proof (induction a s rule: digits_val.induct)
  case (2 acc c cs)
  then have c: "is_digit c" "digits_val (acc * 10 + digit_val c) cs = Some n" by (auto split: if_splits)
  then have "acc * 10 + digit_val c < 2 ^ 64" using digits_val_mono[OF c(2)] 2(3) by linarith
  then show ?case using 2 c by simp
qed simp

lemma scan_uint_itoa: "n < 2 ^ 64 \<Longrightarrow> scan_uint 0 (itoa n) = Some n"
  by (rule scan_uint_digits[OF digits_val_itoa])

lemma signed_digits_itoa_int:
  assumes "- max_int64 - 1 \<le> i" "i \<le> max_int64"
  shows "signed_digits (itoa_int i) = Some i"
proof -
  have fits: "nat i < 2 ^ 64" "nat (- i) < 2 ^ 64" using assms by (simp_all add: max_int64_def)
  show ?thesis
  proof (cases "i < 0")
    case False
    obtain c cs where c: "itoa (nat i) = c # cs" using itoa_not_Nil by (cases "itoa (nat i)") auto
    have "is_digit c" using set_itoa[of c "nat i"] c by simp
    then have "c \<noteq> CHR ''-''" "c \<noteq> CHR ''+''" by (auto simp: is_digit_def)
    then show ?thesis using False c scan_uint_itoa[OF fits(1)]
      by (simp add: itoa_int_def signed_digits_def del: scan_uint.simps)
  next
    case True
    then show ?thesis using scan_uint_itoa[OF fits(2)]
      by (simp add: itoa_int_def signed_digits_def del: scan_uint.simps)
  qed
qed

lemma parseInt64_itoa_int: "- max_int64 - 1 \<le> i \<Longrightarrow> i \<le> max_int64 \<Longrightarrow> parseInt64 (itoa_int i) = Some i"
  by (simp add: parseInt64_def atoi_value_def signed_digits_itoa_int)

subsection \<open>Requests and responses\<close>

record http_request =
  rqMethod :: string
  rqPath :: string
  rqQuery :: "(string, string) gomap"

definition query_get :: "http_request \<Rightarrow> string \<Rightarrow> string" where
  "query_get r k = gget [] (rqQuery r) k"

text \<open>A formatted message is its format with the arguments.\<close>

datatype err_msg = Msg string | Num int | Sprintf string "err_msg list" | OfStore go_error | OfValidation validation_error | OfChild child_error
  | OfSubnets subnets_error

datatype 'a http_response = RespErr int err_msg err_msg | RespJSON int 'a | RespStatus int

definition no_detail :: err_msg where "no_detail = Msg []"

definition writeErr :: "int \<Rightarrow> string \<Rightarrow> string \<Rightarrow> 'a http_response" where
  "writeErr code msg detail = RespErr code (Msg msg) (Msg detail)"

definition writeStoreErr :: "go_error \<Rightarrow> 'a http_response" where
  "writeStoreErr e =
     (if errorsIs e ErrNotFound then RespErr 404 (OfStore e) no_detail
      else if errorsIs e ErrConflict then RespErr 409 (OfStore e) no_detail
      else if errorsIs e ErrValidation then RespErr 400 (OfStore e) no_detail
      else RespErr 500 (Msg ''internal error'') (OfStore e))"

definition internal_error :: "go_error \<Rightarrow> 'a http_response" where
  "internal_error e = RespErr 500 (Msg ''internal error'') (OfStore e)"

definition status_of :: "'a http_response \<Rightarrow> int" where
  "status_of r = (case r of RespErr c _ _ \<Rightarrow> c | RespJSON c _ \<Rightarrow> c | RespStatus c \<Rightarrow> c)"

lemma status_of_simps [simp]:
  "status_of (RespErr c m d) = c" "status_of (RespJSON c x) = c" "status_of (RespStatus c) = c"
  "status_of (writeErr c m' d') = c"
  by (simp_all add: status_of_def writeErr_def)

definition method_not_allowed :: "'a http_response" where
  "method_not_allowed = writeErr 405 ''method not allowed'' []"

definition not_found :: "'a http_response" where
  "not_found = writeErr 404 ''not found'' []"

definition forbidden :: "'a http_response" where
  "forbidden = writeErr 403 ''forbidden'' []"

text \<open>The text \<open>%v\<close> prints for a slice of strings.\<close>

fun join_space :: "string list \<Rightarrow> string" where
  "join_space [] = []"
| "join_space [x] = x"
| "join_space (x # xs) = x @ '' '' @ join_space xs"

definition show_slice :: "string list \<Rightarrow> string" where
  "show_slice xs = ''['' @ join_space xs @ '']''"

subsection \<open>The request's environment and the audit trail\<close>

text \<open>What a handler reads of its surroundings: the clock, the role store, the authentication context,
  the request id, and the fresh ids
  that the audit events of the request get, in the order they are logged. The server state pairs the store with the
  audit logger, which may be absent.\<close>

record req_env =
  envNow :: go_time
  envRoles :: "role_store option"
  envCtx :: auth_ctx
  envRequestID :: string
  envEventID :: "nat \<Rightarrow> string"

record 's server =
  svStore :: 's
  svAudit :: "audit_log option"

definition audit_actor :: "auth_ctx \<Rightarrow> string \<times> string" where
  "audit_actor c = (case ctxUser c of
     Some u \<Rightarrow> (userUsername u, ActorTypeUser)
   | None \<Rightarrow> (case ctxAPIKey c of Some k \<Rightarrow> (keyName k, ActorTypeAPIKey) | None \<Rightarrow> (''anonymous'', ActorTypeAnonymous)))"

definition logAuditWithChanges :: "req_env \<Rightarrow> nat \<Rightarrow> string \<Rightarrow> string \<Rightarrow> string \<Rightarrow> string \<Rightarrow>
    audit_changes option \<Rightarrow> int \<Rightarrow> 's server \<Rightarrow> 's server" where
  "logAuditWithChanges env k action rtype rid rname changes status x = (case svAudit x of
     None \<Rightarrow> x
   | Some l \<Rightarrow>
       let (actor, actorType) = audit_actor (envCtx env);
           event = \<lparr>aeID = [], aeTimestamp = None, aeActor = actor, aeActorType = actorType, aeAction = action,
             aeResourceType = rtype, aeResourceID = rid, aeResourceName = rname, aeChanges = changes,
             aeRequestID = envRequestID env, aeIPAddress = [], aeStatusCode = status\<rparr>
       in x\<lparr>svAudit := Some (auditLog (envEventID env k) (envNow env) l (Some event))\<rparr>)"

definition logAudit ::
    "req_env \<Rightarrow> nat \<Rightarrow> string \<Rightarrow> string \<Rightarrow> string \<Rightarrow> string \<Rightarrow> int \<Rightarrow> 's server \<Rightarrow> 's server" where
  "logAudit env k action rtype rid rname status x = logAuditWithChanges env k action rtype rid rname None status x"

lemma svStore_logAudit [simp]:
  "svStore (logAuditWithChanges env k a t i n ch st x) = svStore x" "svStore (logAudit env k a t i n st x) = svStore x"
  by (auto simp: logAudit_def logAuditWithChanges_def Let_def split: option.split prod.split)

definition allowed :: "req_env \<Rightarrow> string \<Rightarrow> string \<Rightarrow> bool" where
  "allowed env resource action =
     HasPermissionContext (envRoles env) (envNow env) (envCtx env) (GetEffectiveRole (envNow env) (envCtx env)) resource action"

end
