(* ===== verification/BlockHandlers.thy ===== *)
theory BlockHandlers
  imports Http
begin

section \<open>The block listings (internal/api/block\_handlers.go)\<close>

text \<open>
  \<open>blocksForPool\<close> splits a pool into blocks of one prefix length and tells for each whether a child
  pool is that block or overlaps it; \<open>handleBlocksList\<close> lists the assigned pools page by page. Both
  read the accounts through a cache that lives for one request, \<open>account_resolver\<close>, which is threaded
  through the loops. A handler's result \<open>None\<close> is a run-time panic (the slice of a page whose start
  has wrapped around).
\<close>

subsection \<open>The account cache\<close>

record block_meta =
  bmName :: string
  bmPlatform :: string
  bmTier :: string
  bmEnvironment :: string
  bmRegions :: "string list option"

record account_resolver =
  arLoaded :: bool
  arAccounts :: "(go_id, block_meta) gomap"

definition newBlockAccountResolver :: account_resolver where
  "newBlockAccountResolver = \<lparr>arLoaded = False, arAccounts = []\<rparr>"

definition account_meta :: "account \<Rightarrow> block_meta" where
  "account_meta a = \<lparr>bmName = accName a, bmPlatform = accPlatform a, bmTier = accTier a,
     bmEnvironment = accEnvironment a, bmRegions = append_nil (accRegions a)\<rparr>"

definition ensureLoaded ::
    "go_error + account list \<Rightarrow> account_resolver \<Rightarrow> account_resolver \<times> go_error option" where
  "ensureLoaded load r =
     (if arLoaded r then (r, None)
      else case load of
        Inl e \<Rightarrow> (r, Some e)
      | Inr accs \<Rightarrow>
          (r\<lparr>arAccounts := fold (\<lambda>a m. gput (accID a) (account_meta a) m) accs [], arLoaded := True\<rparr>, None))"

definition metadata ::
    "go_error + account list \<Rightarrow> account_resolver \<Rightarrow> go_id \<Rightarrow> account_resolver \<times> (go_error + block_meta option)" where
  "metadata load r i = (case ensureLoaded load r of
     (r, Some e) \<Rightarrow> (r, Inl e)
   | (r, None) \<Rightarrow> (r, Inr (map_option (\<lambda>m. m\<lparr>bmRegions := append_nil (bmRegions m)\<rparr>) (map_of (arAccounts r) i))))"

subsection \<open>Query parameters\<close>

definition page_size_param :: "int \<Rightarrow> string \<Rightarrow> int option" where
  "page_size_param default' v =
     (if toLower v = ''all'' then Some 0
      else if v = [] then Some default'
      else case parseInt64 v of None \<Rightarrow> None | Some n \<Rightarrow> if n < 0 then None else Some n)"

definition page_param :: "string \<Rightarrow> int option" where
  "page_param v =
     (if v = [] then Some 1
      else case parseInt64 v of None \<Rightarrow> None | Some n \<Rightarrow> if n \<le> 0 then None else Some n)"

definition parseIDs :: "string \<Rightarrow> go_id list" where
  "parseIDs v = (if v = [] then []
     else List.map_filter (\<lambda>part. let part = trimSpace part in if part = [] then None else parseInt64 part)
            (split_on CHR '','' v))"

record 'i page_response =
  prItems :: "'i list"
  prTotal :: int
  prPage :: int
  prPageSize :: int

subsection \<open>All assigned blocks\<close>

record block_row =
  brID :: go_id
  brName :: string
  brCIDR :: string
  brParentID :: "go_id option"
  brParentName :: string
  brAccountID :: "go_id option"
  brMeta :: block_meta
  brType :: string
  brStatus :: string
  brSource :: string
  brCreatedAt :: go_time

definition no_meta :: block_meta where
  "no_meta = \<lparr>bmName = [], bmPlatform = [], bmTier = [], bmEnvironment = [], bmRegions = None\<rparr>"

definition block_listed :: "go_id list \<Rightarrow> go_id list \<Rightarrow> pool \<Rightarrow> bool" where
  "block_listed accFilter poolFilter p \<longleftrightarrow>
     \<not> (poolParentID p = None \<and> poolType p \<noteq> ''vpc'' \<and> poolType p \<noteq> ''subnet'')
     \<and> (accFilter = [] \<or> (case poolAccountID p of None \<Rightarrow> False | Some a \<Rightarrow> a \<in> set accFilter))
     \<and> (poolFilter = [] \<or> (case poolParentID p of None \<Rightarrow> False | Some q \<Rightarrow> q \<in> set poolFilter))"

definition block_row_of :: "(go_id, string) gomap \<Rightarrow> pool \<Rightarrow> block_row" where
  "block_row_of poolName' p = \<lparr>brID = poolID p, brName = poolName p, brCIDR = poolCIDR p,
     brParentID = poolParentID p,
     brParentName = (case poolParentID p of None \<Rightarrow> [] | Some q \<Rightarrow> gget [] poolName' q),
     brAccountID = poolAccountID p, brMeta = no_meta, brType = poolType p, brStatus = poolStatus p,
     brSource = poolSource p, brCreatedAt = poolCreatedAt p\<rparr>"

fun block_rows :: "go_error + account list \<Rightarrow> (go_id, string) gomap \<Rightarrow> go_id list \<Rightarrow> go_id list \<Rightarrow>
    account_resolver \<Rightarrow> pool list \<Rightarrow> go_error + block_row list" where
  "block_rows load names accFilter poolFilter r [] = Inr []"
| "block_rows load names accFilter poolFilter r (p # ps) =
     (if \<not> block_listed accFilter poolFilter p then block_rows load names accFilter poolFilter r ps
      else
        let row = block_row_of names p;
            (r, meta) = (case poolAccountID p of None \<Rightarrow> (r, Inr None) | Some a \<Rightarrow> metadata load r a)
        in case meta of
             Inl e \<Rightarrow> Inl e
           | Inr m \<Rightarrow>
               let row = (case m of None \<Rightarrow> row | Some m \<Rightarrow> row\<lparr>brMeta := m\<rparr>)
               in map_sum id (Cons row) (block_rows load names accFilter poolFilter r ps))"

definition sort_rows :: "block_row list \<Rightarrow> block_row list" where
  "sort_rows rows = sort_key brCreatedAt (sort_key brID rows)"

definition handleBlocksList ::
    "'s store_ops \<Rightarrow> http_request \<Rightarrow> 's \<Rightarrow> block_row page_response http_response option" where
  "handleBlocksList ops rq s = (case opListPools ops s of
     Inl e \<Rightarrow> Some (internal_error e)
   | Inr ps \<Rightarrow>
       let names = fold (\<lambda>p m. gput (poolID p) (poolName p) m) ps [];
           accFilter = parseIDs (query_get rq ''accounts'');
           poolFilter = parseIDs (query_get rq ''pools'')
       in case page_size_param 50 (query_get rq ''page_size'') of
            None \<Rightarrow> Some (writeErr 400 ''invalid page_size'' [])
          | Some pageSize \<Rightarrow>
              let pageSize = (if pageSize > 0 \<and> pageSize > 500 then 500 else pageSize)
              in case page_param (query_get rq ''page'') of
                   None \<Rightarrow> Some (writeErr 400 ''invalid page'' [])
                 | Some pg \<Rightarrow>
                     (case block_rows (opListAccounts ops s) names accFilter poolFilter newBlockAccountResolver ps of
                        Inl e \<Rightarrow> Some (internal_error e)
                      | Inr rows \<Rightarrow>
                          let items = sort_rows rows;
                              total' = int (length items);
                              page' = (if pageSize > 0 then
                                  let start = wrap64 ((pg - 1) * pageSize);
                                      start = (if start > total' then total' else start);
                                      stop = wrap64 (start + pageSize);
                                      stop = (if stop > total' then total' else stop)
                                  in go_slice start stop items
                                else Some items)
                          in map_option (\<lambda>items'. RespJSON 200 \<lparr>prItems = items', prTotal = total', prPage = pg,
                               prPageSize = pageSize\<rparr>) page'))"

subsection \<open>The blocks of one pool\<close>

record block_info =
  biCIDR :: string
  biPrefixLen :: int
  biHosts :: nat
  biUsed :: bool
  biAssignedID :: go_id
  biAssignedName :: string
  biAssignedAccountID :: go_id
  biAssignedAccountName :: string
  biExistsElsewhere :: bool
  biExistsElsewhereID :: go_id
  biExistsElsewhereName :: string

definition free_block :: "string \<Rightarrow> int \<Rightarrow> nat \<Rightarrow> block_info" where
  "free_block b npl hosts = \<lparr>biCIDR = b, biPrefixLen = npl, biHosts = hosts, biUsed = False, biAssignedID = 0,
     biAssignedName = [], biAssignedAccountID = 0, biAssignedAccountName = [], biExistsElsewhere = False,
     biExistsElsewhereID = 0, biExistsElsewhereName = []\<rparr>"

text \<open>The direct children, the map from their CIDR texts (a later child wins), and those that parse
  as IPv4.\<close>

definition direct_children :: "go_id \<Rightarrow> pool list \<Rightarrow> pool list" where
  "direct_children i ps = filter (\<lambda>p. poolParentID p = Some i) ps"

definition used_cidrs :: "pool list \<Rightarrow> (string, pool) gomap" where
  "used_cidrs children = fold (\<lambda>p m. gput (poolCIDR p) p m) children []"

definition blocking_child :: "string \<Rightarrow> nprefix \<Rightarrow> pool \<Rightarrow> bool" where
  "blocking_child b bp ch = (case parsePrefix (poolCIDR ch) of None \<Rightarrow> False
     | Some pf \<Rightarrow> is4 (pfxAddr pf) \<and> poolCIDR ch \<noteq> b \<and> prefixesOverlapIPv4 pf bp)"

definition block_info_of :: "go_error + account list \<Rightarrow> pool list \<Rightarrow> int \<Rightarrow> nat \<Rightarrow> account_resolver \<Rightarrow> string \<Rightarrow>
    account_resolver \<times> (go_error + block_info)" where
  "block_info_of load children npl hosts r b =
     (let bi = free_block b npl hosts in
      case map_of (used_cidrs children) b of
        Some p \<Rightarrow>
          let bi = bi\<lparr>biUsed := True, biAssignedID := poolID p, biAssignedName := poolName p\<rparr>
          in (case poolAccountID p of
                None \<Rightarrow> (r, Inr bi)
              | Some a \<Rightarrow>
                  let bi = bi\<lparr>biAssignedAccountID := a\<rparr>
                  in (case metadata load r a of
                        (r, Inl e) \<Rightarrow> (r, Inl e)
                      | (r, Inr None) \<Rightarrow> (r, Inr bi)
                      | (r, Inr (Some m)) \<Rightarrow> (r, Inr (bi\<lparr>biAssignedAccountName := bmName m\<rparr>))))
      | None \<Rightarrow>
          (r, Inr (case parsePrefix b of
             None \<Rightarrow> bi
           | Some bp \<Rightarrow>
               if \<not> is4 (pfxAddr bp) then bi
               else case List.find (blocking_child b bp) children of
                 None \<Rightarrow> bi
               | Some ch \<Rightarrow> bi\<lparr>biExistsElsewhere := True, biExistsElsewhereID := poolID ch,
                                biExistsElsewhereName := poolName ch\<rparr>)))"

fun block_infos :: "go_error + account list \<Rightarrow> pool list \<Rightarrow> int \<Rightarrow> nat \<Rightarrow> account_resolver \<Rightarrow> string list \<Rightarrow>
    go_error + block_info list" where
  "block_infos load children npl hosts r [] = Inr []"
| "block_infos load children npl hosts r (b # bs) = (case block_info_of load children npl hosts r b of
     (r, Inl e) \<Rightarrow> Inl e
   | (r, Inr bi) \<Rightarrow> map_sum id (Cons bi) (block_infos load children npl hosts r bs))"

definition blocksForPool ::
    "'s store_ops \<Rightarrow> http_request \<Rightarrow> go_id \<Rightarrow> 's \<Rightarrow> block_info page_response http_response" where
  "blocksForPool ops rq i s = (case opGetPool ops s i of
     Inl e \<Rightarrow> internal_error e
   | Inr None \<Rightarrow> writeErr 404 ''not found'' ''pool''
   | Inr (Some p) \<Rightarrow>
      (let nplStr = query_get rq ''new_prefix_len'' in
       if nplStr = [] then writeErr 400 ''new_prefix_len is required'' []
       else case parseInt64 nplStr of
         None \<Rightarrow> writeErr 400 ''invalid new_prefix_len'' []
       | Some npl \<Rightarrow>
         if npl \<le> 0 \<or> npl > 32 then writeErr 400 ''invalid new_prefix_len'' []
         else case page_size_param 0 (query_get rq ''page_size'') of
           None \<Rightarrow> writeErr 400 ''invalid page_size'' []
         | Some pageSize \<Rightarrow> (case page_param (query_get rq ''page'') of
             None \<Rightarrow> writeErr 400 ''invalid page'' []
           | Some pg \<Rightarrow>
               (let limit = (if pageSize > 0 then pageSize else 0);
                    offset = (if pageSize > 0 then wrap64 ((pg - 1) * pageSize) else 0)
                in case computeSubnetsIPv4Window (poolCIDR p) npl offset limit of
                     Inl e \<Rightarrow> RespErr 400 (OfSubnets e) no_detail
                   | Inr (blocks, hosts, total') \<Rightarrow> (case opListPools ops s of
                       Inl e \<Rightarrow> internal_error e
                     | Inr all' \<Rightarrow>
                         (case block_infos (opListAccounts ops s) (direct_children (poolID p) all') npl hosts
                             newBlockAccountResolver blocks of
                            Inl e \<Rightarrow> internal_error e
                          | Inr items \<Rightarrow> RespJSON 200 \<lparr>prItems = items, prTotal = total', prPage = pg,
                              prPageSize = pageSize\<rparr>))))))"

end
