(* ===== verification/PoolHandlers.thy ===== *)
theory PoolHandlers
  imports BlockHandlers
begin

section \<open>The pool handlers (internal/api/pool\_handlers.go)\<close>

text \<open>
  One definition per handler. A handler takes the store operations, the request's environment, the
  request and the decoded body, and returns the new server state with the response; \<open>None\<close> is a
  store operation that does not return or a panic. \<open>handlePools\<close> and \<open>handlePoolsSubroutes\<close> are the
  open routes, \<open>protectedPools\<close> and \<open>protectedPoolsSubroutes\<close> the ones with access control, which
  write no audit event when they delete.
\<close>

datatype pool_payload =
    PPool pool
  | PPools "pool list"
  | PPoolsWithStats "(pool \<times> pool_stats) list"
  | PHierarchy "pool_with_stats list"
  | PStats pool_stats
  | PBlocks "block_info page_response"

type_synonym 's pool_result = "('s server \<times> pool_payload http_response) option"

text \<open>The body of a PATCH: the flag tells whether the raw object has the key \<open>account_id\<close>.\<close>

record pool_patch =
  pchHasAccountID :: bool
  pchAccountID :: "go_id option"
  pchName :: "string option"
  pchType :: "pool_type option"
  pchStatus :: "pool_status option"
  pchDescription :: "string option"
  pchTags :: "tags option"

subsection \<open>Create\<close>

text \<open>The pools of the same scope: the same parent, or both top level.\<close>

definition same_scope :: "go_id option \<Rightarrow> pool \<Rightarrow> bool" where
  "same_scope parent p = (case parent of None \<Rightarrow> poolParentID p = None
     | Some i \<Rightarrow> (case poolParentID p of None \<Rightarrow> False | Some q \<Rightarrow> q = i))"

text \<open>\<open>strings.EqualFold\<close>, on ASCII text.\<close>

definition equalFold :: "string \<Rightarrow> string \<Rightarrow> bool" where
  "equalFold a b = (toLower a = toLower b)"

definition overlaps_existing :: "create_pool \<Rightarrow> nprefix \<Rightarrow> pool \<Rightarrow> bool" where
  "overlaps_existing inp pfxNew p =
     (if \<not> same_scope (cpParentID inp) p then False
      else if equalFold (trimSpace (poolCIDR p)) (cpCIDR inp) then False
      else case parsePrefix (poolCIDR p) of None \<Rightarrow> False
        | Some old \<Rightarrow> is4 (pfxAddr old) \<and> prefixesOverlapIPv4 old pfxNew)"

definition conflict_detail :: "pool \<Rightarrow> string" where
  "conflict_detail p = ''conflicts with pool #'' @ itoa_int (poolID p) @ '' ('' @ poolCIDR p @ '')''"

text \<open>The checks on the input alone, in the order of the code; \<open>None\<close> when all pass.\<close>

definition create_input_error :: "create_pool \<Rightarrow> 'a http_response option" where
  "create_input_error inp = (case ValidateName (cpName inp) of
     Some e \<Rightarrow> Some (RespErr 400 (OfValidation e) no_detail)
   | None \<Rightarrow> (case ValidateCIDR (cpCIDR inp) of
       Some e \<Rightarrow> Some (RespErr 400 (OfValidation e) no_detail)
     | None \<Rightarrow>
         if cpType inp \<noteq> [] \<and> \<not> IsValidPoolType (cpType inp)
         then Some (writeErr 400 ''invalid pool type'' (''valid types: '' @ show_slice ValidPoolTypes))
         else if cpStatus inp \<noteq> [] \<and> \<not> IsValidPoolStatus (cpStatus inp)
         then Some (writeErr 400 ''invalid pool status'' (''valid statuses: '' @ show_slice ValidPoolStatuses))
         else if cpSource inp \<noteq> [] \<and> \<not> IsValidPoolSource (cpSource inp)
         then Some (writeErr 400 ''invalid pool source'' (''valid sources: '' @ show_slice ValidPoolSources))
         else None))"

definition create_parent_error :: "'s store_ops \<Rightarrow> 's \<Rightarrow> create_pool \<Rightarrow> 'a http_response option" where
  "create_parent_error ops s inp = (case cpParentID inp of
     None \<Rightarrow> None
   | Some i \<Rightarrow> (case opGetPool ops s i of
       Inl e \<Rightarrow> Some (internal_error e)
     | Inr None \<Rightarrow> Some (writeErr 400 ''parent not found'' [])
     | Inr (Some parent) \<Rightarrow> (case validateChildCIDR (poolCIDR parent) (cpCIDR inp) of
         Some e \<Rightarrow> Some (RespErr 400 (Msg ''invalid sub-pool cidr'') (OfChild e))
       | None \<Rightarrow> None)))"

definition create_overlap_error :: "'s store_ops \<Rightarrow> 's \<Rightarrow> create_pool \<Rightarrow> 'a http_response option" where
  "create_overlap_error ops s inp = (case parsePrefix (cpCIDR inp) of
     None \<Rightarrow> Some (writeErr 400 ''only ipv4 supported for now'' [])
   | Some pfxNew \<Rightarrow>
       if \<not> is4 (pfxAddr pfxNew) then Some (writeErr 400 ''only ipv4 supported for now'' [])
       else case opListPools ops s of
         Inl e \<Rightarrow> Some (internal_error e)
       | Inr all' \<Rightarrow> (case List.find (overlaps_existing inp pfxNew) all' of
           None \<Rightarrow> None
         | Some p \<Rightarrow> Some (writeErr 400 ''cidr overlaps with existing block'' (conflict_detail p))))"

definition trim_create :: "create_pool \<Rightarrow> create_pool" where
  "trim_create inp = inp\<lparr>cpName := trimSpace (cpName inp), cpCIDR := trimSpace (cpCIDR inp)\<rparr>"

definition createPool ::
    "'s store_ops \<Rightarrow> req_env \<Rightarrow> create_pool option \<Rightarrow> 's server \<Rightarrow> 's server \<times> pool_payload http_response" where
  "createPool ops env body x = (case body of
     None \<Rightarrow> (x, writeErr 400 ''invalid json'' [])
   | Some inp0 \<Rightarrow>
      (let inp = trim_create inp0 in
       case create_input_error inp of Some r \<Rightarrow> (x, r) | None \<Rightarrow>
      (case create_parent_error ops (svStore x) inp of Some r \<Rightarrow> (x, r) | None \<Rightarrow>
      (case create_overlap_error ops (svStore x) inp of Some r \<Rightarrow> (x, r) | None \<Rightarrow>
      (case opCreatePool ops (envNow env) (svStore x) inp of
         (s, Inl e) \<Rightarrow> (x\<lparr>svStore := s\<rparr>, RespErr 400 (OfStore e) no_detail)
       | (s, Inr p) \<Rightarrow>
           (logAudit env 0 ActionAuditCreate ResourcePoolName (itoa_int (poolID p)) (poolName p) 201 (x\<lparr>svStore := s\<rparr>),
            RespJSON 201 (PPool p)))))))"

subsection \<open>Update\<close>

text \<open>The account id of the update: the payload's when the key is there, else the stored one.\<close>

definition patch_account ::
    "'s store_ops \<Rightarrow> go_id \<Rightarrow> 's \<Rightarrow> pool_patch \<Rightarrow> 'a http_response + go_id option" where
  "patch_account ops i s payload =
     (if pchHasAccountID payload then Inr (pchAccountID payload)
      else case opGetPool ops s i of
        Inl e \<Rightarrow> Inl (internal_error e)
      | Inr None \<Rightarrow> Inl not_found
      | Inr (Some current) \<Rightarrow> Inr (poolAccountID current))"

definition patch_input_error :: "pool_patch \<Rightarrow> 'a http_response option" where
  "patch_input_error payload =
     (case (case pchName payload of None \<Rightarrow> None | Some n \<Rightarrow> ValidateName (trimSpace n)) of
        Some e \<Rightarrow> Some (RespErr 400 (OfValidation e) no_detail)
      | None \<Rightarrow>
          if (case pchType payload of None \<Rightarrow> False | Some t \<Rightarrow> \<not> IsValidPoolType t)
          then Some (writeErr 400 ''invalid pool type'' (''valid types: '' @ show_slice ValidPoolTypes))
          else if (case pchStatus payload of None \<Rightarrow> False | Some t \<Rightarrow> \<not> IsValidPoolStatus t)
          then Some (writeErr 400 ''invalid pool status'' (''valid statuses: '' @ show_slice ValidPoolStatuses))
          else None)"

definition patch_update :: "pool_patch \<Rightarrow> go_id option \<Rightarrow> update_pool" where
  "patch_update payload accountID = \<lparr>upName = map_option trimSpace (pchName payload), upAccountID = accountID,
     upType = pchType payload, upStatus = pchStatus payload, upDescription = pchDescription payload,
     upTags = pchTags payload\<rparr>"

definition updatePool ::
    "'s store_ops \<Rightarrow> req_env \<Rightarrow> go_id \<Rightarrow> pool_patch option \<Rightarrow> 's server \<Rightarrow> 's server \<times> pool_payload http_response" where
  "updatePool ops env i body x = (case body of
     None \<Rightarrow> (x, writeErr 400 ''invalid json'' [])
   | Some payload \<Rightarrow>
      (case patch_account ops i (svStore x) payload of Inl r \<Rightarrow> (x, r) | Inr accountID \<Rightarrow>
      (case patch_input_error payload of Some r \<Rightarrow> (x, r) | None \<Rightarrow>
      (case opUpdatePool ops (envNow env) (svStore x) i (patch_update payload accountID) of
         (s, Inl e) \<Rightarrow> (x\<lparr>svStore := s\<rparr>, RespErr 400 (OfStore e) no_detail)
       | (s, Inr None) \<Rightarrow> (x\<lparr>svStore := s\<rparr>, not_found)
       | (s, Inr (Some p)) \<Rightarrow>
           (logAudit env 0 ActionAuditUpdate ResourcePoolName (itoa_int (poolID p)) (poolName p) 200 (x\<lparr>svStore := s\<rparr>),
            RespJSON 200 (PPool p))))))"

subsection \<open>Reads\<close>

definition flag_set :: "string \<Rightarrow> bool" where
  "flag_set v = (let v = toLower v in v = ''1'' \<or> v = ''true'' \<or> v = ''yes'')"

fun pools_with_stats :: "'s store_ops \<Rightarrow> 's \<Rightarrow> pool list \<Rightarrow> (go_error + (pool \<times> pool_stats) list) option" where
  "pools_with_stats ops s [] = Some (Inr [])"
| "pools_with_stats ops s (p # ps) = (case opCalculatePoolUtilization ops s (poolID p) of
     None \<Rightarrow> None
   | Some (Inl e) \<Rightarrow> Some (Inl e)
   | Some (Inr st) \<Rightarrow> map_option (map_sum id (Cons (p, st))) (pools_with_stats ops s ps))"

definition listPools :: "'s store_ops \<Rightarrow> http_request \<Rightarrow> 's \<Rightarrow> pool_payload http_response option" where
  "listPools ops rq s = (case opListPools ops s of
     Inl e \<Rightarrow> Some (internal_error e)
   | Inr ps \<Rightarrow>
       if flag_set (query_get rq ''include_stats'')
       then (case pools_with_stats ops s ps of
               None \<Rightarrow> None
             | Some (Inl e) \<Rightarrow> Some (internal_error e)
             | Some (Inr xs) \<Rightarrow> Some (RespJSON 200 (PPoolsWithStats xs)))
       else Some (RespJSON 200 (PPools ps)))"

definition not_found_or_internal :: "go_error \<Rightarrow> 'a http_response" where
  "not_found_or_internal e =
     (if errorsIs e ErrNotFound then RespErr 404 (OfStore e) no_detail else internal_error e)"

definition handlePoolsHierarchy :: "'s store_ops \<Rightarrow> http_request \<Rightarrow> 's \<Rightarrow> pool_payload http_response option" where
  "handlePoolsHierarchy ops rq s =
     (let rootIDStr = query_get rq ''root_id'' in
      case (if rootIDStr = [] then Some None else map_option Some (parseInt64 rootIDStr)) of
        None \<Rightarrow> Some (writeErr 400 ''invalid root_id'' [])
      | Some rootID \<Rightarrow> (case opGetPoolHierarchy ops s rootID of
          None \<Rightarrow> None
        | Some (Inl e) \<Rightarrow> Some (not_found_or_internal e)
        | Some (Inr trees) \<Rightarrow> Some (RespJSON 200 (PHierarchy trees))))"

definition handlePoolStats :: "'s store_ops \<Rightarrow> go_id \<Rightarrow> 's \<Rightarrow> pool_payload http_response option" where
  "handlePoolStats ops i s = (case opCalculatePoolUtilization ops s i of
     None \<Rightarrow> None
   | Some (Inl e) \<Rightarrow> Some (not_found_or_internal e)
   | Some (Inr st) \<Rightarrow> Some (RespJSON 200 (PStats st)))"

definition getPool :: "'s store_ops \<Rightarrow> go_id \<Rightarrow> 's \<Rightarrow> pool_payload http_response" where
  "getPool ops i s = (case opGetPool ops s i of
     Inl e \<Rightarrow> RespErr 400 (OfStore e) no_detail
   | Inr None \<Rightarrow> not_found
   | Inr (Some p) \<Rightarrow> RespJSON 200 (PPool p))"

subsection \<open>Delete\<close>

definition delete_op ::
    "'s store_ops \<Rightarrow> http_request \<Rightarrow> go_time \<Rightarrow> 's \<Rightarrow> go_id \<Rightarrow> 's \<times> (go_error + bool)" where
  "delete_op ops rq now s i =
     (if flag_set (query_get rq ''force'') then opDeletePoolCascade ops now s i else opDeletePool ops now s i)"

definition deletePool :: "'s store_ops \<Rightarrow> req_env \<Rightarrow> http_request \<Rightarrow> go_id \<Rightarrow> 's server \<Rightarrow>
    's server \<times> pool_payload http_response" where
  "deletePool ops env rq i x =
     (let found = opGetPool ops (svStore x) i in
      case delete_op ops rq (envNow env) (svStore x) i of
        (s, Inl e) \<Rightarrow> (x\<lparr>svStore := s\<rparr>, RespErr 409 (OfStore e) no_detail)
      | (s, Inr ok) \<Rightarrow>
          if \<not> ok then (x\<lparr>svStore := s\<rparr>, not_found)
          else
            let name = (case found of Inr (Some p) \<Rightarrow> poolName p | _ \<Rightarrow> [])
            in (logAudit env 0 ActionAuditDelete ResourcePoolName (itoa_int i) name 204 (x\<lparr>svStore := s\<rparr>),
                RespStatus 204))"

definition protectedDelete :: "'s store_ops \<Rightarrow> req_env \<Rightarrow> http_request \<Rightarrow> go_id \<Rightarrow> 's server \<Rightarrow>
    's server \<times> pool_payload http_response" where
  "protectedDelete ops env rq i x = (case delete_op ops rq (envNow env) (svStore x) i of
     (s, Inl e) \<Rightarrow> (x\<lparr>svStore := s\<rparr>, RespErr 409 (OfStore e) no_detail)
   | (s, Inr ok) \<Rightarrow> (x\<lparr>svStore := s\<rparr>, if \<not> ok then not_found else RespStatus 204))"

subsection \<open>Routes\<close>

definition reads :: "'s server \<Rightarrow> 'a http_response option \<Rightarrow> ('s server \<times> 'a http_response) option" where
  "reads x r = map_option (Pair x) r"

record pool_bodies =
  bodyCreate :: "create_pool option"
  bodyPatch :: "pool_patch option"

definition handlePools :: "'s store_ops \<Rightarrow> req_env \<Rightarrow> http_request \<Rightarrow> pool_bodies \<Rightarrow> 's server \<Rightarrow> 's pool_result" where
  "handlePools ops env rq body x =
     (if rqMethod rq = ''GET'' then reads x (listPools ops rq (svStore x))
      else if rqMethod rq = ''POST'' then Some (createPool ops env (bodyCreate body) x)
      else Some (x, method_not_allowed))"

text \<open>\<open>TrimPrefix\<close>, \<open>Trim\<close> and \<open>Split\<close> of the path; the first part is empty when the path is.\<close>

definition trimPrefix :: "string \<Rightarrow> string \<Rightarrow> string" where
  "trimPrefix pre s = (if prefix pre s then drop (length pre) s else s)"

definition path_parts :: "string \<Rightarrow> http_request \<Rightarrow> string list" where
  "path_parts base rq = split_on CHR ''/'' (trim_char CHR ''/'' (trimPrefix base (rqPath rq)))"

definition handlePoolsSubroutes ::
    "'s store_ops \<Rightarrow> req_env \<Rightarrow> http_request \<Rightarrow> pool_bodies \<Rightarrow> 's server \<Rightarrow> 's pool_result" where
  "handlePoolsSubroutes ops env rq body x =
     (let parts = path_parts ''/api/v1/pools/'' rq; sub = (if 2 \<le> length parts then parts ! 1 else []) in
      if hd parts = [] then Some (x, not_found)
      else if hd parts = ''hierarchy'' then
        if rqMethod rq \<noteq> ''GET'' then Some (x, method_not_allowed)
        else reads x (handlePoolsHierarchy ops rq (svStore x))
      else case parseInt64 (hd parts) of
        None \<Rightarrow> Some (x, writeErr 400 ''invalid pool id'' [])
      | Some i \<Rightarrow>
          if sub = ''blocks'' then
            if rqMethod rq \<noteq> ''GET'' then Some (x, method_not_allowed)
            else Some (x, map_http_response PBlocks (blocksForPool ops rq i (svStore x)))
          else if sub = ''stats'' then
            if rqMethod rq \<noteq> ''GET'' then Some (x, method_not_allowed)
            else reads x (handlePoolStats ops i (svStore x))
          else if rqMethod rq = ''GET'' then Some (x, getPool ops i (svStore x))
          else if rqMethod rq = ''PATCH'' then Some (updatePool ops env i (bodyPatch body) x)
          else if rqMethod rq = ''DELETE'' then Some (deletePool ops env rq i x)
          else Some (x, method_not_allowed))"

definition protectedPools ::
    "'s store_ops \<Rightarrow> req_env \<Rightarrow> http_request \<Rightarrow> pool_bodies \<Rightarrow> 's server \<Rightarrow> 's pool_result" where
  "protectedPools ops env rq body x =
     (if rqMethod rq = ''GET'' then
        if \<not> allowed env ResourcePools ActionList \<and> \<not> allowed env ResourcePools ActionRead then Some (x, forbidden)
        else reads x (listPools ops rq (svStore x))
      else if rqMethod rq = ''POST'' then
        if \<not> allowed env ResourcePools ActionCreate then Some (x, forbidden)
        else Some (createPool ops env (bodyCreate body) x)
      else Some (x, method_not_allowed))"

definition protectedPoolsSubroutes ::
    "'s store_ops \<Rightarrow> req_env \<Rightarrow> http_request \<Rightarrow> pool_bodies \<Rightarrow> 's server \<Rightarrow> 's pool_result" where
  "protectedPoolsSubroutes ops env rq body x =
     (let parts = path_parts ''/api/v1/pools/'' rq; sub = (if 2 \<le> length parts then parts ! 1 else []);
          mayRead = allowed env ResourcePools ActionRead in
      if hd parts = [] then Some (x, not_found)
      else if hd parts = ''hierarchy'' then
        if rqMethod rq \<noteq> ''GET'' then Some (x, method_not_allowed)
        else if \<not> mayRead then Some (x, forbidden)
        else reads x (handlePoolsHierarchy ops rq (svStore x))
      else case parseInt64 (hd parts) of
        None \<Rightarrow> Some (x, writeErr 400 ''invalid pool id'' [])
      | Some i \<Rightarrow>
          if sub = ''blocks'' then
            if rqMethod rq \<noteq> ''GET'' then Some (x, method_not_allowed)
            else if \<not> mayRead then Some (x, forbidden)
            else Some (x, map_http_response PBlocks (blocksForPool ops rq i (svStore x)))
          else if sub = ''stats'' then
            if rqMethod rq \<noteq> ''GET'' then Some (x, method_not_allowed)
            else if \<not> mayRead then Some (x, forbidden)
            else reads x (handlePoolStats ops i (svStore x))
          else if rqMethod rq = ''GET'' then
            if \<not> mayRead then Some (x, forbidden) else Some (x, getPool ops i (svStore x))
          else if rqMethod rq = ''PATCH'' then
            if \<not> allowed env ResourcePools ActionUpdate then Some (x, forbidden)
            else Some (updatePool ops env i (bodyPatch body) x)
          else if rqMethod rq = ''DELETE'' then
            if \<not> allowed env ResourcePools ActionDelete then Some (x, forbidden)
            else Some (protectedDelete ops env rq i x)
          else Some (x, method_not_allowed))"

end
