(* ===== verification/AccountHandlers.thy ===== *)
theory AccountHandlers
  imports PoolHandlers
begin

section \<open>The account and search handlers (internal/api/account\_handlers.go, search\_handlers.go)\<close>

text \<open>
  The handlers of the accounts, open and with access control (which write no audit event when they
  change or delete), and the search. Deleting with \<open>force\<close> cascades to the account's pools.
\<close>

datatype account_payload = PAccount account | PAccounts "account list"

record account_bodies =
  bodyNewAccount :: "create_account option"
  bodyAccount :: "account option"

type_synonym 's account_result = "'s server \<times> account_payload http_response"

subsection \<open>Operations\<close>

definition createAccount ::
    "'s store_ops \<Rightarrow> req_env \<Rightarrow> create_account option \<Rightarrow> 's server \<Rightarrow> 's account_result" where
  "createAccount ops env body x = (case body of
     None \<Rightarrow> (x, writeErr 400 ''invalid json'' [])
   | Some inp0 \<Rightarrow>
      (let inp = inp0\<lparr>caKey := trimSpace (caKey inp0), caName := trimSpace (caName inp0)\<rparr> in
       case ValidateAccountKey (caKey inp) of Some e \<Rightarrow> (x, RespErr 400 (OfValidation e) no_detail) | None \<Rightarrow>
      (case ValidateName (caName inp) of Some e \<Rightarrow> (x, RespErr 400 (OfValidation e) no_detail) | None \<Rightarrow>
      (case opCreateAccount ops (envNow env) (svStore x) inp of
         (s, Inl e) \<Rightarrow> (x\<lparr>svStore := s\<rparr>, RespErr 400 (OfStore e) no_detail)
       | (s, Inr a) \<Rightarrow>
           (logAudit env 0 ActionAuditCreate ResourceAccountName (itoa_int (accID a)) (accName a) 201 (x\<lparr>svStore := s\<rparr>),
            RespJSON 201 (PAccount a))))))"

definition listAccounts :: "'s store_ops \<Rightarrow> 's \<Rightarrow> account_payload http_response" where
  "listAccounts ops s = (case opListAccounts ops s of
     Inl e \<Rightarrow> internal_error e
   | Inr accs \<Rightarrow> RespJSON 200 (PAccounts accs))"

definition getAccount :: "'s store_ops \<Rightarrow> go_id \<Rightarrow> 's \<Rightarrow> account_payload http_response" where
  "getAccount ops i s = (case opGetAccount ops s i of
     Inl e \<Rightarrow> RespErr 400 (OfStore e) no_detail
   | Inr None \<Rightarrow> not_found
   | Inr (Some a) \<Rightarrow> RespJSON 200 (PAccount a))"

text \<open>The flag tells whether the route writes an audit event.\<close>

definition patchAccount ::
    "bool \<Rightarrow> 's store_ops \<Rightarrow> req_env \<Rightarrow> go_id \<Rightarrow> account option \<Rightarrow> 's server \<Rightarrow> 's account_result" where
  "patchAccount audited ops env i body x = (case body of
     None \<Rightarrow> (x, writeErr 400 ''invalid json'' [])
   | Some inp0 \<Rightarrow>
      (let inp = inp0\<lparr>accName := trimSpace (accName inp0)\<rparr> in
       case (if accName inp \<noteq> [] then ValidateName (accName inp) else None) of
         Some e \<Rightarrow> (x, RespErr 400 (OfValidation e) no_detail)
       | None \<Rightarrow> (case opUpdateAccount ops (envNow env) (svStore x) i inp of
           (s, Inl e) \<Rightarrow> (x\<lparr>svStore := s\<rparr>, RespErr 400 (OfStore e) no_detail)
         | (s, Inr None) \<Rightarrow> (x\<lparr>svStore := s\<rparr>, not_found)
         | (s, Inr (Some a)) \<Rightarrow>
             (if audited
              then logAudit env 0 ActionAuditUpdate ResourceAccountName (itoa_int (accID a)) (accName a) 200 (x\<lparr>svStore := s\<rparr>)
              else x\<lparr>svStore := s\<rparr>,
              RespJSON 200 (PAccount a)))))"

definition removeAccount ::
    "bool \<Rightarrow> 's store_ops \<Rightarrow> req_env \<Rightarrow> http_request \<Rightarrow> go_id \<Rightarrow> 's server \<Rightarrow> 's account_result" where
  "removeAccount audited ops env rq i x =
     (let found = opGetAccount ops (svStore x) i in
      case (if flag_set (query_get rq ''force'') then opDeleteAccountCascade ops (envNow env) (svStore x) i
            else opDeleteAccount ops (envNow env) (svStore x) i) of
        (s, Inl e) \<Rightarrow> (x\<lparr>svStore := s\<rparr>, RespErr 409 (OfStore e) no_detail)
      | (s, Inr ok) \<Rightarrow>
          if \<not> ok then (x\<lparr>svStore := s\<rparr>, not_found)
          else
            let name = (case found of Inr (Some a) \<Rightarrow> accName a | _ \<Rightarrow> [])
            in (if audited
                then logAudit env 0 ActionAuditDelete ResourceAccountName (itoa_int i) name 204 (x\<lparr>svStore := s\<rparr>)
                else x\<lparr>svStore := s\<rparr>,
                RespStatus 204))"

subsection \<open>Routes\<close>

definition handleAccounts ::
    "'s store_ops \<Rightarrow> req_env \<Rightarrow> http_request \<Rightarrow> account_bodies \<Rightarrow> 's server \<Rightarrow> 's account_result" where
  "handleAccounts ops env rq body x =
     (if rqMethod rq = ''GET'' then (x, listAccounts ops (svStore x))
      else if rqMethod rq = ''POST'' then createAccount ops env (bodyNewAccount body) x
      else (x, method_not_allowed))"

definition handleAccountsSubroutes ::
    "'s store_ops \<Rightarrow> req_env \<Rightarrow> http_request \<Rightarrow> account_bodies \<Rightarrow> 's server \<Rightarrow> 's account_result" where
  "handleAccountsSubroutes ops env rq body x =
     (let idStr = trim_char CHR ''/'' (trimPrefix ''/api/v1/accounts/'' (rqPath rq)) in
      if idStr = [] then (x, not_found)
      else case parseInt64 idStr of
        None \<Rightarrow> (x, writeErr 400 ''invalid id'' [])
      | Some i \<Rightarrow>
          if rqMethod rq = ''GET'' then (x, getAccount ops i (svStore x))
          else if rqMethod rq = ''PATCH'' then patchAccount True ops env i (bodyAccount body) x
          else if rqMethod rq = ''DELETE'' then removeAccount True ops env rq i x
          else (x, method_not_allowed))"

definition protectedAccounts ::
    "'s store_ops \<Rightarrow> req_env \<Rightarrow> http_request \<Rightarrow> account_bodies \<Rightarrow> 's server \<Rightarrow> 's account_result" where
  "protectedAccounts ops env rq body x =
     (if rqMethod rq = ''GET'' then
        if \<not> allowed env ResourceAccounts ActionList \<and> \<not> allowed env ResourceAccounts ActionRead then (x, forbidden)
        else (x, listAccounts ops (svStore x))
      else if rqMethod rq = ''POST'' then
        if \<not> allowed env ResourceAccounts ActionCreate then (x, forbidden)
        else createAccount ops env (bodyNewAccount body) x
      else (x, method_not_allowed))"

definition protectedAccountsSubroutes ::
    "'s store_ops \<Rightarrow> req_env \<Rightarrow> http_request \<Rightarrow> account_bodies \<Rightarrow> 's server \<Rightarrow> 's account_result" where
  "protectedAccountsSubroutes ops env rq body x =
     (let idStr = trim_char CHR ''/'' (trimPrefix ''/api/v1/accounts/'' (rqPath rq)) in
      if idStr = [] then (x, not_found)
      else case parseInt64 idStr of
        None \<Rightarrow> (x, writeErr 400 ''invalid id'' [])
      | Some i \<Rightarrow>
          if rqMethod rq = ''GET'' then
            if \<not> allowed env ResourceAccounts ActionRead then (x, forbidden)
            else (x, getAccount ops i (svStore x))
          else if rqMethod rq = ''PATCH'' then
            if \<not> allowed env ResourceAccounts ActionUpdate then (x, forbidden)
            else patchAccount False ops env i (bodyAccount body) x
          else if rqMethod rq = ''DELETE'' then
            if \<not> allowed env ResourceAccounts ActionDelete then (x, forbidden)
            else removeAccount False ops env rq i x
          else (x, method_not_allowed))"

subsection \<open>Search\<close>

text \<open>The texts of the two validation errors the handler looks for in the store's error.\<close>

definition error_mentions :: "go_error \<Rightarrow> string \<Rightarrow> bool" where
  "error_mentions e t = str_contains (errText e) t"

definition search_request_of :: "http_request \<Rightarrow> search_request" where
  "search_request_of rq =
     (let t = query_get rq ''type'' in
      \<lparr>srQuery = query_get rq ''q'', srCIDRContains = query_get rq ''cidr_contains'',
       srCIDRWithin = query_get rq ''cidr_within'',
       srTypes = (if t = [] then [] else split_on CHR '','' t),
       srPage = fst (atoi_value (query_get rq ''page'')),
       srPageSize = fst (atoi_value (query_get rq ''page_size''))\<rparr>)"

definition handleSearch :: "'s store_ops \<Rightarrow> http_request \<Rightarrow> 's \<Rightarrow> search_response http_response option" where
  "handleSearch ops rq s =
     (if rqMethod rq \<noteq> ''GET'' then Some method_not_allowed
      else
        let req = search_request_of rq in
        if srQuery req = [] \<and> srCIDRContains req = [] \<and> srCIDRWithin req = []
        then Some (writeErr 400 ''at least one of q, cidr_contains, or cidr_within is required'' [])
        else case opSearch ops s req of
          None \<Rightarrow> None
        | Some (Inl e) \<Rightarrow>
            if error_mentions e ''invalid cidr_contains'' \<or> error_mentions e ''invalid cidr_within''
            then Some (RespErr 400 (OfStore e) no_detail)
            else Some (RespErr 500 (Msg ''search failed'') (OfStore e))
        | Some (Inr resp) \<Rightarrow> Some (RespJSON 200 resp))"

end
