(* ===== verification/ApiFacts.thy ===== *)
theory ApiFacts
  imports AccountHandlers StoreProps
begin

section \<open>The address plan the API keeps\<close>

text \<open>
  What the handlers establish about the live pools, stated over the map \<open>live\<close> of the contract
  \<open>pool_store\<close>: every pool has a valid CIDR, name, type, status and source (\<open>pool_valid\<close>), a child
  lies strictly inside its live parent, and two siblings are duplicates or share no address. The
  preservation lemmas are about the map alone; inside the locale each handler is an instance of one.
\<close>

subsection \<open>The text of an IPv4 prefix\<close>

definition cidr_char :: "char \<Rightarrow> bool" where
  "cidr_char c \<longleftrightarrow> is_digit c \<or> c = CHR ''.'' \<or> c = CHR ''/''"

lemma cidr_char_plain: "cidr_char c \<Longrightarrow> graphic c \<and> lower_char c = c"
  by (auto simp: cidr_char_def is_digit_def graphic_def lower_char_def)

lemma parse4_loop_chars: "parse4_loop prev v d fs s = Some r \<Longrightarrow> c \<in> set s \<Longrightarrow> is_digit c \<or> c = CHR ''.''"
  by (induction prev v d fs s rule: parse4_loop.induct) (auto split: if_splits)

lemma parse6_not_V4: "parse6 s \<noteq> Some (V4 w)"
proof -
  obtain u zone bad where e: "(case split2 (CHR ''%'') s of None \<Rightarrow> (s, [], False) | Some (a, z) \<Rightarrow> (a, z, z = [])) = (u, zone, bad)"
    by (rule prod_cases3)
  show ?thesis unfolding parse6_def e Let_def by (simp split: option.split prod.split)
qed

lemma parseAddr_V4_chars: "parseAddr s = Some (V4 w) \<Longrightarrow> c \<in> set s \<Longrightarrow> is_digit c \<or> c = CHR ''.''"
  using parse6_not_V4[of s w]
  by (auto simp: parseAddr_def parse4_fields_def dest: parse4_loop_chars split: option.splits if_splits)

lemma digits_val_chars: "digits_val a s = Some n \<Longrightarrow> c \<in> set s \<Longrightarrow> is_digit c"
  by (induction a s rule: digits_val.induct) (auto split: if_splits)

lemma parsePrefix_v4_chars:
  assumes "parsePrefix s = Some (v4pfx w n)" "c \<in> set s"
  shows "cidr_char c"
proof -
  obtain a b ip where ab: "split_last (CHR ''/'') s = Some (a, b)" "parseAddr a = Some ip"
      and b: "atoi_digits b \<noteq> None" and ip: "withoutZone ip = V4 w"
    using assms(1) by (auto simp: parsePrefix_def prefixFrom_def split: option.splits prod.splits if_splits)
  have "ip = V4 w" using ip by (cases ip) (simp_all add: withoutZone_def)
  with ab(2) have a_ok: "x \<in> set a \<Longrightarrow> is_digit x \<or> x = CHR ''.''" for x by (blast dest: parseAddr_V4_chars)
  obtain n where "digits_val 0 b = Some n" using b by (auto simp: atoi_digits_def split: if_splits)
  then have b_ok: "x \<in> set b \<Longrightarrow> is_digit x" for x by (blast dest: digits_val_chars)
  have "s = a @ CHR ''/'' # b" using split_last_SomeD[OF ab(1)] by simp
  then show ?thesis using assms(2) a_ok[of c] b_ok[of c] by (auto simp: cidr_char_def)
qed

lemma parsePrefix_v4_text:
  assumes "parsePrefix s = Some (v4pfx w n)"
  shows "trimSpace s = s" "toLower s = s"
proof -
  have plain: "c \<in> set s \<Longrightarrow> graphic c \<and> lower_char c = c" for c
    by (rule cidr_char_plain[OF parsePrefix_v4_chars[OF assms]])
  have ne: "s \<noteq> []" using parsePrefix_slash[OF assms] by (auto simp: str_contains_iff)
  show "trimSpace s = s"
    using plain hd_in_set[OF ne] last_in_set[OF ne] by (intro trimSpace_graphic ne) blast+
  show "toLower s = s" using plain by (simp add: toLower_def map_idI)
qed

subsection \<open>The plan\<close>

definition pool_valid :: "pool \<Rightarrow> bool" where
  "pool_valid p \<longleftrightarrow> (\<exists>w n. parsePrefix (poolCIDR p) = Some (v4pfx w n) \<and> 8 \<le> n \<and> n \<le> 30 \<and> aligned4 (v4pfx w n)
       \<and> (\<forall>r \<in> set reservedIPv4Ranges. addrs4 w n \<inter> pfx_addrs r = {}))
     \<and> ValidateName (poolName p) = None \<and> poolType p \<in> set ValidPoolTypes \<and> poolStatus p \<in> set ValidPoolStatuses
     \<and> poolSource p \<in> set ValidPoolSources"

definition nested :: "(go_id \<Rightarrow> pool option) \<Rightarrow> pool \<Rightarrow> bool" where
  "nested m p = (case poolParentID p of None \<Rightarrow> True
     | Some r \<Rightarrow> (case m r of None \<Rightarrow> False | Some q \<Rightarrow> cidr_addrs (poolCIDR p) \<subset> cidr_addrs (poolCIDR q)))"

definition apart :: "pool \<Rightarrow> pool \<Rightarrow> bool" where
  "apart p q \<longleftrightarrow> poolCIDR p = poolCIDR q \<or> cidr_addrs (poolCIDR p) \<inter> cidr_addrs (poolCIDR q) = {}"

definition addr_plan :: "(go_id \<Rightarrow> pool option) \<Rightarrow> bool" where
  "addr_plan m \<longleftrightarrow> (\<forall>i p. m i = Some p \<longrightarrow> pool_valid p \<and> nested m p)
     \<and> (\<forall>i j p q. m i = Some p \<longrightarrow> m j = Some q \<longrightarrow> i \<noteq> j \<longrightarrow> poolParentID p = poolParentID q \<longrightarrow> apart p q)"

lemma addr_planI:
  assumes "\<And>i p. m i = Some p \<Longrightarrow> pool_valid p \<and> nested m p"
    "\<And>i j p q. m i = Some p \<Longrightarrow> m j = Some q \<Longrightarrow> i \<noteq> j \<Longrightarrow> poolParentID p = poolParentID q \<Longrightarrow> apart p q"
  shows "addr_plan m"
  using assms unfolding addr_plan_def by blast

lemma addr_planD:
  assumes "addr_plan m" "m i = Some p"
  shows "pool_valid p" "nested m p"
    "m j = Some q \<Longrightarrow> i \<noteq> j \<Longrightarrow> poolParentID p = poolParentID q \<Longrightarrow> apart p q"
  using assms unfolding addr_plan_def by blast+

lemma apart_sym: "apart p q \<Longrightarrow> apart q p"
  by (auto simp: apart_def)

lemma nested_Some: "nested m p \<Longrightarrow> poolParentID p = Some r \<Longrightarrow> \<exists>q. m r = Some q \<and> cidr_addrs (poolCIDR p) \<subset> cidr_addrs (poolCIDR q)"
  by (auto simp: nested_def split: option.splits)

lemma addr_plan_empty: "addr_plan (\<lambda>_. None)"
  by (simp add: addr_plan_def)

lemma addr_plan_extend:
  assumes "addr_plan m" "m i = None" "pool_valid p" "nested m p"
    and sib: "\<And>j q. m j = Some q \<Longrightarrow> poolParentID q = poolParentID p \<Longrightarrow> apart p q"
  shows "addr_plan (m(i \<mapsto> p))"
proof (rule addr_planI)
  fix j q assume "(m(i \<mapsto> p)) j = Some q"
  then have q: "pool_valid q" "nested m q"
    using assms(3,4) addr_planD(1,2)[OF assms(1)] by (auto split: if_splits)
  have "nested (m(i \<mapsto> p)) q"
  proof (cases "poolParentID q")
    case (Some r)
    from nested_Some[OF q(2) Some] assms(2) show ?thesis by (auto simp: nested_def Some)
  qed (simp add: nested_def)
  with q show "pool_valid q \<and> nested (m(i \<mapsto> p)) q" by blast
next
  fix j k q r
  assume jk: "(m(i \<mapsto> p)) j = Some q" "(m(i \<mapsto> p)) k = Some r" "j \<noteq> k" "poolParentID q = poolParentID r"
  show "apart q r"
  proof (cases "j = i")
    case True
    then have "q = p" "m k = Some r" using jk(1-3) by simp_all
    then show ?thesis using sib[of k r] jk(4) by simp
  next
    case False
    then have j: "m j = Some q" using jk(1) by simp
    show ?thesis
    proof (cases "k = i")
      case True
      then have "r = p" using jk(2) by simp
      then show ?thesis using sib[OF j] jk(4) by (simp add: apart_sym)
    next
      case False
      then have "m k = Some r" using jk(2) by simp
      from addr_planD(3)[OF assms(1) j this jk(3,4)] show ?thesis .
    qed
  qed
qed

lemma addr_plan_replace:
  assumes "addr_plan m" "m i = Some p" "same_place p q" "pool_valid q"
  shows "addr_plan (m(i \<mapsto> q))"
proof -
  have same: "poolCIDR q = poolCIDR p" "poolParentID q = poolParentID p" using assms(3) by (simp_all add: same_place_def)
  have nest: "nested (m(i \<mapsto> q)) r" if "nested m r" for r
    using that assms(2) same(1) by (auto simp: nested_def split: option.splits)
  have old: "(m(i \<mapsto> q)) j = Some r \<Longrightarrow> \<exists>r'. m j = Some r' \<and> poolCIDR r = poolCIDR r' \<and> poolParentID r = poolParentID r'" for j r
    using assms(2) same by (cases "j = i") auto
  show ?thesis
  proof (rule addr_planI)
    fix j r assume j: "(m(i \<mapsto> q)) j = Some r"
    obtain r' where r': "m j = Some r'" "poolCIDR r = poolCIDR r'" "poolParentID r = poolParentID r'"
      using old[OF j] by blast
    have "nested m r" using addr_planD(2)[OF assms(1) r'(1)] by (simp only: nested_def r'(2,3))
    moreover have "pool_valid r" using j assms(4) addr_planD(1)[OF assms(1)] by (auto split: if_splits)
    ultimately show "pool_valid r \<and> nested (m(i \<mapsto> q)) r" using nest by blast
  next
    fix j k r u
    assume jk: "(m(i \<mapsto> q)) j = Some r" "(m(i \<mapsto> q)) k = Some u" "j \<noteq> k" "poolParentID r = poolParentID u"
    obtain r' where r': "m j = Some r'" "poolCIDR r = poolCIDR r'" "poolParentID r = poolParentID r'"
      using old[OF jk(1)] by blast
    obtain u' where u': "m k = Some u'" "poolCIDR u = poolCIDR u'" "poolParentID u = poolParentID u'"
      using old[OF jk(2)] by blast
    from addr_planD(3)[OF assms(1) r'(1) u'(1) jk(3)] r' u' jk(4) show "apart r u" by (simp add: apart_def)
  qed
qed

lemma addr_plan_removal:
  assumes "addr_plan m" "closed_removal m m'"
  shows "addr_plan m'"
proof (rule addr_planI)
  fix i p assume p: "m' i = Some p"
  note old = closed_removalD(1)[OF assms(2) p]
  have "nested m' p"
  proof (cases "poolParentID p")
    case (Some r)
    obtain q where q: "m r = Some q" "cidr_addrs (poolCIDR p) \<subset> cidr_addrs (poolCIDR q)"
      using nested_Some[OF addr_planD(2)[OF assms(1) old] Some] by blast
    from closed_removalD(2)[OF assms(2) p Some q(1)] q(2) show ?thesis by (simp add: nested_def Some)
  qed (simp add: nested_def)
  with addr_planD(1)[OF assms(1) old] show "pool_valid p \<and> nested m' p" by blast
next
  fix i j p q
  assume "m' i = Some p" "m' j = Some q" "i \<noteq> j" "poolParentID p = poolParentID q"
  then show "apart p q"
    using addr_planD(3)[OF assms(1)] closed_removalD(1)[OF assms(2)] by blast
qed

subsection \<open>What the checks of the create handler give\<close>

lemma cidr_addrs_v4 [simp]: "parsePrefix c = Some (v4pfx w n) \<Longrightarrow> cidr_addrs c = addrs4 w n"
  by (simp add: cidr_addrs_def)

lemma valid_or_default:
  "IsValidPoolType t \<longleftrightarrow> t \<in> set ValidPoolTypes" "IsValidPoolStatus u \<longleftrightarrow> u \<in> set ValidPoolStatuses"
  "IsValidPoolSource v \<longleftrightarrow> v \<in> set ValidPoolSources"
  "PoolTypeSubnet \<in> set ValidPoolTypes" "PoolStatusActive \<in> set ValidPoolStatuses" "PoolSourceManual \<in> set ValidPoolSources"
  by (auto simp: IsValidPoolType_def IsValidPoolStatus_def IsValidPoolSource_def list_ex_iff ValidPoolTypes_def
      ValidPoolStatuses_def ValidPoolSources_def)

lemma created_pool_valid:
  assumes "create_input_error inp = None" "parsePrefix (cpCIDR inp) = Some pfx" "is4 (pfxAddr pfx)" "created_from inp p"
  shows "pool_valid p"
proof -
  obtain w n where w: "pfx = v4pfx w n" using assms(2,3) by (rule parsePrefix_is4E)
  have checks: "ValidateName (cpName inp) = None" "ValidateCIDR (cpCIDR inp) = None"
    "cpType inp \<noteq> [] \<Longrightarrow> IsValidPoolType (cpType inp)" "cpStatus inp \<noteq> [] \<Longrightarrow> IsValidPoolStatus (cpStatus inp)"
    "cpSource inp \<noteq> [] \<Longrightarrow> IsValidPoolSource (cpSource inp)"
    using assms(1) by (auto simp: create_input_error_def split: option.splits if_splits)
  have "trimSpace (cpCIDR inp) = cpCIDR inp" using parsePrefix_v4_text(1) assms(2) w by blast
  with checks(2)[unfolded ValidateCIDR_None_iff] assms(2,4) w show ?thesis
    using checks(1,3-5) valid_or_default
    by (auto simp: pool_valid_def created_from_def default_str_def)
qed

lemma pool_valid_v4:
  assumes "pool_valid p"
  obtains w n where "parsePrefix (poolCIDR p) = Some (v4pfx w n)" "n \<le> 30"
  using assms by (auto simp: pool_valid_def)

lemma child_nested:
  assumes "validateChildCIDR (poolCIDR q) c = None"
  shows "cidr_addrs c \<subset> cidr_addrs (poolCIDR q)"
proof -
  obtain w m x n where v: "parsePrefix (poolCIDR q) = Some (v4pfx w m)" "parsePrefix c = Some (v4pfx x n)"
      "m < n" "n \<le> 32" "addrs4 x n \<subseteq> addrs4 w m"
    using assms[unfolded validateChildCIDR_None_iff] by blast
  have "card (addrs4 x n) < card (addrs4 w m)" using v(3,4) by (simp add: card_addrs4 block_size_def)
  with v show ?thesis by (auto simp: psubset_eq)
qed

lemma no_overlap_apart:
  assumes "\<not> overlaps_existing inp pfx q" "parsePrefix (cpCIDR inp) = Some pfx" "is4 (pfxAddr pfx)"
    "pool_valid q" "created_from inp p" "poolParentID q = poolParentID p"
  shows "apart p q"
proof -
  obtain w n where w: "pfx = v4pfx w n" "n \<le> 32" using assms(2,3) by (rule parsePrefix_is4E)
  obtain x k where x: "parsePrefix (poolCIDR q) = Some (v4pfx x k)" "k \<le> 30" using assms(4) by (rule pool_valid_v4)
  have "same_scope (cpParentID inp) q"
    using assms(5,6) by (auto simp: same_scope_def created_from_def split: option.splits)
  moreover have "equalFold (trimSpace (poolCIDR q)) (cpCIDR inp) \<longleftrightarrow> poolCIDR q = cpCIDR inp"
    using parsePrefix_v4_text[OF x(1)] parsePrefix_v4_text(2)[of "cpCIDR inp" w n] assms(2) w
    by (simp add: equalFold_def)
  ultimately have "poolCIDR q = cpCIDR inp \<or> addrs4 x k \<inter> addrs4 w n = {}"
    using assms(1) x w prefixesOverlapIPv4_v4[of k n x w] by (auto simp: overlaps_existing_def split: if_splits)
  then show ?thesis
    using assms(2,5) x w by (auto simp: apart_def created_from_def)
qed

end
