(* ===== verification/ApiSteps.thy ===== *)
theory ApiSteps
  imports ApiFacts
begin

section \<open>The steps of the pool and account API\<close>

text \<open>
  The step relation of a server that answers pool and account requests, over any store, and what
  holds of every state it reaches: proved inside \<open>pool_store\<close> from the contract of the store, and
  read off for the in-memory store by its interpretation \<open>mem\<close>.
\<close>

subsection \<open>The server's steps\<close>

inductive api_step :: "'s store_ops \<Rightarrow> 's server \<Rightarrow> 's server \<Rightarrow> bool" for ops where
  pools: "handlePools ops env rq body x = Some (y, r) \<Longrightarrow> api_step ops x y"
| pools_sub: "handlePoolsSubroutes ops env rq body x = Some (y, r) \<Longrightarrow> api_step ops x y"
| guarded_pools: "protectedPools ops env rq body x = Some (y, r) \<Longrightarrow> api_step ops x y"
| guarded_pools_sub: "protectedPoolsSubroutes ops env rq body x = Some (y, r) \<Longrightarrow> api_step ops x y"
| accounts: "handleAccounts ops env rq ab x = (y, q) \<Longrightarrow> api_step ops x y"
| accounts_sub: "handleAccountsSubroutes ops env rq ab x = (y, q) \<Longrightarrow> api_step ops x y"
| guarded_accounts: "protectedAccounts ops env rq ab x = (y, q) \<Longrightarrow> api_step ops x y"
| guarded_accounts_sub: "protectedAccountsSubroutes ops env rq ab x = (y, q) \<Longrightarrow> api_step ops x y"

inductive api_reachable :: "'s store_ops \<Rightarrow> 's \<Rightarrow> 's server \<Rightarrow> bool" for ops s0 where
  init: "svStore x = s0 \<Longrightarrow> api_reachable ops s0 x"
| step: "api_reachable ops s0 x \<Longrightarrow> api_step ops x y \<Longrightarrow> api_reachable ops s0 y"

text \<open>The effect on the store: nothing, or one of the five writes.\<close>

inductive store_effect :: "'s store_ops \<Rightarrow> go_time \<Rightarrow> 's \<Rightarrow> 's \<Rightarrow> bool" for ops now where
  none: "store_effect ops now s s"
| create: "create_input_error inp = (None :: pool_payload http_response option) \<Longrightarrow> create_parent_error ops s inp = (None :: pool_payload http_response option) \<Longrightarrow>
    create_overlap_error ops s inp = (None :: pool_payload http_response option) \<Longrightarrow>
    store_effect ops now s (fst (opCreatePool ops now s inp))"
| update: "(\<And>n. upName u = Some n \<Longrightarrow> ValidateName n = None) \<Longrightarrow> (\<And>t. upType u = Some t \<Longrightarrow> IsValidPoolType t) \<Longrightarrow>
    (\<And>t. upStatus u = Some t \<Longrightarrow> IsValidPoolStatus t) \<Longrightarrow> store_effect ops now s (fst (opUpdatePool ops now s i u))"
| remove: "store_effect ops now s (fst (delete_op ops rq now s i))"
| account: "t \<in> {fst (opDeleteAccount ops now s i), fst (opDeleteAccountCascade ops now s i),
      fst (opCreateAccount ops now s ca), fst (opUpdateAccount ops now s i au)} \<Longrightarrow> store_effect ops now s t"

lemma effect_eq: "store_effect ops now s t \<Longrightarrow> u = t \<Longrightarrow> store_effect ops now s u"
  by simp

lemma createPool_store:
  "svStore (fst (createPool ops env (Some inp0) x)) =
     (if create_input_error (trim_create inp0) = (None :: pool_payload http_response option)
        \<and> create_parent_error ops (svStore x) (trim_create inp0) = (None :: pool_payload http_response option)
        \<and> create_overlap_error ops (svStore x) (trim_create inp0) = (None :: pool_payload http_response option)
      then fst (opCreatePool ops (envNow env) (svStore x) (trim_create inp0)) else svStore x)"
  by (simp add: createPool_def Let_def split: option.split prod.split sum.split)

lemma createPool_effect:
  assumes "createPool ops env body x = (y, r)"
  shows "store_effect ops (envNow env) (svStore x) (svStore y)"
proof (cases body)
  case None
  then show ?thesis using assms by (auto simp: createPool_def intro: store_effect.none)
next
  case (Some inp0)
  have y: "svStore y = svStore (fst (createPool ops env (Some inp0) x))" using assms Some by simp
  show ?thesis
    unfolding y createPool_store by (auto intro!: store_effect.create store_effect.none)
qed

lemma updatePool_effect:
  assumes "updatePool ops env i body x = (y, r)"
  shows "store_effect ops (envNow env) (svStore x) (svStore y)"
proof (cases body)
  case None
  then show ?thesis using assms by (auto simp: updatePool_def intro: store_effect.none)
next
  case (Some pl)
  show ?thesis
  proof (cases "\<exists>a. patch_account ops i (svStore x) pl = (Inr a :: pool_payload http_response + go_id option)
      \<and> patch_input_error pl = (None :: pool_payload http_response option)")
    case True
    then obtain a where a: "patch_account ops i (svStore x) pl = (Inr a :: pool_payload http_response + go_id option)"
      and ok: "patch_input_error pl = (None :: pool_payload http_response option)" by blast
    have "svStore y = fst (opUpdatePool ops (envNow env) (svStore x) i (patch_update pl a))"
      using assms a ok unfolding updatePool_def Some by (auto split: prod.splits sum.splits option.splits)
    moreover have "store_effect ops (envNow env) (svStore x) (fst (opUpdatePool ops (envNow env) (svStore x) i (patch_update pl a)))"
      using ok by (intro store_effect.update) (auto simp: patch_update_def patch_input_error_def split: option.splits if_splits)
    ultimately show ?thesis by simp
  next
    case False
    then have "svStore y = svStore x"
      using assms unfolding updatePool_def Some by (auto split: sum.splits option.splits)
    then show ?thesis by (simp add: store_effect.none)
  qed
qed

lemma deletePool_effect:
  assumes "deletePool ops env rq i x = (y, r) \<or> protectedDelete ops env rq i x = (y, r)"
  shows "store_effect ops (envNow env) (svStore x) (svStore y)"
proof (rule effect_eq[OF store_effect.remove])
  show "svStore y = fst (delete_op ops rq (envNow env) (svStore x) i)"
    using assms by (auto simp: deletePool_def protectedDelete_def Let_def split: prod.splits sum.splits if_splits)
qed

lemma createAccount_effect:
  assumes "createAccount ops env body x = (y, r)"
  shows "store_effect ops (envNow env) (svStore x) (svStore y)"
proof (cases body)
  case None
  then show ?thesis using assms by (auto simp: createAccount_def intro: store_effect.none)
next
  case (Some inp0)
  let ?inp = "inp0\<lparr>caKey := trimSpace (caKey inp0), caName := trimSpace (caName inp0)\<rparr>"
  have "svStore y = svStore x \<or> svStore y = fst (opCreateAccount ops (envNow env) (svStore x) ?inp)"
    using assms by (auto simp: createAccount_def Some Let_def split: option.splits prod.splits sum.splits)
  then show ?thesis
    using store_effect.none[of ops "envNow env" "svStore x"] store_effect.account[OF insertI2[OF insertI2[OF insertI1]]] by auto
qed

lemma patchAccount_effect:
  assumes "patchAccount b ops env i body x = (y, r)"
  shows "store_effect ops (envNow env) (svStore x) (svStore y)"
proof (cases body)
  case None
  then show ?thesis using assms by (auto simp: patchAccount_def intro: store_effect.none)
next
  case (Some inp0)
  let ?inp = "inp0\<lparr>accName := trimSpace (accName inp0)\<rparr>"
  have "svStore y = svStore x \<or> svStore y = fst (opUpdateAccount ops (envNow env) (svStore x) i ?inp)"
    using assms by (auto simp: patchAccount_def Some Let_def split: option.splits prod.splits sum.splits if_splits)
  then show ?thesis
    using store_effect.none[of ops "envNow env" "svStore x"]
      store_effect.account[OF insertI2[OF insertI2[OF insertI2[OF insertI1]]]] by auto
qed

lemma removeAccount_effect:
  assumes "removeAccount b ops env rq i x = (y, r)"
  shows "store_effect ops (envNow env) (svStore x) (svStore y)"
proof -
  have "svStore y = fst (opDeleteAccount ops (envNow env) (svStore x) i)
      \<or> svStore y = fst (opDeleteAccountCascade ops (envNow env) (svStore x) i)"
    using assms by (auto simp: removeAccount_def Let_def split: prod.splits sum.splits if_splits)
  then show ?thesis by (auto intro: store_effect.account)
qed

lemmas handler_effects = createPool_effect updatePool_effect deletePool_effect[OF disjI1]
  deletePool_effect[OF disjI2] createAccount_effect
  patchAccount_effect removeAccount_effect

lemma reads_store [simp]: "reads x r = Some (y, q) \<longleftrightarrow> y = x \<and> r = Some q"
  by (auto simp: reads_def)

lemma api_step_effect:
  assumes "api_step ops x y"
  shows "\<exists>now. store_effect ops now (svStore x) (svStore y)"
  using assms
  by (cases rule: api_step.cases)
    (auto simp: handlePools_def handlePoolsSubroutes_def protectedPools_def protectedPoolsSubroutes_def
       handleAccounts_def handleAccountsSubroutes_def protectedAccounts_def protectedAccountsSubroutes_def Let_def
       dest: handler_effects intro: store_effect.none split: if_splits option.splits)

subsection \<open>The invariant, for every store that meets the contract\<close>

context pool_store
begin

lemma effect_plan:
  assumes "store_effect ops now s t" "inv s" "addr_plan (live s)"
  shows "inv t \<and> addr_plan (live t)"
  using assms
proof (cases rule: store_effect.cases)
  case (create inp)
  obtain pfx where pfx: "parsePrefix (cpCIDR inp) = Some pfx" "is4 (pfxAddr pfx)"
    using create(4) by (auto simp: create_overlap_error_def split: option.splits if_splits)
  obtain ps where ps: "opListPools ops s = Inr ps" "List.find (overlaps_existing inp pfx) ps = None"
    using create(4) pfx by (auto simp: create_overlap_error_def split: option.splits sum.splits)
  have parent: "\<exists>q. live s i = Some q \<and> validateChildCIDR (poolCIDR q) (cpCIDR inp) = None" if "cpParentID inp = Some i" for i
    using create(3) that get_pool[OF assms(2)] by (fastforce simp: create_parent_error_def split: sum.splits option.splits)
  have "inv (fst (opCreatePool ops now s inp))" using create_inv[OF assms(2), of inp now] parent by fastforce
  moreover have "addr_plan (live (fst (opCreatePool ops now s inp)))"
  proof (cases "opCreatePool ops now s inp")
    case (Pair s' res)
    show ?thesis
    proof (cases res)
      case (Inl e)
      then show ?thesis using create_error[OF assms(2)] Pair assms(3) by simp
    next
      case (Inr p)
      have new: "live s (poolID p) = None" "live s' = (live s)(poolID p \<mapsto> p)" "created_from inp p"
        using create_pool[OF assms(2)] Pair Inr by blast+
      have valid: "pool_valid p" using created_pool_valid[OF _ pfx new(3)] create(2) by blast
      have "nested (live s) p"
      proof (cases "cpParentID inp")
        case None
        then show ?thesis using new(3) by (simp add: nested_def created_from_def)
      next
        case (Some i)
        with parent obtain q where "live s i = Some q" "validateChildCIDR (poolCIDR q) (cpCIDR inp) = None" by blast
        then show ?thesis using new(3) Some child_nested by (simp add: nested_def created_from_def)
      qed
      moreover have "apart p q" if "live s j = Some q" "poolParentID q = poolParentID p" for j q
      proof (rule no_overlap_apart[OF _ pfx addr_planD(1)[OF assms(3) that(1)] new(3) that(2)])
        have "q \<in> set ps" using list_pools[OF assms(2) ps(1)] live_id[OF assms(2) that(1)] that(1) by simp
        then show "\<not> overlaps_existing inp pfx q" using ps(2) by (simp add: find_None_iff)
      qed
      ultimately show ?thesis
        using addr_plan_extend[OF assms(3) new(1) valid] new(2) Pair by simp
    qed
  qed
  ultimately show ?thesis using create(1) by simp
next
  case (update u i)
  have "addr_plan ((live s)(i \<mapsto> q))" if "live s i = Some p" "updated_by u p q" for p q
  proof (rule addr_plan_replace[OF assms(3) that(1)])
    show "same_place p q" using that(2) by (simp add: updated_by_def)
    have "pool_valid p" using addr_planD(1)[OF assms(3) that(1)] .
    then show "pool_valid q"
      using that(2) update(2-4) valid_or_default by (auto simp: pool_valid_def updated_by_def same_place_def split: option.splits)
  qed
  then show ?thesis
    using update(1) update_inv[OF assms(2)] update_live[OF assms(2), of now i u] assms(3) by auto
next
  case (remove rq i)
  have "closed_removal (live s) (live t)"
    unfolding remove(1) delete_op_def by (rule delete_live(1)[OF assms(2)])
  moreover have "inv t" using remove_inv(1,2)[OF assms(2)] by (simp add: remove(1) delete_op_def)
  ultimately show ?thesis using addr_plan_removal[OF assms(3)] by blast
next
  case (account i ca au)
  then have "inv t" using remove_inv(3-6)[OF assms(2)] by auto
  moreover have "closed_removal (live s) (live t)"
    using account remove_live(3)[OF assms(2)] account_live[OF assms(2)] by auto
  ultimately show ?thesis using addr_plan_removal[OF assms(3)] by blast
qed simp

lemma api_plan:
  assumes "api_reachable ops s0 x" "inv s0" "live s0 = (\<lambda>_. None)"
  shows "inv (svStore x) \<and> addr_plan (live (svStore x))"
  using assms(1)
proof induction
  case (init x)
  then show ?case using assms(2,3) addr_plan_empty by simp
next
  case (step x y)
  then show ?case using api_step_effect[of ops x y] effect_plan by blast
qed

end

lemma memory_api_plan:
  assumes "api_reachable memory_ops NewMemoryStore x"
  shows "store_reachable (svStore x)" "addr_plan (GetPool (svStore x))"
proof -
  have "GetPool NewMemoryStore = (\<lambda>_. None)" by (rule ext) (simp add: GetPool_def NewMemoryStore_def)
  then show "store_reachable (svStore x)" "addr_plan (GetPool (svStore x))"
    using mem.api_plan[OF assms store_reachable.init] by simp_all
qed


subsection \<open>Every request is answered\<close>

lemma status_internal [simp]: "status_of (internal_error e) = 500" "status_of method_not_allowed = 405"
  "status_of not_found = 404" "status_of forbidden = 403"
  by (simp_all add: internal_error_def method_not_allowed_def not_found_def forbidden_def)

lemma status_map [simp]: "status_of (map_http_response f r) = status_of r"
  by (cases r) simp_all

text \<open>\<open>answered\<close>: the handler returns, and not with a server error.\<close>

definition answered :: "('s server \<times> 'a http_response) option \<Rightarrow> bool" where
  "answered r \<longleftrightarrow> (\<exists>y q. r = Some (y, q) \<and> status_of q < 500)"

lemma answered_simps [simp]:
  "answered (Some (y, q)) \<longleftrightarrow> status_of q < 500"
  "answered (reads x r) \<longleftrightarrow> (\<exists>q. r = Some q \<and> status_of q < 500)"
  by (auto simp: answered_def reads_def)

lemma answered_Some: "status_of (snd p) < 500 \<Longrightarrow> answered (Some p)"
  by (cases p) simp

lemma utilization_cases:
  assumes "store_reachable s"
  shows "(\<exists>st. CalculatePoolUtilization s i = Some (Inr st))
    \<or> GetPool s i = None \<and> (\<exists>e. CalculatePoolUtilization s i = Some (Inl e) \<and> errorsIs e ErrNotFound)"
proof (cases "map_of (pools s) i")
  case (Some q)
  obtain st where "calculatePoolStatsLocked (pools s) q = Some st"
    using stats_defined[OF reachable_tree_ok[OF assms]] by blast
  then show ?thesis using Some
    by (auto simp: CalculatePoolUtilization_def GetPool_def errorsIs_def wrapf_def ErrNotFound_def)
qed (simp add: CalculatePoolUtilization_def GetPool_def errorsIs_def wrapf_def ErrNotFound_def)

lemma pools_with_stats_total:
  assumes "store_reachable s" "\<forall>p \<in> set ps. GetPool s (poolID p) \<noteq> None"
  shows "\<exists>xs. pools_with_stats memory_ops s ps = Some (Inr xs)"
  using assms(2)
proof (induction ps)
  case (Cons p ps)
  then obtain xs where xs: "pools_with_stats memory_ops s ps = Some (Inr xs)" by auto
  have live: "GetPool s (poolID p) \<noteq> None" using Cons.prems by simp
  obtain st where "CalculatePoolUtilization s (poolID p) = Some (Inr st)"
    using utilization_cases[OF assms(1), of "poolID p"] by (elim disjE exE conjE) (use live in auto)
  with xs show ?case by simp
qed simp

lemma listPools_answers:
  assumes "store_reachable s"
  shows "\<exists>q. listPools memory_ops rq s = Some q \<and> status_of q < 500"
proof -
  have "store_inv s" using reachable_invs[OF assms] by blast
  then have "\<forall>p \<in> set (ListPools s). GetPool s (poolID p) \<noteq> None" by (simp add: ListPools_GetPool)
  from pools_with_stats_total[OF assms this] obtain xs
    where "pools_with_stats memory_ops s (ListPools s) = Some (Inr xs)" ..
  then show ?thesis by (simp add: listPools_def)
qed

lemma stats_answers:
  assumes "store_reachable s"
  shows "\<exists>q. handlePoolStats memory_ops i s = Some q \<and> status_of q < 500"
  using utilization_cases[OF assms, of i] by (auto simp: handlePoolStats_def not_found_or_internal_def)

lemma hierarchy_error: "GetPoolHierarchy s rt = Some (Inl e) \<Longrightarrow> errorsIs e ErrNotFound"
  by (auto simp: GetPoolHierarchy_def errorsIs_def wrapf_def ErrNotFound_def bind_eq_Some_conv
      split: option.splits if_splits)

lemma hierarchy_answers:
  assumes "store_reachable s"
  shows "\<exists>q. handlePoolsHierarchy memory_ops rq s = Some q \<and> status_of q < 500"
proof -
  have "\<exists>q. (case GetPoolHierarchy s rt of None \<Rightarrow> None | Some (Inl e) \<Rightarrow> Some (not_found_or_internal e)
      | Some (Inr trees) \<Rightarrow> Some (RespJSON 200 (PHierarchy trees))) = Some q \<and> status_of q < 500" for rt
    using hierarchy_returns[OF reachable_tree_ok[OF assms], of rt] hierarchy_error[of s rt]
    by (auto simp: not_found_or_internal_def split: sum.split)
  then show ?thesis by (simp add: handlePoolsHierarchy_def Let_def split: option.split)
qed

lemma metadata_loads: "\<exists>r' m. metadata (Inr accs) r i = (r', Inr m)"
  by (auto simp: metadata_def ensureLoaded_def)

lemma block_info_Inr: "\<exists>r' bi. block_info_of (Inr accs) ch npl hosts r b = (r', Inr bi)"
proof (cases "map_of (used_cidrs ch) b")
  case (Some p)
  show ?thesis
  proof (cases "poolAccountID p")
    case (Some a)
    obtain r' m where "metadata (Inr accs) r a = (r', Inr m)" using metadata_loads by blast
    then show ?thesis using Some \<open>map_of (used_cidrs ch) b = Some p\<close>
      by (cases m) (simp_all add: block_info_of_def Let_def)
  qed (use Some in \<open>simp add: block_info_of_def Let_def\<close>)
qed (simp add: block_info_of_def Let_def)

lemma block_infos_Inr: "\<exists>xs. block_infos (Inr accs) ch npl hosts r bs = Inr xs"
proof (induction bs arbitrary: r)
  case (Cons b bs)
  obtain r' bi where "block_info_of (Inr accs) ch npl hosts r b = (r', Inr bi)" using block_info_Inr by blast
  with Cons[of r'] show ?case by auto
qed simp

lemma blocks_answers: "status_of (blocksForPool memory_ops rq i s) < 500"
proof -
  have st: "status_of (case block_infos (Inr (ListAccounts s)) ch npl hosts newBlockAccountResolver bs of
      Inl e \<Rightarrow> internal_error e | Inr items \<Rightarrow> RespJSON 200 (f items)) < 500" for ch npl hosts bs f
    using block_infos_Inr[of "ListAccounts s" ch npl hosts newBlockAccountResolver bs] by auto
  show ?thesis
    by (simp add: blocksForPool_def Let_def st split: option.split sum.split prod.split)
qed

lemma write_answers:
  "status_of (snd (createPool memory_ops env body x)) < 500"
  "status_of (snd (updatePool memory_ops env i pb x)) < 500"
  "status_of (snd (deletePool memory_ops env rq i x)) < 500"
  "status_of (snd (protectedDelete memory_ops env rq i x)) < 500"
  "status_of (getPool memory_ops i s) < 500"
proof -
  show "status_of (snd (createPool memory_ops env body x)) < 500"
    by (simp add: createPool_def Let_def create_input_error_def create_parent_error_def create_overlap_error_def
        split: option.split prod.split sum.split)
  show "status_of (snd (updatePool memory_ops env i pb x)) < 500"
    by (simp add: updatePool_def patch_account_def patch_input_error_def split: option.split prod.split sum.split)
  show "status_of (snd (deletePool memory_ops env rq i x)) < 500" "status_of (snd (protectedDelete memory_ops env rq i x)) < 500"
    by (simp_all add: deletePool_def protectedDelete_def Let_def split: prod.split sum.split)
  show "status_of (getPool memory_ops i s) < 500" by (simp add: getPool_def split: option.split)
qed

lemmas answers = listPools_answers stats_answers hierarchy_answers blocks_answers write_answers(1-4)[THEN answered_Some]
  write_answers(5)

lemma pools_answered:
  assumes "store_reachable (svStore x)"
  shows "answered (handlePools memory_ops env rq body x)" "answered (protectedPools memory_ops env rq body x)"
    "answered (handlePoolsSubroutes memory_ops env rq body x)"
    "answered (protectedPoolsSubroutes memory_ops env rq body x)"
  using assms
  by (simp_all add: handlePools_def protectedPools_def handlePoolsSubroutes_def protectedPoolsSubroutes_def Let_def
      answers split: option.split)


subsection \<open>The blocks of a pool\<close>

lemma used_cidrs_dom: "map_of (used_cidrs ch) b \<noteq> None \<longleftrightarrow> (\<exists>c \<in> set ch. poolCIDR c = b)"
  by (induction ch rule: rev_induct) (auto simp: used_cidrs_def)

definition block_taken :: "pool list \<Rightarrow> string \<Rightarrow> bool" where
  "block_taken ch b \<longleftrightarrow> (\<exists>c \<in> set ch. poolCIDR c = b)
     \<or> (\<exists>bp. parsePrefix b = Some bp \<and> is4 (pfxAddr bp) \<and> (\<exists>c \<in> set ch. blocking_child b bp c))"

lemma block_info_taken:
  assumes "block_info_of load ch npl hosts r b = (r', Inr bi)"
  shows "biCIDR bi = b \<and> (biUsed bi \<or> biExistsElsewhere bi \<longleftrightarrow> block_taken ch b)"
proof (cases "map_of (used_cidrs ch) b")
  case (Some p)
  then have t: "block_taken ch b" using used_cidrs_dom[of ch b] by (auto simp: block_taken_def)
  show ?thesis
    using assms Some t
    by (cases "poolAccountID p")
      (auto simp: block_info_of_def Let_def free_block_def split: prod.splits sum.splits option.splits)
next
  case None
  then have no: "\<not> (\<exists>c \<in> set ch. poolCIDR c = b)" using used_cidrs_dom[of ch b] by simp
  show ?thesis
  proof (cases "parsePrefix b")
    case None
    then show ?thesis using assms no \<open>map_of (used_cidrs ch) b = None\<close>
      by (auto simp: block_info_of_def Let_def free_block_def block_taken_def)
  next
    case (Some bp)
    show ?thesis
    proof (cases "List.find (blocking_child b bp) ch")
      case None
      then have "\<not> (\<exists>c \<in> set ch. blocking_child b bp c)" by (auto simp: find_None_iff)
      then show ?thesis using assms no Some None \<open>map_of (used_cidrs ch) b = None\<close>
        by (auto simp: block_info_of_def Let_def free_block_def block_taken_def split: if_splits)
    next
      case (Some c)
      then have "\<exists>c \<in> set ch. blocking_child b bp c" by (metis find_Some_iff nth_mem)
      then show ?thesis using assms no Some \<open>parsePrefix b = Some bp\<close> \<open>map_of (used_cidrs ch) b = None\<close>
        by (auto simp: block_info_of_def Let_def free_block_def block_taken_def split: if_splits)
    qed
  qed
qed

lemma block_infos_taken:
  "block_infos load ch npl hosts r bs = Inr xs \<Longrightarrow> x \<in> set xs \<Longrightarrow>
     biCIDR x \<in> set bs \<and> (biUsed x \<or> biExistsElsewhere x \<longleftrightarrow> block_taken ch (biCIDR x))"
proof (induction bs arbitrary: r xs)
  case (Cons b bs)
  obtain r' bi where bi: "block_info_of load ch npl hosts r b = (r', Inr bi)"
    using Cons.prems(1) by (auto split: prod.splits sum.splits)
  then obtain ys where ys: "block_infos load ch npl hosts r' bs = Inr ys" "xs = bi # ys"
    using Cons.prems(1) by (cases "block_infos load ch npl hosts r' bs") auto
  show ?case
    using Cons.IH[OF ys(1)] Cons.prems(2) block_info_taken[OF bi] ys(2) by auto
qed simp

lemma subnet_window_strings:
  assumes "computeSubnetsIPv4Window c npl off lm = Inr (bs, hosts, total')" "b \<in> set bs" "0 < npl"
  shows "\<exists>w. parsePrefix b = Some (v4pfx w (nat npl)) \<and> nat npl \<le> 32"
proof -
  have npl: "npl \<le> 32"
    using assms(1) by (auto simp: computeSubnetsIPv4Window_def split: option.splits if_splits)
  obtain base i where "b = subnet_string base npl i"
    using assms(1,2) by (auto simp: computeSubnetsIPv4Window_def Let_def split: option.splits if_splits)
  then have "b = pfxString4 (base + of_int i * push_bit (nat (32 - npl)) 1) (nat npl)"
    by (simp add: subnet_string_def uint32ToIPv4_V4)
  then show ?thesis using npl by auto
qed

lemma taken_iff_overlap:
  assumes "parsePrefix b = Some (v4pfx w n)" "n \<le> 32"
  shows "block_taken ch b \<longleftrightarrow> (\<exists>c \<in> set ch. cidr_addrs (poolCIDR c) \<inter> cidr_addrs b \<noteq> {})"
proof -
  have blk: "cidr_addrs b = addrs4 w n" using assms(1) by simp
  have each: "poolCIDR c = b \<or> blocking_child b (v4pfx w n) c \<longleftrightarrow> cidr_addrs (poolCIDR c) \<inter> cidr_addrs b \<noteq> {}" for c
  proof (cases "\<exists>p. parsePrefix (poolCIDR c) = Some p \<and> is4 (pfxAddr p)")
    case True
    then obtain p where p: "parsePrefix (poolCIDR c) = Some p" "is4 (pfxAddr p)" by blast
    then obtain x k where x: "p = v4pfx x k" "k \<le> 32" by (rule parsePrefix_is4E)
    have "addrs4 w n \<noteq> {}" using self_in_addrs4[of w n] by blast
    then have self: "poolCIDR c = b \<Longrightarrow> cidr_addrs (poolCIDR c) \<inter> cidr_addrs b \<noteq> {}" using blk by auto
    show ?thesis
      using p x blk self prefixesOverlapIPv4_v4[OF x(2) assms(2), of x w]
      by (cases "poolCIDR c = b") (simp_all add: blocking_child_def)
  next
    case False
    then have "\<not> blocking_child b (v4pfx w n) c" "cidr_addrs (poolCIDR c) = {}"
      by (auto simp: blocking_child_def cidr_addrs_def split: option.splits)
    moreover have "poolCIDR c \<noteq> b" using False assms(1) by auto
    ultimately show ?thesis by simp
  qed
  have "block_taken ch b \<longleftrightarrow> (\<exists>c \<in> set ch. poolCIDR c = b \<or> blocking_child b (v4pfx w n) c)"
    using assms(1) by (auto simp: block_taken_def)
  then show ?thesis by (simp only: each)
qed

lemma blocksForPool_items:
  assumes "blocksForPool memory_ops rq i s = RespJSON 200 pg" "store_inv s"
  obtains npl lm off bs hosts total' c where
    "computeSubnetsIPv4Window c npl off lm = Inr (bs, hosts, total')"
    "block_infos (Inr (ListAccounts s)) (direct_children i (ListPools s)) npl hosts newBlockAccountResolver bs = Inr (prItems pg)"
    "\<not> npl \<le> 0"
proof -
  obtain p where p: "GetPool s i = Some p"
    using assms(1) by (auto simp: blocksForPool_def writeErr_def split: option.splits)
  then have pid: "poolID p = i"
    using store_invD(3)[OF assms(2)] by (auto simp: GetPool_def split: option.splits if_splits)
  show thesis
    using assms(1) p unfolding blocksForPool_def
    by (auto simp: pid Let_def writeErr_def internal_error_def split: option.splits sum.splits if_splits prod.splits)
      (rule that, assumption, simp, assumption)+
qed

lemma blocks_free_iff:
  assumes "store_inv s" "blocksForPool memory_ops rq i s = RespJSON 200 pg" "b \<in> set (prItems pg)"
  shows "\<not> biUsed b \<and> \<not> biExistsElsewhere b \<longleftrightarrow>
    (\<forall>j c. GetPool s j = Some c \<longrightarrow> poolParentID c = Some i \<longrightarrow> cidr_addrs (poolCIDR c) \<inter> cidr_addrs (biCIDR b) = {})"
proof -
  obtain npl lm off bs hosts total' c where w: "computeSubnetsIPv4Window c npl off lm = Inr (bs, hosts, total')"
      "block_infos (Inr (ListAccounts s)) (direct_children i (ListPools s)) npl hosts newBlockAccountResolver bs = Inr (prItems pg)"
      "\<not> npl \<le> 0"
    using assms(2,1) by (rule blocksForPool_items)
  note b = block_infos_taken[OF w(2) assms(3)]
  obtain x where x: "parsePrefix (biCIDR b) = Some (v4pfx x (nat npl))" "nat npl \<le> 32"
    using subnet_window_strings[OF w(1) conjunct1[OF b]] w(3) by (auto simp: not_le)
  have ch: "(\<exists>c \<in> set (direct_children i (ListPools s)). P c) \<longleftrightarrow> (\<exists>j c. GetPool s j = Some c \<and> poolParentID c = Some i \<and> P c)" for P
  proof -
    have "c \<in> set (ListPools s)" if "GetPool s j = Some c" for j c
      using that store_invD(3)[OF assms(1)]
      by (subst ListPools_GetPool[OF assms(1)]) (auto simp: GetPool_def split: option.splits if_splits)
    then show ?thesis using ListPools_GetPool[OF assms(1)] unfolding direct_children_def set_filter by blast
  qed
  have "biUsed b \<or> biExistsElsewhere b \<longleftrightarrow> (\<exists>j c. GetPool s j = Some c \<and> poolParentID c = Some i
      \<and> cidr_addrs (poolCIDR c) \<inter> cidr_addrs (biCIDR b) \<noteq> {})"
    by (simp only: conjunct2[OF b] taken_iff_overlap[OF x] ch)
  then show ?thesis by auto
qed

end
