(* ===== verification/ApiProps.thy ===== *)
theory ApiProps
  imports ApiSteps
begin

section \<open>Properties of the pool and account API\<close>

text \<open>
  The address plan that every reachable state of the in-memory server keeps, the well-formedness of
  its pools, that every request is answered, that the free blocks it reports are free, and that the
  protected routes change and reveal nothing without a permission.
\<close>

subsection \<open>A concrete server\<close>

definition demo_ctx :: "role \<Rightarrow> auth_ctx" where
  "demo_ctx r = \<lparr>ctxRole = r, ctxSession = None, ctxAPIKey = None, ctxUser = None\<rparr>"

definition demo_env :: "role \<Rightarrow> req_env" where
  "demo_env r = \<lparr>envNow = 5, envRoles = None, envCtx = demo_ctx r, envRequestID = [], envEventID = (\<lambda>_. ''e'')\<rparr>"

definition demo_req :: "string \<Rightarrow> string \<Rightarrow> (string \<times> string) list \<Rightarrow> http_request" where
  "demo_req m path q = \<lparr>rqMethod = m, rqPath = path, rqQuery = q\<rparr>"

definition demo_body :: "string \<Rightarrow> string \<Rightarrow> go_id option \<Rightarrow> pool_bodies" where
  "demo_body n c parent = \<lparr>bodyCreate = Some (demo_pool n c parent None), bodyPatch = None\<rparr>"

definition demo_api0 :: "mstore server" where
  "demo_api0 = \<lparr>svStore = NewMemoryStore, svAudit = None\<rparr>"

definition demo_post :: "string \<Rightarrow> string \<Rightarrow> go_id option \<Rightarrow> mstore server \<Rightarrow> mstore server" where
  "demo_post n c parent x = fst (createPool memory_ops (demo_env RoleNone) (Some (demo_pool n c parent None)) x)"

definition demo_api :: "mstore server" where
  "demo_api = demo_post ''b'' ''10.1.0.0/16'' (Some 1) (demo_post ''a'' ''10.0.0.0/8'' None demo_api0)"

lemma demo_post_step: "api_step memory_ops x (demo_post n c parent x)"
proof -
  have "handlePools memory_ops (demo_env RoleNone) (demo_req ''POST'' [] []) (demo_body n c parent) x =
      Some (demo_post n c parent x, snd (createPool memory_ops (demo_env RoleNone) (Some (demo_pool n c parent None)) x))"
    by (simp add: handlePools_def demo_req_def demo_body_def demo_post_def)
  then show ?thesis by (rule api_step.pools)
qed

lemma demo_api_reachable: "api_reachable memory_ops NewMemoryStore demo_api"
  unfolding demo_api_def
  by (intro api_reachable.step[OF _ demo_post_step] api_reachable.init) (simp add: demo_api0_def)

lemma demo_trim: "trimSpace ''a'' = ''a''" "trimSpace ''b'' = ''b''" "trimSpace ''10.0.0.0/8'' = ''10.0.0.0/8''"
    "trimSpace ''10.1.0.0/16'' = ''10.1.0.0/16''"
  by (rule trimSpace_graphic; simp add: graphic_def)+

lemma demo_valid: "ValidateName ''a'' = None" "ValidateName ''b'' = None" "ValidateCIDR ''10.0.0.0/8'' = None"
    "ValidateCIDR ''10.1.0.0/16'' = None"
  unfolding ValidateName_def ValidateNameWithOptions_def ValidateCIDR_def ValidateCIDRWithOptions_def demo_trim
  by code_simp+

lemma demo_child: "validateChildCIDR ''10.0.0.0/8'' ''10.1.0.0/16'' = None"
  by code_simp

lemma demo_parse: "parsePrefix ''10.0.0.0/8'' = Some (v4pfx 167772160 8)" "parsePrefix ''10.1.0.0/16'' = Some (v4pfx 167837696 16)"
  by code_simp+

lemma demo_post_creates:
  assumes "trim_create (demo_pool n c q None) = demo_pool n c q None" "ValidateName n = None" "ValidateCIDR c = None"
    "create_parent_error memory_ops (svStore x) (demo_pool n c q None) = (None :: pool_payload http_response option)"
    "create_overlap_error memory_ops (svStore x) (demo_pool n c q None) = (None :: pool_payload http_response option)"
  shows "svStore (demo_post n c q x) = fst (CreatePool 5 (svStore x) (demo_pool n c q None))"
proof -
  have "create_input_error (demo_pool n c q None) = (None :: pool_payload http_response option)"
    using assms(2,3) by (simp add: create_input_error_def demo_pool_def)
  then show ?thesis
    using assms(1,4,5) by (simp add: demo_post_def createPool_store demo_env_def)
qed

definition demo_s :: mstore where
  "demo_s = fst (CreatePool 5 NewMemoryStore (demo_pool ''a'' ''10.0.0.0/8'' None None))"

lemma demo_s_pool: "GetPool demo_s 1 \<noteq> None" "poolCIDR (the (GetPool demo_s 1)) = ''10.0.0.0/8''"
    "map (\<lambda>p. (poolCIDR p, poolParentID p)) (ListPools demo_s) = [(''10.0.0.0/8'', None)]"
  by code_simp+

lemma demo_api_store: "svStore demo_api = fst (CreatePool 5 demo_s (demo_pool ''b'' ''10.1.0.0/16'' (Some 1) None))"
proof -
  have one: "svStore (demo_post ''a'' ''10.0.0.0/8'' None demo_api0) = demo_s"
    unfolding demo_s_def
    by (subst demo_post_creates)
      (simp_all add: trim_create_def demo_trim demo_valid demo_api0_def create_parent_error_def create_overlap_error_def
        demo_pool_def demo_parse ListPools_def NewMemoryStore_def)
  obtain p where p: "GetPool demo_s 1 = Some p" "poolCIDR p = ''10.0.0.0/8''" using demo_s_pool(1,2) by auto
  obtain q where q: "ListPools demo_s = [q]" "poolParentID q = None" using demo_s_pool(3) by auto
  show ?thesis
    unfolding demo_api_def
    by (subst demo_post_creates)
      (simp_all add: one trim_create_def demo_trim demo_valid create_parent_error_def create_overlap_error_def
        demo_pool_def demo_parse p q demo_child overlaps_existing_def same_scope_def)
qed

lemma demo_api_pools:
  "map (\<lambda>(k, p). (k, poolCIDR p, poolParentID p)) (pools (svStore demo_api)) =
     [(1, ''10.0.0.0/8'', None), (2, ''10.1.0.0/16'', Some 1)]"
  unfolding demo_api_store by code_simp


lemma demo_api_get:
  obtains p q where "GetPool (svStore demo_api) 1 = Some p" "GetPool (svStore demo_api) 2 = Some q"
    "poolParentID p = None" "poolParentID q = Some 1" "poolCIDR p = ''10.0.0.0/8''" "poolCIDR q = ''10.1.0.0/16''"
proof -
  have "map_option (\<lambda>p. (poolCIDR p, poolParentID p)) (GetPool (svStore demo_api) 1) = Some (''10.0.0.0/8'', None)"
    "map_option (\<lambda>p. (poolCIDR p, poolParentID p)) (GetPool (svStore demo_api) 2) = Some (''10.1.0.0/16'', Some 1)"
    unfolding demo_api_store by code_simp+
  then show thesis by (auto intro: that)
qed

subsection \<open>Properties\<close>





text \<open>C8: every pool request is answered. In every state the in-memory server reaches, each of the four
  pool routes returns, for any request and body, a response that is not a server error: the walks of
  the tree terminate, no page start panics, and no store error is left to the status 500.\<close>

theorem pool_requests_answered:
  assumes "api_reachable memory_ops NewMemoryStore x"
  shows "(\<exists>y r. handlePools memory_ops env rq body x = Some (y, r) \<and> status_of r < 500)
    \<and> (\<exists>y r. handlePoolsSubroutes memory_ops env rq body x = Some (y, r) \<and> status_of r < 500)
    \<and> (\<exists>y r. protectedPools memory_ops env rq body x = Some (y, r) \<and> status_of r < 500)
    \<and> (\<exists>y r. protectedPoolsSubroutes memory_ops env rq body x = Some (y, r) \<and> status_of r < 500)"
  using pools_answered[OF memory_api_plan(1)[OF assms], of env rq body] unfolding answered_def by blast

theorem pool_requests_answered_witness:
  "\<exists>y r. handlePoolsSubroutes memory_ops (demo_env RoleNone) (demo_req ''GET'' ''/api/v1/pools/hierarchy'' [])
      (demo_body [] [] None) demo_api = Some (y, r) \<and> status_of r < 500"
  using pool_requests_answered[OF demo_api_reachable] by blast

text \<open>C23: a block reported free is free. When the blocks of a pool are listed, a block of the page is
  marked neither used nor existing elsewhere exactly when its addresses meet those of no live child of
  the pool.\<close>

theorem blocks_report_free_space:
  assumes "store_inv s" "blocksForPool memory_ops rq i s = RespJSON 200 pg" "b \<in> set (prItems pg)"
  shows "\<not> biUsed b \<and> \<not> biExistsElsewhere b \<longleftrightarrow>
    (\<forall>j c. GetPool s j = Some c \<longrightarrow> poolParentID c = Some i \<longrightarrow> cidr_addrs (poolCIDR c) \<inter> cidr_addrs (biCIDR b) = {})"
  by (rule blocks_free_iff[OF assms])


definition demo_blocks :: http_request where
  "demo_blocks = demo_req ''GET'' ''/api/v1/pools/1/blocks'' [(''new_prefix_len'', ''16''), (''page_size'', ''2'')]"

lemma demo_numbers: "parseInt64 ''2'' = Some 2" "parseInt64 ''16'' = Some 16"
proof -
  have "itoa_int 2 = ''2''" "itoa_int 16 = ''16''"
    by code_simp+
  then show "parseInt64 ''2'' = Some 2" "parseInt64 ''16'' = Some 16"
    using parseInt64_itoa_int[of 2] parseInt64_itoa_int[of 16] by (simp_all add: max_int64_def)
qed

lemma block_infos_length: "block_infos load ch npl hosts r bs = Inr xs \<Longrightarrow> length xs = length bs"
proof (induction bs arbitrary: r xs)
  case (Cons b bs)
  obtain r' bi where bi: "block_info_of load ch npl hosts r b = (r', Inr bi)"
    using Cons.prems by (auto split: prod.splits sum.splits)
  then obtain ys where "block_infos load ch npl hosts r' bs = Inr ys" "xs = bi # ys"
    using Cons.prems by (cases "block_infos load ch npl hosts r' bs") auto
  then show ?case using Cons.IH by simp
qed simp

lemma demo_blocks_page:
  "\<exists>pg. blocksForPool memory_ops demo_blocks 1 (svStore demo_api) = RespJSON 200 pg \<and> prItems pg \<noteq> []"
proof (rule demo_api_get)
  fix p assume p: "GetPool (svStore demo_api) 1 = Some p" "poolCIDR p = ''10.0.0.0/8''"
  have w: "computeSubnetsIPv4Window ''10.0.0.0/8'' 16 0 2 =
      Inr (map (\<lambda>i. pfxString4 (subnet_base 167772160 8 16 (nat i)) 16) [0..1], usableHostsIPv4 16, 2 ^ 8)"
    using computeSubnets_ok[OF demo_parse(1), of 16 2 0] by (simp add: window_from_def window_to_def MaxSubnetExpansion_def)
  obtain xs where xs: "block_infos (Inr (ListAccounts (svStore demo_api))) (direct_children (poolID p) (ListPools (svStore demo_api))) 16
      (usableHostsIPv4 16) newBlockAccountResolver (map (\<lambda>i. pfxString4 (subnet_base 167772160 8 16 (nat i)) 16) [0..1]) = Inr xs"
    using block_infos_Inr by blast
  have "xs \<noteq> []" using block_infos_length[OF xs] by auto
  moreover have "query_get demo_blocks ''new_prefix_len'' = ''16''" "query_get demo_blocks ''page_size'' = ''2''"
      "query_get demo_blocks ''page'' = []" by code_simp+
  moreover have "page_size_param 0 ''2'' = Some 2" by (simp add: page_size_param_def demo_numbers toLower_def lower_char_def)
  ultimately show ?thesis
    using p w xs by (simp add: blocksForPool_def demo_numbers page_param_def)
qed

theorem blocks_report_free_space_witness:
  "\<exists>b pg. blocksForPool memory_ops demo_blocks 1 (svStore demo_api) = RespJSON 200 pg \<and> b \<in> set (prItems pg)
     \<and> (\<not> biUsed b \<and> \<not> biExistsElsewhere b \<longleftrightarrow>
         {c. \<exists>j. GetPool (svStore demo_api) j = Some c \<and> poolParentID c = Some 1 \<and> cidr_addrs (poolCIDR c) \<inter> cidr_addrs (biCIDR b) \<noteq> {}} = {})"
proof -
  have inv: "store_inv (svStore demo_api)"
    using reachable_invs[OF memory_api_plan(1)[OF demo_api_reachable]] by blast
  obtain pg where pg: "blocksForPool memory_ops demo_blocks 1 (svStore demo_api) = RespJSON 200 pg" "prItems pg \<noteq> []"
    using demo_blocks_page by blast
  then have b: "hd (prItems pg) \<in> set (prItems pg)" by simp
  show ?thesis
    by (intro exI[of _ "hd (prItems pg)"] exI[of _ pg] conjI pg(1) b)
      (simp only: blocks_report_free_space[OF inv pg(1) b], blast)
qed

subsection \<open>Access control\<close>

text \<open>The permission a route needs: the method decides, and listing a collection is enough with the
  permission to list.\<close>

definition granted :: "req_env \<Rightarrow> string \<Rightarrow> bool \<Rightarrow> string \<Rightarrow> bool" where
  "granted env resource collection m =
     (if m = ''GET'' then allowed env resource ActionRead \<or> (collection \<and> allowed env resource ActionList)
      else if m = ''POST'' then collection \<and> allowed env resource ActionCreate
      else if m = ''PATCH'' then \<not> collection \<and> allowed env resource ActionUpdate
      else if m = ''DELETE'' then \<not> collection \<and> allowed env resource ActionDelete
      else False)"

text \<open>A response that reveals or does something: the state changed or the status is a success.\<close>

definition acts :: "'s server \<Rightarrow> 's server \<Rightarrow> 'a http_response \<Rightarrow> bool" where
  "acts x y r \<longleftrightarrow> y \<noteq> x \<or> status_of r < 300"

lemma acts_err [simp]: "acts x x (writeErr c m d) \<longleftrightarrow> c < 300" "\<not> acts x x not_found" "\<not> acts x x forbidden"
    "\<not> acts x x method_not_allowed"
  by (simp_all add: acts_def)

lemma delete_same_store:
  "svStore (fst (deletePool ops env rq i x)) = svStore (fst (protectedDelete ops env rq i x))"
  "snd (deletePool ops env rq i x) = snd (protectedDelete ops env rq i x)"
  by (simp_all add: deletePool_def protectedDelete_def Let_def split: prod.split sum.split)

lemma delete_same_open:
  "protectedDelete ops env rq i x = (y, r) \<Longrightarrow> \<exists>z. deletePool ops env rq i x = (z, r) \<and> svStore z = svStore y"
  using delete_same_store[of ops env rq i x] by (cases "deletePool ops env rq i x") simp

lemma pools_gate:
  assumes "protectedPools ops env rq body x = Some (y, r)" "acts x y r"
  shows "granted env ResourcePools True (rqMethod rq) \<and> handlePools ops env rq body x = Some (y, r)"
  using assms by (auto simp: protectedPools_def handlePools_def granted_def split: if_splits)

lemma pools_sub_gate:
  assumes "protectedPoolsSubroutes ops env rq body x = Some (y, r)" "acts x y r"
  shows "granted env ResourcePools False (rqMethod rq)
    \<and> (\<exists>z. handlePoolsSubroutes ops env rq body x = Some (z, r) \<and> svStore z = svStore y)"
  using assms
  by (auto simp: protectedPoolsSubroutes_def handlePoolsSubroutes_def granted_def Let_def
      dest: delete_same_open split: if_splits option.splits)

lemma accounts_gate:
  assumes "protectedAccounts ops env rq body x = (y, r)" "acts x y r"
  shows "granted env ResourceAccounts True (rqMethod rq) \<and> handleAccounts ops env rq body x = (y, r)"
  using assms by (auto simp: protectedAccounts_def handleAccounts_def granted_def split: if_splits)

lemma account_same_open:
  "patchAccount False ops env i body x = (y, r) \<Longrightarrow> \<exists>z. patchAccount True ops env i body x = (z, r) \<and> svStore z = svStore y"
  "removeAccount False ops env rq i x = (y, r) \<Longrightarrow> \<exists>z. removeAccount True ops env rq i x = (z, r) \<and> svStore z = svStore y"
  by (auto simp: patchAccount_def removeAccount_def Let_def split: option.splits prod.splits sum.splits if_splits)

lemma accounts_sub_gate:
  assumes "protectedAccountsSubroutes ops env rq body x = (y, r)" "acts x y r"
  shows "granted env ResourceAccounts False (rqMethod rq)
    \<and> (\<exists>z. handleAccountsSubroutes ops env rq body x = (z, r) \<and> svStore z = svStore y)"
  using assms
  by (auto simp: protectedAccountsSubroutes_def handleAccountsSubroutes_def granted_def Let_def
      dest: account_same_open split: if_splits option.splits)

text \<open>C7: the protected routes are the open routes behind a permission. Over any store, whenever one of
  the four protected pool and account routes changes the state or answers with a success, the request
  holds the permission its method needs (read or, for a collection, list; create; update; delete), and
  the open route gives the same response and leaves the same store.\<close>

theorem protected_routes_gate:
  shows "(protectedPools ops env rq body x = Some (y, r) \<and> acts x y r \<longrightarrow>
        granted env ResourcePools True (rqMethod rq) \<and> handlePools ops env rq body x = Some (y, r))
    \<and> (protectedPoolsSubroutes ops env rq body x = Some (y, r) \<and> acts x y r \<longrightarrow>
        granted env ResourcePools False (rqMethod rq)
          \<and> (\<exists>z. handlePoolsSubroutes ops env rq body x = Some (z, r) \<and> svStore z = svStore y))
    \<and> (protectedAccounts ops env rq ab x = (y, q) \<and> acts x y q \<longrightarrow>
        granted env ResourceAccounts True (rqMethod rq) \<and> handleAccounts ops env rq ab x = (y, q))
    \<and> (protectedAccountsSubroutes ops env rq ab x = (y, q) \<and> acts x y q \<longrightarrow>
        granted env ResourceAccounts False (rqMethod rq)
          \<and> (\<exists>z. handleAccountsSubroutes ops env rq ab x = (z, q) \<and> svStore z = svStore y))"
  using pools_gate[of ops env rq body x y r] pools_sub_gate[of ops env rq body x y r]
    accounts_gate[of ops env rq ab x y q] accounts_sub_gate[of ops env rq ab x y q] by blast

theorem protected_routes_gate_witness:
  "\<exists>y r. protectedPoolsSubroutes memory_ops (demo_env RoleAdmin) (demo_req ''DELETE'' ''/api/v1/pools/2'' []) (demo_body [] [] None)
        demo_api = Some (y, r) \<and> acts demo_api y r
      \<and> granted (demo_env RoleAdmin) ResourcePools False (rqMethod (demo_req ''DELETE'' ''/api/v1/pools/2'' []))"
proof -
  let ?rq = "demo_req ''DELETE'' ''/api/v1/pools/2'' []"
  have "path_parts ''/api/v1/pools/'' ?rq = [''2'']" by code_simp
  moreover have "HasPermissionContext (envRoles (demo_env RoleAdmin)) 5 (envCtx (demo_env RoleAdmin)) RoleAdmin ResourcePools ActionDelete"
    by code_simp
  then have "allowed (demo_env RoleAdmin) ResourcePools ActionDelete"
    by (simp add: allowed_def GetEffectiveRole_def demo_env_def demo_ctx_def RoleAdmin_def RoleNone_def)
  ultimately have p: "protectedPoolsSubroutes memory_ops (demo_env RoleAdmin) ?rq (demo_body [] [] None) demo_api =
      Some (protectedDelete memory_ops (demo_env RoleAdmin) ?rq 2 demo_api)"
    by (simp add: protectedPoolsSubroutes_def demo_req_def demo_numbers)
  have "snd (DeletePool 5 (svStore demo_api) 2) = Inr True" unfolding demo_api_store by code_simp
  moreover have "flag_set (query_get ?rq ''force'') = False" by code_simp
  ultimately have s: "status_of (snd (protectedDelete memory_ops (demo_env RoleAdmin) ?rq 2 demo_api)) = 204"
    by (cases "DeletePool 5 (svStore demo_api) 2") (simp add: protectedDelete_def delete_op_def demo_env_def)
  obtain y r where yr: "protectedDelete memory_ops (demo_env RoleAdmin) ?rq 2 demo_api = (y, r)" by fastforce
  then have a: "acts demo_api y r" using s by (simp add: acts_def)
  from protected_routes_gate[of memory_ops "demo_env RoleAdmin" ?rq "demo_body [] [] None" demo_api y r] p yr a
  show ?thesis by auto
qed

subsection \<open>What the plan does not exclude\<close>

text \<open>Two siblings with the very same CIDR: the handler skips exact duplicates in its overlap check
  (\<open>DB uniqueness should also catch\<close>), and the in-memory store has no uniqueness check.\<close>

lemma duplicate_sibling_created:
  "\<exists>y p. createPool memory_ops (demo_env RoleNone) (Some (demo_pool ''b'' ''10.1.0.0/16'' (Some 1) None)) demo_api = (y, RespJSON 201 (PPool p))
     \<and> poolID p = 3 \<and> (\<exists>q. GetPool (svStore demo_api) 2 = Some q \<and> poolCIDR q = poolCIDR p \<and> poolParentID q = poolParentID p)"
proof -
  let ?inp = "demo_pool ''b'' ''10.1.0.0/16'' (Some 1) None"
  have t: "trim_create ?inp = ?inp" by (simp add: trim_create_def demo_pool_def demo_trim)
  obtain p1 p2 where g: "GetPool (svStore demo_api) 1 = Some p1" "GetPool (svStore demo_api) 2 = Some p2"
      "poolParentID p1 = None" "poolParentID p2 = Some 1" "poolCIDR p1 = ''10.0.0.0/8''" "poolCIDR p2 = ''10.1.0.0/16''"
    by (rule demo_api_get)
  have l: "map (\<lambda>p. (poolCIDR p, poolParentID p)) (ListPools (svStore demo_api)) = [(''10.0.0.0/8'', None), (''10.1.0.0/16'', Some 1)]"
    unfolding demo_api_store by code_simp
  have err: "create_input_error ?inp = (None :: pool_payload http_response option)"
      "create_parent_error memory_ops (svStore demo_api) ?inp = (None :: pool_payload http_response option)"
    using g demo_valid demo_child by (simp_all add: create_input_error_def create_parent_error_def demo_pool_def)
  have "\<forall>p \<in> set (ListPools (svStore demo_api)). \<not> overlaps_existing ?inp (v4pfx 167837696 16) p"
  proof
    fix p assume "p \<in> set (ListPools (svStore demo_api))"
    then have "(poolCIDR p, poolParentID p) \<in> set [(''10.0.0.0/8'', None), (''10.1.0.0/16'', Some 1)]"
      unfolding l[symmetric] by force
    then show "\<not> overlaps_existing ?inp (v4pfx 167837696 16) p"
      by (auto simp: overlaps_existing_def same_scope_def demo_pool_def demo_trim equalFold_def)
  qed
  then have "create_overlap_error memory_ops (svStore demo_api) ?inp = (None :: pool_payload http_response option)"
    by (simp add: create_overlap_error_def demo_pool_def demo_parse find_None_iff split: option.split)
  then have ov: "create_overlap_error memory_ops (svStore demo_api) ?inp = (None :: pool_payload http_response option)" .
  have n: "nextPool (svStore demo_api) = 3" unfolding demo_api_store by code_simp
  obtain s p where c: "CreatePool 5 (svStore demo_api) ?inp = (s, Inr p)" "poolID p = 3" "poolCIDR p = ''10.1.0.0/16''"
      "poolParentID p = Some 1"
    by (simp add: CreatePool_def Let_def n demo_pool_def)
  have "createPool memory_ops (demo_env RoleNone) (Some ?inp) demo_api =
      (logAudit (demo_env RoleNone) 0 ActionAuditCreate ResourcePoolName (itoa_int (poolID p)) (poolName p) 201
        (demo_api\<lparr>svStore := s\<rparr>), RespJSON 201 (PPool p))"
    using c(1) err ov unfolding createPool_def t option.case Let_def by (simp add: demo_env_def)
  moreover have "\<exists>q. GetPool (svStore demo_api) 2 = Some q \<and> poolCIDR q = poolCIDR p \<and> poolParentID q = poolParentID p"
    using c(3,4) g(2,4,6) by simp
  ultimately show ?thesis using c(2) by blast
qed

end
