(* ===== verification/Discovery.thy ===== *)
theory Discovery
  imports PoolStore
begin

section \<open>Discovered resources (internal/domain/discovery.go, storage/discovery_memory.go)\<close>

text \<open>
  The resources, sync jobs and agents of cloud discovery, and \<open>MemoryDiscoveryStore\<close>. A UUID is
  its 16 bytes as a word, \<open>uuid.Nil\<close> being 0; a fresh one (\<open>uuid.New\<close>) is an argument. The listings
  collect the records of a Go map and sort them with \<open>sort.Slice\<close>: the runtime chooses the order in
  which a map is iterated anew for every loop, and the sort is not stable. An argument \<open>ord\<close> is that
  choice, a rearrangement of the collected records before a stable sort; a theorem assumes of it
  only that it loses and invents nothing (\<open>map_order\<close>).
\<close>

subsection \<open>Data\<close>

type_synonym uuid = "128 word"

abbreviation uuid_Nil :: uuid where "uuid_Nil \<equiv> 0"

text \<open>The zero \<open>time.Time\<close>, the first instant of the year 1, in nanoseconds before 1970.\<close>

definition zero_time :: go_time where "zero_time = - (62135596800 * 1000000000)"

definition ResourceTypeVPC :: string where "ResourceTypeVPC = ''vpc''"
definition ResourceTypeSubnet :: string where "ResourceTypeSubnet = ''subnet''"
definition ResourceTypeNetworkInterface :: string where "ResourceTypeNetworkInterface = ''network_interface''"
definition ResourceTypeElasticIP :: string where "ResourceTypeElasticIP = ''elastic_ip''"

definition ValidCloudResourceTypes :: "string list" where
  "ValidCloudResourceTypes =
     [ResourceTypeVPC, ResourceTypeSubnet, ResourceTypeNetworkInterface, ResourceTypeElasticIP]"

definition IsValidCloudResourceType :: "string \<Rightarrow> bool" where
  "IsValidCloudResourceType t = list_ex (\<lambda>valid. t = valid) ValidCloudResourceTypes"

definition DiscoveryStatusActive :: string where "DiscoveryStatusActive = ''active''"
definition DiscoveryStatusStale :: string where "DiscoveryStatusStale = ''stale''"
definition DiscoveryStatusDeleted :: string where "DiscoveryStatusDeleted = ''deleted''"

definition ValidDiscoveryStatuses :: "string list" where
  "ValidDiscoveryStatuses = [DiscoveryStatusActive, DiscoveryStatusStale, DiscoveryStatusDeleted]"

definition IsValidDiscoveryStatus :: "string \<Rightarrow> bool" where
  "IsValidDiscoveryStatus s = list_ex (\<lambda>valid. s = valid) ValidDiscoveryStatuses"

definition SyncJobStatusPending :: string where "SyncJobStatusPending = ''pending''"
definition SyncJobStatusRunning :: string where "SyncJobStatusRunning = ''running''"

record discovered_resource =
  drID :: uuid
  drAccountID :: go_id
  drProvider :: string
  drRegion :: string
  drResourceType :: string
  drResourceID :: string
  drName :: string
  drCIDR :: string
  drParentResourceID :: "string option"
  drPoolID :: "go_id option"
  drStatus :: string
  drMetadata :: tags
  drDiscoveredAt :: go_time
  drLastSeenAt :: go_time

record sync_job =
  sjID :: uuid
  sjAccountID :: go_id
  sjStatus :: string
  sjSource :: string
  sjAgentID :: "uuid option"
  sjStartedAt :: "go_time option"
  sjCompletedAt :: "go_time option"
  sjFound :: int
  sjCreated :: int
  sjUpdated :: int
  sjDeleted :: int
  sjErrorMessage :: string
  sjCreatedAt :: go_time

record discovery_agent =
  agID :: uuid
  agName :: string
  agAccountID :: go_id
  agAPIKeyID :: string
  agStatus :: string
  agApprovalStatus :: string
  agVersion :: string
  agHostname :: string
  agLastSeenAt :: go_time
  agRegisteredAt :: "go_time option"
  agApprovedAt :: "go_time option"
  agApprovedBy :: "string option"
  agCreatedAt :: go_time

record discovery_filters =
  dfProvider :: string
  dfRegion :: string
  dfResourceType :: string
  dfStatus :: string
  dfQuery :: string
  dfHasPool :: "bool option"
  dfPage :: int
  dfPageSize :: int

definition no_filters :: discovery_filters where
  "no_filters = \<lparr>dfProvider = [], dfRegion = [], dfResourceType = [], dfStatus = [], dfQuery = [],
     dfHasPool = None, dfPage = 0, dfPageSize = 0\<rparr>"

record disc_store =
  dsResources :: "(uuid, discovered_resource) gomap"
  dsSyncJobs :: "(uuid, sync_job) gomap"
  dsAgents :: "(uuid, discovery_agent) gomap"

definition NewMemoryDiscoveryStore :: disc_store where
  "NewMemoryDiscoveryStore = \<lparr>dsResources = [], dsSyncJobs = [], dsAgents = []\<rparr>"

definition cloneDiscoveredResource :: "discovered_resource \<Rightarrow> discovered_resource" where
  "cloneDiscoveredResource r = r\<lparr>drMetadata := cloneStringStringMap (drMetadata r)\<rparr>"

subsection \<open>Iteration order\<close>

type_synonym 'a order = "'a list \<Rightarrow> 'a list"

definition map_order :: "'a order \<Rightarrow> bool" where
  "map_order ord \<longleftrightarrow> (\<forall>xs. mset (ord xs) = mset xs)"

lemma map_order_set: "map_order ord \<Longrightarrow> set (ord xs) = set xs"
  unfolding map_order_def by (metis set_mset_mset)

lemma map_order_length: "map_order ord \<Longrightarrow> length (ord xs) = length xs"
  unfolding map_order_def by (metis size_mset)

lemma map_order_id: "map_order id" "map_order rev"
  by (simp_all add: map_order_def)

subsection \<open>Resources\<close>

definition query_hits :: "string \<Rightarrow> discovered_resource \<Rightarrow> bool" where
  "query_hits query r = (let q = toLower query in
     str_contains (toLower (drName r)) q \<or> str_contains (toLower (drResourceID r)) q
       \<or> str_contains (toLower (drCIDR r)) q)"

definition resource_matches :: "go_id \<Rightarrow> discovery_filters \<Rightarrow> discovered_resource \<Rightarrow> bool" where
  "resource_matches acct f r = (drAccountID r = acct
     \<and> \<not> (dfProvider f \<noteq> [] \<and> drProvider r \<noteq> dfProvider f)
     \<and> \<not> (dfRegion f \<noteq> [] \<and> drRegion r \<noteq> dfRegion f)
     \<and> \<not> (dfResourceType f \<noteq> [] \<and> drResourceType r \<noteq> dfResourceType f)
     \<and> \<not> (dfStatus f \<noteq> [] \<and> drStatus r \<noteq> dfStatus f)
     \<and> \<not> (dfQuery f \<noteq> [] \<and> \<not> query_hits (dfQuery f) r)
     \<and> (case dfHasPool f of None \<Rightarrow> True | Some b \<Rightarrow> b = (drPoolID r \<noteq> None)))"

text \<open>\<open>None\<close> is the panic of the page's slice expression.\<close>

definition ListDiscoveredResources ::
    "discovered_resource order \<Rightarrow> disc_store \<Rightarrow> go_id \<Rightarrow> discovery_filters \<Rightarrow> (discovered_resource list \<times> int) option" where
  "ListDiscoveredResources ord d acct f =
     (let filtered = filter (resource_matches acct f) (map snd (dsResources d));
          sorted' = sort_key (\<lambda>r. - drDiscoveredAt r) (ord filtered)
      in map_option (\<lambda>page'. (map cloneDiscoveredResource page', int (length filtered)))
           (list_page 50 (dfPage f) (dfPageSize f) sorted'))"

definition GetDiscoveredResource :: "disc_store \<Rightarrow> uuid \<Rightarrow> go_error + discovered_resource" where
  "GetDiscoveredResource d i = (case map_of (dsResources d) i of
     None \<Rightarrow> Inl ErrNotFound | Some r \<Rightarrow> Inr (cloneDiscoveredResource r))"

definition same_resource :: "discovered_resource \<Rightarrow> discovered_resource \<Rightarrow> bool" where
  "same_resource r existing = (drAccountID existing = drAccountID r \<and> drResourceID existing = drResourceID r)"

definition UpsertDiscoveredResource :: "uuid \<Rightarrow> disc_store \<Rightarrow> discovered_resource \<Rightarrow> disc_store" where
  "UpsertDiscoveredResource fresh d res =
     (case List.find (\<lambda>(i, existing). same_resource res existing) (dsResources d) of
        Some (i, existing) \<Rightarrow>
          let res = res\<lparr>drID := i\<rparr>;
              res = (if drPoolID res = None then res\<lparr>drPoolID := drPoolID existing\<rparr> else res);
              res = (if drDiscoveredAt res = zero_time then res\<lparr>drDiscoveredAt := drDiscoveredAt existing\<rparr> else res)
          in d\<lparr>dsResources := gput i (cloneDiscoveredResource res) (dsResources d)\<rparr>
      | None \<Rightarrow>
          let res = (if drID res = uuid_Nil then res\<lparr>drID := fresh\<rparr> else res)
          in d\<lparr>dsResources := gput (drID res) (cloneDiscoveredResource res) (dsResources d)\<rparr>)"

definition goes_stale :: "go_id \<Rightarrow> go_time \<Rightarrow> discovered_resource \<Rightarrow> bool" where
  "goes_stale acct before r = (drAccountID r = acct \<and> drStatus r = DiscoveryStatusActive \<and> drLastSeenAt r < before)"

definition MarkStaleResources :: "disc_store \<Rightarrow> go_id \<Rightarrow> go_time \<Rightarrow> disc_store \<times> int" where
  "MarkStaleResources d acct before =
     (d\<lparr>dsResources := map (\<lambda>(i, r). (i, if goes_stale acct before r then r\<lparr>drStatus := DiscoveryStatusStale\<rparr> else r))
          (dsResources d)\<rparr>,
      int (length (filter (goes_stale acct before) (map snd (dsResources d)))))"

definition LinkResourceToPool :: "disc_store \<Rightarrow> uuid \<Rightarrow> go_id \<Rightarrow> disc_store \<times> go_error option" where
  "LinkResourceToPool d i pool_id = (case map_of (dsResources d) i of
     None \<Rightarrow> (d, Some (wrapf ''resource not found'' ErrNotFound))
   | Some r \<Rightarrow> (d\<lparr>dsResources := gput i (r\<lparr>drPoolID := Some pool_id\<rparr>) (dsResources d)\<rparr>, None))"

definition UnlinkResource :: "disc_store \<Rightarrow> uuid \<Rightarrow> disc_store \<times> go_error option" where
  "UnlinkResource d i = (case map_of (dsResources d) i of
     None \<Rightarrow> (d, Some (wrapf ''resource not found'' ErrNotFound))
   | Some r \<Rightarrow> (d\<lparr>dsResources := gput i (r\<lparr>drPoolID := None\<rparr>) (dsResources d)\<rparr>, None))"

definition DeleteDiscoveredResource :: "disc_store \<Rightarrow> uuid \<Rightarrow> disc_store \<times> go_error option" where
  "DeleteDiscoveredResource d i = (case map_of (dsResources d) i of
     None \<Rightarrow> (d, Some ErrNotFound)
   | Some r \<Rightarrow> (d\<lparr>dsResources := gdel i (dsResources d)\<rparr>, None))"

subsection \<open>Reading all pages\<close>

text \<open>The loop that reads page after page until an empty one, or until as many records were read as the
  listing reports: \<open>listAllDiscoveredResources\<close>, \<open>listActiveResources\<close> and \<open>summarizeDrift\<close>. It has
  no other bound, so it is a partial function; \<open>None\<close> is also a panic of a listing.\<close>

partial_function (option) collect_pages :: "(int \<Rightarrow> ('a list \<times> int) option) \<Rightarrow> int \<Rightarrow> 'a list \<Rightarrow> 'a list option" where
  "collect_pages fetch pg acc =
     Option.bind (fetch pg) (\<lambda>(rs, total'). let acc = acc @ rs in
       if rs = [] \<or> int (length acc) \<ge> total' then Some acc else collect_pages fetch (pg + 1) acc)"

definition listAllDiscoveredResources ::
    "(int \<Rightarrow> discovered_resource order) \<Rightarrow> disc_store \<Rightarrow> go_id \<Rightarrow> discovery_filters \<Rightarrow> discovered_resource list option" where
  "listAllDiscoveredResources ords d acct f =
     collect_pages (\<lambda>pg. ListDiscoveredResources (ords pg) d acct (f\<lparr>dfPage := pg, dfPageSize := 1000\<rparr>)) 1 []"

subsection \<open>Sync jobs\<close>

definition CreateSyncJob :: "uuid \<Rightarrow> go_time \<Rightarrow> disc_store \<Rightarrow> sync_job \<Rightarrow> disc_store \<times> sync_job" where
  "CreateSyncJob fresh now d job =
     (let job = (if sjID job = uuid_Nil then job\<lparr>sjID := fresh\<rparr> else job);
          job = (if sjCreatedAt job = zero_time then job\<lparr>sjCreatedAt := now\<rparr> else job)
      in (d\<lparr>dsSyncJobs := gput (sjID job) job (dsSyncJobs d)\<rparr>, job))"

definition UpdateSyncJob :: "disc_store \<Rightarrow> sync_job \<Rightarrow> disc_store \<times> go_error option" where
  "UpdateSyncJob d job = (case map_of (dsSyncJobs d) (sjID job) of
     None \<Rightarrow> (d, Some ErrNotFound)
   | Some _ \<Rightarrow> (d\<lparr>dsSyncJobs := gput (sjID job) job (dsSyncJobs d)\<rparr>, None))"

definition GetSyncJob :: "disc_store \<Rightarrow> uuid \<Rightarrow> go_error + sync_job" where
  "GetSyncJob d i = (case map_of (dsSyncJobs d) i of None \<Rightarrow> Inl ErrNotFound | Some j \<Rightarrow> Inr j)"

definition ListSyncJobs :: "sync_job order \<Rightarrow> disc_store \<Rightarrow> go_id \<Rightarrow> int \<Rightarrow> sync_job list" where
  "ListSyncJobs ord d acct limit =
     (let jobs = sort_key (\<lambda>j. - sjCreatedAt j) (ord (filter (\<lambda>j. sjAccountID j = acct) (map snd (dsSyncJobs d))))
      in if limit > 0 \<and> int (length jobs) > limit then take (nat limit) jobs else jobs)"

text \<open>The loop of \<open>ClaimPendingAgentSync\<close> keeps the oldest pending job of the agent, the first one met
  among equals.\<close>

definition claimable :: "uuid \<Rightarrow> sync_job \<Rightarrow> bool" where
  "claimable agent j = (sjStatus j = SyncJobStatusPending \<and> sjSource j = ''agent'' \<and> sjAgentID j = Some agent)"

definition select_job :: "uuid \<Rightarrow> sync_job \<Rightarrow> sync_job option \<Rightarrow> sync_job option" where
  "select_job agent j selected =
     (if \<not> claimable agent j then selected
      else case selected of None \<Rightarrow> Some j
        | Some s \<Rightarrow> if sjCreatedAt j < sjCreatedAt s then Some j else Some s)"

definition ClaimPendingAgentSync ::
    "sync_job order \<Rightarrow> go_time \<Rightarrow> disc_store \<Rightarrow> uuid \<Rightarrow> disc_store \<times> (go_error + sync_job)" where
  "ClaimPendingAgentSync ord now d agent =
     (case fold (select_job agent) (ord (map snd (dsSyncJobs d))) None of
        None \<Rightarrow> (d, Inl ErrNotFound)
      | Some j \<Rightarrow>
          let j = j\<lparr>sjStatus := SyncJobStatusRunning, sjStartedAt := Some now\<rparr>
          in (d\<lparr>dsSyncJobs := gput (sjID j) j (dsSyncJobs d)\<rparr>, Inr j))"

subsection \<open>Agents\<close>

definition UpsertAgent :: "uuid \<Rightarrow> go_time \<Rightarrow> disc_store \<Rightarrow> discovery_agent \<Rightarrow> disc_store" where
  "UpsertAgent fresh now d agent =
     (let agent = (if agID agent = uuid_Nil then agent\<lparr>agID := fresh\<rparr> else agent);
          agent = (if agCreatedAt agent = zero_time
                   then (case map_of (dsAgents d) (agID agent) of
                           Some existing \<Rightarrow> agent\<lparr>agCreatedAt := agCreatedAt existing\<rparr>
                         | None \<Rightarrow> agent\<lparr>agCreatedAt := now\<rparr>)
                   else agent)
      in d\<lparr>dsAgents := gput (agID agent) agent (dsAgents d)\<rparr>)"

definition GetAgent :: "disc_store \<Rightarrow> uuid \<Rightarrow> go_error + discovery_agent" where
  "GetAgent d i = (case map_of (dsAgents d) i of None \<Rightarrow> Inl ErrNotFound | Some a \<Rightarrow> Inr a)"

definition DeleteAgent :: "disc_store \<Rightarrow> uuid \<Rightarrow> disc_store \<times> go_error option" where
  "DeleteAgent d i = (case map_of (dsAgents d) i of
     None \<Rightarrow> (d, Some ErrNotFound)
   | Some _ \<Rightarrow>
       (d\<lparr>dsAgents := gdel i (dsAgents d),
          dsSyncJobs := map (\<lambda>(k, j). (k, if sjAgentID j = Some i then j\<lparr>sjAgentID := None\<rparr> else j)) (dsSyncJobs d)\<rparr>, None))"

definition ListAgents :: "discovery_agent order \<Rightarrow> disc_store \<Rightarrow> go_id \<Rightarrow> discovery_agent list" where
  "ListAgents ord d acct =
     sort_key (\<lambda>a. - agCreatedAt a)
       (ord (filter (\<lambda>a. acct = 0 \<or> agAccountID a = acct) (map snd (dsAgents d))))"

end
