(* ===== verification/DiscoveryFacts.thy ===== *)
theory DiscoveryFacts
  imports Discovery "HOL-Library.Multiset"
begin

section \<open>Facts about the discovery store\<close>

text \<open>
  When reading all pages of a listing returns every record once, the invariant of the resources, and
  how each operation changes them.
\<close>

subsection \<open>Pages\<close>

lemma list_page_at:
  assumes "1 \<le> pg" "1 \<le> sz" "wrap64 ((pg - 1) * sz) = int a" "wrap64 (int a + sz) = int b"
  shows "list_page d pg sz xs = (if length xs < a then Some [] else go_slice (int a) (int (min b (length xs))) xs)"
  using assms by (simp add: list_page_def Let_def min_def)

lemma list_page_window:
  assumes "0 < k" "k < 2 ^ 62" "length xs < 2 ^ 62" "n * k < 2 ^ 62"
  shows "list_page d (int n + 1) (int k) xs = Some (take k (drop (n * k) xs))"
proof -
  have b: "0 \<le> int (n * k)" "int (n * k) < 2 ^ 62" "int k < 2 ^ 62"
    using assms(2,4) of_nat_less_iff[of k "2 ^ 62", where ?'a = int] of_nat_less_iff[of "n * k" "2 ^ 62", where ?'a = int] by simp_all
  have w: "wrap64 (int m) = int m" if "int m < 2 ^ 63" for m
    using that by (intro wrap64_id) simp_all
  have start: "wrap64 ((int n + 1 - 1) * int k) = int (n * k)"
    using w[of "n * k"] b(2) by simp
  have stop: "wrap64 (int (n * k) + int k) = int (n * k + k)"
    using w[of "n * k + k"] b by simp
  have p: "list_page d (int n + 1) (int k) xs =
      (if length xs < n * k then Some [] else go_slice (int (n * k)) (int (min (n * k + k) (length xs))) xs)"
    using assms(1) by (intro list_page_at start stop) auto
  show ?thesis
  proof (cases "length xs < n * k")
    case True
    then show ?thesis unfolding p by simp
  next
    case False
    then have "go_slice (int (n * k)) (int (min (n * k + k) (length xs))) xs =
        Some (take (min (n * k + k) (length xs) - n * k) (drop (n * k) xs))"
      by (intro go_slice_Some) auto
    also have "take (min (n * k + k) (length xs) - n * k) (drop (n * k) xs) = take k (drop (n * k) xs)"
      by (cases "n * k + k \<le> length xs") (simp_all add: min_def)
    finally show ?thesis using False unfolding p by simp
  qed
qed

lemma collect_pages_from:
  assumes "0 < k" "n * k \<le> length xs"
    and "\<And>j. j * k \<le> length xs \<Longrightarrow> fetch (int j + 1) = Some (take k (drop (j * k) xs), int (length xs))"
  shows "collect_pages fetch (int n + 1) (take (n * k) xs) = Some xs"
  using assms(2)
proof (induction "length xs - n * k" arbitrary: n rule: less_induct)
  case less
  have acc: "take (n * k) xs @ take k (drop (n * k) xs) = take (Suc n * k) xs"
    using take_add[of "n * k" k xs] by (simp only: mult_Suc add.commute)
  have step: "collect_pages fetch (int n + 1) (take (n * k) xs) =
      (if take k (drop (n * k) xs) = [] \<or> length xs \<le> Suc n * k then Some (take (Suc n * k) xs)
       else collect_pages fetch (int (Suc n) + 1) (take (Suc n * k) xs))"
  proof -
    have "int (length (take (Suc n * k) xs)) \<ge> int (length xs) \<longleftrightarrow> length xs \<le> Suc n * k" by auto
    then show ?thesis
      by (subst collect_pages.simps)
        (simp only: assms(3)[OF less(2)] acc Let_def Option.bind.simps prod.case int_Suc)
  qed
  show ?case
  proof (cases "length xs \<le> Suc n * k")
    case True
    then show ?thesis unfolding step by simp
  next
    case False
    then have "take k (drop (n * k) xs) \<noteq> []" using assms(1) by auto
    moreover have "collect_pages fetch (int (Suc n) + 1) (take (Suc n * k) xs) = Some xs"
      using False assms(1) by (intro less(1)) auto
    ultimately show ?thesis unfolding step using False by simp
  qed
qed

text \<open>A stable order of the records: those to be listed have distinct sort keys, or fit on one page.\<close>

lemma sort_key_order_unique:
  assumes "map_order ord" "inj_on f (set xs)" "distinct xs"
  shows "sort_key f (ord xs) = sort_key f xs"
proof -
  have m: "mset (ord xs) = mset xs" using assms(1) by (simp add: map_order_def)
  then have s: "set (ord xs) = set xs" by (metis set_mset_mset)
  have d: "distinct (ord xs)" using assms(3) m by (metis mset_eq_imp_distinct_iff)
  have "map f (sort_key f (ord xs)) = map f (sort_key f xs)"
  proof (rule sorted_distinct_set_unique)
    show "distinct (map f (sort_key f (ord xs)))" "distinct (map f (sort_key f xs))"
      using assms(2,3) d s by (simp_all add: distinct_map)
  qed (simp_all add: s)
  then show ?thesis
    by (rule map_inj_on) (use assms(2) s in simp)
qed

lemma collect_listing:
  fixes key :: "'a \<Rightarrow> int"
  assumes ords: "\<And>pg. map_order (ords pg)" and k: "0 < k" "k < 2 ^ 62" and len: "length xs < 2 ^ 61"
    and stable: "length xs \<le> k \<or> inj_on key (set xs) \<and> distinct xs"
    and fetch: "\<And>pg. fetch pg = map_option (\<lambda>p. (map g p, int (length xs))) (list_page d pg (int k) (sort_key key (ords pg xs)))"
  shows "\<exists>ys. collect_pages fetch 1 [] = Some (map g ys) \<and> mset ys = mset xs"
proof -
  define S where "S = sort_key key (ords 1 xs)"
  have m: "mset (ords pg xs) = mset xs" for pg using ords[of pg] by (simp add: map_order_def)
  then have mS: "mset S = mset xs" by (simp add: S_def)
  then have lS: "length S = length xs" by (metis size_mset)
  show ?thesis
  proof (cases "length xs \<le> k")
    case True
    have "fetch 1 = Some (map g S, int (length xs))"
      using fetch[of 1] list_page_window[of k S 0 d] k len lS True by (simp add: S_def)
    then have "collect_pages fetch 1 [] = Some (map g S)"
      by (subst collect_pages.simps) (simp add: Let_def lS)
    then show ?thesis using mS by blast
  next
    case False
    then have st: "inj_on key (set xs)" "distinct xs" using stable by blast+
    have "sort_key key (ords pg xs) = S" for pg
      unfolding S_def by (simp add: sort_key_order_unique[OF ords st])
    then have f: "fetch (int j + 1) = Some (take k (drop (j * k) (map g S)), int (length (map g S)))"
      if "j * k \<le> length (map g S)" for j
    proof -
      have "j * k < 2 ^ 62" using that len lS by simp
      then show ?thesis
        using fetch[of "int j + 1"] list_page_window[of k S j d] k len lS \<open>\<And>pg. sort_key key (ords pg xs) = S\<close>
        by (simp add: take_map drop_map)
    qed
    have "collect_pages fetch 1 [] = Some (map g S)"
      using collect_pages_from[of k 0 "map g S" fetch] k(1) f by simp
    then show ?thesis using mS by blast
  qed
qed

subsection \<open>The invariant\<close>

definition resources_ok :: "(uuid \<rightharpoonup> discovered_resource) \<Rightarrow> bool" where
  "resources_ok m \<longleftrightarrow> (\<forall>i r. m i = Some r \<longrightarrow> drID r = i \<and> tags_ok (drMetadata r))
     \<and> (\<forall>i j r q. m i = Some r \<longrightarrow> m j = Some q \<longrightarrow> same_resource r q \<longrightarrow> i = j)"

definition disc_inv :: "disc_store \<Rightarrow> bool" where
  "disc_inv d \<longleftrightarrow> gmap_ok (dsResources d) \<and> gmap_ok (dsSyncJobs d) \<and> gmap_ok (dsAgents d)
     \<and> resources_ok (map_of (dsResources d))
     \<and> (\<forall>i j. map_of (dsSyncJobs d) i = Some j \<longrightarrow> sjID j = i) \<and> (\<forall>i a. map_of (dsAgents d) i = Some a \<longrightarrow> agID a = i)"

lemma resources_okD:
  assumes "resources_ok m"
  shows "m i = Some r \<Longrightarrow> drID r = i" "m i = Some r \<Longrightarrow> tags_ok (drMetadata r)"
    "m i = Some r \<Longrightarrow> m j = Some q \<Longrightarrow> same_resource r q \<Longrightarrow> i = j"
  using assms unfolding resources_ok_def by blast+

lemma same_resource_sym: "same_resource r q \<Longrightarrow> same_resource q r"
  by (simp add: same_resource_def)

text \<open>Storing a record under its own id keeps the invariant when no other entry has its key.\<close>

lemma resources_ok_upd:
  assumes "resources_ok m" "drID r = i" "tags_ok (drMetadata r)"
    "\<And>j q. m j = Some q \<Longrightarrow> same_resource r q \<Longrightarrow> j = i"
  shows "resources_ok (m(i \<mapsto> r))"
  unfolding resources_ok_def
proof (intro conjI allI impI)
  fix k x assume "(m(i \<mapsto> r)) k = Some x"
  then show "drID x = k" "tags_ok (drMetadata x)"
    using assms(2,3) resources_okD(1,2)[OF assms(1)] by (auto split: if_splits)
next
  fix k j x y assume k: "(m(i \<mapsto> r)) k = Some x" "(m(i \<mapsto> r)) j = Some y" "same_resource x y"
  show "k = j"
    using k assms(4)[of j y] assms(4)[of k x] resources_okD(3)[OF assms(1), of k x j y] same_resource_sym[OF k(3)]
    by (auto split: if_splits)
qed

lemma resources_ok_change:
  assumes "resources_ok m" "m i = Some r" "same_resource r r'" "drID r' = drID r" "tags_ok (drMetadata r')"
  shows "resources_ok (m(i \<mapsto> r'))"
proof (rule resources_ok_upd[OF assms(1) _ assms(5)])
  show "drID r' = i" using assms(4) resources_okD(1)[OF assms(1,2)] by simp
  show "j = i" if "m j = Some q" "same_resource r' q" for j q
    using that assms(3) resources_okD(3)[OF assms(1,2) that(1)] by (simp add: same_resource_def)
qed

lemma resources_ok_less: "resources_ok m \<Longrightarrow> resources_ok (m(i := None))"
  unfolding resources_ok_def by (auto split: if_splits)

lemma resources_ok_map:
  assumes "resources_ok m" "\<And>r. same_resource r (f r) \<and> drID (f r) = drID r \<and> drMetadata (f r) = drMetadata r"
  shows "resources_ok (\<lambda>i. map_option f (m i))"
  unfolding resources_ok_def
proof (intro conjI allI impI)
  fix i r assume "map_option f (m i) = Some r"
  then obtain q where q: "m i = Some q" "r = f q" by blast
  show "drID r = i" "tags_ok (drMetadata r)" using resources_okD(1,2)[OF assms(1) q(1)] assms(2)[of q] q(2) by simp_all
next
  fix i j r q assume ij: "map_option f (m i) = Some r" "map_option f (m j) = Some q" "same_resource r q"
  then obtain x y where "m i = Some x" "m j = Some y" "r = f x" "q = f y" by blast
  moreover from this have "same_resource x y"
    using ij(3) assms(2)[of x] assms(2)[of y] by (simp add: same_resource_def)
  ultimately show "i = j" using resources_okD(3)[OF assms(1)] by blast
qed

lemma find_same_resource:
  assumes "gmap_ok m"
  shows "List.find (\<lambda>(i, q). same_resource r q) m = Some (i, q) \<Longrightarrow> map_of m i = Some q \<and> same_resource r q"
    and "List.find (\<lambda>(i, q). same_resource r q) m = None \<Longrightarrow> map_of m j = Some x \<Longrightarrow> \<not> same_resource r x"
proof -
  show "map_of m i = Some q \<and> same_resource r q" if "List.find (\<lambda>(i, q). same_resource r q) m = Some (i, q)"
    using that gmap_mem_iff[OF assms, of i q] by (auto simp: find_Some_iff) (metis nth_mem)
  show "\<not> same_resource r x" if "List.find (\<lambda>(i, q). same_resource r q) m = None" "map_of m j = Some x"
    using that map_of_SomeD[OF that(2)] by (auto simp: find_None_iff)
qed

lemma clone_resource [simp]: "tags_ok (drMetadata r) \<Longrightarrow> cloneDiscoveredResource r = r"
  by (simp add: cloneDiscoveredResource_def)

text \<open>What \<open>UpsertDiscoveredResource\<close> stores, and where.\<close>

definition merged :: "discovered_resource \<Rightarrow> uuid \<Rightarrow> discovered_resource \<Rightarrow> discovered_resource" where
  "merged old i res = res\<lparr>drID := i, drPoolID := (if drPoolID res = None then drPoolID old else drPoolID res),
     drDiscoveredAt := (if drDiscoveredAt res = zero_time then drDiscoveredAt old else drDiscoveredAt res)\<rparr>"

lemma Upsert_cases:
  assumes "gmap_ok (dsResources d)"
  obtains (old) i q where "map_of (dsResources d) i = Some q" "same_resource res q"
      "UpsertDiscoveredResource fresh d res = d\<lparr>dsResources := gput i (cloneDiscoveredResource (merged q i res)) (dsResources d)\<rparr>"
    | (new) i where "\<And>j x. map_of (dsResources d) j = Some x \<Longrightarrow> \<not> same_resource res x"
      "i = (if drID res = uuid_Nil then fresh else drID res)"
      "UpsertDiscoveredResource fresh d res = d\<lparr>dsResources := gput i (cloneDiscoveredResource (res\<lparr>drID := i\<rparr>)) (dsResources d)\<rparr>"
proof (cases "List.find (\<lambda>(i, existing). same_resource res existing) (dsResources d)")
  case None
  then show ?thesis
    using find_same_resource(2)[OF assms None] by (intro new[OF _ refl]) (auto simp: UpsertDiscoveredResource_def Let_def)
next
  case (Some iq)
  obtain i q where iq: "iq = (i, q)" by (cases iq) auto
  show ?thesis
    using find_same_resource(1)[OF assms Some[unfolded iq]] Some iq
    by (intro old[of i q]) (auto simp: UpsertDiscoveredResource_def merged_def Let_def)
qed

text \<open>The steps of the store: its writes, with any input.\<close>

inductive disc_step :: "disc_store \<Rightarrow> disc_store \<Rightarrow> bool" where
  upsert: "tags_ok (drMetadata res) \<Longrightarrow> disc_step d (UpsertDiscoveredResource fresh d res)"
| mark_stale: "disc_step d (fst (MarkStaleResources d acct before))"
| link: "disc_step d (fst (LinkResourceToPool d i p))"
| unlink: "disc_step d (fst (UnlinkResource d i))"
| delete: "disc_step d (fst (DeleteDiscoveredResource d i))"
| create_job: "disc_step d (fst (CreateSyncJob fresh now d job))"
| update_job: "disc_step d (fst (UpdateSyncJob d job))"
| claim: "map_order ord \<Longrightarrow> disc_step d (fst (ClaimPendingAgentSync ord now d agent))"
| upsert_agent: "disc_step d (UpsertAgent fresh now d a)"
| delete_agent: "disc_step d (fst (DeleteAgent d i))"

inductive disc_reachable :: "disc_store \<Rightarrow> bool" where
  init: "disc_reachable NewMemoryDiscoveryStore"
| step: "disc_reachable d \<Longrightarrow> disc_step d d' \<Longrightarrow> disc_reachable d'"

lemma disc_invD:
  assumes "disc_inv d"
  shows "gmap_ok (dsResources d)" "gmap_ok (dsSyncJobs d)" "gmap_ok (dsAgents d)" "resources_ok (map_of (dsResources d))"
    "map_of (dsSyncJobs d) i = Some j \<Longrightarrow> sjID j = i" "map_of (dsAgents d) k = Some a \<Longrightarrow> agID a = k"
  using assms unfolding disc_inv_def by blast+

lemma mem_resources:
  assumes "disc_inv d"
  shows "x \<in> set (map snd (dsResources d)) \<longleftrightarrow> map_of (dsResources d) (drID x) = Some x"
proof
  assume "x \<in> set (map snd (dsResources d))"
  then obtain i where "(i, x) \<in> set (dsResources d)" by auto
  then have "map_of (dsResources d) i = Some x" by (simp add: gmap_mem_iff[OF disc_invD(1)[OF assms]])
  then show "map_of (dsResources d) (drID x) = Some x" using resources_okD(1)[OF disc_invD(4)[OF assms]] by blast
next
  assume "map_of (dsResources d) (drID x) = Some x"
  from map_of_SomeD[OF this] show "x \<in> set (map snd (dsResources d))" by force
qed

text \<open>An update of one part of the store keeps the invariant when that part does.\<close>

lemma disc_inv_resources:
  "disc_inv d \<Longrightarrow> gmap_ok m \<Longrightarrow> resources_ok (map_of m) \<Longrightarrow> disc_inv (d\<lparr>dsResources := m\<rparr>)"
  by (simp add: disc_inv_def)

lemma disc_inv_jobs:
  "disc_inv d \<Longrightarrow> sjID j = i \<Longrightarrow> disc_inv (d\<lparr>dsSyncJobs := gput i j (dsSyncJobs d)\<rparr>)"
  by (simp add: disc_inv_def)

lemma disc_inv_agents:
  "disc_inv d \<Longrightarrow> agID a = i \<Longrightarrow> disc_inv (d\<lparr>dsAgents := gput i a (dsAgents d)\<rparr>)"
  by (simp add: disc_inv_def)

lemma disc_inv_Upsert:
  assumes "disc_inv d" "tags_ok (drMetadata res)"
  shows "disc_inv (UpsertDiscoveredResource fresh d res)"
  using disc_invD(1)[OF assms(1)]
proof (cases rule: Upsert_cases[where res = res and fresh = fresh])
  case (old i q)
  have "resources_ok ((map_of (dsResources d))(i \<mapsto> merged q i res))"
  proof (rule resources_ok_change[OF disc_invD(4)[OF assms(1)] old(1)])
    show "same_resource q (merged q i res)" using old(2) by (simp add: same_resource_def merged_def)
    show "drID (merged q i res) = drID q" using resources_okD(1)[OF disc_invD(4)[OF assms(1)] old(1)] by (simp add: merged_def)
    show "tags_ok (drMetadata (merged q i res))" using assms(2) by (simp add: merged_def)
  qed
  then show ?thesis
    unfolding old(3) using assms by (intro disc_inv_resources) (simp_all add: disc_invD merged_def)
next
  case (new i)
  have "resources_ok ((map_of (dsResources d))(i \<mapsto> res\<lparr>drID := i\<rparr>))"
  proof (rule resources_ok_upd[OF disc_invD(4)[OF assms(1)]])
    fix j q assume j: "map_of (dsResources d) j = Some q" "same_resource (res\<lparr>drID := i\<rparr>) q"
    then show "j = i" using new(1)[OF j(1)] by (simp add: same_resource_def)
  qed (use assms(2) in simp_all)
  then show ?thesis
    unfolding new(3) using assms by (intro disc_inv_resources) (simp_all add: disc_invD)
qed

lemma disc_inv_MarkStale:
  assumes "disc_inv d"
  shows "disc_inv (fst (MarkStaleResources d acct before))"
proof -
  let ?f = "\<lambda>r. if goes_stale acct before r then r\<lparr>drStatus := DiscoveryStatusStale\<rparr> else r"
  have "map_of (map (\<lambda>(i, r). (i, ?f r)) (dsResources d)) = (\<lambda>i. map_option ?f (map_of (dsResources d) i))"
    by (rule ext) (rule map_of_map_vals)
  moreover have "resources_ok (\<lambda>i. map_option ?f (map_of (dsResources d) i))"
    by (rule resources_ok_map[OF disc_invD(4)[OF assms]]) (simp add: same_resource_def)
  ultimately show ?thesis
    using assms by (simp add: MarkStaleResources_def disc_inv_resources disc_invD)
qed

lemma disc_inv_link:
  assumes "disc_inv d"
  shows "disc_inv (fst (LinkResourceToPool d i p))" "disc_inv (fst (UnlinkResource d i))"
proof -
  have "disc_inv (d\<lparr>dsResources := gput i (r\<lparr>drPoolID := v\<rparr>) (dsResources d)\<rparr>)" if r: "map_of (dsResources d) i = Some r" for r v
  proof -
    have "resources_ok ((map_of (dsResources d))(i \<mapsto> r\<lparr>drPoolID := v\<rparr>))"
      by (rule resources_ok_change[OF disc_invD(4)[OF assms] r])
        (simp_all add: same_resource_def resources_okD(2)[OF disc_invD(4)[OF assms] r])
    then show ?thesis using assms by (intro disc_inv_resources) (simp_all add: disc_invD)
  qed
  then show "disc_inv (fst (LinkResourceToPool d i p))" "disc_inv (fst (UnlinkResource d i))"
    using assms by (simp_all add: LinkResourceToPool_def UnlinkResource_def split: option.split)
qed

lemma disc_inv_delete: "disc_inv d \<Longrightarrow> disc_inv (fst (DeleteDiscoveredResource d i))"
  using resources_ok_less[OF disc_invD(4)]
  by (auto simp: DeleteDiscoveredResource_def disc_invD intro!: disc_inv_resources split: option.split)

text \<open>What a claim takes: the oldest of the agent's pending jobs.\<close>

definition oldest :: "uuid \<Rightarrow> sync_job set \<Rightarrow> sync_job option \<Rightarrow> bool" where
  "oldest agent J sel \<longleftrightarrow> (case sel of None \<Rightarrow> (\<forall>j \<in> J. \<not> claimable agent j)
     | Some s \<Rightarrow> claimable agent s \<and> s \<in> J \<and> (\<forall>j \<in> J. claimable agent j \<longrightarrow> sjCreatedAt s \<le> sjCreatedAt j))"

lemma oldest_insert: "oldest agent J sel \<Longrightarrow> oldest agent (insert j J) (select_job agent j sel)"
  by (cases sel) (auto simp: oldest_def select_job_def)

lemma select_job_fold: "oldest agent J sel \<Longrightarrow> oldest agent (J \<union> set js) (fold (select_job agent) js sel)"
proof (induction js arbitrary: sel J)
  case (Cons j js)
  from Cons.IH[OF oldest_insert[OF Cons.prems, of j]] show ?case by simp
qed simp

lemma claim_cases:
  assumes "disc_inv d" "map_order ord"
  obtains (none) "\<And>i j. map_of (dsSyncJobs d) i = Some j \<Longrightarrow> \<not> claimable agent j"
      "ClaimPendingAgentSync ord now d agent = (d, Inl ErrNotFound)"
    | (claimed) i j where "map_of (dsSyncJobs d) i = Some j" "sjID j = i" "claimable agent j"
      "\<And>k x. map_of (dsSyncJobs d) k = Some x \<Longrightarrow> claimable agent x \<Longrightarrow> sjCreatedAt j \<le> sjCreatedAt x"
      "ClaimPendingAgentSync ord now d agent =
        (d\<lparr>dsSyncJobs := gput i (j\<lparr>sjStatus := SyncJobStatusRunning, sjStartedAt := Some now\<rparr>) (dsSyncJobs d)\<rparr>,
         Inr (j\<lparr>sjStatus := SyncJobStatusRunning, sjStartedAt := Some now\<rparr>))"
proof -
  let ?js = "ord (map snd (dsSyncJobs d))"
  have js: "j \<in> set ?js \<longleftrightarrow> (\<exists>i. map_of (dsSyncJobs d) i = Some j)" for j
  proof -
    have "j \<in> set ?js \<longleftrightarrow> (\<exists>i. (i, j) \<in> set (dsSyncJobs d))"
      unfolding map_order_set[OF assms(2)] by force
    then show ?thesis by (simp only: gmap_mem_iff[OF disc_invD(2)[OF assms(1)]])
  qed
  have f: "oldest agent (set ?js) (fold (select_job agent) ?js None)"
    using select_job_fold[of agent "{}" None ?js] by (simp add: oldest_def)
  show thesis
  proof (cases "fold (select_job agent) ?js None")
    case None
    then have "\<not> claimable agent j" if "map_of (dsSyncJobs d) i = Some j" for i j using f js[of j] that by (auto simp: oldest_def)
    then show thesis using None by (intro none) (auto simp: ClaimPendingAgentSync_def)
  next
    case (Some s)
    then have s: "claimable agent s" "s \<in> set ?js" "\<forall>j \<in> set ?js. claimable agent j \<longrightarrow> sjCreatedAt s \<le> sjCreatedAt j"
      using f by (simp_all add: oldest_def)
    then obtain i where i: "map_of (dsSyncJobs d) i = Some s" using js by blast
    have k: "sjID s = i" by (rule disc_invD(5)[OF assms(1) i])
    show thesis
    proof (rule claimed[OF i k s(1)])
      show "map_of (dsSyncJobs d) k = Some x \<Longrightarrow> claimable agent x \<Longrightarrow> sjCreatedAt s \<le> sjCreatedAt x" for k x
        using s(3) js by blast
    qed (simp add: ClaimPendingAgentSync_def Some k Let_def)
  qed
qed

lemma disc_inv_jobs_ops:
  assumes "disc_inv d"
  shows "disc_inv (fst (CreateSyncJob fresh now d job))" "disc_inv (fst (UpdateSyncJob d job))"
    "map_order ord \<Longrightarrow> disc_inv (fst (ClaimPendingAgentSync ord now d agent))"
    "disc_inv (UpsertAgent fresh now d a)" "disc_inv (fst (DeleteAgent d i))"
proof -
  show "disc_inv (fst (CreateSyncJob fresh now d job))"
    using assms by (simp add: CreateSyncJob_def Let_def disc_inv_jobs)
  show "disc_inv (fst (UpdateSyncJob d job))"
    using assms by (simp add: UpdateSyncJob_def disc_inv_jobs split: option.split)
  show "disc_inv (UpsertAgent fresh now d a)"
    using assms by (auto simp: UpsertAgent_def Let_def intro!: disc_inv_agents split: option.split)
  show "disc_inv (fst (ClaimPendingAgentSync ord now d agent))" if "map_order ord"
    using assms that
  proof (cases rule: claim_cases[where agent = agent and now = now])
    case (claimed i j)
    then show ?thesis using assms by (simp add: disc_inv_jobs)
  qed (use assms in simp)
  have "map_of (map (\<lambda>(k, j). (k, if sjAgentID j = Some i then j\<lparr>sjAgentID := None\<rparr> else j)) (dsSyncJobs d)) k =
      map_option (\<lambda>j. if sjAgentID j = Some i then j\<lparr>sjAgentID := None\<rparr> else j) (map_of (dsSyncJobs d) k)" for k
    by (rule map_of_map_vals)
  moreover have "gmap_ok (map (\<lambda>(k, j). (k, if sjAgentID j = Some i then j\<lparr>sjAgentID := None\<rparr> else j)) (dsSyncJobs d))"
    using disc_invD(2)[OF assms] by (rule gmap_ok_map_vals[THEN iffD2])
  ultimately show "disc_inv (fst (DeleteAgent d i))"
    using assms by (auto simp: DeleteAgent_def disc_inv_def split: option.split if_splits)
qed

lemma disc_step_inv:
  assumes "disc_step d d'" "disc_inv d"
  shows "disc_inv d'"
  using assms
  by (induction rule: disc_step.induct)
    (simp_all add: disc_inv_Upsert disc_inv_MarkStale disc_inv_link disc_inv_delete disc_inv_jobs_ops)

lemma disc_reachable_inv: "disc_reachable d \<Longrightarrow> disc_inv d"
proof (induction rule: disc_reachable.induct)
  case init
  show ?case by (simp add: disc_inv_def NewMemoryDiscoveryStore_def resources_ok_def)
qed (blast intro: disc_step_inv)

end
