(* ===== verification/DiscoverySync.thy ===== *)
theory DiscoverySync
  imports Discovery Http
begin

section \<open>Discovery sync and agent ingest (internal/discovery/collector.go, api/discovery_handlers.go)\<close>

text \<open>
  \<open>SyncService\<close>, and the handlers for sync jobs, agents and ingest. A collector (a cloud API client)
  is a parameter: what it answers for an account. The environment of a request holds two readings of
  the clock, the fresh UUIDs (\<open>uuid.New\<close>), the iteration orders of the stores' maps and
  \<open>uuid.Parse\<close>; nothing is assumed of them. The discovery store answers no error but
  \<open>ErrNotFound\<close>, so the branches for its other errors are left out. The outer option is \<open>None\<close> for a
  panic or a page loop that does not return.
\<close>

record disc_env =
  deNow :: go_time
  deLater :: go_time
  deUUID :: "nat \<times> nat \<Rightarrow> uuid"
  deOrd :: "nat \<times> nat \<Rightarrow> int \<Rightarrow> discovered_resource order"
  deJobOrd :: "sync_job order"
  deAgentOrd :: "discovery_agent order"
  deParseUUID :: "string \<Rightarrow> uuid option"
  deCtx :: auth_ctx

subsection \<open>Processing the resources of a run\<close>

partial_function (option) find_pages ::
    "(int \<Rightarrow> (discovered_resource list \<times> int) option) \<Rightarrow> string \<Rightarrow> int \<Rightarrow> discovered_resource option option" where
  "find_pages fetch rid pg =
     Option.bind (fetch pg) (\<lambda>(rs, total'). case List.find (\<lambda>r. drResourceID r = rid) rs of
         Some r \<Rightarrow> Some (Some r)
       | None \<Rightarrow> if rs = [] \<or> wrap64 (pg * 1000) \<ge> total' then Some None else find_pages fetch rid (pg + 1))"

definition findByAccountAndResourceID ::
    "(int \<Rightarrow> discovered_resource order) \<Rightarrow> disc_store \<Rightarrow> go_id \<Rightarrow> string \<Rightarrow> discovered_resource option option" where
  "findByAccountAndResourceID ord d acct rid =
     find_pages (\<lambda>pg. ListDiscoveredResources (ord pg) d acct (no_filters\<lparr>dfPage := pg, dfPageSize := 1000\<rparr>)) rid 1"

fun upsert_all :: "(nat \<Rightarrow> int \<Rightarrow> discovered_resource order) \<Rightarrow> (nat \<Rightarrow> uuid) \<Rightarrow> go_id \<Rightarrow> nat \<Rightarrow> discovered_resource list \<Rightarrow>
    disc_store \<times> int \<times> int \<Rightarrow> (disc_store \<times> int \<times> int) option" where
  "upsert_all ord fresh acct k [] st = Some st"
| "upsert_all ord fresh acct k (r # rs) (d, created, updated) =
     (case findByAccountAndResourceID (ord k) d acct (drResourceID r) of
        None \<Rightarrow> None
      | Some existing \<Rightarrow>
          upsert_all ord fresh acct (Suc k) rs
            (UpsertDiscoveredResource (fresh k) d r,
             if existing = None then created + 1 else created, if existing = None then updated else updated + 1))"

text \<open>The new store with the numbers of created, updated and stale resources.\<close>

definition ProcessResources :: "(nat \<Rightarrow> int \<Rightarrow> discovered_resource order) \<Rightarrow> (nat \<Rightarrow> uuid) \<Rightarrow> disc_store \<Rightarrow> go_id \<Rightarrow>
    discovered_resource list \<Rightarrow> go_time \<Rightarrow> (disc_store \<times> int \<times> int \<times> int) option" where
  "ProcessResources ord fresh d acct resources syncTime =
     map_option (\<lambda>(d, created, updated). case MarkStaleResources d acct syncTime of
         (d, stale) \<Rightarrow> (d, created, updated, stale))
       (upsert_all ord fresh acct 0 resources (d, 0, 0))"

definition SyncJobStatusCompleted :: string where "SyncJobStatusCompleted = ''completed''"
definition SyncJobStatusFailed :: string where "SyncJobStatusFailed = ''failed''"

definition new_job :: "uuid \<Rightarrow> go_id \<Rightarrow> string \<Rightarrow> string \<Rightarrow> uuid option \<Rightarrow> go_time option \<Rightarrow> go_time \<Rightarrow> sync_job" where
  "new_job i acct status source agent started created =
     \<lparr>sjID = i, sjAccountID = acct, sjStatus = status, sjSource = source, sjAgentID = agent, sjStartedAt = started,
      sjCompletedAt = None, sjFound = 0, sjCreated = 0, sjUpdated = 0, sjDeleted = 0, sjErrorMessage = [],
      sjCreatedAt = created\<rparr>"

type_synonym collectors = "string \<Rightarrow> (account \<Rightarrow> go_error + discovered_resource list) option"

text \<open>The verb \<open>%q\<close> on text that needs no escapes.\<close>

definition quoted :: "string \<Rightarrow> string" where
  "quoted s = CHR 0x22 # s @ [CHR 0x22]"

text \<open>The job of a processed run.\<close>

definition finish_job :: "go_time \<Rightarrow> nat \<Rightarrow> int \<times> int \<times> int \<Rightarrow> sync_job \<Rightarrow> sync_job" where
  "finish_job later found counts job = (case counts of (created, updated, stale) \<Rightarrow>
     job\<lparr>sjCompletedAt := Some later, sjFound := int found, sjCreated := created, sjUpdated := updated,
         sjDeleted := stale, sjStatus := SyncJobStatusCompleted\<rparr>)"

definition Sync :: "disc_env \<Rightarrow> collectors \<Rightarrow> disc_store \<Rightarrow> account \<Rightarrow>
    (disc_store \<times> sync_job option \<times> go_error option) option" where
  "Sync env svc d acct = (case svc (accProvider acct) of
     None \<Rightarrow> Some (d, None, Some (plainErr (''no collector registered for provider '' @ quoted (accProvider acct))))
   | Some discover \<Rightarrow>
      (let now = deNow env;
           (d, job) = CreateSyncJob (deUUID env (0, 0)) now d
             (new_job (deUUID env (0, 0)) (accID acct) SyncJobStatusRunning ''local'' None (Some now) now)
       in case discover acct of
            Inl e \<Rightarrow>
              let job = job\<lparr>sjStatus := SyncJobStatusFailed, sjCompletedAt := Some (deLater env), sjErrorMessage := errText e\<rparr>
              in Some (fst (UpdateSyncJob d job), Some job, Some (wrapf ''discovery failed'' e))
          | Inr resources \<Rightarrow>
              map_option (\<lambda>(d, counts).
                  let job = finish_job (deLater env) (length resources) counts job
                  in (fst (UpdateSyncJob d job), Some job, None))
                (ProcessResources (\<lambda>k. deOrd env (1, k)) (\<lambda>k. deUUID env (1, k)) d (accID acct) resources now)))"

subsection \<open>Ingest from an agent\<close>

record ingest_request =
  iqAccountID :: go_id
  iqResources :: "discovered_resource list"
  iqAgentID :: "uuid option"
  iqSyncJobID :: "uuid option"

record ingest_response =
  irJobID :: uuid
  irFound :: int
  irCreated :: int
  irUpdated :: int
  irDeleted :: int

definition ingest_job :: "disc_env \<Rightarrow> disc_store \<Rightarrow> account \<Rightarrow> ingest_request \<Rightarrow> go_error + (disc_store \<times> sync_job)" where
  "ingest_job env d acct req = (case iqSyncJobID req of
     Some j \<Rightarrow> (case GetSyncJob d j of
         Inl e \<Rightarrow> Inl e
       | Inr existing \<Rightarrow> Inr (d, existing\<lparr>sjStatus := SyncJobStatusRunning, sjSource := ''agent'', sjAgentID := iqAgentID req,
             sjStartedAt := Some (deNow env)\<rparr>))
   | None \<Rightarrow> Inr (CreateSyncJob (deUUID env (0, 0)) (deNow env) d
       (new_job (deUUID env (0, 0)) (accID acct) SyncJobStatusRunning ''agent'' (iqAgentID req) (Some (deNow env)) (deNow env))))"

definition handleIngest :: "disc_env \<Rightarrow> 's store_ops \<Rightarrow> http_request \<Rightarrow> ingest_request option \<Rightarrow> 's \<Rightarrow> disc_store \<Rightarrow>
    (disc_store \<times> ingest_response http_response) option" where
  "handleIngest env ops rq body s d =
     (if rqMethod rq \<noteq> ''POST'' then Some (d, method_not_allowed)
      else case body of
        None \<Rightarrow> Some (d, writeErr 400 ''invalid request body'' [])
      | Some req \<Rightarrow>
         if iqAccountID req < 1 then Some (d, writeErr 400 ''account_id is required and must be a positive integer'' [])
         else case opGetAccount ops s (iqAccountID req) of
           Inl e \<Rightarrow> Some (d, RespErr 500 (Msg ''account lookup failed'') (OfStore e))
         | Inr None \<Rightarrow> Some (d, writeErr 404 ''account not found'' [])
         | Inr (Some acct) \<Rightarrow>
            (case ingest_job env d acct req of
               Inl e \<Rightarrow> Some (d, RespErr 400 (Msg ''sync job not found'') (OfStore e))
             | Inr (d, job) \<Rightarrow>
                 map_option (\<lambda>(d, counts).
                     let job = finish_job (deLater env) (length (iqResources req)) counts job
                     in (fst (UpdateSyncJob d job),
                         RespJSON 200 \<lparr>irJobID = sjID job, irFound = sjFound job, irCreated = sjCreated job,
                           irUpdated = sjUpdated job, irDeleted = sjDeleted job\<rparr>))
                   (ProcessResources (\<lambda>k. deOrd env (1, k)) (\<lambda>k. deUUID env (1, k)) d (accID acct) (iqResources req) (deNow env))))"

subsection \<open>Agents\<close>

definition minute :: go_time where "minute = 60000000000"

definition computeAgentStatus :: "go_time \<Rightarrow> go_time \<Rightarrow> string" where
  "computeAgentStatus lastSeen now =
     (let elapsed = now - lastSeen in
      if elapsed < 5 * minute then ''healthy'' else if elapsed < 15 * minute then ''stale'' else ''offline'')"

definition getAPIKeyIDFromContext :: "auth_ctx \<Rightarrow> string option" where
  "getAPIKeyIDFromContext c = map_option keyID (ctxAPIKey c)"

record heartbeat_request =
  hbAgentID :: uuid
  hbName :: string
  hbAccountID :: go_id
  hbVersion :: string
  hbHostname :: string

record heartbeat_response =
  hrStatus :: string
  hrSyncJobID :: "uuid option"
  hrAccountID :: go_id

definition heartbeat_agent :: "disc_env \<Rightarrow> string \<Rightarrow> heartbeat_request \<Rightarrow> discovery_agent" where
  "heartbeat_agent env k req = \<lparr>agID = hbAgentID req, agName = hbName req, agAccountID = hbAccountID req, agAPIKeyID = k,
     agStatus = [], agApprovalStatus = [], agVersion = hbVersion req, agHostname = hbHostname req,
     agLastSeenAt = deNow env, agRegisteredAt = None, agApprovedAt = None, agApprovedBy = None, agCreatedAt = zero_time\<rparr>"

definition handleAgentHeartbeat :: "disc_env \<Rightarrow> http_request \<Rightarrow> heartbeat_request option \<Rightarrow> disc_store \<Rightarrow>
    disc_store \<times> heartbeat_response http_response" where
  "handleAgentHeartbeat env rq body d =
     (if rqMethod rq \<noteq> ''POST'' then (d, method_not_allowed)
      else case body of
        None \<Rightarrow> (d, writeErr 400 ''invalid request body'' [])
      | Some req \<Rightarrow>
         if hbAgentID req = uuid_Nil \<or> hbName req = [] \<or> hbAccountID req < 1
         then (d, writeErr 400 ''agent_id, name, and account_id are required'' [])
         else case getAPIKeyIDFromContext (deCtx env) of
           None \<Rightarrow> (d, writeErr 401 ''api key required'' [])
         | Some k \<Rightarrow>
            (let d = UpsertAgent (deUUID env (0, 0)) (deLater env) d (heartbeat_agent env k req) in
             case ClaimPendingAgentSync (deJobOrd env) (deLater env) d (hbAgentID req) of
               (d, Inl e) \<Rightarrow> (d, RespJSON 200 \<lparr>hrStatus = ''ok'', hrSyncJobID = None, hrAccountID = 0\<rparr>)
             | (d, Inr j) \<Rightarrow> (d, RespJSON 200 \<lparr>hrStatus = ''ok'', hrSyncJobID = Some (sjID j), hrAccountID = sjAccountID j\<rparr>)))"

definition with_status :: "go_time \<Rightarrow> discovery_agent \<Rightarrow> discovery_agent" where
  "with_status now a = a\<lparr>agStatus := computeAgentStatus (agLastSeenAt a) now\<rparr>"

definition handleListAgents :: "disc_env \<Rightarrow> http_request \<Rightarrow> disc_store \<Rightarrow> discovery_agent list http_response" where
  "handleListAgents env rq d =
     (if rqMethod rq \<noteq> ''GET'' then method_not_allowed
      else RespJSON 200 (map (with_status (deNow env))
        (ListAgents (deAgentOrd env) d (fst (atoi_value (query_get rq ''account_id''))))))"

definition handleGetAgent :: "disc_env \<Rightarrow> http_request \<Rightarrow> disc_store \<Rightarrow> discovery_agent http_response" where
  "handleGetAgent env rq d =
     (if rqMethod rq \<noteq> ''GET'' then method_not_allowed
      else case deParseUUID env (trim_prefix (rqPath rq) ''/api/v1/discovery/agents/'') of
        None \<Rightarrow> writeErr 400 ''invalid agent id'' []
      | Some i \<Rightarrow> (case GetAgent d i of
          Inl e \<Rightarrow> writeErr 404 ''agent not found'' []
        | Inr a \<Rightarrow> RespJSON 200 (with_status (deNow env) a)))"

definition refreshAgentLastSeen :: "disc_env \<Rightarrow> disc_store \<Rightarrow> uuid \<Rightarrow> go_time \<Rightarrow> disc_store" where
  "refreshAgentLastSeen env d i seenAt = (case GetAgent d i of
     Inl e \<Rightarrow> d
   | Inr a \<Rightarrow> UpsertAgent (deUUID env (0, 1)) (deLater env) d (a\<lparr>agLastSeenAt := seenAt\<rparr>))"

subsection \<open>Ingest of an organization\<close>

record org_account =
  oaAWSAccountID :: string
  oaAccountName :: string
  oaProvider :: string
  oaRegions :: "string list option"
  oaResources :: "discovered_resource list"

record bulk_request =
  bqAccounts :: "org_account list"
  bqAgentID :: string
  bqSyncJobID :: "uuid option"

record bulk_response =
  brProcessed :: int
  brAccountsCreated :: int
  brTotalResources :: int
  brErrors :: "string list"

text \<open>The account of an entry: looked up by its key, or created.\<close>

definition org_create :: "org_account \<Rightarrow> create_account" where
  "org_create o' = \<lparr>caKey = ''aws:'' @ oaAWSAccountID o', caName = default_str (oaAWSAccountID o') (oaAccountName o'),
     caProvider = default_str ''aws'' (oaProvider o'), caExternalID = oaAWSAccountID o', caDescription = [], caPlatform = [],
     caTier = [], caEnvironment = [], caRegions = oaRegions o'\<rparr>"

definition org_account_of :: "disc_env \<Rightarrow> 's store_ops \<Rightarrow> 's \<Rightarrow> org_account \<Rightarrow> 's \<times> (string + account \<times> bool)" where
  "org_account_of env ops s o' = (let key = ''aws:'' @ oaAWSAccountID o' in
     case opGetAccountByKey ops s key of
       Inr a \<Rightarrow> (s, Inr (a, False))
     | Inl e \<Rightarrow>
         if \<not> errorsIs e ErrNotFound then (s, Inl (''lookup '' @ key @ '': '' @ errText e))
         else case opCreateAccount ops (deNow env) s (org_create o') of
           (s, Inl e) \<Rightarrow> (s, Inl (''create account '' @ key @ '': '' @ errText e))
         | (s, Inr a) \<Rightarrow> (s, Inr (a, True)))"

fun org_pass :: "disc_env \<Rightarrow> 's store_ops \<Rightarrow> nat \<Rightarrow> org_account list \<Rightarrow> 's \<times> disc_store \<times> bulk_response \<Rightarrow>
    ('s \<times> disc_store \<times> bulk_response) option" where
  "org_pass env ops k [] st = Some st"
| "org_pass env ops k (o' # os) (s, d, r) =
     (if oaAWSAccountID o' = []
      then org_pass env ops (Suc k) os (s, d, r\<lparr>brErrors := brErrors r @ [''skipped account with empty aws_account_id'']\<rparr>)
      else case org_account_of env ops s o' of
        (s, Inl msg) \<Rightarrow> org_pass env ops (Suc k) os (s, d, r\<lparr>brErrors := brErrors r @ [msg]\<rparr>)
      | (s, Inr (a, created)) \<Rightarrow>
          let rs = map (\<lambda>x. x\<lparr>drAccountID := accID a\<rparr>) (oaResources o') in
          (case ProcessResources (\<lambda>j. deOrd env (k + 1, j)) (\<lambda>j. deUUID env (k + 1, j)) d (accID a) rs (deNow env) of
             None \<Rightarrow> None
           | Some (d, counts) \<Rightarrow>
               org_pass env ops (Suc k) os
                 (s, d, r\<lparr>brAccountsCreated := (if created then brAccountsCreated r + 1 else brAccountsCreated r),
                          brProcessed := brProcessed r + 1, brTotalResources := brTotalResources r + int (length rs)\<rparr>)))"

fun join_with :: "string \<Rightarrow> string list \<Rightarrow> string" where
  "join_with sep [] = []"
| "join_with sep [x] = x"
| "join_with sep (x # xs) = x @ sep @ join_with sep xs"

definition finish_bulk :: "disc_env \<Rightarrow> bulk_response \<Rightarrow> sync_job \<Rightarrow> sync_job" where
  "finish_bulk env r job =
     (let job = job\<lparr>sjCompletedAt := Some (deLater env), sjFound := brTotalResources r, sjStatus := SyncJobStatusCompleted\<rparr>
      in if brErrors r \<noteq> [] then job\<lparr>sjStatus := SyncJobStatusFailed, sjErrorMessage := join_with ''; '' (brErrors r)\<rparr> else job)"

definition start_bulk_job :: "disc_env \<Rightarrow> sync_job \<Rightarrow> sync_job" where
  "start_bulk_job env job = (let job = job\<lparr>sjStatus := SyncJobStatusRunning, sjSource := ''agent''\<rparr>
     in if sjStartedAt job = None then job\<lparr>sjStartedAt := Some (deNow env)\<rparr> else job)"

definition bulk_run :: "disc_env \<Rightarrow> 's store_ops \<Rightarrow> bulk_request \<Rightarrow> sync_job option \<Rightarrow> 's \<Rightarrow> disc_store \<Rightarrow>
    ('s \<times> disc_store \<times> bulk_response http_response) option" where
  "bulk_run env ops req job s d =
     map_option (\<lambda>(s, d, r).
         (s, (case job of None \<Rightarrow> d | Some j \<Rightarrow> fst (UpdateSyncJob d (finish_bulk env r j))), RespJSON 200 r))
       (org_pass env ops 0 (bqAccounts req) (s, d, \<lparr>brProcessed = 0, brAccountsCreated = 0, brTotalResources = 0, brErrors = []\<rparr>))"

definition handleOrgIngest :: "disc_env \<Rightarrow> 's store_ops \<Rightarrow> http_request \<Rightarrow> bulk_request option \<Rightarrow> 's \<Rightarrow> disc_store \<Rightarrow>
    ('s \<times> disc_store \<times> bulk_response http_response) option" where
  "handleOrgIngest env ops rq body s d =
     (if rqMethod rq \<noteq> ''POST'' then Some (s, d, method_not_allowed)
      else case body of
        None \<Rightarrow> Some (s, d, writeErr 400 ''invalid request body'' [])
      | Some req \<Rightarrow>
         if bqAccounts req = [] then Some (s, d, writeErr 400 ''accounts list is required'' [])
         else case (case bqSyncJobID req of None \<Rightarrow> Inr None
              | Some j \<Rightarrow> map_sum id (\<lambda>job. Some (start_bulk_job env job)) (GetSyncJob d j)) of
           Inl e \<Rightarrow> Some (s, d, RespErr 400 (Msg ''sync job not found'') (OfStore e))
         | Inr job \<Rightarrow>
            (if bqAgentID req = [] then bulk_run env ops req job s d
             else case deParseUUID env (bqAgentID req) of
               None \<Rightarrow> Some (s, d, writeErr 400 ''invalid agent_id'' [])
             | Some a \<Rightarrow> bulk_run env ops req job s (refreshAgentLastSeen env d a (deNow env))))"

subsection \<open>Triggering and listing syncs\<close>

definition createAgentSyncJob :: "disc_env \<Rightarrow> nat \<Rightarrow> disc_store \<Rightarrow> go_id \<Rightarrow> uuid \<Rightarrow> disc_store \<times> sync_job" where
  "createAgentSyncJob env k d acct agent =
     CreateSyncJob (deUUID env (0, k)) (deLater env) d
       (new_job (deUUID env (0, k)) acct SyncJobStatusPending ''agent'' (Some agent) None (deLater env))"

definition healthy :: "disc_env \<Rightarrow> discovery_agent \<Rightarrow> bool" where
  "healthy env a = (computeAgentStatus (agLastSeenAt a) (deNow env) = ''healthy'')"

definition resolveAgentSyncAccountID :: "'s store_ops \<Rightarrow> 's \<Rightarrow> discovery_agent \<Rightarrow> go_id \<Rightarrow> go_error + go_id" where
  "resolveAgentSyncAccountID ops s agent requested =
     (if requested > 0 then
        (case opGetAccount ops s requested of
           Inl e \<Rightarrow> Inl e | Inr None \<Rightarrow> Inl ErrNotFound | Inr (Some _) \<Rightarrow> Inr requested)
      else if agAccountID agent > 0 then
        (case opGetAccount ops s (agAccountID agent) of
           Inl e \<Rightarrow> Inl e
         | Inr (Some _) \<Rightarrow> Inr (agAccountID agent)
         | Inr None \<Rightarrow> (case opGetAccountByKey ops s (''aws:'' @ itoa_int (agAccountID agent)) of
               Inr a \<Rightarrow> Inr (accID a)
             | Inl e \<Rightarrow> if \<not> errorsIs e ErrNotFound then Inl e else Inl ErrNotFound))
      else Inl ErrNotFound)"

fun queue_agents :: "disc_env \<Rightarrow> 's store_ops \<Rightarrow> 's \<Rightarrow> nat \<Rightarrow> discovery_agent list \<Rightarrow> uuid list \<Rightarrow>
    disc_store \<times> sync_job list \<Rightarrow> disc_store \<times> (go_error + sync_job list)" where
  "queue_agents env ops s k [] seen (d, jobs) = (d, Inr jobs)"
| "queue_agents env ops s k (a # as) seen (d, jobs) =
     (if agID a \<in> set seen \<or> \<not> healthy env a then queue_agents env ops s (Suc k) as seen (d, jobs)
      else case resolveAgentSyncAccountID ops s a 0 of
        Inl e \<Rightarrow> if errorsIs e ErrNotFound then queue_agents env ops s (Suc k) as seen (d, jobs) else (d, Inl e)
      | Inr acct \<Rightarrow> (case createAgentSyncJob env k d acct (agID a) of
          (d, job) \<Rightarrow> queue_agents env ops s (Suc k) as (agID a # seen) (d, jobs @ [job])))"

definition queueAllHealthyAgentSyncs :: "disc_env \<Rightarrow> 's store_ops \<Rightarrow> 's \<Rightarrow> disc_store \<Rightarrow> disc_store \<times> (go_error + sync_job list)" where
  "queueAllHealthyAgentSyncs env ops s d = queue_agents env ops s 0 (ListAgents (deAgentOrd env) d 0) [] (d, [])"

text \<open>The first healthy agent of the account, else the first healthy one.\<close>

definition selectConnectedAgent :: "disc_env \<Rightarrow> disc_store \<Rightarrow> go_id \<Rightarrow> discovery_agent option" where
  "selectConnectedAgent env d acct =
     (let agents = filter (healthy env) (ListAgents (deAgentOrd env) d 0) in
      case List.find (\<lambda>a. agAccountID a = acct) agents of
        Some a \<Rightarrow> Some a
      | None \<Rightarrow> (case agents of [] \<Rightarrow> None | a # _ \<Rightarrow> Some a))"

record sync_body =
  sbAccountID :: go_id
  sbAgentID :: string
  sbAllAgents :: bool

datatype sync_payload = PJob sync_job | PJobs "sync_job list"

definition sync_with_agent :: "disc_env \<Rightarrow> 's store_ops \<Rightarrow> sync_body \<Rightarrow> 's \<Rightarrow> disc_store \<Rightarrow> disc_store \<times> sync_payload http_response" where
  "sync_with_agent env ops b s d = (case deParseUUID env (sbAgentID b) of
     None \<Rightarrow> (d, writeErr 400 ''invalid agent_id'' [])
   | Some i \<Rightarrow> (case GetAgent d i of
       Inl e \<Rightarrow> (d, writeErr 404 ''agent not found'' [])
     | Inr a \<Rightarrow>
         if \<not> healthy env a then (d, writeErr 409 ''agent is not healthy'' [])
         else case resolveAgentSyncAccountID ops s a (sbAccountID b) of
           Inl e \<Rightarrow> (d, if errorsIs e ErrNotFound then writeErr 404 ''agent account not found'' []
                        else RespErr 500 (Msg ''account lookup failed'') (OfStore e))
         | Inr acct \<Rightarrow> (case createAgentSyncJob env 0 d acct (agID a) of (d, job) \<Rightarrow> (d, RespJSON 200 (PJob job)))))"

definition triggerSync :: "disc_env \<Rightarrow> collectors option \<Rightarrow> 's store_ops \<Rightarrow> sync_body option \<Rightarrow> 's \<Rightarrow> disc_store \<Rightarrow>
    (disc_store \<times> sync_payload http_response) option" where
  "triggerSync env svc ops body s d = (case body of
     None \<Rightarrow> Some (d, writeErr 400 ''invalid request body'' [])
   | Some b \<Rightarrow> (case svc of
       None \<Rightarrow> Some (d, writeErr 503 ''sync service not available'' [])
     | Some cs \<Rightarrow>
        if sbAllAgents b then
          Some (case queueAllHealthyAgentSyncs env ops s d of
             (d, Inl e) \<Rightarrow> (d, RespErr 500 (Msg ''queue agent syncs failed'') (OfStore e))
           | (d, Inr jobs) \<Rightarrow>
               if jobs = [] then (d, writeErr 409 ''no healthy discovery agents are connected'' [])
               else (d, RespJSON 200 (PJobs jobs)))
        else if sbAgentID b \<noteq> [] then Some (sync_with_agent env ops b s d)
        else if sbAccountID b < 1 then Some (d, writeErr 400 ''account_id is required and must be a positive integer'' [])
        else case opGetAccount ops s (sbAccountID b) of
          Inl e \<Rightarrow> Some (d, RespErr 500 (Msg ''account lookup failed'') (OfStore e))
        | Inr None \<Rightarrow> Some (d, writeErr 404 ''account not found'' [])
        | Inr (Some acct) \<Rightarrow>
           (case selectConnectedAgent env d (sbAccountID b) of
              Some a \<Rightarrow> Some (case createAgentSyncJob env 0 d (accID acct) (agID a) of (d, job) \<Rightarrow> (d, RespJSON 200 (PJob job)))
            | None \<Rightarrow>
                map_option (\<lambda>(d, job, err). (d, case (job, err) of
                     (Some j, _) \<Rightarrow> RespJSON 200 (PJob j)
                   | (None, Some e) \<Rightarrow> RespErr 500 (Msg ''sync failed'') (OfStore e)
                   | (None, None) \<Rightarrow> RespStatus 200))
                  (Sync env cs d acct))))"

definition listSyncJobs :: "disc_env \<Rightarrow> http_request \<Rightarrow> disc_store \<Rightarrow> sync_payload http_response" where
  "listSyncJobs env rq d = (case parseInt64 (query_get rq ''account_id'') of
     None \<Rightarrow> writeErr 400 ''account_id is required and must be a positive integer'' []
   | Some a \<Rightarrow>
       if a < 1 then writeErr 400 ''account_id is required and must be a positive integer'' []
       else let limit = fst (atoi_value (query_get rq ''limit''));
                limit = (if limit < 1 then 20 else limit)
            in RespJSON 200 (PJobs (ListSyncJobs (deJobOrd env) d a limit)))"

definition handleSync :: "disc_env \<Rightarrow> collectors option \<Rightarrow> 's store_ops \<Rightarrow> http_request \<Rightarrow> sync_body option \<Rightarrow> 's \<Rightarrow> disc_store \<Rightarrow>
    (disc_store \<times> sync_payload http_response) option" where
  "handleSync env svc ops rq body s d =
     (if rqMethod rq = ''POST'' then triggerSync env svc ops body s d
      else if rqMethod rq = ''GET'' then Some (d, listSyncJobs env rq d)
      else Some (d, method_not_allowed))"

definition handleSyncSubroutes :: "disc_env \<Rightarrow> http_request \<Rightarrow> disc_store \<Rightarrow> sync_payload http_response" where
  "handleSyncSubroutes env rq d =
     (if rqMethod rq \<noteq> ''GET'' then method_not_allowed
      else case deParseUUID env (trim_prefix (rqPath rq) ''/api/v1/discovery/sync/'') of
        None \<Rightarrow> writeErr 400 ''invalid sync job id'' []
      | Some i \<Rightarrow> (case GetSyncJob d i of Inl e \<Rightarrow> writeErr 404 ''sync job not found'' [] | Inr j \<Rightarrow> RespJSON 200 (PJob j)))"

end
