(* ===== verification/DiscoveryProps.thy ===== *)
theory DiscoveryProps
  imports DiscoveryFacts DiscoverySync
begin

section \<open>Properties of the discovery store and of sync\<close>

text \<open>
  The store is a map keyed by account and provider id; a sync run refreshes what it saw and marks the
  rest of the account stale; the agents' pending jobs are handed out one by one.
\<close>

subsection \<open>The store as a map keyed by account and provider id\<close>

definition resource_at :: "disc_store \<Rightarrow> go_id \<Rightarrow> string \<Rightarrow> discovered_resource option" where
  "resource_at d a rid = List.find (\<lambda>r. drAccountID r = a \<and> drResourceID r = rid) (map snd (dsResources d))"

definition has_key :: "go_id \<Rightarrow> string \<Rightarrow> discovered_resource \<Rightarrow> bool" where
  "has_key a rid r \<longleftrightarrow> drAccountID r = a \<and> drResourceID r = rid"

lemma find_Some_mem: "List.find P xs = Some x \<Longrightarrow> x \<in> set xs \<and> P x"
  by (induction xs) (auto split: if_splits)

lemma find_ex: "x \<in> set xs \<Longrightarrow> P x \<Longrightarrow> \<exists>y. List.find P xs = Some y"
  by (induction xs) auto

lemma resource_at_iff:
  assumes "disc_inv d"
  shows "resource_at d a rid = Some r \<longleftrightarrow> map_of (dsResources d) (drID r) = Some r \<and> has_key a rid r"
proof -
  note ok = disc_invD(4)[OF assms]
  have mem: "x \<in> set (map snd (dsResources d)) \<longleftrightarrow> map_of (dsResources d) (drID x) = Some x" for x
    by (rule mem_resources[OF assms])
  show ?thesis
  proof
    assume "resource_at d a rid = Some r"
    then have "r \<in> set (map snd (dsResources d)) \<and> has_key a rid r"
      unfolding resource_at_def has_key_def by (rule find_Some_mem)
    then show "map_of (dsResources d) (drID r) = Some r \<and> has_key a rid r" using mem by blast
  next
    assume r: "map_of (dsResources d) (drID r) = Some r \<and> has_key a rid r"
    have rm: "r \<in> set (map snd (dsResources d))" using r mem by blast
    have "\<exists>q. resource_at d a rid = Some q"
      unfolding resource_at_def by (rule find_ex[OF rm]) (use r in \<open>simp add: has_key_def\<close>)
    then obtain q where q: "resource_at d a rid = Some q" ..
    then have qk: "q \<in> set (map snd (dsResources d)) \<and> has_key a rid q"
      unfolding resource_at_def has_key_def by (rule find_Some_mem)
    then have qm: "map_of (dsResources d) (drID q) = Some q" using mem by blast
    have "same_resource q r" using qk r by (simp only: same_resource_def has_key_def)
    then have "drID q = drID r" using resources_okD(3)[OF ok qm conjunct1[OF r]] by blast
    then have "q = r" using qm r by (metis option.inject)
    then show "resource_at d a rid = Some r" using q by (simp only:)
  qed
qed

lemma resource_at_None:
  assumes "disc_inv d"
  shows "resource_at d a rid = None \<longleftrightarrow> (\<forall>i r. map_of (dsResources d) i = Some r \<longrightarrow> \<not> has_key a rid r)"
  using resource_at_iff[OF assms, of a rid] resources_okD(1)[OF disc_invD(4)[OF assms]]
  by (metis option.exhaust option.discI)

lemma resource_at_key: "disc_inv d \<Longrightarrow> resource_at d a rid = Some r \<Longrightarrow> has_key a rid r"
  by (simp add: resource_at_iff)

lemma resource_at_eqI:
  assumes "disc_inv d" "disc_inv d'" "\<And>i r. has_key a rid r \<Longrightarrow> map_of (dsResources d') i = Some r \<longleftrightarrow> map_of (dsResources d) i = Some r"
  shows "resource_at d' a rid = resource_at d a rid"
  using assms(3) resource_at_iff[OF assms(1), of a rid] resource_at_iff[OF assms(2), of a rid]
  by (metis option.exhaust)

text \<open>The id under which an unknown resource is stored.\<close>

definition stored_id :: "uuid \<Rightarrow> discovered_resource \<Rightarrow> uuid" where
  "stored_id fresh res = (if drID res = uuid_Nil then fresh else drID res)"

definition upserted :: "uuid \<Rightarrow> discovered_resource option \<Rightarrow> discovered_resource \<Rightarrow> discovered_resource" where
  "upserted fresh old res = (case old of None \<Rightarrow> res\<lparr>drID := stored_id fresh res\<rparr> | Some q \<Rightarrow> merged q (drID q) res)"

lemma resource_at_Upsert:
  assumes "disc_inv d" "tags_ok (drMetadata res)"
    and fresh: "resource_at d (drAccountID res) (drResourceID res) = None \<Longrightarrow> map_of (dsResources d) (stored_id fresh res) = None"
  shows "resource_at (UpsertDiscoveredResource fresh d res) a rid =
     (if has_key a rid res then Some (upserted fresh (resource_at d a rid) res) else resource_at d a rid)"
proof -
  let ?d = "UpsertDiscoveredResource fresh d res"
  have inv: "disc_inv ?d" by (rule disc_inv_Upsert[OF assms(1,2)])
  from disc_invD(1)[OF assms(1)] show ?thesis
  proof (cases rule: Upsert_cases[where res = res and fresh = fresh])
    case (old i q)
    have i: "i = drID q" using resources_okD(1)[OF disc_invD(4)[OF assms(1)] old(1)] by simp
    have m: "map_of (dsResources ?d) = (map_of (dsResources d))(i \<mapsto> merged q i res)"
      unfolding old(3) using assms(2) by (simp add: merged_def)
    show ?thesis
    proof (cases "has_key a rid res")
      case True
      then have "resource_at d a rid = Some q"
        using old(1,2) i resource_at_iff[OF assms(1), of a rid q] by (simp add: same_resource_def has_key_def)
      moreover have "resource_at ?d a rid = Some (merged q i res)"
        using True by (simp add: resource_at_iff[OF inv] m merged_def has_key_def)
      ultimately show ?thesis using True i by (simp add: upserted_def)
    next
      case False
      have "resource_at ?d a rid = resource_at d a rid"
        using False old(1,2) by (intro resource_at_eqI[OF assms(1) inv]) (auto simp: m merged_def has_key_def same_resource_def)
      then show ?thesis using False by simp
    qed
  next
    case (new i)
    have i: "i = stored_id fresh res" using new(2) by (simp add: stored_id_def)
    have m: "map_of (dsResources ?d) = (map_of (dsResources d))(i \<mapsto> res\<lparr>drID := i\<rparr>)"
      unfolding new(3) using assms(2) by simp
    have none: "resource_at d (drAccountID res) (drResourceID res) = None"
      unfolding resource_at_None[OF assms(1)]
    proof (intro allI impI)
      fix j r assume "map_of (dsResources d) j = Some r"
      from new(1)[OF this] show "\<not> has_key (drAccountID res) (drResourceID res) r" by (simp add: has_key_def same_resource_def)
    qed
    then have free: "map_of (dsResources d) i = None" using fresh i by simp
    show ?thesis
    proof (cases "has_key a rid res")
      case True
      have "resource_at ?d a rid = Some (res\<lparr>drID := i\<rparr>)"
        using True by (simp add: resource_at_iff[OF inv] m has_key_def)
      then show ?thesis using True none i by (simp add: upserted_def has_key_def)
    next
      case False
      have "resource_at ?d a rid = resource_at d a rid"
        using False free by (intro resource_at_eqI[OF assms(1) inv]) (auto simp: m has_key_def)
      then show ?thesis using False by simp
    qed
  qed
qed

definition staled :: "go_id \<Rightarrow> go_time \<Rightarrow> discovered_resource \<Rightarrow> discovered_resource" where
  "staled acct before r = (if goes_stale acct before r then r\<lparr>drStatus := DiscoveryStatusStale\<rparr> else r)"

lemma map_of_MarkStale:
  "map_of (dsResources (fst (MarkStaleResources d acct before))) i = map_option (staled acct before) (map_of (dsResources d) i)"
  using map_of_map_vals[of "\<lambda>_. staled acct before" "dsResources d" i]
  by (simp add: MarkStaleResources_def staled_def[abs_def])

lemma find_map_same: "(\<And>x. x \<in> set xs \<Longrightarrow> P (f x) = P x) \<Longrightarrow> List.find P (map f xs) = map_option f (List.find P xs)"
  by (induction xs) auto

lemma resource_at_MarkStale:
  "resource_at (fst (MarkStaleResources d acct before)) a rid = map_option (staled acct before) (resource_at d a rid)"
proof -
  have "map snd (dsResources (fst (MarkStaleResources d acct before))) = map (staled acct before) (map snd (dsResources d))"
    by (simp add: MarkStaleResources_def staled_def comp_def case_prod_beta)
  then show ?thesis
    unfolding resource_at_def by (simp only:, intro find_map_same) (auto simp: staled_def)
qed

subsection \<open>A sync run\<close>

lemma find_pages_returns:
  assumes "\<And>j. j * 1000 \<le> length xs \<Longrightarrow> \<exists>rs. fetch (int j + 1) = Some (rs, int (length xs)) \<and> (j * 1000 < length xs \<longrightarrow> rs \<noteq> [])"
    and "length xs < 2 ^ 61" "n * 1000 \<le> length xs"
  shows "find_pages fetch rid (int n + 1) \<noteq> None"
  using assms(3)
proof (induction "length xs - n * 1000" arbitrary: n rule: less_induct)
  case less
  obtain rs where rs: "fetch (int n + 1) = Some (rs, int (length xs))" using assms(1)[OF less(2)] by blast
  have w: "wrap64 ((int n + 1) * 1000) = int (Suc n * 1000)"
  proof -
    have "int (Suc n * 1000) < 2 ^ 63" using less(2) assms(2) by simp
    then have "wrap64 (int (Suc n * 1000)) = int (Suc n * 1000)" by (intro wrap64_id) simp_all
    moreover have "(int n + 1) * 1000 = int (Suc n * 1000)" by simp
    ultimately show ?thesis by (simp only:)
  qed
  have step: "find_pages fetch rid (int n + 1) = (case List.find (\<lambda>r. drResourceID r = rid) rs of
         Some r \<Rightarrow> Some (Some r)
       | None \<Rightarrow> if rs = [] \<or> length xs \<le> Suc n * 1000 then Some None else find_pages fetch rid (int (Suc n) + 1))"
    by (subst find_pages.simps) (simp only: rs w Option.bind.simps prod.case of_nat_le_iff int_Suc)
  show ?case
  proof (cases "length xs \<le> Suc n * 1000")
    case True
    then show ?thesis unfolding step by (simp split: option.split)
  next
    case False
    then have "find_pages fetch rid (int (Suc n) + 1) \<noteq> None" by (intro less(1)) auto
    then show ?thesis unfolding step by (auto split: option.split)
  qed
qed

lemma find_resource_returns:
  assumes "\<And>pg. map_order (ord pg)" "length (dsResources d) < 2 ^ 61"
  shows "findByAccountAndResourceID ord d acct rid \<noteq> None"
proof -
  let ?f = "no_filters :: discovery_filters"
  let ?xs = "filter (resource_matches acct no_filters) (map snd (dsResources d))"
  have m: "resource_matches acct (?f\<lparr>dfPage := pg, dfPageSize := 1000\<rparr>) = resource_matches acct ?f" for pg
    by (rule ext) (simp add: resource_matches_def no_filters_def)
  have len: "length ?xs < 2 ^ 61" 
    using assms(2) length_filter_le[of "resource_matches acct ?f" "map snd (dsResources d)"]
    by (simp only: length_map)
  have "\<exists>rs. ListDiscoveredResources (ord (int j + 1)) d acct (?f\<lparr>dfPage := int j + 1, dfPageSize := 1000\<rparr>) =
        Some (rs, int (length ?xs)) \<and> (j * 1000 < length ?xs \<longrightarrow> rs \<noteq> [])" if j: "j * 1000 \<le> length ?xs" for j
  proof -
    let ?S = "sort_key (\<lambda>r. - drDiscoveredAt r) (ord (int j + 1) ?xs)"
    have l: "length ?S = length ?xs" using map_order_length[OF assms(1)] by simp
    have "list_page 50 (int j + 1) (int 1000) ?S = Some (take 1000 (drop (j * 1000) ?S))"
    proof (rule list_page_window)
      show "length ?S < 2 ^ 62" using len unfolding l by simp
      show "j * 1000 < 2 ^ 62" using le_less_trans[OF j len] by simp
    qed simp_all
    then have "ListDiscoveredResources (ord (int j + 1)) d acct (?f\<lparr>dfPage := int j + 1, dfPageSize := 1000\<rparr>) =
        Some (map cloneDiscoveredResource (take 1000 (drop (j * 1000) ?S)), int (length ?xs))"
      by (simp add: ListDiscoveredResources_def m)
    moreover have "take 1000 (drop (j * 1000) ?S) \<noteq> []" if "j * 1000 < length ?xs" using that l by simp
    ultimately show ?thesis by simp
  qed
  from find_pages_returns[OF this len, of 0 rid] show ?thesis
    unfolding findByAccountAndResourceID_def by simp
qed

text \<open>The resources of a run, seen at least at its start, of one account, with fresh ids and no provider id
  twice.\<close>

definition run_ok :: "disc_store \<Rightarrow> go_id \<Rightarrow> discovered_resource list \<Rightarrow> bool" where
  "run_ok d acct rs \<longleftrightarrow> (\<forall>r \<in> set rs. drAccountID r = acct \<and> tags_ok (drMetadata r) \<and> drID r \<noteq> uuid_Nil
       \<and> map_of (dsResources d) (drID r) = None)
     \<and> distinct (map drID rs) \<and> distinct (map drResourceID rs)"

definition run_effect :: "disc_store \<Rightarrow> go_id \<Rightarrow> discovered_resource list \<Rightarrow> go_id \<Rightarrow> string \<Rightarrow> discovered_resource option" where
  "run_effect d acct rs a rid = (case List.find (has_key a rid) rs of
     Some r \<Rightarrow> Some (upserted uuid_Nil (resource_at d a rid) r)
   | None \<Rightarrow> resource_at d a rid)"

lemma upserted_Nil: "drID r \<noteq> uuid_Nil \<Longrightarrow> upserted fresh old r = upserted uuid_Nil old r"
  by (simp add: upserted_def stored_id_def split: option.split)

lemma Upsert_keys:
  assumes "disc_inv d" "map_of (dsResources d) i = None" "i \<noteq> drID r" "drID r \<noteq> uuid_Nil"
  shows "map_of (dsResources (UpsertDiscoveredResource fresh d r)) i = None"
  using disc_invD(1)[OF assms(1)]
proof (cases rule: Upsert_cases[where res = r and fresh = fresh])
  case (old j q)
  then have "i \<noteq> j" using assms(2) by auto
  then show ?thesis unfolding old(3) using assms(2) by simp
next
  case (new j)
  then show ?thesis unfolding new(3) using assms(2-4) by simp
qed

lemma length_Upsert: "length (dsResources (UpsertDiscoveredResource fresh d r)) \<le> Suc (length (dsResources d))"
proof -
  have "length (gput k v m) \<le> Suc (length m)" for k :: uuid and v and m :: "(uuid, discovered_resource) gomap"
    by (induction m) auto
  then show ?thesis by (auto simp: UpsertDiscoveredResource_def Let_def split: option.split)
qed

lemma upsert_all_result:
  assumes "disc_inv d" "run_ok d acct rs" "\<And>j pg. map_order (ord j pg)" "length (dsResources d) + length rs < 2 ^ 61"
  shows "\<exists>d' c' u'. upsert_all ord fresh acct k rs (d, c, u) = Some (d', c', u') \<and> disc_inv d'
     \<and> c' + u' = c + u + int (length rs) \<and> (\<forall>a rid. resource_at d' a rid = run_effect d acct rs a rid)"
  using assms(1,2,4)
proof (induction rs arbitrary: d k c u)
  case Nil
  then show ?case by (simp add: run_effect_def)
next
  case (Cons r rs)
  let ?d = "UpsertDiscoveredResource (fresh k) d r"
  have r: "drAccountID r = acct" "tags_ok (drMetadata r)" "drID r \<noteq> uuid_Nil" "map_of (dsResources d) (drID r) = None"
    using Cons.prems(2) by (simp_all add: run_ok_def)
  have sid: "stored_id (fresh k) r = drID r" using r(3) by (simp add: stored_id_def)
  have inv: "disc_inv ?d" by (rule disc_inv_Upsert[OF Cons.prems(1) r(2)])
  have "map_of (dsResources ?d) (drID q) = None" if q: "q \<in> set rs" for q
  proof (rule Upsert_keys[OF Cons.prems(1) _ _ r(3)])
    show "map_of (dsResources d) (drID q) = None" using q Cons.prems(2) by (simp add: run_ok_def)
    have "drID q \<in> drID ` set rs" using q by (rule imageI)
    moreover have "drID r \<notin> drID ` set rs" using Cons.prems(2) by (simp add: run_ok_def)
    ultimately show "drID q \<noteq> drID r" by metis
  qed
  then have ok: "run_ok ?d acct rs" using Cons.prems(2) by (simp add: run_ok_def)
  have at: "resource_at ?d a rid = (if has_key a rid r then Some (upserted (fresh k) (resource_at d a rid) r) else resource_at d a rid)" for a rid
    by (rule resource_at_Upsert[OF Cons.prems(1) r(2)]) (simp add: sid r(4))
  have len: "length (dsResources ?d) + length rs < 2 ^ 61"
    using length_Upsert[of "fresh k" d r] Cons.prems(3) by simp
  have "length (dsResources d) < 2 ^ 61" using Cons.prems(3) by simp
  then obtain ex where ex: "findByAccountAndResourceID (ord k) d acct (drResourceID r) = Some ex"
    using find_resource_returns[of "ord k" d acct "drResourceID r"] assms(3) by blast
  obtain d' c' u' where IH: "upsert_all ord fresh acct (Suc k) rs (?d, if ex = None then c + 1 else c, if ex = None then u else u + 1) = Some (d', c', u')"
      "disc_inv d'" "c' + u' = (if ex = None then c + 1 else c) + (if ex = None then u else u + 1) + int (length rs)"
      "\<forall>a rid. resource_at d' a rid = run_effect ?d acct rs a rid"
    using Cons.IH[OF inv ok len] by blast
  have "run_effect ?d acct rs a rid = run_effect d acct (r # rs) a rid" for a rid
  proof (cases "has_key a rid r")
    case True
    have "\<not> has_key a rid q" if q: "q \<in> set rs" for q
    proof -
      have "drResourceID q \<in> drResourceID ` set rs" using q by (rule imageI)
      moreover have "drResourceID r \<notin> drResourceID ` set rs" using Cons.prems(2) by (simp add: run_ok_def)
      ultimately show ?thesis using True unfolding has_key_def by metis
    qed
    then have "List.find (has_key a rid) rs = None" by (auto simp: find_None_iff)
    then show ?thesis using True at[of a rid] upserted_Nil[OF r(3)] by (simp add: run_effect_def)
  next
    case False
    then show ?thesis using at[of a rid] by (simp add: run_effect_def split: option.split)
  qed
  then show ?case using IH ex by (auto split: if_splits)
qed

lemma run_effect_reported:
  assumes "run_ok d acct rs" "r \<in> set rs"
  shows "run_effect d acct rs acct (drResourceID r) = Some (upserted uuid_Nil (resource_at d acct (drResourceID r)) r)"
proof -
  have k: "has_key acct (drResourceID r) r" using assms by (simp add: run_ok_def has_key_def)
  obtain q where q: "List.find (has_key acct (drResourceID r)) rs = Some q"
    using find_ex[OF assms(2), of "has_key acct (drResourceID r)"] k by blast
  have "q \<in> set rs" "drResourceID q = drResourceID r"
    using find_Some_mem[OF q] by (simp_all add: has_key_def)
  then have "q = r" using assms by (simp add: run_ok_def distinct_map inj_on_def)
  then show ?thesis by (simp add: run_effect_def q)
qed

text \<open>C16: a sync run refreshes what it saw and marks the rest stale. For a reachable store and a run over
  an account whose resources have fresh ids and no provider id twice, and were seen since the run
  started, \<open>ProcessResources\<close> returns; it counts every resource as created or as updated; a resource
  that it saw is stored as reported, under the id, the pool link and the discovery time it had if it
  was known; any other resource is unchanged, except that an active one of the account that was not seen
  since the start of the run becomes stale. No resource is lost.\<close>

theorem sync_refreshes_account:
  assumes "disc_reachable d" "run_ok d acct rs" "\<forall>r \<in> set rs. syncTime \<le> drLastSeenAt r"
    "\<And>j pg. map_order (ord j pg)" "length (dsResources d) + length rs < 2 ^ 61"
  shows "\<exists>d' created updated stale. ProcessResources ord fresh d acct rs syncTime = Some (d', created, updated, stale)
    \<and> created + updated = int (length rs)
    \<and> (\<forall>r \<in> set rs. resource_at d' acct (drResourceID r) = Some (case resource_at d acct (drResourceID r) of
           None \<Rightarrow> r | Some old \<Rightarrow> merged old (drID old) r))
    \<and> (\<forall>a rid. \<not> list_ex (has_key a rid) rs \<longrightarrow>
           resource_at d' a rid = map_option (staled acct syncTime) (resource_at d a rid))"
proof -
  have inv: "disc_inv d" by (rule disc_reachable_inv[OF assms(1)])
  obtain d1 c u where d1: "upsert_all ord fresh acct 0 rs (d, 0, 0) = Some (d1, c, u)" "disc_inv d1"
      "c + u = int (length rs)" "\<forall>a rid. resource_at d1 a rid = run_effect d acct rs a rid"
    using upsert_all_result[where ord = ord, OF inv assms(2,4,5), of fresh 0 0 0] by auto
  obtain n where n: "ProcessResources ord fresh d acct rs syncTime = Some (fst (MarkStaleResources d1 acct syncTime), c, u, n)"
    by (simp add: ProcessResources_def d1(1) case_prod_beta)
  have at: "resource_at (fst (MarkStaleResources d1 acct syncTime)) a rid = map_option (staled acct syncTime) (run_effect d acct rs a rid)" for a rid
    by (simp add: resource_at_MarkStale d1(4))
  show ?thesis
  proof (intro exI conjI ballI allI impI)
    show "ProcessResources ord fresh d acct rs syncTime = Some (fst (MarkStaleResources d1 acct syncTime), c, u, n)" by (rule n)
    show "c + u = int (length rs)" by (rule d1(3))
    fix r assume r: "r \<in> set rs"
    then have k: "drID r \<noteq> uuid_Nil" using assms(2) by (simp add: run_ok_def)
    note run_effect_reported[OF assms(2) r]
    moreover have "upserted uuid_Nil (resource_at d acct (drResourceID r)) r = (case resource_at d acct (drResourceID r) of
           None \<Rightarrow> r | Some old \<Rightarrow> merged old (drID old) r)"
      using k by (simp add: upserted_def stored_id_def split: option.split)
    moreover have "staled acct syncTime (case resource_at d acct (drResourceID r) of
           None \<Rightarrow> r | Some old \<Rightarrow> merged old (drID old) r) = (case resource_at d acct (drResourceID r) of
           None \<Rightarrow> r | Some old \<Rightarrow> merged old (drID old) r)"
      using bspec[OF assms(3) r] by (simp add: staled_def goes_stale_def merged_def split: option.split)
    ultimately show "resource_at (fst (MarkStaleResources d1 acct syncTime)) acct (drResourceID r) = Some (case resource_at d acct (drResourceID r) of
           None \<Rightarrow> r | Some old \<Rightarrow> merged old (drID old) r)"
      by (simp add: at)
  next
    fix a rid assume "\<not> list_ex (has_key a rid) rs"
    then have "List.find (has_key a rid) rs = None" by (auto simp: find_None_iff list_ex_iff)
    then show "resource_at (fst (MarkStaleResources d1 acct syncTime)) a rid = map_option (staled acct syncTime) (resource_at d a rid)"
      by (simp add: at run_effect_def)
  qed
qed

definition demo_resource :: "uuid \<Rightarrow> string \<Rightarrow> string \<Rightarrow> go_time \<Rightarrow> discovered_resource" where
  "demo_resource i rid c seen = \<lparr>drID = i, drAccountID = 1, drProvider = ''aws'', drRegion = ''r'', drResourceType = ResourceTypeVPC,
     drResourceID = rid, drName = ''n'', drCIDR = c, drParentResourceID = None, drPoolID = None,
     drStatus = DiscoveryStatusActive, drMetadata = None, drDiscoveredAt = seen, drLastSeenAt = seen\<rparr>"

text \<open>A store that knows two resources of account 1, the first linked to pool 7.\<close>

definition demo_disc :: disc_store where
  "demo_disc = UpsertDiscoveredResource 0 (UpsertDiscoveredResource 0 NewMemoryDiscoveryStore
     ((demo_resource 1 ''vpc-1'' ''10.1.0.0/16'' 5)\<lparr>drPoolID := Some 7\<rparr>)) (demo_resource 2 ''vpc-2'' ''10.2.0.0/16'' 5)"

lemma demo_disc_reachable: "disc_reachable demo_disc"
  unfolding demo_disc_def
  by (intro disc_reachable.step[OF _ disc_step.upsert] disc_reachable.init) (simp_all add: demo_resource_def tags_ok_def)

definition demo_run :: "discovered_resource list" where
  "demo_run = [demo_resource 3 ''vpc-1'' ''10.1.0.0/16'' 9, demo_resource 4 ''vpc-3'' ''10.3.0.0/16'' 9]"

lemma demo_run_ok: "run_ok demo_disc 1 demo_run"
  unfolding run_ok_def by code_simp

theorem sync_refreshes_account_witness:
  "\<exists>d' created updated stale. ProcessResources (\<lambda>_ _. rev) (\<lambda>_. 0) demo_disc 1 demo_run 8 = Some (d', created, updated, stale)
    \<and> resource_at d' 1 ''vpc-2'' = Some ((demo_resource 2 ''vpc-2'' ''10.2.0.0/16'' 5)\<lparr>drStatus := DiscoveryStatusStale\<rparr>)"
proof -
  have "\<forall>r \<in> set demo_run. 8 \<le> drLastSeenAt r" by code_simp
  moreover have "length (dsResources demo_disc) + length demo_run = 4" by code_simp
  then have "length (dsResources demo_disc) + length demo_run < 2 ^ 61" by simp
  ultimately obtain d' c u n where p: "ProcessResources (\<lambda>_ _. rev) (\<lambda>_. 0) demo_disc 1 demo_run 8 = Some (d', c, u, n)"
    and q: "\<forall>a rid. \<not> list_ex (has_key a rid) demo_run \<longrightarrow> resource_at d' a rid = map_option (staled 1 8) (resource_at demo_disc a rid)"
    using sync_refreshes_account[OF demo_disc_reachable demo_run_ok, of 8 "\<lambda>_ _. rev" "\<lambda>_. 0"] map_order_id(2) by blast
  have "\<not> list_ex (has_key 1 ''vpc-2'') demo_run" unfolding has_key_def by code_simp
  moreover have "map_option (staled 1 8) (resource_at demo_disc 1 ''vpc-2'') =
      Some ((demo_resource 2 ''vpc-2'' ''10.2.0.0/16'' 5)\<lparr>drStatus := DiscoveryStatusStale\<rparr>)" by code_simp
  ultimately show ?thesis using p q by auto
qed

subsection \<open>Ingest\<close>

lemma ProcessResources_stale:
  assumes "ProcessResources ord fresh d acct rs t = Some (d', c, u, n)" "resource_at d' acct rid = Some q"
    "drStatus q = DiscoveryStatusActive"
  shows "t \<le> drLastSeenAt q"
proof -
  obtain d1 where d1: "d' = fst (MarkStaleResources d1 acct t)"
    using assms(1) by (auto simp: ProcessResources_def case_prod_beta)
  then obtain p where p: "resource_at d1 acct rid = Some p" "q = staled acct t p"
    using assms(2) by (auto simp: resource_at_MarkStale)
  then have "drAccountID p = acct" using find_Some_mem[of _ _ p] by (auto simp: resource_at_def)
  then show ?thesis using p(2) assms(3) by (auto simp: staled_def goes_stale_def DiscoveryStatusActive_def DiscoveryStatusStale_def split: if_splits)
qed

lemma resource_at_UpdateSyncJob [simp]: "resource_at (fst (UpdateSyncJob d j)) a rid = resource_at d a rid"
  by (simp add: UpdateSyncJob_def resource_at_def split: option.split)

lemma ingest_job_inv:
  assumes "disc_inv d" "ingest_job env d acct req = Inr (d1, job)"
  shows "disc_inv d1" "dsResources d1 = dsResources d"
  using assms disc_inv_jobs_ops(1)[OF assms(1)]
  by (auto simp: ingest_job_def CreateSyncJob_def Let_def split: option.splits sum.splits)

text \<open>The outcome of an ingest for an account that exists.\<close>

lemma handleIngest_result:
  assumes "rqMethod rq = ''POST''" "1 \<le> iqAccountID req" "opGetAccount ops s (iqAccountID req) = Inr (Some acct)"
    "iqSyncJobID req = None" "disc_inv d" "run_ok d (accID acct) (iqResources req)"
    "\<And>j pg. map_order (deOrd env j pg)" "length (dsResources d) + length (iqResources req) < 2 ^ 61"
  shows "\<exists>d' resp. handleIngest env ops rq (Some req) s d = Some (d', RespJSON 200 resp)
    \<and> (\<forall>a rid. resource_at d' a rid = map_option (staled (accID acct) (deNow env)) (run_effect d (accID acct) (iqResources req) a rid))"
proof -
  obtain d1 job where j: "ingest_job env d acct req = Inr (d1, job)"
    using assms(4) by (cases "CreateSyncJob (deUUID env (0, 0)) (deNow env) d
       (new_job (deUUID env (0, 0)) (accID acct) SyncJobStatusRunning ''agent'' (iqAgentID req) (Some (deNow env)) (deNow env))")
      (simp add: ingest_job_def)
  note d1 = ingest_job_inv[OF assms(5) j]
  have ok: "run_ok d1 (accID acct) (iqResources req)" using assms(6) by (simp add: run_ok_def d1(2))
  have at: "resource_at d1 = resource_at d" by (intro ext) (simp add: resource_at_def d1(2))
  have eff: "run_effect d1 a rs = run_effect d a rs" for a rs
    unfolding run_effect_def[abs_def] at by (rule refl)
  obtain d2 c u where d2: "upsert_all (\<lambda>k. deOrd env (1, k)) (\<lambda>k. deUUID env (1, k)) (accID acct) 0 (iqResources req) (d1, 0, 0) = Some (d2, c, u)"
      "\<forall>a rid. resource_at d2 a rid = run_effect d1 (accID acct) (iqResources req) a rid"
    using upsert_all_result[OF d1(1) ok, of "\<lambda>k. deOrd env (1, k)" "\<lambda>k. deUUID env (1, k)" 0 0 0] assms(7,8) d1(2) by auto
  then show ?thesis
    using assms(1-3) j by (simp add: handleIngest_def ProcessResources_def case_prod_beta resource_at_MarkStale eff Let_def)
qed

text \<open>What an agent saw before it sent its report is stored as stale at once.\<close>

lemma ingested_before_arrival_is_stale:
  assumes "rqMethod rq = ''POST''" "1 \<le> iqAccountID req" "opGetAccount ops s (iqAccountID req) = Inr (Some acct)"
    "iqSyncJobID req = None" "disc_inv d" "run_ok d (accID acct) (iqResources req)"
    "\<And>j pg. map_order (deOrd env j pg)" "length (dsResources d) + length (iqResources req) < 2 ^ 61"
    and r: "r \<in> set (iqResources req)" "drStatus r = DiscoveryStatusActive" "drLastSeenAt r < deNow env"
  shows "\<exists>d' resp q. handleIngest env ops rq (Some req) s d = Some (d', RespJSON 200 resp)
    \<and> resource_at d' (accID acct) (drResourceID r) = Some q \<and> drStatus q = DiscoveryStatusStale"
proof -
  obtain d' resp where h: "handleIngest env ops rq (Some req) s d = Some (d', RespJSON 200 resp)"
      "\<forall>a rid. resource_at d' a rid = map_option (staled (accID acct) (deNow env)) (run_effect d (accID acct) (iqResources req) a rid)"
    using handleIngest_result[OF assms(1-8)] by blast
  have "drAccountID r = accID acct" using assms(6) r(1) by (simp add: run_ok_def)
  then have "drStatus (staled (accID acct) (deNow env) (upserted uuid_Nil old r)) = DiscoveryStatusStale" for old
    using r(2,3) by (simp add: staled_def goes_stale_def upserted_def merged_def split: option.split)
  then show ?thesis using h run_effect_reported[OF assms(6) r(1)] by simp
qed

text \<open>The account of the request does not bind the resources: a resource that names another account is
  stored there, over what that account's own discovery had stored.\<close>

lemma ingest_writes_the_account_a_resource_names:
  assumes "rqMethod rq = ''POST''" "1 \<le> iqAccountID req" "opGetAccount ops s (iqAccountID req) = Inr (Some acct)"
    "iqSyncJobID req = None" "disc_inv d" "\<And>j pg. map_order (deOrd env j pg)" "length (dsResources d) < 2 ^ 61"
    and r: "iqResources req = [r]" "tags_ok (drMetadata r)" "drID r \<noteq> uuid_Nil" "map_of (dsResources d) (drID r) = None"
      "drAccountID r \<noteq> accID acct"
  shows "\<exists>d' resp. handleIngest env ops rq (Some req) s d = Some (d', RespJSON 200 resp)
    \<and> resource_at d' (drAccountID r) (drResourceID r) =
        Some (upserted uuid_Nil (resource_at d (drAccountID r) (drResourceID r)) r)"
proof -
  obtain d1 job where j: "ingest_job env d acct req = Inr (d1, job)"
    using assms(4) by (cases "CreateSyncJob (deUUID env (0, 0)) (deNow env) d
       (new_job (deUUID env (0, 0)) (accID acct) SyncJobStatusRunning ''agent'' (iqAgentID req) (Some (deNow env)) (deNow env))")
      (simp add: ingest_job_def)
  note d1 = ingest_job_inv[OF assms(5) j]
  have at: "resource_at d1 = resource_at d" by (intro ext) (simp add: resource_at_def d1(2))
  obtain ex where ex: "findByAccountAndResourceID (deOrd env (1, 0)) d1 (accID acct) (drResourceID r) = Some ex"
    using find_resource_returns[of "deOrd env (1, 0)" d1 "accID acct" "drResourceID r"] assms(6,7) d1(2) by auto
  let ?d = "UpsertDiscoveredResource (deUUID env (1, 0)) d1 r"
  let ?a = "drAccountID r" and ?rid = "drResourceID r"
  have up: "resource_at ?d ?a ?rid = Some (upserted uuid_Nil (resource_at d ?a ?rid) r)"
    using resource_at_Upsert[OF d1(1) r(2), of "deUUID env (1, 0)" ?a ?rid] r(3,4) upserted_Nil[OF r(3), of "deUUID env (1, 0)"]
    by (simp add: stored_id_def d1(2) has_key_def at)
  have "drAccountID (upserted uuid_Nil old r) = ?a" for old
    by (simp add: upserted_def merged_def split: option.split)
  then have "map_option (staled (accID acct) (deNow env)) (resource_at ?d ?a ?rid) = resource_at ?d ?a ?rid"
    unfolding up using r(5) by (simp add: staled_def goes_stale_def)
  then have m: "resource_at (fst (MarkStaleResources ?d (accID acct) (deNow env))) ?a ?rid = resource_at ?d ?a ?rid"
    by (simp add: resource_at_MarkStale)
  show ?thesis
    using assms(1-3) j ex r(1) m up
    by (simp add: handleIngest_def ProcessResources_def case_prod_beta Let_def)
qed

text \<open>After an ingest every active resource of the account was last seen when the request arrived or
  later. So a resource that an agent saw before it sent its report, by a clock that agrees with the
  server's, is stored as stale at once.\<close>

theorem ingest_leaves_only_later_sightings_active:
  assumes "handleIngest env ops rq (Some req) s d = Some (d', RespJSON code resp)"
    "opGetAccount ops s (iqAccountID req) = Inr (Some acct)"
    "resource_at d' (accID acct) rid = Some q" "drStatus q = DiscoveryStatusActive"
  shows "deNow env \<le> drLastSeenAt q"
proof -
  obtain d1 job where j: "ingest_job env d acct req = Inr (d1, job)"
    using assms(1,2) by (auto simp: handleIngest_def writeErr_def method_not_allowed_def split: if_splits sum.splits)
  obtain d2 counts where p: "ProcessResources (\<lambda>k. deOrd env (1, k)) (\<lambda>k. deUUID env (1, k)) d1 (accID acct) (iqResources req) (deNow env) = Some (d2, counts)"
      "d' = fst (UpdateSyncJob d2 (finish_job (deLater env) (length (iqResources req)) counts job))"
    using assms(1,2) j by (auto simp: handleIngest_def writeErr_def method_not_allowed_def Let_def split: if_splits)
  obtain c u n where "counts = (c, u, n)" by (cases counts) auto
  with ProcessResources_stale[of "\<lambda>k. deOrd env (1, k)" "\<lambda>k. deUUID env (1, k)" d1 "accID acct" "iqResources req" "deNow env" d2 c u n rid q] p assms(3,4)
  show ?thesis by simp
qed

definition demo_accounts :: mstore where
  "demo_accounts = fst (CreateAccount 1 NewMemoryStore \<lparr>caKey = ''k'', caName = ''n'', caProvider = ''aws'', caExternalID = [],
     caDescription = [], caPlatform = [], caTier = [], caEnvironment = [], caRegions = None\<rparr>)"

definition demo_disc_env :: disc_env where
  "demo_disc_env = \<lparr>deNow = 8, deLater = 10, deUUID = (\<lambda>_. 99), deOrd = (\<lambda>_ _. rev), deJobOrd = rev, deAgentOrd = id,
     deParseUUID = (\<lambda>_. None), deCtx = \<lparr>ctxRole = RoleAdmin, ctxSession = None, ctxAPIKey = None, ctxUser = None\<rparr>\<rparr>"

definition demo_ingest :: ingest_request where
  "demo_ingest = \<lparr>iqAccountID = 1, iqResources = demo_run, iqAgentID = None, iqSyncJobID = None\<rparr>"

theorem ingest_leaves_only_later_sightings_active_witness:
  "\<exists>d' resp q. handleIngest demo_disc_env memory_ops \<lparr>rqMethod = ''POST'', rqPath = [], rqQuery = []\<rparr> (Some demo_ingest) demo_accounts demo_disc
        = Some (d', RespJSON 200 resp)
    \<and> resource_at d' 1 ''vpc-3'' = Some q \<and> drStatus q = DiscoveryStatusActive \<and> deNow demo_disc_env \<le> drLastSeenAt q"
proof -
  let ?rq = "\<lparr>rqMethod = ''POST'', rqPath = [], rqQuery = []\<rparr> :: http_request"
  have a: "map_option accID (GetAccount demo_accounts 1) = Some 1" by code_simp
  then obtain acct where acct: "opGetAccount memory_ops demo_accounts (iqAccountID demo_ingest) = Inr (Some acct)" "accID acct = 1"
    by (auto simp: demo_ingest_def)
  have len: "length (dsResources demo_disc) + length (iqResources demo_ingest) = 4" by code_simp
  have ok: "run_ok demo_disc (accID acct) (iqResources demo_ingest)"
    using demo_run_ok by (simp add: acct(2) demo_ingest_def)
  obtain d' resp where h: "handleIngest demo_disc_env memory_ops ?rq (Some demo_ingest) demo_accounts demo_disc = Some (d', RespJSON 200 resp)"
      "\<forall>a rid. resource_at d' a rid = map_option (staled (accID acct) (deNow demo_disc_env)) (run_effect demo_disc (accID acct) (iqResources demo_ingest) a rid)"
    using handleIngest_result[of ?rq demo_ingest memory_ops demo_accounts acct demo_disc demo_disc_env, OF _ _ acct(1) _ disc_reachable_inv[OF demo_disc_reachable] ok] len
    by (auto simp: demo_ingest_def demo_disc_env_def map_order_id)
  have "map_option (staled 1 8) (run_effect demo_disc 1 demo_run 1 ''vpc-3'') = Some (demo_resource 4 ''vpc-3'' ''10.3.0.0/16'' 9)"
    unfolding run_effect_def has_key_def by code_simp
  then have at: "resource_at d' 1 ''vpc-3'' = Some (demo_resource 4 ''vpc-3'' ''10.3.0.0/16'' 9)"
    using h(2) by (simp add: acct(2) demo_ingest_def demo_disc_env_def)
  have "drStatus (demo_resource 4 ''vpc-3'' ''10.3.0.0/16'' 9) = DiscoveryStatusActive" by (simp add: demo_resource_def)
  from ingest_leaves_only_later_sightings_active[OF h(1) acct(1), unfolded acct(2), OF at this] h(1) at this
  show ?thesis by blast
qed

subsection \<open>Agents\<close>

lemma UpsertAgent_jobs [simp]: "dsSyncJobs (UpsertAgent fresh now d a) = dsSyncJobs d"
  by (simp add: UpsertAgent_def Let_def)

text \<open>C19: a heartbeat hands out the agent's pending jobs one by one. When an agent reports in, the server
  answers with the oldest job that is pending for it, marks that job running (so no later heartbeat
  gets it) and changes no other job; it answers without a job only when none is pending for the
  agent. The agent is recorded as seen at that moment.\<close>

theorem heartbeat_hands_out_job_once:
  assumes "disc_reachable d" "map_order (deJobOrd env)"
    "handleAgentHeartbeat env rq (Some req) d = (d', RespJSON 200 resp)"
  shows "(\<exists>a. GetAgent d' (hbAgentID req) = Inr a \<and> agLastSeenAt a = deNow env)
    \<and> (case hrSyncJobID resp of
         None \<Rightarrow> (\<forall>i j. GetSyncJob d i = Inr j \<longrightarrow> \<not> claimable (hbAgentID req) j) \<and> GetSyncJob d' = GetSyncJob d
       | Some i \<Rightarrow> (\<exists>j. GetSyncJob d i = Inr j \<and> claimable (hbAgentID req) j \<and> hrAccountID resp = sjAccountID j
           \<and> (\<forall>k x. GetSyncJob d k = Inr x \<longrightarrow> claimable (hbAgentID req) x \<longrightarrow> sjCreatedAt j \<le> sjCreatedAt x)
           \<and> GetSyncJob d' = (GetSyncJob d)(i := Inr (j\<lparr>sjStatus := SyncJobStatusRunning, sjStartedAt := Some (deLater env)\<rparr>))))"
proof -
  have d: "disc_inv d" by (rule disc_reachable_inv[OF assms(1)])
  obtain k where k: "getAPIKeyIDFromContext (deCtx env) = Some k" and ne: "hbAgentID req \<noteq> uuid_Nil"
    and run: "(case ClaimPendingAgentSync (deJobOrd env) (deLater env)
        (UpsertAgent (deUUID env (0, 0)) (deLater env) d (heartbeat_agent env k req)) (hbAgentID req) of
           (d, Inl e) \<Rightarrow> (d, RespJSON 200 \<lparr>hrStatus = ''ok'', hrSyncJobID = None, hrAccountID = 0\<rparr>)
         | (d, Inr j) \<Rightarrow> (d, RespJSON 200 \<lparr>hrStatus = ''ok'', hrSyncJobID = Some (sjID j), hrAccountID = sjAccountID j\<rparr>)) =
        (d', RespJSON 200 resp :: heartbeat_response http_response)"
    using assms(3) by (auto simp: handleAgentHeartbeat_def writeErr_def method_not_allowed_def Let_def split: if_splits option.splits)
  define e where "e = UpsertAgent (deUUID env (0, 0)) (deLater env) d (heartbeat_agent env k req)"
  have e: "disc_inv e" unfolding e_def by (rule disc_inv_jobs_ops(4)[OF d])
  have ej: "dsSyncJobs e = dsSyncJobs d" by (simp add: e_def)
  have ea: "\<exists>a. map_of (dsAgents e) (hbAgentID req) = Some a \<and> agLastSeenAt a = deNow env"
    using ne by (auto simp: e_def UpsertAgent_def heartbeat_agent_def Let_def split: option.split)
  have get: "GetSyncJob d i = Inr j \<longleftrightarrow> map_of (dsSyncJobs e) i = Some j" for i j
    by (simp add: GetSyncJob_def ej split: option.split)
  from e assms(2) show ?thesis
  proof (cases rule: claim_cases[where agent = "hbAgentID req" and now = "deLater env"])
    case none
    then have r: "d' = e" "hrSyncJobID resp = None" using run by (auto simp: e_def[symmetric])
    have "\<not> claimable (hbAgentID req) j" if "GetSyncJob d i = Inr j" for i j using none(1) that by (simp add: get)
    moreover have "GetSyncJob d' = GetSyncJob d" by (rule ext) (simp add: r(1) GetSyncJob_def ej)
    ultimately show ?thesis using ea r by (simp add: GetAgent_def) fastforce
  next
    case (claimed i j)
    let ?j = "j\<lparr>sjStatus := SyncJobStatusRunning, sjStartedAt := Some (deLater env)\<rparr>"
    have r: "d' = e\<lparr>dsSyncJobs := gput i ?j (dsSyncJobs e)\<rparr>" "hrSyncJobID resp = Some i" "hrAccountID resp = sjAccountID j"
      using run claimed(2,5) by (auto simp: e_def[symmetric])
    have j: "GetSyncJob d i = Inr j" using claimed(1) by (simp add: get)
    moreover have "GetSyncJob d' = (GetSyncJob d)(i := Inr ?j)"
      by (rule ext) (simp add: r(1) GetSyncJob_def ej)
    moreover have "sjCreatedAt j \<le> sjCreatedAt x" if "GetSyncJob d k = Inr x" "claimable (hbAgentID req) x" for k x
      using claimed(4)[of k x] that by (simp add: get)
    moreover have "\<exists>a. GetAgent d' (hbAgentID req) = Inr a \<and> agLastSeenAt a = deNow env"
      using ea r(1) by (auto simp: GetAgent_def)
    ultimately show ?thesis using claimed(3) r by auto
  qed
qed

definition demo_key :: api_key where
  "demo_key = \<lparr>keyID = ''k1'', keyPrefix = [], keyName = ''agent'', keyHash = None, keySalt = None, keyScopes = None, keyOwnerID = None,
     keyCreatedAt = 0, keyExpiresAt = None, keyLastUsedAt = None, keyRevoked = False\<rparr>"

definition demo_disc_jobs :: disc_store where
  "demo_disc_jobs = fst (CreateSyncJob 0 0 (fst (CreateSyncJob 0 0 NewMemoryDiscoveryStore
     (new_job 1 1 SyncJobStatusPending ''agent'' (Some 5) None 7))) (new_job 2 1 SyncJobStatusPending ''agent'' (Some 5) None 6))"

definition demo_heartbeat :: heartbeat_request where
  "demo_heartbeat = \<lparr>hbAgentID = 5, hbName = ''a'', hbAccountID = 1, hbVersion = [], hbHostname = []\<rparr>"

theorem heartbeat_hands_out_job_once_witness:
  "\<exists>d' resp j. handleAgentHeartbeat (demo_disc_env\<lparr>deCtx := \<lparr>ctxRole = RoleAdmin, ctxSession = None, ctxAPIKey = Some demo_key, ctxUser = None\<rparr>\<rparr>)
       \<lparr>rqMethod = ''POST'', rqPath = [], rqQuery = []\<rparr> (Some demo_heartbeat) demo_disc_jobs = (d', RespJSON 200 resp)
     \<and> hrSyncJobID resp = Some 2 \<and> GetSyncJob d' 2 = Inr j \<and> sjStatus j = SyncJobStatusRunning"
proof -
  let ?env = "demo_disc_env\<lparr>deCtx := \<lparr>ctxRole = RoleAdmin, ctxSession = None, ctxAPIKey = Some demo_key, ctxUser = None\<rparr>\<rparr>"
  let ?rq = "\<lparr>rqMethod = ''POST'', rqPath = [], rqQuery = []\<rparr> :: http_request"
  have r: "disc_reachable demo_disc_jobs"
    unfolding demo_disc_jobs_def by (intro disc_reachable.step[OF _ disc_step.create_job] disc_reachable.init)
  have "snd (handleAgentHeartbeat ?env ?rq (Some demo_heartbeat) demo_disc_jobs) =
      RespJSON 200 \<lparr>hrStatus = ''ok'', hrSyncJobID = Some 2, hrAccountID = 1\<rparr>" by code_simp
  then obtain d' where h: "handleAgentHeartbeat ?env ?rq (Some demo_heartbeat) demo_disc_jobs =
      (d', RespJSON 200 \<lparr>hrStatus = ''ok'', hrSyncJobID = Some 2, hrAccountID = 1\<rparr>)"
    by (cases "handleAgentHeartbeat ?env ?rq (Some demo_heartbeat) demo_disc_jobs") auto
  have "map_order (deJobOrd ?env)" by (simp add: demo_disc_env_def map_order_id)
  from heartbeat_hands_out_job_once[OF r this h] h show ?thesis by auto
qed

end
