(* ===== verification/Drift.thy ===== *)
theory Drift
  imports Discovery Http
begin

section \<open>Drift detection (internal/discovery/drift.go, storage/drift_memory.go, api/drift_handlers.go)\<close>

text \<open>
  \<open>MemoryDriftStore\<close>, \<open>DriftDetector.Detect\<close> over the pool store and the discovery store, and the
  handlers of the drift API. \<open>uid n\<close> is the text of the n-th UUID that a detection draws; \<open>ords\<close> gives
  the iteration orders, per account and page. The descriptions of the items are left out. The outer
  option of a result is \<open>None\<close> for a panic, or a loop over pages that does not return.
\<close>

subsection \<open>Data\<close>

definition DriftTypeUnmanaged :: string where "DriftTypeUnmanaged = ''unmanaged''"
definition DriftTypeCIDRMismatch :: string where "DriftTypeCIDRMismatch = ''cidr_mismatch''"
definition DriftTypeOrphanedPool :: string where "DriftTypeOrphanedPool = ''orphaned_pool''"
definition DriftSeverityCritical :: string where "DriftSeverityCritical = ''critical''"
definition DriftSeverityWarning :: string where "DriftSeverityWarning = ''warning''"
definition DriftSeverityInfo :: string where "DriftSeverityInfo = ''info''"
definition DriftStatusOpen :: string where "DriftStatusOpen = ''open''"
definition DriftStatusResolved :: string where "DriftStatusResolved = ''resolved''"
definition DriftStatusIgnored :: string where "DriftStatusIgnored = ''ignored''"

record drift_item =
  diID :: string
  diAccountID :: go_id
  diResourceID :: "uuid option"
  diPoolID :: "go_id option"
  diType :: string
  diSeverity :: string
  diStatus :: string
  diTitle :: string
  diResourceCIDR :: string
  diPoolCIDR :: string
  diDetails :: tags
  diIgnoreReason :: string
  diResolvedAt :: "go_time option"
  diDetectedAt :: go_time
  diUpdatedAt :: go_time

record drift_filters =
  dfiAccountID :: go_id
  dfiType :: string
  dfiSeverity :: string
  dfiStatus :: string
  dfiPage :: int
  dfiPageSize :: int

record drift_summary =
  dsTotalDrifts :: int
  dsBySeverity :: "(string, int) gomap"
  dsByType :: "(string, int) gomap"
  dsAccountsScanned :: int
  dsResourcesScanned :: int
  dsPoolsScanned :: int

record run_response =
  rrItems :: "drift_item list"
  rrTotal :: int
  rrSummary :: drift_summary

type_synonym drift_store = "(string, drift_item) gomap"

subsection \<open>The store\<close>

definition cloneDriftItem :: "drift_item \<Rightarrow> drift_item" where
  "cloneDriftItem x = x\<lparr>diDetails := cloneStringStringMap (diDetails x)\<rparr>"

definition CreateDriftItem :: "drift_store \<Rightarrow> drift_item \<Rightarrow> drift_store" where
  "CreateDriftItem m x = gput (diID x) (cloneDriftItem x) m"

definition GetDriftItem :: "drift_store \<Rightarrow> string \<Rightarrow> go_error + drift_item" where
  "GetDriftItem m i = (case map_of m i of None \<Rightarrow> Inl ErrNotFound | Some x \<Rightarrow> Inr (cloneDriftItem x))"

definition drift_matches :: "drift_filters \<Rightarrow> drift_item \<Rightarrow> bool" where
  "drift_matches f x = (\<not> (dfiAccountID f \<noteq> 0 \<and> diAccountID x \<noteq> dfiAccountID f)
     \<and> \<not> (dfiType f \<noteq> [] \<and> diType x \<noteq> dfiType f)
     \<and> \<not> (dfiSeverity f \<noteq> [] \<and> diSeverity x \<noteq> dfiSeverity f)
     \<and> \<not> (dfiStatus f \<noteq> [] \<and> diStatus x \<noteq> dfiStatus f))"

definition ListDriftItems :: "drift_item order \<Rightarrow> drift_store \<Rightarrow> drift_filters \<Rightarrow> (drift_item list \<times> int) option" where
  "ListDriftItems ord m f =
     (let filtered = filter (drift_matches f) (map snd m);
          sorted' = sort_key (\<lambda>x. - diDetectedAt x) (ord filtered)
      in map_option (\<lambda>page'. (map cloneDriftItem page', int (length filtered)))
           (list_page 50 (dfiPage f) (dfiPageSize f) sorted'))"

definition UpdateDriftStatus ::
    "go_time \<Rightarrow> drift_store \<Rightarrow> string \<Rightarrow> string \<Rightarrow> string \<Rightarrow> drift_store \<times> go_error option" where
  "UpdateDriftStatus now m i status reason = (case map_of m i of
     None \<Rightarrow> (m, Some ErrNotFound)
   | Some x \<Rightarrow>
       let x = x\<lparr>diStatus := status, diIgnoreReason := reason, diUpdatedAt := now\<rparr>;
           x = (if status = DriftStatusResolved then x\<lparr>diResolvedAt := Some now\<rparr> else x)
       in (gput i x m, None))"

definition UpdateDriftDetails ::
    "go_time \<Rightarrow> drift_store \<Rightarrow> string \<Rightarrow> (string, string) gomap \<Rightarrow> drift_store \<times> go_error option" where
  "UpdateDriftDetails now m i details = (case map_of m i of
     None \<Rightarrow> (m, Some ErrNotFound)
   | Some x \<Rightarrow>
       let old = (case diDetails x of None \<Rightarrow> [] | Some t \<Rightarrow> t);
           new = fold (\<lambda>(k, v). gput k v) details old
       in (gput i (x\<lparr>diDetails := Some new, diUpdatedAt := now\<rparr>) m, None))"

definition open_for :: "go_id \<Rightarrow> drift_item \<Rightarrow> bool" where
  "open_for acct x = (diAccountID x = acct \<and> diStatus x = DriftStatusOpen)"

definition DeleteOpenForAccount :: "drift_store \<Rightarrow> go_id \<Rightarrow> drift_store" where
  "DeleteOpenForAccount m acct = filter (\<lambda>(_, x). \<not> open_for acct x) m"

subsection \<open>The detector\<close>

text \<open>\<open>netip.Prefix\<close> values are compared with \<open>==\<close>.\<close>

definition cidrsEqual :: "string \<Rightarrow> string \<Rightarrow> bool" where
  "cidrsEqual a b = (case (parsePrefix a, parsePrefix b) of
     (Some pa, Some pb) \<Rightarrow> masked pa = masked pb
   | _ \<Rightarrow> a = b)"

definition new_drift :: "go_time \<Rightarrow> go_id \<Rightarrow> string \<Rightarrow> string \<Rightarrow> string \<Rightarrow> drift_item" where
  "new_drift now acct type' severity title =
     \<lparr>diID = [], diAccountID = acct, diResourceID = None, diPoolID = None, diType = type', diSeverity = severity,
      diStatus = DriftStatusOpen, diTitle = title, diResourceCIDR = [], diPoolCIDR = [], diDetails = None,
      diIgnoreReason = [], diResolvedAt = None, diDetectedAt = now, diUpdatedAt = now\<rparr>"

definition unmanaged_drift :: "go_time \<Rightarrow> go_id \<Rightarrow> discovered_resource \<Rightarrow> drift_item" where
  "unmanaged_drift now acct res =
     (let severity = (if drResourceType res = ResourceTypeNetworkInterface \<or> drResourceType res = ResourceTypeElasticIP
                      then DriftSeverityInfo else DriftSeverityWarning)
      in (new_drift now acct DriftTypeUnmanaged severity (''Unmanaged '' @ drResourceType res @ '': '' @ drName res))
         \<lparr>diResourceID := Some (drID res), diResourceCIDR := drCIDR res,
          diDetails := Some [(''resource_type'', drResourceType res), (''region'', drRegion res), (''provider'', drProvider res)]\<rparr>)"

definition mismatch_drift :: "go_time \<Rightarrow> go_id \<Rightarrow> discovered_resource \<Rightarrow> pool \<Rightarrow> drift_item" where
  "mismatch_drift now acct res p =
     (new_drift now acct DriftTypeCIDRMismatch DriftSeverityCritical (''CIDR mismatch: '' @ drCIDR res @ '' vs '' @ poolCIDR p))
       \<lparr>diResourceID := Some (drID res), diPoolID := Some (poolID p), diResourceCIDR := drCIDR res,
        diPoolCIDR := poolCIDR p, diDetails := Some [(''resource_id'', drResourceID res), (''pool_name'', poolName p)]\<rparr>"

definition orphan_drift :: "go_time \<Rightarrow> go_id \<Rightarrow> pool \<Rightarrow> drift_item" where
  "orphan_drift now acct p =
     (new_drift now acct DriftTypeOrphanedPool DriftSeverityWarning (''Orphaned pool: '' @ poolName p))
       \<lparr>diPoolID := Some (poolID p), diPoolCIDR := poolCIDR p, diDetails := Some [(''pool_name'', poolName p)]\<rparr>"

text \<open>What the first pass finds at a resource, and the second at a pool.\<close>

definition resource_drift ::
    "'s store_ops \<Rightarrow> 's \<Rightarrow> go_time \<Rightarrow> go_id \<Rightarrow> discovered_resource \<Rightarrow> go_error + drift_item option" where
  "resource_drift ops s now acct res =
     (if drCIDR res = [] then Inr None
      else case drPoolID res of
        None \<Rightarrow> Inr (Some (unmanaged_drift now acct res))
      | Some i \<Rightarrow> (case opGetPool ops s i of
          Inl e \<Rightarrow> Inl (wrapf (''get pool '' @ itoa_int i) e)
        | Inr None \<Rightarrow> Inr None
        | Inr (Some p) \<Rightarrow>
            if \<not> cidrsEqual (drCIDR res) (poolCIDR p) then Inr (Some (mismatch_drift now acct res p)) else Inr None))"

definition pool_drift :: "go_time \<Rightarrow> go_id \<Rightarrow> discovered_resource list \<Rightarrow> pool \<Rightarrow> drift_item option" where
  "pool_drift now acct resources p =
     (if poolSource p \<noteq> PoolSourceDiscovered then None
      else if list_ex (\<lambda>r. drPoolID r = Some (poolID p)) resources then None
      else Some (orphan_drift now acct p))"

text \<open>An item gets its UUID, is stored and appended to the run's items.\<close>

type_synonym drift_state = "drift_store \<times> drift_item list"

definition record_drift :: "(nat \<Rightarrow> string) \<Rightarrow> drift_item \<Rightarrow> drift_state \<Rightarrow> drift_state" where
  "record_drift uid x st =
     (let x = x\<lparr>diID := uid (length (snd st))\<rparr> in (CreateDriftItem (fst st) x, snd st @ [x]))"

fun resource_pass :: "(nat \<Rightarrow> string) \<Rightarrow> 's store_ops \<Rightarrow> 's \<Rightarrow> go_time \<Rightarrow> go_id \<Rightarrow> discovered_resource list \<Rightarrow>
    drift_state \<Rightarrow> drift_state \<times> go_error option" where
  "resource_pass uid ops s now acct [] st = (st, None)"
| "resource_pass uid ops s now acct (r # rs) st = (case resource_drift ops s now acct r of
     Inl e \<Rightarrow> (st, Some e)
   | Inr None \<Rightarrow> resource_pass uid ops s now acct rs st
   | Inr (Some x) \<Rightarrow> resource_pass uid ops s now acct rs (record_drift uid x st))"

fun pool_pass :: "(nat \<Rightarrow> string) \<Rightarrow> go_time \<Rightarrow> go_id \<Rightarrow> discovered_resource list \<Rightarrow> pool list \<Rightarrow>
    drift_state \<Rightarrow> drift_state" where
  "pool_pass uid now acct resources [] st = st"
| "pool_pass uid now acct resources (p # ps) st = (case pool_drift now acct resources p of
     None \<Rightarrow> pool_pass uid now acct resources ps st
   | Some x \<Rightarrow> pool_pass uid now acct resources ps (record_drift uid x st))"

definition listActiveResources ::
    "(int \<Rightarrow> discovered_resource order) \<Rightarrow> disc_store \<Rightarrow> go_id \<Rightarrow> discovered_resource list option" where
  "listActiveResources ords d acct =
     collect_pages (\<lambda>pg. ListDiscoveredResources (ords pg) d acct
        (no_filters\<lparr>dfStatus := DiscoveryStatusActive, dfPage := pg, dfPageSize := 1000\<rparr>)) 1 []"

text \<open>\<open>poolsByAccount[a]\<close>: the pools of an account, in the order of the listing.\<close>

definition poolsByAccount :: "pool list \<Rightarrow> go_id \<Rightarrow> pool list" where
  "poolsByAccount ps a = filter (\<lambda>p. poolAccountID p = Some a) ps"

fun account_pass :: "(nat \<Rightarrow> string) \<Rightarrow> (go_id \<Rightarrow> int \<Rightarrow> discovered_resource order) \<Rightarrow> 's store_ops \<Rightarrow> 's \<Rightarrow> disc_store \<Rightarrow>
    go_time \<Rightarrow> pool list \<Rightarrow> account list \<Rightarrow> drift_state \<Rightarrow> nat \<Rightarrow> (drift_state \<times> (go_error + nat)) option" where
  "account_pass uid ords ops s d now ps [] st scanned = Some (st, Inr scanned)"
| "account_pass uid ords ops s d now ps (acct # accts) st scanned =
     (let a = accID acct; st = (DeleteOpenForAccount (fst st) a, snd st) in
      case listActiveResources (ords a) d a of
        None \<Rightarrow> None
      | Some resources \<Rightarrow>
          (case resource_pass uid ops s now a resources st of
             (st, Some e) \<Rightarrow> Some (st, Inl e)
           | (st, None) \<Rightarrow>
               account_pass uid ords ops s d now ps accts
                 (pool_pass uid now a resources (poolsByAccount ps a) st) (scanned + length resources)))"

definition count_up :: "string \<Rightarrow> (string, int) gomap \<Rightarrow> (string, int) gomap" where
  "count_up k m = gput k (gget 0 m k + 1) m"

definition tally :: "('a \<Rightarrow> string) \<Rightarrow> 'a list \<Rightarrow> (string, int) gomap" where
  "tally f xs = fold (\<lambda>x. count_up (f x)) xs []"

definition buildSummary :: "drift_item list \<Rightarrow> int \<Rightarrow> int \<Rightarrow> int \<Rightarrow> drift_summary" where
  "buildSummary items accountsScanned resourcesScanned poolsScanned =
     \<lparr>dsTotalDrifts = int (length items), dsBySeverity = tally diSeverity items, dsByType = tally diType items,
      dsAccountsScanned = accountsScanned, dsResourcesScanned = resourcesScanned, dsPoolsScanned = poolsScanned\<rparr>"

definition target_accounts :: "go_id list \<Rightarrow> account list \<Rightarrow> account list" where
  "target_accounts ids accts = filter (\<lambda>a. ids = [] \<or> accID a \<in> set ids) accts"

definition Detect :: "(nat \<Rightarrow> string) \<Rightarrow> (go_id \<Rightarrow> int \<Rightarrow> discovered_resource order) \<Rightarrow> 's store_ops \<Rightarrow> go_time \<Rightarrow> 's \<Rightarrow>
    disc_store \<Rightarrow> drift_store \<Rightarrow> go_id list \<Rightarrow> (drift_store \<times> (go_error + run_response)) option" where
  "Detect uid ords ops now s d m ids = (case opListAccounts ops s of
     Inl e \<Rightarrow> Some (m, Inl (wrapf ''list accounts'' e))
   | Inr accts \<Rightarrow>
      (let targets = target_accounts ids accts in
       case opListPools ops s of
         Inl e \<Rightarrow> Some (m, Inl (wrapf ''list pools'' e))
       | Inr ps \<Rightarrow>
           map_option (\<lambda>((m, items), r). (m, case r of
               Inl e \<Rightarrow> Inl e
             | Inr scanned \<Rightarrow> Inr \<lparr>rrItems = items, rrTotal = int (length items),
                 rrSummary = buildSummary items (int (length targets)) (int scanned) (int (length ps))\<rparr>))
             (account_pass uid ords ops s d now ps targets (m, []) 0)))"

subsection \<open>The API\<close>

record drift_list_response =
  dlItems :: "drift_item list"
  dlTotal :: int
  dlPage :: int
  dlPageSize :: int
  dlSummary :: drift_summary

datatype drift_payload = PItem drift_item | PRun run_response | PDriftList drift_list_response

record drift_env =
  dvNow :: go_time
  dvUUIDs :: "nat \<Rightarrow> string"
  dvResOrds :: "go_id \<Rightarrow> int \<Rightarrow> discovered_resource order"
  dvItemOrds :: "nat \<Rightarrow> int \<Rightarrow> drift_item order"

definition handleDetect :: "drift_env \<Rightarrow> 's store_ops \<Rightarrow> http_request \<Rightarrow> go_id list option \<Rightarrow> 's \<Rightarrow> disc_store \<Rightarrow>
    drift_store \<Rightarrow> (drift_store \<times> drift_payload http_response) option" where
  "handleDetect env ops rq body s d m =
     (if rqMethod rq \<noteq> ''POST'' then Some (m, writeErr 405 ''method not allowed'' ''use POST'')
      else map_option (\<lambda>(m, r). (m, case r of Inl e \<Rightarrow> writeStoreErr e | Inr resp \<Rightarrow> RespJSON 200 (PRun resp)))
        (Detect (dvUUIDs env) (dvResOrds env) ops (dvNow env) s d m (case body of None \<Rightarrow> [] | Some ids \<Rightarrow> ids)))"

text \<open>The tallies over all pages, and the total the listing reports. Every page reports the same total.\<close>

definition summarizeDrift :: "(int \<Rightarrow> drift_item order) \<Rightarrow> drift_store \<Rightarrow> drift_filters \<Rightarrow> drift_summary option" where
  "summarizeDrift ords m f =
     (let all_pages = \<lparr>dfiAccountID = dfiAccountID f, dfiType = [], dfiSeverity = [], dfiStatus = dfiStatus f, dfiPage = 0, dfiPageSize = 1000\<rparr>
      in map_option (\<lambda>items. \<lparr>dsTotalDrifts = int (length (filter (drift_matches all_pages) (map snd m))),
             dsBySeverity = tally diSeverity items, dsByType = tally diType items,
             dsAccountsScanned = 0, dsResourcesScanned = 0, dsPoolsScanned = 0\<rparr>)
           (collect_pages (\<lambda>pg. ListDriftItems (ords pg) m (all_pages\<lparr>dfiPage := pg\<rparr>)) 1 []))"

text \<open>A page parameter that \<open>strconv.Atoi\<close> rejects is ignored.\<close>

definition lenient_int :: "string \<Rightarrow> int" where
  "lenient_int s = (case atoi_value s of (n, ok) \<Rightarrow> if ok then n else 0)"

definition drift_list_filters :: "http_request \<Rightarrow> drift_filters option" where
  "drift_list_filters rq =
     (let f = \<lparr>dfiAccountID = 0, dfiType = query_get rq ''type'', dfiSeverity = query_get rq ''severity'',
            dfiStatus = query_get rq ''status'', dfiPage = lenient_int (query_get rq ''page''),
            dfiPageSize = lenient_int (query_get rq ''page_size'')\<rparr>;
          a = query_get rq ''account_id''
      in if a = [] then Some f
         else map_option (\<lambda>n. f\<lparr>dfiAccountID := n\<rparr>) (parseInt64 a))"

definition handleDriftList :: "drift_env \<Rightarrow> http_request \<Rightarrow> drift_store \<Rightarrow> drift_payload http_response option" where
  "handleDriftList env rq m =
     (if rqMethod rq \<noteq> ''GET'' then Some (writeErr 405 ''method not allowed'' ''use GET'')
      else case drift_list_filters rq of
        None \<Rightarrow> Some (writeErr 400 ''invalid account_id'' [])
      | Some f \<Rightarrow>
          Option.bind (ListDriftItems (dvItemOrds env 0 0) m f) (\<lambda>(items, n).
            Option.bind (summarizeDrift (dvItemOrds env 1) m f) (\<lambda>summary.
              Some (RespJSON 200 (PDriftList \<lparr>dlItems = items, dlTotal = n,
                dlPage = (if dfiPage f < 1 then 1 else dfiPage f),
                dlPageSize = (if dfiPageSize f < 1 then 50 else dfiPageSize f), dlSummary = summary\<rparr>)))))"

definition drift_item_response :: "drift_store \<Rightarrow> string \<Rightarrow> drift_payload http_response" where
  "drift_item_response m i = (case GetDriftItem m i of Inl e \<Rightarrow> writeStoreErr e | Inr x \<Rightarrow> RespJSON 200 (PItem x))"

definition set_status :: "drift_env \<Rightarrow> drift_store \<Rightarrow> string \<Rightarrow> string \<Rightarrow> string \<Rightarrow> drift_store \<times> drift_payload http_response" where
  "set_status env m i status reason = (case UpdateDriftStatus (dvNow env) m i status reason of
     (m, Some e) \<Rightarrow> (m, writeStoreErr e)
   | (m, None) \<Rightarrow> (m, drift_item_response m i))"

definition handleResolve :: "drift_env \<Rightarrow> drift_store \<Rightarrow> string \<Rightarrow> drift_store \<times> drift_payload http_response" where
  "handleResolve env m i = set_status env m i DriftStatusResolved []"

definition handleIgnore :: "drift_env \<Rightarrow> string option \<Rightarrow> drift_store \<Rightarrow> string \<Rightarrow> drift_store \<times> drift_payload http_response" where
  "handleIgnore env body m i = set_status env m i DriftStatusIgnored (case body of None \<Rightarrow> [] | Some reason \<Rightarrow> reason)"

record drift_bodies =
  dbDetect :: "go_id list option"
  dbIgnore :: "string option"

definition handleDriftByID :: "drift_env \<Rightarrow> 's store_ops \<Rightarrow> http_request \<Rightarrow> drift_bodies \<Rightarrow> 's \<Rightarrow> disc_store \<Rightarrow>
    drift_store \<Rightarrow> (drift_store \<times> drift_payload http_response) option" where
  "handleDriftByID env ops rq body s d m =
     (let path = trim_prefix (rqPath rq) ''/api/v1/drift/'';
          (i, action) = (case split2 (CHR ''/'') path of None \<Rightarrow> (path, []) | Some p \<Rightarrow> p)
      in if path = ''detect'' then handleDetect env ops rq (dbDetect body) s d m
         else if i = [] then Some (m, writeErr 400 ''drift item id is required'' [])
         else if action = [] \<and> rqMethod rq = ''GET'' then Some (m, drift_item_response m i)
         else if action = ''resolve'' \<and> rqMethod rq = ''POST'' then Some (handleResolve env m i)
         else if action = ''ignore'' \<and> rqMethod rq = ''POST'' then Some (handleIgnore env (dbIgnore body) m i)
         else Some (m, method_not_allowed))"

end
