(* ===== verification/DriftProps.thy ===== *)
theory DriftProps
  imports Drift DiscoveryProps StoreProps
begin

section \<open>Properties of drift detection\<close>

text \<open>
  What counts as drift, stated over the pools and the resources alone (\<open>drifts\<close>), and that a
  detection reports exactly that and replaces the open items of the accounts it scans. Then the
  paging of the listings: a page order that changes between calls loses and repeats items.
\<close>

subsection \<open>Listing the active resources\<close>

definition active_of :: "disc_store \<Rightarrow> go_id \<Rightarrow> discovered_resource list" where
  "active_of d a = filter (\<lambda>r. drAccountID r = a \<and> drStatus r = DiscoveryStatusActive) (map snd (dsResources d))"

text \<open>The order of the listing is the same for every page: all fits on one page, or no two resources
  were discovered at the same time.\<close>

definition stable_listing :: "disc_store \<Rightarrow> go_id \<Rightarrow> bool" where
  "stable_listing d a \<longleftrightarrow> length (active_of d a) \<le> 1000 \<or> inj_on drDiscoveredAt (set (active_of d a))"

lemma active_of_mem: "disc_inv d \<Longrightarrow> r \<in> set (active_of d a) \<longleftrightarrow>
    map_of (dsResources d) (drID r) = Some r \<and> drAccountID r = a \<and> drStatus r = DiscoveryStatusActive"
  by (auto simp: active_of_def mem_resources[symmetric])

lemma active_of_ids: "disc_inv d \<Longrightarrow> inj_on drID (set (active_of d a))"
  by (rule inj_onI) (simp add: active_of_mem)

lemma resources_distinct:
  assumes "disc_inv d"
  shows "distinct (map drID (map snd (dsResources d)))"
proof -
  have "map drID (map snd (dsResources d)) = map fst (dsResources d)"
  proof (simp, rule ballI)
    fix x assume "x \<in> set (dsResources d)"
    then have "map_of (dsResources d) (fst x) = Some (snd x)"
      using gmap_mem_iff[OF disc_invD(1)[OF assms], of "fst x" "snd x"] by simp
    then show "drID (snd x) = fst x" using resources_okD(1)[OF disc_invD(4)[OF assms]] by blast
  qed
  then show ?thesis using disc_invD(1)[OF assms] unfolding gmap_ok_def by (simp only:)
qed

lemma distinct_active: "disc_inv d \<Longrightarrow> distinct (map drID (active_of d a))"
  unfolding active_of_def by (rule distinct_map_filter) (rule resources_distinct)

lemma active_listing:
  assumes "disc_inv d" "\<And>pg. map_order (ord pg)" "stable_listing d a" "length (dsResources d) < 2 ^ 61"
  shows "\<exists>rs. listActiveResources ord d a = Some rs \<and> mset rs = mset (active_of d a)"
proof -
  let ?f = "no_filters\<lparr>dfStatus := DiscoveryStatusActive\<rparr>"
  have m: "filter (resource_matches a (?f\<lparr>dfPage := pg, dfPageSize := n\<rparr>)) xs = filter (\<lambda>r. drAccountID r = a \<and> drStatus r = DiscoveryStatusActive) xs" for pg n xs
    by (rule filter_cong) (auto simp: resource_matches_def no_filters_def DiscoveryStatusActive_def)
  have len: "length (active_of d a) < 2 ^ 61"
    using le_less_trans[OF length_filter_le assms(4)[folded length_map[of snd "dsResources d"]]] by (simp only: active_of_def)
  have st: "length (active_of d a) \<le> 1000 \<or> inj_on (\<lambda>r. - drDiscoveredAt r) (set (active_of d a)) \<and> distinct (active_of d a)"
    using assms(3) distinct_active[OF assms(1), of a] by (auto simp: stable_listing_def inj_on_def distinct_map)
  have fetch: "ListDiscoveredResources (ord pg) d a (no_filters\<lparr>dfStatus := DiscoveryStatusActive, dfPage := pg, dfPageSize := 1000\<rparr>) =
      map_option (\<lambda>p. (map cloneDiscoveredResource p, int (length (active_of d a))))
        (list_page 50 pg (int 1000) (sort_key (\<lambda>r. - drDiscoveredAt r) (ord pg (active_of d a))))" for pg
    by (simp add: ListDiscoveredResources_def m Let_def active_of_def)
  have k: "0 < (1000 :: nat)" "1000 < (2 ^ 62 :: nat)" by simp_all
  obtain rs where rs: "listActiveResources ord d a = Some (map cloneDiscoveredResource rs)" "mset rs = mset (active_of d a)"
    using collect_listing[OF assms(2) k len st fetch] unfolding listActiveResources_def by blast
  have "cloneDiscoveredResource r = r" if "r \<in> set rs" for r
  proof -
    have "r \<in> set (active_of d a)" using that rs(2) by (metis set_mset_mset)
    then have "map_of (dsResources d) (drID r) = Some r" using active_of_mem[OF assms(1)] by blast
    then show ?thesis using resources_okD(2)[OF disc_invD(4)[OF assms(1)]] by simp
  qed
  then have "map cloneDiscoveredResource rs = rs" by (simp add: map_idI)
  then show ?thesis using rs by simp
qed

subsection \<open>What drift is\<close>

type_synonym drift_key = "go_id \<times> string \<times> uuid option \<times> go_id option"

definition key_of :: "drift_item \<Rightarrow> drift_key" where
  "key_of x = (diAccountID x, diType x, diResourceID x, diPoolID x)"

inductive drifts :: "(go_id \<Rightarrow> pool option) \<Rightarrow> discovered_resource set \<Rightarrow> go_id \<Rightarrow> drift_key \<Rightarrow> bool"
    for live :: "go_id \<Rightarrow> pool option" and R :: "discovered_resource set" and a :: go_id where
  unmanaged: "r \<in> R \<Longrightarrow> drCIDR r \<noteq> [] \<Longrightarrow> drPoolID r = None \<Longrightarrow>
    drifts live R a (a, DriftTypeUnmanaged, Some (drID r), None)"
| mismatch: "r \<in> R \<Longrightarrow> drCIDR r \<noteq> [] \<Longrightarrow> drPoolID r = Some i \<Longrightarrow> live i = Some p \<Longrightarrow> \<not> cidrsEqual (drCIDR r) (poolCIDR p) \<Longrightarrow>
    drifts live R a (a, DriftTypeCIDRMismatch, Some (drID r), Some i)"
| orphan: "live i = Some p \<Longrightarrow> poolAccountID p = Some a \<Longrightarrow> poolSource p = PoolSourceDiscovered \<Longrightarrow>
    (\<And>r. r \<in> R \<Longrightarrow> drPoolID r \<noteq> Some i) \<Longrightarrow> drifts live R a (a, DriftTypeOrphanedPool, None, Some i)"

inductive_simps drifts_simps: "drifts live R a (b, t, r, i)"

lemmas drift_types = DriftTypeUnmanaged_def DriftTypeCIDRMismatch_def DriftTypeOrphanedPool_def

subsection \<open>The passes\<close>

definition resource_items :: "mstore \<Rightarrow> go_time \<Rightarrow> go_id \<Rightarrow> discovered_resource \<Rightarrow> drift_item list" where
  "resource_items s now a r = (case resource_drift memory_ops s now a r of Inr (Some x) \<Rightarrow> [x] | _ \<Rightarrow> [])"

definition pool_items :: "go_time \<Rightarrow> go_id \<Rightarrow> discovered_resource list \<Rightarrow> pool \<Rightarrow> drift_item list" where
  "pool_items now a rs p = (case pool_drift now a rs p of Some x \<Rightarrow> [x] | None \<Rightarrow> [])"

lemma resource_pass_mem:
  "resource_pass uid memory_ops s now a rs st = (fold (record_drift uid) (concat (map (resource_items s now a) rs)) st, None)"
proof (induction rs arbitrary: st)
  case (Cons r rs)
  have "\<exists>x. resource_drift memory_ops s now a r = Inr x"
    by (auto simp: resource_drift_def split: option.split)
  then obtain x where x: "resource_drift memory_ops s now a r = Inr x" ..
  then have "resource_items s now a r = (case x of None \<Rightarrow> [] | Some y \<Rightarrow> [y])"
    by (simp add: resource_items_def split: option.split)
  then show ?case by (cases x) (simp_all add: x Cons.IH)
qed simp

lemma pool_pass_fold:
  "pool_pass uid now a rs ps st = fold (record_drift uid) (concat (map (pool_items now a rs) ps)) st"
  by (induction ps arbitrary: st) (auto simp: pool_items_def split: option.split)

definition found_in :: "mstore \<Rightarrow> go_time \<Rightarrow> pool list \<Rightarrow> go_id \<Rightarrow> discovered_resource list \<Rightarrow> drift_item list" where
  "found_in s now ps a rs = concat (map (resource_items s now a) rs) @ concat (map (pool_items now a rs) (poolsByAccount ps a))"

lemma resource_items_cases:
  "x \<in> set (resource_items s now a r) \<longleftrightarrow> drCIDR r \<noteq> [] \<and>
     (drPoolID r = None \<and> x = unmanaged_drift now a r
      \<or> (\<exists>i p. drPoolID r = Some i \<and> GetPool s i = Some p \<and> \<not> cidrsEqual (drCIDR r) (poolCIDR p) \<and> x = mismatch_drift now a r p))"
  by (auto simp: resource_items_def resource_drift_def split: option.split)

lemma pool_items_cases:
  "x \<in> set (pool_items now a rs p) \<longleftrightarrow> poolSource p = PoolSourceDiscovered \<and> (\<forall>r \<in> set rs. drPoolID r \<noteq> Some (poolID p))
     \<and> x = orphan_drift now a p"
  by (auto simp: pool_items_def pool_drift_def list_ex_iff)

lemmas drift_item_defs = unmanaged_drift_def mismatch_drift_def orphan_drift_def new_drift_def Let_def

lemma item_fields:
  "key_of (unmanaged_drift now a r) = (a, DriftTypeUnmanaged, Some (drID r), None)"
  "key_of (mismatch_drift now a r p) = (a, DriftTypeCIDRMismatch, Some (drID r), Some (poolID p))"
  "key_of (orphan_drift now a p) = (a, DriftTypeOrphanedPool, None, Some (poolID p))"
  by (simp_all add: key_of_def drift_item_defs)

definition fresh_item :: "go_id \<Rightarrow> drift_item \<Rightarrow> bool" where
  "fresh_item a x \<longleftrightarrow> diAccountID x = a \<and> diStatus x = DriftStatusOpen \<and> tags_ok (diDetails x)"

lemma fresh_items: "fresh_item a (unmanaged_drift now a r)" "fresh_item a (mismatch_drift now a r p)" "fresh_item a (orphan_drift now a p)"
  by (simp_all add: fresh_item_def drift_item_defs tags_ok_def gmap_ok_def)

lemma found_fresh: "x \<in> set (found_in s now ps a rs) \<Longrightarrow> fresh_item a x"
  by (auto simp: found_in_def resource_items_cases pool_items_cases fresh_items)

lemma found_keys:
  assumes "store_reachable s" "mset rs = mset (active_of d a)"
  shows "key_of ` set (found_in s now (ListPools s) a rs) = {k. drifts (GetPool s) (set (active_of d a)) a k}"
proof (intro equalityI subsetI)
  have set_rs: "set rs = set (active_of d a)" using assms(2) by (metis set_mset_mset)
  have inv: "store_inv s" using assms(1) reachable_invs by blast
  have pid: "GetPool s i = Some p \<Longrightarrow> poolID p = i" for i p by (rule mem.live_id[OF assms(1)])
  have lp: "p \<in> set (ListPools s) \<longleftrightarrow> GetPool s (poolID p) = Some p" for p by (rule ListPools_GetPool[OF inv])
  {
    fix k assume "k \<in> key_of ` set (found_in s now (ListPools s) a rs)"
    then obtain x where x: "x \<in> set (found_in s now (ListPools s) a rs)" "k = key_of x" by blast
    then consider r where "r \<in> set rs" "x \<in> set (resource_items s now a r)"
      | p where "p \<in> set (ListPools s)" "poolAccountID p = Some a" "x \<in> set (pool_items now a rs p)"
      by (auto simp: found_in_def poolsByAccount_def)
    then show "k \<in> {k. drifts (GetPool s) (set (active_of d a)) a k}"
    proof cases
      case 1
      then show ?thesis
        using x(2) pid unfolding resource_items_cases set_rs by (auto simp: item_fields intro: drifts.unmanaged drifts.mismatch)
    next
      case 2
      then show ?thesis
        using x(2) unfolding pool_items_cases set_rs lp by (auto simp: item_fields intro: drifts.orphan)
    qed
  next
    fix k assume "k \<in> {k. drifts (GetPool s) (set (active_of d a)) a k}"
    then have "drifts (GetPool s) (set (active_of d a)) a k" by simp
    then show "k \<in> key_of ` set (found_in s now (ListPools s) a rs)"
    proof cases
      case (unmanaged r)
      then have "unmanaged_drift now a r \<in> set (found_in s now (ListPools s) a rs)"
        unfolding found_in_def by (auto simp: resource_items_cases set_rs)
      then show ?thesis using unmanaged(1) item_fields(1) by (metis imageI)
    next
      case (mismatch r i p)
      then have "mismatch_drift now a r p \<in> set (found_in s now (ListPools s) a rs)"
        unfolding found_in_def by (auto simp: resource_items_cases set_rs)
      then show ?thesis using mismatch(1) pid[OF mismatch(5)] item_fields(2) by (metis imageI)
    next
      case (orphan i p)
      then have "p \<in> set (poolsByAccount (ListPools s) a)" using pid[OF orphan(2)] lp by (simp add: poolsByAccount_def)
      moreover have "orphan_drift now a p \<in> set (pool_items now a rs p)"
        using orphan pid[OF orphan(2)] by (auto simp: pool_items_cases set_rs)
      ultimately have "orphan_drift now a p \<in> set (found_in s now (ListPools s) a rs)"
        unfolding found_in_def by auto
      then show ?thesis using orphan(1) pid[OF orphan(2)] item_fields(3) by (metis imageI)
    qed
  }
qed

subsection \<open>Recording the items\<close>

definition numbered :: "(nat \<Rightarrow> string) \<Rightarrow> nat \<Rightarrow> drift_item list \<Rightarrow> drift_item list" where
  "numbered uid n xs = map (\<lambda>(k, x). x\<lparr>diID := uid k\<rparr>) (enumerate n xs)"

lemma numbered_simps [simp]:
  "numbered uid n [] = []" "numbered uid n (x # xs) = x\<lparr>diID := uid n\<rparr> # numbered uid (Suc n) xs"
  "length (numbered uid n xs) = length xs" "map diID (numbered uid n xs) = map uid [n..<n + length xs]"
proof -
  show "map diID (numbered uid n xs) = map uid [n..<n + length xs]"
    by (induction xs arbitrary: n) (simp_all add: numbered_def upt_rec)
qed (simp_all add: numbered_def)

lemma key_of_id [simp]: "key_of (x\<lparr>diID := i\<rparr>) = key_of x" "fresh_item a (x\<lparr>diID := i\<rparr>) = fresh_item a x"
  by (simp_all add: key_of_def fresh_item_def)

lemma map_key_numbered [simp]: "map key_of (numbered uid n xs) = map key_of xs"
  by (induction xs arbitrary: n) simp_all

lemma numbered_sets:
  "key_of ` set (numbered uid n xs) = key_of ` set xs" "diID ` set (numbered uid n xs) = uid ` {n..<n + length xs}"
  by (metis map_key_numbered list.set_map) (metis numbered_simps(4) list.set_map set_upt)

lemma numbered_fresh: "(\<And>x. x \<in> set xs \<Longrightarrow> fresh_item a x) \<Longrightarrow> y \<in> set (numbered uid n xs) \<Longrightarrow> fresh_item a y"
  by (induction xs arbitrary: n) auto

definition by_id :: "drift_item list \<Rightarrow> string \<rightharpoonup> drift_item" where
  "by_id xs = map_of (map (\<lambda>x. (diID x, x)) xs)"

lemma by_id_append: "distinct (map diID (xs @ ys)) \<Longrightarrow> by_id (xs @ ys) = by_id xs ++ by_id ys"
  unfolding by_id_def map_append map_of_append by (rule map_add_comm) (auto simp: dom_map_of_conv_image_fst image_image)

lemma by_id_mem: "distinct (map diID xs) \<Longrightarrow> by_id xs i = Some x \<longleftrightarrow> x \<in> set xs \<and> diID x = i"
proof -
  assume d: "distinct (map diID xs)"
  have "distinct (map fst (map (\<lambda>x. (diID x, x)) xs))" using d by (simp add: comp_def)
  then show ?thesis unfolding by_id_def by (auto simp: map_of_eq_Some_iff)
qed

lemma by_id_None: "i \<notin> diID ` set xs \<Longrightarrow> by_id xs i = None"
  by (auto simp: by_id_def map_of_eq_None_iff)

lemma record_all:
  "(\<And>x. x \<in> set xs \<Longrightarrow> tags_ok (diDetails x)) \<Longrightarrow>
   snd (fold (record_drift uid) xs (m, items)) = items @ numbered uid (length items) xs
   \<and> (gmap_ok m \<longrightarrow> gmap_ok (fst (fold (record_drift uid) xs (m, items))))
   \<and> (inj uid \<longrightarrow> map_of (fst (fold (record_drift uid) xs (m, items))) = map_of m ++ by_id (numbered uid (length items) xs))"
proof (induction xs arbitrary: m items)
  case (Cons x xs)
  let ?x = "x\<lparr>diID := uid (length items)\<rparr>"
  have t: "tags_ok (diDetails x)" and ts: "\<And>y. y \<in> set xs \<Longrightarrow> tags_ok (diDetails y)" using Cons.prems by simp_all
  have c: "CreateDriftItem m ?x = gput (uid (length items)) ?x m"
    using t by (simp add: CreateDriftItem_def cloneDriftItem_def)
  have r: "record_drift uid x (m, items) = (gput (uid (length items)) ?x m, items @ [?x])"
    by (simp add: record_drift_def c Let_def)
  have ids: "by_id (numbered uid (Suc (length items)) xs) (uid (length items)) = None" if "inj uid"
  proof (rule by_id_None)
    show "uid (length items) \<notin> diID ` set (numbered uid (Suc (length items)) xs)"
      unfolding numbered_sets by (auto dest: injD[OF that])
  qed
  have b: "by_id (?x # ys) = (\<lambda>i. if i = uid (length items) then Some ?x else by_id ys i)" for ys
    by (rule ext) (simp add: by_id_def)
  have add: "(map_of m)(uid (length items) \<mapsto> ?x) ++ by_id (numbered uid (Suc (length items)) xs) =
      map_of m ++ by_id (?x # numbered uid (Suc (length items)) xs)" if "inj uid"
    using ids[OF that] by (intro ext) (simp add: map_add_def b split: option.split)
  note IH = Cons.IH[OF ts, of "gput (uid (length items)) ?x m" "items @ [?x]"]
  have m: "map_of (gput (uid (length items)) ?x m) = (map_of m)(uid (length items) \<mapsto> ?x)" by (rule map_of_gput)
  have "map_of (fst (fold (record_drift uid) xs (gput (uid (length items)) ?x m, items @ [?x]))) =
      map_of m ++ by_id (numbered uid (length items) (x # xs))" if u: "inj uid"
    using IH u add[OF u] unfolding m by (simp only: length_append_singleton numbered_simps simp_thms)
  then show ?case
    unfolding fold_simps(2) r using IH by simp
qed (simp add: by_id_def)

lemma map_of_DeleteOpen:
  assumes "gmap_ok m"
  shows "map_of (DeleteOpenForAccount m a) i = (case map_of m i of None \<Rightarrow> None | Some x \<Rightarrow> if open_for a x then None else Some x)"
    and "gmap_ok (DeleteOpenForAccount m a)"
proof -
  show "gmap_ok (DeleteOpenForAccount m a)"
    using assms unfolding gmap_ok_def DeleteOpenForAccount_def by (rule distinct_map_filter)
  show "map_of (DeleteOpenForAccount m a) i = (case map_of m i of None \<Rightarrow> None | Some x \<Rightarrow> if open_for a x then None else Some x)"
    using assms unfolding DeleteOpenForAccount_def gmap_ok_def
    by (induction m) (auto simp: map_of_eq_None_iff split: option.splits)
qed

subsection \<open>A detection\<close>

text \<open>The item that a run over the accounts \<open>P\<close> keeps of the old store.\<close>

definition kept :: "go_id set \<Rightarrow> drift_store \<Rightarrow> string \<rightharpoonup> drift_item" where
  "kept P m i = (case map_of m i of None \<Rightarrow> None
     | Some x \<Rightarrow> if diAccountID x \<in> P \<and> diStatus x = DriftStatusOpen then None else Some x)"

definition run_inv :: "(nat \<Rightarrow> string) \<Rightarrow> drift_store \<Rightarrow> go_id set \<Rightarrow> drift_state \<Rightarrow> bool" where
  "run_inv uid m0 P st \<longleftrightarrow> gmap_ok (fst st) \<and> map_of (fst st) = kept P m0 ++ by_id (snd st)
     \<and> map diID (snd st) = map uid [0..<length (snd st)] \<and> (\<forall>x \<in> set (snd st). diAccountID x \<in> P)"

lemma run_step:
  assumes inv: "run_inv uid m0 P (m, items)" and a: "a \<notin> P" and uid: "inj uid" "\<And>k. map_of m0 (uid k) = None"
    and xs: "\<And>x. x \<in> set xs \<Longrightarrow> fresh_item a x"
  shows "run_inv uid m0 (insert a P) (fold (record_drift uid) xs (DeleteOpenForAccount m a, items))"
    and "snd (fold (record_drift uid) xs (DeleteOpenForAccount m a, items)) = items @ numbered uid (length items) xs"
proof -
  let ?st = "fold (record_drift uid) xs (DeleteOpenForAccount m a, items)"
  have m: "gmap_ok m" "map_of m = kept P m0 ++ by_id items" "map diID items = map uid [0..<length items]"
      "\<And>x. x \<in> set items \<Longrightarrow> diAccountID x \<in> P"
    using inv by (auto simp: run_inv_def)
  have d: "distinct (map diID items)" unfolding m(3) using uid(1) by (simp add: distinct_map inj_on_def inj_def)
  have del: "map_of (DeleteOpenForAccount m a) = kept (insert a P) m0 ++ by_id items"
  proof
    fix i
    show "map_of (DeleteOpenForAccount m a) i = (kept (insert a P) m0 ++ by_id items) i"
    proof (cases "by_id items i")
      case (Some x)
      then have "x \<in> set items" by (simp add: by_id_mem[OF d])
      then have "\<not> open_for a x" using m(4) a by (auto simp: open_for_def)
      then show ?thesis using Some by (simp add: map_of_DeleteOpen(1)[OF m(1)] m(2) map_add_def)
    next
      case None
      then show ?thesis
        by (auto simp: map_of_DeleteOpen(1)[OF m(1)] m(2) map_add_def kept_def open_for_def split: option.split)
    qed
  qed
  have tags: "tags_ok (diDetails x)" if "x \<in> set xs" for x using xs[OF that] by (simp add: fresh_item_def)
  note r = record_all[where xs = xs and m = "DeleteOpenForAccount m a" and items = items and uid = uid, OF tags]
  show snd: "snd ?st = items @ numbered uid (length items) xs" using r by simp
  have ids: "map diID (items @ numbered uid (length items) xs) = map uid [0..<length items + length xs]"
    by (simp add: m(3) upt_add_eq_append[of 0 "length items" "length xs"])
  have "distinct (map diID (items @ numbered uid (length items) xs))"
    unfolding ids using uid(1) by (simp add: distinct_map inj_on_def inj_def)
  then have "map_of (fst ?st) = kept (insert a P) m0 ++ by_id (snd ?st)"
    using r uid(1) by (simp add: del snd by_id_append)
  moreover have "gmap_ok (fst ?st)" using r map_of_DeleteOpen(2)[OF m(1)] by simp
  moreover have "diAccountID x \<in> insert a P" if "x \<in> set (snd ?st)" for x
    using that m(4) numbered_fresh[of xs a x uid "length items", OF xs] by (auto simp: snd fresh_item_def)
  ultimately show "run_inv uid m0 (insert a P) ?st"
    using ids by (simp add: run_inv_def snd)
qed

definition ready :: "(go_id \<Rightarrow> int \<Rightarrow> discovered_resource order) \<Rightarrow> disc_store \<Rightarrow> go_id \<Rightarrow> bool" where
  "ready ords d a \<longleftrightarrow> (\<forall>pg. map_order (ords a pg)) \<and> stable_listing d a"

lemma account_pass_result:
  assumes "store_reachable s" "disc_inv d" "length (dsResources d) < 2 ^ 61" "inj uid" "\<And>k. map_of m0 (uid k) = None"
    "\<And>a. a \<in> set accts \<Longrightarrow> ready ords d (accID a)" "distinct (map accID accts)" "accID ` set accts \<inter> P = {}"
    "run_inv uid m0 P st" "key_of ` set (snd st) = {k. \<exists>a \<in> P. drifts (GetPool s) (set (active_of d a)) a k}"
  shows "\<exists>st' n. account_pass uid ords memory_ops s d now (ListPools s) accts st k = Some (st', Inr n)
     \<and> run_inv uid m0 (P \<union> accID ` set accts) st'
     \<and> key_of ` set (snd st') = {k. \<exists>a \<in> P \<union> accID ` set accts. drifts (GetPool s) (set (active_of d a)) a k}"
  using assms(6-10)
proof (induction accts arbitrary: st P k)
  case (Cons acct accts)
  let ?a = "accID acct"
  obtain m items where st: "st = (m, items)" by (cases st) auto
  have a: "?a \<notin> P" using Cons.prems(3) by auto
  have rd: "map_order (ords ?a pg)" "stable_listing d ?a" for pg using Cons.prems(1)[of acct] by (simp_all add: ready_def)
  obtain rs where rs: "listActiveResources (ords ?a) d ?a = Some rs" "mset rs = mset (active_of d ?a)"
    using active_listing[where ord = "ords ?a", OF assms(2) rd assms(3)] by blast
  let ?xs = "found_in s now (ListPools s) ?a rs"
  let ?st = "fold (record_drift uid) ?xs (DeleteOpenForAccount m ?a, items)"
  have fr: "x \<in> set ?xs \<Longrightarrow> fresh_item ?a x" for x by (rule found_fresh)
  note step = run_step[OF Cons.prems(4)[unfolded st] a assms(4,5) fr]
  have "key_of ` set (snd ?st) = key_of ` set items \<union> key_of ` set ?xs"
    by (simp add: step(2) image_Un numbered_sets)
  then have keys: "key_of ` set (snd ?st) = {k. \<exists>a \<in> insert ?a P. drifts (GetPool s) (set (active_of d a)) a k}"
    using Cons.prems(5) found_keys[OF assms(1) rs(2)] by (auto simp: st)
  have run: "account_pass uid ords memory_ops s d now (ListPools s) (acct # accts) st k =
      account_pass uid ords memory_ops s d now (ListPools s) accts ?st (k + length rs)"
    by (simp add: st rs(1) resource_pass_mem pool_pass_fold found_in_def Let_def)
  have "accID ` set accts \<inter> insert ?a P = {}" using Cons.prems(2,3) by auto
  with Cons.IH[of "insert ?a P" ?st "k + length rs"] Cons.prems(1,2) step(1) keys
  obtain st' n where "account_pass uid ords memory_ops s d now (ListPools s) accts ?st (k + length rs) = Some (st', Inr n)"
      "run_inv uid m0 (insert ?a P \<union> accID ` set accts) st'"
      "key_of ` set (snd st') = {k. \<exists>a \<in> insert ?a P \<union> accID ` set accts. drifts (GetPool s) (set (active_of d a)) a k}"
    by auto
  then show ?case unfolding run by auto
qed simp

lemma listed_account_ids:
  "(\<And>k a. (k, a) \<in> set m \<Longrightarrow> accID a = k) \<Longrightarrow>
   map accID [cloneAccount a. (_, a) \<leftarrow> m, \<not> accDeleted a] = map fst (filter (\<lambda>(_, a). \<not> accDeleted a) m)"
proof (induction m)
  case (Cons x m)
  obtain k a where x: "x = (k, a)" by (cases x) auto
  have k: "accID a = k" by (rule Cons.prems) (simp add: x)
  have "accID b = j" if "(j, b) \<in> set m" for j b by (rule Cons.prems) (simp add: that)
  note Cons.IH[OF this]
  then show ?case unfolding x using k by (simp add: cloneAccount_def)
qed simp

text \<open>C13: a detection reports exactly the drift. For reachable stores, resource listings whose order is
  stable, and UUIDs that are distinct and new, \<open>Detect\<close> returns without an error, whatever the iteration
  orders; the items it reports are exactly: every active resource of a scanned account that has a CIDR
  and no pool, every one linked to a live pool with another CIDR, and every live pool of the account
  that came from discovery and has no active resource of the account linked to it. Afterwards the
  drift store holds these items and, of its old ones, all but the open ones of the scanned accounts.\<close>

theorem detect_reports_exactly_the_drift:
  assumes "store_reachable s" "disc_reachable d" "length (dsResources d) < 2 ^ 61" "gmap_ok m" "inj uid" "\<forall>k. map_of m (uid k) = None"
    "\<forall>a \<in> set (target_accounts ids (ListAccounts s)). ready ords d (accID a)"
  shows "\<exists>m' resp. Detect uid ords memory_ops now s d m ids = Some (m', Inr resp)
    \<and> key_of ` set (rrItems resp) = {k. \<exists>a \<in> set (target_accounts ids (ListAccounts s)).
           drifts (GetPool s) (set (active_of d (accID a))) (accID a) k}
    \<and> (\<forall>i x. map_of m' i = Some x \<longleftrightarrow> x \<in> set (rrItems resp) \<and> diID x = i
          \<or> map_of m i = Some x \<and> \<not> (diStatus x = DriftStatusOpen \<and> diAccountID x \<in> accID ` set (target_accounts ids (ListAccounts s))))"
proof -
  let ?T = "target_accounts ids (ListAccounts s)"
  have inv: "store_inv s" using assms(1) reachable_invs by blast
  have "distinct (map accID (ListAccounts s))"
  proof -
    have "accID a = k" if "(k, a) \<in> set (accounts s)" for k a
      using that gmap_mem_iff[OF store_invD(2)[OF inv]] store_invD(4)[OF inv] by blast
    then have "map accID (ListAccounts s) = map fst (filter (\<lambda>(_, a). \<not> accDeleted a) (accounts s))"
      unfolding ListAccounts_def by (rule listed_account_ids)
    then show ?thesis using store_invD(2)[OF inv] by (simp add: gmap_ok_def distinct_map_filter)
  qed
  then have dist: "distinct (map accID ?T)" by (simp add: target_accounts_def distinct_map_filter)
  have "run_inv uid m {} (m, [])"
    using assms(4) by (simp add: run_inv_def by_id_def kept_def fun_eq_iff split: option.split)
  then obtain st n where st: "account_pass uid ords memory_ops s d now (ListPools s) ?T (m, []) 0 = Some (st, Inr n)"
      "run_inv uid m (accID ` set ?T) st"
      "key_of ` set (snd st) = {k. \<exists>a \<in> accID ` set ?T. drifts (GetPool s) (set (active_of d a)) a k}"
    using account_pass_result[OF assms(1) disc_reachable_inv[OF assms(2)] assms(3,5), of m ?T ords "{}" "(m, [])" now 0] assms(6,7) dist
    by auto
  let ?resp = "\<lparr>rrItems = snd st, rrTotal = int (length (snd st)),
      rrSummary = buildSummary (snd st) (int (length ?T)) (int n) (int (length (ListPools s)))\<rparr>"
  have run: "Detect uid ords memory_ops now s d m ids = Some (fst st, Inr ?resp)"
    by (simp add: Detect_def st(1) Let_def case_prod_beta)
  have d: "distinct (map diID (snd st))"
    using st(2) assms(5) by (simp add: run_inv_def distinct_map inj_on_def inj_def)
  have new: "map_of m (diID x) = None" if "x \<in> set (snd st)" for x
  proof -
    have "diID x \<in> set (map uid [0..<length (snd st)])" using st(2) that unfolding run_inv_def by (metis image_eqI list.set_map)
    then show ?thesis using assms(6) by auto
  qed
  have "map_of (fst st) i = Some x \<longleftrightarrow> x \<in> set (snd st) \<and> diID x = i
      \<or> map_of m i = Some x \<and> \<not> (diStatus x = DriftStatusOpen \<and> diAccountID x \<in> accID ` set ?T)" for i x
  proof -
    have "map_of (fst st) = kept (accID ` set ?T) m ++ by_id (snd st)" using st(2) by (simp add: run_inv_def)
    then have at: "map_of (fst st) i = (case by_id (snd st) i of None \<Rightarrow> kept (accID ` set ?T) m i | Some y \<Rightarrow> Some y)"
      by (simp add: map_add_def)
    show ?thesis
    proof (cases "by_id (snd st) i")
      case None
      then have "\<not> (x \<in> set (snd st) \<and> diID x = i)" using by_id_mem[OF d, of i x] by simp
      moreover have "kept (accID ` set ?T) m i = Some x \<longleftrightarrow>
          map_of m i = Some x \<and> \<not> (diStatus x = DriftStatusOpen \<and> diAccountID x \<in> accID ` set ?T)"
        unfolding kept_def by (cases "map_of m i") auto
      ultimately show ?thesis unfolding at None option.case by blast
    next
      case (Some y)
      then have y: "y \<in> set (snd st)" "diID y = i" using by_id_mem[OF d, of i y] by simp_all
      have "map_of m i = None" using new[OF y(1)] y(2) by simp
      moreover have "Some y = Some x \<longleftrightarrow> x \<in> set (snd st) \<and> diID x = i" using by_id_mem[OF d, of i x] Some by simp
      ultimately show ?thesis unfolding at Some option.case by simp
    qed
  qed
  then show ?thesis
    using run st(3) by (intro exI[of _ "fst st"] exI[of _ ?resp]) simp
qed

lemma demo_accounts_reachable: "store_reachable demo_accounts"
  unfolding demo_accounts_def by (intro store_reachable.step[OF _ store_step.create_account] store_reachable.init)

theorem detect_reports_exactly_the_drift_witness:
  "\<exists>m' resp. Detect itoa (\<lambda>_ _. rev) memory_ops 9 demo_accounts demo_disc [] [] = Some (m', Inr resp)
     \<and> (1, DriftTypeUnmanaged, Some 2, None) \<in> key_of ` set (rrItems resp)"
proof -
  have len: "length (dsResources demo_disc) = 2" by code_simp
  then have l: "length (dsResources demo_disc) < 2 ^ 61" by simp
  have g: "gmap_ok ([] :: drift_store)" by simp
  have u: "inj itoa" by (rule injI) (rule itoa_inj)
  have f: "\<forall>k. map_of ([] :: drift_store) (itoa k) = None" by simp
  have "length (active_of demo_disc a) \<le> length (dsResources demo_disc)" for a
    unfolding active_of_def by (rule order_trans[OF length_filter_le]) simp
  then have "length (active_of demo_disc a) \<le> 1000" for a
    using len by (metis numeral_le_iff order_trans semiring_norm(69) semiring_norm(68) semiring_norm(71) semiring_norm(72))
  then have r: "\<forall>a \<in> set (target_accounts [] (ListAccounts demo_accounts)). ready (\<lambda>_ _. rev) demo_disc (accID a)"
    by (simp add: ready_def stable_listing_def map_order_id)
  from detect_reports_exactly_the_drift[OF demo_accounts_reachable demo_disc_reachable l g u f r, of 9]
  obtain m' resp where d: "Detect itoa (\<lambda>_ _. rev) memory_ops 9 demo_accounts demo_disc [] [] = Some (m', Inr resp)"
    and k: "key_of ` set (rrItems resp) = {k. \<exists>a \<in> set (target_accounts [] (ListAccounts demo_accounts)).
           drifts (GetPool demo_accounts) (set (active_of demo_disc (accID a))) (accID a) k}" by blast
  have "map accID (target_accounts [] (ListAccounts demo_accounts)) = [1]" by code_simp
  then obtain a where a: "a \<in> set (target_accounts [] (ListAccounts demo_accounts))" "accID a = 1" by auto
  have "demo_resource 2 ''vpc-2'' ''10.2.0.0/16'' 5 \<in> set (active_of demo_disc 1)"
    unfolding active_of_def by code_simp
  then have "drifts (GetPool demo_accounts) (set (active_of demo_disc 1)) 1
      (1, DriftTypeUnmanaged, Some (drID (demo_resource 2 ''vpc-2'' ''10.2.0.0/16'' 5)), None)"
    by (rule drifts.unmanaged) (simp_all add: demo_resource_def)
  then have "(1, DriftTypeUnmanaged, Some 2, None) \<in> key_of ` set (rrItems resp)"
    unfolding k mem_Collect_eq using a by (intro bexI[OF _ a(1)]) (simp add: demo_resource_def)
  with d show ?thesis by blast
qed

subsection \<open>What a detection does not report\<close>

text \<open>A resource whose pool was deleted: deleting a pool leaves the links of the resources alone, and the
  detector skips a resource whose pool is not found.\<close>

lemma dangling_link_not_reported:
  assumes "disc_inv d" "r \<in> set (active_of d a)" "drPoolID r = Some i" "GetPool s i = None"
  shows "\<not> drifts (GetPool s) (set (active_of d a)) a (a, t, Some (drID r), q)"
proof
  assume "drifts (GetPool s) (set (active_of d a)) a (a, t, Some (drID r), q)"
  then obtain r' where r': "r' \<in> set (active_of d a)" "drID r' = drID r"
      "drPoolID r' = None \<or> (\<exists>j p. drPoolID r' = Some j \<and> GetPool s j = Some p)"
    unfolding drifts_simps by auto
  have "r' = r" using inj_onD[OF active_of_ids[OF assms(1)] r'(2) r'(1) assms(2)] .
  with r'(3) assms(3,4) show False by auto
qed

subsection \<open>Pages\<close>

text \<open>All items of a detection have the same time, so their order is the map's iteration order, which is
  another one for every request: of 51 items, the two pages can leave one out and show one twice.\<close>

lemma pages_can_miss_an_item:
  assumes "length m = 51" "\<And>x. x \<in> set (map snd m) \<Longrightarrow> diDetectedAt x = t" "distinct (map snd m)"
    "\<And>x. x \<in> set (map snd m) \<Longrightarrow> tags_ok (diDetails x)"
  shows "\<exists>p1 p2 x. ListDriftItems id m \<lparr>dfiAccountID = 0, dfiType = [], dfiSeverity = [], dfiStatus = [], dfiPage = 1, dfiPageSize = 50\<rparr> = Some (p1, 51)
     \<and> ListDriftItems rev m \<lparr>dfiAccountID = 0, dfiType = [], dfiSeverity = [], dfiStatus = [], dfiPage = 2, dfiPageSize = 50\<rparr> = Some (p2, 51)
     \<and> x \<in> set (map snd m) \<and> x \<notin> set p1 \<union> set p2"
proof -
  let ?f = "\<lambda>pg. \<lparr>dfiAccountID = 0, dfiType = [], dfiSeverity = [], dfiStatus = [], dfiPage = pg, dfiPageSize = 50\<rparr> :: drift_filters"
  define xs where "xs = map snd m"
  have len: "length xs = 51" "length (rev xs) = 51" using assms(1) by (simp_all add: xs_def)
  have all: "filter (drift_matches (?f pg)) xs = xs" for pg by (simp add: filter_id_conv drift_matches_def)
  have const: "sort_key (\<lambda>x. - diDetectedAt x) ys = ys" if "set ys = set xs" for ys
  proof (rule sort_key_id_if_sorted)
    have "map (\<lambda>x. - diDetectedAt x) ys = map (\<lambda>_. - t) ys"
      using assms(2) that by (intro map_cong refl) (simp add: xs_def)
    then show "sorted (map (\<lambda>x. - diDetectedAt x) ys)" by (simp add: map_replicate_const)
  qed
  have clone: "map cloneDriftItem ys = ys" if "set ys \<subseteq> set xs" for ys
  proof (rule map_idI)
    fix x assume "x \<in> set ys"
    then have "tags_ok (diDetails x)" using that by (intro assms(4)) (auto simp: xs_def)
    then show "cloneDriftItem x = x" by (simp add: cloneDriftItem_def)
  qed
  have w: "list_page 50 (int n + 1) (int 50) ys = Some (take 50 (drop (n * 50) ys))" if "length ys = 51" "n < 2" for n and ys :: "drift_item list"
    using that by (intro list_page_window) simp_all
  have p1: "ListDriftItems id m (?f 1) = Some (take 50 xs, 51)"
    using w[OF len(1), of 0] len clone[OF set_take_subset]
    by (simp add: ListDriftItems_def xs_def[symmetric] all const)
  have p2: "ListDriftItems rev m (?f 2) = Some (drop 50 (rev xs), 51)"
    using w[OF len(2), of 1] len clone[of "drop 50 (rev xs)"] set_drop_subset[of 50 "rev xs"]
    by (simp add: ListDriftItems_def xs_def[symmetric] all const)
  have "xs ! 50 \<in> set xs" using len by simp
  moreover have d: "distinct xs" using assms(3) by (simp add: xs_def)
  have "xs ! 50 \<notin> set (take 50 xs)" using d len by (auto simp: in_set_conv_nth nth_eq_iff_index_eq)
  moreover have "drop 50 (rev xs) = [xs ! 0]"
    using len by (cases xs) (simp_all add: drop_rev)
  moreover have "xs ! 50 \<noteq> xs ! 0" using d len by (simp add: nth_eq_iff_index_eq)
  ultimately have "xs ! 50 \<in> set (map snd m)" "xs ! 50 \<notin> set (take 50 xs) \<union> set (drop 50 (rev xs))"
    by (simp_all add: xs_def[symmetric])
  with p1 p2 show ?thesis by blast
qed

end
