(* ===== verification/SchemaHandlers.thy ===== *)
theory SchemaHandlers
  imports ApiSteps
begin

section \<open>The schema planner API (internal/api/schema\_handlers.go)\<close>

text \<open>
  \<open>handleSchemaCheck\<close> lists the proposed pools that overlap existing ones; \<open>handleSchemaApply\<close> creates
  the pools of a schema tree, in the order of the request, where an entry names its parent by
  reference. A JSON body is decoded before the handler, as in \<open>Http\<close>.
\<close>

record schema_pool_entry =
  speRef :: string
  speName :: string
  speCIDR :: string
  speType :: string
  speParentRef :: string

record schema_conflict =
  scPlannedCIDR :: string
  scPlannedName :: string
  scExistingPoolID :: go_id
  scExistingPoolName :: string
  scExistingCIDR :: string
  scOverlapType :: string

record schema_check_response =
  srConflicts :: "schema_conflict list"
  srTotalPools :: nat
  srConflictCount :: nat

record schema_apply_request =
  saPools :: "schema_pool_entry list"
  saStatus :: string
  saTags :: tags
  saSkipConflicts :: bool

record schema_apply_response =
  syCreated :: nat
  sySkipped :: nat
  syErrors :: "err_msg list"
  syRootPoolID :: go_id
  syPoolMap :: "(string, go_id) gomap"

datatype schema_payload = PCheck schema_check_response | PApply schema_apply_response

definition schema_cidr_error :: "string \<Rightarrow> validation_error option" where
  "schema_cidr_error c = ValidateCIDRWithOptions c
     \<lparr>AllowReserved = False, AllowNonCanonical = False, MinPrefix = 8, MaxPrefix = 30\<rparr>"

subsection \<open>Check\<close>

fun check_cidrs :: "nat \<Rightarrow> schema_pool_entry list \<Rightarrow> 'a http_response option" where
  "check_cidrs k [] = None"
| "check_cidrs k (p # ps) = (case schema_cidr_error (speCIDR p) of
     Some e \<Rightarrow> Some (RespErr 400 (Sprintf ''pool %d (%s): %v'' [Num (int k), Msg (speName p), OfValidation e]) no_detail)
   | None \<Rightarrow> check_cidrs (Suc k) ps)"

definition overlap_type :: "nprefix \<Rightarrow> nprefix \<Rightarrow> string" where
  "overlap_type pp ep =
     (if pfxBits pp \<le> pfxBits ep \<and> pfxContains pp (pfxAddr ep) then ''contains''
      else if pfxBits ep \<le> pfxBits pp \<and> pfxContains ep (pfxAddr pp) then ''contained_by''
      else ''overlap'')"

definition schema_conflict_of :: "schema_pool_entry \<Rightarrow> nprefix \<Rightarrow> pool \<Rightarrow> schema_conflict list" where
  "schema_conflict_of proposed pp ex = (case parsePrefix (poolCIDR ex) of
     None \<Rightarrow> []
   | Some ep \<Rightarrow>
       if prefixesOverlapIPv4 pp ep
       then [\<lparr>scPlannedCIDR = speCIDR proposed, scPlannedName = speName proposed, scExistingPoolID = poolID ex,
              scExistingPoolName = poolName ex, scExistingCIDR = poolCIDR ex, scOverlapType = overlap_type pp ep\<rparr>]
       else [])"

definition schema_conflicts :: "pool list \<Rightarrow> schema_pool_entry list \<Rightarrow> schema_conflict list" where
  "schema_conflicts existing ps = concat (map (\<lambda>proposed. case parsePrefix (speCIDR proposed) of
     None \<Rightarrow> []
   | Some pp \<Rightarrow> concat (map (schema_conflict_of proposed pp) existing)) ps)"

definition handleSchemaCheck :: "'s store_ops \<Rightarrow> http_request \<Rightarrow> schema_pool_entry list option \<Rightarrow> 's \<Rightarrow>
    schema_payload http_response" where
  "handleSchemaCheck ops rq body s =
     (if rqMethod rq \<noteq> ''POST'' then method_not_allowed
      else case body of None \<Rightarrow> writeErr 400 ''invalid json'' []
      | Some ps \<Rightarrow>
          if ps = [] then writeErr 400 ''pools array is required'' []
          else case check_cidrs 0 ps of Some r \<Rightarrow> r
          | None \<Rightarrow> (case opListPools ops s of
              Inl e \<Rightarrow> RespErr 500 (Msg ''failed to list existing pools'') (OfStore e)
            | Inr existing \<Rightarrow>
                let cs = schema_conflicts existing ps
                in RespJSON 200 (PCheck \<lparr>srConflicts = cs, srTotalPools = length ps, srConflictCount = length cs\<rparr>)))"

subsection \<open>Apply: the checks\<close>

text \<open>The entries are checked in order; \<open>refSet\<close> are the references seen so far, the entry's own
  included, and \<open>prevs\<close> the entries before it.\<close>

definition entry_error :: "nat \<Rightarrow> schema_pool_entry list \<Rightarrow> string list \<Rightarrow> schema_pool_entry \<Rightarrow> err_msg option" where
  "entry_error k prevs refSet p =
     (if speRef p = [] then Some (Sprintf ''pool %d: ref is required'' [Num (int k)])
      else if speRef p \<in> set refSet then Some (Sprintf ''pool %d: duplicate ref %q'' [Num (int k), Msg (speRef p)])
      else case ValidateName (speName p) of
        Some e \<Rightarrow> Some (Sprintf ''pool %d (%s): %v'' [Num (int k), Msg (speRef p), OfValidation e])
      | None \<Rightarrow> (case schema_cidr_error (speCIDR p) of
          Some e \<Rightarrow> Some (Sprintf ''pool %d (%s): %v'' [Num (int k), Msg (speRef p), OfValidation e])
        | None \<Rightarrow>
            if speParentRef p \<noteq> [] \<and> speParentRef p \<notin> set (speRef p # refSet)
               \<and> \<not> list_ex (\<lambda>prev. speRef prev = speParentRef p) prevs
            then Some (Sprintf ''pool %d (%s): parent_ref %q not found in preceding entries''
                   [Num (int k), Msg (speRef p), Msg (speParentRef p)])
            else None))"

fun entries_error :: "schema_pool_entry list \<Rightarrow> string list \<Rightarrow> schema_pool_entry list \<Rightarrow> err_msg option" where
  "entries_error prevs refSet [] = None"
| "entries_error prevs refSet (p # ps) = (case entry_error (length prevs) prevs refSet p of
     Some e \<Rightarrow> Some e
   | None \<Rightarrow> entries_error (prevs @ [p]) (speRef p # refSet) ps)"

text \<open>The first pair of a proposed and an existing pool that overlap.\<close>

definition overlapping_pool :: "pool list \<Rightarrow> schema_pool_entry \<Rightarrow> pool option" where
  "overlapping_pool existing proposed = (case parsePrefix (speCIDR proposed) of
     None \<Rightarrow> None
   | Some pp \<Rightarrow> List.find (\<lambda>ex. case parsePrefix (poolCIDR ex) of None \<Rightarrow> False
       | Some ep \<Rightarrow> prefixesOverlapIPv4 pp ep) existing)"

fun apply_conflict :: "pool list \<Rightarrow> schema_pool_entry list \<Rightarrow> (schema_pool_entry \<times> pool) option" where
  "apply_conflict existing [] = None"
| "apply_conflict existing (p # ps) = (case overlapping_pool existing p of
     Some ex \<Rightarrow> Some (p, ex)
   | None \<Rightarrow> apply_conflict existing ps)"

definition schema_conflict_error :: "'s store_ops \<Rightarrow> 's \<Rightarrow> schema_pool_entry list \<Rightarrow> 'a http_response option" where
  "schema_conflict_error ops s ps = (case opListPools ops s of
     Inl e \<Rightarrow> Some (RespErr 500 (Msg ''failed to list existing pools'') (OfStore e))
   | Inr existing \<Rightarrow> (case apply_conflict existing ps of
       None \<Rightarrow> None
     | Some (p, ex) \<Rightarrow> Some (RespErr 409
         (Sprintf ''pool %q (%s) overlaps with existing pool %q (%s)''
            [Msg (speName p), Msg (speCIDR p), Msg (poolName ex), Msg (poolCIDR ex)])
         (Msg ''set skip_conflicts to true to bypass this check''))))"

subsection \<open>Apply: the loop that creates the pools\<close>

record 's apply_state =
  apServer :: "'s server"
  apRefToID :: "(string, go_id) gomap"
  apCreated :: nat
  apSkipped :: nat
  apErrs :: "err_msg list"
  apRootPoolID :: go_id

definition entry_type :: "schema_pool_entry \<Rightarrow> pool_type \<times> err_msg list" where
  "entry_type p = (let t = (if speType p = [] then PoolTypeSubnet else speType p) in
     if \<not> IsValidPoolType t
     then (PoolTypeSubnet, [Sprintf ''pool %q: invalid type %q, using subnet'' [Msg (speRef p), Msg (speType p)]])
     else (t, []))"

definition entry_pool :: "pool_status \<Rightarrow> tags \<Rightarrow> schema_pool_entry \<Rightarrow> go_id option \<Rightarrow> create_pool" where
  "entry_pool status tags' p parent = \<lparr>cpName = speName p, cpCIDR = speCIDR p, cpParentID = parent,
     cpAccountID = None, cpType = fst (entry_type p), cpStatus = status, cpSource = PoolSourceManual,
     cpDescription = ''Created by Schema Planner'', cpTags = tags'\<rparr>"

definition skip_entry :: "schema_pool_entry \<Rightarrow> err_msg \<Rightarrow> 's apply_state \<Rightarrow> 's apply_state" where
  "skip_entry p e st = st\<lparr>apErrs := apErrs st @ snd (entry_type p) @ [e], apSkipped := apSkipped st + 1\<rparr>"

text \<open>\<open>Inl\<close> when the entry has a parent that has not been created.\<close>

definition resolve_parent :: "schema_pool_entry \<Rightarrow> (string, go_id) gomap \<Rightarrow> err_msg + go_id option" where
  "resolve_parent p refToID =
     (if speParentRef p = [] then Inr None
      else case map_of refToID (speParentRef p) of
        None \<Rightarrow> Inl (Sprintf ''pool %q: parent_ref %q not yet created'' [Msg (speRef p), Msg (speParentRef p)])
      | Some i \<Rightarrow> Inr (Some i))"

definition apply_entry :: "'s store_ops \<Rightarrow> req_env \<Rightarrow> pool_status \<Rightarrow> tags \<Rightarrow> schema_pool_entry \<Rightarrow>
    's apply_state \<Rightarrow> 's apply_state" where
  "apply_entry ops env status tags' p st = (case resolve_parent p (apRefToID st) of
     Inl e \<Rightarrow> skip_entry p e st
   | Inr parent \<Rightarrow>
      (let x = apServer st in case opCreatePool ops (envNow env) (svStore x) (entry_pool status tags' p parent) of
         (s, Inl e) \<Rightarrow> skip_entry p (Sprintf ''pool %q: %v'' [Msg (speRef p), OfStore e]) (st\<lparr>apServer := x\<lparr>svStore := s\<rparr>\<rparr>)
       | (s, Inr q) \<Rightarrow> st\<lparr>
           apServer := logAudit env (apCreated st) ActionAuditCreate ResourcePoolName (itoa_int (poolID q)) (poolName q) 201
             (x\<lparr>svStore := s\<rparr>),
           apRefToID := gput (speRef p) (poolID q) (apRefToID st),
           apRootPoolID := (if speParentRef p = [] then poolID q else apRootPoolID st),
           apErrs := apErrs st @ snd (entry_type p),
           apCreated := apCreated st + 1\<rparr>))"

definition apply_entries :: "'s store_ops \<Rightarrow> req_env \<Rightarrow> pool_status \<Rightarrow> tags \<Rightarrow> schema_pool_entry list \<Rightarrow>
    's apply_state \<Rightarrow> 's apply_state" where
  "apply_entries ops env status tags' ps st = fold (apply_entry ops env status tags') ps st"

definition apply_response :: "'s apply_state \<Rightarrow> schema_apply_response" where
  "apply_response st = \<lparr>syCreated = apCreated st, sySkipped = apSkipped st, syErrors = apErrs st,
     syRootPoolID = apRootPoolID st, syPoolMap = apRefToID st\<rparr>"

definition apply_tags :: "tags \<Rightarrow> tags" where
  "apply_tags t = Some (gput ''schema_planner'' ''true'' (case t of None \<Rightarrow> [] | Some m \<Rightarrow> m))"

definition apply_status :: "string \<Rightarrow> pool_status" where
  "apply_status status = (if status \<noteq> [] then status else PoolStatusPlanned)"

definition apply_start :: "'s server \<Rightarrow> 's apply_state" where
  "apply_start x = \<lparr>apServer = x, apRefToID = [], apCreated = 0, apSkipped = 0, apErrs = [], apRootPoolID = 0\<rparr>"

definition apply_done :: "'s store_ops \<Rightarrow> req_env \<Rightarrow> schema_apply_request \<Rightarrow> 's server \<Rightarrow> 's apply_state" where
  "apply_done ops env req x =
     apply_entries ops env (apply_status (saStatus req)) (apply_tags (saTags req)) (saPools req) (apply_start x)"

definition apply_error :: "'s store_ops \<Rightarrow> schema_apply_request \<Rightarrow> 's \<Rightarrow> 'a http_response option" where
  "apply_error ops req s =
     (if saPools req = [] then Some (writeErr 400 ''pools array is required'' [])
      else if saStatus req \<noteq> [] \<and> \<not> IsValidPoolStatus (saStatus req)
      then Some (RespErr 400 (Sprintf ''invalid status: %s'' [Msg (saStatus req)]) no_detail)
      else case entries_error [] [] (saPools req) of
        Some e \<Rightarrow> Some (RespErr 400 e no_detail)
      | None \<Rightarrow> if saSkipConflicts req then None else schema_conflict_error ops s (saPools req))"

definition handleSchemaApply :: "'s store_ops \<Rightarrow> req_env \<Rightarrow> http_request \<Rightarrow> schema_apply_request option \<Rightarrow>
    's server \<Rightarrow> 's server \<times> schema_payload http_response" where
  "handleSchemaApply ops env rq body x =
     (if rqMethod rq \<noteq> ''POST'' then (x, method_not_allowed)
      else case body of None \<Rightarrow> (x, writeErr 400 ''invalid json'' [])
      | Some req \<Rightarrow> (case apply_error ops req (svStore x) of Some r \<Rightarrow> (x, r)
        | None \<Rightarrow>
            let st = apply_done ops env req x
            in (apServer st, RespJSON 200 (PApply (apply_response st)))))"

end
