(* ===== verification/SchemaFacts.thy ===== *)
theory SchemaFacts
  imports SchemaHandlers
begin

section \<open>What the schema planner keeps\<close>

text \<open>
  The entries of an accepted request are well formed (\<open>entries_checked\<close>); over a plan, the conflict
  test is the meeting of address sets; and the loop that creates the pools keeps the plan when the
  entries themselves form one (\<open>request_plan\<close>), proved inside \<open>pool_store\<close> for every store.
\<close>

lemma schema_cidr_error_eq [simp]: "schema_cidr_error c = ValidateCIDR c"
  by (auto simp: schema_cidr_error_def ValidateCIDR_def ValidateCIDRWithOptions_def MinPrefixLength_def
      MaxPrefixLength_def Let_def split: option.split)

definition entry_checked :: "schema_pool_entry \<Rightarrow> bool" where
  "entry_checked e \<longleftrightarrow> speRef e \<noteq> [] \<and> ValidateName (speName e) = None \<and> ValidateCIDR (speCIDR e) = None"

lemma entries_checked:
  assumes "entries_error prevs refSet ps = None"
  shows "(\<forall>e \<in> set ps. entry_checked e) \<and> distinct (map speRef ps) \<and> set (map speRef ps) \<inter> set refSet = {}"
  using assms
proof (induction prevs refSet ps rule: entries_error.induct)
  case (2 prevs refSet p ps)
  then have p: "entry_error (length prevs) prevs refSet p = None" by (auto split: option.splits)
  then have "entry_checked p" "speRef p \<notin> set refSet"
    by (auto simp: entry_error_def entry_checked_def split: if_splits option.splits)
  with 2 p show ?case by auto
qed simp

lemma entries_parents:
  assumes "entries_error prevs refSet ps = None" "ps = ps1 @ e # ps2" "speParentRef e \<noteq> []"
  shows "speParentRef e \<in> set (map speRef prevs) \<union> set refSet \<union> set (map speRef (ps1 @ [e]))"
  using assms
proof (induction prevs refSet ps arbitrary: ps1 rule: entries_error.induct)
  case (2 prevs refSet p ps)
  have p: "entry_error (length prevs) prevs refSet p = None" using 2(2) by (simp split: option.splits)
  show ?case
  proof (cases ps1)
    case Nil
    then show ?thesis using p 2(3,4)
      by (force simp: entry_error_def list_ex_iff split: if_splits option.splits)
  next
    case (Cons a as)
    then show ?thesis using 2(1)[OF p, of as] 2(2-4) p by auto
  qed
qed simp

subsection \<open>Conflicts\<close>

lemma valid_cidr_v4:
  assumes "ValidateCIDR c = None" "trimSpace c = c"
  obtains w n where "parsePrefix c = Some (v4pfx w n)" "n \<le> 30" "aligned4 (v4pfx w n)"
  using assms by (auto simp: ValidateCIDR_None_iff)

lemma overlap_type_nested:
  assumes "aligned4 (v4pfx w m)" "aligned4 (v4pfx x n)" "m \<le> 32" "n \<le> 32" "addrs4 w m \<inter> addrs4 x n \<noteq> {}"
  shows "overlap_type (v4pfx w m) (v4pfx x n) = (if addrs4 x n \<subseteq> addrs4 w m then ''contains'' else ''contained_by'')"
    and "\<not> addrs4 x n \<subseteq> addrs4 w m \<Longrightarrow> addrs4 w m \<subseteq> addrs4 x n"
proof -
  have mem: "w \<in> addrs4 w m" "x \<in> addrs4 x n"
    using netmask4_in[of m w] netmask4_in[of n x] assms(1,2) by (simp_all add: aligned4_def)
  have nest: "m \<le> n \<Longrightarrow> addrs4 x n \<subseteq> addrs4 w m" "n \<le> m \<Longrightarrow> addrs4 w m \<subseteq> addrs4 x n"
    using addrs4_nested_or_disjoint[of m n x w] addrs4_nested_or_disjoint[of n m w x] assms(5) by (auto simp: Int_commute)
  have len: "addrs4 x n \<subseteq> addrs4 w m \<Longrightarrow> m \<le> n" using addrs4_subset_len[of x n w m] assms(3,4) by blast
  show "\<not> addrs4 x n \<subseteq> addrs4 w m \<Longrightarrow> addrs4 w m \<subseteq> addrs4 x n" using nest by linarith
  show "overlap_type (v4pfx w m) (v4pfx x n) = (if addrs4 x n \<subseteq> addrs4 w m then ''contains'' else ''contained_by'')"
  proof (cases "m \<le> n")
    case True
    then show ?thesis using nest(1) mem(2) by (auto simp: overlap_type_def)
  next
    case False
    then have "\<not> addrs4 x n \<subseteq> addrs4 w m" "w \<in> addrs4 x n" using len nest(2) mem(1) by auto
    then show ?thesis using False by (simp add: overlap_type_def)
  qed
qed

lemma case_option_mem: "c \<in> set (case v of None \<Rightarrow> [] | Some y \<Rightarrow> f y) \<longleftrightarrow> (\<exists>y. v = Some y \<and> c \<in> set (f y))"
  by (cases v) simp_all

lemma schema_conflicts_mem:
  "c \<in> set (schema_conflicts existing ps) \<longleftrightarrow> (\<exists>e \<in> set ps. \<exists>q \<in> set existing. \<exists>pp. parsePrefix (speCIDR e) = Some pp
      \<and> c \<in> set (schema_conflict_of e pp q))"
  unfolding schema_conflicts_def set_concat set_map by (simp add: case_option_mem) metis

definition entry_meets :: "schema_pool_entry \<Rightarrow> pool \<Rightarrow> bool" where
  "entry_meets e q \<longleftrightarrow> cidr_addrs (speCIDR e) \<inter> cidr_addrs (poolCIDR q) \<noteq> {}"

definition entry_conflict :: "schema_pool_entry \<Rightarrow> pool \<Rightarrow> schema_conflict" where
  "entry_conflict e q = \<lparr>scPlannedCIDR = speCIDR e, scPlannedName = speName e, scExistingPoolID = poolID q,
     scExistingPoolName = poolName q, scExistingCIDR = poolCIDR q,
     scOverlapType = (if cidr_addrs (poolCIDR q) \<subseteq> cidr_addrs (speCIDR e) then ''contains'' else ''contained_by'')\<rparr>"

lemma schema_conflict_of_valid:
  assumes "pool_valid q" "ValidateCIDR (speCIDR e) = None" "parsePrefix (speCIDR e) = Some pp" "trimSpace (speCIDR e) = speCIDR e"
  shows "schema_conflict_of e pp q = (if entry_meets e q then [entry_conflict e q] else [])"
    and "(case parsePrefix (poolCIDR q) of None \<Rightarrow> False | Some ep \<Rightarrow> prefixesOverlapIPv4 pp ep) \<longleftrightarrow> entry_meets e q"
proof -
  obtain x n where x: "parsePrefix (poolCIDR q) = Some (v4pfx x n)" "n \<le> 30" "aligned4 (v4pfx x n)"
    using assms(1) by (auto simp: pool_valid_def)
  obtain w m where w: "parsePrefix (speCIDR e) = Some (v4pfx w m)" "m \<le> 30" "aligned4 (v4pfx w m)"
    using valid_cidr_v4[OF assms(2,4)] .
  have pp: "pp = v4pfx w m" using assms(3) w(1) by simp
  have meets: "entry_meets e q \<longleftrightarrow> prefixesOverlapIPv4 (v4pfx w m) (v4pfx x n)"
    using x w by (simp add: entry_meets_def prefixesOverlapIPv4_v4)
  have "overlap_type (v4pfx w m) (v4pfx x n) = (if cidr_addrs (poolCIDR q) \<subseteq> cidr_addrs (speCIDR e) then ''contains'' else ''contained_by'')"
    if "entry_meets e q"
    using that overlap_type_nested(1)[OF w(3) x(3)] x w by (simp add: entry_meets_def)
  then show "schema_conflict_of e pp q = (if entry_meets e q then [entry_conflict e q] else [])"
    using x(1) by (simp add: schema_conflict_of_def entry_conflict_def pp meets)
  show "(case parsePrefix (poolCIDR q) of None \<Rightarrow> False | Some ep \<Rightarrow> prefixesOverlapIPv4 pp ep) \<longleftrightarrow> entry_meets e q"
    using x(1) meets pp by simp
qed

lemma check_cidrs_None: "check_cidrs k ps = None \<longleftrightarrow> (\<forall>e \<in> set ps. ValidateCIDR (speCIDR e) = None)"
  by (induction ps arbitrary: k) (auto split: option.splits)

text \<open>The untrimmed text of an entry is what is parsed later.\<close>

definition plain_cidr :: "schema_pool_entry \<Rightarrow> bool" where
  "plain_cidr e \<longleftrightarrow> trimSpace (speCIDR e) = speCIDR e"

lemma schema_conflicts_valid:
  assumes "\<And>q. q \<in> set existing \<Longrightarrow> pool_valid q" "\<And>e. e \<in> set ps \<Longrightarrow> ValidateCIDR (speCIDR e) = None \<and> plain_cidr e"
  shows "set (schema_conflicts existing ps) = {entry_conflict e q | e q. e \<in> set ps \<and> q \<in> set existing \<and> entry_meets e q}"
proof -
  have parsed: "\<exists>pp. parsePrefix (speCIDR e) = Some pp" if "e \<in> set ps" for e
    using assms(2)[OF that] valid_cidr_v4[of "speCIDR e"] unfolding plain_cidr_def by metis
  have "c \<in> set (schema_conflicts existing ps) \<longleftrightarrow> (\<exists>e q. c = entry_conflict e q \<and> e \<in> set ps \<and> q \<in> set existing \<and> entry_meets e q)" for c
  proof
    assume "c \<in> set (schema_conflicts existing ps)"
    then obtain e q pp where e: "e \<in> set ps" "q \<in> set existing" "parsePrefix (speCIDR e) = Some pp" "c \<in> set (schema_conflict_of e pp q)"
      unfolding schema_conflicts_mem by blast
    have "schema_conflict_of e pp q = (if entry_meets e q then [entry_conflict e q] else [])"
      using schema_conflict_of_valid(1)[OF assms(1)[OF e(2)] _ e(3)] assms(2)[OF e(1)] by (simp only: plain_cidr_def)
    with e show "\<exists>e q. c = entry_conflict e q \<and> e \<in> set ps \<and> q \<in> set existing \<and> entry_meets e q"
      by (intro exI[of _ e] exI[of _ q]) (simp split: if_splits)
  next
    assume "\<exists>e q. c = entry_conflict e q \<and> e \<in> set ps \<and> q \<in> set existing \<and> entry_meets e q"
    then obtain e q where e: "c = entry_conflict e q" "e \<in> set ps" "q \<in> set existing" "entry_meets e q" by blast
    obtain pp where pp: "parsePrefix (speCIDR e) = Some pp" using parsed[OF e(2)] by blast
    have "schema_conflict_of e pp q = [entry_conflict e q]"
      using schema_conflict_of_valid(1)[OF assms(1)[OF e(3)] _ pp] assms(2)[OF e(2)] e(4) unfolding plain_cidr_def by simp
    then show "c \<in> set (schema_conflicts existing ps)"
      unfolding schema_conflicts_mem using e(1-3) pp by (metis list.set_intros(1))
  qed
  then show ?thesis by blast
qed

lemma overlapping_pool_None:
  assumes "\<And>q. q \<in> set existing \<Longrightarrow> pool_valid q" "ValidateCIDR (speCIDR e) = None" "plain_cidr e"
  shows "overlapping_pool existing e = None \<longleftrightarrow> (\<forall>q \<in> set existing. \<not> entry_meets e q)"
proof -
  obtain pp where pp: "parsePrefix (speCIDR e) = Some pp"
    using assms(2,3) valid_cidr_v4[of "speCIDR e"] unfolding plain_cidr_def by metis
  have "(case parsePrefix (poolCIDR q) of None \<Rightarrow> False | Some ep \<Rightarrow> prefixesOverlapIPv4 pp ep) \<longleftrightarrow> entry_meets e q"
    if "q \<in> set existing" for q
    using schema_conflict_of_valid(2)[OF assms(1)[OF that] assms(2) pp] assms(3) by (simp add: plain_cidr_def)
  then show ?thesis by (auto simp: overlapping_pool_def pp find_None_iff)
qed

lemma apply_conflict_None: "apply_conflict existing ps = None \<longleftrightarrow> (\<forall>e \<in> set ps. overlapping_pool existing e = None)"
  by (induction ps) (auto split: option.splits)

subsection \<open>The loop\<close>

definition request_plan :: "schema_pool_entry list \<Rightarrow> bool" where
  "request_plan ps \<longleftrightarrow> (\<forall>e \<in> set ps. plain_cidr e)
     \<and> (\<forall>e \<in> set ps. \<forall>f \<in> set ps. e \<noteq> f \<longrightarrow> speParentRef e = speParentRef f \<longrightarrow>
          speCIDR e = speCIDR f \<or> cidr_addrs (speCIDR e) \<inter> cidr_addrs (speCIDR f) = {})
     \<and> (\<forall>e \<in> set ps. \<forall>f \<in> set ps. speParentRef e \<noteq> [] \<longrightarrow> speParentRef e = speRef f \<longrightarrow>
          cidr_addrs (speCIDR e) \<subset> cidr_addrs (speCIDR f))"

definition parent_id :: "(string, go_id) gomap \<Rightarrow> schema_pool_entry \<Rightarrow> go_id option" where
  "parent_id refs e = (if speParentRef e = [] then None else map_of refs (speParentRef e))"

text \<open>The pool that stands for an entry after the loop.\<close>

definition entry_stands :: "pool_status \<Rightarrow> tags \<Rightarrow> (go_id \<Rightarrow> pool option) \<Rightarrow> (string, go_id) gomap \<Rightarrow> schema_pool_entry \<Rightarrow> go_id \<Rightarrow> bool" where
  "entry_stands status tags' m refs e i \<longleftrightarrow> map_of refs (speRef e) = Some i \<and>
     (\<exists>p. m i = Some p \<and> created_from (entry_pool status tags' e (parent_id refs e)) p)"

definition loop_inv :: "pool_status \<Rightarrow> tags \<Rightarrow> (go_id \<Rightarrow> pool option) \<Rightarrow> schema_pool_entry list \<Rightarrow> (go_id \<Rightarrow> pool option) \<Rightarrow>
    (string, go_id) gomap \<Rightarrow> bool" where
  "loop_inv status tags' m0 done' m refs \<longleftrightarrow> addr_plan m
     \<and> (\<forall>i p. m0 i = Some p \<longrightarrow> m i = Some p)
     \<and> (\<forall>i p. m i = Some p \<longrightarrow> m0 i = Some p \<or> (\<exists>e \<in> set done'. entry_stands status tags' m refs e i))
     \<and> (\<forall>r i. map_of refs r = Some i \<longrightarrow> m0 i = None \<and> (\<exists>e \<in> set done'. speRef e = r \<and> entry_stands status tags' m refs e i))
     \<and> (\<forall>e \<in> set done'. speParentRef e \<noteq> [] \<longrightarrow> map_of refs (speRef e) \<noteq> None \<longrightarrow> map_of refs (speParentRef e) \<noteq> None)
     \<and> inj_on (map_of refs) (dom (map_of refs))"

lemma entry_pool_simps [simp]:
  "cpName (entry_pool st t e par) = speName e" "cpCIDR (entry_pool st t e par) = speCIDR e"
  "cpParentID (entry_pool st t e par) = par" "cpStatus (entry_pool st t e par) = st"
  by (simp_all add: entry_pool_def)

lemma entry_type_valid: "IsValidPoolType (fst (entry_type e))"
  by (simp add: entry_type_def Let_def valid_or_default)

lemma entry_pool_input:
  assumes "entry_checked e" "IsValidPoolStatus st"
  shows "create_input_error (entry_pool st t e par) = None"
  using assms entry_type_valid[of e]
  by (simp add: create_input_error_def entry_checked_def entry_pool_def valid_or_default)

text \<open>Skipping an entry changes nothing; creating its pool extends the plan.\<close>

lemma loop_invD:
  assumes "loop_inv status tags' m0 done' m refs"
  shows "addr_plan m" "m0 i = Some p \<Longrightarrow> m i = Some p"
    "m i = Some p \<Longrightarrow> m0 i = Some p \<or> (\<exists>e \<in> set done'. entry_stands status tags' m refs e i)"
    "map_of refs r = Some i \<Longrightarrow> m0 i = None \<and> (\<exists>e \<in> set done'. speRef e = r \<and> entry_stands status tags' m refs e i)"
    "e \<in> set done' \<Longrightarrow> speParentRef e \<noteq> [] \<Longrightarrow> map_of refs (speRef e) \<noteq> None \<Longrightarrow> map_of refs (speParentRef e) \<noteq> None"
    "inj_on (map_of refs) (dom (map_of refs))"
  using assms unfolding loop_inv_def by blast+

lemma loop_inv_refs:
  assumes "loop_inv status tags' m0 done' m refs" "r \<notin> speRef ` set done'"
  shows "map_of refs r = None"
  using loop_invD(4)[OF assms(1), of r] assms(2) by (cases "map_of refs r") auto

lemma loop_inv_skip:
  assumes L: "loop_inv status tags' m0 done' m refs" and new: "speRef e \<notin> speRef ` set done'"
  shows "loop_inv status tags' m0 (done' @ [e]) m refs"
proof -
  note none = loop_inv_refs[OF L new]
  show ?thesis
    unfolding loop_inv_def
  proof (intro conjI allI impI ballI)
    show "addr_plan m" "inj_on (map_of refs) (dom (map_of refs))" using loop_invD(1,6)[OF L] by blast+
    show "m i = Some p" if "m0 i = Some p" for i p using loop_invD(2)[OF L that] .
    show "m0 i = Some p \<or> (\<exists>e \<in> set (done' @ [e]). entry_stands status tags' m refs e i)" if "m i = Some p" for i p
      using loop_invD(3)[OF L that] by auto
    show "m0 i = None" "\<exists>e \<in> set (done' @ [e]). speRef e = r \<and> entry_stands status tags' m refs e i" if "map_of refs r = Some i" for r i
      using loop_invD(4)[OF L that] by auto
    show "map_of refs (speParentRef f) \<noteq> None" if "f \<in> set (done' @ [e])" "speParentRef f \<noteq> []" "map_of refs (speRef f) \<noteq> None" for f
      using loop_invD(5)[OF L] that none by auto
  qed
qed

lemma entry_siblings:
  assumes L: "loop_inv status tags' m0 done' m refs" and new: "speRef e \<notin> speRef ` set done'"
    and plan: "request_plan ps" "set done' \<subseteq> set ps" "e \<in> set ps"
    and parent: "speParentRef e \<noteq> [] \<Longrightarrow> map_of refs (speParentRef e) \<noteq> None"
    and f: "f \<in> set done'" "map_of refs (speRef f) \<noteq> None" "parent_id refs f = parent_id refs e"
  shows "speCIDR e = speCIDR f \<or> cidr_addrs (speCIDR e) \<inter> cidr_addrs (speCIDR f) = {}"
proof -
  have parent_f: "speParentRef f \<noteq> [] \<Longrightarrow> map_of refs (speParentRef f) \<noteq> None"
    using loop_invD(5)[OF L f(1)] f(2) by blast
  have "speParentRef e = speParentRef f"
  proof (cases "speParentRef e = [] \<or> speParentRef f = []")
    case True
    then show ?thesis using f(3) parent parent_f by (auto simp: parent_id_def split: if_splits)
  next
    case False
    then show ?thesis using f(3) parent parent_f inj_onD[OF loop_invD(6)[OF L]] by (simp add: parent_id_def domIff)
  qed
  moreover have "e \<noteq> f" using new f(1) by blast
  ultimately show ?thesis using plan f(1) unfolding request_plan_def by blast
qed

lemma loop_inv_plan:
  assumes L: "loop_inv status tags' m0 done' m refs" and new: "speRef e \<notin> speRef ` set done'"
    and plan: "request_plan ps" "set done' \<subseteq> set ps" "e \<in> set ps"
    and e: "entry_checked e" and st: "IsValidPoolStatus status"
    and parent: "speParentRef e \<noteq> [] \<Longrightarrow> map_of refs (speParentRef e) \<noteq> None"
    and free: "\<And>i q. m0 i = Some q \<Longrightarrow> \<not> entry_meets e q"
    and p: "m i = None" "created_from (entry_pool status tags' e (parent_id refs e)) p"
  shows "addr_plan (m(i \<mapsto> p))"
proof (rule addr_plan_extend[OF loop_invD(1)[OF L] p(1)])
  let ?c = "entry_pool status tags' e (parent_id refs e)"
  have pc: "poolCIDR p = speCIDR e" "poolParentID p = parent_id refs e" using p(2) by (simp_all add: created_from_def)
  have plain: "plain_cidr e" using plan(1,3) by (simp add: request_plan_def)
  obtain w n where w: "parsePrefix (speCIDR e) = Some (v4pfx w n)"
    using valid_cidr_v4[of "speCIDR e"] e plain unfolding entry_checked_def plain_cidr_def by metis
  show "pool_valid p"
    using created_pool_valid[OF entry_pool_input[OF e st] _ _ p(2), of "v4pfx w n"] w by simp
  show "nested m p"
  proof (cases "speParentRef e = []")
    case False
    then obtain k where k: "map_of refs (speParentRef e) = Some k" using parent by blast
    obtain f where f: "f \<in> set done'" "speRef f = speParentRef e" "entry_stands status tags' m refs f k"
      using loop_invD(4)[OF L k] by blast
    then obtain q where q: "m k = Some q" "poolCIDR q = speCIDR f" by (auto simp: entry_stands_def created_from_def)
    have "f \<in> set ps" using f(1) plan(2) by blast
    then have "cidr_addrs (speCIDR e) \<subset> cidr_addrs (speCIDR f)"
      using plan(1,3) False f(2) unfolding request_plan_def by metis
    then show ?thesis using pc q k False by (simp add: nested_def parent_id_def)
  qed (simp add: nested_def pc parent_id_def)
  show "apart p q" if q: "m j = Some q" "poolParentID q = poolParentID p" for j q
  proof (cases "m0 j = Some q")
    case True
    then show ?thesis using free[of j q] by (simp add: apart_def pc entry_meets_def)
  next
    case False
    then obtain f where f: "f \<in> set done'" "entry_stands status tags' m refs f j" using loop_invD(3)[OF L q(1)] by blast
    then have qf: "poolCIDR q = speCIDR f" "poolParentID q = parent_id refs f" "map_of refs (speRef f) \<noteq> None"
      using q(1) by (auto simp: entry_stands_def created_from_def)
    show ?thesis
      using entry_siblings[OF L new plan parent f(1) qf(3)] q(2) qf(1,2) pc by (simp add: apart_def)
  qed
qed

lemma entry_stands_extend:
  assumes L: "loop_inv status tags' m0 done' m refs" and new: "speRef e \<notin> speRef ` set done'"
    and f: "f \<in> set done'" "entry_stands status tags' m refs f j" and i: "m i = None"
  shows "entry_stands status tags' (m(i \<mapsto> p)) (gput (speRef e) i refs) f j"
proof -
  have none: "map_of refs (speRef e) = None" by (rule loop_inv_refs[OF L new])
  have ne: "speRef f \<noteq> speRef e" using new f(1) by force
  have "speParentRef f \<noteq> [] \<Longrightarrow> map_of refs (speParentRef f) \<noteq> None"
    using loop_invD(5)[OF L f(1)] f(2) by (auto simp: entry_stands_def)
  then have "parent_id (gput (speRef e) i refs) f = parent_id refs f" using none by (cases "speParentRef f = []") (auto simp: parent_id_def)
  moreover have "j \<noteq> i" using f(2) i by (auto simp: entry_stands_def)
  ultimately show ?thesis using f(2) ne by (auto simp: entry_stands_def)
qed

lemma loop_inv_create:
  assumes L: "loop_inv status tags' m0 done' m refs" and new: "speRef e \<notin> speRef ` set done'"
    and plan: "request_plan ps" "set done' \<subseteq> set ps" "e \<in> set ps"
    and e: "entry_checked e" and st: "IsValidPoolStatus status"
    and parent: "speParentRef e \<noteq> [] \<Longrightarrow> map_of refs (speParentRef e) \<noteq> None"
    and free: "\<And>i q. m0 i = Some q \<Longrightarrow> \<not> entry_meets e q"
    and p: "m i = None" "created_from (entry_pool status tags' e (parent_id refs e)) p"
  shows "loop_inv status tags' m0 (done' @ [e]) (m(i \<mapsto> p)) (gput (speRef e) i refs)"
proof -
  let ?m = "m(i \<mapsto> p)" let ?refs = "gput (speRef e) i refs"
  have none: "map_of refs (speRef e) = None" by (rule loop_inv_refs[OF L new])
  have "parent_id ?refs e = parent_id refs e" using parent none by (cases "speParentRef e = []") (auto simp: parent_id_def)
  then have here: "entry_stands status tags' ?m ?refs e i" using p(2) by (simp add: entry_stands_def)
  note old = entry_stands_extend[OF L new _ _ p(1)]
  have i0: "m0 i = None" using loop_invD(2)[OF L, of i] p(1) by (cases "m0 i") auto
  have unused: "map_of refs r \<noteq> Some i" for r using loop_invD(4)[OF L, of r i] p(1) by (auto simp: entry_stands_def)
  show ?thesis
    unfolding loop_inv_def
  proof (intro conjI allI impI ballI)
    show "addr_plan ?m" by (rule loop_inv_plan[OF L new plan e st parent free p])
    show "?m j = Some q" if "m0 j = Some q" for j q using loop_invD(2)[OF L that] i0 that by auto
    show "m0 j = Some q \<or> (\<exists>f \<in> set (done' @ [e]). entry_stands status tags' ?m ?refs f j)" if "?m j = Some q" for j q
    proof (cases "j = i")
      case False
      then have "m j = Some q" using that by simp
      with loop_invD(3)[OF L this] old show ?thesis by auto
    qed (use here in auto)
    show "m0 j = None" if "map_of ?refs r = Some j" for r j
      using that i0 loop_invD(4)[OF L, of r j] by (auto split: if_splits)
    show "\<exists>f \<in> set (done' @ [e]). speRef f = r \<and> entry_stands status tags' ?m ?refs f j" if "map_of ?refs r = Some j" for r j
    proof (cases "r = speRef e")
      case False
      then have "map_of refs r = Some j" using that by simp
      with loop_invD(4)[OF L this] old show ?thesis by auto
    qed (use that here in auto)
    show "map_of ?refs (speParentRef f) \<noteq> None" if "f \<in> set (done' @ [e])" "speParentRef f \<noteq> []" "map_of ?refs (speRef f) \<noteq> None" for f
    proof (cases "f = e")
      case False
      then have "f \<in> set done'" "speRef f \<noteq> speRef e" using that(1) new by (auto simp: image_iff)
      then have "map_of refs (speParentRef f) \<noteq> None" using loop_invD(5)[OF L, of f] that(2,3) by simp
      then show ?thesis by simp
    qed (use that(2) parent in simp)
    show "inj_on (map_of ?refs) (dom (map_of ?refs))"
      using loop_invD(6)[OF L] unused by (auto simp: inj_on_def dom_def)
  qed
qed

subsection \<open>The handler, for every store that meets the contract\<close>

context pool_store
begin

lemma apply_entry_plan:
  fixes st :: "'s apply_state" and env status tags' e
  defines "x \<equiv> svStore (apServer st)" and "y \<equiv> svStore (apServer (apply_entry ops env status tags' e st))"
  assumes s: "inv x" and L: "loop_inv status tags' m0 done' (live x) (apRefToID st)"
    and new: "speRef e \<notin> speRef ` set done'"
    and plan: "request_plan ps" "set done' \<subseteq> set ps" "e \<in> set ps"
    and e: "entry_checked e" and st: "IsValidPoolStatus status"
    and free: "\<And>i q. m0 i = Some q \<Longrightarrow> \<not> entry_meets e q"
  shows "inv y \<and> loop_inv status tags' m0 (done' @ [e]) (live y) (apRefToID (apply_entry ops env status tags' e st))"
proof (cases "resolve_parent e (apRefToID st)")
  case (Inl er)
  then show ?thesis using s loop_inv_skip[OF L new] by (simp add: apply_entry_def y_def x_def skip_entry_def)
next
  case (Inr parent)
  then have par: "parent = parent_id (apRefToID st) e" "speParentRef e \<noteq> [] \<Longrightarrow> map_of (apRefToID st) (speParentRef e) \<noteq> None"
    by (cases "map_of (apRefToID st) (speParentRef e)"; auto simp: resolve_parent_def parent_id_def split: if_splits)+
  let ?c = "entry_pool status tags' e parent"
  have "\<exists>q. live x i = Some q" if "parent = Some i" for i
    using that par loop_invD(4)[OF L, of "speParentRef e" i] by (auto simp: parent_id_def entry_stands_def split: if_splits)
  then have ok: "inv (fst (opCreatePool ops (envNow env) x ?c))" using create_inv[OF s, of ?c] by fastforce
  obtain z res where z: "opCreatePool ops (envNow env) x ?c = (z, res)" by (rule prod.exhaust)
  show ?thesis
  proof (cases res)
    case (Inl er)
    have "y = z" "apRefToID (apply_entry ops env status tags' e st) = apRefToID st"
      using Inr Inl z by (simp_all add: apply_entry_def y_def x_def Let_def skip_entry_def)
    moreover have "live z = live x" using create_error[OF s] z Inl by blast
    ultimately show ?thesis using loop_inv_skip[OF L new] ok z by simp
  next
    case (Inr p)
    have "y = z" "apRefToID (apply_entry ops env status tags' e st) = gput (speRef e) (poolID p) (apRefToID st)"
      using \<open>resolve_parent e (apRefToID st) = Inr parent\<close> Inr z by (simp_all add: apply_entry_def y_def x_def Let_def)
    moreover have n: "live x (poolID p) = None" "live z = (live x)(poolID p \<mapsto> p)" "created_from ?c p"
      using create_pool[OF s] z Inr by blast+
    ultimately show ?thesis
      using loop_inv_create[OF L new plan e st par(2) free n(1) n(3)[unfolded par(1)]] ok z by simp
  qed
qed

lemma apply_entries_plan:
  fixes st :: "'s apply_state"
  assumes "inv (svStore (apServer st))" "loop_inv status tags' m0 done' (live (svStore (apServer st))) (apRefToID st)"
    and "distinct (map speRef (done' @ todo))" "request_plan ps" "set (done' @ todo) \<subseteq> set ps"
    and "\<And>e. e \<in> set todo \<Longrightarrow> entry_checked e" "IsValidPoolStatus status"
    and "\<And>e i q. e \<in> set todo \<Longrightarrow> m0 i = Some q \<Longrightarrow> \<not> entry_meets e q"
  shows "inv (svStore (apServer (apply_entries ops env status tags' todo st)))
     \<and> loop_inv status tags' m0 (done' @ todo) (live (svStore (apServer (apply_entries ops env status tags' todo st))))
         (apRefToID (apply_entries ops env status tags' todo st))"
  using assms
proof (induction todo arbitrary: done' st)
  case Nil
  then show ?case by (simp add: apply_entries_def)
next
  case (Cons e todo)
  have "speRef e \<notin> speRef ` set done'" using Cons.prems(3) by auto
  from apply_entry_plan[OF Cons.prems(1,2) this Cons.prems(4) _ _ Cons.prems(6) Cons.prems(7) Cons.prems(8)]
  show ?case
    using Cons.IH[of "apply_entry ops env status tags' e st" "done' @ [e]"] Cons.prems(3-8)
    by (simp add: apply_entries_def)
qed

lemma loop_inv_start: "addr_plan m \<Longrightarrow> loop_inv status tags' m [] m []"
  by (simp add: loop_inv_def)

lemma schema_apply_plan:
  assumes s: "inv (svStore x)" and m: "addr_plan (live (svStore x))"
    and ok: "apply_error ops req (svStore x) = (None :: schema_payload http_response option)"
    and req: "\<not> saSkipConflicts req" "request_plan (saPools req)"
  shows "inv (svStore (apServer (apply_done ops env req x)))
     \<and> loop_inv (apply_status (saStatus req)) (apply_tags (saTags req)) (live (svStore x)) (saPools req)
         (live (svStore (apServer (apply_done ops env req x)))) (apRefToID (apply_done ops env req x))"
proof -
  have entries: "entries_error [] [] (saPools req) = None"
    using ok by (auto simp: apply_error_def split: if_splits option.splits)
  note checked = entries_checked[OF entries]
  have status: "IsValidPoolStatus (apply_status (saStatus req))"
    using ok by (auto simp: apply_error_def apply_status_def valid_or_default ValidPoolStatuses_def split: if_splits)
  obtain ps where ps: "opListPools ops (svStore x) = Inr ps" "apply_conflict ps (saPools req) = None"
    using ok req(1) by (auto simp: apply_error_def schema_conflict_error_def split: if_splits option.splits sum.splits)
  have valid: "pool_valid q" if "q \<in> set ps" for q
    using that list_pools[OF s ps(1)] addr_planD(1)[OF m] by blast
  have free: "\<not> entry_meets e q" if "e \<in> set (saPools req)" "live (svStore x) i = Some q" for e i q
  proof -
    have "q \<in> set ps" using that(2) list_pools[OF s ps(1)] live_id[OF s that(2)] by simp
    moreover have "plain_cidr e" "ValidateCIDR (speCIDR e) = None"
      using that(1) req(2) checked by (auto simp: request_plan_def entry_checked_def)
    ultimately show ?thesis using overlapping_pool_None[OF valid] ps(2) that(1) by (auto simp: apply_conflict_None)
  qed
  show ?thesis
    unfolding apply_done_def
    using apply_entries_plan[of "apply_start x" _ _ "live (svStore x)" "[]" "saPools req" "saPools req" env]
      s loop_inv_start[OF m] checked req(2) status free by (simp add: apply_start_def)
qed

end

end
