(* ===== verification/SchemaProps.thy ===== *)
theory SchemaProps
  imports SchemaFacts ApiProps
begin

section \<open>Properties of the schema planner API\<close>

text \<open>
  The conflict check reports exactly the overlaps, applying a schema that is itself a plan keeps
  the address plan and creates every pool of it, and what the apply handler lets through otherwise.
\<close>

subsection \<open>The in-memory store creates every entry\<close>

definition apply_full :: "schema_pool_entry list \<Rightarrow> mstore apply_state \<Rightarrow> bool" where
  "apply_full done' st \<longleftrightarrow> dom (map_of (apRefToID st)) = speRef ` set done' \<and> apCreated st = length done' \<and> apSkipped st = 0
     \<and> apErrs st = concat (map (\<lambda>e. snd (entry_type e)) done')"

lemma CreatePool_succeeds: "cpName c \<noteq> [] \<Longrightarrow> cpCIDR c \<noteq> [] \<Longrightarrow> \<exists>s' p. CreatePool now s c = (s', Inr p)"
  by (simp add: CreatePool_def Let_def)

lemma checked_not_empty: "entry_checked e \<Longrightarrow> speName e \<noteq> [] \<and> speCIDR e \<noteq> []"
proof -
  assume "entry_checked e"
  then have "ValidateName (speName e) = None" "ValidateCIDR (speCIDR e) = None" by (simp_all add: entry_checked_def)
  then show ?thesis
    by (auto simp: ValidateName_def ValidateNameWithOptions_def ValidateCIDR_def ValidateCIDRWithOptions_def trimSpace_Nil Let_def
        split: if_splits)
qed

lemma apply_entry_full:
  assumes "apply_full done' st" "entry_checked e" "speParentRef e \<noteq> [] \<Longrightarrow> speParentRef e \<in> speRef ` set done'"
  shows "apply_full (done' @ [e]) (apply_entry memory_ops env status tags' e st)"
proof -
  have par: "resolve_parent e (apRefToID st) = Inr (parent_id (apRefToID st) e)"
  proof (cases "speParentRef e = []")
    case False
    then have "speParentRef e \<in> dom (map_of (apRefToID st))" using assms(1,3) by (simp add: apply_full_def)
    then show ?thesis using False by (auto simp: resolve_parent_def parent_id_def)
  qed (simp add: resolve_parent_def parent_id_def)
  obtain s' p where "CreatePool (envNow env) (svStore (apServer st)) (entry_pool status tags' e (parent_id (apRefToID st) e)) = (s', Inr p)"
    using CreatePool_succeeds checked_not_empty[OF assms(2)] by (metis entry_pool_simps(1,2))
  then show ?thesis using assms(1) by (auto simp: apply_entry_def par Let_def apply_full_def)
qed

lemma apply_entries_full:
  assumes "apply_full done' st" "\<And>e. e \<in> set todo \<Longrightarrow> entry_checked e"
    "\<And>a e b. todo = a @ e # b \<Longrightarrow> speParentRef e \<noteq> [] \<Longrightarrow> speParentRef e \<in> speRef ` set (done' @ a)"
  shows "apply_full (done' @ todo) (apply_entries memory_ops env status tags' todo st)"
  using assms
proof (induction todo arbitrary: done' st)
  case Nil
  then show ?case by (simp add: apply_entries_def)
next
  case (Cons e todo)
  have "apply_full (done' @ [e]) (apply_entry memory_ops env status tags' e st)"
    using apply_entry_full[OF Cons.prems(1) Cons.prems(2)] Cons.prems(3)[of "[]" e todo] by simp
  from Cons.IH[OF this] show ?case
    using Cons.prems(2) Cons.prems(3)[of "e # _"] by (simp add: apply_entries_def)
qed

lemma request_parents:
  assumes "entries_error [] [] ps = None" "request_plan ps" "ps = a @ e # b" "speParentRef e \<noteq> []"
  shows "speParentRef e \<in> speRef ` set a"
proof -
  have "speParentRef e \<noteq> speRef e"
    using assms(2-4) unfolding request_plan_def by (metis in_set_conv_decomp psubset_eq)
  then show ?thesis using entries_parents[OF assms(1,3,4)] by auto
qed

subsection \<open>Properties\<close>

lemma meets_nested:
  assumes "pool_valid q" "ValidateCIDR (speCIDR e) = None" "plain_cidr e" "entry_meets e q"
    "\<not> cidr_addrs (poolCIDR q) \<subseteq> cidr_addrs (speCIDR e)"
  shows "cidr_addrs (speCIDR e) \<subseteq> cidr_addrs (poolCIDR q)"
proof -
  obtain x n where x: "parsePrefix (poolCIDR q) = Some (v4pfx x n)" "n \<le> 30" "aligned4 (v4pfx x n)"
    using assms(1) by (auto simp: pool_valid_def)
  obtain w m where w: "parsePrefix (speCIDR e) = Some (v4pfx w m)" "m \<le> 30" "aligned4 (v4pfx w m)"
    using valid_cidr_v4[OF assms(2)] assms(3) unfolding plain_cidr_def by metis
  show ?thesis using overlap_type_nested(2)[OF w(3) x(3)] assms(4,5) x w by (simp add: entry_meets_def)
qed

lemma check_answer:
  assumes "handleSchemaCheck memory_ops rq (Some ps) s = RespJSON 200 (PCheck r)"
  shows "\<forall>e \<in> set ps. ValidateCIDR (speCIDR e) = None"
    and "srConflicts r = schema_conflicts (ListPools s) ps" "srConflictCount r = length (srConflicts r)" "srTotalPools r = length ps"
proof -
  have c: "check_cidrs 0 ps = (None :: schema_payload http_response option)"
  proof (rule ccontr)
    assume "check_cidrs 0 ps \<noteq> (None :: schema_payload http_response option)"
    then obtain q where q: "check_cidrs 0 ps = Some (q :: schema_payload http_response)" by blast
    have "\<exists>m d. q = RespErr 400 m d" if "check_cidrs k ps = Some (q :: schema_payload http_response)" for k
      using that by (induction ps arbitrary: k) (auto split: option.splits)
    then obtain m d where "q = RespErr 400 m d" using q by blast
    with assms q show False by (simp add: handleSchemaCheck_def method_not_allowed_def writeErr_def split: if_splits)
  qed
  then show "\<forall>e \<in> set ps. ValidateCIDR (speCIDR e) = None" by (simp add: check_cidrs_None)
  have "r = \<lparr>srConflicts = schema_conflicts (ListPools s) ps, srTotalPools = length ps,
      srConflictCount = length (schema_conflicts (ListPools s) ps)\<rparr>"
    using assms c by (simp add: handleSchemaCheck_def method_not_allowed_def writeErr_def Let_def split: if_splits)
  then show "srConflicts r = schema_conflicts (ListPools s) ps" "srConflictCount r = length (srConflicts r)" "srTotalPools r = length ps"
    by simp_all
qed

text \<open>C21: the conflict check is exact. Over a store whose live pools form an address plan, and for a
  request whose CIDRs have no surrounding spaces, a check reports a conflict for a proposed and
  an existing pool exactly when they share an address, with every field filled from the two;
  the reported kind tells which of the two contains the other, since two overlapping blocks are
  always nested, and the count is the number of conflicts. An apply with the same entries and
  without \<open>skip_conflicts\<close> passes its conflict test exactly when the check reports none.\<close>

theorem schema_check_exact:
  assumes "store_reachable s" "addr_plan (GetPool s)" "\<forall>e \<in> set ps. plain_cidr e"
    and "handleSchemaCheck memory_ops rq (Some ps) s = RespJSON 200 (PCheck r)"
  shows "set (srConflicts r) = {entry_conflict e q | e q. e \<in> set ps \<and> GetPool s (poolID q) = Some q \<and> entry_meets e q}
    \<and> (\<forall>e q. e \<in> set ps \<and> GetPool s (poolID q) = Some q \<and> entry_meets e q \<and>
         \<not> cidr_addrs (poolCIDR q) \<subseteq> cidr_addrs (speCIDR e) \<longrightarrow> cidr_addrs (speCIDR e) \<subseteq> cidr_addrs (poolCIDR q))
    \<and> srConflictCount r = length (srConflicts r)
    \<and> (schema_conflict_error memory_ops s ps = (None :: schema_payload http_response option) \<longleftrightarrow> srConflictCount r = 0)"
proof -
  note r = check_answer[OF assms(4)]
  have mem: "q \<in> set (ListPools s) \<longleftrightarrow> GetPool s (poolID q) = Some q" for q
    using mem.list_pools[OF assms(1), of "ListPools s" q] by simp
  have valid: "pool_valid q" if "q \<in> set (ListPools s)" for q
    using that addr_planD(1)[OF assms(2)] mem by blast
  have ps: "ValidateCIDR (speCIDR e) = None \<and> plain_cidr e" if "e \<in> set ps" for e using that r(1) assms(3) by blast
  have set: "set (srConflicts r) = {entry_conflict e q | e q. e \<in> set ps \<and> q \<in> set (ListPools s) \<and> entry_meets e q}"
    unfolding r(2) by (rule schema_conflicts_valid[OF valid ps])
  have "schema_conflict_error memory_ops s ps = (None :: schema_payload http_response option)
      \<longleftrightarrow> (\<forall>e \<in> set ps. \<forall>q \<in> set (ListPools s). \<not> entry_meets e q)"
  proof -
    have "schema_conflict_error memory_ops s ps = (None :: schema_payload http_response option)
        \<longleftrightarrow> apply_conflict (ListPools s) ps = None"
      by (auto simp: schema_conflict_error_def split: option.split)
    then show ?thesis using overlapping_pool_None[OF valid] ps by (simp add: apply_conflict_None)
  qed
  also have "\<dots> \<longleftrightarrow> set (srConflicts r) = {}" unfolding set by blast
  also have "\<dots> \<longleftrightarrow> srConflictCount r = 0" using r(3) by simp
  finally have "schema_conflict_error memory_ops s ps = (None :: schema_payload http_response option) \<longleftrightarrow> srConflictCount r = 0" .
  then show ?thesis
    using set r(3) meets_nested[OF valid] ps unfolding mem by blast
qed

lemma apply_answer:
  assumes "handleSchemaApply ops env rq (Some req) x = (y, RespJSON 200 (PApply r))"
  shows "apply_error ops req (svStore x) = (None :: schema_payload http_response option)"
    and "y = apServer (apply_done ops env req x)" "r = apply_response (apply_done ops env req x)"
proof -
  have err: "\<exists>c m d. q = RespErr c m d" if "apply_error ops req (svStore x) = Some (q :: schema_payload http_response)" for q
    using that by (auto simp: apply_error_def writeErr_def schema_conflict_error_def split: if_splits option.splits sum.splits prod.splits)
  show e: "apply_error ops req (svStore x) = (None :: schema_payload http_response option)"
  proof (rule ccontr)
    assume "apply_error ops req (svStore x) \<noteq> (None :: schema_payload http_response option)"
    then obtain q where q: "apply_error ops req (svStore x) = Some (q :: schema_payload http_response)" by blast
    from err[OF q] assms q show False
      by (auto simp: handleSchemaApply_def method_not_allowed_def writeErr_def split: if_splits)
  qed
  show "y = apServer (apply_done ops env req x)" "r = apply_response (apply_done ops env req x)"
    using assms e by (simp_all add: handleSchemaApply_def method_not_allowed_def writeErr_def Let_def split: if_splits)
qed

text \<open>C20: applying a schema builds it. Over the in-memory store with an address plan, take a request
  without \<open>skip_conflicts\<close> whose entries form a plan themselves: no surrounding spaces, two
  entries with the same parent reference have the same CIDR or share no address, and an entry lies strictly
  inside the entry it refers to. If the handler accepts it, no entry is skipped, the map of the
  response gives for each entry the id of a live pool with the entry's name, CIDR, type and
  status whose parent is the pool of the entry's parent, every other live pool was there
  before and stays, the reported errors are the replaced types, and the live pools are an
  address plan again.\<close>

theorem schema_apply_builds_plan:
  assumes "store_reachable (svStore x)" "addr_plan (GetPool (svStore x))"
    and "\<not> saSkipConflicts req" "request_plan (saPools req)"
    and "handleSchemaApply memory_ops env rq (Some req) x = (y, RespJSON 200 (PApply r))"
  shows "store_reachable (svStore y) \<and> addr_plan (GetPool (svStore y))
    \<and> syCreated r = length (saPools req) \<and> sySkipped r = 0
    \<and> syErrors r = concat (map (\<lambda>e. snd (entry_type e)) (saPools req))
    \<and> (\<forall>e \<in> set (saPools req). \<exists>i. entry_stands (apply_status (saStatus req)) (apply_tags (saTags req))
         (GetPool (svStore y)) (syPoolMap r) e i)
    \<and> (\<forall>i p. GetPool (svStore x) i = Some p \<longrightarrow> GetPool (svStore y) i = Some p)
    \<and> (\<forall>i p. GetPool (svStore y) i = Some p \<longrightarrow> GetPool (svStore x) i = Some p
         \<or> (\<exists>e \<in> set (saPools req). map_of (syPoolMap r) (speRef e) = Some i))"
proof -
  note a = apply_answer[OF assms(5)]
  have L: "store_reachable (svStore y)"
    "loop_inv (apply_status (saStatus req)) (apply_tags (saTags req)) (GetPool (svStore x)) (saPools req) (GetPool (svStore y)) (syPoolMap r)"
    using mem.schema_apply_plan[OF assms(1,2) a(1) assms(3,4), of env] a(2,3) by (simp_all add: apply_response_def)
  have entries: "entries_error [] [] (saPools req) = None"
    using a(1) by (auto simp: apply_error_def split: if_splits option.splits)
  have checked: "\<And>e. e \<in> set (saPools req) \<Longrightarrow> entry_checked e" using entries_checked[OF entries] by blast
  have "apply_full ([] @ saPools req) (apply_done memory_ops env req x)"
    unfolding apply_done_def
    by (rule apply_entries_full[OF _ checked]) (use request_parents[OF entries assms(4)] in \<open>simp_all add: apply_full_def apply_start_def\<close>)
  then have full: "dom (map_of (syPoolMap r)) = speRef ` set (saPools req)" "syCreated r = length (saPools req)" "sySkipped r = 0"
      "syErrors r = concat (map (\<lambda>e. snd (entry_type e)) (saPools req))"
    by (simp_all add: apply_full_def a(3) apply_response_def)
  have stands: "\<exists>i. entry_stands (apply_status (saStatus req)) (apply_tags (saTags req)) (GetPool (svStore y)) (syPoolMap r) e i"
    if e: "e \<in> set (saPools req)" for e
  proof -
    obtain i where i: "map_of (syPoolMap r) (speRef e) = Some i" using full(1) e by blast
    obtain f where f: "f \<in> set (saPools req)" "speRef f = speRef e"
        "entry_stands (apply_status (saStatus req)) (apply_tags (saTags req)) (GetPool (svStore y)) (syPoolMap r) f i"
      using loop_invD(4)[OF L(2) i] by blast
    have "f = e" using f(1,2) e entries_checked[OF entries] by (metis distinct_map inj_onD)
    then show ?thesis using f(3) by blast
  qed
  moreover have "GetPool (svStore x) i = Some p \<or> (\<exists>e \<in> set (saPools req). map_of (syPoolMap r) (speRef e) = Some i)"
    if "GetPool (svStore y) i = Some p" for i p
    using loop_invD(3)[OF L(2) that] by (auto simp: entry_stands_def)
  ultimately show ?thesis
    using L(1) loop_invD(1,2)[OF L(2)] full(2-4) by blast
qed

subsection \<open>Concrete requests\<close>

definition demo_entry :: "string \<Rightarrow> string \<Rightarrow> string \<Rightarrow> schema_pool_entry" where
  "demo_entry r c parent = \<lparr>speRef = r, speName = r, speCIDR = c, speType = ''vpc'', speParentRef = parent\<rparr>"

definition demo_schema :: "schema_pool_entry list \<Rightarrow> schema_apply_request" where
  "demo_schema es = \<lparr>saPools = es, saStatus = [], saTags = None, saSkipConflicts = False\<rparr>"

definition demo_tree :: "schema_pool_entry list" where
  "demo_tree = [demo_entry ''a'' ''10.0.0.0/8'' [], demo_entry ''b'' ''10.1.0.0/16'' ''a'']"

lemma demo_post_req [simp]: "rqMethod (demo_req ''POST'' [] []) = ''POST''"
  by (simp add: demo_req_def)

lemma apply_answers:
  assumes "apply_error ops req (svStore x) = (None :: schema_payload http_response option)"
  shows "handleSchemaApply ops env (demo_req ''POST'' [] []) (Some req) x =
    (apServer (apply_done ops env req x), RespJSON 200 (PApply (apply_response (apply_done ops env req x))))"
  using assms by (simp add: handleSchemaApply_def Let_def)

lemma demo_tree_accepted: "apply_error memory_ops (demo_schema demo_tree) (svStore demo_api0) = None"
  by (simp add: apply_error_def demo_schema_def demo_tree_def demo_entry_def entry_error_def demo_valid
      schema_conflict_error_def demo_api0_def ListPools_def NewMemoryStore_def overlapping_pool_def split: option.split)

lemma demo_tree_plan: "request_plan demo_tree"
  using child_nested[of "\<lparr>poolID = 1, poolName = [], poolCIDR = ''10.0.0.0/8'', poolParentID = None, poolAccountID = None, poolType = [],
      poolStatus = [], poolSource = [], poolDescription = [], poolTags = None, poolCreatedAt = 0, poolUpdatedAt = 0, poolDeletedAt = None\<rparr>"]
    demo_child
  by (auto simp: request_plan_def demo_tree_def demo_entry_def plain_cidr_def demo_trim)

lemma demo_empty_plan: "store_reachable (svStore demo_api0)" "addr_plan (GetPool (svStore demo_api0))"
  using memory_api_plan[OF api_reachable.init[of demo_api0]] by (simp_all add: demo_api0_def)

theorem schema_apply_builds_plan_witness:
  "\<exists>y r. handleSchemaApply memory_ops (demo_env RoleNone) (demo_req ''POST'' [] []) (Some (demo_schema demo_tree)) demo_api0 =
       (y, RespJSON 200 (PApply r)) \<and> syCreated r = 2 \<and> addr_plan (GetPool (svStore y))"
proof -
  let ?st = "apply_done memory_ops (demo_env RoleNone) (demo_schema demo_tree) demo_api0"
  note h = apply_answers[OF demo_tree_accepted, of "demo_env RoleNone"]
  have "saPools (demo_schema demo_tree) = demo_tree" "\<not> saSkipConflicts (demo_schema demo_tree)" by (simp_all add: demo_schema_def)
  with schema_apply_builds_plan[OF demo_empty_plan _ _ h] demo_tree_plan
  have "syCreated (apply_response ?st) = length demo_tree \<and> addr_plan (GetPool (svStore (apServer ?st)))" by simp
  then show ?thesis using h by (simp add: demo_tree_def)
qed

lemma addrs4_not_empty: "addrs4 w n \<noteq> {}"
  using netmask4_in[of n w] by blast

lemma demo_check:
  assumes "check_cidrs 0 ps = (None :: schema_payload http_response option)" "ps \<noteq> []"
  obtains r where "handleSchemaCheck memory_ops (demo_req ''POST'' [] []) (Some ps) s = RespJSON 200 (PCheck r)"
  using assms by (simp add: handleSchemaCheck_def Let_def)

theorem schema_check_exact_witness:
  "\<exists>r. handleSchemaCheck memory_ops (demo_req ''POST'' [] []) (Some demo_tree) (svStore demo_api) = RespJSON 200 (PCheck r)
     \<and> (\<exists>e q. e \<in> set demo_tree \<and> GetPool (svStore demo_api) 2 = Some q \<and> entry_conflict e q \<in> set (srConflicts r))"
proof -
  have c: "check_cidrs 0 demo_tree = (None :: schema_payload http_response option)"
    by (simp add: demo_tree_def demo_entry_def demo_valid)
  obtain r where r: "handleSchemaCheck memory_ops (demo_req ''POST'' [] []) (Some demo_tree) (svStore demo_api) = RespJSON 200 (PCheck r)"
    by (rule demo_check[OF c]) (simp add: demo_tree_def)
  obtain p q where q: "GetPool (svStore demo_api) 2 = Some q" "poolCIDR q = ''10.1.0.0/16''" by (rule demo_api_get)
  have i: "poolID q = 2" using mem.live_id[OF memory_api_plan(1)[OF demo_api_reachable] q(1)] .
  let ?e = "demo_entry ''b'' ''10.1.0.0/16'' ''a''"
  have "entry_meets ?e q"
    by (simp add: entry_meets_def demo_entry_def q(2) demo_parse addrs4_not_empty)
  moreover have "?e \<in> set demo_tree" "\<forall>e \<in> set demo_tree. plain_cidr e" using demo_tree_plan by (simp_all add: demo_tree_def request_plan_def)
  moreover note conjunct1[OF schema_check_exact[OF memory_api_plan[OF demo_api_reachable] \<open>\<forall>e \<in> set demo_tree. plain_cidr e\<close> r]]
  ultimately have "entry_conflict ?e q \<in> set (srConflicts r)" using q(1) i by (simp, intro exI[of _ ?e] exI[of _ q]) simp
  with r q(1) \<open>?e \<in> set demo_tree\<close> show ?thesis by (intro exI[of _ r] conjI exI[of _ ?e] exI[of _ q])
qed

subsection \<open>What the handlers let through\<close>

text \<open>The entries of a request are not compared with each other: two overlapping roots are created.\<close>

lemma schema_apply_overlapping_entries:
  fixes es :: "schema_pool_entry list"
  defines "es \<equiv> [demo_entry ''a'' ''10.0.0.0/8'' [], demo_entry ''b'' ''10.1.0.0/16'' []]"
  shows "\<exists>y r. handleSchemaApply memory_ops (demo_env RoleNone) (demo_req ''POST'' [] []) (Some (demo_schema es)) demo_api0 =
       (y, RespJSON 200 (PApply r)) \<and> syErrors r = []
       \<and> map (\<lambda>p. (poolCIDR p, poolParentID p)) (ListPools (svStore y)) = [(''10.0.0.0/8'', None), (''10.1.0.0/16'', None)]"
proof -
  let ?st = "apply_done memory_ops (demo_env RoleNone) (demo_schema es) demo_api0"
  have ok: "apply_error memory_ops (demo_schema es) (svStore demo_api0) = (None :: schema_payload http_response option)"
    by (simp add: es_def apply_error_def demo_schema_def demo_entry_def entry_error_def demo_valid
      schema_conflict_error_def demo_api0_def ListPools_def NewMemoryStore_def overlapping_pool_def split: option.split)
  have "map (\<lambda>p. (poolCIDR p, poolParentID p)) (ListPools (svStore (apServer ?st))) = [(''10.0.0.0/8'', None), (''10.1.0.0/16'', None)]"
    "apErrs ?st = []"
    unfolding es_def by code_simp+
  then show ?thesis using apply_answers[OF ok, of "demo_env RoleNone"] by (simp add: apply_response_def)
qed

text \<open>A CIDR with a space in front passes the validation, which trims it, but does not parse as
  it is, so it is compared with no existing pool, and it is stored with the space.\<close>

lemma apply_one_root:
  "speParentRef e = [] \<Longrightarrow> svStore (apServer (apply_entry ops env status tags' e (apply_start x))) =
     fst (opCreatePool ops (envNow env) (svStore x) (entry_pool status tags' e None))"
  by (simp add: apply_entry_def resolve_parent_def apply_start_def skip_entry_def Let_def split: prod.split sum.split)

lemma schema_apply_untrimmed_cidr:
  fixes es :: "schema_pool_entry list"
  defines "es \<equiv> [demo_entry ''a'' '' 10.0.0.0/8'' []]"
  shows "apply_error memory_ops (demo_schema es) (svStore demo_api) = (None :: schema_payload http_response option)"
    and "map poolCIDR (ListPools (svStore (apServer (apply_done memory_ops (demo_env RoleNone) (demo_schema es) demo_api)))) =
      [''10.0.0.0/8'', ''10.1.0.0/16'', '' 10.0.0.0/8'']"
proof -
  have t: "trimSpace '' 10.0.0.0/8'' = ''10.0.0.0/8''" by code_simp
  have v: "ValidateCIDR '' 10.0.0.0/8'' = None"
    unfolding ValidateCIDR_def ValidateCIDRWithOptions_def t by code_simp
  have p: "parsePrefix '' 10.0.0.0/8'' = None" by code_simp
  show "apply_error memory_ops (demo_schema es) (svStore demo_api) = (None :: schema_payload http_response option)"
    by (simp add: es_def apply_error_def demo_schema_def demo_entry_def entry_error_def demo_valid v
      schema_conflict_error_def overlapping_pool_def p)
  show "map poolCIDR (ListPools (svStore (apServer (apply_done memory_ops (demo_env RoleNone) (demo_schema es) demo_api)))) =
      [''10.0.0.0/8'', ''10.1.0.0/16'', '' 10.0.0.0/8'']"
  proof -
    have e: "svStore (apServer (apply_done memory_ops (demo_env RoleNone) (demo_schema es) demo_api)) =
        fst (CreatePool 5 (svStore demo_api) (entry_pool PoolStatusPlanned (apply_tags None) (hd es) None))"
      by (simp add: es_def demo_schema_def apply_done_def apply_entries_def apply_status_def apply_one_root demo_entry_def)
        (simp add: demo_env_def)
    show ?thesis unfolding e unfolding es_def list.sel demo_api_store by code_simp
  qed
qed

text \<open>An entry that names itself as its parent is accepted, and then skipped.\<close>

lemma schema_self_parent_skipped:
  assumes "entry_checked e" "speParentRef e = speRef e" "speRef e \<notin> set refSet" "map_of (apRefToID st) (speRef e) = None"
  shows "entry_error k prevs refSet e = None"
    and "apServer (apply_entry ops env status tags' e st) = apServer st"
      "apSkipped (apply_entry ops env status tags' e st) = apSkipped st + 1"
  using assms by (simp_all add: entry_checked_def entry_error_def apply_entry_def resolve_parent_def skip_entry_def)

end
