(* ===== verification/NetworkStore.thy ===== *)
theory NetworkStore
  imports DiscoverySync
begin

section \<open>Network objects and relationships (internal/domain/network.go, storage/network\_memory.go)\<close>

text \<open>
  \<open>MemoryNetworkStore\<close> keeps managed network objects and the relationships between pools, discovered
  resources and objects. A relationship without an id gets one derived from its ends by SHA-1, which
  is a parameter (\<open>sha1\<close>), as is the text of a UUID (\<open>uuid_str\<close>). As in \<open>Discovery\<close>, an argument \<open>ord\<close>
  is the order in which the runtime iterates a map before a stable sort. \<open>float64\<close> confidences are
  rational numbers.
\<close>

subsection \<open>Data\<close>

definition NetworkObjectTypeSubnet :: string where "NetworkObjectTypeSubnet = ''subnet''"
definition NetworkObjectTypeNetwork :: string where "NetworkObjectTypeNetwork = ''network''"
definition NetworkObjectTypeVPC :: string where "NetworkObjectTypeVPC = ''vpc''"
definition NetworkObjectTypeOther :: string where "NetworkObjectTypeOther = ''other''"
definition NetworkObjectStateManaged :: string where "NetworkObjectStateManaged = ''managed''"
definition NetworkObjectStatePlaceholder :: string where "NetworkObjectStatePlaceholder = ''placeholder''"

record network_object =
  noID :: go_id
  noObjectType :: string
  noProvider :: string
  noAccountID :: go_id
  noRegion :: string
  noName :: string
  noCIDR :: string
  noIPAddress :: string
  noProviderResourceID :: string
  noParentObjectID :: "go_id option"
  noPoolID :: "go_id option"
  noSourceDiscoveredID :: "uuid option"
  noState :: string
  noMetadata :: tags
  noCreatedAt :: go_time
  noUpdatedAt :: go_time

record create_network_object =
  cnObjectType :: string
  cnProvider :: string
  cnAccountID :: go_id
  cnRegion :: string
  cnName :: string
  cnCIDR :: string
  cnIPAddress :: string
  cnProviderResourceID :: string
  cnParentObjectID :: "go_id option"
  cnPoolID :: "go_id option"
  cnSourceDiscoveredID :: "uuid option"
  cnState :: string
  cnMetadata :: tags

record update_network_object =
  unObjectType :: "string option"
  unProvider :: "string option"
  unAccountID :: "go_id option"
  unRegion :: "string option"
  unName :: "string option"
  unCIDR :: "string option"
  unIPAddress :: "string option"
  unProviderResourceID :: "string option"
  unParentObjectID :: "go_id option"
  unPoolID :: "go_id option"
  unSourceDiscoveredID :: "uuid option"
  unState :: "string option"
  unMetadata :: "tags option"

record network_object_filters =
  nfAccountID :: go_id
  nfProvider :: string
  nfRegion :: string
  nfObjectType :: string
  nfState :: string
  nfPoolID :: go_id
  nfSourceDiscoveredID :: string
  nfQuery :: string

definition NetworkRelationshipContains :: string where "NetworkRelationshipContains = ''contains''"
definition NetworkRelationshipMatches :: string where "NetworkRelationshipMatches = ''matches''"
definition NetworkRelationshipConflicts :: string where "NetworkRelationshipConflicts = ''conflicts''"
definition NetworkRelationshipMissingParent :: string where "NetworkRelationshipMissingParent = ''missing_parent''"
definition NetworkRelationshipCandidateImport :: string where "NetworkRelationshipCandidateImport = ''candidate_import''"
definition NetworkRelationshipImportedAs :: string where "NetworkRelationshipImportedAs = ''imported_as''"
definition NetworkRelationshipDuplicateOf :: string where "NetworkRelationshipDuplicateOf = ''duplicate_of''"

record network_relationship =
  nrID :: string
  nrType :: string
  nrSourceKind :: string
  nrSourceID :: string
  nrTargetKind :: string
  nrTargetID :: string
  nrConfidence :: rat
  nrReason :: string
  nrEvidence :: "string list"
  nrResolutionState :: string
  nrCreatedAt :: go_time
  nrUpdatedAt :: go_time

record create_relationship =
  crelID :: string
  crelType :: string
  crelSourceKind :: string
  crelSourceID :: string
  crelTargetKind :: string
  crelTargetID :: string
  crelConfidence :: rat
  crelReason :: string
  crelEvidence :: "string list"
  crelResolutionState :: string

record relationship_filters =
  rfIDs :: "string list"
  rfType :: string
  rfSourceKind :: string
  rfSourceID :: string
  rfTargetKind :: string
  rfTargetID :: string
  rfEntityKind :: string
  rfEntityID :: string
  rfResolutionState :: string

record network_store =
  nsObjects :: "(go_id, network_object) gomap"
  nsRelationships :: "(string, network_relationship) gomap"
  nsNextObjectID :: go_id

definition NewMemoryNetworkStore :: network_store where
  "NewMemoryNetworkStore = \<lparr>nsObjects = [], nsRelationships = [], nsNextObjectID = 1\<rparr>"

definition cloneNetworkObject :: "network_object \<Rightarrow> network_object" where
  "cloneNetworkObject obj = obj\<lparr>noMetadata := cloneStringStringMap (noMetadata obj)\<rparr>"

definition cloneNetworkRelationship :: "network_relationship \<Rightarrow> network_relationship" where
  "cloneNetworkRelationship rel = rel"

subsection \<open>Objects\<close>

definition network_object_matches :: "(uuid \<Rightarrow> string) \<Rightarrow> network_object_filters \<Rightarrow> network_object \<Rightarrow> bool" where
  "network_object_matches uuid_str f obj =
     (\<not> (nfAccountID f > 0 \<and> noAccountID obj \<noteq> nfAccountID f)
     \<and> \<not> (nfProvider f \<noteq> [] \<and> noProvider obj \<noteq> nfProvider f)
     \<and> \<not> (nfRegion f \<noteq> [] \<and> noRegion obj \<noteq> nfRegion f)
     \<and> \<not> (nfObjectType f \<noteq> [] \<and> noObjectType obj \<noteq> nfObjectType f)
     \<and> \<not> (nfState f \<noteq> [] \<and> noState obj \<noteq> nfState f)
     \<and> \<not> (nfPoolID f > 0 \<and> noPoolID obj \<noteq> Some (nfPoolID f))
     \<and> \<not> (nfSourceDiscoveredID f \<noteq> [] \<and> map_option uuid_str (noSourceDiscoveredID obj) \<noteq> Some (nfSourceDiscoveredID f))
     \<and> (nfQuery f \<noteq> [] \<longrightarrow> str_contains
          (toLower (join_with '' '' [noName obj, noCIDR obj, noIPAddress obj, noProviderResourceID obj])) (toLower (nfQuery f))))"

text \<open>Stable sorts by name, then region, then account are the sort by account, region and name.\<close>

definition ListNetworkObjects ::
    "(uuid \<Rightarrow> string) \<Rightarrow> network_object order \<Rightarrow> network_store \<Rightarrow> network_object_filters \<Rightarrow> network_object list" where
  "ListNetworkObjects uuid_str ord n f =
     sort_key noAccountID (sort_key noRegion (sort_key noName
       (map cloneNetworkObject (ord (filter (network_object_matches uuid_str f) (map snd (nsObjects n)))))))"

definition GetNetworkObject :: "network_store \<Rightarrow> go_id \<Rightarrow> network_object option" where
  "GetNetworkObject n i = map_option cloneNetworkObject (map_of (nsObjects n) i)"

definition CreateNetworkObject :: "go_time \<Rightarrow> network_store \<Rightarrow> create_network_object \<Rightarrow> network_store \<times> (go_error + network_object)" where
  "CreateNetworkObject now n inp =
     (if cnAccountID inp < 1 then (n, Inl (wrapf ''account_id is required'' ErrValidation))
      else if trimSpace (cnName inp) = [] then (n, Inl (wrapf ''name is required'' ErrValidation))
      else
        let obj = \<lparr>noID = nsNextObjectID n,
              noObjectType = (if cnObjectType inp = [] then NetworkObjectTypeOther else cnObjectType inp),
              noProvider = cnProvider inp, noAccountID = cnAccountID inp, noRegion = cnRegion inp, noName = cnName inp,
              noCIDR = cnCIDR inp, noIPAddress = cnIPAddress inp, noProviderResourceID = cnProviderResourceID inp,
              noParentObjectID = cnParentObjectID inp, noPoolID = cnPoolID inp, noSourceDiscoveredID = cnSourceDiscoveredID inp,
              noState = (if cnState inp = [] then NetworkObjectStateManaged else cnState inp),
              noMetadata = cloneStringStringMap (cnMetadata inp), noCreatedAt = now, noUpdatedAt = now\<rparr>
        in (n\<lparr>nsObjects := gput (noID obj) obj (nsObjects n), nsNextObjectID := nsNextObjectID n + 1\<rparr>,
            Inr (cloneNetworkObject obj)))"

abbreviation assign :: "'a \<Rightarrow> 'a option \<Rightarrow> 'a" where
  "assign old new \<equiv> (case new of None \<Rightarrow> old | Some v \<Rightarrow> v)"

definition update_object :: "go_time \<Rightarrow> update_network_object \<Rightarrow> network_object \<Rightarrow> network_object" where
  "update_object now u obj = obj\<lparr>
     noObjectType := assign (noObjectType obj) (unObjectType u),
     noProvider := assign (noProvider obj) (unProvider u),
     noAccountID := assign (noAccountID obj) (unAccountID u),
     noRegion := assign (noRegion obj) (unRegion u),
     noName := assign (noName obj) (unName u),
     noCIDR := assign (noCIDR obj) (unCIDR u),
     noIPAddress := assign (noIPAddress obj) (unIPAddress u),
     noProviderResourceID := assign (noProviderResourceID obj) (unProviderResourceID u),
     noParentObjectID := (if unParentObjectID u = None then noParentObjectID obj else unParentObjectID u),
     noPoolID := (if unPoolID u = None then noPoolID obj else unPoolID u),
     noSourceDiscoveredID := (if unSourceDiscoveredID u = None then noSourceDiscoveredID obj else unSourceDiscoveredID u),
     noState := assign (noState obj) (unState u),
     noMetadata := (case unMetadata u of None \<Rightarrow> noMetadata obj | Some m \<Rightarrow> cloneStringStringMap m),
     noUpdatedAt := now\<rparr>"

definition UpdateNetworkObject ::
    "go_time \<Rightarrow> network_store \<Rightarrow> go_id \<Rightarrow> update_network_object \<Rightarrow> network_store \<times> network_object option" where
  "UpdateNetworkObject now n i u = (case map_of (nsObjects n) i of
     None \<Rightarrow> (n, None)
   | Some obj \<Rightarrow>
       let obj = update_object now u obj
       in (n\<lparr>nsObjects := gput i obj (nsObjects n)\<rparr>, Some (cloneNetworkObject obj)))"

subsection \<open>Relationships\<close>

definition is_end :: "network_relationship \<Rightarrow> string \<Rightarrow> string \<Rightarrow> bool" where
  "is_end rel kind i = ((nrSourceKind rel = kind \<and> nrSourceID rel = i) \<or> (nrTargetKind rel = kind \<and> nrTargetID rel = i))"

definition relationship_matches :: "relationship_filters \<Rightarrow> network_relationship \<Rightarrow> bool" where
  "relationship_matches f rel =
     ((rfIDs f \<noteq> [] \<longrightarrow> nrID rel \<in> set (rfIDs f))
     \<and> \<not> (rfType f \<noteq> [] \<and> nrType rel \<noteq> rfType f)
     \<and> \<not> (rfSourceKind f \<noteq> [] \<and> nrSourceKind rel \<noteq> rfSourceKind f)
     \<and> \<not> (rfSourceID f \<noteq> [] \<and> nrSourceID rel \<noteq> rfSourceID f)
     \<and> \<not> (rfTargetKind f \<noteq> [] \<and> nrTargetKind rel \<noteq> rfTargetKind f)
     \<and> \<not> (rfTargetID f \<noteq> [] \<and> nrTargetID rel \<noteq> rfTargetID f)
     \<and> \<not> (rfEntityKind f \<noteq> [] \<and> rfEntityID f \<noteq> [] \<and> \<not> is_end rel (rfEntityKind f) (rfEntityID f))
     \<and> \<not> (rfResolutionState f \<noteq> [] \<and> nrResolutionState rel \<noteq> rfResolutionState f))"

definition ListNetworkRelationships ::
    "network_relationship order \<Rightarrow> network_store \<Rightarrow> relationship_filters \<Rightarrow> network_relationship list" where
  "ListNetworkRelationships ord n f =
     sort_key nrID (map cloneNetworkRelationship (ord (filter (relationship_matches f) (map snd (nsRelationships n)))))"

definition networkRelationshipID :: "(string \<Rightarrow> bytes) \<Rightarrow> create_relationship \<Rightarrow> string" where
  "networkRelationshipID sha1 inp = ''rel-'' @ take 20 (hex_encode (sha1 (join_with ''|''
     [crelType inp, crelSourceKind inp, crelSourceID inp, crelTargetKind inp, crelTargetID inp])))"

definition new_relationship :: "(string \<Rightarrow> bytes) \<Rightarrow> go_time \<Rightarrow> create_relationship \<Rightarrow> network_relationship" where
  "new_relationship sha1 now inp = \<lparr>
     nrID = (if crelID inp = [] then networkRelationshipID sha1 inp else crelID inp),
     nrType = crelType inp, nrSourceKind = crelSourceKind inp, nrSourceID = crelSourceID inp,
     nrTargetKind = crelTargetKind inp, nrTargetID = crelTargetID inp,
     nrConfidence = (if crelConfidence inp = 0 then 1 else crelConfidence inp), nrReason = crelReason inp,
     nrEvidence = crelEvidence inp,
     nrResolutionState = (if crelResolutionState inp = [] then ''open'' else crelResolutionState inp),
     nrCreatedAt = now, nrUpdatedAt = now\<rparr>"

definition UpsertNetworkRelationship :: "(string \<Rightarrow> bytes) \<Rightarrow> go_time \<Rightarrow> network_store \<Rightarrow> create_relationship \<Rightarrow>
    network_store \<times> (go_error + network_relationship)" where
  "UpsertNetworkRelationship sha1 now n inp =
     (if crelType inp = [] \<or> crelSourceKind inp = [] \<or> crelSourceID inp = [] \<or> crelTargetKind inp = [] \<or> crelTargetID inp = []
      then (n, Inl (wrapf ''relationship type, source, and target are required'' ErrValidation))
      else
        let rel = new_relationship sha1 now inp;
            rel = (case map_of (nsRelationships n) (nrID rel) of
                None \<Rightarrow> rel
              | Some existing \<Rightarrow>
                  let rel = rel\<lparr>nrCreatedAt := nrCreatedAt existing\<rparr>
                  in if crelResolutionState inp = [] then rel\<lparr>nrResolutionState := nrResolutionState existing\<rparr> else rel)
        in (n\<lparr>nsRelationships := gput (nrID rel) rel (nsRelationships n)\<rparr>, Inr (cloneNetworkRelationship rel)))"

definition UpdateNetworkRelationshipState :: "go_time \<Rightarrow> network_store \<Rightarrow> string \<Rightarrow> string \<Rightarrow> string \<Rightarrow>
    network_store \<times> (go_error + network_relationship option)" where
  "UpdateNetworkRelationshipState now n i state reason =
     (if trimSpace state = [] then (n, Inl (wrapf ''resolution_state is required'' ErrValidation))
      else case map_of (nsRelationships n) i of
        None \<Rightarrow> (n, Inr None)
      | Some rel \<Rightarrow>
          let rel = rel\<lparr>nrResolutionState := state, nrReason := (if reason \<noteq> [] then reason else nrReason rel), nrUpdatedAt := now\<rparr>
          in (n\<lparr>nsRelationships := gput i rel (nsRelationships n)\<rparr>, Inr (Some (cloneNetworkRelationship rel))))"

end
