(* ===== verification/DiscoveryImport.thy ===== *)
theory DiscoveryImport
  imports NetworkStore
begin

section \<open>Linking and importing discovered resources (internal/api/discovery\_handlers.go)\<close>

text \<open>
  The resource listing, linking a resource to a pool, the preview and the apply of an import, and the
  import of all resources of an account as pools. These handlers work on three stores: the pools (any
  \<open>store_ops\<close>), the discovery store and, when configured, the network store, where they record
  relationships; a failure to record one is only logged. The environment adds SHA-1, the text of a UUID and of a
  time to that of \<open>DiscoverySync\<close>; one reading of the clock serves a whole request. The
  discovery store answers no error but \<open>ErrNotFound\<close>. The outer option is \<open>None\<close> for a panic or a
  page loop that does not return.
\<close>

record net_env = disc_env +
  neSha1 :: "string \<Rightarrow> bytes"
  neUUIDString :: "uuid \<Rightarrow> string"
  neFormatTime :: "go_time \<Rightarrow> string"

record 's disc_world =
  dwStore :: 's
  dwDisc :: disc_store
  dwNet :: "network_store option"

subsection \<open>CIDR helpers\<close>

definition cidrEqual :: "string \<Rightarrow> string \<Rightarrow> bool" where
  "cidrEqual a b = (case (parsePrefix a, parsePrefix b) of
     (Some pa, Some pb) \<Rightarrow> masked pa = masked pb | _ \<Rightarrow> False)"

definition cidrContains :: "string \<Rightarrow> string \<Rightarrow> bool" where
  "cidrContains parent child = (case (parsePrefix parent, parsePrefix child) of
     (Some p, Some c) \<Rightarrow> bitLen (pfxAddr p) = bitLen (pfxAddr c) \<and> pfxBits p \<le> pfxBits c
        \<and> pfxContains (masked p) (pfxAddr (masked c))
   | _ \<Rightarrow> False)"

definition cidrOverlaps :: "string \<Rightarrow> string \<Rightarrow> bool" where
  "cidrOverlaps a b = (case (parsePrefix a, parsePrefix b) of
     (Some pa, Some pb) \<Rightarrow> bitLen (pfxAddr pa) = bitLen (pfxAddr pb)
        \<and> (pfxContains (masked pa) (pfxAddr (masked pb)) \<or> pfxContains (masked pb) (pfxAddr (masked pa)))
   | _ \<Rightarrow> False)"

definition prefixLength :: "string \<Rightarrow> int" where
  "prefixLength cidr = (case parsePrefix cidr of None \<Rightarrow> -1 | Some p \<Rightarrow> pfxBits p)"

subsection \<open>Resources\<close>

record resources_response =
  lrItems :: "discovered_resource list"
  lrTotal :: int
  lrPage :: int
  lrPageSize :: int

definition resources_filters :: "http_request \<Rightarrow> discovery_filters" where
  "resources_filters rq = \<lparr>dfProvider = query_get rq ''provider'', dfRegion = query_get rq ''region'',
     dfResourceType = query_get rq ''resource_type'', dfStatus = query_get rq ''status'', dfQuery = query_get rq ''q'',
     dfHasPool = (let linked = query_get rq ''linked'' in
        if linked = [] then None else Some (linked = ''true'' \<or> linked = ''1'')),
     dfPage = fst (atoi_value (query_get rq ''page'')), dfPageSize = fst (atoi_value (query_get rq ''page_size''))\<rparr>"

definition handleResources :: "net_env \<Rightarrow> http_request \<Rightarrow> disc_store \<Rightarrow> resources_response http_response option" where
  "handleResources env rq d =
     (if rqMethod rq \<noteq> ''GET'' then Some method_not_allowed
      else case parseInt64 (query_get rq ''account_id'') of
        None \<Rightarrow> Some (writeErr 400 ''account_id is required and must be a positive integer'' [])
      | Some acct \<Rightarrow>
          if acct < 1 then Some (writeErr 400 ''account_id is required and must be a positive integer'' [])
          else let f = resources_filters rq in
            map_option (\<lambda>(items, total'). RespJSON 200 \<lparr>lrItems = items, lrTotal = total',
                lrPage = (if dfPage f < 1 then 1 else dfPage f), lrPageSize = (if dfPageSize f < 1 then 50 else dfPageSize f)\<rparr>)
              (ListDiscoveredResources (deOrd env (0, 0) 0) d acct f))"

subsection \<open>Relationships\<close>

definition persistDiscoveryRelationship :: "net_env \<Rightarrow> create_relationship \<Rightarrow> 's disc_world \<Rightarrow> 's disc_world" where
  "persistDiscoveryRelationship env inp w = (case dwNet w of
     None \<Rightarrow> w
   | Some n \<Rightarrow> w\<lparr>dwNet := Some (fst (UpsertNetworkRelationship (neSha1 env) (deNow env) n inp))\<rparr>)"

definition discoveryRelationshipEvidence :: "discovered_resource \<Rightarrow> string list \<Rightarrow> string list" where
  "discoveryRelationshipEvidence res values =
     [''provider='' @ drProvider res, ''region='' @ drRegion res, ''resource_id='' @ drResourceID res,
      ''resource_type='' @ drResourceType res, ''discovery_status='' @ drStatus res]
     @ (if drCIDR res \<noteq> [] then [''cidr='' @ drCIDR res] else [])
     @ filter (\<lambda>v. trimSpace v \<noteq> []) values"

definition pool_relationship :: "string \<Rightarrow> string \<Rightarrow> string \<Rightarrow> go_id \<Rightarrow> rat \<Rightarrow> string \<Rightarrow> string list \<Rightarrow> string \<Rightarrow> create_relationship" where
  "pool_relationship typ kind src pool_id conf reason evidence state = \<lparr>crelID = [], crelType = typ, crelSourceKind = kind,
     crelSourceID = src, crelTargetKind = ''pool'', crelTargetID = itoa_int pool_id, crelConfidence = conf,
     crelReason = reason, crelEvidence = evidence, crelResolutionState = state\<rparr>"

definition active_for_mutation_error :: "discovered_resource \<Rightarrow> err_msg option" where
  "active_for_mutation_error res =
     (if drStatus res = DiscoveryStatusActive then None
      else Some (Sprintf ''discovered resource is %s; run discovery again before linking or importing it'' [Msg (drStatus res)]))"

definition staleDiscoveryEvidence :: "net_env \<Rightarrow> discovered_resource \<Rightarrow> string list" where
  "staleDiscoveryEvidence env res =
     [''discovery_status='' @ drStatus res,
      ''stale resources cannot be imported or linked until a fresh discovery marks them active'']
     @ (if drLastSeenAt res \<noteq> zero_time then [''last_seen_at='' @ neFormatTime env (drLastSeenAt res)] else [])"

subsection \<open>Linking one resource\<close>

definition resource_not_found :: "'a http_response" where
  "resource_not_found = writeErr 404 ''resource not found'' []"

definition other_account :: "pool \<Rightarrow> go_id \<Rightarrow> bool" where
  "other_account p acct = (case poolAccountID p of None \<Rightarrow> False | Some a \<Rightarrow> a \<noteq> acct)"

definition link_pool :: "net_env \<Rightarrow> 's store_ops \<Rightarrow> uuid \<Rightarrow> go_id \<Rightarrow> 's disc_world \<Rightarrow> 's disc_world \<times> string http_response" where
  "link_pool env ops i pool_id w = (case GetDiscoveredResource (dwDisc w) i of
     Inl e \<Rightarrow> (w, resource_not_found)
   | Inr res \<Rightarrow> (case opGetPool ops (dwStore w) pool_id of
       Inl e \<Rightarrow> (w, RespErr 500 (Msg ''pool lookup failed'') (OfStore e))
     | Inr None \<Rightarrow> (w, writeErr 404 ''pool not found'' [])
     | Inr (Some p) \<Rightarrow>
         if other_account p (drAccountID res)
         then (w, writeErr 400 ''pool account does not match discovered resource account'' [])
         else case active_for_mutation_error res of
           Some m \<Rightarrow> (w, RespErr 400 m no_detail)
         | None \<Rightarrow> (case LinkResourceToPool (dwDisc w) i pool_id of
             (d, Some e) \<Rightarrow> (w\<lparr>dwDisc := d\<rparr>, resource_not_found)
           | (d, None) \<Rightarrow>
               (persistDiscoveryRelationship env
                  (pool_relationship NetworkRelationshipMatches ''discovered'' (neUUIDString env i) pool_id 1
                     ''linked discovered resource to pool''
                     (discoveryRelationshipEvidence res [''action=link'', ''pool_id='' @ itoa_int pool_id]) ''resolved'')
                  (w\<lparr>dwDisc := d\<rparr>),
                RespJSON 200 ''linked''))))"

definition handleLink :: "net_env \<Rightarrow> 's store_ops \<Rightarrow> http_request \<Rightarrow> go_id option \<Rightarrow> uuid \<Rightarrow> 's disc_world \<Rightarrow>
    's disc_world \<times> string http_response" where
  "handleLink env ops rq body i w =
     (if rqMethod rq = ''POST'' then
        (case body of
           None \<Rightarrow> (w, writeErr 400 ''pool_id is required and must be a positive integer'' [])
         | Some pool_id \<Rightarrow>
             if pool_id < 1 then (w, writeErr 400 ''pool_id is required and must be a positive integer'' [])
             else link_pool env ops i pool_id w)
      else if rqMethod rq = ''DELETE'' then
        (case UnlinkResource (dwDisc w) i of
           (d, Some e) \<Rightarrow> (w\<lparr>dwDisc := d\<rparr>, resource_not_found)
         | (d, None) \<Rightarrow> (w\<lparr>dwDisc := d\<rparr>, RespJSON 200 ''unlinked''))
      else (w, method_not_allowed))"

datatype resource_payload = PLinked string | PResource discovered_resource

definition handleResourcesSubroutes :: "net_env \<Rightarrow> 's store_ops \<Rightarrow> http_request \<Rightarrow> go_id option \<Rightarrow> 's disc_world \<Rightarrow>
    's disc_world \<times> resource_payload http_response" where
  "handleResourcesSubroutes env ops rq body w =
     (let path = trim_prefix (rqPath rq) ''/api/v1/discovery/resources/'' in
      if has_suffix path ''/link'' then
        (case deParseUUID env (trim_suffix path ''/link'') of
           None \<Rightarrow> (w, writeErr 400 ''invalid resource id'' [])
         | Some i \<Rightarrow> (case handleLink env ops rq body i w of (w, r) \<Rightarrow> (w, map_http_response PLinked r)))
      else case deParseUUID env path of
        None \<Rightarrow> (w, writeErr 400 ''invalid resource id'' [])
      | Some i \<Rightarrow>
          if rqMethod rq \<noteq> ''GET'' then (w, method_not_allowed)
          else case GetDiscoveredResource (dwDisc w) i of
            Inl e \<Rightarrow> (w, resource_not_found)
          | Inr res \<Rightarrow> (w, RespJSON 200 (PResource res)))"

subsection \<open>The preview of an import\<close>

record import_request =
  irAccountID :: go_id
  irResourceIDs :: "uuid list"
  irPoolID :: "go_id option"

record preview_item =
  piResourceID :: uuid
  piProviderResourceID :: string
  piName :: string
  piProvider :: string
  piRegion :: string
  piResourceType :: string
  piCIDR :: string
  piStatus :: string
  piProposedAction :: string
  piProposedManagedType :: string
  piLinkedPoolID :: "go_id option"
  piProposedPoolID :: "go_id option"
  piProposedParentPoolID :: "go_id option"
  piIssues :: "string list"
  piEvidence :: "string list"
  piConflictPoolIDs :: "go_id list"
  piDuplicateResourceIDs :: "uuid list"

record preview_response =
  pvItems :: "preview_item list"
  pvImportable :: nat
  pvBlocked :: nat
  pvLinkedOnly :: nat
  pvAlreadyLinked :: nat
  pvConflictCount :: nat
  pvSelectedPoolID :: "go_id option"

text \<open>\<open>discoveryImportClientError\<close> and any other error.\<close>

datatype import_error = ClientError string | OtherError go_error

definition isDiscoveryImportClientError :: "import_error \<Rightarrow> bool" where
  "isDiscoveryImportClientError e = (case e of ClientError _ \<Rightarrow> True | OtherError _ \<Rightarrow> False)"

definition validateDiscoveryImportSelection :: "go_id \<Rightarrow> uuid list \<Rightarrow> string option" where
  "validateDiscoveryImportSelection acct ids =
     (if acct < 1 then Some ''account_id is required and must be a positive integer''
      else if ids = [] then Some ''resource_ids must include at least one discovered resource''
      else None)"

definition addDiscoveryPreviewItem :: "preview_item \<Rightarrow> preview_response \<Rightarrow> preview_response" where
  "addDiscoveryPreviewItem item resp =
     (let resp = resp\<lparr>pvItems := pvItems resp @ [item]\<rparr> in
      if piStatus item = ''importable'' then resp\<lparr>pvImportable := pvImportable resp + 1\<rparr>
      else if piStatus item = ''linked_only'' then resp\<lparr>pvLinkedOnly := pvLinkedOnly resp + 1\<rparr>
      else if piStatus item = ''already_linked'' then resp\<lparr>pvAlreadyLinked := pvAlreadyLinked resp + 1\<rparr>
      else if piStatus item = ''conflict''
      then resp\<lparr>pvConflictCount := pvConflictCount resp + 1, pvBlocked := pvBlocked resp + 1\<rparr>
      else resp\<lparr>pvBlocked := pvBlocked resp + 1\<rparr>)"

text \<open>The resources of the selection, each when it exists and belongs to the account.\<close>

definition selected_resources :: "disc_store \<Rightarrow> go_id \<Rightarrow> uuid list \<Rightarrow> discovered_resource list" where
  "selected_resources d acct ids = concat (map (\<lambda>i. case GetDiscoveredResource d i of
     Inl e \<Rightarrow> [] | Inr res \<Rightarrow> if drAccountID res = acct then [res] else []) ids)"

text \<open>For each CIDR of the selection, the active resources of other accounts with the same text.\<close>

fun duplicates_in :: "net_env \<Rightarrow> disc_store \<Rightarrow> go_id \<Rightarrow> string list \<Rightarrow> nat \<Rightarrow> account list \<Rightarrow>
    (string, uuid list) gomap \<Rightarrow> (string, uuid list) gomap option" where
  "duplicates_in env d acct cidrs k [] out = Some out"
| "duplicates_in env d acct cidrs k (a # accs) out =
     (if accID a = acct then duplicates_in env d acct cidrs (Suc k) accs out
      else case listAllDiscoveredResources (deOrd env (1, k)) d (accID a) (no_filters\<lparr>dfStatus := DiscoveryStatusActive\<rparr>) of
        None \<Rightarrow> None
      | Some rs \<Rightarrow> duplicates_in env d acct cidrs (Suc k) accs
          (fold (\<lambda>r out. if drCIDR r \<in> set cidrs then gput (drCIDR r) (gget [] out (drCIDR r) @ [drID r]) out else out) rs out))"

definition duplicateCIDRsByAccount :: "net_env \<Rightarrow> 's store_ops \<Rightarrow> 's \<Rightarrow> disc_store \<Rightarrow> go_id \<Rightarrow> discovered_resource list \<Rightarrow>
    (go_error + (string, uuid list) gomap) option" where
  "duplicateCIDRsByAccount env ops s d acct selected =
     (let cidrs = filter (\<lambda>c. c \<noteq> []) (map drCIDR selected) in
      if cidrs = [] then Some (Inr [])
      else case opListAccounts ops s of
        Inl e \<Rightarrow> Some (Inl e)
      | Inr accs \<Rightarrow> map_option Inr (duplicates_in env d acct cidrs 0 accs []))"

definition add_issue :: "string \<Rightarrow> preview_item \<Rightarrow> preview_item" where
  "add_issue i item = item\<lparr>piIssues := piIssues item @ [i]\<rparr>"

definition add_evidence :: "string list \<Rightarrow> preview_item \<Rightarrow> preview_item" where
  "add_evidence es item = item\<lparr>piEvidence := piEvidence item @ es\<rparr>"

definition add_conflict :: "go_id \<Rightarrow> preview_item \<Rightarrow> preview_item" where
  "add_conflict i item = item\<lparr>piConflictPoolIDs := piConflictPoolIDs item @ [i]\<rparr>"

text \<open>One pool against one resource; the second component is \<open>bestParentBits\<close>.\<close>

definition classify_pool :: "discovered_resource \<Rightarrow> pool \<Rightarrow> preview_item \<times> int \<Rightarrow> preview_item \<times> int" where
  "classify_pool res p st = (case st of (item, best) \<Rightarrow>
     if poolCIDR p = [] \<or> drCIDR res = [] then (item, best)
     else if cidrEqual (poolCIDR p) (drCIDR res) then
       if other_account p (drAccountID res)
       then (add_evidence [''exact CIDR exists in pool '' @ itoa_int (poolID p) @ '' assigned to another account'']
               (add_conflict (poolID p) item), best)
       else (add_evidence [''exact pool match '' @ itoa_int (poolID p)] (item\<lparr>piProposedPoolID := Some (poolID p)\<rparr>), best)
     else if cidrContains (poolCIDR p) (drCIDR res) then
       if other_account p (drAccountID res) then (item, best)
       else if prefixLength (poolCIDR p) > best
       then (if piProposedParentPoolID item = None then item\<lparr>piProposedParentPoolID := Some (poolID p)\<rparr> else item,
             prefixLength (poolCIDR p))
       else (item, best)
     else if cidrOverlaps (poolCIDR p) (drCIDR res)
     then (add_evidence [drCIDR res @ '' overlaps existing pool '' @ itoa_int (poolID p) @ '' ('' @ poolCIDR p @ '')'']
             (add_conflict (poolID p) item), best)
     else (item, best))"

definition classifyPoolRelationships :: "preview_item \<Rightarrow> discovered_resource \<Rightarrow> pool list \<Rightarrow> preview_item" where
  "classifyPoolRelationships item res ps = fst (fold (classify_pool res) ps (item, -1))"

record import_context =
  icAccountID :: go_id
  icPools :: "pool list"
  icSelectedPool :: "pool option"
  icByProviderID :: "(string, discovered_resource) gomap"
  icSelectedIDs :: "string list"
  icDuplicates :: "(string, uuid list) gomap"

definition empty_item :: "uuid \<Rightarrow> preview_item" where
  "empty_item i = \<lparr>piResourceID = i, piProviderResourceID = [], piName = [], piProvider = [], piRegion = [], piResourceType = [],
     piCIDR = [], piStatus = ''blocked'', piProposedAction = ''none'', piProposedManagedType = [], piLinkedPoolID = None,
     piProposedPoolID = None, piProposedParentPoolID = None, piIssues = [], piEvidence = [], piConflictPoolIDs = [],
     piDuplicateResourceIDs = []\<rparr>"

definition described_item :: "uuid \<Rightarrow> discovered_resource \<Rightarrow> preview_item" where
  "described_item i res = (empty_item i)\<lparr>piProviderResourceID := drResourceID res, piName := drName res,
     piProvider := drProvider res, piRegion := drRegion res, piResourceType := drResourceType res, piCIDR := drCIDR res,
     piLinkedPoolID := drPoolID res\<rparr>"

definition cidr_step :: "discovered_resource \<Rightarrow> preview_item \<Rightarrow> preview_item" where
  "cidr_step res item = (if drCIDR res = [] \<or> parsePrefix (drCIDR res) = None then add_issue ''invalid_cidr'' item else item)"

definition selected_pool_step :: "import_context \<Rightarrow> discovered_resource \<Rightarrow> preview_item \<Rightarrow> preview_item" where
  "selected_pool_step c res item = (case icSelectedPool c of
     None \<Rightarrow> item
   | Some sp \<Rightarrow>
       if drCIDR res = [] then item
       else if \<not> cidrContains (poolCIDR sp) (drCIDR res)
       then add_evidence [drCIDR res @ '' is not inside selected pool '' @ poolCIDR sp] (add_issue ''outside_pool'' item)
       else if drResourceType res = ResourceTypeVPC then item\<lparr>piProposedParentPoolID := Some (poolID sp)\<rparr>
       else item)"

definition provider_parent_step :: "import_context \<Rightarrow> discovered_resource \<Rightarrow> preview_item \<Rightarrow> preview_item" where
  "provider_parent_step c res item = (case drParentResourceID res of
     None \<Rightarrow> item
   | Some pid \<Rightarrow> (case map_of (icByProviderID c) pid of
       None \<Rightarrow> add_evidence [''provider parent '' @ pid @ '' was not discovered''] (add_issue ''missing_parent'' item)
     | Some parent \<Rightarrow>
         if drPoolID parent \<noteq> None then item\<lparr>piProposedParentPoolID := drPoolID parent\<rparr>
         else if drResourceID parent \<in> set (icSelectedIDs c)
         then add_evidence [''parent '' @ drResourceID parent @ '' is selected for import''] item
         else add_evidence [''provider parent '' @ drResourceID parent @ '' is discovered but not linked or selected'']
           (add_issue ''missing_parent'' item)))"

definition subnet_step :: "import_context \<Rightarrow> discovered_resource \<Rightarrow> preview_item \<Rightarrow> preview_item" where
  "subnet_step c res item =
     (if drResourceType res \<noteq> ResourceTypeSubnet then item
      else let item = provider_parent_step c res item in
        case icSelectedPool c of
          None \<Rightarrow> item
        | Some sp \<Rightarrow>
            if piProposedParentPoolID item = None \<and> cidrContains (poolCIDR sp) (drCIDR res)
            then item\<lparr>piProposedParentPoolID := Some (poolID sp)\<rparr> else item)"

definition duplicate_step :: "import_context \<Rightarrow> discovered_resource \<Rightarrow> preview_item \<Rightarrow> preview_item" where
  "duplicate_step c res item = (let ids = gget [] (icDuplicates c) (drCIDR res) in
     if ids \<noteq> []
     then add_evidence [drCIDR res @ '' is also discovered in another account'']
       ((add_issue ''duplicate_cidr'' item)\<lparr>piDuplicateResourceIDs := ids\<rparr>)
     else item)"

definition final_step :: "preview_item \<Rightarrow> preview_item" where
  "final_step item =
     (if piIssues item \<noteq> [] \<or> piConflictPoolIDs item \<noteq> []
      then item\<lparr>piStatus := (if ''duplicate_cidr'' \<in> set (piIssues item) \<or> piConflictPoolIDs item \<noteq> [] then ''conflict'' else ''blocked'')\<rparr>
      else item\<lparr>piStatus := ''importable'', piProposedManagedType := ''discovered_pool'',
        piProposedAction := (if piProposedPoolID item \<noteq> None then ''link_pool'' else ''create_pool'')\<rparr>)"

definition classify_steps :: "import_context \<Rightarrow> discovered_resource \<Rightarrow> preview_item \<Rightarrow> preview_item" where
  "classify_steps c res item =
     final_step (duplicate_step c res (classifyPoolRelationships
       (subnet_step c res (selected_pool_step c res (cidr_step res item))) res (icPools c)))"

definition preview_item_of :: "net_env \<Rightarrow> disc_store \<Rightarrow> import_context \<Rightarrow> uuid \<Rightarrow> preview_item" where
  "preview_item_of env d c i = (case GetDiscoveredResource d i of
     Inl e \<Rightarrow> (add_issue ''not_found'' (empty_item i))\<lparr>piStatus := ''not_found''\<rparr>
   | Inr res \<Rightarrow>
      (let item = described_item i res in
       if drAccountID res \<noteq> icAccountID c
       then add_evidence [''resource belongs to account '' @ itoa_int (drAccountID res)] (add_issue ''account_mismatch'' item)
       else if drPoolID res \<noteq> None then add_issue ''already_linked'' (item\<lparr>piStatus := ''already_linked'', piProposedAction := ''none''\<rparr>)
       else if drStatus res \<noteq> DiscoveryStatusActive
       then add_evidence (staleDiscoveryEvidence env res) (add_issue ''stale_resource'' item)
       else if drResourceType res \<noteq> ResourceTypeVPC \<and> drResourceType res \<noteq> ResourceTypeSubnet
       then add_issue ''network_object_only''
         (item\<lparr>piStatus := ''linked_only'', piProposedAction := ''link_only'', piProposedManagedType := ''network_object''\<rparr>)
       else classify_steps c res item))"

definition selected_pool :: "import_request \<Rightarrow> pool list \<Rightarrow> import_error + pool option" where
  "selected_pool req ps = (case irPoolID req of
     None \<Rightarrow> Inr None
   | Some i \<Rightarrow> (case List.find (\<lambda>p. poolID p = i) (rev ps) of
       None \<Rightarrow> Inl (ClientError ''selected pool not found'')
     | Some p \<Rightarrow>
         if other_account p (irAccountID req) then Inl (ClientError ''selected pool account does not match import account'')
         else Inr (Some p)))"

definition preview_of :: "net_env \<Rightarrow> disc_store \<Rightarrow> import_context \<Rightarrow> import_request \<Rightarrow> preview_response" where
  "preview_of env d c req = fold (\<lambda>i. addDiscoveryPreviewItem (preview_item_of env d c i)) (irResourceIDs req)
     \<lparr>pvItems = [], pvImportable = 0, pvBlocked = 0, pvLinkedOnly = 0, pvAlreadyLinked = 0, pvConflictCount = 0,
      pvSelectedPoolID = irPoolID req\<rparr>"

text \<open>What the preview reads of the stores.\<close>

definition import_context_of :: "net_env \<Rightarrow> 's store_ops \<Rightarrow> 's \<Rightarrow> disc_store \<Rightarrow> import_request \<Rightarrow>
    (import_error + import_context) option" where
  "import_context_of env ops s d req = (case opGetAccount ops s (irAccountID req) of
     Inl e \<Rightarrow> Some (Inl (OtherError e))
   | Inr None \<Rightarrow> Some (Inl (ClientError ''account not found''))
   | Inr (Some _) \<Rightarrow> (case opListPools ops s of
       Inl e \<Rightarrow> Some (Inl (OtherError e))
     | Inr ps \<Rightarrow> (case selected_pool req ps of
         Inl e \<Rightarrow> Some (Inl e)
       | Inr sp \<Rightarrow> (case listAllDiscoveredResources (deOrd env (0, 0)) d (irAccountID req) no_filters of
           None \<Rightarrow> None
         | Some rs \<Rightarrow>
            (let selected = selected_resources d (irAccountID req) (irResourceIDs req) in
             case duplicateCIDRsByAccount env ops s d (irAccountID req) selected of
               None \<Rightarrow> None
             | Some (Inl e) \<Rightarrow> Some (Inl (OtherError e))
             | Some (Inr dups) \<Rightarrow> Some (Inr \<lparr>icAccountID = irAccountID req, icPools = ps, icSelectedPool = sp,
                 icByProviderID = fold (\<lambda>r. gput (drResourceID r) r) rs [],
                 icSelectedIDs = map drResourceID selected, icDuplicates = dups\<rparr>))))))"

definition previewDiscoveryImport :: "net_env \<Rightarrow> 's store_ops \<Rightarrow> import_request \<Rightarrow> 's disc_world \<Rightarrow>
    (import_error + preview_response) option" where
  "previewDiscoveryImport env ops req w =
     map_option (map_sum id (\<lambda>c. preview_of env (dwDisc w) c req)) (import_context_of env ops (dwStore w) (dwDisc w) req)"

subsection \<open>Applying an import\<close>

record apply_summary =
  asImported :: nat
  asLinkedOnly :: nat
  asSkipped :: nat
  asBlocked :: nat
  asConflicts :: nat
  asCreatedRecords :: nat
  asLinkedRecords :: nat
  asAffectedResourceIDs :: "uuid list"
  asCreatedPoolIDs :: "go_id list"

record import_apply_response =
  iaPreview :: preview_response
  iaSummary :: apply_summary
  iaPoolsCreated :: nat
  iaResourcesLinked :: nat
  iaSkipped :: nat
  iaErrors :: "err_msg list"
  iaCreatedPoolIDs :: "go_id list"
  iaLinkedResourceIDs :: "uuid list"

definition count_status :: "string \<Rightarrow> preview_item list \<Rightarrow> nat" where
  "count_status st items = length (filter (\<lambda>item. piStatus item = st) items)"

definition discoveryImportApplyPreviewSummary :: "preview_response \<Rightarrow> apply_summary" where
  "discoveryImportApplyPreviewSummary preview = \<lparr>asImported = 0, asLinkedOnly = count_status ''linked_only'' (pvItems preview),
     asSkipped = 0, asBlocked = count_status ''blocked'' (pvItems preview),
     asConflicts = count_status ''conflict'' (pvItems preview), asCreatedRecords = 0, asLinkedRecords = 0,
     asAffectedResourceIDs = [], asCreatedPoolIDs = []\<rparr>"

definition canForceDiscoveryImport :: "preview_item \<Rightarrow> bool \<Rightarrow> bool" where
  "canForceDiscoveryImport item allowBlocked =
     (allowBlocked \<and> piStatus item \<notin> {''not_found'', ''already_linked'', ''linked_only''}
      \<and> ''stale_resource'' \<notin> set (piIssues item)
      \<and> (piResourceType item = ResourceTypeVPC \<or> piResourceType item = ResourceTypeSubnet)
      \<and> piCIDR item \<noteq> [] \<and> parsePrefix (piCIDR item) \<noteq> None)"

text \<open>The stable sort: VPCs first, then by resource type, then by provider id.\<close>

definition vpc_first :: "('a \<Rightarrow> string) \<Rightarrow> ('a \<Rightarrow> string) \<Rightarrow> 'a list \<Rightarrow> 'a list" where
  "vpc_first typ key xs =
     sort_key (\<lambda>x. if typ x = ResourceTypeVPC then 0 else (1 :: nat)) (sort_key typ (sort_key key xs))"

definition discovered_pool_input :: "go_id \<Rightarrow> discovered_resource \<Rightarrow> go_id option \<Rightarrow> create_pool" where
  "discovered_pool_input acct res parent = \<lparr>
     cpName = (if trimSpace (drName res) = [] then drResourceID res else trimSpace (drName res)),
     cpCIDR = drCIDR res, cpParentID = parent, cpAccountID = Some acct,
     cpType = (if drResourceType res = ResourceTypeVPC then PoolTypeVPC else PoolTypeSubnet),
     cpStatus = PoolStatusActive, cpSource = PoolSourceDiscovered,
     cpDescription = ''Imported from '' @ drProvider res @ '' discovery resource '' @ drResourceID res @ '' in '' @ drRegion res,
     cpTags = Some [(''discovery_resource_id'', drResourceID res), (''discovery_provider'', drProvider res),
       (''discovery_region'', drRegion res), (''discovery_type'', drResourceType res)]\<rparr>"

definition createDiscoveredPool :: "net_env \<Rightarrow> 's store_ops \<Rightarrow> 's \<Rightarrow> go_id \<Rightarrow> discovered_resource \<Rightarrow> go_id option \<Rightarrow>
    's \<times> (go_error + pool)" where
  "createDiscoveredPool env ops s acct res parent = opCreatePool ops (deNow env) s (discovered_pool_input acct res parent)"

definition import_parent_error :: "'s store_ops \<Rightarrow> 's \<Rightarrow> go_id \<Rightarrow> go_id \<Rightarrow> err_msg option" where
  "import_parent_error ops s acct parent = (case opGetPool ops s parent of
     Inl e \<Rightarrow> Some (OfStore e)
   | Inr None \<Rightarrow> Some (Sprintf ''parent pool %d not found'' [Num parent])
   | Inr (Some p) \<Rightarrow> if other_account p acct then Some (Msg ''parent pool account does not match import account'') else None)"

definition persistDiscoveryImportCandidate :: "net_env \<Rightarrow> preview_item \<Rightarrow> discovered_resource \<Rightarrow> 's disc_world \<Rightarrow> 's disc_world" where
  "persistDiscoveryImportCandidate env item res w =
     (case (if piProposedPoolID item = None then piProposedParentPoolID item else piProposedPoolID item) of
        None \<Rightarrow> w
      | Some target \<Rightarrow> persistDiscoveryRelationship env
          (pool_relationship NetworkRelationshipCandidateImport ''discovered'' (neUUIDString env (piResourceID item)) target (3 / 4)
             ''discovery import candidate''
             (discoveryRelationshipEvidence res [''proposed_action='' @ piProposedAction item,
                ''candidate_pool_id='' @ itoa_int target, join_with ''; '' (piEvidence item)]) ''open'') w)"

record 's import_state =
  imWorld :: "'s disc_world"
  imCreated :: "(string, go_id) gomap"
  imResp :: import_apply_response

definition skip_item :: "err_msg list \<Rightarrow> 's import_state \<Rightarrow> 's import_state" where
  "skip_item errs st = st\<lparr>imResp := (imResp st)\<lparr>iaErrors := iaErrors (imResp st) @ errs, iaSkipped := iaSkipped (imResp st) + 1\<rparr>\<rparr>"

definition item_error :: "string \<Rightarrow> discovered_resource \<Rightarrow> err_msg \<Rightarrow> err_msg" where
  "item_error fmt res e = Sprintf fmt [Msg (drResourceID res), e]"

definition imported_as :: "net_env \<Rightarrow> preview_item \<Rightarrow> discovered_resource \<Rightarrow> go_id \<Rightarrow> string \<Rightarrow> string \<Rightarrow> 's disc_world \<Rightarrow> 's disc_world" where
  "imported_as env item res pool_id reason action w = persistDiscoveryRelationship env
     (pool_relationship NetworkRelationshipImportedAs ''discovered'' (neUUIDString env (piResourceID item)) pool_id 1 reason
        (discoveryRelationshipEvidence res [''action='' @ action, ''pool_id='' @ itoa_int pool_id]) ''resolved'') w"

text \<open>Linking to an existing pool.\<close>

definition link_existing :: "net_env \<Rightarrow> preview_item \<Rightarrow> discovered_resource \<Rightarrow> go_id \<Rightarrow> 's import_state \<Rightarrow> 's import_state" where
  "link_existing env item res pool_id st =
     (let w = imWorld st; r = imResp st in case LinkResourceToPool (dwDisc w) (piResourceID item) pool_id of
        (d, Some e) \<Rightarrow> skip_item [item_error ''%s: link pool: %v'' res (OfStore e)] (st\<lparr>imWorld := w\<lparr>dwDisc := d\<rparr>\<rparr>)
      | (d, None) \<Rightarrow> st\<lparr>
          imWorld := imported_as env item res pool_id ''import linked discovered resource to existing pool'' ''import_link'' (w\<lparr>dwDisc := d\<rparr>),
          imCreated := gput (drResourceID res) pool_id (imCreated st),
          imResp := r\<lparr>iaResourcesLinked := iaResourcesLinked r + 1,
            iaLinkedResourceIDs := iaLinkedResourceIDs r @ [piResourceID item]\<rparr>\<rparr>)"

definition import_parent :: "preview_item \<Rightarrow> discovered_resource \<Rightarrow> (string, go_id) gomap \<Rightarrow> go_id option" where
  "import_parent item res created =
     (if piProposedParentPoolID item \<noteq> None then piProposedParentPoolID item
      else case drParentResourceID res of None \<Rightarrow> None | Some pid \<Rightarrow> map_of created pid)"

text \<open>The new pool is removed again when its resource cannot be linked.\<close>

definition cleanup_pool :: "net_env \<Rightarrow> 's store_ops \<Rightarrow> discovered_resource \<Rightarrow> go_id \<Rightarrow> go_error \<Rightarrow> 's import_state \<Rightarrow> 's import_state" where
  "cleanup_pool env ops res pool_id e st =
     (let w = imWorld st; r = imResp st; link_err = item_error ''%s: link new pool: %v'' res (OfStore e)
      in case opDeletePool ops (deNow env) (dwStore w) pool_id of
        (s, Inl ce) \<Rightarrow> skip_item [Sprintf ''%s: cleanup created pool %d: %v'' [Msg (drResourceID res), Num pool_id, OfStore ce], link_err]
           (st\<lparr>imWorld := w\<lparr>dwStore := s\<rparr>\<rparr>)
      | (s, Inr ok) \<Rightarrow>
          if \<not> ok then skip_item [Sprintf ''%s: cleanup created pool %d: not found'' [Msg (drResourceID res), Num pool_id], link_err]
            (st\<lparr>imWorld := w\<lparr>dwStore := s\<rparr>\<rparr>)
          else skip_item [link_err] (st\<lparr>imWorld := w\<lparr>dwStore := s\<rparr>, imResp := r\<lparr>iaCreatedPoolIDs := butlast (iaCreatedPoolIDs r)\<rparr>\<rparr>))"

definition contains_relationship :: "net_env \<Rightarrow> discovered_resource \<Rightarrow> go_id option \<Rightarrow> go_id \<Rightarrow> 's disc_world \<Rightarrow> 's disc_world" where
  "contains_relationship env res parent child w = (case parent of
     None \<Rightarrow> w
   | Some i \<Rightarrow> persistDiscoveryRelationship env
       (pool_relationship NetworkRelationshipContains ''pool'' (itoa_int i) child 1 ''import placed discovered pool under parent pool''
          (discoveryRelationshipEvidence res [''action=import_contains'', ''parent_pool_id='' @ itoa_int i,
             ''child_pool_id='' @ itoa_int child]) ''resolved'') w)"

definition create_and_link :: "net_env \<Rightarrow> 's store_ops \<Rightarrow> go_id \<Rightarrow> preview_item \<Rightarrow> discovered_resource \<Rightarrow> go_id option \<Rightarrow>
    's import_state \<Rightarrow> 's import_state" where
  "create_and_link env ops acct item res parent st =
     (case createDiscoveredPool env ops (dwStore (imWorld st)) acct res parent of
        (s, Inl e) \<Rightarrow> skip_item [item_error ''%s: create pool: %v'' res (OfStore e)] (st\<lparr>imWorld := (imWorld st)\<lparr>dwStore := s\<rparr>\<rparr>)
      | (s, Inr p) \<Rightarrow>
         (let w = (imWorld st)\<lparr>dwStore := s\<rparr>; r = imResp st; r = r\<lparr>iaCreatedPoolIDs := iaCreatedPoolIDs r @ [poolID p]\<rparr>
          in case LinkResourceToPool (dwDisc w) (piResourceID item) (poolID p) of
            (d, Some e) \<Rightarrow> cleanup_pool env ops res (poolID p) e (st\<lparr>imWorld := w\<lparr>dwDisc := d\<rparr>, imResp := r\<rparr>)
          | (d, None) \<Rightarrow> st\<lparr>
              imWorld := contains_relationship env res parent (poolID p)
                (imported_as env item res (poolID p) ''import created pool from discovered resource'' ''import_create'' (w\<lparr>dwDisc := d\<rparr>)),
              imCreated := gput (drResourceID res) (poolID p) (imCreated st),
              imResp := r\<lparr>iaPoolsCreated := iaPoolsCreated r + 1, iaResourcesLinked := iaResourcesLinked r + 1,
                iaSummary := (iaSummary r)\<lparr>asImported := asImported (iaSummary r) + 1\<rparr>,
                iaLinkedResourceIDs := iaLinkedResourceIDs r @ [piResourceID item]\<rparr>\<rparr>))"

definition import_new :: "net_env \<Rightarrow> 's store_ops \<Rightarrow> go_id \<Rightarrow> preview_item \<Rightarrow> discovered_resource \<Rightarrow> 's import_state \<Rightarrow> 's import_state" where
  "import_new env ops acct item res st =
     (let parent = import_parent item res (imCreated st) in
      if drResourceType res = ResourceTypeSubnet \<and> drParentResourceID res \<noteq> None \<and> parent = None
      then skip_item [item_error ''%s: parent %s was not imported or linked'' res (Msg (the (drParentResourceID res)))] st
      else case (case parent of None \<Rightarrow> None | Some i \<Rightarrow> import_parent_error ops (dwStore (imWorld st)) acct i) of
        Some e \<Rightarrow> skip_item [item_error ''%s: %v'' res e] st
      | None \<Rightarrow> create_and_link env ops acct item res parent st)"

definition import_item :: "net_env \<Rightarrow> 's store_ops \<Rightarrow> go_id \<Rightarrow> bool \<Rightarrow> preview_item \<Rightarrow> 's import_state \<Rightarrow> 's import_state" where
  "import_item env ops acct allowBlocked item st =
     (if piStatus item \<noteq> ''importable'' \<and> \<not> canForceDiscoveryImport item allowBlocked then skip_item [] st
      else case GetDiscoveredResource (dwDisc (imWorld st)) (piResourceID item) of
        Inl e \<Rightarrow> skip_item [Sprintf ''%s: load resource: %v'' [Msg (neUUIDString env (piResourceID item)), OfStore e]] st
      | Inr res \<Rightarrow>
         (let st = st\<lparr>imWorld := persistDiscoveryImportCandidate env item res (imWorld st)\<rparr>
          in case piProposedPoolID item of
            Some i \<Rightarrow>
              if piProposedAction item = ''link_pool'' \<or> allowBlocked then link_existing env item res i st
              else import_new env ops acct item res st
          | None \<Rightarrow> import_new env ops acct item res st))"

definition import_start :: "preview_response \<Rightarrow> 's disc_world \<Rightarrow> 's import_state" where
  "import_start preview w = \<lparr>imWorld = w, imCreated = [], imResp = \<lparr>iaPreview = preview,
     iaSummary = discoveryImportApplyPreviewSummary preview, iaPoolsCreated = 0, iaResourcesLinked = 0, iaSkipped = 0,
     iaErrors = [], iaCreatedPoolIDs = [], iaLinkedResourceIDs = []\<rparr>\<rparr>"

definition finish_import :: "import_apply_response \<Rightarrow> import_apply_response" where
  "finish_import r = r\<lparr>iaSummary := (iaSummary r)\<lparr>asSkipped := iaSkipped r, asCreatedRecords := iaPoolsCreated r,
     asLinkedRecords := iaResourcesLinked r, asAffectedResourceIDs := iaLinkedResourceIDs r,
     asCreatedPoolIDs := iaCreatedPoolIDs r\<rparr>\<rparr>"

definition import_items :: "net_env \<Rightarrow> 's store_ops \<Rightarrow> go_id \<Rightarrow> bool \<Rightarrow> preview_item list \<Rightarrow> 's import_state \<Rightarrow> 's import_state" where
  "import_items env ops acct allowBlocked items st = fold (import_item env ops acct allowBlocked) items st"

definition applyDiscoveryImport :: "net_env \<Rightarrow> 's store_ops \<Rightarrow> import_request \<Rightarrow> bool \<Rightarrow> 's disc_world \<Rightarrow>
    ('s disc_world \<times> (import_error + import_apply_response)) option" where
  "applyDiscoveryImport env ops req allowBlocked w = map_option (\<lambda>pv. case pv of
     Inl e \<Rightarrow> (w, Inl e)
   | Inr preview \<Rightarrow>
       let st = import_items env ops (irAccountID req) allowBlocked
             (vpc_first piResourceType piProviderResourceID (pvItems preview)) (import_start preview w)
       in (imWorld st, Inr (finish_import (imResp st)))) (previewDiscoveryImport env ops req w)"

datatype import_payload = PPreview preview_response | PApplied import_apply_response

definition import_failure :: "string \<Rightarrow> import_error \<Rightarrow> 'a http_response" where
  "import_failure msg e = (case e of ClientError m \<Rightarrow> writeErr 400 m [] | OtherError ge \<Rightarrow> RespErr 500 (Msg msg) (OfStore ge))"

definition handleImportPreview :: "net_env \<Rightarrow> 's store_ops \<Rightarrow> http_request \<Rightarrow> import_request option \<Rightarrow> 's disc_world \<Rightarrow>
    import_payload http_response option" where
  "handleImportPreview env ops rq body w =
     (if rqMethod rq \<noteq> ''POST'' then Some method_not_allowed
      else case body of None \<Rightarrow> Some (writeErr 400 ''invalid request body'' [])
      | Some req \<Rightarrow> (case validateDiscoveryImportSelection (irAccountID req) (irResourceIDs req) of
          Some m \<Rightarrow> Some (writeErr 400 m [])
        | None \<Rightarrow> map_option (\<lambda>pv. case pv of Inl e \<Rightarrow> import_failure ''preview import failed'' e
            | Inr r \<Rightarrow> RespJSON 200 (PPreview r)) (previewDiscoveryImport env ops req w)))"

definition handleImportApply :: "net_env \<Rightarrow> 's store_ops \<Rightarrow> http_request \<Rightarrow> import_request option \<Rightarrow> 's disc_world \<Rightarrow>
    ('s disc_world \<times> import_payload http_response) option" where
  "handleImportApply env ops rq body w =
     (if rqMethod rq \<noteq> ''POST'' then Some (w, method_not_allowed)
      else case body of None \<Rightarrow> Some (w, writeErr 400 ''invalid request body'' [])
      | Some req \<Rightarrow> (case validateDiscoveryImportSelection (irAccountID req) (irResourceIDs req) of
          Some m \<Rightarrow> Some (w, writeErr 400 m [])
        | None \<Rightarrow> map_option (\<lambda>(w, pv). (w, case pv of Inl e \<Rightarrow> import_failure ''apply import failed'' e
            | Inr r \<Rightarrow> RespJSON 200 (PApplied r))) (applyDiscoveryImport env ops req False w)))"

definition handleImportSubroutes :: "net_env \<Rightarrow> 's store_ops \<Rightarrow> http_request \<Rightarrow> import_request option \<Rightarrow> 's disc_world \<Rightarrow>
    ('s disc_world \<times> import_payload http_response) option" where
  "handleImportSubroutes env ops rq body w =
     (let path = trim_char CHR ''/'' (trim_prefix (rqPath rq) ''/api/v1/discovery/import/'') in
      if path = ''preview'' then map_option (Pair w) (handleImportPreview env ops rq body w)
      else if path = ''apply'' then handleImportApply env ops rq body w
      else Some (w, not_found))"

subsection \<open>Importing all resources of an account\<close>

record import_response =
  diAccountsImported :: nat
  diPoolsCreated :: nat
  diResourcesLinked :: nat
  diSkipped :: nat
  diErrors :: "err_msg list"

text \<open>\<open>poolShapeKey\<close>, the text it formats being determined by these four parts.\<close>

definition poolShapeKey :: "go_id option \<Rightarrow> go_id option \<Rightarrow> string \<Rightarrow> string \<Rightarrow> string" where
  "poolShapeKey acct parent typ cidr =
     itoa_int (case acct of None \<Rightarrow> 0 | Some a \<Rightarrow> a) @ ''|'' @ itoa_int (case parent of None \<Rightarrow> 0 | Some p \<Rightarrow> p)
       @ ''|'' @ typ @ ''|'' @ cidr"

definition pool_shape :: "pool \<Rightarrow> string" where
  "pool_shape p = poolShapeKey (poolAccountID p) (poolParentID p) (poolType p) (poolCIDR p)"

definition discovery_tag :: "pool \<Rightarrow> string" where
  "discovery_tag p = (case poolTags p of None \<Rightarrow> [] | Some t \<Rightarrow> gget [] t ''discovery_resource_id'')"

record 's bulk_state =
  bsWorld :: "'s disc_world"
  bsByDiscoveryID :: "(string, go_id) gomap"
  bsByShape :: "(string, go_id) gomap"
  bsResourceToPool :: "(string, go_id) gomap"
  bsResp :: import_response

definition index_pool :: "pool \<Rightarrow> (string, go_id) gomap \<times> (string, go_id) gomap \<Rightarrow> (string, go_id) gomap \<times> (string, go_id) gomap" where
  "index_pool p m = (if discovery_tag p \<noteq> [] then gput (discovery_tag p) (poolID p) (fst m) else fst m,
     gput (pool_shape p) (poolID p) (snd m))"

definition bulk_skip :: "err_msg list \<Rightarrow> 's bulk_state \<Rightarrow> 's bulk_state" where
  "bulk_skip errs st = st\<lparr>bsResp := (bsResp st)\<lparr>diErrors := diErrors (bsResp st) @ errs, diSkipped := diSkipped (bsResp st) + 1\<rparr>\<rparr>"

definition bulk_link :: "string \<Rightarrow> discovered_resource \<Rightarrow> go_id \<Rightarrow> 's bulk_state \<Rightarrow> 's bulk_state" where
  "bulk_link fmt res i st =
     (let w = bsWorld st; r = bsResp st in case LinkResourceToPool (dwDisc w) (drID res) i of
        (d, Some e) \<Rightarrow> st\<lparr>bsWorld := w\<lparr>dwDisc := d\<rparr>, bsResp := r\<lparr>diErrors := diErrors r @ [item_error fmt res (OfStore e)]\<rparr>\<rparr>
      | (d, None) \<Rightarrow> st\<lparr>bsWorld := w\<lparr>dwDisc := d\<rparr>, bsResourceToPool := gput (drResourceID res) i (bsResourceToPool st),
          bsResp := r\<lparr>diResourcesLinked := diResourcesLinked r + 1\<rparr>\<rparr>)"

definition bulk_create :: "net_env \<Rightarrow> 's store_ops \<Rightarrow> go_id \<Rightarrow> go_id option \<Rightarrow> discovered_resource \<Rightarrow> 's bulk_state \<Rightarrow> 's bulk_state" where
  "bulk_create env ops acct parent res st =
     (let w = bsWorld st; r = bsResp st in
      case opCreatePool ops (deNow env) (dwStore w) (discovered_pool_input acct res parent) of
        (s, Inl e) \<Rightarrow> bulk_skip [item_error ''%s: create pool: %v'' res (OfStore e)] (st\<lparr>bsWorld := w\<lparr>dwStore := s\<rparr>\<rparr>)
      | (s, Inr p) \<Rightarrow> (case LinkResourceToPool (dwDisc w) (drID res) (poolID p) of (d, err) \<Rightarrow>
          st\<lparr>bsWorld := w\<lparr>dwStore := s, dwDisc := d\<rparr>,
            bsResourceToPool := gput (drResourceID res) (poolID p) (bsResourceToPool st),
            bsByDiscoveryID := gput (drResourceID res) (poolID p) (bsByDiscoveryID st),
            bsByShape := gput (pool_shape p) (poolID p) (bsByShape st),
            bsResp := (case err of
               Some e \<Rightarrow> r\<lparr>diErrors := diErrors r @ [item_error ''%s: link new pool: %v'' res (OfStore e)], diPoolsCreated := diPoolsCreated r + 1\<rparr>
             | None \<Rightarrow> r\<lparr>diResourcesLinked := diResourcesLinked r + 1, diPoolsCreated := diPoolsCreated r + 1\<rparr>)\<rparr>))"

definition bulk_item :: "net_env \<Rightarrow> 's store_ops \<Rightarrow> go_id \<Rightarrow> discovered_resource \<Rightarrow> 's bulk_state \<Rightarrow> 's bulk_state" where
  "bulk_item env ops acct res st = (case drPoolID res of
     Some i \<Rightarrow> bulk_skip [] (st\<lparr>bsResourceToPool := gput (drResourceID res) i (bsResourceToPool st)\<rparr>)
   | None \<Rightarrow>
       if drCIDR res = [] \<or> (drResourceType res \<noteq> ResourceTypeVPC \<and> drResourceType res \<noteq> ResourceTypeSubnet) then bulk_skip [] st
       else if parsePrefix (drCIDR res) = None then bulk_skip [item_error ''%s: invalid CIDR %q'' res (Msg (drCIDR res))] st
       else
         let typ = (if drResourceType res = ResourceTypeVPC then PoolTypeVPC else PoolTypeSubnet);
             parent = (case drParentResourceID res of None \<Rightarrow> None | Some pid \<Rightarrow> map_of (bsResourceToPool st) pid)
         in case map_of (bsByDiscoveryID st) (drResourceID res) of
              Some i \<Rightarrow> bulk_link ''%s: link existing pool: %v'' res i st
            | None \<Rightarrow> (case map_of (bsByShape st) (poolShapeKey (Some acct) parent typ (drCIDR res)) of
                Some i \<Rightarrow> bulk_link ''%s: link matching pool: %v'' res i st
              | None \<Rightarrow> bulk_create env ops acct parent res st))"

definition importDiscoveredPools :: "net_env \<Rightarrow> 's store_ops \<Rightarrow> go_id \<Rightarrow> discovered_resource list \<Rightarrow> 's disc_world \<Rightarrow>
    's disc_world \<times> import_response" where
  "importDiscoveredPools env ops acct resources w =
     (let none = \<lparr>diAccountsImported = 0, diPoolsCreated = 0, diResourcesLinked = 0, diSkipped = 0, diErrors = []\<rparr> in
      case opListPools ops (dwStore w) of
        Inl e \<Rightarrow> (w, none\<lparr>diErrors := [Sprintf ''list pools: %v'' [OfStore e]]\<rparr>)
      | Inr ps \<Rightarrow>
         (let m = fold index_pool ps ([], []);
              st = fold (bulk_item env ops acct) (vpc_first drResourceType drResourceID resources)
                \<lparr>bsWorld = w, bsByDiscoveryID = fst m, bsByShape = snd m, bsResourceToPool = [], bsResp = none\<rparr>
          in (bsWorld st, bsResp st)))"

definition handleImportDiscoveredSchema :: "net_env \<Rightarrow> 's store_ops \<Rightarrow> http_request \<Rightarrow> go_id option \<Rightarrow> 's disc_world \<Rightarrow>
    ('s disc_world \<times> import_response http_response) option" where
  "handleImportDiscoveredSchema env ops rq body w =
     (if rqMethod rq \<noteq> ''POST'' then Some (w, method_not_allowed)
      else case body of None \<Rightarrow> Some (w, writeErr 400 ''account_id is required and must be a positive integer'' [])
      | Some acct \<Rightarrow>
          if acct < 1 then Some (w, writeErr 400 ''account_id is required and must be a positive integer'' [])
          else case opGetAccount ops (dwStore w) acct of
            Inl e \<Rightarrow> Some (w, RespErr 500 (Msg ''account lookup failed'') (OfStore e))
          | Inr None \<Rightarrow> Some (w, writeErr 404 ''account not found'' [])
          | Inr (Some _) \<Rightarrow> map_option (\<lambda>rs. case importDiscoveredPools env ops acct rs w of (w, r) \<Rightarrow> (w, RespJSON 200 r))
              (listAllDiscoveredResources (deOrd env (0, 0)) (dwDisc w) acct (no_filters\<lparr>dfStatus := DiscoveryStatusActive\<rparr>)))"

end
