(* ===== verification/ImportFacts.thy ===== *)
theory ImportFacts
  imports DiscoveryImport DriftProps
begin

section \<open>What an import reads and changes\<close>

text \<open>
  An importable row of the preview names an active, unlinked network resource of the account, and
  the pool it proposes has the same prefix. \<open>import_ok\<close> is what every step of an apply keeps: pools
  are only added, each for such a resource and below a live parent, and only such resources are
  linked, to a live pool with their prefix.
\<close>

subsection \<open>The classification of a row\<close>

lemma item_simps [simp]:
  "piIssues (add_issue x item) = piIssues item @ [x]" "piIssues (add_evidence es item) = piIssues item"
  "piIssues (add_conflict i item) = piIssues item"
  "piProposedPoolID (add_issue x item) = piProposedPoolID item" "piProposedPoolID (add_evidence es item) = piProposedPoolID item"
  "piProposedPoolID (add_conflict i item) = piProposedPoolID item"
  "piResourceID (add_issue x item) = piResourceID item" "piResourceID (add_evidence es item) = piResourceID item"
  "piResourceID (add_conflict i item) = piResourceID item"
  "piStatus (add_issue x item) = piStatus item" "piStatus (add_evidence es item) = piStatus item"
  "piProposedParentPoolID (add_issue x item) = piProposedParentPoolID item"
  "piProposedParentPoolID (add_evidence es item) = piProposedParentPoolID item"
  "piProposedParentPoolID (add_conflict i item) = piProposedParentPoolID item"
  "piConflictPoolIDs (add_evidence es item) = piConflictPoolIDs item" "piConflictPoolIDs (add_issue x item) = piConflictPoolIDs item"
  "piConflictPoolIDs (add_conflict i item) = piConflictPoolIDs item @ [i]"
  by (simp_all add: add_issue_def add_evidence_def add_conflict_def)

lemma row_fields [simp]:
  "piIssues (empty_item k) = []" "piProposedPoolID (empty_item k) = None" "piResourceID (empty_item k) = k"
  "piIssues (described_item k res) = []" "piProposedPoolID (described_item k res) = None"
  "piResourceID (described_item k res) = k" "piStatus (described_item k res) = ''blocked''"
  "piConflictPoolIDs (described_item k res) = []" "piProposedParentPoolID (described_item k res) = None"
  by (simp_all add: empty_item_def described_item_def)

definition proposal_ok :: "discovered_resource \<Rightarrow> pool list \<Rightarrow> preview_item \<Rightarrow> bool" where
  "proposal_ok res ps item \<longleftrightarrow> (\<forall>i. piProposedPoolID item = Some i \<longrightarrow> (\<exists>p \<in> set ps. poolID p = i
     \<and> cidrEqual (poolCIDR p) (drCIDR res) \<and> \<not> other_account p (drAccountID res)))"

lemma classify_pool_keeps:
  "piIssues (fst (classify_pool res p st)) = piIssues (fst st)" "piResourceID (fst (classify_pool res p st)) = piResourceID (fst st)"
  "proposal_ok res ps (fst st) \<Longrightarrow> p \<in> set ps \<Longrightarrow> proposal_ok res ps (fst (classify_pool res p st))"
  by (auto simp: classify_pool_def proposal_ok_def split: prod.split)

lemma classify_fold:
  "piIssues (fst (fold (classify_pool res) qs st)) = piIssues (fst st)"
  "piResourceID (fst (fold (classify_pool res) qs st)) = piResourceID (fst st)"
  "proposal_ok res ps (fst st) \<Longrightarrow> set qs \<subseteq> set ps \<Longrightarrow> proposal_ok res ps (fst (fold (classify_pool res) qs st))"
  by (induction qs arbitrary: st) (auto simp: classify_pool_keeps)

lemma steps_issues:
  "piIssues (cidr_step res item) = [] \<Longrightarrow> parsePrefix (drCIDR res) \<noteq> None"
  "piIssues (selected_pool_step c res item) = [] \<Longrightarrow> piIssues item = []"
  "piIssues (subnet_step c res item) = [] \<Longrightarrow> piIssues item = []"
  "piIssues (duplicate_step c res item) = [] \<Longrightarrow> piIssues item = []"
  by (simp_all add: cidr_step_def selected_pool_step_def subnet_step_def provider_parent_step_def duplicate_step_def Let_def
      split: option.splits if_splits)

lemma steps_pool:
  "piProposedPoolID (cidr_step res item) = piProposedPoolID item" "piResourceID (cidr_step res item) = piResourceID item"
  "piProposedPoolID (selected_pool_step c res item) = piProposedPoolID item"
  "piResourceID (selected_pool_step c res item) = piResourceID item"
  "piProposedPoolID (subnet_step c res item) = piProposedPoolID item" "piResourceID (subnet_step c res item) = piResourceID item"
  "piProposedPoolID (duplicate_step c res item) = piProposedPoolID item" "piResourceID (duplicate_step c res item) = piResourceID item"
  "piProposedPoolID (final_step item) = piProposedPoolID item" "piResourceID (final_step item) = piResourceID item"
  by (auto simp: cidr_step_def selected_pool_step_def subnet_step_def provider_parent_step_def duplicate_step_def final_step_def Let_def
      split: option.splits)

lemma final_importable:
  "piStatus (final_step item) = ''importable'' \<Longrightarrow> piIssues item = [] \<and> piConflictPoolIDs item = []"
  by (auto simp: final_step_def split: if_splits)

lemma classify_steps_importable:
  assumes "piStatus (classify_steps c res item) = ''importable''" "piProposedPoolID item = None"
  shows "parsePrefix (drCIDR res) \<noteq> None" "piResourceID (classify_steps c res item) = piResourceID item"
    "proposal_ok res (icPools c) (classify_steps c res item)"
proof -
  define a where "a = subnet_step c res (selected_pool_step c res (cidr_step res item))"
  define b where "b = classifyPoolRelationships a res (icPools c)"
  have steps: "classify_steps c res item = final_step (duplicate_step c res b)"
    by (simp only: classify_steps_def a_def b_def)
  have ab: "piIssues b = piIssues a" "piResourceID b = piResourceID a"
    by (simp_all only: b_def classifyPoolRelationships_def classify_fold fst_conv)
  have a_item: "piResourceID a = piResourceID item" "piProposedPoolID a = None"
    by (simp_all only: a_def steps_pool assms(2))
  have "piIssues (duplicate_step c res b) = []"
    using conjunct1[OF final_importable[OF assms(1)[unfolded steps]]] .
  then have "piIssues a = []" using steps_issues(4)[of c res b] ab(1) by simp
  then have "piIssues (cidr_step res item) = []"
    unfolding a_def by (rule steps_issues(2)[OF steps_issues(3)])
  then show "parsePrefix (drCIDR res) \<noteq> None" by (rule steps_issues(1))
  show "piResourceID (classify_steps c res item) = piResourceID item"
    unfolding steps by (simp only: steps_pool ab(2) a_item(1))
  have "proposal_ok res (icPools c) b"
    unfolding b_def classifyPoolRelationships_def
    by (rule classify_fold(3)) (simp_all add: proposal_ok_def a_item(2))
  then show "proposal_ok res (icPools c) (classify_steps c res item)"
    unfolding steps proposal_ok_def by (simp only: steps_pool)
qed

text \<open>A resource that an import may link.\<close>

definition linkable :: "disc_store \<Rightarrow> go_id \<Rightarrow> uuid list \<Rightarrow> uuid \<Rightarrow> discovered_resource \<Rightarrow> bool" where
  "linkable d acct ids k r \<longleftrightarrow> k \<in> set ids \<and> map_of (dsResources d) k = Some r \<and> drAccountID r = acct \<and> drPoolID r = None
     \<and> drStatus r = DiscoveryStatusActive \<and> drResourceType r \<in> {ResourceTypeVPC, ResourceTypeSubnet}
     \<and> parsePrefix (drCIDR r) \<noteq> None"

lemma clone_fields [simp]:
  "drAccountID (cloneDiscoveredResource r) = drAccountID r" "drPoolID (cloneDiscoveredResource r) = drPoolID r"
  "drStatus (cloneDiscoveredResource r) = drStatus r" "drResourceType (cloneDiscoveredResource r) = drResourceType r"
  "drCIDR (cloneDiscoveredResource r) = drCIDR r" "drResourceID (cloneDiscoveredResource r) = drResourceID r"
  "drName (cloneDiscoveredResource r) = drName r" "drParentResourceID (cloneDiscoveredResource r) = drParentResourceID r"
  "drID (cloneDiscoveredResource r) = drID r"
  by (simp_all add: cloneDiscoveredResource_def)

lemma importable_row:
  assumes "piStatus (preview_item_of env d c k) = ''importable''" "k \<in> set ids"
  shows "\<exists>r. linkable d (icAccountID c) ids k r \<and> piResourceID (preview_item_of env d c k) = k
    \<and> proposal_ok r (icPools c) (preview_item_of env d c k)"
proof -
  obtain r where r: "map_of (dsResources d) k = Some r"
    using assms(1) by (cases "map_of (dsResources d) k") (auto simp: preview_item_of_def GetDiscoveredResource_def)
  let ?r = "cloneDiscoveredResource r"
  have checks: "drAccountID r = icAccountID c" "drPoolID r = None" "drStatus r = DiscoveryStatusActive"
      "drResourceType r = ResourceTypeVPC \<or> drResourceType r = ResourceTypeSubnet"
      "preview_item_of env d c k = classify_steps c ?r (described_item k ?r)"
    using assms(1) r by (auto simp: preview_item_of_def GetDiscoveredResource_def Let_def split: if_splits)
  note s = classify_steps_importable[OF assms(1)[unfolded checks(5)]]
  have "proposal_ok r (icPools c) (preview_item_of env d c k)" using s(3) checks(5) by (simp add: proposal_ok_def)
  then show ?thesis using s checks r assms(2) by (auto simp: linkable_def)
qed

subsection \<open>What an apply keeps\<close>

definition import_ok :: "(go_id \<Rightarrow> pool option) \<Rightarrow> disc_store \<Rightarrow> go_id \<Rightarrow> uuid list \<Rightarrow> (go_id \<Rightarrow> pool option) \<Rightarrow> disc_store \<Rightarrow> bool" where
  "import_ok m0 d0 acct ids m d \<longleftrightarrow> (\<forall>i p. m0 i = Some p \<longrightarrow> m i = Some p)
     \<and> (\<forall>i p. m i = Some p \<longrightarrow> m0 i = Some p \<or> poolAccountID p = Some acct \<and> poolSource p = PoolSourceDiscovered
          \<and> (\<exists>k r. linkable d0 acct ids k r \<and> poolCIDR p = drCIDR r) \<and> (\<forall>q. poolParentID p = Some q \<longrightarrow> m q \<noteq> None))
     \<and> (\<forall>k. map_of (dsResources d) k = map_of (dsResources d0) k \<or> (\<exists>r i p. linkable d0 acct ids k r
          \<and> map_of (dsResources d) k = Some (r\<lparr>drPoolID := Some i\<rparr>) \<and> m i = Some p
          \<and> cidrEqual (poolCIDR p) (drCIDR r) \<and> \<not> other_account p acct))
     \<and> dsSyncJobs d = dsSyncJobs d0 \<and> dsAgents d = dsAgents d0"

lemma import_okD:
  assumes "import_ok m0 d0 acct ids m d"
  shows "m0 i = Some p \<Longrightarrow> m i = Some p"
    "m i = Some p \<Longrightarrow> m0 i = Some p \<or> poolAccountID p = Some acct \<and> poolSource p = PoolSourceDiscovered
       \<and> (\<exists>k r. linkable d0 acct ids k r \<and> poolCIDR p = drCIDR r) \<and> (\<forall>q. poolParentID p = Some q \<longrightarrow> m q \<noteq> None)"
    "map_of (dsResources d) k = map_of (dsResources d0) k \<or> (\<exists>r i p. linkable d0 acct ids k r
       \<and> map_of (dsResources d) k = Some (r\<lparr>drPoolID := Some i\<rparr>) \<and> m i = Some p
       \<and> cidrEqual (poolCIDR p) (drCIDR r) \<and> \<not> other_account p acct)"
    "dsSyncJobs d = dsSyncJobs d0" "dsAgents d = dsAgents d0"
  using assms unfolding import_ok_def by simp_all

lemma import_ok_refl: "import_ok m d acct ids m d"
  by (simp add: import_ok_def)

lemma import_ok_lookup:
  assumes "import_ok m0 d0 acct ids m d" "linkable d0 acct ids k r"
  shows "\<exists>j. map_of (dsResources d) k = Some (r\<lparr>drPoolID := j\<rparr>)"
proof -
  have k: "map_of (dsResources d0) k = Some r" "drPoolID r = None" using assms(2) by (simp_all add: linkable_def)
  from import_okD(3)[OF assms(1), of k] show ?thesis
  proof
    assume "map_of (dsResources d) k = map_of (dsResources d0) k"
    then show ?thesis using k by (intro exI[of _ None]) simp
  next
    assume "\<exists>r i p. linkable d0 acct ids k r \<and> map_of (dsResources d) k = Some (r\<lparr>drPoolID := Some i\<rparr>) \<and> m i = Some p
       \<and> cidrEqual (poolCIDR p) (drCIDR r) \<and> \<not> other_account p acct"
    then obtain r' i where "linkable d0 acct ids k r'" "map_of (dsResources d) k = Some (r'\<lparr>drPoolID := Some i\<rparr>)" by blast
    moreover from this have "r' = r" using k(1) by (simp add: linkable_def)
    ultimately show ?thesis by blast
  qed
qed

lemma import_ok_link:
  assumes I: "import_ok m0 d0 acct ids m d" and k: "linkable d0 acct ids k r"
    and p: "m i = Some p" "cidrEqual (poolCIDR p) (drCIDR r)" "\<not> other_account p acct"
  shows "snd (LinkResourceToPool d k i) = None" "import_ok m0 d0 acct ids m (fst (LinkResourceToPool d k i))"
proof -
  obtain j where j: "map_of (dsResources d) k = Some (r\<lparr>drPoolID := j\<rparr>)" using import_ok_lookup[OF I k] by blast
  then have L: "LinkResourceToPool d k i = (d\<lparr>dsResources := gput k (r\<lparr>drPoolID := Some i\<rparr>) (dsResources d)\<rparr>, None)"
    by (simp add: LinkResourceToPool_def)
  then show "snd (LinkResourceToPool d k i) = None" by simp
  have "map_of (dsResources (fst (LinkResourceToPool d k i))) k' = map_of (dsResources d0) k' \<or> (\<exists>r j p. linkable d0 acct ids k' r
       \<and> map_of (dsResources (fst (LinkResourceToPool d k i))) k' = Some (r\<lparr>drPoolID := Some j\<rparr>) \<and> m j = Some p
       \<and> cidrEqual (poolCIDR p) (drCIDR r) \<and> \<not> other_account p acct)" for k'
  proof (cases "k' = k")
    case True
    then have "map_of (dsResources (fst (LinkResourceToPool d k i))) k' = Some (r\<lparr>drPoolID := Some i\<rparr>)" using L by simp
    then show ?thesis using True k p by blast
  next
    case False
    then have same: "map_of (dsResources (fst (LinkResourceToPool d k i))) k' = map_of (dsResources d) k'" using L by simp
    show ?thesis unfolding same by (rule import_okD(3)[OF I])
  qed
  then show "import_ok m0 d0 acct ids m (fst (LinkResourceToPool d k i))"
    using import_okD(1,2,4,5)[OF I] L unfolding import_ok_def by (intro conjI allI impI) simp_all
qed

lemma import_ok_create:
  assumes I: "import_ok m0 d0 acct ids m d" and k: "linkable d0 acct ids k r" and i: "m i = None"
    and p: "poolAccountID p = Some acct" "poolSource p = PoolSourceDiscovered" "poolCIDR p = drCIDR r"
      "\<And>q. poolParentID p = Some q \<Longrightarrow> m q \<noteq> None"
  shows "import_ok m0 d0 acct ids (m(i \<mapsto> p)) d"
proof -
  have i0: "m0 i = None" using import_okD(1)[OF I, of i] i by (cases "m0 i") auto
  have keep: "m j = Some q \<Longrightarrow> (m(i \<mapsto> p)) j = Some q" for j q using i by auto
  show ?thesis
    unfolding import_ok_def
  proof (intro conjI allI impI)
    show "(m(i \<mapsto> p)) j = Some q" if "m0 j = Some q" for j q using keep import_okD(1)[OF I that] .
    show "m0 j = Some q \<or> poolAccountID q = Some acct \<and> poolSource q = PoolSourceDiscovered
          \<and> (\<exists>k r. linkable d0 acct ids k r \<and> poolCIDR q = drCIDR r) \<and> (\<forall>z. poolParentID q = Some z \<longrightarrow> (m(i \<mapsto> p)) z \<noteq> None)"
      if "(m(i \<mapsto> p)) j = Some q" for j q
    proof (cases "j = i")
      case True
      then have "q = p" using that by simp
      then show ?thesis using p k by auto
    next
      case False
      then have "m j = Some q" using that by simp
      from import_okD(2)[OF I this] show ?thesis by auto
    qed
    show "map_of (dsResources d) k = map_of (dsResources d0) k \<or> (\<exists>r j q. linkable d0 acct ids k r
          \<and> map_of (dsResources d) k = Some (r\<lparr>drPoolID := Some j\<rparr>) \<and> (m(i \<mapsto> p)) j = Some q
          \<and> cidrEqual (poolCIDR q) (drCIDR r) \<and> \<not> other_account q acct)" for k
      using import_okD(3)[OF I, of k] keep by blast
  qed (use import_okD(4,5)[OF I] in simp_all)
qed

lemma cidrEqual_refl: "parsePrefix c \<noteq> None \<Longrightarrow> cidrEqual c c"
  by (auto simp: cidrEqual_def)

lemma persist_world [simp]:
  "dwStore (persistDiscoveryRelationship env x w) = dwStore w" "dwDisc (persistDiscoveryRelationship env x w) = dwDisc w"
  by (simp_all add: persistDiscoveryRelationship_def split: option.split)

lemma persist_parts [simp]:
  "dwStore (persistDiscoveryImportCandidate env item res w) = dwStore w"
  "dwDisc (persistDiscoveryImportCandidate env item res w) = dwDisc w"
  "dwStore (imported_as env item res i a b w) = dwStore w" "dwDisc (imported_as env item res i a b w) = dwDisc w"
  "dwStore (contains_relationship env res par i w) = dwStore w" "dwDisc (contains_relationship env res par i w) = dwDisc w"
  by (simp_all add: persistDiscoveryImportCandidate_def imported_as_def contains_relationship_def split: option.split)

lemma skip_world [simp]: "imWorld (skip_item es st) = imWorld st"
  by (simp add: skip_item_def)

lemma created_from_discovered:
  "created_from (discovered_pool_input acct r par) p \<Longrightarrow> poolAccountID p = Some acct \<and> poolSource p = PoolSourceDiscovered
     \<and> poolCIDR p = drCIDR r \<and> poolParentID p = par"
  by (simp add: created_from_def discovered_pool_input_def default_str_def PoolSourceDiscovered_def)

context pool_store
begin

lemma link_existing_ok:
  assumes I: "import_ok m0 d0 acct ids (live (dwStore (imWorld st))) (dwDisc (imWorld st))"
    and k: "linkable d0 acct ids (piResourceID item) r"
    and p: "live (dwStore (imWorld st)) i = Some p" "cidrEqual (poolCIDR p) (drCIDR r)" "\<not> other_account p acct"
  shows "dwStore (imWorld (link_existing env item res i st)) = dwStore (imWorld st)"
    and "import_ok m0 d0 acct ids (live (dwStore (imWorld st))) (dwDisc (imWorld (link_existing env item res i st)))"
proof -
  obtain d where d: "LinkResourceToPool (dwDisc (imWorld st)) (piResourceID item) i = (d, None)"
    using import_ok_link(1)[OF I k p] by (cases "LinkResourceToPool (dwDisc (imWorld st)) (piResourceID item) i") auto
  then show "dwStore (imWorld (link_existing env item res i st)) = dwStore (imWorld st)"
    by (simp add: link_existing_def Let_def)
  show "import_ok m0 d0 acct ids (live (dwStore (imWorld st))) (dwDisc (imWorld (link_existing env item res i st)))"
    using import_ok_link(2)[OF I k p] d by (simp add: link_existing_def Let_def)
qed

lemma create_and_link_ok:
  assumes s: "inv (dwStore (imWorld st))"
    and I: "import_ok m0 d0 acct ids (live (dwStore (imWorld st))) (dwDisc (imWorld st))"
    and k: "linkable d0 acct ids (piResourceID item) r" and res: "drCIDR res = drCIDR r"
    and par: "\<And>q. parent = Some q \<Longrightarrow> live (dwStore (imWorld st)) q \<noteq> None"
  shows "inv (dwStore (imWorld (create_and_link env ops acct item res parent st)))
    \<and> import_ok m0 d0 acct ids (live (dwStore (imWorld (create_and_link env ops acct item res parent st))))
        (dwDisc (imWorld (create_and_link env ops acct item res parent st)))"
proof -
  let ?s = "dwStore (imWorld st)"
  let ?inp = "discovered_pool_input acct res parent"
  have inv': "inv (fst (opCreatePool ops (deNow env) ?s ?inp))"
    by (rule create_inv[OF s]) (use par in \<open>simp add: discovered_pool_input_def\<close>)
  obtain s' z where z: "opCreatePool ops (deNow env) ?s ?inp = (s', z)" by (rule prod.exhaust)
  show ?thesis
  proof (cases z)
    case (Inl e)
    then show ?thesis using z inv' I create_error[OF s] by (simp add: create_and_link_def createDiscoveredPool_def)
  next
    case (Inr p)
    have new: "live ?s (poolID p) = None" "live s' = (live ?s)(poolID p \<mapsto> p)" "created_from ?inp p"
      using create_pool[OF s] z Inr by blast+
    note fields = created_from_discovered[OF new(3)]
    have I': "import_ok m0 d0 acct ids (live s') (dwDisc (imWorld st))"
      unfolding new(2) by (rule import_ok_create[OF I k new(1)]) (use fields res par in auto)
    have eq: "cidrEqual (poolCIDR p) (drCIDR r)" "\<not> other_account p acct"
      using fields res k cidrEqual_refl by (simp_all add: linkable_def other_account_def)
    have p: "live s' (poolID p) = Some p" by (simp add: new(2))
    obtain d where d: "LinkResourceToPool (dwDisc (imWorld st)) (piResourceID item) (poolID p) = (d, None)"
      using import_ok_link(1)[OF I' k p eq] by (cases "LinkResourceToPool (dwDisc (imWorld st)) (piResourceID item) (poolID p)") auto
    have "dwStore (imWorld (create_and_link env ops acct item res parent st)) = s'"
      "dwDisc (imWorld (create_and_link env ops acct item res parent st)) = d"
      using z Inr d by (simp_all add: create_and_link_def createDiscoveredPool_def Let_def)
    then show ?thesis using inv' z import_ok_link(2)[OF I' k p eq] d by simp
  qed
qed

lemma import_item_ok:
  assumes s: "inv (dwStore (imWorld st))"
    and I: "import_ok m0 d0 acct ids (live (dwStore (imWorld st))) (dwDisc (imWorld st))"
    and row: "piStatus item = ''importable'' \<Longrightarrow> linkable d0 acct ids (piResourceID item) r \<and> proposal_ok r ps item"
    and ps: "\<And>p. p \<in> set ps \<Longrightarrow> m0 (poolID p) = Some p"
  shows "inv (dwStore (imWorld (import_item env ops acct False item st)))
    \<and> import_ok m0 d0 acct ids (live (dwStore (imWorld (import_item env ops acct False item st))))
        (dwDisc (imWorld (import_item env ops acct False item st)))"
proof (cases "piStatus item = ''importable''")
  case False
  then show ?thesis using s I by (simp add: import_item_def canForceDiscoveryImport_def)
next
  case True
  with row have k: "linkable d0 acct ids (piResourceID item) r" and proposal: "proposal_ok r ps item" by blast+
  have acct: "drAccountID r = acct" using k by (simp add: linkable_def)
  obtain j where "map_of (dsResources (dwDisc (imWorld st))) (piResourceID item) = Some (r\<lparr>drPoolID := j\<rparr>)"
    using import_ok_lookup[OF I k] by blast
  then obtain res where res: "GetDiscoveredResource (dwDisc (imWorld st)) (piResourceID item) = Inr res" "drCIDR res = drCIDR r"
    by (simp add: GetDiscoveredResource_def)
  define st1 where "st1 = st\<lparr>imWorld := persistDiscoveryImportCandidate env item res (imWorld st)\<rparr>"
  have w: "dwStore (imWorld st1) = dwStore (imWorld st)" "dwDisc (imWorld st1) = dwDisc (imWorld st)" by (simp_all add: st1_def)
  have new: "inv (dwStore (imWorld (import_new env ops acct item res st1)))
    \<and> import_ok m0 d0 acct ids (live (dwStore (imWorld (import_new env ops acct item res st1)))) (dwDisc (imWorld (import_new env ops acct item res st1)))"
  proof -
    let ?par = "import_parent item res (imCreated st1)"
    have live_par: "live (dwStore (imWorld st1)) q \<noteq> None"
      if "?par = Some q" "import_parent_error ops (dwStore (imWorld st1)) acct q = None" for q
      using that(2) get_pool[OF s, of q] w(1) by (auto simp: import_parent_error_def split: sum.splits option.splits)
    show ?thesis
      unfolding import_new_def Let_def
      using create_and_link_ok[of st1 m0 d0 acct ids item r res ?par env, unfolded w, OF s I k res(2)] live_par[unfolded w] s I w
      by (auto split: option.split)
  qed
  have step: "import_item env ops acct False item st = (case piProposedPoolID item of
      Some i \<Rightarrow> if piProposedAction item = ''link_pool'' then link_existing env item res i st1 else import_new env ops acct item res st1
    | None \<Rightarrow> import_new env ops acct item res st1)"
    using True res(1) by (simp add: import_item_def st1_def Let_def split: option.split)
  show ?thesis
  proof (cases "\<exists>i. piProposedPoolID item = Some i \<and> piProposedAction item = ''link_pool''")
    case True
    then obtain i where i: "piProposedPoolID item = Some i" "piProposedAction item = ''link_pool''" by blast
    then obtain p where p: "p \<in> set ps" "poolID p = i" "cidrEqual (poolCIDR p) (drCIDR r)" "\<not> other_account p acct"
      using proposal acct by (auto simp: proposal_ok_def)
    have "live (dwStore (imWorld st1)) i = Some p" using import_okD(1)[OF I ps[OF p(1)]] p(2) w(1) by simp
    from link_existing_ok[OF I[folded w] k this p(3,4), of env res] show ?thesis
      using s w i by (simp add: step)
  next
    case False
    then have "import_item env ops acct False item st = import_new env ops acct item res st1"
      unfolding step by (auto split: option.split)
    then show ?thesis using new by simp
  qed
qed

lemma import_items_ok:
  assumes "inv (dwStore (imWorld st))" "import_ok m0 d0 acct ids (live (dwStore (imWorld st))) (dwDisc (imWorld st))"
    and "\<And>item. item \<in> set items \<Longrightarrow> piStatus item = ''importable'' \<Longrightarrow> \<exists>r. linkable d0 acct ids (piResourceID item) r \<and> proposal_ok r ps item"
    and "\<And>p. p \<in> set ps \<Longrightarrow> m0 (poolID p) = Some p"
  shows "inv (dwStore (imWorld (import_items env ops acct False items st)))
    \<and> import_ok m0 d0 acct ids (live (dwStore (imWorld (import_items env ops acct False items st))))
        (dwDisc (imWorld (import_items env ops acct False items st)))"
  using assms(1-3)
proof (induction items arbitrary: st)
  case Nil
  then show ?case by (simp add: import_items_def)
next
  case (Cons item items)
  obtain r where "piStatus item = ''importable'' \<Longrightarrow> linkable d0 acct ids (piResourceID item) r \<and> proposal_ok r ps item"
    using Cons.prems(3)[of item] by (metis list.set_intros(1))
  from import_item_ok[OF Cons.prems(1,2) this assms(4), of env]
  show ?case using Cons.IH[of "import_item env ops acct False item st"] Cons.prems(3)
    by (simp add: import_items_def)
qed

end

end
