(* ===== verification/ImportProps.thy ===== *)
theory ImportProps
  imports ImportFacts SchemaProps
begin

section \<open>Properties of linking and importing\<close>

text \<open>
  An apply links and creates only what the selection allows; importing all resources of an account
  leaves nothing for a second run; and what the handlers do not check.
\<close>

subsection \<open>Applying a selection\<close>

lemma preview_items:
  "pvItems (preview_of env d c req) = map (preview_item_of env d c) (irResourceIDs req)"
proof -
  have add: "pvItems (addDiscoveryPreviewItem item r) = pvItems r @ [item]" for item r
    by (simp add: addDiscoveryPreviewItem_def Let_def)
  have "pvItems (fold (\<lambda>i. addDiscoveryPreviewItem (preview_item_of env d c i)) ids r) = pvItems r @ map (preview_item_of env d c) ids" for ids r
    by (induction ids arbitrary: r) (simp_all add: add)
  then show ?thesis by (simp add: preview_of_def)
qed

lemma import_context_parts:
  assumes "import_context_of env ops s d req = Some (Inr c)"
  shows "icAccountID c = irAccountID req" "opListPools ops s = Inr (icPools c)"
  using assms by (auto simp: import_context_of_def Let_def split: sum.splits option.splits)

lemma vpc_first_set: "set (vpc_first f g xs) = set xs"
  by (simp add: vpc_first_def)

context pool_store
begin

lemma apply_import_ok:
  assumes s: "inv (dwStore w)" and run: "applyDiscoveryImport env ops req False w = Some (w', z)"
  shows "inv (dwStore w') \<and> import_ok (live (dwStore w)) (dwDisc w) (irAccountID req) (irResourceIDs req) (live (dwStore w')) (dwDisc w')"
proof -
  obtain pv where pv: "previewDiscoveryImport env ops req w = Some pv" using run by (auto simp: applyDiscoveryImport_def)
  show ?thesis
  proof (cases pv)
    case (Inl e)
    then have "w' = w" using run pv by (simp add: applyDiscoveryImport_def)
    then show ?thesis using s import_ok_refl by simp
  next
    case (Inr preview)
    let ?items = "vpc_first piResourceType piProviderResourceID (pvItems preview)"
    have w': "w' = imWorld (import_items env ops (irAccountID req) False ?items (import_start preview w))"
      using run pv Inr by (simp add: applyDiscoveryImport_def Let_def)
    obtain c where c: "import_context_of env ops (dwStore w) (dwDisc w) req = Some (Inr c)"
      and preview: "preview = preview_of env (dwDisc w) c req"
    proof -
      obtain z where z: "import_context_of env ops (dwStore w) (dwDisc w) req = Some z"
        "map_sum id (\<lambda>c. preview_of env (dwDisc w) c req) z = Inr preview"
        using pv Inr by (auto simp: previewDiscoveryImport_def)
      then show thesis by (cases z) (auto intro: that)
    qed
    have row: "\<exists>r. linkable (dwDisc w) (irAccountID req) (irResourceIDs req) (piResourceID item) r \<and> proposal_ok r (icPools c) item"
      if it: "item \<in> set ?items" "piStatus item = ''importable''" for item
    proof -
      obtain k where k: "k \<in> set (irResourceIDs req)" "item = preview_item_of env (dwDisc w) c k"
        using it(1) by (auto simp: vpc_first_set preview preview_items)
      show ?thesis
        using importable_row[of env "dwDisc w" c k "irResourceIDs req"] it(2) k import_context_parts(1)[OF c] by metis
    qed
    have ps: "live (dwStore w) (poolID p) = Some p" if "p \<in> set (icPools c)" for p
      using list_pools[OF s import_context_parts(2)[OF c]] that by blast
    have start: "imWorld (import_start preview w) = w" by (simp add: import_start_def)
    show ?thesis
      unfolding w'
      using import_items_ok[of "import_start preview w" "live (dwStore w)" "dwDisc w" "irAccountID req" "irResourceIDs req" ?items "icPools c" env,
          unfolded start, OF s import_ok_refl row ps] by blast
  qed
qed

lemma handle_apply_ok:
  assumes s: "inv (dwStore w)" and run: "handleImportApply env ops rq (Some req) w = Some (w', r)"
  shows "inv (dwStore w') \<and> import_ok (live (dwStore w)) (dwDisc w) (irAccountID req) (irResourceIDs req) (live (dwStore w')) (dwDisc w')"
proof (cases "rqMethod rq \<noteq> ''POST'' \<or> validateDiscoveryImportSelection (irAccountID req) (irResourceIDs req) \<noteq> None")
  case True
  then have "w' = w" using run by (auto simp: handleImportApply_def split: option.splits if_splits)
  then show ?thesis using s import_ok_refl by simp
next
  case False
  then obtain z where "applyDiscoveryImport env ops req False w = Some (w', z)" using run by (auto simp: handleImportApply_def)
  then show ?thesis by (rule apply_import_ok[OF s])
qed

end

text \<open>C14: an import changes only what the selection allows. Whatever the request, after an apply the
  pool store is still well formed and every live pool is still there, unchanged; every new live pool
  belongs to the import's account, has the source \<open>discovered\<close> and the CIDR of a selected resource,
  and its parent, if any, is live; and a discovered resource differs from before only if it was
  selected, belongs to the account, was active and unlinked and is a VPC or subnet with a CIDR that parses, and
  then only in its link, which names a live pool with the same prefix that no other account owns.
  Sync jobs and agents are untouched.\<close>

theorem import_changes_only_selected:
  assumes "store_reachable (dwStore w)" "handleImportApply env memory_ops rq (Some req) w = Some (w', r)"
  shows "store_reachable (dwStore w')
    \<and> import_ok (GetPool (dwStore w)) (dwDisc w) (irAccountID req) (irResourceIDs req) (GetPool (dwStore w')) (dwDisc w')"
  by (rule mem.handle_apply_ok[OF assms])

subsection \<open>Importing an account\<close>

text \<open>The only change to the discovery store is that links appear, and its invariant is kept.\<close>

definition links_only :: "disc_store \<Rightarrow> disc_store \<Rightarrow> bool" where
  "links_only d0 d \<longleftrightarrow> (disc_inv d0 \<longrightarrow> disc_inv d) \<and> (\<forall>k. map_of (dsResources d) k = None \<longleftrightarrow> map_of (dsResources d0) k = None)
     \<and> (\<forall>k q. map_of (dsResources d0) k = Some q \<longrightarrow> (\<exists>j. map_of (dsResources d) k = Some (q\<lparr>drPoolID := j\<rparr>) \<and> (drPoolID q \<noteq> None \<longrightarrow> j \<noteq> None)))"

definition linked_in :: "disc_store \<Rightarrow> uuid \<Rightarrow> bool" where
  "linked_in d k \<longleftrightarrow> (\<exists>q. map_of (dsResources d) k = Some q \<and> drPoolID q \<noteq> None)"

lemma links_only_refl: "links_only d d"
proof -
  have "q\<lparr>drPoolID := drPoolID q\<rparr> = q" for q by simp
  then show ?thesis by (auto simp: links_only_def intro!: exI[of _ "drPoolID _"])
qed

lemma links_only_linked:
  assumes "links_only d d'" "linked_in d k"
  shows "linked_in d' k"
proof -
  obtain q where q: "map_of (dsResources d) k = Some q" "drPoolID q \<noteq> None" using assms(2) by (auto simp: linked_in_def)
  with assms(1) obtain j where "map_of (dsResources d') k = Some (q\<lparr>drPoolID := j\<rparr>)" "j \<noteq> None"
    unfolding links_only_def by blast
  then show ?thesis by (simp add: linked_in_def)
qed

lemma links_only_trans:
  assumes "links_only d d'" "links_only d' d''"
  shows "links_only d d''"
  unfolding links_only_def
proof (intro conjI allI impI)
  show "disc_inv d \<Longrightarrow> disc_inv d''" using assms unfolding links_only_def by blast
  show "map_of (dsResources d'') k = None \<longleftrightarrow> map_of (dsResources d) k = None" for k
    using assms unfolding links_only_def by blast
  fix k q assume "map_of (dsResources d) k = Some q"
  then obtain j where j: "map_of (dsResources d') k = Some (q\<lparr>drPoolID := j\<rparr>)" "drPoolID q \<noteq> None \<longrightarrow> j \<noteq> None"
    using assms(1) unfolding links_only_def by blast
  then obtain i where "map_of (dsResources d'') k = Some (q\<lparr>drPoolID := j, drPoolID := i\<rparr>)" "j \<noteq> None \<longrightarrow> i \<noteq> None"
    using assms(2) unfolding links_only_def by fastforce
  then show "\<exists>j. map_of (dsResources d'') k = Some (q\<lparr>drPoolID := j\<rparr>) \<and> (drPoolID q \<noteq> None \<longrightarrow> j \<noteq> None)"
    using j(2) by auto
qed

lemma links_only_Link: "links_only d (fst (LinkResourceToPool d k i))"
proof (cases "map_of (dsResources d) k")
  case None
  then show ?thesis using links_only_refl by (simp add: LinkResourceToPool_def)
next
  case (Some q)
  have same: "x\<lparr>drPoolID := drPoolID x\<rparr> = x" for x by simp
  have upd: "map_of (dsResources (fst (LinkResourceToPool d k i))) = (map_of (dsResources d))(k \<mapsto> q\<lparr>drPoolID := Some i\<rparr>)"
    using Some by (simp add: LinkResourceToPool_def)
  show ?thesis
    unfolding links_only_def upd
  proof (intro conjI allI impI)
    show "disc_inv d \<Longrightarrow> disc_inv (fst (LinkResourceToPool d k i))" by (rule disc_inv_link(1))
    fix k' show "((map_of (dsResources d))(k \<mapsto> q\<lparr>drPoolID := Some i\<rparr>)) k' = None \<longleftrightarrow> map_of (dsResources d) k' = None"
      using Some by auto
  next
    fix k' x assume x: "map_of (dsResources d) k' = Some x"
    show "\<exists>j. ((map_of (dsResources d))(k \<mapsto> q\<lparr>drPoolID := Some i\<rparr>)) k' = Some (x\<lparr>drPoolID := j\<rparr>) \<and> (drPoolID x \<noteq> None \<longrightarrow> j \<noteq> None)"
    proof (cases "k' = k")
      case True
      then show ?thesis using x Some by (intro exI[of _ "Some i"]) simp
    next
      case False
      then show ?thesis using x same[of x] by (intro exI[of _ "drPoolID x"]) simp
    qed
  qed
qed

lemma Link_linked: "map_of (dsResources d) k \<noteq> None \<Longrightarrow> linked_in (fst (LinkResourceToPool d k i)) k"
  by (auto simp: LinkResourceToPool_def linked_in_def)

lemma Link_no_error: "map_of (dsResources d) k \<noteq> None \<Longrightarrow> snd (LinkResourceToPool d k i) = None"
  by (auto simp: LinkResourceToPool_def)

definition network_resource :: "discovered_resource \<Rightarrow> bool" where
  "network_resource res \<longleftrightarrow> drCIDR res \<noteq> [] \<and> (drResourceType res = ResourceTypeVPC \<or> drResourceType res = ResourceTypeSubnet)"

text \<open>What one step of the loop does to the discovery store and the errors.\<close>

definition bulk_progress :: "discovered_resource \<Rightarrow> 's bulk_state \<Rightarrow> 's bulk_state \<Rightarrow> bool" where
  "bulk_progress res st st' \<longleftrightarrow> links_only (dwDisc (bsWorld st)) (dwDisc (bsWorld st'))
     \<and> (\<exists>es. diErrors (bsResp st') = diErrors (bsResp st) @ es
          \<and> (es = [] \<longrightarrow> drPoolID res = None \<longrightarrow> network_resource res \<longrightarrow> map_of (dsResources (dwDisc (bsWorld st))) (drID res) \<noteq> None
             \<longrightarrow> linked_in (dwDisc (bsWorld st')) (drID res)))"

lemma bulk_link_progress: "bulk_progress res st (bulk_link fmt res i st)"
proof -
  obtain d e where d: "LinkResourceToPool (dwDisc (bsWorld st)) (drID res) i = (d, e)" by (rule prod.exhaust)
  have l: "links_only (dwDisc (bsWorld st)) d" using links_only_Link[of "dwDisc (bsWorld st)" "drID res" i] d by simp
  have "map_of (dsResources (dwDisc (bsWorld st))) (drID res) \<noteq> None \<Longrightarrow> linked_in d (drID res)"
    using Link_linked[of "dwDisc (bsWorld st)" "drID res" i] d by simp
  then show ?thesis using d l by (cases e) (auto simp: bulk_progress_def bulk_link_def Let_def)
qed

lemma bulk_create_progress: "bulk_progress res st (bulk_create env ops acct par res st)"
proof -
  obtain s z where z: "opCreatePool ops (deNow env) (dwStore (bsWorld st)) (discovered_pool_input acct res par) = (s, z)" by (rule prod.exhaust)
  show ?thesis
  proof (cases z)
    case (Inl e)
    then show ?thesis using z links_only_refl by (simp add: bulk_progress_def bulk_create_def Let_def bulk_skip_def)
  next
    case (Inr p)
    obtain d e where d: "LinkResourceToPool (dwDisc (bsWorld st)) (drID res) (poolID p) = (d, e)" by (rule prod.exhaust)
    have l: "links_only (dwDisc (bsWorld st)) d" using links_only_Link[of "dwDisc (bsWorld st)" "drID res" "poolID p"] d by simp
    have "map_of (dsResources (dwDisc (bsWorld st))) (drID res) \<noteq> None \<Longrightarrow> linked_in d (drID res)"
      using Link_linked[of "dwDisc (bsWorld st)" "drID res" "poolID p"] d by simp
    then show ?thesis using z Inr d l by (cases e) (auto simp: bulk_progress_def bulk_create_def Let_def)
  qed
qed

lemma bulk_skip_progress:
  assumes "es \<noteq> [] \<or> drPoolID res \<noteq> None \<or> \<not> network_resource res" "dwDisc (bsWorld st') = dwDisc (bsWorld st)"
    "diErrors (bsResp st') = diErrors (bsResp st)"
  shows "bulk_progress res st (bulk_skip es st')"
  using assms links_only_refl by (auto simp: bulk_progress_def bulk_skip_def)

lemma bulk_item_progress: "bulk_progress res st (bulk_item env ops acct res st)"
proof (cases "drPoolID res = None \<and> network_resource res \<and> parsePrefix (drCIDR res) \<noteq> None")
  case True
  let ?par = "case drParentResourceID res of None \<Rightarrow> None | Some pid \<Rightarrow> map_of (bsResourceToPool st) pid"
  have "\<exists>fmt i. bulk_item env ops acct res st = bulk_link fmt res i st \<or> bulk_item env ops acct res st = bulk_create env ops acct ?par res st"
    using True unfolding bulk_item_def network_resource_def by (auto simp: Let_def split: option.split)
  then show ?thesis using bulk_link_progress bulk_create_progress by metis
next
  case False
  have "\<exists>es st'. bulk_item env ops acct res st = bulk_skip es st' \<and> (es \<noteq> [] \<or> drPoolID res \<noteq> None \<or> \<not> network_resource res)
      \<and> bsWorld st' = bsWorld st \<and> bsResp st' = bsResp st"
  proof (cases "drPoolID res")
    case (Some i)
    then show ?thesis
      by (intro exI[of _ "[]"] exI[of _ "st\<lparr>bsResourceToPool := gput (drResourceID res) i (bsResourceToPool st)\<rparr>"])
        (simp add: bulk_item_def)
  next
    case None
    then have "\<exists>es. bulk_item env ops acct res st = bulk_skip es st \<and> (es \<noteq> [] \<or> \<not> network_resource res)"
      using False by (auto simp: bulk_item_def network_resource_def)
    then show ?thesis by blast
  qed
  then show ?thesis using bulk_skip_progress by (metis (no_types, lifting))
qed

lemma bulk_progress_fold:
  fixes ops :: "'s store_ops"
  assumes "\<And>r. r \<in> set rs \<Longrightarrow> map_of (dsResources (dwDisc (bsWorld st))) (drID r) \<noteq> None"
  shows "links_only (dwDisc (bsWorld st)) (dwDisc (bsWorld (fold (bulk_item env ops acct) rs st)))
    \<and> (diErrors (bsResp (fold (bulk_item env ops acct) rs st)) = [] \<longrightarrow> diErrors (bsResp st) = []
        \<and> (\<forall>r \<in> set rs. drPoolID r = None \<longrightarrow> network_resource r \<longrightarrow> linked_in (dwDisc (bsWorld (fold (bulk_item env ops acct) rs st))) (drID r)))"
  using assms
proof (induction rs arbitrary: st)
  case Nil
  then show ?case by (simp add: links_only_refl)
next
  case (Cons r rs)
  let ?st = "bulk_item env ops acct r st"
  have P: "bulk_progress r st ?st" by (rule bulk_item_progress)
  then have L: "links_only (dwDisc (bsWorld st)) (dwDisc (bsWorld ?st))" by (simp add: bulk_progress_def)
  have "map_of (dsResources (dwDisc (bsWorld ?st))) (drID x) \<noteq> None" if "x \<in> set rs" for x
    using L Cons.prems that unfolding links_only_def by (metis list.set_intros(2))
  from Cons.IH[OF this] have IH: "links_only (dwDisc (bsWorld ?st)) (dwDisc (bsWorld (fold (bulk_item env ops acct) rs ?st)))"
    "diErrors (bsResp (fold (bulk_item env ops acct) rs ?st)) = [] \<Longrightarrow> diErrors (bsResp ?st) = []
        \<and> (\<forall>r \<in> set rs. drPoolID r = None \<longrightarrow> network_resource r \<longrightarrow> linked_in (dwDisc (bsWorld (fold (bulk_item env ops acct) rs ?st))) (drID r))"
    by blast+
  obtain es where es: "diErrors (bsResp ?st) = diErrors (bsResp st) @ es"
    "es = [] \<Longrightarrow> drPoolID r = None \<Longrightarrow> network_resource r \<Longrightarrow> linked_in (dwDisc (bsWorld ?st)) (drID r)"
    using P Cons.prems[of r] unfolding bulk_progress_def by auto
  have "linked_in (dwDisc (bsWorld (fold (bulk_item env ops acct) rs ?st))) (drID r)"
    if "diErrors (bsResp (fold (bulk_item env ops acct) rs ?st)) = []" "drPoolID r = None" "network_resource r"
    using IH(2)[OF that(1)] es that(2,3) links_only_linked[OF IH(1)] by simp
  then show ?case using links_only_trans[OF L IH(1)] IH(2) es(1) by auto
qed

text \<open>Resources that are linked, or are not network resources, are skipped.\<close>

lemma bulk_fold_skips:
  assumes "\<And>r. r \<in> set rs \<Longrightarrow> drPoolID r \<noteq> None \<or> \<not> network_resource r"
  shows "bsWorld (fold (bulk_item env ops acct) rs st) = bsWorld st
    \<and> diPoolsCreated (bsResp (fold (bulk_item env ops acct) rs st)) = diPoolsCreated (bsResp st)
    \<and> diResourcesLinked (bsResp (fold (bulk_item env ops acct) rs st)) = diResourcesLinked (bsResp st)"
  using assms
proof (induction rs arbitrary: st)
  case (Cons r rs)
  have "bsWorld (bulk_item env ops acct r st) = bsWorld st
      \<and> diPoolsCreated (bsResp (bulk_item env ops acct r st)) = diPoolsCreated (bsResp st)
      \<and> diResourcesLinked (bsResp (bulk_item env ops acct r st)) = diResourcesLinked (bsResp st)"
    using Cons.prems[of r] by (auto simp: bulk_item_def bulk_skip_def network_resource_def split: option.split)
  then show ?case using Cons.IH[of "bulk_item env ops acct r st"] Cons.prems by simp
qed simp

lemma importDiscoveredPools_fold:
  assumes "opListPools ops (dwStore w) = Inr ps"
  shows "\<exists>st. bsWorld st = w \<and> diErrors (bsResp st) = [] \<and> diPoolsCreated (bsResp st) = 0 \<and> diResourcesLinked (bsResp st) = 0
    \<and> importDiscoveredPools env ops acct rs w =
       (bsWorld (fold (bulk_item env ops acct) (vpc_first drResourceType drResourceID rs) st),
        bsResp (fold (bulk_item env ops acct) (vpc_first drResourceType drResourceID rs) st))"
proof -
  let ?m = "fold index_pool ps ([], [])"
  show ?thesis
    by (rule exI[of _ "\<lparr>bsWorld = w, bsByDiscoveryID = fst ?m, bsByShape = snd ?m, bsResourceToPool = [],
        bsResp = \<lparr>diAccountsImported = 0, diPoolsCreated = 0, diResourcesLinked = 0, diSkipped = 0, diErrors = []\<rparr>\<rparr>"])
      (simp add: importDiscoveredPools_def Let_def assms)
qed

text \<open>What the pages of a listing show.\<close>

lemma collect_pages_subset:
  assumes "collect_pages fetch pg acc = Some ys" "\<And>pg rs t. fetch pg = Some (rs, t) \<Longrightarrow> set rs \<subseteq> A"
  shows "set ys \<subseteq> set acc \<union> A"
proof -
  have "(\<forall>pg rs t. fetch pg = Some (rs, t) \<longrightarrow> set rs \<subseteq> A) \<longrightarrow> set ys \<subseteq> set acc \<union> A"
  proof (rule collect_pages.raw_induct[OF _ assms(1)], intro impI)
    fix rec' fetch pg acc ys
    assume ih: "\<And>fetch pg acc ys. rec' fetch pg acc = Some ys \<Longrightarrow>
        (\<forall>pg rs t. fetch pg = Some (rs, t) \<longrightarrow> set rs \<subseteq> A) \<longrightarrow> set ys \<subseteq> set acc \<union> A"
      and run: "Option.bind (fetch pg) (\<lambda>(rs, total'). let acc = acc @ rs in
          if rs = [] \<or> int (length acc) \<ge> total' then Some acc else rec' fetch (pg + 1) acc) = Some ys"
      and A: "\<forall>pg rs t. fetch pg = Some (rs, t) \<longrightarrow> set rs \<subseteq> A"
    obtain rs t where f: "fetch pg = Some (rs, t)" using run by (auto simp: bind_eq_Some_conv)
    then have "set rs \<subseteq> A" using A by blast
    moreover have "acc @ rs = ys \<or> rec' fetch (pg + 1) (acc @ rs) = Some ys"
      using run f by (auto simp: Let_def split: if_splits)
    ultimately show "set ys \<subseteq> set acc \<union> A" using ih[of fetch "pg + 1" "acc @ rs" ys] A by auto
  qed
  then show ?thesis using assms(2) by blast
qed

lemma listed_active:
  assumes "listAllDiscoveredResources ords d acct (no_filters\<lparr>dfStatus := DiscoveryStatusActive\<rparr>) = Some rs" "\<And>pg. map_order (ords pg)"
    and "r \<in> set rs"
  shows "\<exists>q \<in> set (active_of d acct). r = cloneDiscoveredResource q"
proof -
  let ?A = "cloneDiscoveredResource ` set (active_of d acct)"
  have m: "filter (resource_matches acct (no_filters\<lparr>dfStatus := DiscoveryStatusActive, dfPage := pg, dfPageSize := n\<rparr>)) xs
      = filter (\<lambda>r. drAccountID r = acct \<and> drStatus r = DiscoveryStatusActive) xs" for pg n xs
    by (rule filter_cong) (auto simp: resource_matches_def no_filters_def DiscoveryStatusActive_def)
  have page: "set xs \<subseteq> ?A"
    if "ListDiscoveredResources (ords pg) d acct (no_filters\<lparr>dfStatus := DiscoveryStatusActive, dfPage := pg, dfPageSize := 1000\<rparr>) = Some (xs, t)"
    for pg xs t
    using that map_order_set[OF assms(2)] unfolding ListDiscoveredResources_def m active_of_def
    by (fastforce simp: Let_def dest!: list_page_set)
  have "set rs \<subseteq> set [] \<union> ?A"
    by (rule collect_pages_subset[OF assms(1)[unfolded listAllDiscoveredResources_def]]) (rule page, simp)
  then show ?thesis using assms(3) by auto
qed

lemma listAll_active:
  "listAllDiscoveredResources ords d acct (no_filters\<lparr>dfStatus := DiscoveryStatusActive\<rparr>) = listActiveResources ords d acct"
  by (simp add: listAllDiscoveredResources_def listActiveResources_def)

lemma schema_import_run:
  assumes "handleImportDiscoveredSchema env ops rq (Some acct) w = Some (w', RespJSON 200 r)"
  shows "\<exists>rs. listAllDiscoveredResources (deOrd env (0, 0)) (dwDisc w) acct (no_filters\<lparr>dfStatus := DiscoveryStatusActive\<rparr>) = Some rs
    \<and> importDiscoveredPools env ops acct rs w = (w', r)"
proof -
  obtain rs where rs: "listAllDiscoveredResources (deOrd env (0, 0)) (dwDisc w) acct (no_filters\<lparr>dfStatus := DiscoveryStatusActive\<rparr>) = Some rs"
    "(case importDiscoveredPools env ops acct rs w of (w, r) \<Rightarrow> (w, RespJSON 200 r)) = (w', RespJSON 200 r)"
    using assms by (auto simp: handleImportDiscoveredSchema_def method_not_allowed_def writeErr_def
        split: if_splits sum.splits option.splits)
  then show ?thesis by (cases "importDiscoveredPools env ops acct rs w") simp
qed

lemma import_ok_run:
  assumes "importDiscoveredPools env ops acct rs w = (w', r)"
  shows "\<exists>ps. opListPools ops (dwStore w) = Inr ps \<or> w' = w \<and> diErrors r \<noteq> [] \<and> diPoolsCreated r = 0 \<and> diResourcesLinked r = 0"
  using assms by (cases "opListPools ops (dwStore w)") (auto simp: importDiscoveredPools_def Let_def)

lemma links_only_back:
  assumes "links_only d d'" "map_of (dsResources d') k = Some q"
  shows "\<exists>z j. map_of (dsResources d) k = Some z \<and> q = z\<lparr>drPoolID := j\<rparr>"
proof -
  obtain z where z: "map_of (dsResources d) k = Some z" using assms unfolding links_only_def by (metis not_None_eq)
  then obtain j where "q = z\<lparr>drPoolID := j\<rparr>" using assms unfolding links_only_def by (metis option.inject)
  then show ?thesis using z by blast
qed

text \<open>One import: what its listing showed and every step together.\<close>

lemma import_links_all:
  assumes d: "disc_inv (dwDisc w)"
    and run: "importDiscoveredPools env ops acct rs w = (w', r)" "diErrors r = []" and rs: "set rs = set (active_of (dwDisc w) acct)"
  shows "links_only (dwDisc w) (dwDisc w') \<and> (\<forall>q \<in> set (active_of (dwDisc w) acct). network_resource q \<longrightarrow> linked_in (dwDisc w') (drID q))"
proof -
  let ?rs = "vpc_first drResourceType drResourceID rs"
  obtain ps where ps: "opListPools ops (dwStore w) = Inr ps" using import_ok_run[OF run(1)] run(2) by blast
  obtain st where st: "bsWorld st = w" "diErrors (bsResp st) = []"
    "importDiscoveredPools env ops acct rs w = (bsWorld (fold (bulk_item env ops acct) ?rs st), bsResp (fold (bulk_item env ops acct) ?rs st))"
    using importDiscoveredPools_fold[OF ps, of env acct rs] by blast
  have known: "map_of (dsResources (dwDisc (bsWorld st))) (drID q) \<noteq> None" if "q \<in> set ?rs" for q
    using that active_of_mem[OF d] st(1) by (auto simp: vpc_first_set rs)
  have fin: "w' = bsWorld (fold (bulk_item env ops acct) ?rs st)" "r = bsResp (fold (bulk_item env ops acct) ?rs st)"
    using st(3) run(1) by simp_all
  have step: "links_only (dwDisc w) (dwDisc w') \<and> (diErrors r = [] \<longrightarrow> diErrors (bsResp st) = []
      \<and> (\<forall>q \<in> set ?rs. drPoolID q = None \<longrightarrow> network_resource q \<longrightarrow> linked_in (dwDisc w') (drID q)))"
    unfolding fin by (rule bulk_progress_fold[of ?rs st env ops acct, unfolded st(1)], rule known[unfolded st(1)])
  have L: "links_only (dwDisc w) (dwDisc w')" by (rule conjunct1[OF step])
  have all: "\<forall>q \<in> set ?rs. drPoolID q = None \<longrightarrow> network_resource q \<longrightarrow> linked_in (dwDisc w') (drID q)"
    by (rule conjunct2[OF mp[OF conjunct2[OF step] run(2)]])
  have "linked_in (dwDisc w') (drID q)" if q: "q \<in> set (active_of (dwDisc w) acct)" "network_resource q" for q
  proof (cases "drPoolID q")
    case None
    have "q \<in> set ?rs" using q(1) by (simp only: vpc_first_set rs)
    then show ?thesis using all None q(2) by blast
  next
    case (Some i)
    then have "linked_in (dwDisc w) (drID q)" using active_of_mem[OF d] q(1) by (auto simp: linked_in_def)
    then show ?thesis by (rule links_only_linked[OF L])
  qed
  with L show ?thesis by blast
qed

text \<open>An import that finds every VPC and subnet linked changes nothing.\<close>

lemma import_nothing_left:
  assumes "importDiscoveredPools env ops acct rs w = (w', r)" "\<And>x. x \<in> set rs \<Longrightarrow> drPoolID x \<noteq> None \<or> \<not> network_resource x"
  shows "w' = w \<and> diPoolsCreated r = 0 \<and> diResourcesLinked r = 0"
proof (cases "opListPools ops (dwStore w)")
  case (Inl e)
  then show ?thesis using import_ok_run[OF assms(1)] by auto
next
  case (Inr ps)
  let ?rs = "vpc_first drResourceType drResourceID rs"
  obtain st where st: "bsWorld st = w" "diPoolsCreated (bsResp st) = 0" "diResourcesLinked (bsResp st) = 0"
    "importDiscoveredPools env ops acct rs w = (bsWorld (fold (bulk_item env ops acct) ?rs st), bsResp (fold (bulk_item env ops acct) ?rs st))"
    using importDiscoveredPools_fold[OF Inr, of env acct rs] by blast
  have "drPoolID x \<noteq> None \<or> \<not> network_resource x" if "x \<in> set ?rs" for x using assms(2) that by (simp add: vpc_first_set)
  from bulk_fold_skips[where env = env and ops = ops and acct = acct and st = st, OF this] show ?thesis
    using st assms(1) by simp
qed

lemma relisted_is_linked:
  assumes d: "disc_inv d" and L: "links_only d d'"
    and linked: "\<forall>q \<in> set (active_of d acct). network_resource q \<longrightarrow> linked_in d' (drID q)"
    and q: "q \<in> set (active_of d' acct)"
  shows "drPoolID (cloneDiscoveredResource q) \<noteq> None \<or> \<not> network_resource (cloneDiscoveredResource q)"
proof -
  have d': "disc_inv d'" using L d by (simp add: links_only_def)
  have q': "map_of (dsResources d') (drID q) = Some q" "drAccountID q = acct" "drStatus q = DiscoveryStatusActive"
    using active_of_mem[OF d'] q by blast+
  obtain z j where z: "map_of (dsResources d) (drID q) = Some z" "q = z\<lparr>drPoolID := j\<rparr>"
    using links_only_back[OF L q'(1)] by blast
  have "drID z = drID q" "drAccountID z = acct" "drStatus z = DiscoveryStatusActive" using z(2) q'(2,3) by simp_all
  then have "z \<in> set (active_of d acct)" unfolding active_of_mem[OF d] using z(1) by simp
  then have "network_resource z \<Longrightarrow> linked_in d' (drID z)" using linked by blast
  then show ?thesis using q'(1) z(2) by (auto simp: network_resource_def linked_in_def)
qed


subsection \<open>The handlers on an example\<close>

definition demo_net_env :: net_env where
  "demo_net_env = \<lparr>deNow = 8, deLater = 10, deUUID = (\<lambda>_. 99), deOrd = (\<lambda>_ _. rev), deJobOrd = rev, deAgentOrd = id,
     deParseUUID = (\<lambda>_. None), deCtx = \<lparr>ctxRole = RoleAdmin, ctxSession = None, ctxAPIKey = None, ctxUser = None\<rparr>,
     neSha1 = (\<lambda>_. []), neUUIDString = (\<lambda>u. itoa_int (uint u)), neFormatTime = (\<lambda>_. [])\<rparr>"

definition demo_world :: "mstore disc_world" where
  "demo_world = \<lparr>dwStore = demo_accounts, dwDisc = demo_disc, dwNet = None\<rparr>"

definition demo_import :: "uuid list \<Rightarrow> import_request" where
  "demo_import ids = \<lparr>irAccountID = 1, irResourceIDs = ids, irPoolID = None\<rparr>"

definition post_req :: http_request where
  "post_req = \<lparr>rqMethod = ''POST'', rqPath = [], rqQuery = []\<rparr>"


lemma demo_listed:
  "listAllDiscoveredResources (\<lambda>_. rev) demo_disc 1 no_filters =
     Some [demo_resource 2 ''vpc-2'' ''10.2.0.0/16'' 5, (demo_resource 1 ''vpc-1'' ''10.1.0.0/16'' 5)\<lparr>drPoolID := Some 7\<rparr>]"
proof -
  have "ListDiscoveredResources rev demo_disc 1 (no_filters\<lparr>dfPage := 1, dfPageSize := 1000\<rparr>) = Some
     ([demo_resource 2 ''vpc-2'' ''10.2.0.0/16'' 5, (demo_resource 1 ''vpc-1'' ''10.1.0.0/16'' 5)\<lparr>drPoolID := Some 7\<rparr>], 2)"
    by code_simp
  then show ?thesis unfolding listAllDiscoveredResources_def by (subst collect_pages.simps) simp
qed

definition demo_ctx_import :: "uuid list \<Rightarrow> import_context" where
  "demo_ctx_import ids = \<lparr>icAccountID = 1, icPools = [], icSelectedPool = None,
     icByProviderID = fold (\<lambda>r. gput (drResourceID r) r)
       [demo_resource 2 ''vpc-2'' ''10.2.0.0/16'' 5, (demo_resource 1 ''vpc-1'' ''10.1.0.0/16'' 5)\<lparr>drPoolID := Some 7\<rparr>] [],
     icSelectedIDs = map drResourceID (selected_resources demo_disc 1 ids), icDuplicates = []\<rparr>"

lemma demo_context: "import_context_of demo_net_env memory_ops demo_accounts demo_disc (demo_import ids) = Some (Inr (demo_ctx_import ids))"
proof -
  obtain a where l: "ListAccounts demo_accounts = [a]" "accID a = 1"
  proof
    show "ListAccounts demo_accounts = [hd (ListAccounts demo_accounts)]" "accID (hd (ListAccounts demo_accounts)) = 1" by code_simp+
  qed
  have p: "ListPools demo_accounts = []" by code_simp
  obtain b where b: "GetAccount demo_accounts 1 = Some b"
  proof
    show "GetAccount demo_accounts 1 = Some (the (GetAccount demo_accounts 1))" by code_simp
  qed
  have d: "duplicateCIDRsByAccount demo_net_env memory_ops demo_accounts demo_disc 1 sel = Some (Inr [])" for sel
    by (simp add: duplicateCIDRsByAccount_def Let_def l)
  have e: "deOrd demo_net_env (0, 0) = (\<lambda>_. rev)" by (simp add: demo_net_env_def)
  show ?thesis by (simp add: import_context_of_def demo_import_def b p selected_pool_def e demo_listed d Let_def demo_ctx_import_def)
qed

lemma demo_preview: "previewDiscoveryImport demo_net_env memory_ops (demo_import ids) demo_world =
    Some (Inr (preview_of demo_net_env demo_disc (demo_ctx_import ids) (demo_import ids)))"
  by (simp add: previewDiscoveryImport_def demo_world_def demo_context)

lemma demo_apply: "handleImportApply demo_net_env memory_ops post_req (Some (demo_import (i # ids))) demo_world =
    (let preview = preview_of demo_net_env demo_disc (demo_ctx_import (i # ids)) (demo_import (i # ids));
         st = import_items demo_net_env memory_ops 1 False (vpc_first piResourceType piProviderResourceID (pvItems preview)) (import_start preview demo_world)
     in Some (imWorld st, RespJSON 200 (PApplied (finish_import (imResp st)))))"
  by (simp add: handleImportApply_def post_req_def applyDiscoveryImport_def demo_preview Let_def
      validateDiscoveryImportSelection_def) (simp add: demo_import_def)


text \<open>An importable VPC with no proposed pool becomes a root pool.\<close>

lemma import_item_creates:
  assumes "piStatus item = ''importable''" "piProposedPoolID item = None" "piProposedParentPoolID item = None"
    "GetDiscoveredResource (dwDisc (imWorld st)) (piResourceID item) = Inr res" "drResourceType res = ResourceTypeVPC"
    "drParentResourceID res = None" "dwNet (imWorld st) = None"
    "CreatePool (deNow env) (dwStore (imWorld st)) (discovered_pool_input acct res None) = (s, Inr p)"
    "LinkResourceToPool (dwDisc (imWorld st)) (piResourceID item) (poolID p) = (d, None)"
  shows "imWorld (import_item env memory_ops acct blocked item st) = (imWorld st)\<lparr>dwStore := s, dwDisc := d\<rparr>"
  using assms
  by (simp add: import_item_def persistDiscoveryImportCandidate_def import_new_def import_parent_def Let_def create_and_link_def
      createDiscoveredPool_def contains_relationship_def imported_as_def persistDiscoveryRelationship_def
      ResourceTypeVPC_def ResourceTypeSubnet_def)

definition demo_row :: "uuid list \<Rightarrow> preview_item" where
  "demo_row ids = preview_item_of demo_net_env demo_disc (demo_ctx_import ids) 2"

lemma demo_row: "piStatus (demo_row ids) = ''importable''" "piProposedPoolID (demo_row ids) = None"
  "piProposedParentPoolID (demo_row ids) = None" "piResourceID (demo_row ids) = 2"
  "piResourceType (demo_row ids) = ResourceTypeVPC" 
  unfolding demo_row_def by code_simp+

text \<open>Creating the pool of resource 2.\<close>

definition demo_created :: "mstore \<Rightarrow> pool" where
  "demo_created s = \<lparr>poolID = nextPool s, poolName = ''n'', poolCIDR = ''10.2.0.0/16'', poolParentID = None, poolAccountID = Some 1,
     poolType = PoolTypeVPC, poolStatus = PoolStatusActive, poolSource = PoolSourceDiscovered,
     poolDescription = cpDescription (discovered_pool_input 1 (demo_resource 2 ''vpc-2'' ''10.2.0.0/16'' 5) None),
     poolTags = cpTags (discovered_pool_input 1 (demo_resource 2 ''vpc-2'' ''10.2.0.0/16'' 5) None),
     poolCreatedAt = 8, poolUpdatedAt = 8, poolDeletedAt = None\<rparr>"

definition demo_after :: "mstore \<Rightarrow> mstore" where
  "demo_after s = s\<lparr>pools := gput (nextPool s) (demo_created s) (pools s), nextPool := nextPool s + 1\<rparr>"

lemma demo_create:
  assumes "drName r = ''n''" "drCIDR r = ''10.2.0.0/16''" "drResourceType r = ResourceTypeVPC" "drProvider r = ''aws''"
    "drResourceID r = ''vpc-2''" "drRegion r = ''r''"
  shows "CreatePool 8 s (discovered_pool_input 1 r None) = (demo_after s, Inr (demo_created s))"
proof -
  have t: "trimSpace ''n'' = ''n''" by code_simp
  show ?thesis using assms
    by (simp add: CreatePool_def discovered_pool_input_def t Let_def demo_after_def demo_created_def demo_resource_def
      clonePool_def cloneStringStringMap_def PoolTypeVPC_def PoolStatusActive_def PoolSourceDiscovered_def)
qed


definition demo_linked :: "go_id \<Rightarrow> disc_store" where
  "demo_linked i = fst (LinkResourceToPool demo_disc 2 i)"

lemma demo_links: "LinkResourceToPool demo_disc 2 i = (demo_linked i, None)"
  "LinkResourceToPool (demo_linked j) 2 i = (demo_linked i, None)"
  "GetDiscoveredResource demo_disc 2 = Inr (demo_resource 2 ''vpc-2'' ''10.2.0.0/16'' 5)"
  "GetDiscoveredResource (demo_linked i) 2 = Inr ((demo_resource 2 ''vpc-2'' ''10.2.0.0/16'' 5)\<lparr>drPoolID := Some i\<rparr>)"
  by code_simp+

definition demo_imported :: "mstore disc_world \<Rightarrow> mstore disc_world" where
  "demo_imported w = w\<lparr>dwStore := demo_after (dwStore w), dwDisc := demo_linked (nextPool (dwStore w))\<rparr>"

lemma demo_item:
  assumes "dwDisc (imWorld st) = demo_disc \<or> dwDisc (imWorld st) = demo_linked j" "dwNet (imWorld st) = None"
  shows "imWorld (import_item demo_net_env memory_ops 1 False (demo_row ids) st) = demo_imported (imWorld st)"
proof -
  let ?d = "dwDisc (imWorld st)" and ?s = "dwStore (imWorld st)"
  obtain r where r: "GetDiscoveredResource ?d 2 = Inr r" "drName r = ''n''" "drCIDR r = ''10.2.0.0/16''" "drResourceType r = ResourceTypeVPC"
    "drProvider r = ''aws''" "drResourceID r = ''vpc-2''" "drRegion r = ''r''" "drParentResourceID r = None"
  proof (cases "?d = demo_disc")
    case True
    then show thesis using that[of "demo_resource 2 ''vpc-2'' ''10.2.0.0/16'' 5"] by (simp add: demo_links demo_resource_def)
  next
    case False
    then show thesis using assms(1) that[of "(demo_resource 2 ''vpc-2'' ''10.2.0.0/16'' 5)\<lparr>drPoolID := Some j\<rparr>"]
      by (simp add: demo_links demo_resource_def)
  qed
  have l: "LinkResourceToPool ?d 2 i = (demo_linked i, None)" for i using assms(1) by (auto simp: demo_links)
  have n: "deNow demo_net_env = 8" by (simp add: demo_net_env_def)
  have i: "poolID (demo_created ?s) = nextPool ?s" by (simp add: demo_created_def)
  show ?thesis
    using import_item_creates[of "demo_row ids" st r demo_net_env 1 "demo_after ?s" "demo_created ?s" "demo_linked (nextPool ?s)" False]
      demo_row assms(2) r l n i demo_create[OF r(2-7)] by (simp add: demo_imported_def)
qed

lemma demo_fields: "dwDisc demo_world = demo_disc" "dwNet demo_world = None" "dwStore demo_world = demo_accounts"
  "irResourceIDs (demo_import ids) = ids" "imWorld (import_start pv w) = w"
  by (simp_all add: demo_world_def demo_import_def import_start_def)

lemma demo_apply_once:
  "\<exists>r. handleImportApply demo_net_env memory_ops post_req (Some (demo_import [2])) demo_world = Some (demo_imported demo_world, r)"
proof -
  have "imWorld (import_items demo_net_env memory_ops 1 False (vpc_first piResourceType piProviderResourceID [demo_row [2]])
      (import_start pv demo_world)) = demo_imported demo_world" for pv
    by (simp add: vpc_first_def import_items_def demo_item demo_fields)
  then show ?thesis by (simp add: demo_apply Let_def preview_items demo_fields flip: demo_row_def)
qed

text \<open>An id that is selected twice gets two pools with the same CIDR, the rows of the preview being
  classified one by one.\<close>

lemma import_same_resource_twice:
  "\<exists>w' r. handleImportApply demo_net_env memory_ops post_req (Some (demo_import [2, 2])) demo_world = Some (w', r)
    \<and> map (\<lambda>p. (poolID p, poolCIDR p)) (ListPools (dwStore w')) = [(1, ''10.2.0.0/16''), (2, ''10.2.0.0/16'')]"
proof -
  let ?w = "demo_imported (demo_imported demo_world)"
  have d: "dwDisc (demo_imported w) = demo_linked (nextPool (dwStore w))" "dwNet (demo_imported w) = dwNet w" for w
    by (simp_all add: demo_imported_def)
  have "imWorld (import_items demo_net_env memory_ops 1 False (vpc_first piResourceType piProviderResourceID [demo_row [2, 2], demo_row [2, 2]])
      (import_start pv demo_world)) = ?w" for pv
    using demo_item[of "import_item demo_net_env memory_ops 1 False (demo_row [2, 2]) (import_start pv demo_world)" "nextPool demo_accounts" "[2, 2]"]
    by (simp add: vpc_first_def import_items_def demo_item demo_fields d)
  then obtain r where r: "handleImportApply demo_net_env memory_ops post_req (Some (demo_import [2, 2])) demo_world = Some (?w, r)"
    by (simp add: demo_apply Let_def preview_items demo_fields flip: demo_row_def)
  have n: "nextPool demo_accounts = 1" "pools demo_accounts = []" by code_simp+
  have "map (\<lambda>p. (poolID p, poolCIDR p)) (ListPools (dwStore ?w)) = [(1, ''10.2.0.0/16''), (2, ''10.2.0.0/16'')]"
    by (simp add: demo_imported_def demo_fields demo_after_def n ListPools_def demo_created_def clonePool_def)
  with r show ?thesis by (intro exI[of _ ?w] exI[of _ r] conjI)
qed


definition demo_active :: discovery_filters where
  "demo_active = no_filters\<lparr>dfStatus := DiscoveryStatusActive\<rparr>"

lemma demo_listed_active:
  "listAllDiscoveredResources (\<lambda>_. rev) demo_disc 1 demo_active =
     Some [demo_resource 2 ''vpc-2'' ''10.2.0.0/16'' 5, (demo_resource 1 ''vpc-1'' ''10.1.0.0/16'' 5)\<lparr>drPoolID := Some 7\<rparr>]"
  "listAllDiscoveredResources (\<lambda>_. rev) (demo_linked i) 1 demo_active =
     Some [(demo_resource 2 ''vpc-2'' ''10.2.0.0/16'' 5)\<lparr>drPoolID := Some i\<rparr>, (demo_resource 1 ''vpc-1'' ''10.1.0.0/16'' 5)\<lparr>drPoolID := Some 7\<rparr>]"
proof -
  have "ListDiscoveredResources rev demo_disc 1 (demo_active\<lparr>dfPage := 1, dfPageSize := 1000\<rparr>) = Some
     ([demo_resource 2 ''vpc-2'' ''10.2.0.0/16'' 5, (demo_resource 1 ''vpc-1'' ''10.1.0.0/16'' 5)\<lparr>drPoolID := Some 7\<rparr>], 2)"
    "ListDiscoveredResources rev (demo_linked i) 1 (demo_active\<lparr>dfPage := 1, dfPageSize := 1000\<rparr>) = Some
     ([(demo_resource 2 ''vpc-2'' ''10.2.0.0/16'' 5)\<lparr>drPoolID := Some i\<rparr>, (demo_resource 1 ''vpc-1'' ''10.1.0.0/16'' 5)\<lparr>drPoolID := Some 7\<rparr>], 2)"
    by code_simp+
  then show "listAllDiscoveredResources (\<lambda>_. rev) demo_disc 1 demo_active =
     Some [demo_resource 2 ''vpc-2'' ''10.2.0.0/16'' 5, (demo_resource 1 ''vpc-1'' ''10.1.0.0/16'' 5)\<lparr>drPoolID := Some 7\<rparr>]"
    "listAllDiscoveredResources (\<lambda>_. rev) (demo_linked i) 1 demo_active =
     Some [(demo_resource 2 ''vpc-2'' ''10.2.0.0/16'' 5)\<lparr>drPoolID := Some i\<rparr>, (demo_resource 1 ''vpc-1'' ''10.1.0.0/16'' 5)\<lparr>drPoolID := Some 7\<rparr>]"
    unfolding listAllDiscoveredResources_def by (subst collect_pages.simps, simp)+
qed

lemma demo_vpcs: "vpc_first drResourceType drResourceID [(demo_resource 2 ''vpc-2'' ''10.2.0.0/16'' 5)\<lparr>drPoolID := j\<rparr>, (demo_resource 1 ''vpc-1'' ''10.1.0.0/16'' 5)\<lparr>drPoolID := Some 7\<rparr>] =
   [(demo_resource 1 ''vpc-1'' ''10.1.0.0/16'' 5)\<lparr>drPoolID := Some 7\<rparr>, (demo_resource 2 ''vpc-2'' ''10.2.0.0/16'' 5)\<lparr>drPoolID := j\<rparr>]"
  by code_simp

lemma demo_import_all:
  assumes "dwDisc w = demo_disc" "dwStore w = demo_accounts"
  shows "\<exists>r. handleImportDiscoveredSchema demo_net_env memory_ops post_req (Some 1) w = Some (demo_imported w, RespJSON 200 r)
    \<and> diErrors r = [] \<and> diPoolsCreated r = 1"
proof -
  let ?r2 = "demo_resource 2 ''vpc-2'' ''10.2.0.0/16'' 5"
  have "parsePrefix ''10.2.0.0/16'' \<noteq> None" "GetAccount demo_accounts 1 \<noteq> None" by code_simp+
  then obtain pf acc where p: "parsePrefix ''10.2.0.0/16'' = Some pf" "GetAccount demo_accounts 1 = Some acc" by blast
  have ps: "ListPools demo_accounts = []" by code_simp
  have c: "CreatePool 8 s (discovered_pool_input 1 ?r2 None) = (demo_after s, Inr (demo_created s))" for s
    by (rule demo_create) (simp_all add: demo_resource_def)
  have r: "drPoolID ?r2 = None" "drCIDR ?r2 = ''10.2.0.0/16''" "drResourceType ?r2 = ResourceTypeVPC" "drParentResourceID ?r2 = None"
    "drID ?r2 = 2" "drResourceID ?r2 = ''vpc-2''"
    "poolID (demo_created s) = nextPool s" for s by (simp_all add: demo_resource_def demo_created_def)
  have e: "deOrd demo_net_env (0, 0) = (\<lambda>_. rev)" "deNow demo_net_env = 8" by (simp_all add: demo_net_env_def)
  have v: "vpc_first drResourceType drResourceID [?r2, (demo_resource 1 ''vpc-1'' ''10.1.0.0/16'' 5)\<lparr>drPoolID := Some 7\<rparr>] =
      [(demo_resource 1 ''vpc-1'' ''10.1.0.0/16'' 5)\<lparr>drPoolID := Some 7\<rparr>, ?r2]" by code_simp
  have i: "\<exists>r. importDiscoveredPools demo_net_env memory_ops 1 [?r2, (demo_resource 1 ''vpc-1'' ''10.1.0.0/16'' 5)\<lparr>drPoolID := Some 7\<rparr>] w
      = (demo_imported w, r) \<and> diErrors r = [] \<and> diPoolsCreated r = 1"
    using p ps assms by (simp add: importDiscoveredPools_def v Let_def bulk_item_def[of _ _ _ "_\<lparr>drPoolID := Some 7\<rparr>"] bulk_skip_def)
       (simp add: bulk_item_def r p Let_def bulk_create_def e c demo_links demo_imported_def)
  show ?thesis using i p assms
    by (auto simp: handleImportDiscoveredSchema_def post_req_def e demo_listed_active(1)[unfolded demo_active_def])
qed


lemma demo_import_again:
  assumes "dwDisc w = demo_disc" "dwStore w = demo_accounts"
  shows "\<exists>w'' r. handleImportDiscoveredSchema demo_net_env memory_ops post_req (Some 1) (demo_imported w) = Some (w'', RespJSON 200 r)"
proof -
  have "GetAccount demo_accounts 1 \<noteq> None" by code_simp
  then have "GetAccount (demo_after demo_accounts) 1 \<noteq> None" by (simp add: GetAccount_def demo_after_def)
  then obtain acc where a: "GetAccount (demo_after demo_accounts) 1 = Some acc" by blast
  have e: "deOrd demo_net_env (0, 0) = (\<lambda>_. rev)" by (simp add: demo_net_env_def)
  have i: "dwStore (demo_imported w) = demo_after demo_accounts" "dwDisc (demo_imported w) = demo_linked (nextPool demo_accounts)"
    by (simp_all add: demo_imported_def assms)
  show ?thesis
    by (simp add: handleImportDiscoveredSchema_def post_req_def i a e demo_listed_active(2)[unfolded demo_active_def] split: prod.split)
qed

theorem import_changes_only_selected_witness:
  "\<exists>w' r. handleImportApply demo_net_env memory_ops post_req (Some (demo_import [2])) demo_world = Some (w', r)
    \<and> import_ok (GetPool demo_accounts) demo_disc 1 [2] (GetPool (dwStore w')) (dwDisc w')
    \<and> map poolCIDR (ListPools (dwStore w')) = [''10.2.0.0/16'']"
proof -
  obtain r where r: "handleImportApply demo_net_env memory_ops post_req (Some (demo_import [2])) demo_world = Some (demo_imported demo_world, r)"
    using demo_apply_once by blast
  have s: "store_reachable (dwStore demo_world)" using demo_accounts_reachable by (simp add: demo_fields)
  have n: "nextPool demo_accounts = 1" "pools demo_accounts = []" by code_simp+
  have l: "map poolCIDR (ListPools (dwStore (demo_imported demo_world))) = [''10.2.0.0/16'']"
    by (simp add: demo_imported_def demo_fields demo_after_def n ListPools_def demo_created_def clonePool_def)
  have f: "irAccountID (demo_import [2]) = 1" by (simp add: demo_import_def)
  show ?thesis using import_changes_only_selected[OF s r] r l
    by (intro exI[of _ "demo_imported demo_world"] exI[of _ r]) (simp add: demo_fields f)
qed


subsection \<open>What an import does not check\<close>

text \<open>The first containing pool of the listing is proposed as parent, not the most specific one: a
  longer prefix only raises the bound.\<close>

lemma proposed_parent_is_first:
  assumes "\<not> cidrEqual (poolCIDR p) (drCIDR res)" "\<not> cidrEqual (poolCIDR q) (drCIDR res)"
    "cidrContains (poolCIDR p) (drCIDR res)" "cidrContains (poolCIDR q) (drCIDR res)"
    "poolAccountID p = None" "poolAccountID q = None" "poolCIDR p \<noteq> []" "poolCIDR q \<noteq> []" "drCIDR res \<noteq> []"
    "prefixLength (poolCIDR p) < prefixLength (poolCIDR q)" "0 \<le> prefixLength (poolCIDR p)" "piProposedParentPoolID item = None"
  shows "piProposedParentPoolID (classifyPoolRelationships item res [p, q]) = Some (poolID p)"
  using assms by (simp add: classifyPoolRelationships_def classify_pool_def other_account_def)

text \<open>The bulk import finds an existing pool by the tag of its resource id alone: a pool of another
  account carrying that tag is linked.\<close>

lemma bulk_import_links_other_account:
  assumes "drPoolID res = None" "drCIDR res \<noteq> []" "drResourceType res = ResourceTypeVPC" "parsePrefix (drCIDR res) = Some pf"
    "discovery_tag p = drResourceID res" "poolID p = i" "drResourceID res \<noteq> []" "bsByDiscoveryID st = fst (index_pool p ([], []))"
  shows "bulk_item env ops acct res st = bulk_link ''%s: link existing pool: %v'' res i st"
  using assms by (simp add: bulk_item_def index_pool_def Let_def)

text \<open>A resource whose parent is linked to a pool gets a child of that pool, whether or not
  the pool still exists.\<close>

lemma bulk_import_child_of_dead_pool:
  assumes "drPoolID res = None" "drCIDR res \<noteq> []" "drResourceType res = ResourceTypeSubnet" "parsePrefix (drCIDR res) = Some pf"
    "drParentResourceID res = Some pid" "map_of (bsByDiscoveryID st) (drResourceID res) = None"
    "map_of (bsByShape st) (poolShapeKey (Some acct) (Some i) PoolTypeSubnet (drCIDR res)) = None"
    "drResourceID parent = pid" "drPoolID parent = Some i"
  shows "bulk_item env ops acct res (bulk_item env ops acct parent st) =
    bulk_create env ops acct (Some i) res (bulk_item env ops acct parent st)"
  using assms by (simp add: bulk_item_def bulk_skip_def Let_def ResourceTypeSubnet_def ResourceTypeVPC_def)

end
