(* ===== verification/Settings.thy ===== *)
theory Settings
  imports Http
begin

section \<open>Security settings (internal/domain/settings.go, storage/settings\_memory.go, api/settings\_handlers.go)\<close>

text \<open>
  The settings document, the store that keeps one and the handlers that read and replace it. A nil
  map or slice is \<open>None\<close>. The settings decide how long sessions last, how many a user has, when an
  account is locked and which API keys may be issued.
\<close>

subsection \<open>The document\<close>

record security_settings =
  stSessionDurationHours :: int
  stMaxSessionsPerUser :: int
  stPasswordMinLength :: int
  stPasswordMaxLength :: int
  stLoginRateLimitPerMin :: int
  stAccountLockoutAttempts :: int
  stAccountLockoutCooldownMinutes :: int
  stTrustedProxies :: "string list option"
  stLocalAuthEnabled :: bool
  stAPIKeyDefaultExpiryDays :: int
  stAPIKeyMaxLifetimeDays :: int
  stAPIKeyRotationReminderDays :: int
  stAPIKeyAllowedScopesByRole :: "(string, string list option) gomap option"

definition DefaultAPIKeyAllowedScopesByRole :: "(string, string list option) gomap" where
  "DefaultAPIKeyAllowedScopesByRole =
     [(''admin'', Some [''pools:read'', ''pools:write'', ''accounts:read'', ''accounts:write'', ''keys:read'', ''keys:write'',
         ''discovery:read'', ''discovery:write'', ''audit:read'', ''*'']),
      (''operator'', Some [''pools:read'', ''pools:write'', ''accounts:read'', ''accounts:write'', ''discovery:read'', ''discovery:write'']),
      (''viewer'', Some [''pools:read'', ''accounts:read'', ''discovery:read'']),
      (''auditor'', Some [''audit:read''])]"

definition DefaultSecuritySettings :: security_settings where
  "DefaultSecuritySettings = \<lparr>stSessionDurationHours = 24, stMaxSessionsPerUser = 10, stPasswordMinLength = 12,
     stPasswordMaxLength = 72, stLoginRateLimitPerMin = 5, stAccountLockoutAttempts = 0,
     stAccountLockoutCooldownMinutes = 15, stTrustedProxies = Some [], stLocalAuthEnabled = True,
     stAPIKeyDefaultExpiryDays = 0, stAPIKeyMaxLifetimeDays = 0, stAPIKeyRotationReminderDays = 14,
     stAPIKeyAllowedScopesByRole = Some DefaultAPIKeyAllowedScopesByRole\<rparr>"

text \<open>The two loops over the policy: roles without an entry get the default one, nil entries become
  empty.\<close>

definition normalize_policy :: "(string, string list option) gomap \<Rightarrow> (string, string list option) gomap" where
  "normalize_policy policy =
     (let m = fold (\<lambda>(role, scopes) m. if map_of m role = None then gput role scopes m else m)
            DefaultAPIKeyAllowedScopesByRole policy
      in map (\<lambda>(role, scopes). (role, if scopes = None then Some [] else scopes)) m)"

definition NormalizeSecuritySettings :: "security_settings option \<Rightarrow> security_settings" where
  "NormalizeSecuritySettings settings = (case settings of None \<Rightarrow> DefaultSecuritySettings
   | Some s \<Rightarrow>
      (let s = (if stAccountLockoutCooldownMinutes s \<le> 0
             then s\<lparr>stAccountLockoutCooldownMinutes := stAccountLockoutCooldownMinutes DefaultSecuritySettings\<rparr> else s);
           s = (if stTrustedProxies s = None then s\<lparr>stTrustedProxies := Some []\<rparr> else s);
           s = (if stAPIKeyRotationReminderDays s < 0
             then s\<lparr>stAPIKeyRotationReminderDays := stAPIKeyRotationReminderDays DefaultSecuritySettings\<rparr> else s)
       in case stAPIKeyAllowedScopesByRole s of
            None \<Rightarrow> s\<lparr>stAPIKeyAllowedScopesByRole := Some DefaultAPIKeyAllowedScopesByRole\<rparr>
          | Some policy \<Rightarrow> s\<lparr>stAPIKeyAllowedScopesByRole := Some (normalize_policy policy)\<rparr>))"

subsection \<open>The store\<close>

definition cloneSecuritySettings :: "security_settings option \<Rightarrow> security_settings option" where
  "cloneSecuritySettings s = map_option (\<lambda>s. s\<lparr>stTrustedProxies := append_nil (stTrustedProxies s),
     stAPIKeyAllowedScopesByRole := map_option (\<lambda>m. fold (\<lambda>(role, scopes) out. gput role (append_nil scopes) out) m [])
       (stAPIKeyAllowedScopesByRole s)\<rparr>) s"

record settings_store =
  stoSecurity :: "security_settings option"
  stoPolicy :: schema_policy

definition NewMemorySettingsStore :: settings_store where
  "NewMemorySettingsStore = \<lparr>stoSecurity = cloneSecuritySettings (Some DefaultSecuritySettings),
     stoPolicy = DefaultNetworkSchemaPolicy\<rparr>"

definition GetSecuritySettings :: "settings_store \<Rightarrow> security_settings" where
  "GetSecuritySettings s = NormalizeSecuritySettings (cloneSecuritySettings (stoSecurity s))"

definition UpdateSecuritySettings :: "settings_store \<Rightarrow> security_settings option \<Rightarrow> settings_store" where
  "UpdateSecuritySettings s settings = s\<lparr>stoSecurity := Some (NormalizeSecuritySettings (cloneSecuritySettings settings))\<rparr>"

definition GetNetworkSchemaPolicy :: "settings_store \<Rightarrow> schema_policy" where
  "GetNetworkSchemaPolicy s = NormalizeNetworkSchemaPolicy (Some (stoPolicy s))"

definition UpdateNetworkSchemaPolicy :: "settings_store \<Rightarrow> schema_policy option \<Rightarrow> settings_store" where
  "UpdateNetworkSchemaPolicy s policy = s\<lparr>stoPolicy := NormalizeNetworkSchemaPolicy policy\<rparr>"

subsection \<open>The handlers\<close>

definition policy_role :: "string \<Rightarrow> role option" where
  "policy_role role = (let r = trimSpace role in
     if r = ''admin'' then Some RoleAdmin else if r = ''operator'' then Some RoleOperator
     else if r = ''viewer'' then Some RoleViewer else if r = ''auditor'' then Some RoleAuditor else None)"

definition scope_error :: "string \<Rightarrow> role \<Rightarrow> string \<Rightarrow> string option" where
  "scope_error role authRole scope =
     (if \<not> IsValidAPIKeyScope scope then Some (''invalid scope '' @ scope)
      else if RoleLevel (GetRoleFromScopes [scope]) > RoleLevel authRole then Some (''scope '' @ scope @ '' exceeds role '' @ role)
      else None)"

fun first_some :: "('a \<Rightarrow> 'b option) \<Rightarrow> 'a list \<Rightarrow> 'b option" where
  "first_some f [] = None"
| "first_some f (x # xs) = (case f x of None \<Rightarrow> first_some f xs | Some y \<Rightarrow> Some y)"

definition entry_scope_error :: "string \<times> string list option \<Rightarrow> string option" where
  "entry_scope_error e = (case e of (role, scopes) \<Rightarrow> (case policy_role role of
     None \<Rightarrow> Some (''unknown role '' @ role)
   | Some r \<Rightarrow> first_some (scope_error role r) (slice scopes)))"

definition validateAPIKeyScopePolicy :: "(string, string list option) gomap option \<Rightarrow> string" where
  "validateAPIKeyScopePolicy policy = (case first_some entry_scope_error (slice policy) of None \<Rightarrow> [] | Some m \<Rightarrow> m)"

text \<open>The checks of an update, in their order: the error and its detail.\<close>

definition settings_error :: "security_settings \<Rightarrow> (string \<times> string) option" where
  "settings_error s =
     (if stSessionDurationHours s < 1 \<or> stSessionDurationHours s > 720
      then Some (''invalid session_duration_hours'', ''must be between 1 and 720'')
      else if stMaxSessionsPerUser s < 1 \<or> stMaxSessionsPerUser s > 100
      then Some (''invalid max_sessions_per_user'', ''must be between 1 and 100'')
      else if stPasswordMinLength s < 8 \<or> stPasswordMinLength s > 72
      then Some (''invalid password_min_length'', ''must be between 8 and 72'')
      else if stPasswordMaxLength s < stPasswordMinLength s \<or> stPasswordMaxLength s > 72
      then Some (''invalid password_max_length'', ''must be between min_length and 72'')
      else if stLoginRateLimitPerMin s < 1 \<or> stLoginRateLimitPerMin s > 60
      then Some (''invalid login_rate_limit_per_minute'', ''must be between 1 and 60'')
      else if stAccountLockoutAttempts s < 0 \<or> stAccountLockoutAttempts s > 100
      then Some (''invalid account_lockout_attempts'', ''must be between 0 and 100'')
      else if stAccountLockoutCooldownMinutes s < 1 \<or> stAccountLockoutCooldownMinutes s > 1440
      then Some (''invalid account_lockout_cooldown_minutes'', ''must be between 1 and 1440'')
      else if stAPIKeyDefaultExpiryDays s < 0 \<or> stAPIKeyDefaultExpiryDays s > 3650
      then Some (''invalid api_key_default_expiry_days'', ''must be between 0 and 3650'')
      else if stAPIKeyMaxLifetimeDays s < 0 \<or> stAPIKeyMaxLifetimeDays s > 3650
      then Some (''invalid api_key_max_lifetime_days'', ''must be between 0 and 3650'')
      else if stAPIKeyMaxLifetimeDays s > 0 \<and> stAPIKeyDefaultExpiryDays s > stAPIKeyMaxLifetimeDays s
      then Some (''invalid api_key_default_expiry_days'', ''must be less than or equal to api_key_max_lifetime_days'')
      else if stAPIKeyRotationReminderDays s < 0 \<or> stAPIKeyRotationReminderDays s > 365
      then Some (''invalid api_key_rotation_reminder_days'', ''must be between 0 and 365'')
      else if validateAPIKeyScopePolicy (stAPIKeyAllowedScopesByRole s) \<noteq> []
      then Some (''invalid api_key_allowed_scopes_by_role'', ''scope policy contains an invalid or elevated scope'')
      else None)"

definition handleGetSecuritySettings :: "settings_store \<Rightarrow> security_settings http_response" where
  "handleGetSecuritySettings s = RespJSON 200 (GetSecuritySettings s)"

definition handleUpdateSecuritySettings :: "req_env \<Rightarrow> security_settings option \<Rightarrow> settings_store server \<Rightarrow>
    settings_store server \<times> security_settings http_response" where
  "handleUpdateSecuritySettings env body x = (case body of
     None \<Rightarrow> (x, writeErr 400 ''invalid request body'' [])
   | Some inp \<Rightarrow>
      (let inp = (if stAccountLockoutCooldownMinutes inp = 0
             then inp\<lparr>stAccountLockoutCooldownMinutes := stAccountLockoutCooldownMinutes DefaultSecuritySettings\<rparr> else inp)
       in case settings_error inp of
            Some (m, d) \<Rightarrow> (x, writeErr 400 m d)
          | None \<Rightarrow>
             (let inp = NormalizeSecuritySettings (Some inp)
              in (logAudit env 0 ''update'' ''settings'' ''security'' ''security_settings'' 200
                    (x\<lparr>svStore := UpdateSecuritySettings (svStore x) (Some inp)\<rparr>), RespJSON 200 inp))))"

definition handleGetNetworkSchemaPolicy :: "settings_store \<Rightarrow> schema_policy http_response" where
  "handleGetNetworkSchemaPolicy s = RespJSON 200 (GetNetworkSchemaPolicy s)"

definition handleUpdateNetworkSchemaPolicy :: "req_env \<Rightarrow> schema_policy option \<Rightarrow> settings_store server \<Rightarrow>
    settings_store server \<times> schema_policy http_response" where
  "handleUpdateNetworkSchemaPolicy env body x = (case body of
     None \<Rightarrow> (x, writeErr 400 ''invalid request body'' [])
   | Some inp \<Rightarrow>
      if ValidateNetworkSchemaPolicy (Some inp) \<noteq> []
      then (x, writeErr 400 ''invalid network schema policy'' (ValidateNetworkSchemaPolicy (Some inp)))
      else
        let policy = NormalizeNetworkSchemaPolicy (Some inp)
        in (logAudit env 0 ''update'' ''settings'' ''network_schema_policy'' ''network_schema_policy'' 200
              (x\<lparr>svStore := UpdateNetworkSchemaPolicy (svStore x) (Some policy)\<rparr>), RespJSON 200 policy))"

end
