(* ===== verification/Middleware.thy ===== *)
theory Middleware
  imports Settings NetIP
begin

section \<open>The middleware (internal/api/middleware.go, csrf.go)\<close>

text \<open>
  A middleware answers a request itself or hands it on, with what it puts into the context. Requests
  carry the headers and cookies the code reads; \<open>net.SplitHostPort\<close> and the token bucket of
  \<open>golang.org/x/time/rate\<close> are parameters. Log lines are left out. One reading of the clock serves a whole
  request. A key that authenticated a request is marked as used by a goroutine of its own; the
  middleware returns its id.
\<close>

record web_request = http_request +
  wrAuthorization :: string
  wrSession :: "string option"
  wrCSRFCookie :: "string option"
  wrCSRFHeader :: string
  wrRequestID :: string
  wrRemoteAddr :: string
  wrForwardedFor :: string
  wrForwardedProto :: string
  wrTLS :: bool

definition secure_request :: "web_request \<Rightarrow> bool" where
  "secure_request r = (wrTLS r \<or> wrForwardedProto r = ''https'')"

subsection \<open>Request ids\<close>

definition maxRequestIDLength :: nat where "maxRequestIDLength = 64"

definition request_id_rune :: "nat \<Rightarrow> bool" where
  "request_id_rune r = ((97 \<le> r \<and> r \<le> 122) \<or> (65 \<le> r \<and> r \<le> 90) \<or> (48 \<le> r \<and> r \<le> 57) \<or> r = 45 \<or> r = 95 \<or> r = 46)"

definition sanitizeRequestID :: "string \<Rightarrow> string" where
  "sanitizeRequestID raw =
     (let i = trimSpace raw in
      if i = [] \<or> length i > maxRequestIDLength then []
      else if list_all request_id_rune (runes i) then i else [])"

definition RequestIDMiddleware :: "string \<Rightarrow> web_request \<Rightarrow> string" where
  "RequestIDMiddleware fresh r = (let i = sanitizeRequestID (wrRequestID r) in if i = [] then fresh else i)"

subsection \<open>The client of a request\<close>

type_synonym split_host = "string \<Rightarrow> string option"

text \<open>A nil configuration trusts nobody, as an empty one does.\<close>

fun trusted_cidrs :: "string list \<Rightarrow> nprefix list option" where
  "trusted_cidrs [] = Some []"
| "trusted_cidrs (s # rest) =
     (let s = trimSpace s in
      if s = [] then trusted_cidrs rest
      else case parsePrefix s of None \<Rightarrow> None
      | Some p \<Rightarrow> map_option (Cons p) (trusted_cidrs rest))"

definition ParseTrustedProxies :: "string \<Rightarrow> nprefix list option" where
  "ParseTrustedProxies raw = (if raw = [] then Some [] else trusted_cidrs (split_on CHR '','' raw))"

definition IsTrusted :: "split_host \<Rightarrow> nprefix list option \<Rightarrow> string \<Rightarrow> bool" where
  "IsTrusted split_host proxies remoteAddr =
     (if slice proxies = [] then False
      else case split_host remoteAddr of None \<Rightarrow> False
      | Some host \<Rightarrow> (case parseAddr host of None \<Rightarrow> False
        | Some a \<Rightarrow> list_ex (\<lambda>c. pfxContains c a) (slice proxies)))"

definition clientKeyWithProxies :: "split_host \<Rightarrow> web_request \<Rightarrow> nprefix list option \<Rightarrow> string" where
  "clientKeyWithProxies split_host r proxies =
     (let direct = (case split_host (wrRemoteAddr r) of None \<Rightarrow> wrRemoteAddr r | Some host \<Rightarrow> host) in
      if proxies \<noteq> None \<and> IsTrusted split_host proxies (wrRemoteAddr r) then
        (let xff = trimSpace (wrForwardedFor r);
             ip = trimSpace (case split2 CHR '','' xff of None \<Rightarrow> xff | Some (a, _) \<Rightarrow> a)
         in if xff \<noteq> [] \<and> ip \<noteq> [] then ip else direct)
      else direct)"

definition clientKey :: "split_host \<Rightarrow> web_request \<Rightarrow> string" where
  "clientKey split_host r = clientKeyWithProxies split_host r None"

subsection \<open>Rate limits\<close>

text \<open>A token bucket: \<open>rlNew\<close> makes a full one, \<open>rlAllow\<close> takes a token at a time, if there is one.\<close>

record 'l limiter_ops =
  rlNew :: 'l
  rlAllow :: "go_time \<Rightarrow> 'l \<Rightarrow> 'l \<times> bool"
  rlTokens :: "go_time \<Rightarrow> 'l \<Rightarrow> rat"

record rate_limit_config =
  rcRequestsPerSecond :: rat
  rcBurst :: int

definition Enabled :: "rate_limit_config \<Rightarrow> bool" where
  "Enabled c = (rcRequestsPerSecond c > 0 \<and> rcBurst c > 0)"

record rate_headers =
  rhLimit :: rat
  rhRemaining :: int
  rhRetryAfter :: "int option"

definition rateLimiterVisitorTTL :: int where "rateLimiterVisitorTTL = 5 * 60 * 1000000000"
definition minimumCleanupInterval :: int where "minimumCleanupInterval = 30 * 1000000000"

record 'l rate_limiter =
  rmVisitors :: "(string, 'l \<times> go_time) gomap"
  rmLastCleanup :: "go_time option"

definition cleanup_visitors :: "go_time \<Rightarrow> 'l rate_limiter \<Rightarrow> 'l rate_limiter" where
  "cleanup_visitors now m =
     (if (case rmLastCleanup m of None \<Rightarrow> True | Some t \<Rightarrow> now - t > minimumCleanupInterval)
      then m\<lparr>rmVisitors := filter (\<lambda>(_, _, seen). \<not> now - seen > rateLimiterVisitorTTL) (rmVisitors m), rmLastCleanup := Some now\<rparr>
      else m)"

text \<open>The limiter of the client is used after the lock is released; the map holds a pointer to it. The
  time of the next token, a third header, is left out.\<close>

definition RateLimitMiddleware :: "rate_limit_config \<Rightarrow> 'l limiter_ops \<Rightarrow> split_host \<Rightarrow> go_time \<Rightarrow> web_request \<Rightarrow> 'l rate_limiter \<Rightarrow>
    'l rate_limiter \<times> rate_headers option \<times> 'a http_response option" where
  "RateLimitMiddleware cfg ops split_host now r m =
     (if \<not> Enabled cfg then (m, None, None)
      else
        let key = clientKey split_host r;
            l = (case map_of (rmVisitors m) key of None \<Rightarrow> rlNew ops | Some (l, _) \<Rightarrow> l);
            m = cleanup_visitors now (m\<lparr>rmVisitors := gput key (l, now) (rmVisitors m)\<rparr>);
            remaining = floor (rlTokens ops now l);
            h = \<lparr>rhLimit = rcRequestsPerSecond cfg, rhRemaining = (if remaining < 0 then 0 else remaining), rhRetryAfter = None\<rparr>
        in case rlAllow ops now l of (l, ok) \<Rightarrow>
             let m = m\<lparr>rmVisitors := gput key (l, now) (rmVisitors m)\<rparr> in
             if ok then (m, Some h, None)
             else
               let retryAfter = ceiling (1 / rcRequestsPerSecond cfg)
               in (m, Some (h\<lparr>rhRetryAfter := Some (if retryAfter < 1 then 1 else retryAfter)\<rparr>),
                   Some (writeErr 429 ''too many requests'' [])))"

definition LoginRateLimitMiddleware :: "'l limiter_ops \<Rightarrow> split_host \<Rightarrow> nprefix list option \<Rightarrow> go_time \<Rightarrow> web_request \<Rightarrow>
    (string, 'l \<times> go_time) gomap \<Rightarrow> (string, 'l \<times> go_time) gomap \<times> 'a http_response option" where
  "LoginRateLimitMiddleware ops split_host proxies now r clients =
     (let ip = clientKeyWithProxies split_host r proxies;
          l = (case map_of clients ip of None \<Rightarrow> rlNew ops | Some (l, _) \<Rightarrow> l)
      in case rlAllow ops now l of (l, ok) \<Rightarrow>
           (gput ip (l, now) clients,
            if ok then None else Some (writeErr 429 ''too many login attempts'' ''try again later'')))"

text \<open>The goroutine that forgets the clients of more than ten minutes ago.\<close>

definition login_clients_cleanup :: "go_time \<Rightarrow> (string, 'l \<times> go_time) gomap \<Rightarrow> (string, 'l \<times> go_time) gomap" where
  "login_clients_cleanup now clients = filter (\<lambda>(_, _, seen). \<not> now - seen > 10 * 60 * 1000000000) clients"

subsection \<open>CSRF tokens\<close>

definition hasSessionCookie :: "web_request \<Rightarrow> bool" where
  "hasSessionCookie r = (case wrSession r of None \<Rightarrow> False | Some v \<Rightarrow> trimSpace v \<noteq> [])"

definition generateCSRFToken :: "AuthStores.bytes \<Rightarrow> string" where
  "generateCSRFToken rnd = hex_encode rnd"

text \<open>The answer, if the request stops here, and the token of a cookie that is set.\<close>

definition CSRFMiddleware :: "AuthStores.bytes \<Rightarrow> web_request \<Rightarrow> 'a http_response option \<times> string option" where
  "CSRFMiddleware rnd r =
     (if rqMethod r = ''GET'' \<or> rqMethod r = ''HEAD'' \<or> rqMethod r = ''OPTIONS''
      then (None, if wrCSRFCookie r = None then Some (generateCSRFToken rnd) else None)
      else if wrAuthorization r \<noteq> [] \<and> prefix ''Bearer cpam_'' (wrAuthorization r) \<and> \<not> hasSessionCookie r then (None, None)
      else if rqPath r = ''/api/v1/auth/login'' \<or> rqPath r = ''/api/v1/auth/setup''
        \<or> prefix ''/api/v1/auth/oidc/'' (rqPath r) then (None, None)
      else case wrCSRFCookie r of
        None \<Rightarrow> (Some (writeErr 403 ''CSRF token missing'' ''csrf_token cookie required''), None)
      | Some token \<Rightarrow>
          if wrCSRFHeader r = [] \<or> wrCSRFHeader r \<noteq> token
          then (Some (writeErr 403 ''CSRF token invalid'' ''X-CSRF-Token header must match csrf_token cookie''), None)
          else (None, None))"

subsection \<open>Authentication\<close>

definition activeStatusCacheTTL :: int where "activeStatusCacheTTL = 30 * 1000000000"

type_synonym active_cache = "(string, bool \<times> go_time) gomap"

definition cache_check :: "go_time \<Rightarrow> active_cache \<Rightarrow> string \<Rightarrow> int \<Rightarrow> bool option" where
  "cache_check now c uid ttl = (case map_of c uid of
     None \<Rightarrow> None
   | Some (isActive, checkedAt) \<Rightarrow>
       if ttl > 0 \<and> now - checkedAt > ttl then None
       else if ttl = 0 then None else Some isActive)"

definition cache_set :: "go_time \<Rightarrow> active_cache \<Rightarrow> string \<Rightarrow> bool \<Rightarrow> active_cache" where
  "cache_set now c uid isActive = gput uid (isActive, now) c"

definition unauthorized :: "string \<Rightarrow> 'a http_response" where
  "unauthorized detail = writeErr 401 ''unauthorized'' detail"

text \<open>The key behind a token: its format, the lookup by prefix and its validation.\<close>

definition api_key_of :: "hash_fn \<Rightarrow> go_time \<Rightarrow> key_store \<Rightarrow> string \<Rightarrow> 'a http_response + api_key" where
  "api_key_of hash now keys token = (case ParseAPIKeyPrefix token of
     Inl e \<Rightarrow> Inl (unauthorized ''invalid API key format'')
   | Inr pre \<Rightarrow> (case keyGetByPrefix keys pre of
       None \<Rightarrow> Inl (unauthorized ''invalid API key'')
     | Some k \<Rightarrow> (case ValidateAPIKey hash now token (Some k) of
         None \<Rightarrow> Inr k
       | Some e \<Rightarrow> Inl (if e = ErrKeyRevoked then unauthorized ''API key has been revoked''
           else if e = ErrKeyExpired then unauthorized ''API key has expired''
           else if e = ErrInvalidKey then unauthorized ''invalid API key''
           else writeErr 500 ''internal error'' []))))"

text \<open>What an authentication gives: the context to go on with and the key to be marked as used.\<close>

type_synonym authenticated = "auth_ctx \<times> string option"

definition anonymous :: auth_ctx where
  "anonymous = \<lparr>ctxRole = RoleNone, ctxSession = None, ctxAPIKey = None, ctxUser = None\<rparr>"

definition AuthMiddleware :: "hash_fn \<Rightarrow> bool \<Rightarrow> go_time \<Rightarrow> web_request \<Rightarrow> key_store \<Rightarrow> 'a http_response + authenticated" where
  "AuthMiddleware hash required now r keys =
     (if wrAuthorization r = []
      then (if required then Inl (unauthorized ''missing authorization header'') else Inr (anonymous, None))
      else if \<not> prefix ''Bearer '' (wrAuthorization r)
      then (if required then Inl (unauthorized ''invalid authorization format'') else Inr (anonymous, None))
      else case api_key_of hash now keys (trimSpace (trim_prefix (wrAuthorization r) ''Bearer '')) of
        Inl e \<Rightarrow> Inl e
      | Inr k \<Rightarrow> Inr (anonymous\<lparr>ctxAPIKey := Some k\<rparr>, Some (keyID k)))"

definition session_ctx :: "session \<Rightarrow> user option \<Rightarrow> auth_ctx" where
  "session_ctx ses u = \<lparr>ctxRole = sesRole ses, ctxSession = Some ses, ctxAPIKey = None, ctxUser = u\<rparr>"

definition account_disabled :: "'a http_response" where
  "account_disabled = writeErr 401 ''account disabled'' []"

text \<open>A valid session: whether its user is active, from the cache or from the user store.\<close>

definition session_auth :: "go_time \<Rightarrow> user_store \<Rightarrow> session \<Rightarrow> active_cache \<Rightarrow>
    active_cache \<times> ('a http_response + authenticated)" where
  "session_auth now users ses cache = (case cache_check now cache (sesUserID ses) activeStatusCacheTTL of
     None \<Rightarrow> (case userGetByID users (sesUserID ses) of
       None \<Rightarrow> (cache, Inl account_disabled)
     | Some u \<Rightarrow>
        (let cache = cache_set now cache (sesUserID ses) (userIsActive u) in
         if \<not> userIsActive u then (cache, Inl account_disabled)
         else (cache, Inr (session_ctx ses (Some u), None))))
   | Some isActive \<Rightarrow>
       if \<not> isActive then (cache, Inl account_disabled)
       else (cache, Inr (session_ctx ses (userGetByID users (sesUserID ses)), None)))"

definition cookie_session :: "go_time \<Rightarrow> session_store \<Rightarrow> web_request \<Rightarrow> session option" where
  "cookie_session now sessions r = (case wrSession r of
     None \<Rightarrow> None
   | Some v \<Rightarrow> if v = [] then None
       else case sessionGet now sessions v of
         Inr (Some ses) \<Rightarrow> if sessionIsValid now ses then Some ses else None
       | _ \<Rightarrow> None)"

definition cookie_auth :: "bool \<Rightarrow> go_time \<Rightarrow> web_request \<Rightarrow> session_store \<Rightarrow> user_store \<Rightarrow> active_cache \<Rightarrow>
    active_cache \<times> ('a http_response + authenticated)" where
  "cookie_auth required now r sessions users cache = (case cookie_session now sessions r of
     Some ses \<Rightarrow> session_auth now users ses cache
   | None \<Rightarrow> (cache, if required then Inl (unauthorized ''missing authentication'') else Inr (anonymous, None)))"

definition DualAuthMiddleware :: "hash_fn \<Rightarrow> bool \<Rightarrow> go_time \<Rightarrow> web_request \<Rightarrow> key_store \<Rightarrow> session_store \<Rightarrow> user_store \<Rightarrow>
    active_cache \<Rightarrow> active_cache \<times> ('a http_response + authenticated)" where
  "DualAuthMiddleware hash required now r keys sessions users cache =
     (if prefix ''Bearer '' (wrAuthorization r) then
        (let token = trimSpace (trim_prefix (wrAuthorization r) ''Bearer '') in
         if prefix ''cpam_'' token then
           (cache, case api_key_of hash now keys token of
              Inl e \<Rightarrow> Inl e
            | Inr k \<Rightarrow> Inr (anonymous\<lparr>ctxAPIKey := Some k\<rparr>, Some (keyID k)))
         else if required
         then (cache, Inl (writeErr 401 ''invalid bearer token'' ''bearer tokens must be API keys (cpam_ prefix)''))
         else cookie_auth required now r sessions users cache)
      else cookie_auth required now r sessions users cache)"

subsection \<open>Authorization\<close>

text \<open>The gates: \<open>None\<close> lets the request through.\<close>

definition missing_role :: "'a http_response" where
  "missing_role = writeErr 401 ''unauthorized'' []"

definition RequireScopeMiddleware :: "string \<Rightarrow> auth_ctx \<Rightarrow> 'a http_response option" where
  "RequireScopeMiddleware scope c = (case ctxAPIKey c of
     None \<Rightarrow> Some missing_role
   | Some k \<Rightarrow> if \<not> HasScope k scope
       then Some (RespErr 403 (Msg ''forbidden'') (Sprintf ''missing required scope: %s'' [Msg scope])) else None)"

definition RequireAnyScopeMiddleware :: "string list \<Rightarrow> auth_ctx \<Rightarrow> 'a http_response option" where
  "RequireAnyScopeMiddleware scopes c = (case ctxAPIKey c of
     None \<Rightarrow> Some missing_role
   | Some k \<Rightarrow> if \<not> HasAnyScope k scopes
       then Some (RespErr 403 (Msg ''forbidden'') (Sprintf ''missing required scope: one of %v'' [Msg (show_slice scopes)])) else None)"

definition RequirePermissionMiddleware :: "role_store option \<Rightarrow> go_time \<Rightarrow> auth_ctx \<Rightarrow> string \<Rightarrow> string \<Rightarrow> 'a http_response option" where
  "RequirePermissionMiddleware roles now c resource action =
     (if GetEffectiveRole now c = RoleNone then Some missing_role
      else if RequirePermission roles now c resource action \<noteq> None then Some forbidden
      else None)"

definition RequireAnyPermissionMiddleware :: "role_store option \<Rightarrow> go_time \<Rightarrow> auth_ctx \<Rightarrow> permission list \<Rightarrow> 'a http_response option" where
  "RequireAnyPermissionMiddleware roles now c ps =
     (let role = GetEffectiveRole now c in
      if role = RoleNone then Some missing_role
      else if list_ex (\<lambda>p. HasPermissionContext roles now c role (permResource p) (permAction p)) ps then None
      else Some forbidden)"

definition RequireRoleMiddleware :: "go_time \<Rightarrow> auth_ctx \<Rightarrow> role \<Rightarrow> 'a http_response option" where
  "RequireRoleMiddleware now c minRole =
     (let role = GetEffectiveRole now c in
      if role = RoleNone then Some missing_role
      else if RoleLevel role < RoleLevel minRole then Some forbidden else None)"

subsection \<open>The audit trail of a request\<close>

definition parseResourceFromPath :: "string \<Rightarrow> string \<times> string" where
  "parseResourceFromPath path =
     (let parts = split_on CHR ''/'' (trim_char CHR ''/'' path);
          part = (\<lambda>n. if n < length parts then parts ! n else []) in
      if length parts < 3 \<or> part 0 \<noteq> ''api'' \<or> part 1 \<noteq> ''v1'' then ([], [])
      else if part 2 = ''pools'' then
        (if part 3 \<noteq> [] then (if part 4 = ''blocks'' then ([], []) else (''pool'', part 3)) else (''pool'', []))
      else if part 2 = ''accounts'' then (''account'', part 3)
      else if part 2 = ''auth'' then
        (if part 3 = ''keys'' then (''api_key'', part 4)
         else if part 3 = ''users'' then (''user'', part 4)
         else if part 3 = ''login'' \<or> part 3 = ''logout'' then (''session'', [])
         else ([], []))
      else ([], []))"

definition methodToAction :: "string \<Rightarrow> string" where
  "methodToAction m = (if m = ''POST'' then ''create'' else if m = ''PATCH'' \<or> m = ''PUT'' then ''update''
     else if m = ''DELETE'' then ''delete'' else [])"

definition middleware_actor :: "auth_ctx \<Rightarrow> string \<times> string" where
  "middleware_actor c = (case ctxUser c of
     Some u \<Rightarrow> (userUsername u, ActorTypeUser)
   | None \<Rightarrow> (case ctxAPIKey c of Some k \<Rightarrow> (keyPrefix k, ActorTypeAPIKey) | None \<Rightarrow> (''anonymous'', ActorTypeAnonymous)))"

text \<open>The event for a request that was answered with \<open>status\<close>, if it is to be recorded.\<close>

definition AuditMiddleware :: "split_host \<Rightarrow> auth_ctx \<Rightarrow> string \<Rightarrow> web_request \<Rightarrow> int \<Rightarrow> audit_event option" where
  "AuditMiddleware split_host c requestID r status =
     (if rqMethod r = ''GET'' \<or> rqPath r \<in> {''/healthz'', ''/readyz'', ''/metrics'', ''/openapi.yaml''} then None
      else case parseResourceFromPath (rqPath r) of (resourceType, resourceID) \<Rightarrow>
        if resourceType = [] \<or> methodToAction (rqMethod r) = [] then None
        else case middleware_actor c of (actor, actorType) \<Rightarrow>
          Some \<lparr>aeID = [], aeTimestamp = None, aeActor = actor, aeActorType = actorType, aeAction = methodToAction (rqMethod r),
            aeResourceType = resourceType, aeResourceID = resourceID, aeResourceName = [], aeChanges = None,
            aeRequestID = requestID, aeIPAddress = clientKey split_host r, aeStatusCode = status\<rparr>)"

end
