(* ===== verification/UserHandlers.thy ===== *)
theory UserHandlers
  imports Middleware
begin

section \<open>Users, sign-in and setup (internal/api/user\_handlers.go, system\_handlers.go)\<close>

text \<open>
  The handlers of \<open>UserServer\<close> and \<open>handleSetup\<close>, over the in-memory stores. The state holds every store
  these handlers touch; the role store, the settings store and the audit logger may be missing. The
  environment adds to that of \<open>Http\<close> what the handlers draw from outside: bcrypt, Argon2id, random bytes, a fresh UUID, the text of a time
  and an order for \<open>sort.Slice\<close>, which is not stable, to start from. The role store is also the global one
  that permissions are looked up in. A request's body is decoded or not (\<open>None\<close>). JSON never shows a
  password hash. A cookie is returned beside the response. One reading of the clock serves a whole request.
\<close>

record access =
  acKeys :: key_store
  acUsers :: user_store
  acSessions :: session_store
  acRoles :: "role_store option"
  acSettings :: "settings_store option"
  acAudit :: "audit_log option"
  acNeedsSetup :: bool

record access_env = req_env +
  xeUUID :: string
  xeHashPassword :: "string \<Rightarrow> AuthStores.bytes option"
  xeCompare :: "AuthStores.bytes \<Rightarrow> string \<Rightarrow> bool"
  xeSessionRnd :: "AuthStores.bytes option"
  xeOrd :: "session list \<Rightarrow> session list"
  xeKeyHash :: hash_fn
  xeKeyRnd :: "AuthStores.bytes option"
  xeSaltRnd :: "AuthStores.bytes option"
  xeIDRnd :: "AuthStores.bytes option"
  xeFormatTime :: "go_time \<Rightarrow> string"
  xeParseTime :: "string \<Rightarrow> go_time option"

record cookie =
  ckValue :: string
  ckSecure :: bool
  ckStrict :: bool
  ckMaxAge :: int

definition session_cookie :: "web_request \<Rightarrow> string \<Rightarrow> int \<Rightarrow> cookie" where
  "session_cookie rq v age = \<lparr>ckValue = v, ckSecure = secure_request rq, ckStrict = secure_request rq, ckMaxAge = age\<rparr>"

subsection \<open>Shared steps\<close>

definition ActionLogin :: string where "ActionLogin = ''login''"
definition ActionLoginFailed :: string where "ActionLoginFailed = ''login_failed''"
definition ActionLogout :: string where "ActionLogout = ''logout''"
definition ActionAccountLocked :: string where "ActionAccountLocked = ''account_locked''"
definition ActionAccountUnlocked :: string where "ActionAccountUnlocked = ''account_unlocked''"
definition ResourceUserName :: string where "ResourceUserName = ''user''"
definition ResourceSessionName :: string where "ResourceSessionName = ''session''"

definition log_event :: "access_env \<Rightarrow> nat \<Rightarrow> string \<times> string \<Rightarrow> string \<Rightarrow> string \<Rightarrow> string \<Rightarrow> string \<Rightarrow> int \<Rightarrow> access \<Rightarrow> access" where
  "log_event env k who action rtype rid rname status x = (case acAudit x of
     None \<Rightarrow> x
   | Some l \<Rightarrow>
       let event = \<lparr>aeID = [], aeTimestamp = None, aeActor = fst who, aeActorType = snd who, aeAction = action,
             aeResourceType = rtype, aeResourceID = rid, aeResourceName = rname, aeChanges = None,
             aeRequestID = envRequestID env, aeIPAddress = [], aeStatusCode = status\<rparr>
       in x\<lparr>acAudit := Some (auditLog (envEventID env k) (envNow env) l (Some event))\<rparr>)"

definition logAuditEventAs :: "access_env \<Rightarrow> nat \<Rightarrow> string \<times> string \<Rightarrow> string \<Rightarrow> string \<Rightarrow> string \<Rightarrow> string \<Rightarrow> int \<Rightarrow> access \<Rightarrow> access" where
  "logAuditEventAs env k who action rtype rid rname status x =
     log_event env k (if fst who = [] then middleware_actor (envCtx env) else who) action rtype rid rname status x"

definition logAuditEvent :: "access_env \<Rightarrow> nat \<Rightarrow> string \<Rightarrow> string \<Rightarrow> string \<Rightarrow> string \<Rightarrow> int \<Rightarrow> access \<Rightarrow> access" where
  "logAuditEvent env k action rtype rid rname status x = logAuditEventAs env k ([], []) action rtype rid rname status x"

definition user_securitySettings :: "access \<Rightarrow> security_settings" where
  "user_securitySettings x = (case acSettings x of None \<Rightarrow> DefaultSecuritySettings
     | Some st \<Rightarrow> NormalizeSecuritySettings (Some (GetSecuritySettings st)))"

definition effective_role :: "access_env \<Rightarrow> role" where
  "effective_role env = GetEffectiveRole (envNow env) (envCtx env)"

definition has_permission :: "access_env \<Rightarrow> access \<Rightarrow> string \<Rightarrow> string \<Rightarrow> bool" where
  "has_permission env x resource action =
     HasPermissionContext (acRoles x) (envNow env) (envCtx env) (effective_role env) resource action"

definition permissionStrings :: "permission list option \<Rightarrow> string list" where
  "permissionStrings ps = sort (map permString (slice ps))"

definition normalizeAndValidateRole :: "access \<Rightarrow> string \<Rightarrow> bool \<Rightarrow> role option" where
  "normalizeAndValidateRole x value defaultViewer =
     (let role = NormalizeRoleName value;
          role = (if role = RoleNone \<and> defaultViewer then RoleViewer else role) in
      if role = RoleNone then None
      else case acRoles x of
        Some rs \<Rightarrow> (case GetRole rs role of Inr _ \<Rightarrow> Some role | Inl _ \<Rightarrow> None)
      | None \<Rightarrow> if RoleExists None role then Some role else None)"

definition update_user_store :: "user \<Rightarrow> access \<Rightarrow> access \<times> go_error option" where
  "update_user_store u x = (case userUpdate (acUsers x) (Some u) of (s, e) \<Rightarrow> (x\<lparr>acUsers := s\<rparr>, e))"

definition cleared_lockout :: "go_time \<Rightarrow> user \<Rightarrow> user" where
  "cleared_lockout now u = u\<lparr>userFailedLoginAttempts := 0, userLastFailedLoginAt := None, userLockedAt := None,
     userLockoutUntil := None, userUpdatedAt := now\<rparr>"

definition clearUserLockout :: "access_env \<Rightarrow> user \<Rightarrow> access \<Rightarrow> access \<times> go_error option" where
  "clearUserLockout env u x = update_user_store (cleared_lockout (envNow env) u) x"

subsection \<open>Payloads\<close>

record me_response =
  meAuthType :: string
  meRole :: role
  meUser :: "user option"
  meKeyID :: string
  meKeyName :: string
  meAuthProvider :: string
  meSessionExpiresAt :: "go_time option"
  mePermissions :: "string list"

datatype user_payload = PUser user | PUsers "user list" | PLogin user go_time "string list" | PMe me_response
  | PDone string | PSetup string

definition json_user :: "user \<Rightarrow> user" where
  "json_user u = u\<lparr>userPasswordHash := None\<rparr>"

type_synonym user_response = "user_payload http_response"

record login_input =
  liUsername :: string
  liPassword :: string

record create_user_input =
  uiUsername :: string
  uiEmail :: string
  uiDisplayName :: string
  uiRole :: string
  uiPassword :: string

record update_user_input =
  uuEmail :: "string option"
  uuDisplayName :: "string option"
  uuRole :: "string option"
  uuIsActive :: "bool option"

record password_input =
  piCurrentPassword :: string
  piNewPassword :: string

record setup_input =
  suUsername :: string
  suPassword :: string
  suEmail :: string

subsection \<open>Login and logout\<close>

definition lockout_attempts_reached :: "security_settings \<Rightarrow> user \<Rightarrow> bool" where
  "lockout_attempts_reached st u =
     (stAccountLockoutAttempts st > 0 \<and> userFailedLoginAttempts u \<ge> stAccountLockoutAttempts st)"

definition minutes :: "int \<Rightarrow> int" where "minutes n = n * 60 * 1000000000"
definition hours :: "int \<Rightarrow> int" where "hours n = n * 3600 * 1000000000"

definition failed_login :: "go_time \<Rightarrow> security_settings \<Rightarrow> user \<Rightarrow> user" where
  "failed_login now st u =
     (let u = u\<lparr>userFailedLoginAttempts := userFailedLoginAttempts u + 1, userLastFailedLoginAt := Some now, userUpdatedAt := now\<rparr>
      in if lockout_attempts_reached st u
         then u\<lparr>userLockedAt := Some now, userLockoutUntil := Some (now + minutes (stAccountLockoutCooldownMinutes st))\<rparr>
         else u)"

text \<open>Whether the account is now locked, or the error of the store.\<close>

definition recordFailedLogin :: "access_env \<Rightarrow> user \<Rightarrow> security_settings \<Rightarrow> access \<Rightarrow> access \<times> (go_error + bool)" where
  "recordFailedLogin env u st x =
     (let now = envNow env;
          u' = failed_login now st u;
          locked = lockout_attempts_reached st (u\<lparr>userFailedLoginAttempts := userFailedLoginAttempts u + 1\<rparr>)
      in case update_user_store u' x of
           (x, Some e) \<Rightarrow> (x, Inl e)
         | (x, None) \<Rightarrow>
            (let x = logAuditEvent env 1 ActionLoginFailed ResourceSessionName (userID u) (userUsername u) (if locked then 423 else 401) x;
                 x = (if locked then logAuditEvent env 2 ActionAccountLocked ResourceUserName (userID u) (userUsername u) 423 x else x)
             in (x, Inr locked)))"

text \<open>The oldest sessions above the limit are deleted.\<close>

definition evict_sessions :: "access_env \<Rightarrow> int \<Rightarrow> string \<Rightarrow> session_store \<Rightarrow> session_store" where
  "evict_sessions env maxSessions uid s =
     (let sessions = sessionListByUserID (envNow env) s uid in
      if int (length sessions) > maxSessions
      then fold (\<lambda>ses s. fst (sessionDelete s (sesID ses)))
             (take (nat (int (length sessions) - maxSessions)) (sort_key sesCreatedAt (xeOrd env sessions))) s
      else s)"

definition grant_session :: "access_env \<Rightarrow> web_request \<Rightarrow> security_settings \<Rightarrow> user \<Rightarrow> access \<Rightarrow> access \<times> user_response \<times> cookie option" where
  "grant_session env rq st u x =
     (let duration = hours (stSessionDurationHours st) in
      case NewSession (envNow env) (xeSessionRnd env) (userID u) (userRole u) duration None of
        None \<Rightarrow> (x, writeErr 500 ''failed to create session'' [], None)
      | Some ses \<Rightarrow> (case sessionCreate (acSessions x) (Some ses) of
          (s, Some e) \<Rightarrow> (x\<lparr>acSessions := s\<rparr>, RespErr 500 (Msg ''failed to store session'') (OfStore e), None)
        | (s, None) \<Rightarrow>
           (let x = x\<lparr>acSessions := evict_sessions env (stMaxSessionsPerUser st) (userID u) s,
                  acUsers := fst (userUpdateLastLogin (acUsers x) (userID u) (envNow env))\<rparr>;
                x = logAuditEvent env 3 ActionLogin ResourceSessionName (sesID ses) (userUsername u) 200 x
            in (x, RespJSON 200 (PLogin (json_user u) (sesExpiresAt ses)
                     (permissionStrings (GetPermissionsContext (acRoles x) (envNow env) (envCtx env) (userRole u)))),
                Some (session_cookie rq (sesID ses) (duration div 1000000000))))))"

definition login_user :: "access_env \<Rightarrow> web_request \<Rightarrow> login_input \<Rightarrow> security_settings \<Rightarrow> user \<Rightarrow> access \<Rightarrow>
    access \<times> user_response \<times> cookie option" where
  "login_user env rq inp st u x =
     (if \<not> userIsActive u
      then (logAuditEvent env 1 ActionLoginFailed ResourceSessionName (userID u) (userUsername u) 403 x,
            writeErr 403 ''account disabled'' [], None)
      else if VerifyPassword (xeCompare env) (liPassword inp) (slice (userPasswordHash u)) \<noteq> None then
        (case recordFailedLogin env u st x of
           (x, Inl e) \<Rightarrow> (x, RespErr 500 (Msg ''failed to record login failure'') (OfStore e), None)
         | (x, Inr True) \<Rightarrow> (x, writeErr 423 ''account locked'' ''too many failed login attempts'', None)
         | (x, Inr False) \<Rightarrow> (x, writeErr 401 ''invalid credentials'' [], None))
      else grant_session env rq st u x)"

definition still_locked :: "go_time \<Rightarrow> user \<Rightarrow> bool" where
  "still_locked now u = (userLockedAt u \<noteq> None \<and> (case userLockoutUntil u of None \<Rightarrow> False | Some t \<Rightarrow> now < t))"

definition login_known :: "access_env \<Rightarrow> web_request \<Rightarrow> login_input \<Rightarrow> security_settings \<Rightarrow> user \<Rightarrow> access \<Rightarrow>
    access \<times> user_response \<times> cookie option" where
  "login_known env rq inp st u x =
     (if still_locked (envNow env) u
      then (logAuditEvent env 0 ActionLoginFailed ResourceSessionName (userID u) (userUsername u) 423 x,
            RespErr 423 (Msg ''account locked'') (Msg (''try again after '' @ xeFormatTime env (the (userLockoutUntil u)))), None)
      else if userLockedAt u \<noteq> None then
        (case clearUserLockout env u x of
           (x, Some e) \<Rightarrow> (x, RespErr 500 (Msg ''failed to unlock account'') (OfStore e), None)
         | (x, None) \<Rightarrow>
            login_user env rq inp st (cleared_lockout (envNow env) u)
              (logAuditEventAs env 0 (''system'', ActorTypeAnonymous) ActionAccountUnlocked ResourceUserName (userID u) (userUsername u) 200 x))
      else login_user env rq inp st u x)"

definition handleLogin :: "access_env \<Rightarrow> web_request \<Rightarrow> login_input option \<Rightarrow> access \<Rightarrow> access \<times> user_response \<times> cookie option" where
  "handleLogin env rq body x =
     (if rqMethod rq \<noteq> ''POST'' then (x, method_not_allowed, None)
      else case body of
        None \<Rightarrow> (x, writeErr 400 ''invalid json'' [], None)
      | Some inp \<Rightarrow>
         (let inp = inp\<lparr>liUsername := trimSpace (liUsername inp)\<rparr> in
          if liUsername inp = [] \<or> liPassword inp = [] then (x, writeErr 400 ''username and password are required'' [], None)
          else
            let st = user_securitySettings x in
            if acSettings x \<noteq> None \<and> \<not> stLocalAuthEnabled st
            then (x, writeErr 403 ''local authentication is disabled'' ''use SSO to sign in'', None)
            else case userGetByUsername (acUsers x) (liUsername inp) of
              None \<Rightarrow> (logAuditEvent env 0 ActionLoginFailed ResourceSessionName [] (liUsername inp) 401 x,
                writeErr 401 ''invalid credentials'' [], None)
            | Some u \<Rightarrow> login_known env rq inp st u x))"

definition handleLogout :: "access_env \<Rightarrow> web_request \<Rightarrow> access \<Rightarrow> access \<times> user_response \<times> cookie option" where
  "handleLogout env rq x =
     (if rqMethod rq \<noteq> ''POST'' then (x, method_not_allowed, None)
      else
        let x = (case ctxSession (envCtx env) of None \<Rightarrow> x
               | Some ses \<Rightarrow> logAuditEvent env 0 ActionLogout ResourceSessionName (sesID ses)
                   (case ctxUser (envCtx env) of Some u \<Rightarrow> userUsername u | None \<Rightarrow> ''unknown'') 200
                   (x\<lparr>acSessions := fst (sessionDelete (acSessions x) (sesID ses))\<rparr>))
        in (x, RespStatus 204, Some (session_cookie rq [] (-1))))"

definition handleMe :: "access_env \<Rightarrow> web_request \<Rightarrow> access \<Rightarrow> user_response" where
  "handleMe env rq x =
     (if rqMethod rq \<noteq> ''GET'' then method_not_allowed
      else
        let c = envCtx env; role = effective_role env;
            perms = permissionStrings (GetPermissionsContext (acRoles x) (envNow env) c role)
        in case ctxUser c of
             Some u \<Rightarrow> RespJSON 200 (PMe \<lparr>meAuthType = ''session'', meRole = role, meUser = Some (json_user u), meKeyID = [],
               meKeyName = [], meAuthProvider = (if userAuthProvider u = [] then ''local'' else userAuthProvider u),
               meSessionExpiresAt = map_option sesExpiresAt (ctxSession c), mePermissions = perms\<rparr>)
           | None \<Rightarrow> (case ctxAPIKey c of
               Some k \<Rightarrow> RespJSON 200 (PMe \<lparr>meAuthType = ''api_key'', meRole = role, meUser = None, meKeyID = keyID k,
                 meKeyName = keyName k, meAuthProvider = [], meSessionExpiresAt = None, mePermissions = perms\<rparr>)
             | None \<Rightarrow> writeErr 401 ''not authenticated'' []))"

subsection \<open>Managing users\<close>

definition listUsers :: "access \<Rightarrow> user_response" where
  "listUsers x = RespJSON 200 (PUsers (map json_user (userList (acUsers x))))"

definition weak_password :: "password_error \<Rightarrow> user_response" where
  "weak_password e = RespErr 400 (Msg ''password too weak'') (case e of
     PasswordTooShort n \<Rightarrow> Sprintf ''password must be at least %d characters'' [Num n]
   | PasswordTooLong n \<Rightarrow> Sprintf ''password must be at most %d characters'' [Num n])"

definition trimmed_input :: "create_user_input \<Rightarrow> create_user_input" where
  "trimmed_input inp = inp\<lparr>uiUsername := trimSpace (uiUsername inp), uiEmail := trimSpace (uiEmail inp),
     uiDisplayName := trimSpace (uiDisplayName inp), uiPassword := trimSpace (uiPassword inp)\<rparr>"

definition create_input_error :: "create_user_input \<Rightarrow> user_response option" where
  "create_input_error inp =
     (if uiUsername inp = [] then Some (writeErr 400 ''username is required'' [])
      else if length (uiUsername inp) > 255 then Some (writeErr 400 ''username too long'' ''maximum 255 characters'')
      else if uiPassword inp = [] then Some (writeErr 400 ''password is required'' [])
      else map_option weak_password (ValidatePassword (uiPassword inp) 0))"

definition createUser :: "access_env \<Rightarrow> create_user_input option \<Rightarrow> access \<Rightarrow> access \<times> user_response" where
  "createUser env body x = (case body of
     None \<Rightarrow> (x, writeErr 400 ''invalid json'' [])
   | Some raw \<Rightarrow>
      (let inp = trimmed_input raw in
       case create_input_error inp of
         Some r \<Rightarrow> (x, r)
       | None \<Rightarrow> (case normalizeAndValidateRole x (uiRole inp) True of
           None \<Rightarrow> (x, writeErr 400 ''invalid role'' (uiRole inp))
         | Some role \<Rightarrow> (case xeHashPassword env (uiPassword inp) of
             None \<Rightarrow> (x, writeErr 500 ''failed to hash password'' [])
           | Some hash \<Rightarrow>
              (let now = envNow env;
                   u = \<lparr>userID = xeUUID env, userUsername = uiUsername inp, userEmail = uiEmail inp,
                     userDisplayName = uiDisplayName inp, userRole = role, userPasswordHash = Some hash, userIsActive = True,
                     userCreatedAt = now, userUpdatedAt = now, userLastLoginAt = None, userFailedLoginAttempts = 0,
                     userLastFailedLoginAt = None, userLockedAt = None, userLockoutUntil = None, userAuthProvider = [],
                     userOIDCSubject = [], userOIDCIssuer = []\<rparr>
               in case userCreate (acUsers x) (Some u) of
                    (s, Some e) \<Rightarrow> (x\<lparr>acUsers := s\<rparr>,
                      if e = ErrUserExists then writeErr 409 ''user already exists'' []
                      else RespErr 500 (Msg ''failed to create user'') (OfStore e))
                  | (s, None) \<Rightarrow> (logAuditEvent env 0 ''create'' ResourceUserName (userID u) (userUsername u) 201 (x\<lparr>acUsers := s\<rparr>),
                      RespJSON 201 (PUser (json_user u))))))))"

definition user_not_found :: user_response where
  "user_not_found = writeErr 404 ''user not found'' []"

definition getUser :: "string \<Rightarrow> access \<Rightarrow> user_response" where
  "getUser i x = (case userGetByID (acUsers x) i of None \<Rightarrow> user_not_found | Some u \<Rightarrow> RespJSON 200 (PUser (json_user u)))"

definition set_opt :: "'a option \<Rightarrow> ('a \<Rightarrow> 'b \<Rightarrow> 'b) \<Rightarrow> 'b \<Rightarrow> 'b" where
  "set_opt v f y = (case v of None \<Rightarrow> y | Some a \<Rightarrow> f a y)"

definition updated_profile :: "update_user_input \<Rightarrow> user \<Rightarrow> user" where
  "updated_profile inp u = set_opt (uuDisplayName inp) (\<lambda>d u. u\<lparr>userDisplayName := trimSpace d\<rparr>)
     (set_opt (uuEmail inp) (\<lambda>e u. u\<lparr>userEmail := trimSpace e\<rparr>) u)"

definition updated_access :: "access_env \<Rightarrow> update_user_input \<Rightarrow> role \<Rightarrow> user \<Rightarrow> user" where
  "updated_access env inp role u =
     (set_opt (uuIsActive inp) (\<lambda>a u. u\<lparr>userIsActive := a\<rparr>) (u\<lparr>userRole := role\<rparr>))\<lparr>userUpdatedAt := envNow env\<rparr>"

definition updateUser :: "access_env \<Rightarrow> update_user_input option \<Rightarrow> string \<Rightarrow> access \<Rightarrow> access \<times> user_response" where
  "updateUser env body i x = (case userGetByID (acUsers x) i of
     None \<Rightarrow> (x, user_not_found)
   | Some u \<Rightarrow> (case body of
       None \<Rightarrow> (x, writeErr 400 ''invalid json'' [])
     | Some inp \<Rightarrow>
        (let u = updated_profile inp u;
             role = (case uuRole inp of None \<Rightarrow> Some (userRole u) | Some v \<Rightarrow> normalizeAndValidateRole x v False)
         in case role of
              None \<Rightarrow> (x, writeErr 400 ''invalid role'' (the (uuRole inp)))
            | Some role \<Rightarrow>
               (let u = updated_access env inp role u;
                    x = (if uuIsActive inp = Some False
                         then x\<lparr>acSessions := sessionDeleteByUserID (acSessions x) (userID u)\<rparr> else x)
                in case update_user_store u x of
                     (x, Some e) \<Rightarrow> (x, RespErr 500 (Msg ''failed to update user'') (OfStore e))
                   | (x, None) \<Rightarrow> (logAuditEvent env 0 ''update'' ResourceUserName (userID u) (userUsername u) 200 x,
                       RespJSON 200 (PUser (json_user u)))))))"

definition deactivateUser :: "access_env \<Rightarrow> string \<Rightarrow> access \<Rightarrow> access \<times> user_response" where
  "deactivateUser env i x = (case userGetByID (acUsers x) i of
     None \<Rightarrow> (x, user_not_found)
   | Some u \<Rightarrow> (case update_user_store (u\<lparr>userIsActive := False, userUpdatedAt := envNow env\<rparr>) x of
       (x, Some e) \<Rightarrow> (x, RespErr 500 (Msg ''failed to deactivate user'') (OfStore e))
     | (x, None) \<Rightarrow> (logAuditEvent env 0 ''delete'' ResourceUserName (userID u) (userUsername u) 200
         (x\<lparr>acSessions := sessionDeleteByUserID (acSessions x) (userID u)\<rparr>), RespStatus 204)))"

definition password_input_error :: "access_env \<Rightarrow> bool \<Rightarrow> user \<Rightarrow> password_input \<Rightarrow> user_response option" where
  "password_input_error env verify u inp =
     (if piNewPassword inp = [] then Some (writeErr 400 ''new_password is required'' [])
      else if ValidatePassword (piNewPassword inp) 0 \<noteq> None
      then map_option weak_password (ValidatePassword (piNewPassword inp) 0)
      else if verify then
        (if piCurrentPassword inp = [] then Some (writeErr 400 ''current_password is required'' [])
         else if VerifyPassword (xeCompare env) (piCurrentPassword inp) (slice (userPasswordHash u)) \<noteq> None
         then Some (writeErr 401 ''invalid current password'' []) else None)
      else None)"

definition changePassword :: "access_env \<Rightarrow> password_input option \<Rightarrow> string \<Rightarrow> access \<Rightarrow> access \<times> user_response" where
  "changePassword env body i x =
     (let isSelf = (case ctxUser (envCtx env) of None \<Rightarrow> False | Some u \<Rightarrow> userID u = i);
          isAdmin = has_permission env x ResourceUsers ActionUpdate in
      if \<not> isSelf \<and> \<not> isAdmin then (x, forbidden)
      else case userGetByID (acUsers x) i of
        None \<Rightarrow> (x, user_not_found)
      | Some u \<Rightarrow> (case body of
          None \<Rightarrow> (x, writeErr 400 ''invalid json'' [])
        | Some inp \<Rightarrow> (case password_input_error env (isSelf \<and> \<not> isAdmin) u inp of
            Some r \<Rightarrow> (x, r)
          | None \<Rightarrow> (case xeHashPassword env (piNewPassword inp) of
              None \<Rightarrow> (x, writeErr 500 ''failed to hash password'' [])
            | Some hash \<Rightarrow> (case update_user_store (u\<lparr>userPasswordHash := Some hash, userUpdatedAt := envNow env\<rparr>) x of
                (x, Some e) \<Rightarrow> (x, RespErr 500 (Msg ''failed to update password'') (OfStore e))
              | (x, None) \<Rightarrow> (logAuditEvent env 0 ''update'' ResourceUserName (userID u) (userUsername u) 200 x, RespStatus 204))))))"

definition handleRevokeSessions :: "access_env \<Rightarrow> string \<Rightarrow> access \<Rightarrow> access \<times> user_response" where
  "handleRevokeSessions env i x =
     (if effective_role env \<noteq> RoleAdmin \<and> (case ctxUser (envCtx env) of None \<Rightarrow> True | Some u \<Rightarrow> userID u \<noteq> i)
      then (x, writeErr 403 ''forbidden'' ''only admins or the user themselves can revoke sessions'')
      else (logAuditEvent env 0 ''revoke_sessions'' ResourceUserName i [] 200
              (x\<lparr>acSessions := sessionDeleteByUserID (acSessions x) i\<rparr>), RespJSON 200 (PDone ''sessions revoked'')))"

definition handleUnlockUser :: "access_env \<Rightarrow> string \<Rightarrow> access \<Rightarrow> access \<times> user_response" where
  "handleUnlockUser env i x =
     (if effective_role env \<noteq> RoleAdmin \<and> effective_role env \<noteq> RoleNone
      then (x, writeErr 403 ''forbidden'' ''only admins can unlock users'')
      else case userGetByID (acUsers x) i of
        None \<Rightarrow> (x, user_not_found)
      | Some u \<Rightarrow> (case clearUserLockout env u x of
          (x, Some e) \<Rightarrow> (x, RespErr 500 (Msg ''failed to unlock user'') (OfStore e))
        | (x, None) \<Rightarrow> (logAuditEvent env 0 ActionAccountUnlocked ResourceUserName (userID u) (userUsername u) 200 x,
            RespJSON 200 (PUser (json_user (cleared_lockout (envNow env) u))))))"

subsection \<open>Routes\<close>

record user_bodies =
  ubCreate :: "create_user_input option"
  ubUpdate :: "update_user_input option"
  ubPassword :: "password_input option"

definition handleUsers :: "access_env \<Rightarrow> web_request \<Rightarrow> user_bodies \<Rightarrow> access \<Rightarrow> access \<times> user_response" where
  "handleUsers env rq b x =
     (if rqMethod rq = ''GET'' then (x, listUsers x)
      else if rqMethod rq = ''POST'' then createUser env (ubCreate b) x
      else (x, method_not_allowed))"

text \<open>The id of the path and the rest of it, without one closing slash.\<close>

definition user_path :: "string \<Rightarrow> string \<times> string option" where
  "user_path path = (let p = trim_prefix path ''/api/v1/auth/users/'' in
     case split2 CHR ''/'' p of None \<Rightarrow> (trim_char CHR ''/'' p, None)
     | Some (a, b) \<Rightarrow> (trim_char CHR ''/'' a, Some (trim_suffix b ''/'')))"

text \<open>\<open>gate action\<close> answers instead of the handler when the caller may not do \<open>action\<close>; without access control it
  never does.\<close>

definition with_gate :: "user_response option \<Rightarrow> (access \<Rightarrow> access \<times> user_response) \<Rightarrow> access \<Rightarrow> access \<times> user_response" where
  "with_gate g h x = (case g of Some r \<Rightarrow> (x, r) | None \<Rightarrow> h x)"

definition user_by_id :: "(string \<Rightarrow> user_response option) \<Rightarrow> access_env \<Rightarrow> web_request \<Rightarrow> user_bodies \<Rightarrow> access \<Rightarrow>
    access \<times> user_response" where
  "user_by_id gate env rq b x = (case user_path (rqPath rq) of (i, rest) \<Rightarrow>
     if i = [] then (x, not_found)
     else if rest = Some ''password'' then
       (if rqMethod rq = ''PATCH'' then changePassword env (ubPassword b) i x else (x, method_not_allowed))
     else if rest = Some ''revoke-sessions'' then
       (if rqMethod rq = ''POST'' then handleRevokeSessions env i x else (x, method_not_allowed))
     else if rest = Some ''unlock'' then
       (if rqMethod rq = ''POST'' then with_gate (gate ActionUpdate) (handleUnlockUser env i) x else (x, method_not_allowed))
     else if rqMethod rq = ''GET'' then with_gate (gate ActionRead) (\<lambda>x. (x, getUser i x)) x
     else if rqMethod rq = ''PATCH'' then with_gate (gate ActionUpdate) (updateUser env (ubUpdate b) i) x
     else if rqMethod rq = ''DELETE'' then with_gate (gate ActionDelete) (deactivateUser env i) x
     else (x, method_not_allowed))"

definition handleUserByID :: "access_env \<Rightarrow> web_request \<Rightarrow> user_bodies \<Rightarrow> access \<Rightarrow> access \<times> user_response" where
  "handleUserByID env rq b x = user_by_id (\<lambda>_. None) env rq b x"

definition users_gate :: "access_env \<Rightarrow> access \<Rightarrow> string \<Rightarrow> user_response option" where
  "users_gate env x action = RequirePermissionMiddleware (acRoles x) (envNow env) (envCtx env) ResourceUsers action"

definition protectedUsers :: "access_env \<Rightarrow> web_request \<Rightarrow> user_bodies \<Rightarrow> access \<Rightarrow> access \<times> user_response" where
  "protectedUsers env rq b x =
     (if rqMethod rq = ''GET'' then with_gate (users_gate env x ActionList) (\<lambda>x. (x, listUsers x)) x
      else if rqMethod rq = ''POST'' then with_gate (users_gate env x ActionCreate) (createUser env (ubCreate b)) x
      else (x, method_not_allowed))"

definition protectedUserByID :: "access_env \<Rightarrow> web_request \<Rightarrow> user_bodies \<Rightarrow> access \<Rightarrow> access \<times> user_response" where
  "protectedUserByID env rq b x = user_by_id (users_gate env x) env rq b x"

subsection \<open>The first account\<close>

definition handleSetup :: "access_env \<Rightarrow> web_request \<Rightarrow> setup_input option \<Rightarrow> access \<Rightarrow> access \<times> user_response" where
  "handleSetup env rq body x =
     (if rqMethod rq \<noteq> ''POST'' then (x, writeErr 405 ''method not allowed'' ''use POST'')
      else if \<not> acNeedsSetup x then (x, writeErr 403 ''setup already completed'' ''an admin account already exists'')
      else case body of
        None \<Rightarrow> (x, writeErr 400 ''invalid request body'' [])
      | Some inp \<Rightarrow>
         (let username = trimSpace (suUsername inp) in
          if username = [] then (x, writeErr 400 ''username is required'' [])
          else if ValidatePassword (suPassword inp) 0 \<noteq> None then (x, weak_password (the (ValidatePassword (suPassword inp) 0)))
          else if userList (acUsers x) \<noteq> []
          then (x\<lparr>acNeedsSetup := False\<rparr>, writeErr 403 ''setup already completed'' ''an admin account already exists'')
          else case xeHashPassword env (suPassword inp) of
            None \<Rightarrow> (x, writeErr 500 ''failed to hash password'' [])
          | Some hash \<Rightarrow>
             (let email = trimSpace (suEmail inp);
                  email = (if email = [] then username @ ''@localhost'' else email);
                  now = envNow env;
                  u = \<lparr>userID = xeUUID env, userUsername = username, userEmail = email, userDisplayName = username,
                    userRole = RoleAdmin, userPasswordHash = Some hash, userIsActive = True, userCreatedAt = now,
                    userUpdatedAt = now, userLastLoginAt = None, userFailedLoginAttempts = 0, userLastFailedLoginAt = None,
                    userLockedAt = None, userLockoutUntil = None, userAuthProvider = [], userOIDCSubject = [], userOIDCIssuer = []\<rparr>
              in case userCreate (acUsers x) (Some u) of
                   (s, Some e) \<Rightarrow> (x\<lparr>acUsers := s\<rparr>, RespErr 500 (Msg ''failed to create admin user'') (OfStore e))
                 | (s, None) \<Rightarrow>
                    (log_event env 0 (audit_actor (envCtx env)) ''create'' ResourceUserName (userID u) (userUsername u) 201
                       (x\<lparr>acUsers := s, acNeedsSetup := False\<rparr>),
                     RespJSON 201 (PSetup (userUsername u))))))"

end
