(* ===== verification/KeyHandlers.thy ===== *)
theory KeyHandlers
  imports UserHandlers Discovery
begin

section \<open>API keys and the audit listing (internal/api/auth\_handlers.go)\<close>

text \<open>
  The handlers of \<open>AuthServer\<close>: issuing, listing and revoking API keys, with the limits the caller's role and the
  settings put on scopes and lifetime, and the listing of audit events. Days are of 24 hours, as they are in UTC.
\<close>

definition days :: "int \<Rightarrow> int" where "days n = n * 86400 * 1000000000"

subsection \<open>Policy\<close>

definition key_settings :: "access \<Rightarrow> security_settings" where
  "key_settings x = user_securitySettings x"

definition expiry_days :: "int option \<Rightarrow> security_settings \<Rightarrow> int" where
  "expiry_days requested st = (case requested of Some d \<Rightarrow> d
     | None \<Rightarrow> if stAPIKeyDefaultExpiryDays st > 0 then stAPIKeyDefaultExpiryDays st else 0)"

definition apiKeyExpiresAt :: "go_time \<Rightarrow> int option \<Rightarrow> security_settings \<Rightarrow> err_msg + go_time option" where
  "apiKeyExpiresAt now requested st =
     (let n = expiry_days requested st; most = stAPIKeyMaxLifetimeDays st in
      if requested \<noteq> None \<and> n < 0 then Inl (Msg ''must be 0 or greater'')
      else if most > 0 \<and> n > most \<and> requested \<noteq> None
      then Inl (Sprintf ''must be less than or equal to API key maximum lifetime of %d days'' [Num most])
      else
        let n = (if most > 0 then (if n = 0 then most else if n > most then most else n) else n)
        in Inr (if n \<le> 0 then None else Some (now + days n)))"

definition deniedAPIKeyScope :: "security_settings \<Rightarrow> role \<Rightarrow> string list \<Rightarrow> string" where
  "deniedAPIKeyScope st role scopes = (case map_of (slice (stAPIKeyAllowedScopesByRole st)) role of
     None \<Rightarrow> []
   | Some permitted \<Rightarrow> (case List.find (\<lambda>s. s \<notin> set (slice permitted)) scopes of None \<Rightarrow> [] | Some s \<Rightarrow> s))"

definition daysSince :: "go_time \<Rightarrow> go_time \<Rightarrow> int" where
  "daysSince t now = (if t = zero_time \<or> t > now then 0 else (now - t) div days 1)"

definition daysUntil :: "go_time \<Rightarrow> go_time \<Rightarrow> int" where
  "daysUntil t now = (if \<not> t > now then 0
     else let d = t - now; n = d div days 1 in if d mod days 1 \<noteq> 0 then n + 1 else n)"

definition apiKeyExpiryStatus :: "api_key \<Rightarrow> security_settings \<Rightarrow> go_time \<Rightarrow> string \<times> int option \<times> bool" where
  "apiKeyExpiryStatus k st now =
     (if keyRevoked k then (''revoked'', None, False)
      else case keyExpiresAt k of
        None \<Rightarrow> (''no_expiry'', None, False)
      | Some t \<Rightarrow>
         (let n = daysUntil t now in
          if \<not> t > now then (''expired'', Some n, False)
          else if stAPIKeyRotationReminderDays st > 0 \<and> n \<le> stAPIKeyRotationReminderDays st then (''expiring'', Some n, True)
          else (''active'', Some n, False)))"

subsection \<open>Issuing a key\<close>

record key_input =
  kiName :: string
  kiScopes :: "string list option"
  kiExpiresInDays :: "int option"

record created_key =
  crID :: string
  crKey :: string
  crPrefix :: string
  crName :: string
  crScopes :: "string list option"
  crOwnerID :: "string option"
  crCreatedAt :: go_time
  crExpiresAt :: "go_time option"

record key_row =
  krID :: string
  krPrefix :: string
  krName :: string
  krScopes :: "string list option"
  krOwnerID :: "string option"
  krCreatedAt :: go_time
  krExpiresAt :: "go_time option"
  krLastUsedAt :: "go_time option"
  krRevoked :: bool
  krAgeDays :: int
  krExpiresInDays :: "int option"
  krExpiryStatus :: string
  krRotationDue :: bool

record audit_page =
  apEvents :: "audit_event list"
  apTotal :: int
  apLimit :: int
  apOffset :: int

datatype key_payload = PKey created_key | PKeys "key_row list" | PAudit audit_page

type_synonym key_response = "key_payload http_response"

text \<open>The checks of the scopes against the caller: \<open>None\<close> if the key may be issued.\<close>

definition elevation_error :: "access_env \<Rightarrow> access \<Rightarrow> string list \<Rightarrow> key_response option" where
  "elevation_error env x scopes =
     (let role = effective_role env in
      if role = RoleNone then None
      else if IsBuiltinRole role \<and> RoleLevel (GetRoleFromScopes scopes) > RoleLevel role
      then Some (writeErr 403 ''scope elevation denied'' ''requested scopes require a higher privilege level than your current role'')
      else if \<not> list_all (ScopeAllowedByRolePermissions (acRoles x) (envNow env) (envCtx env) role) scopes
      then Some (writeErr 403 ''scope elevation denied'' ''requested scope exceeds your current permissions'')
      else if IsBuiltinRole role \<and> deniedAPIKeyScope (key_settings x) role scopes \<noteq> []
      then Some (writeErr 403 ''scope denied by API key policy'' ''requested scope is not allowed for your role'')
      else None)"

definition key_input_error :: "key_input \<Rightarrow> key_response option" where
  "key_input_error inp =
     (if kiName inp = [] then Some (writeErr 400 ''name is required'' [])
      else if length (kiName inp) > 255 then Some (writeErr 400 ''name too long'' ''maximum 255 characters'')
      else case List.find (\<lambda>s. \<not> IsValidAPIKeyScope s) (slice (kiScopes inp)) of
        Some s \<Rightarrow> Some (writeErr 400 ''invalid scope'' s) | None \<Rightarrow> None)"

definition key_answer :: "string \<Rightarrow> api_key \<Rightarrow> created_key" where
  "key_answer plaintext k = \<lparr>crID = keyID k, crKey = plaintext, crPrefix = keyPrefix k, crName = keyName k, crScopes = keyScopes k,
     crOwnerID = keyOwnerID k, crCreatedAt = keyCreatedAt k, crExpiresAt = keyExpiresAt k\<rparr>"

definition issue_key :: "access_env \<Rightarrow> key_input \<Rightarrow> go_time option \<Rightarrow> access \<Rightarrow> access \<times> key_response" where
  "issue_key env inp expires x =
     (case GenerateAPIKey (xeKeyHash env) (envNow env) (xeKeyRnd env) (xeSaltRnd env) (xeIDRnd env)
             \<lparr>koName = kiName inp, koScopes = kiScopes inp, koExpiresAt = expires\<rparr> of
        Inl e \<Rightarrow> (x, RespErr 500 (Msg ''failed to generate key'') (OfStore e))
      | Inr (plaintext, k) \<Rightarrow>
         (let k = (case ctxUser (envCtx env) of None \<Rightarrow> k | Some u \<Rightarrow> k\<lparr>keyOwnerID := Some (userID u)\<rparr>) in
          case keyCreate (acKeys x) (Some k) of
            (s, Some e) \<Rightarrow> (x\<lparr>acKeys := s\<rparr>, RespErr 500 (Msg ''failed to store key'') (OfStore e))
          | (s, None) \<Rightarrow> (x\<lparr>acKeys := s\<rparr>, RespJSON 201 (PKey (key_answer plaintext k)))))"

definition createAPIKey :: "access_env \<Rightarrow> key_input option \<Rightarrow> access \<Rightarrow> access \<times> key_response" where
  "createAPIKey env body x = (case body of
     None \<Rightarrow> (x, writeErr 400 ''invalid json'' [])
   | Some raw \<Rightarrow>
      (let inp = raw\<lparr>kiName := trimSpace (kiName raw)\<rparr> in
       case key_input_error inp of
         Some r \<Rightarrow> (x, r)
       | None \<Rightarrow> (case elevation_error env x (slice (kiScopes inp)) of
           Some r \<Rightarrow> (x, r)
         | None \<Rightarrow> (case apiKeyExpiresAt (envNow env) (kiExpiresInDays inp) (key_settings x) of
             Inl e \<Rightarrow> (x, RespErr 400 (Msg ''invalid expires_in_days'') e)
           | Inr expires \<Rightarrow> issue_key env inp expires x))))"

subsection \<open>Listing and revoking keys\<close>

definition ActionAPIKeyRotationDue :: string where "ActionAPIKeyRotationDue = ''api_key_rotation_due''"
definition ResourceAPIKeyName :: string where "ResourceAPIKeyName = ''api_key''"

definition auditActorFromContext :: "auth_ctx \<Rightarrow> string \<times> string" where
  "auditActorFromContext c = (case ctxUser c of
     Some u \<Rightarrow> (userID u, ActorTypeUser)
   | None \<Rightarrow> (case ctxAPIKey c of Some k \<Rightarrow> (keyPrefix k, ActorTypeAPIKey) | None \<Rightarrow> (''anonymous'', ActorTypeAnonymous)))"

definition rotation_changes :: "access_env \<Rightarrow> api_key \<Rightarrow> int option \<Rightarrow> (string, go_any) gomap" where
  "rotation_changes env k n =
     (let m = [(''prefix'', AnyString (keyPrefix k))];
          m = (case n of None \<Rightarrow> m | Some d \<Rightarrow> gput ''expires_in_days'' (AnyInt d) m)
      in case keyExpiresAt k of None \<Rightarrow> m | Some t \<Rightarrow> gput ''expires_at'' (AnyString (xeFormatTime env t)) m)"

definition reminded :: "audit_event list \<Rightarrow> (string, go_any) gomap \<Rightarrow> bool" where
  "reminded events after = list_ex (\<lambda>e. aeAction e = ActionAPIKeyRotationDue \<and>
     (case aeChanges e of None \<Rightarrow> False
      | Some c \<Rightarrow> gget AnyNil (slice (acAfter c)) ''expires_at'' = gget AnyNil after ''expires_at'')) events"

definition logAPIKeyRotationDue :: "access_env \<Rightarrow> nat \<Rightarrow> api_key \<Rightarrow> int option \<Rightarrow> access \<Rightarrow> access" where
  "logAPIKeyRotationDue env i k n x = (case acAudit x of
     None \<Rightarrow> x
   | Some l \<Rightarrow>
      (let after = rotation_changes env k n; who = auditActorFromContext (envCtx env) in
       if reminded (auditGetByResource l ResourceAPIKeyName (keyID k)) after then x
       else x\<lparr>acAudit := Some (auditLog (envEventID env i) (envNow env) l (Some
          \<lparr>aeID = [], aeTimestamp = Some (envNow env), aeActor = fst who, aeActorType = snd who, aeAction = ActionAPIKeyRotationDue,
            aeResourceType = ResourceAPIKeyName, aeResourceID = keyID k, aeResourceName = keyName k,
            aeChanges = Some \<lparr>acBefore = None, acAfter = Some after\<rparr>, aeRequestID = envRequestID env, aeIPAddress = [],
            aeStatusCode = 200\<rparr>))\<rparr>))"

definition key_row_of :: "security_settings \<Rightarrow> go_time \<Rightarrow> api_key \<Rightarrow> key_row" where
  "key_row_of st now k = (case apiKeyExpiryStatus k st now of (status, n, due) \<Rightarrow>
     \<lparr>krID = keyID k, krPrefix = keyPrefix k, krName = keyName k, krScopes = keyScopes k, krOwnerID = keyOwnerID k,
      krCreatedAt = keyCreatedAt k, krExpiresAt = keyExpiresAt k, krLastUsedAt = keyLastUsedAt k, krRevoked = keyRevoked k,
      krAgeDays = daysSince (keyCreatedAt k) now, krExpiresInDays = n, krExpiryStatus = status, krRotationDue = due\<rparr>)"

definition remind :: "access_env \<Rightarrow> security_settings \<Rightarrow> nat \<times> api_key \<Rightarrow> access \<Rightarrow> access" where
  "remind env st e x = (case e of (i, k) \<Rightarrow> case apiKeyExpiryStatus k st (envNow env) of (_, n, due) \<Rightarrow>
     if due then logAPIKeyRotationDue env i k n x else x)"

definition visible_keys :: "access_env \<Rightarrow> access \<Rightarrow> api_key list" where
  "visible_keys env x = (case ctxUser (envCtx env) of
     Some u \<Rightarrow> if effective_role env \<noteq> RoleAdmin then keyListByOwner (acKeys x) (userID u) else keyList (acKeys x)
   | None \<Rightarrow> keyList (acKeys x))"

definition listAPIKeys :: "access_env \<Rightarrow> access \<Rightarrow> access \<times> key_response" where
  "listAPIKeys env x =
     (let keys = visible_keys env x; st = key_settings x
      in (fold (remind env st) (enumerate 0 keys) x, RespJSON 200 (PKeys (map (key_row_of st (envNow env)) keys))))"

definition revokeAPIKey :: "access_env \<Rightarrow> string \<Rightarrow> access \<Rightarrow> access \<times> key_response" where
  "revokeAPIKey env i x = (case keyGetByID (acKeys x) i of
     None \<Rightarrow> (x, not_found)
   | Some k \<Rightarrow>
       if (case ctxUser (envCtx env) of None \<Rightarrow> False
           | Some u \<Rightarrow> effective_role env \<noteq> RoleAdmin \<and> keyOwnerID k \<noteq> Some (userID u))
       then (x, writeErr 403 ''forbidden'' ''can only revoke your own keys'')
       else case keyRevoke (acKeys x) i of
         (s, Some e) \<Rightarrow> (x\<lparr>acKeys := s\<rparr>, if e = ErrKeyNotFound then not_found
             else RespErr 500 (Msg ''failed to revoke key'') (OfStore e))
       | (s, None) \<Rightarrow> (x\<lparr>acKeys := s\<rparr>, RespStatus 204))"

definition key_path :: "string \<Rightarrow> string" where
  "key_path path = trim_char CHR ''/'' (trim_prefix path ''/api/v1/auth/keys/'')"

definition handleAPIKeys :: "access_env \<Rightarrow> web_request \<Rightarrow> key_input option \<Rightarrow> access \<Rightarrow> access \<times> key_response" where
  "handleAPIKeys env rq body x =
     (if rqMethod rq = ''POST'' then createAPIKey env body x
      else if rqMethod rq = ''GET'' then listAPIKeys env x
      else (x, method_not_allowed))"

definition handleAPIKeyByID :: "access_env \<Rightarrow> web_request \<Rightarrow> access \<Rightarrow> access \<times> key_response" where
  "handleAPIKeyByID env rq x =
     (let i = key_path (rqPath rq) in
      if i = [] then (x, not_found)
      else if rqMethod rq = ''DELETE'' then revokeAPIKey env i x
      else (x, method_not_allowed))"

definition protectedAPIKeys :: "access_env \<Rightarrow> web_request \<Rightarrow> key_input option \<Rightarrow> access \<Rightarrow> access \<times> key_response" where
  "protectedAPIKeys env rq body x =
     (if rqMethod rq = ''POST'' then
        (if \<not> has_permission env x ResourceAPIKeys ActionCreate then (x, forbidden) else createAPIKey env body x)
      else if rqMethod rq = ''GET'' then
        (if \<not> has_permission env x ResourceAPIKeys ActionList \<and> \<not> has_permission env x ResourceAPIKeys ActionRead
         then (x, forbidden) else listAPIKeys env x)
      else (x, method_not_allowed))"

definition protectedAPIKeyByID :: "access_env \<Rightarrow> web_request \<Rightarrow> access \<Rightarrow> access \<times> key_response" where
  "protectedAPIKeyByID env rq x =
     (let i = key_path (rqPath rq) in
      if i = [] then (x, not_found)
      else if rqMethod rq = ''DELETE'' then
        (if \<not> has_permission env x ResourceAPIKeys ActionDelete then (x, forbidden) else revokeAPIKey env i x)
      else (x, method_not_allowed))"

subsection \<open>The audit listing\<close>

text \<open>\<open>parseInt\<close> accepts digits only and wraps.\<close>

definition parseInt :: "string \<Rightarrow> int option" where
  "parseInt s = (if s \<noteq> [] \<and> list_all is_digit s
     then Some (fold (\<lambda>c v. wrap64 (v * 10 + int (digit_val c))) s 0) else None)"

definition handleAuditList :: "access_env \<Rightarrow> web_request \<Rightarrow> audit_log \<Rightarrow> key_response" where
  "handleAuditList env rq l =
     (if rqMethod rq \<noteq> ''GET'' then method_not_allowed
      else
        let q = query_get (http_request.truncate rq);
            limit = (case parseInt (q ''limit'') of Some n \<Rightarrow> if n > 0 then n else 50 | None \<Rightarrow> 50);
            limit = (if limit > 1000 then 1000 else limit);
            offset = (case parseInt (q ''offset'') of Some n \<Rightarrow> if n \<ge> 0 then n else 0 | None \<Rightarrow> 0);
            time = (\<lambda>v. if v = [] then None else xeParseTime env v);
            opts = \<lparr>loLimit = limit, loOffset = offset, loActor = q ''actor'', loAction = q ''action'',
              loResourceType = q ''resource_type'', loResourceID = [], loSince = time (q ''since''), loUntil = time (q ''until'')\<rparr>
        in case auditList l opts of (events, total') \<Rightarrow>
             RespJSON 200 (PAudit \<lparr>apEvents = events, apTotal = total', apLimit = limit, apOffset = offset\<rparr>))"

end
