(* ===== verification/RoleHandlers.thy ===== *)
theory RoleHandlers
  imports KeyHandlers
begin

section \<open>Roles (internal/api/role\_handlers.go)\<close>

text \<open>
  The handlers of \<open>RoleServer\<close>. The role store asks the user store whether a role is in use; both are in
  the state, so the store is given the users of the moment.
\<close>

record role_input =
  riName :: string
  riDescription :: string
  riPermissions :: "string list"

datatype role_payload = PPermissions "permission_definition list" | PRoles "role_definition list" | PRole role_definition

type_synonym role_response = "role_payload http_response"

definition role_view :: "role_store \<Rightarrow> access \<Rightarrow> role_store" where
  "role_view rs x = rs\<lparr>rsUsers := map_option (\<lambda>_. acUsers x) (rsUsers rs)\<rparr>"

definition writeRoleErr :: "go_error \<Rightarrow> role_response" where
  "writeRoleErr e =
     (if errorsIs e ErrRoleNotFound then RespErr 404 (OfStore e) no_detail
      else if errorsIs e ErrRoleExists then RespErr 409 (OfStore e) no_detail
      else if errorsIs e ErrBuiltinRole \<or> errorsIs e ErrRoleInUse then RespErr 409 (OfStore e) no_detail
      else if errorsIs e ErrInvalidRole \<or> errorsIs e ErrInvalidPermission then RespErr 400 (OfStore e) no_detail
      else internal_error e)"

text \<open>Permissions without repetition, or the first text that names none.\<close>

fun decode_permissions :: "string list \<Rightarrow> permission list \<Rightarrow> string + permission list" where
  "decode_permissions [] perms = Inr perms"
| "decode_permissions (i # rest) perms = (case PermissionFromID i of (p, ok) \<Rightarrow>
     if \<not> ok then Inl i
     else if permString p \<in> set (map permString perms) then decode_permissions rest perms
     else decode_permissions rest (perms @ [p]))"

record decoded_role =
  drlName :: string
  drlDescription :: string
  drlPermissions :: "permission list"

definition decodeRoleInput :: "role_input option \<Rightarrow> bool \<Rightarrow> role_response + decoded_role" where
  "decodeRoleInput body requireName = (case body of
     None \<Rightarrow> Inl (writeErr 400 ''invalid json'' [])
   | Some raw \<Rightarrow>
      (let name = trimSpace (riName raw) in
       if requireName \<and> name = [] then Inl (writeErr 400 ''name is required'' [])
       else case decode_permissions (riPermissions raw) [] of
         Inl i \<Rightarrow> Inl (writeErr 400 ''invalid permission'' i)
       | Inr perms \<Rightarrow> Inr \<lparr>drlName = name, drlDescription = trimSpace (riDescription raw), drlPermissions = perms\<rparr>))"

definition log_role :: "access_env \<Rightarrow> string \<Rightarrow> role \<Rightarrow> int \<Rightarrow> access \<Rightarrow> access" where
  "log_role env action name status x = log_event env 0 (audit_actor (envCtx env)) action ''role'' name name status x"

definition listRoles :: "role_store \<Rightarrow> role_response" where
  "listRoles rs = RespJSON 200 (PRoles (ListRoles rs))"

definition getRole :: "role_store \<Rightarrow> role \<Rightarrow> role_response" where
  "getRole rs name = (case GetRole rs name of Inl e \<Rightarrow> writeRoleErr e | Inr d \<Rightarrow> RespJSON 200 (PRole d))"

definition createRole :: "access_env \<Rightarrow> role_store \<Rightarrow> role_input option \<Rightarrow> access \<Rightarrow> access \<times> role_response" where
  "createRole env rs body x = (case decodeRoleInput body True of
     Inl r \<Rightarrow> (x, r)
   | Inr inp \<Rightarrow>
      (let name = NormalizeRoleName (drlName inp);
           d = \<lparr>rdID = [], rdName = name, rdDescription = drlDescription inp, rdIsBuiltin = False,
             rdPermissions = drlPermissions inp, rdCreatedAt = zero_time, rdUpdatedAt = zero_time\<rparr>
       in case CreateRole (envNow env) rs (Some d) of
            (rs, Inl e) \<Rightarrow> (x\<lparr>acRoles := Some rs\<rparr>, writeRoleErr e)
          | (rs, Inr _) \<Rightarrow> (case GetRole rs name of
              Inl e \<Rightarrow> (x\<lparr>acRoles := Some rs\<rparr>, RespErr 500 (Msg ''failed to read created role'') (OfStore e))
            | Inr d \<Rightarrow> (log_role env ''create'' (rdName d) 201 (x\<lparr>acRoles := Some rs\<rparr>), RespJSON 201 (PRole d)))))"

definition updateRole :: "access_env \<Rightarrow> role_store \<Rightarrow> role_input option \<Rightarrow> role \<Rightarrow> access \<Rightarrow> access \<times> role_response" where
  "updateRole env rs body name x = (case decodeRoleInput body False of
     Inl r \<Rightarrow> (x, r)
   | Inr inp \<Rightarrow> (case UpdateRole (envNow env) rs name (drlDescription inp) (drlPermissions inp) of
       (rs, Inl e) \<Rightarrow> (x\<lparr>acRoles := Some rs\<rparr>, writeRoleErr e)
     | (rs, Inr d) \<Rightarrow> (log_role env ''update'' (rdName d) 200 (x\<lparr>acRoles := Some rs\<rparr>), RespJSON 200 (PRole d))))"

definition deleteRole :: "access_env \<Rightarrow> role_store \<Rightarrow> role \<Rightarrow> access \<Rightarrow> access \<times> role_response" where
  "deleteRole env rs name x = (case DeleteRole (role_view rs x) name of
     (_, Some e) \<Rightarrow> (x, writeRoleErr e)
   | (rs', None) \<Rightarrow> (log_role env ''delete'' name 204 (x\<lparr>acRoles := Some (rs\<lparr>rsRoles := rsRoles rs'\<rparr>)\<rparr>), RespStatus 204))"

definition settings_gate :: "access_env \<Rightarrow> access \<Rightarrow> string \<Rightarrow> role_response option" where
  "settings_gate env x action = RequirePermissionMiddleware (acRoles x) (envNow env) (envCtx env) ResourceSettings action"

definition gated :: "role_response option \<Rightarrow> (access \<Rightarrow> access \<times> role_response) \<Rightarrow> access \<Rightarrow> access \<times> role_response" where
  "gated g h x = (case g of Some r \<Rightarrow> (x, r) | None \<Rightarrow> h x)"

definition protectedRoles :: "access_env \<Rightarrow> role_store \<Rightarrow> web_request \<Rightarrow> role_input option \<Rightarrow> access \<Rightarrow> access \<times> role_response" where
  "protectedRoles env rs rq body x =
     (if rqMethod rq = ''GET'' then gated (settings_gate env x ActionRead) (\<lambda>x. (x, listRoles rs)) x
      else if rqMethod rq = ''POST'' then gated (settings_gate env x ActionWrite) (createRole env rs body) x
      else (x, method_not_allowed))"

definition protectedRoleByName :: "access_env \<Rightarrow> role_store \<Rightarrow> web_request \<Rightarrow> role_input option \<Rightarrow> access \<Rightarrow> access \<times> role_response" where
  "protectedRoleByName env rs rq body x =
     (let name = NormalizeRoleName (trim_char CHR ''/'' (trim_prefix (rqPath rq) ''/api/v1/auth/roles/'')) in
      if name = RoleNone then (x, not_found)
      else if rqMethod rq = ''GET'' then gated (settings_gate env x ActionRead) (\<lambda>x. (x, getRole rs name)) x
      else if rqMethod rq = ''PATCH'' then gated (settings_gate env x ActionWrite) (updateRole env rs body name) x
      else if rqMethod rq = ''DELETE'' then gated (settings_gate env x ActionWrite) (deleteRole env rs name) x
      else (x, method_not_allowed))"

definition protectedPermissions :: "access_env \<Rightarrow> access \<Rightarrow> access \<times> role_response" where
  "protectedPermissions env x =
     gated (settings_gate env x ActionRead) (\<lambda>x. (x, RespJSON 200 (PPermissions PermissionCatalog))) x"

end
