(* ===== verification/AccessFacts.thy ===== *)
theory AccessFacts
  imports RoleHandlers AuthStoreProps
begin

section \<open>Runs of the access-control handlers\<close>

text \<open>
  The handlers of users, keys, roles and settings as one step relation over the state \<open>access\<close>, and the
  invariant their runs keep: the stores and their indices agree, every stored session belongs to an
  existing active user, and the settings are within the bounds their handler checks.
\<close>

named_theorems access_simps \<open>what a handler's helper leaves alone\<close>

subsection \<open>Audit events change the audit log only\<close>

lemma log_event_fields [simp, access_simps]:
  "acKeys (log_event env k who a rt ri rn st x) = acKeys x"
  "acUsers (log_event env k who a rt ri rn st x) = acUsers x"
  "acSessions (log_event env k who a rt ri rn st x) = acSessions x"
  "acRoles (log_event env k who a rt ri rn st x) = acRoles x"
  "acSettings (log_event env k who a rt ri rn st x) = acSettings x"
  by (simp_all add: log_event_def Let_def split: option.split)

lemma logAuditEventAs_fields [simp, access_simps]:
  "acKeys (logAuditEventAs env k who a rt ri rn st x) = acKeys x"
  "acUsers (logAuditEventAs env k who a rt ri rn st x) = acUsers x"
  "acSessions (logAuditEventAs env k who a rt ri rn st x) = acSessions x"
  "acRoles (logAuditEventAs env k who a rt ri rn st x) = acRoles x"
  "acSettings (logAuditEventAs env k who a rt ri rn st x) = acSettings x"
  by (simp_all add: logAuditEventAs_def)

lemma logAuditEvent_fields [simp, access_simps]:
  "acKeys (logAuditEvent env k a rt ri rn st x) = acKeys x"
  "acUsers (logAuditEvent env k a rt ri rn st x) = acUsers x"
  "acSessions (logAuditEvent env k a rt ri rn st x) = acSessions x"
  "acRoles (logAuditEvent env k a rt ri rn st x) = acRoles x"
  "acSettings (logAuditEvent env k a rt ri rn st x) = acSettings x"
  by (simp_all add: logAuditEvent_def)

lemma logAPIKeyRotationDue_fields [simp, access_simps]:
  "acKeys (logAPIKeyRotationDue env i k n x) = acKeys x"
  "acUsers (logAPIKeyRotationDue env i k n x) = acUsers x"
  "acSessions (logAPIKeyRotationDue env i k n x) = acSessions x"
  "acRoles (logAPIKeyRotationDue env i k n x) = acRoles x"
  "acSettings (logAPIKeyRotationDue env i k n x) = acSettings x"
  by (simp_all add: logAPIKeyRotationDue_def Let_def split: option.split)

lemma remind_fields [simp, access_simps]:
  "acKeys (remind env st e x) = acKeys x" "acUsers (remind env st e x) = acUsers x"
  "acSessions (remind env st e x) = acSessions x" "acRoles (remind env st e x) = acRoles x"
  "acSettings (remind env st e x) = acSettings x"
  by (simp_all add: remind_def split: prod.split)

lemma fold_remind_fields [simp, access_simps]:
  "acKeys (fold (remind env st) es x) = acKeys x" "acUsers (fold (remind env st) es x) = acUsers x"
  "acSessions (fold (remind env st) es x) = acSessions x" "acRoles (fold (remind env st) es x) = acRoles x"
  "acSettings (fold (remind env st) es x) = acSettings x"
  by (induction es arbitrary: x) simp_all

subsection \<open>The settings stay in bounds\<close>

lemma first_some_None: "first_some f xs = None \<longleftrightarrow> (\<forall>x \<in> set xs. f x = None)"
  by (induction xs) (auto split: option.splits)

text \<open>What \<open>settings_error\<close> checks of the policy: no entry has an error, and no message is empty.\<close>

lemma scope_error_nonempty: "scope_error a b c = Some m \<Longrightarrow> m \<noteq> []"
  by (auto simp: scope_error_def split: if_splits)

lemma first_some_Some: "first_some f xs = Some y \<Longrightarrow> \<exists>x \<in> set xs. f x = Some y"
  by (induction xs) (auto split: option.splits)

lemma entry_scope_error_nonempty: "entry_scope_error e = Some m \<Longrightarrow> m \<noteq> []"
  by (auto simp: entry_scope_error_def split: prod.splits option.splits dest!: first_some_Some scope_error_nonempty)

lemma policy_ok_iff: "validateAPIKeyScopePolicy p = [] \<longleftrightarrow> (\<forall>e \<in> set (slice p). entry_scope_error e = None)"
proof -
  have "validateAPIKeyScopePolicy p = [] \<longleftrightarrow> first_some entry_scope_error (slice p) = None"
    by (auto simp: validateAPIKeyScopePolicy_def split: option.split dest!: first_some_Some entry_scope_error_nonempty)
  then show ?thesis by (simp add: first_some_None)
qed

lemma entry_scope_error_slice: "slice a = slice b \<Longrightarrow> entry_scope_error (r, a) = entry_scope_error (r, b)"
  by (simp add: entry_scope_error_def split: option.split)

lemma trim_graphic: "s \<noteq> [] \<Longrightarrow> list_all graphic s \<Longrightarrow> trimSpace s = s"
  by (rule trimSpace_graphic) (auto simp: list_all_iff)

lemma scope_trims:
  "trimSpace ''admin'' = ''admin''" "trimSpace ''operator'' = ''operator''" "trimSpace ''viewer'' = ''viewer''"
  "trimSpace ''auditor'' = ''auditor''" "trimSpace ''*'' = ''*''"
  "trimSpace ''pools:read'' = ''pools:read''" "trimSpace ''pools:write'' = ''pools:write''"
  "trimSpace ''accounts:read'' = ''accounts:read''" "trimSpace ''accounts:write'' = ''accounts:write''"
  "trimSpace ''keys:read'' = ''keys:read''" "trimSpace ''keys:write'' = ''keys:write''"
  "trimSpace ''discovery:read'' = ''discovery:read''" "trimSpace ''discovery:write'' = ''discovery:write''"
  "trimSpace ''audit:read'' = ''audit:read''"
  by (rule trim_graphic; code_simp)+

lemma default_levels:
  "scope_level ''*'' = 4" "scope_level ''pools:read'' = 2" "scope_level ''pools:write'' = 3"
  "scope_level ''accounts:read'' = 2" "scope_level ''accounts:write'' = 3" "scope_level ''keys:read'' = 2" 
  "scope_level ''keys:write'' = 3" "scope_level ''discovery:read'' = 2" "scope_level ''discovery:write'' = 3"
   "scope_level ''audit:read'' = 1"
  by (simp_all add: scope_level_def RoleLevel_scopes flags_level_def scope_flag_step_def scope_trims Let_def no_flags_def has_suffix_def trim_suffix_def managed_resource_def suffix_to_prefix)

lemma entry_ok:
  "policy_role r = Some role \<Longrightarrow> list_all IsValidAPIKeyScope scopes \<Longrightarrow> list_all (\<lambda>s. scope_level s \<le> RoleLevel role) scopes \<Longrightarrow>
     entry_scope_error (r, Some scopes) = None"
  by (auto simp: entry_scope_error_def first_some_None scope_error_def scope_level_def list_all_iff slice_def)

lemma default_policy_ok: "e \<in> set DefaultAPIKeyAllowedScopesByRole \<Longrightarrow> entry_scope_error e = None"
proof -
  have r: "policy_role ''admin'' = Some RoleAdmin" "policy_role ''operator'' = Some RoleOperator"
    "policy_role ''viewer'' = Some RoleViewer" "policy_role ''auditor'' = Some RoleAuditor"
    by (simp_all add: policy_role_def scope_trims)
  have l: "RoleLevel RoleAdmin = 4" "RoleLevel RoleOperator = 3" "RoleLevel RoleViewer = 2" "RoleLevel RoleAuditor = 1"
    by code_simp+
  have v: "list_all (\<lambda>e. list_all IsValidAPIKeyScope (slice (snd e))) DefaultAPIKeyAllowedScopesByRole" by code_simp
  show "e \<in> set DefaultAPIKeyAllowedScopesByRole \<Longrightarrow> entry_scope_error e = None"
    using v unfolding DefaultAPIKeyAllowedScopesByRole_def
    by (auto simp only: list.set list.pred_inject snd_conv slice_def option.case insert_iff empty_iff
        intro!: entry_ok[OF r(1)] entry_ok[OF r(2)] entry_ok[OF r(3)] entry_ok[OF r(4)])
      (simp_all add: l default_levels)
qed

lemma settings_error_None:
  "settings_error s = None \<longleftrightarrow>
     stSessionDurationHours s \<in> {1..720} \<and> stMaxSessionsPerUser s \<in> {1..100} \<and> stPasswordMinLength s \<in> {8..72}
     \<and> stPasswordMaxLength s \<in> {stPasswordMinLength s..72} \<and> stLoginRateLimitPerMin s \<in> {1..60}
     \<and> stAccountLockoutAttempts s \<in> {0..100} \<and> stAccountLockoutCooldownMinutes s \<in> {1..1440}
     \<and> stAPIKeyDefaultExpiryDays s \<in> {0..3650} \<and> stAPIKeyMaxLifetimeDays s \<in> {0..3650}
     \<and> \<not> (stAPIKeyMaxLifetimeDays s > 0 \<and> stAPIKeyDefaultExpiryDays s > stAPIKeyMaxLifetimeDays s)
     \<and> stAPIKeyRotationReminderDays s \<in> {0..365}
     \<and> (\<forall>e \<in> set (slice (stAPIKeyAllowedScopesByRole s)). entry_scope_error e = None)"
  unfolding settings_error_def policy_ok_iff[symmetric] by (auto simp: not_less)

definition same_numbers :: "security_settings \<Rightarrow> security_settings \<Rightarrow> bool" where
  "same_numbers s t \<longleftrightarrow> t\<lparr>stTrustedProxies := None, stAPIKeyAllowedScopesByRole := None\<rparr> =
     s\<lparr>stTrustedProxies := None, stAPIKeyAllowedScopesByRole := None\<rparr>"

lemma settings_error_mono:
  assumes "settings_error s = None" "same_numbers s t"
    "\<And>r a. (r, a) \<in> set (slice (stAPIKeyAllowedScopesByRole t)) \<Longrightarrow>
       (\<exists>b. (r, b) \<in> set (slice (stAPIKeyAllowedScopesByRole s)) \<union> set DefaultAPIKeyAllowedScopesByRole \<and> slice a = slice b)"
  shows "settings_error t = None"
proof -
  have "entry_scope_error e = None" if e: "e \<in> set (slice (stAPIKeyAllowedScopesByRole t))" for e
  proof -
    obtain r a where ra: "e = (r, a)" by (cases e)
    obtain b where b: "(r, b) \<in> set (slice (stAPIKeyAllowedScopesByRole s)) \<union> set DefaultAPIKeyAllowedScopesByRole"
      "slice a = slice b" using assms(3) e ra by blast
    have "entry_scope_error (r, b) = None" using b(1) assms(1) default_policy_ok unfolding settings_error_None by blast
    then show ?thesis using entry_scope_error_slice[OF b(2)] ra by simp
  qed
  then show ?thesis using assms(1,2) unfolding settings_error_None
    by (cases s; cases t) (simp add: same_numbers_def)
qed

lemma set_fold_gput: "set (fold (\<lambda>(r, a) out. gput r (f a) out) m out) \<subseteq> set out \<union> (\<lambda>(r, a). (r, f a)) ` set m"
proof (induction m arbitrary: out)
  case (Cons e m)
  obtain r a where e: "e = (r, a)" by (cases e)
  have "set (gput r (f a) out) \<subseteq> insert (r, f a) (set out)" by (induction out) auto
  with Cons.IH[of "gput r (f a) out"] show ?case by (auto simp: e)
qed simp

lemma slice_Some: "slice (Some a) = a" and slice_None: "slice None = []"
  by (simp_all add: slice_def)

lemma slice_append_nil: "slice (append_nil a) = slice a"
  by (cases a) (auto simp: slice_def append_nil_def split: list.split)

lemma clone_same: "same_numbers s (the (cloneSecuritySettings (Some s)))"
  by (simp add: same_numbers_def cloneSecuritySettings_def)

lemma clone_settings_ok: "settings_error s = None \<Longrightarrow> settings_error (the (cloneSecuritySettings (Some s))) = None"
proof (erule settings_error_mono)
  fix r a assume "(r, a) \<in> set (slice (stAPIKeyAllowedScopesByRole (the (cloneSecuritySettings (Some s)))))"
  then show "\<exists>b. (r, b) \<in> set (slice (stAPIKeyAllowedScopesByRole s)) \<union> set DefaultAPIKeyAllowedScopesByRole \<and> slice a = slice b"
    using subsetD[OF set_fold_gput[of append_nil "slice (stAPIKeyAllowedScopesByRole s)" "[]"], of "(r, a)"]
    by (cases "stAPIKeyAllowedScopesByRole s") (auto simp: cloneSecuritySettings_def slice_append_nil slice_Some slice_None)
qed (rule clone_same)

lemma set_default_policy_fold:
  "set (fold (\<lambda>(r, a) m. if map_of m r = None then gput r a m else m) ds m) \<subseteq> set m \<union> set ds"
proof (induction ds arbitrary: m)
  case (Cons e ds)
  obtain r a where e: "e = (r, a)" by (cases e)
  have "set (gput r a m) \<subseteq> insert (r, a) (set m)" by (induction m) auto
  with Cons.IH[of "gput r a m"] Cons.IH[of m] show ?case by (auto simp: e)
qed simp

lemma normalize_same: "settings_error s = None \<Longrightarrow> same_numbers s (NormalizeSecuritySettings (Some s))"
proof -
  assume "settings_error s = None"
  then have "\<not> stAccountLockoutCooldownMinutes s \<le> 0" "\<not> stAPIKeyRotationReminderDays s < 0"
    by (simp_all add: settings_error_None)
  then show ?thesis by (simp add: same_numbers_def NormalizeSecuritySettings_def Let_def split: option.split)
qed

lemma normalize_settings_ok: "settings_error s = None \<Longrightarrow> settings_error (NormalizeSecuritySettings (Some s)) = None"
proof -
  assume ok: "settings_error s = None"
  show ?thesis
  proof (rule settings_error_mono[OF ok normalize_same[OF ok]])
    fix r a assume "(r, a) \<in> set (slice (stAPIKeyAllowedScopesByRole (NormalizeSecuritySettings (Some s))))"
  then have "\<exists>m. m = slice (stAPIKeyAllowedScopesByRole s) \<and> (r, a) \<in> set DefaultAPIKeyAllowedScopesByRole \<union> set (normalize_policy m)"
    by (auto simp: NormalizeSecuritySettings_def Let_def slice_Some split: option.splits if_splits)
  then show "\<exists>b. (r, b) \<in> set (slice (stAPIKeyAllowedScopesByRole s)) \<union> set DefaultAPIKeyAllowedScopesByRole \<and> slice a = slice b"
    using set_default_policy_fold[of DefaultAPIKeyAllowedScopesByRole "slice (stAPIKeyAllowedScopesByRole s)"]
    by (auto simp: normalize_policy_def Let_def slice_Some slice_None split: if_splits)
  qed
qed

lemma default_settings_ok: "settings_error DefaultSecuritySettings = None"
  unfolding settings_error_None by (auto simp: DefaultSecuritySettings_def slice_Some default_policy_ok)

definition settings_ok :: "settings_store option \<Rightarrow> bool" where
  "settings_ok s \<longleftrightarrow> (case s of None \<Rightarrow> True
     | Some st \<Rightarrow> (case stoSecurity st of None \<Rightarrow> True | Some d \<Rightarrow> settings_error d = None))"

lemma GetSecuritySettings_ok: "settings_ok (Some st) \<Longrightarrow> settings_error (GetSecuritySettings st) = None"
proof -
  assume ok: "settings_ok (Some st)"
  show ?thesis
  proof (cases "stoSecurity st")
    case None
    then show ?thesis
      by (simp add: GetSecuritySettings_def cloneSecuritySettings_def NormalizeSecuritySettings_def default_settings_ok)
  next
    case (Some d)
    have "settings_error d = None" using ok Some by (simp add: settings_ok_def)
    then have "settings_error (the (cloneSecuritySettings (Some d))) = None" by (rule clone_settings_ok)
    then have "settings_error (NormalizeSecuritySettings (Some (the (cloneSecuritySettings (Some d))))) = None"
      by (rule normalize_settings_ok)
    then show ?thesis using Some by (simp add: GetSecuritySettings_def cloneSecuritySettings_def)
  qed
qed

lemma user_securitySettings_ok: "settings_ok (acSettings x) \<Longrightarrow> settings_error (user_securitySettings x) = None"
  by (auto simp: user_securitySettings_def default_settings_ok split: option.split
      intro!: normalize_settings_ok GetSecuritySettings_ok)

lemma same_numbers_trans: "same_numbers a b \<Longrightarrow> same_numbers b c \<Longrightarrow> same_numbers a c"
  by (simp add: same_numbers_def)

text \<open>What an update stores is read back, up to the policy's completion.\<close>

lemma updated_settings_numbers:
  assumes "settings_error s = None" "acSettings x = Some (UpdateSecuritySettings st (Some s))"
  shows "same_numbers s (user_securitySettings x)"
proof -
  define c where "c = (\<lambda>s. the (cloneSecuritySettings (Some s)))"
  define n where "n = (\<lambda>s. NormalizeSecuritySettings (Some s))"
  have step: "settings_error (n (c a)) = None \<and> same_numbers a (n (c a))" if "settings_error a = None" for a
    using clone_settings_ok[OF that] normalize_settings_ok[OF clone_settings_ok[OF that]]
      same_numbers_trans[OF clone_same normalize_same[OF clone_settings_ok[OF that]]] by (simp add: c_def n_def)
  have n: "settings_error (n a) = None \<and> same_numbers a (n a)" if "settings_error a = None" for a
    using normalize_settings_ok[OF that] normalize_same[OF that] by (simp add: n_def)
  have "user_securitySettings x = n (n (c (n (c s))))"
    by (simp add: user_securitySettings_def assms(2) UpdateSecuritySettings_def GetSecuritySettings_def c_def n_def cloneSecuritySettings_def)
  then show ?thesis using step[OF assms(1)] step[of "n (c s)"] n[of "n (c (n (c s)))"] by (metis same_numbers_trans)
qed

lemma UpdateSecuritySettings_ok: "settings_error s = None \<Longrightarrow> settings_ok (Some (UpdateSecuritySettings st (Some s)))"
  using normalize_settings_ok[OF clone_settings_ok[of s]]
  by (simp add: settings_ok_def UpdateSecuritySettings_def cloneSecuritySettings_def)

lemma NewMemorySettingsStore_ok: "settings_ok (Some NewMemorySettingsStore)"
  using clone_settings_ok[OF default_settings_ok]
  by (simp add: settings_ok_def NewMemorySettingsStore_def cloneSecuritySettings_def)

lemma handleUpdateSecuritySettings_ok:
  "settings_ok (Some (svStore sv)) \<Longrightarrow> settings_ok (Some (svStore (fst (handleUpdateSecuritySettings env body sv))))"
  by (auto simp: handleUpdateSecuritySettings_def Let_def split: option.split
      intro!: UpdateSecuritySettings_ok normalize_settings_ok)

lemma handleUpdateNetworkSchemaPolicy_ok:
  "settings_ok (Some (svStore sv)) \<Longrightarrow> settings_ok (Some (svStore (fst (handleUpdateNetworkSchemaPolicy env body sv))))"
  by (auto simp: handleUpdateNetworkSchemaPolicy_def Let_def settings_ok_def UpdateNetworkSchemaPolicy_def split: option.split)

subsection \<open>Sessions of active users\<close>

definition live :: "user_store \<Rightarrow> session_store \<Rightarrow> bool" where
  "live us ss \<longleftrightarrow> (\<forall>i ses. map_of (ssSessions ss) i = Some ses \<longrightarrow>
     (\<exists>u. map_of (usUsers us) (sesUserID ses) = Some u \<and> userIsActive u))"

lemma liveI:
  "(\<And>i ses. map_of (ssSessions ss) i = Some ses \<Longrightarrow> \<exists>u. map_of (usUsers us) (sesUserID ses) = Some u \<and> userIsActive u)
     \<Longrightarrow> live us ss"
  unfolding live_def by blast

lemma liveD:
  "live us ss \<Longrightarrow> map_of (ssSessions ss) i = Some ses \<Longrightarrow> \<exists>u. map_of (usUsers us) (sesUserID ses) = Some u \<and> userIsActive u"
  unfolding live_def by blast

lemma live_fewer:
  assumes "live us ss" "\<And>i ses. map_of (ssSessions ss') i = Some ses \<Longrightarrow> map_of (ssSessions ss) i = Some ses"
  shows "live us ss'"
  using assms unfolding live_def by blast

text \<open>Users that are active stay so.\<close>

lemma live_users:
  assumes "live us ss" "\<And>i u. map_of (usUsers us) i = Some u \<Longrightarrow> userIsActive u \<Longrightarrow> (\<exists>v. map_of (usUsers us') i = Some v \<and> userIsActive v)"
  shows "live us' ss"
  using assms unfolding live_def by blast

lemma live_create_user: "live us ss \<Longrightarrow> live (fst (userCreate us u)) ss"
  by (erule live_users) (auto simp: userCreate_def split: option.split)

lemma live_login: "live us ss \<Longrightarrow> live (fst (userUpdateLastLogin us i t)) ss"
  by (erule live_users) (auto simp: userUpdateLastLogin_def split: option.split)

lemma live_update:
  "live us ss \<Longrightarrow> (\<And>u0. map_of (usUsers us) (userID u) = Some u0 \<Longrightarrow> userIsActive u0 \<Longrightarrow> userIsActive u) \<Longrightarrow>
     live (fst (userUpdate us (Some u))) ss"
  by (erule live_users) (auto simp: userUpdate_def split: option.split)

lemma sessionDelete_map_of: "map_of (ssSessions (fst (sessionDelete ss i))) j = (if j = i \<and> i \<noteq> [] then None else map_of (ssSessions ss) j)"
  by (auto simp: sessionDelete_def split: option.split)

lemma live_delete_user:
  assumes "live us ss" "session_inv ss" "uid \<noteq> []"
    "\<And>i u. i \<noteq> uid \<Longrightarrow> map_of (usUsers us') i = map_of (usUsers us) i"
  shows "live us' (sessionDeleteByUserID ss uid)"
proof (rule liveI)
  fix i ses assume "map_of (ssSessions (sessionDeleteByUserID ss uid)) i = Some ses"
  then have "map_of (ssSessions ss) i = Some ses" "sesUserID ses \<noteq> uid"
    using sessionDeleteByUserID_map_of[OF assms(2,3), of i] by (auto split: option.splits if_splits)
  then show "\<exists>u. map_of (usUsers us') (sesUserID ses) = Some u \<and> userIsActive u"
    using liveD[OF assms(1)] assms(4) by simp
qed

subsection \<open>The invariant\<close>

definition access_inv :: "access \<Rightarrow> bool" where
  "access_inv x \<longleftrightarrow> key_inv (acKeys x) \<and> user_inv (acUsers x) \<and> session_inv (acSessions x)
     \<and> live (acUsers x) (acSessions x) \<and> settings_ok (acSettings x)"

lemma access_invI [intro]:
  "key_inv (acKeys x) \<Longrightarrow> user_inv (acUsers x) \<Longrightarrow> session_inv (acSessions x) \<Longrightarrow> live (acUsers x) (acSessions x)
     \<Longrightarrow> settings_ok (acSettings x) \<Longrightarrow> access_inv x"
  by (simp add: access_inv_def)

lemma access_invD:
  assumes "access_inv x"
  shows "key_inv (acKeys x)" "user_inv (acUsers x)" "session_inv (acSessions x)" "live (acUsers x) (acSessions x)"
    "settings_ok (acSettings x)"
  using assms by (simp_all add: access_inv_def)

lemma access_inv_cong:
  "acKeys y = acKeys x \<Longrightarrow> acUsers y = acUsers x \<Longrightarrow> acSessions y = acSessions x \<Longrightarrow> acSettings y = acSettings x
     \<Longrightarrow> access_inv y \<longleftrightarrow> access_inv x"
  by (simp add: access_inv_def)

lemma access_inv_log [simp]:
  "access_inv (log_event env k who a rt ri rn st x) \<longleftrightarrow> access_inv x"
  "access_inv (logAuditEventAs env k who a rt ri rn st x) \<longleftrightarrow> access_inv x"
  "access_inv (logAuditEvent env k a rt ri rn st x) \<longleftrightarrow> access_inv x"
  "access_inv (x\<lparr>acNeedsSetup := b\<rparr>) \<longleftrightarrow> access_inv x" "access_inv (x\<lparr>acRoles := r\<rparr>) \<longleftrightarrow> access_inv x"
  "access_inv (fold (remind env stt) es x) \<longleftrightarrow> access_inv x" "access_inv (log_role env a n st x) \<longleftrightarrow> access_inv x"
  by (rule access_inv_cong; simp add: log_role_def)+

lemma access_inv_users:
  "access_inv x \<Longrightarrow> user_inv us \<Longrightarrow> live us (acSessions x) \<Longrightarrow> access_inv (x\<lparr>acUsers := us\<rparr>)"
  by (simp add: access_inv_def)

lemma access_inv_sessions:
  "access_inv x \<Longrightarrow> session_inv ss \<Longrightarrow> live (acUsers x) ss \<Longrightarrow> access_inv (x\<lparr>acSessions := ss\<rparr>)"
  by (simp add: access_inv_def)

lemma user_known:
  assumes "access_inv x" "userGetByID (acUsers x) i = Some u"
  shows "map_of (usUsers (acUsers x)) i = Some u" "userID u = i" "i \<noteq> []"
  using assms by (auto simp: userGetByID_def access_inv_def user_inv_def split: if_splits)

lemma user_known_by_name:
  assumes "access_inv x" "userGetByUsername (acUsers x) n = Some u"
  shows "map_of (usUsers (acUsers x)) (userID u) = Some u" "userUsername u = n" "userID u \<noteq> []"
proof -
  have n: "n \<noteq> []" using assms(2) by (auto simp: userGetByUsername_def)
  have "userGetByID (acUsers x) (userID u) = Some u" "userUsername u = n"
    using userGetByUsername_iff[OF access_invD(2)[OF assms(1)] n] assms(2) by blast+
  then show "map_of (usUsers (acUsers x)) (userID u) = Some u" "userUsername u = n" "userID u \<noteq> []"
    using user_known[OF assms(1)] by blast+
qed

lemma update_user_store_inv:
  assumes "access_inv x" "\<And>u0. map_of (usUsers (acUsers x)) (userID u) = Some u0 \<Longrightarrow> userIsActive u0 \<Longrightarrow> userIsActive u"
  shows "access_inv (fst (update_user_store u x))"
proof -
  have "user_inv (fst (userUpdate (acUsers x) (Some u)))"
    using user_step_inv[OF user_step.update access_invD(2)[OF assms(1)]] .
  moreover have "live (fst (userUpdate (acUsers x) (Some u))) (acSessions x)"
    using live_update[OF access_invD(4)[OF assms(1)]] assms(2) by blast
  ultimately show ?thesis using access_inv_users[OF assms(1)]
    by (cases "userUpdate (acUsers x) (Some u)") (simp add: update_user_store_def)
qed

text \<open>An update under the stored name succeeds.\<close>

lemma userUpdate_ok:
  "map_of (usUsers us) (userID u) = Some u0 \<Longrightarrow> userUsername u0 = userUsername u \<Longrightarrow> userID u \<noteq> [] \<Longrightarrow>
     userUpdate us (Some u) = (us\<lparr>usUsers := gput (userID u) u (usUsers us)\<rparr>, None)"
  by (simp add: userUpdate_def)

lemma user_inv_update:
  assumes "user_inv us" "map_of (usUsers us) (userID u) = Some u0" "userUsername u0 = userUsername u" "userID u \<noteq> []"
  shows "user_inv (us\<lparr>usUsers := gput (userID u) u (usUsers us)\<rparr>)"
  using user_step_inv[OF user_step.update assms(1), of "Some u"] userUpdate_ok[OF assms(2-4)] by simp

lemma update_user_store_ok:
  "map_of (usUsers (acUsers x)) (userID u) = Some u0 \<Longrightarrow> userUsername u0 = userUsername u \<Longrightarrow> userID u \<noteq> [] \<Longrightarrow>
     update_user_store u x = (x\<lparr>acUsers := (acUsers x)\<lparr>usUsers := gput (userID u) u (usUsers (acUsers x))\<rparr>\<rparr>, None)"
  by (simp add: update_user_store_def userUpdate_ok)

lemma delete_each_facts:
  "session_inv s \<Longrightarrow> session_inv (fold (\<lambda>ses s. fst (sessionDelete s (sesID ses))) xs s)
    \<and> (\<forall>i ses. map_of (ssSessions (fold (\<lambda>ses s. fst (sessionDelete s (sesID ses))) xs s)) i = Some ses
         \<longrightarrow> map_of (ssSessions s) i = Some ses)"
proof (induction xs arbitrary: s)
  case (Cons y ys)
  have "map_of (ssSessions (fst (sessionDelete s (sesID y)))) i = Some z \<Longrightarrow> map_of (ssSessions s) i = Some z" for i z
    by (simp add: sessionDelete_map_of split: if_splits)
  with Cons.IH[OF session_inv_delete[OF Cons.prems], of "sesID y"] show ?case by simp
qed simp

lemma evict_sessions_facts:
  assumes "session_inv s"
  shows "session_inv (evict_sessions env n uid s)"
    "map_of (ssSessions (evict_sessions env n uid s)) i = Some ses \<Longrightarrow> map_of (ssSessions s) i = Some ses"
  using delete_each_facts[OF assms] assms
  by (simp_all only: evict_sessions_def Let_def split: if_splits) blast+

lemma grant_session_inv:
  assumes "access_inv x" "map_of (usUsers (acUsers x)) (userID u) = Some v" "userIsActive v"
  shows "access_inv (fst (grant_session env rq st u x))"
proof (cases "NewSession (envNow env) (xeSessionRnd env) (userID u) (userRole u) (hours (stSessionDurationHours st)) None")
  case None then show ?thesis using assms(1) by (simp add: grant_session_def Let_def)
next
  case (Some ses)
  obtain s e where c: "sessionCreate (acSessions x) (Some ses) = (s, e)" by force
  have uid: "sesUserID ses = userID u" using Some by (auto simp: NewSession_def Let_def split: option.splits)
  have inv: "session_inv s" using session_inv_create[OF access_invD(3)[OF assms(1)], of "Some ses"] c by simp
  have lv: "live (acUsers x) s"
  proof (rule liveI)
    fix i y assume "map_of (ssSessions s) i = Some y"
    then have "map_of (ssSessions (acSessions x)) i = Some y \<or> sesUserID y = userID u"
      using c uid by (auto simp: sessionCreate_def Let_def split: if_splits)
    then show "\<exists>u. map_of (usUsers (acUsers x)) (sesUserID y) = Some u \<and> userIsActive u"
      using liveD[OF access_invD(4)[OF assms(1)]] assms(2,3) by auto
  qed
  have ev: "session_inv (evict_sessions env n i s)" "live us s \<Longrightarrow> live us (evict_sessions env n i s)" for n i us
    using evict_sessions_facts[OF inv] by (blast intro: live_fewer)+
  have lg: "user_inv (fst (userUpdateLastLogin (acUsers x) i t))" "live (fst (userUpdateLastLogin (acUsers x) i t)) s" for i t
    using user_step_inv[OF user_step.login access_invD(2)[OF assms(1)]] live_login[OF lv] by blast+
  show ?thesis using Some c inv lv ev lg access_invD[OF assms(1)]
    by (auto simp: grant_session_def Let_def split: option.split)
qed

subsection \<open>Every handler keeps the invariant\<close>

lemma clearUserLockout_inv:
  assumes "access_inv x" "map_of (usUsers (acUsers x)) (userID u) = Some u"
  shows "access_inv (fst (clearUserLockout env u x))"
  unfolding clearUserLockout_def
  by (rule update_user_store_inv[OF assms(1)]) (use assms(2) in \<open>simp add: cleared_lockout_def\<close>)

lemma failed_login_fields [simp]:
  "userID (failed_login now st u) = userID u" "userUsername (failed_login now st u) = userUsername u"
  "userIsActive (failed_login now st u) = userIsActive u" "userPasswordHash (failed_login now st u) = userPasswordHash u"
  by (simp_all add: failed_login_def Let_def)

lemma cleared_lockout_fields [simp]:
  "userID (cleared_lockout now u) = userID u" "userUsername (cleared_lockout now u) = userUsername u"
  "userIsActive (cleared_lockout now u) = userIsActive u" "userPasswordHash (cleared_lockout now u) = userPasswordHash u"
  "userRole (cleared_lockout now u) = userRole u" "userFailedLoginAttempts (cleared_lockout now u) = 0"
  "userLockedAt (cleared_lockout now u) = None" "userLockoutUntil (cleared_lockout now u) = None"
  by (simp_all add: cleared_lockout_def)

lemma recordFailedLogin_inv:
  assumes "access_inv x" "userIsActive u"
  shows "access_inv (fst (recordFailedLogin env u st x))"
proof -
  obtain y e where y: "update_user_store (failed_login (envNow env) st u) x = (y, e)" by force
  have "access_inv y" using update_user_store_inv[OF assms(1), of "failed_login (envNow env) st u"] y assms(2) by simp
  then show ?thesis using y by (simp add: recordFailedLogin_def Let_def split: option.split)
qed

lemma login_user_inv:
  assumes "access_inv x" "map_of (usUsers (acUsers x)) (userID u) = Some u"
  shows "access_inv (fst (login_user env rq inp st u x))"
proof (cases "userIsActive u")
  case True
  have r: "access_inv (fst (recordFailedLogin env u st x))" using recordFailedLogin_inv[OF assms(1) True] .
  obtain y e where "recordFailedLogin env u st x = (y, e)" by force
  with r grant_session_inv[OF assms True] True show ?thesis
    by (simp add: login_user_def split: sum.split bool.split)
qed (use assms(1) in \<open>simp add: login_user_def\<close>)

lemma login_known_inv:
  assumes "access_inv x" "map_of (usUsers (acUsers x)) (userID u) = Some u" "userID u \<noteq> []"
  shows "access_inv (fst (login_known env rq inp st u x))"
proof (cases "\<not> still_locked (envNow env) u \<and> userLockedAt u \<noteq> None")
  case True
  define y where "y = logAuditEventAs env 0 (''system'', ActorTypeAnonymous) ActionAccountUnlocked ResourceUserName
    (userID u) (userUsername u) 200 (fst (clearUserLockout env u x))"
  have c: "clearUserLockout env u x = (fst (clearUserLockout env u x), None)"
    "map_of (usUsers (acUsers y)) (userID u) = Some (cleared_lockout (envNow env) u)"
    using update_user_store_ok[of x "cleared_lockout (envNow env) u" u] assms(2,3)
    by (simp_all add: clearUserLockout_def y_def)
  have "access_inv y" unfolding y_def using clearUserLockout_inv[OF assms(1,2)] by simp
  then have "access_inv (fst (login_user env rq inp st (cleared_lockout (envNow env) u) y))"
    by (rule login_user_inv) (use c(2) in simp)
  moreover have "login_known env rq inp st u x = login_user env rq inp st (cleared_lockout (envNow env) u) y"
    using True c(1) unfolding login_known_def y_def by (metis (no_types, lifting) case_prod_conv option.simps(4))
  ultimately show ?thesis by simp
next
  case False
  with assms login_user_inv[OF assms(1,2)] show ?thesis by (auto simp: login_known_def)
qed

lemma handleLogin_inv: "access_inv x \<Longrightarrow> access_inv (fst (handleLogin env rq body x))"
  using user_known_by_name login_known_inv
  by (auto simp: handleLogin_def Let_def split: option.split)

lemma handleLogout_inv: "access_inv x \<Longrightarrow> access_inv (fst (handleLogout env rq x))"
  by (auto simp: handleLogout_def Let_def sessionDelete_map_of split: option.split if_splits
      intro!: access_inv_sessions session_inv_delete dest: access_invD elim!: live_fewer)

lemma createUser_inv:
  assumes "access_inv x" shows "access_inv (fst (createUser env body x))"
proof -
  have "access_inv (x\<lparr>acUsers := s\<rparr>)" if "userCreate (acUsers x) u = (s, e)" for u s e
    using user_step_inv[OF user_step.create[of "acUsers x" u] access_invD(2)[OF assms]]
      live_create_user[OF access_invD(4)[OF assms], of u] that
    by (auto intro: access_inv_users[OF assms])
  then show ?thesis using assms
    by (auto simp: createUser_def Let_def split: option.split prod.split)
qed

text \<open>A user is replaced and its sessions end.\<close>

lemma drop_user_inv:
  assumes "access_inv x" "map_of (usUsers (acUsers x)) i = Some u" "userID v = i" "userUsername v = userUsername u" "i \<noteq> []"
  shows "access_inv (x\<lparr>acSessions := sessionDeleteByUserID (acSessions x) i,
    acUsers := (acUsers x)\<lparr>usUsers := gput i v (usUsers (acUsers x))\<rparr>\<rparr>)"
proof -
  have "user_inv ((acUsers x)\<lparr>usUsers := gput i v (usUsers (acUsers x))\<rparr>)"
    using user_inv_update[OF access_invD(2)[OF assms(1)], of v u] assms by simp
  then show ?thesis
    using assms session_inv_delete_user[OF access_invD(3)[OF assms(1)]] live_delete_user[OF access_invD(4,3)[OF assms(1)] assms(5)]
    by (auto simp: access_inv_def)
qed

lemma keep_user_inv:
  assumes "access_inv x" "map_of (usUsers (acUsers x)) i = Some u" "userID v = i" "userUsername v = userUsername u" "i \<noteq> []"
    "userIsActive u \<Longrightarrow> userIsActive v"
  shows "access_inv (x\<lparr>acUsers := (acUsers x)\<lparr>usUsers := gput i v (usUsers (acUsers x))\<rparr>\<rparr>)"
  using update_user_store_inv[OF assms(1), of v] update_user_store_ok[of x v u] assms by simp

lemma deactivateUser_inv:
  assumes "access_inv x" shows "access_inv (fst (deactivateUser env i x))"
proof (cases "userGetByID (acUsers x) i")
  case (Some u)
  define v where "v = u\<lparr>userIsActive := False, userUpdatedAt := envNow env\<rparr>"
  note k = user_known[OF assms Some]
  have "update_user_store v x = (x\<lparr>acUsers := (acUsers x)\<lparr>usUsers := gput i v (usUsers (acUsers x))\<rparr>\<rparr>, None)"
    using update_user_store_ok[of x v u] k by (simp add: v_def)
  then show ?thesis using Some k drop_user_inv[OF assms k(1), of v] by (simp add: deactivateUser_def v_def access_inv_def)
qed (use assms in \<open>simp add: deactivateUser_def\<close>)

lemma updated_profile_fields [simp]:
  "userID (updated_profile inp u) = userID u" "userUsername (updated_profile inp u) = userUsername u"
  "userIsActive (updated_profile inp u) = userIsActive u" "userRole (updated_profile inp u) = userRole u"
  "userPasswordHash (updated_profile inp u) = userPasswordHash u"
  by (simp_all add: updated_profile_def set_opt_def split: option.split)

lemma updated_access_fields [simp]:
  "userID (updated_access env inp role u) = userID u" "userUsername (updated_access env inp role u) = userUsername u"
  "userRole (updated_access env inp role u) = role"
  "userIsActive (updated_access env inp role u) = (case uuIsActive inp of None \<Rightarrow> userIsActive u | Some a \<Rightarrow> a)"
  by (simp_all add: updated_access_def set_opt_def split: option.split)

text \<open>The outcome of an update: the stored user is replaced by one with the same id and name, whose sessions
  end if the update deactivates it.\<close>

lemma updateUser_cases:
  assumes "access_inv x"
  obtains "fst (updateUser env body i x) = x" "\<nexists>p. snd (updateUser env body i x) = RespJSON 200 p"
  | u v inp where "userGetByID (acUsers x) i = Some u" "body = Some inp" "userID v = i" "userUsername v = userUsername u"
      "userIsActive v = (case uuIsActive inp of None \<Rightarrow> userIsActive u | Some a \<Rightarrow> a)"
      "fst (updateUser env body i x) = logAuditEvent env 0 ''update'' ResourceUserName i (userUsername u) 200
         ((if uuIsActive inp = Some False then x\<lparr>acSessions := sessionDeleteByUserID (acSessions x) i\<rparr> else x)
            \<lparr>acUsers := (acUsers x)\<lparr>usUsers := gput i v (usUsers (acUsers x))\<rparr>\<rparr>)"
proof (cases "\<exists>u inp role. userGetByID (acUsers x) i = Some u \<and> body = Some inp
    \<and> (case uuRole inp of None \<Rightarrow> Some (userRole u) | Some v \<Rightarrow> normalizeAndValidateRole x v False) = Some role")
  case False
  then have "fst (updateUser env body i x) = x \<and> (\<nexists>p. snd (updateUser env body i x) = RespJSON 200 p)"
    by (auto simp: updateUser_def Let_def user_not_found_def writeErr_def split: option.splits)
  then show ?thesis using that(1) by blast
next
  case True
  then obtain u inp role where u: "userGetByID (acUsers x) i = Some u" "body = Some inp"
    "(case uuRole inp of None \<Rightarrow> Some (userRole u) | Some v \<Rightarrow> normalizeAndValidateRole x v False) = Some role" by blast
  note k = user_known[OF assms u(1)]
  define v where "v = updated_access env inp role (updated_profile inp u)"
  define y where "y = (if uuIsActive inp = Some False then x\<lparr>acSessions := sessionDeleteByUserID (acSessions x) i\<rparr> else x)"
  have v: "userID v = i" "userUsername v = userUsername u"
    "userIsActive v = (case uuIsActive inp of None \<Rightarrow> userIsActive u | Some a \<Rightarrow> a)"
    using k by (simp_all add: v_def split: option.split)
  have yu: "acUsers y = acUsers x" by (simp add: y_def)
  have up: "update_user_store v y = (y\<lparr>acUsers := (acUsers x)\<lparr>usUsers := gput i v (usUsers (acUsers x))\<rparr>\<rparr>, None)"
    using update_user_store_ok[of y v u] k v yu by simp
  have "fst (updateUser env body i x) = logAuditEvent env 0 ''update'' ResourceUserName i (userUsername u) 200
      (y\<lparr>acUsers := (acUsers x)\<lparr>usUsers := gput i v (usUsers (acUsers x))\<rparr>\<rparr>)"
    using u up v k by (simp add: updateUser_def Let_def v_def[symmetric] y_def[symmetric] cong: option.case_cong if_cong split del: if_split)
  then show ?thesis using that(2)[OF u(1,2) v] unfolding y_def by blast
qed

lemma updateUser_inv:
  assumes "access_inv x" shows "access_inv (fst (updateUser env body i x))"
proof (cases rule: updateUser_cases[OF assms, of env body i])
  case (2 u v inp)
  note k = user_known[OF assms 2(1)]
  show ?thesis
  proof (cases "uuIsActive inp = Some False")
    case True
    then show ?thesis using drop_user_inv[OF assms k(1) 2(3,4) k(3)] 2(6) by simp
  next
    case False
    then have "userIsActive u \<Longrightarrow> userIsActive v" using 2(5) by (auto split: option.splits)
    then show ?thesis using keep_user_inv[OF assms k(1) 2(3,4) k(3)] 2(6) False by simp
  qed
qed (use assms in simp)

lemma changePassword_inv:
  assumes "access_inv x" shows "access_inv (fst (changePassword env body i x))"
proof -
  have up: "access_inv y" if "userGetByID (acUsers x) i = Some u"
    "update_user_store (u\<lparr>userPasswordHash := h, userUpdatedAt := t\<rparr>) x = (y, e)" for u h t y e
  proof -
    note k = user_known[OF assms that(1)]
    have "access_inv (fst (update_user_store (u\<lparr>userPasswordHash := h, userUpdatedAt := t\<rparr>) x))"
      by (rule update_user_store_inv[OF assms]) (use k in simp)
    then show ?thesis using that(2) by simp
  qed
  show ?thesis using assms up by (auto simp: changePassword_def Let_def split: option.split prod.split)
qed

lemma handleRevokeSessions_inv: "access_inv x \<Longrightarrow> access_inv (fst (handleRevokeSessions env i x))"
proof -
  assume inv: "access_inv x"
  have "access_inv (x\<lparr>acSessions := sessionDeleteByUserID (acSessions x) i\<rparr>)"
  proof (cases "i = []")
    case False
    then show ?thesis using inv live_delete_user[OF access_invD(4,3)[OF inv] False, of "acUsers x"]
      by (auto intro: access_inv_sessions session_inv_delete_user access_invD)
  qed (use inv in \<open>simp add: sessionDeleteByUserID_def\<close>)
  then show ?thesis using inv by (simp add: handleRevokeSessions_def)
qed

lemma handleUnlockUser_inv: "access_inv x \<Longrightarrow> access_inv (fst (handleUnlockUser env i x))"
proof -
  assume inv: "access_inv x"
  have "access_inv y" if "userGetByID (acUsers x) i = Some u" "clearUserLockout env u x = (y, e)" for u y e
    using clearUserLockout_inv[OF inv, of u env] user_known[OF inv that(1)] that(2) by simp
  then show ?thesis using inv by (auto simp: handleUnlockUser_def split: option.split prod.split)
qed

lemma with_gate_inv: "access_inv x \<Longrightarrow> access_inv (fst (h x)) \<Longrightarrow> access_inv (fst (with_gate g h x))"
  by (simp add: with_gate_def split: option.split)

lemma user_by_id_inv: "access_inv x \<Longrightarrow> access_inv (fst (user_by_id gate env rq b x))"
  by (auto simp: user_by_id_def split: prod.split intro!: with_gate_inv changePassword_inv handleRevokeSessions_inv
      handleUnlockUser_inv updateUser_inv deactivateUser_inv)

lemma handleUsers_inv: "access_inv x \<Longrightarrow> access_inv (fst (handleUsers env rq b x))"
  by (simp add: handleUsers_def createUser_inv)

lemma protectedUsers_inv: "access_inv x \<Longrightarrow> access_inv (fst (protectedUsers env rq b x))"
  by (auto simp: protectedUsers_def intro!: with_gate_inv createUser_inv)

lemma handleSetup_inv:
  assumes "access_inv x" shows "access_inv (fst (handleSetup env rq body x))"
proof -
  have c: "access_inv (x\<lparr>acUsers := s\<rparr>)" if "userCreate (acUsers x) u = (s, e)" for u s e
    using user_step_inv[OF user_step.create[of "acUsers x" u] access_invD(2)[OF assms]]
      live_create_user[OF access_invD(4)[OF assms], of u] that
    by (auto intro: access_inv_users[OF assms])
  then show ?thesis using assms
    by (auto simp: handleSetup_def Let_def access_inv_def split: option.split prod.split)
qed

subsection \<open>Keys\<close>

definition fresh_key_id :: "access_env \<Rightarrow> access \<Rightarrow> bool" where
  "fresh_key_id env x \<longleftrightarrow> (case generateUUID (xeIDRnd env) of None \<Rightarrow> True | Some i \<Rightarrow> keyGetByID (acKeys x) i = None)"

lemma access_inv_keys: "access_inv x \<Longrightarrow> key_inv ks \<Longrightarrow> access_inv (x\<lparr>acKeys := ks\<rparr>)"
  by (simp add: access_inv_def)

text \<open>The record that \<open>createAPIKey\<close> stores, and the outcome of storing it.\<close>

lemma issue_key_cases:
  obtains e where "issue_key env inp t x = (x, e)" "\<not> (\<exists>a. e = RespJSON 201 (PKey a))"
  | pt k g where "GenerateAPIKey (xeKeyHash env) (envNow env) (xeKeyRnd env) (xeSaltRnd env) (xeIDRnd env)
        \<lparr>koName = kiName inp, koScopes = kiScopes inp, koExpiresAt = t\<rparr> = Inr (pt, g)"
      "k = (case ctxUser (envCtx env) of None \<Rightarrow> g | Some u \<Rightarrow> g\<lparr>keyOwnerID := Some (userID u)\<rparr>)"
      "fst (issue_key env inp t x) = x\<lparr>acKeys := fst (keyCreate (acKeys x) (Some k))\<rparr>"
      "snd (issue_key env inp t x) = RespJSON 201 (PKey (key_answer pt k)) \<longleftrightarrow> snd (keyCreate (acKeys x) (Some k)) = None"
      "(\<exists>a. snd (issue_key env inp t x) = RespJSON 201 (PKey a)) \<longleftrightarrow> snd (keyCreate (acKeys x) (Some k)) = None"
proof (cases "GenerateAPIKey (xeKeyHash env) (envNow env) (xeKeyRnd env) (xeSaltRnd env) (xeIDRnd env)
    \<lparr>koName = kiName inp, koScopes = kiScopes inp, koExpiresAt = t\<rparr>")
  case (Inl e)
  then show ?thesis using that(1) by (simp add: issue_key_def)
next
  case (Inr r)
  obtain pt g where r: "r = (pt, g)" by (cases r)
  define k where "k = (case ctxUser (envCtx env) of None \<Rightarrow> g | Some u \<Rightarrow> g\<lparr>keyOwnerID := Some (userID u)\<rparr>)"
  obtain s e where c: "keyCreate (acKeys x) (Some k) = (s, e)" by force
  have "issue_key env inp t x = (x\<lparr>acKeys := s\<rparr>, case e of None \<Rightarrow> RespJSON 201 (PKey (key_answer pt k))
      | Some e \<Rightarrow> RespErr 500 (Msg ''failed to store key'') (OfStore e))"
    using Inr r c by (simp add: issue_key_def Let_def k_def[symmetric] split: option.split)
  then show ?thesis using that(2)[OF Inr[unfolded r] k_def] c by (auto split: option.splits)
qed

lemma issue_key_inv:
  assumes "access_inv x" "fresh_key_id env x" shows "access_inv (fst (issue_key env inp t x))"
proof (cases rule: issue_key_cases[of env inp t x])
  case (2 pt k g)
  have "keyID k = keyID g" using 2(2) by (simp split: option.splits)
  moreover have "generateUUID (xeIDRnd env) = Some (keyID g)" by (rule GenerateAPIKey_Inr[OF 2(1)]) simp
  ultimately have "keyGetByID (acKeys x) (keyID k) = None" using assms(2) by (simp add: fresh_key_id_def)
  then have "key_inv (fst (keyCreate (acKeys x) (Some k)))"
    using key_step_inv[OF key_step.create] access_invD(1)[OF assms(1)] by blast
  then show ?thesis using access_inv_keys[OF assms(1)] 2(3) by simp
qed (use assms in simp)

lemma createAPIKey_inv: "access_inv x \<Longrightarrow> fresh_key_id env x \<Longrightarrow> access_inv (fst (createAPIKey env body x))"
  by (simp add: createAPIKey_def Let_def issue_key_inv split: option.split sum.split)

lemma revokeAPIKey_inv:
  assumes "access_inv x" shows "access_inv (fst (revokeAPIKey env i x))"
proof -
  have "access_inv (x\<lparr>acKeys := s\<rparr>)" if "keyRevoke (acKeys x) i = (s, e)" for s e
    using access_inv_keys[OF assms key_step_inv[OF key_step.revoke[of "acKeys x" i] access_invD(1)[OF assms]]] that by simp
  then show ?thesis using assms by (simp add: revokeAPIKey_def split: option.split prod.split)
qed

lemma listAPIKeys_inv: "access_inv x \<Longrightarrow> access_inv (fst (listAPIKeys env x))"
  by (simp add: listAPIKeys_def Let_def)

lemma handleAPIKeys_inv: "access_inv x \<Longrightarrow> fresh_key_id env x \<Longrightarrow> access_inv (fst (handleAPIKeys env rq body x))"
  by (simp add: handleAPIKeys_def createAPIKey_inv listAPIKeys_inv)

lemma handleAPIKeyByID_inv: "access_inv x \<Longrightarrow> access_inv (fst (handleAPIKeyByID env rq x))"
  by (simp add: handleAPIKeyByID_def Let_def revokeAPIKey_inv)

lemma protectedAPIKeys_inv: "access_inv x \<Longrightarrow> fresh_key_id env x \<Longrightarrow> access_inv (fst (protectedAPIKeys env rq body x))"
  by (simp add: protectedAPIKeys_def createAPIKey_inv listAPIKeys_inv)

lemma protectedAPIKeyByID_inv: "access_inv x \<Longrightarrow> access_inv (fst (protectedAPIKeyByID env rq x))"
  by (simp add: protectedAPIKeyByID_def Let_def revokeAPIKey_inv)

subsection \<open>Roles\<close>

lemma gated_inv: "access_inv x \<Longrightarrow> access_inv (fst (h x)) \<Longrightarrow> access_inv (fst (gated g h x))"
  by (simp add: gated_def split: option.split)

lemma createRole_inv: "access_inv x \<Longrightarrow> access_inv (fst (createRole env rs body x))"
  by (simp add: createRole_def Let_def split: sum.split prod.split)

lemma updateRole_inv: "access_inv x \<Longrightarrow> access_inv (fst (updateRole env rs body n x))"
  by (simp add: updateRole_def Let_def split: sum.split prod.split)

lemma deleteRole_inv: "access_inv x \<Longrightarrow> access_inv (fst (deleteRole env rs n x))"
  by (simp add: deleteRole_def Let_def split: sum.split prod.split option.split)

lemma protectedRoles_inv: "access_inv x \<Longrightarrow> access_inv (fst (protectedRoles env rs rq body x))"
  by (simp add: protectedRoles_def gated_inv createRole_inv)

lemma protectedRoleByName_inv: "access_inv x \<Longrightarrow> access_inv (fst (protectedRoleByName env rs rq body x))"
  by (simp add: protectedRoleByName_def Let_def gated_inv updateRole_inv deleteRole_inv)

end
