(* ===== verification/AccessProps.thy ===== *)
theory AccessProps
  imports AccessFacts
begin

section \<open>Properties of access control\<close>

text \<open>
  The reachable states of the access-control handlers, and what they promise: whom the middleware
  lets in, when a login is granted, what ends a session or a key, and the bounds of the settings.
\<close>

subsection \<open>Runs\<close>

definition settings_server :: "settings_store \<Rightarrow> access \<Rightarrow> settings_store server" where
  "settings_server st x = \<lparr>svStore = st, svAudit = acAudit x\<rparr>"

definition with_settings :: "access \<Rightarrow> settings_store server \<Rightarrow> access" where
  "with_settings x sv = x\<lparr>acSettings := Some (svStore sv), acAudit := svAudit sv\<rparr>"

text \<open>One request, one tick of the session cleanup, or one mark of a key as used. The id of a new key is fresh:
  it is a random UUID.\<close>

inductive access_step :: "access \<Rightarrow> access \<Rightarrow> bool" where
  signin: "access_step x (fst (handleLogin env rq lb x))"
| signout: "access_step x (fst (handleLogout env rq x))"
| users: "access_step x (fst (handleUsers env rq ub x))"
| guarded_users: "access_step x (fst (protectedUsers env rq ub x))"
| user: "access_step x (fst (handleUserByID env rq ub x))"
| guarded_user: "access_step x (fst (protectedUserByID env rq ub x))"
| first_user: "access_step x (fst (handleSetup env rq sb x))"
| keys: "fresh_key_id env x \<Longrightarrow> access_step x (fst (handleAPIKeys env rq kb x))"
| guarded_keys: "fresh_key_id env x \<Longrightarrow> access_step x (fst (protectedAPIKeys env rq kb x))"
| key: "access_step x (fst (handleAPIKeyByID env rq x))"
| guarded_key: "access_step x (fst (protectedAPIKeyByID env rq x))"
| roles: "acRoles x = Some rs \<Longrightarrow> access_step x (fst (protectedRoles env rs rq rb x))"
| role: "acRoles x = Some rs \<Longrightarrow> access_step x (fst (protectedRoleByName env rs rq rb x))"
| settings: "acSettings x = Some st \<Longrightarrow>
    access_step x (with_settings x (fst (handleUpdateSecuritySettings renv tb (settings_server st x))))"
| policy: "acSettings x = Some st \<Longrightarrow>
    access_step x (with_settings x (fst (handleUpdateNetworkSchemaPolicy renv pb (settings_server st x))))"
| cleanup: "access_step x (x\<lparr>acSessions := fst (sessionCleanup now (acSessions x))\<rparr>)"
| used: "access_step x (x\<lparr>acKeys := fst (keyUpdateLastUsed (acKeys x) kid now)\<rparr>)"

definition access_start :: "access \<Rightarrow> bool" where
  "access_start x \<longleftrightarrow> acKeys x = NewMemoryKeyStore \<and> acUsers x = NewMemoryUserStore
     \<and> acSessions x = NewMemorySessionStore \<and> (acSettings x = None \<or> acSettings x = Some NewMemorySettingsStore)"

inductive access_reachable :: "access \<Rightarrow> bool" where
  start: "access_start x \<Longrightarrow> access_reachable x"
| step: "access_reachable x \<Longrightarrow> access_step x y \<Longrightarrow> access_reachable y"

lemma access_start_inv: "access_start x \<Longrightarrow> access_inv x"
  by (auto simp: access_start_def access_inv_def key_inv_new user_inv_new session_inv_new NewMemorySettingsStore_ok
      settings_ok_def[of None] intro: liveI) (simp add: live_def NewMemorySessionStore_def)+

lemma access_step_inv: "access_step x y \<Longrightarrow> access_inv x \<Longrightarrow> access_inv y"
proof (induction rule: access_step.induct)
  case (settings x st renv tb)
  have "settings_ok (Some (svStore (fst (handleUpdateSecuritySettings renv tb (settings_server st x)))))"
    by (rule handleUpdateSecuritySettings_ok) (use settings access_invD(5)[of x] in \<open>simp add: settings_server_def\<close>)
  then show ?case using settings.prems by (simp add: access_inv_def with_settings_def)
next
  case (policy x st renv pb)
  have "settings_ok (Some (svStore (fst (handleUpdateNetworkSchemaPolicy renv pb (settings_server st x)))))"
    by (rule handleUpdateNetworkSchemaPolicy_ok) (use policy access_invD(5)[of x] in \<open>simp add: settings_server_def\<close>)
  then show ?case using policy.prems by (simp add: access_inv_def with_settings_def)
next
  case (cleanup x now)
  note e = sessionCleanup_effect[OF access_invD(3)[OF cleanup.prems], of now]
  show ?case
    by (rule access_inv_sessions[OF cleanup.prems e(1)], rule live_fewer[OF access_invD(4)[OF cleanup.prems]])
      (simp add: e(2) split: option.splits if_splits)
next
  case (used x kid now)
  then show ?case using key_step_inv[OF key_step.touch] access_invD(1) by (auto intro: access_inv_keys)
qed (simp_all add: handleLogin_inv handleLogout_inv handleUsers_inv protectedUsers_inv handleUserByID_def
    protectedUserByID_def user_by_id_inv handleSetup_inv handleAPIKeys_inv protectedAPIKeys_inv handleAPIKeyByID_inv
    protectedAPIKeyByID_inv protectedRoles_inv protectedRoleByName_inv)

lemma access_reachable_inv: "access_reachable x \<Longrightarrow> access_inv x"
  by (induction rule: access_reachable.induct) (auto intro: access_start_inv access_step_inv)

subsection \<open>A run to try the properties on\<close>

definition demo_digest :: "string \<Rightarrow> AuthStores.bytes" where
  "demo_digest p = map (\<lambda>c. of_nat (of_char c)) p"

definition demo_access_env :: "go_time \<Rightarrow> auth_ctx \<Rightarrow> access_env" where
  "demo_access_env t c = \<lparr>envNow = t, envRoles = None, envCtx = c, envRequestID = [], envEventID = (\<lambda>_. []),
     xeUUID = ''u1'', xeHashPassword = (\<lambda>p. Some (demo_digest p)), xeCompare = (\<lambda>h p. h = demo_digest p),
     xeSessionRnd = Some [7], xeOrd = id, xeKeyHash = demo_hash, xeKeyRnd = Some (replicate KeyBytes 5), xeSaltRnd = Some [],
     xeIDRnd = Some (replicate 16 2), xeFormatTime = (\<lambda>_. []), xeParseTime = (\<lambda>_. None)\<rparr>"

definition demo_web :: "string \<Rightarrow> string \<Rightarrow> string option \<Rightarrow> string \<Rightarrow> web_request" where
  "demo_web m path ck bearer = \<lparr>rqMethod = m, rqPath = path, rqQuery = [], wrAuthorization = bearer, wrSession = ck,
     wrCSRFCookie = None, wrCSRFHeader = [], wrRequestID = [], wrRemoteAddr = [], wrForwardedFor = [], wrForwardedProto = [],
     wrTLS = True\<rparr>"

definition demo_access0 :: access where
  "demo_access0 = \<lparr>acKeys = NewMemoryKeyStore, acUsers = NewMemoryUserStore, acSessions = NewMemorySessionStore,
     acRoles = None, acSettings = None, acAudit = None, acNeedsSetup = True\<rparr>"

definition demo_access1 :: access where
  "demo_access1 = fst (handleSetup (demo_access_env 10 anonymous) (demo_web ''POST'' ''/'' None [])
     (Some \<lparr>suUsername = ''root'', suPassword = ''correct-horse'', suEmail = ''r@x''\<rparr>) demo_access0)"

definition demo_access2 :: access where
  "demo_access2 = fst (handleLogin (demo_access_env 20 anonymous) (demo_web ''POST'' ''/'' None [])
     (Some \<lparr>liUsername = ''root'', liPassword = ''correct-horse''\<rparr>) demo_access1)"

definition demo_root :: user where
  "demo_root = \<lparr>userID = ''u1'', userUsername = ''root'', userEmail = ''r@x'', userDisplayName = ''root'', userRole = RoleAdmin,
     userPasswordHash = Some (demo_digest ''correct-horse''), userIsActive = True, userCreatedAt = 10, userUpdatedAt = 10,
     userLastLoginAt = None, userFailedLoginAttempts = 0, userLastFailedLoginAt = None, userLockedAt = None,
     userLockoutUntil = None, userAuthProvider = [], userOIDCSubject = [], userOIDCIssuer = []\<rparr>"

lemma demo_trims: "trimSpace ''root'' = ''root''" "trimSpace ''r@x'' = ''r@x''"
  by (rule trim_graphic; code_simp)+

lemma demo_access1_eq:
  "demo_access1 = demo_access0\<lparr>acUsers := \<lparr>usUsers = [(''u1'', demo_root)], usUsernameIndex = [(''root'', ''u1'')]\<rparr>, acNeedsSetup := False\<rparr>"
  by (simp add: demo_access1_def handleSetup_def demo_access0_def demo_web_def demo_trims ValidatePassword_def DefaultMinPasswordLength_def
      MaxPasswordLength_def Let_def userList_def NewMemoryUserStore_def demo_access_env_def userCreate_def log_event_def demo_root_def)

definition demo_session2 :: session where
  "demo_session2 = \<lparr>sesID = ''07'', sesUserID = ''u1'', sesRole = RoleAdmin, sesCreatedAt = 20, sesExpiresAt = 20 + hours 24, sesMetadata = None\<rparr>"

lemma demo_hex: "hex_encode [7] = ''07''" by code_simp

lemma demo_login:
  "handleLogin (demo_access_env 20 anonymous) (demo_web ''POST'' ''/'' None [])
     (Some \<lparr>liUsername = ''root'', liPassword = ''correct-horse''\<rparr>) demo_access1 =
   (demo_access1\<lparr>acSessions := \<lparr>ssSessions = [(''07'', demo_session2)], ssUserIndex = [(''u1'', [''07''])]\<rparr>,
      acUsers := \<lparr>usUsers = [(''u1'', demo_root\<lparr>userLastLoginAt := Some 20\<rparr>)], usUsernameIndex = [(''root'', ''u1'')]\<rparr>\<rparr>,
    RespJSON 200 (PLogin (json_user demo_root) (20 + hours 24) (permissionStrings (GetPermissionsContext None 20 anonymous RoleAdmin))),
    Some \<lparr>ckValue = ''07'', ckSecure = True, ckStrict = True, ckMaxAge = 86400\<rparr>)"
  by (simp add: handleLogin_def demo_web_def demo_trims demo_access1_eq demo_access0_def userGetByUsername_def login_known_def
      still_locked_def demo_root_def login_user_def VerifyPassword_def slice_Some demo_access_env_def grant_session_def Let_def
      user_securitySettings_def DefaultSecuritySettings_def NewSession_def demo_hex hours_def sessionCreate_def
      NewMemorySessionStore_def copySession_def cloneStringStringMap_def evict_sessions_def sessionListByUserID_def
      userUpdateLastLogin_def logAuditEvent_def logAuditEventAs_def log_event_def demo_session2_def gget_def session_cookie_def secure_request_def)

lemma demo_access2_eq:
  "demo_access2 = demo_access1\<lparr>acSessions := \<lparr>ssSessions = [(''07'', demo_session2)], ssUserIndex = [(''u1'', [''07''])]\<rparr>,
      acUsers := \<lparr>usUsers = [(''u1'', demo_root\<lparr>userLastLoginAt := Some 20\<rparr>)], usUsernameIndex = [(''root'', ''u1'')]\<rparr>\<rparr>"
  unfolding demo_access2_def demo_login by simp

lemma demo_access_reachable: "access_reachable demo_access0" "access_reachable demo_access1" "access_reachable demo_access2"
proof -
  show 0: "access_reachable demo_access0" by (rule access_reachable.start) (simp add: access_start_def demo_access0_def)
  show 1: "access_reachable demo_access1" unfolding demo_access1_def by (rule access_reachable.step[OF 0 access_step.first_user])
  show "access_reachable demo_access2" unfolding demo_access2_def by (rule access_reachable.step[OF 1 access_step.signin])
qed

subsection \<open>What the middleware admits\<close>

lemma api_key_of_Inr:
  assumes "api_key_of hash now keys token = Inr k"
  obtains pre where "ParseAPIKeyPrefix token = Inr pre" "keyGetByPrefix keys pre = Some k" "\<not> keyRevoked k"
    "\<not> keyIsExpired now k" "hash token (slice (keySalt k)) = slice (keyHash k)"
  using assms by (auto simp: api_key_of_def ValidateAPIKey_def split: sum.splits option.splits if_splits)

lemma cookie_session_Some:
  assumes "cookie_session now sessions r = Some ses" "session_inv sessions"
  shows "wrSession r = Some (sesID ses)" "sessionIsValid now ses"
    "\<exists>y. map_of (ssSessions sessions) (sesID ses) = Some y \<and> sesUserID y = sesUserID ses"
proof -
  obtain v y where v: "wrSession r = Some v" "map_of (ssSessions sessions) v = Some y" "ses = copySession y"
    "sessionIsValid now ses"
    using assms(1) by (auto simp: cookie_session_def sessionGet_def split: option.splits if_splits sum.splits)
  moreover have "sesID y = v" using session_invD(3)[OF assms(2) v(2)] by blast
  ultimately show "wrSession r = Some (sesID ses)" "sessionIsValid now ses"
    "\<exists>y. map_of (ssSessions sessions) (sesID ses) = Some y \<and> sesUserID y = sesUserID ses" by auto
qed

lemma cookie_auth_Inr:
  assumes "cookie_auth required now r sessions users cache = (cache', Inr (c, used))"
  obtains "c = anonymous" "\<not> required" "used = None" "cookie_session now sessions r = None"
  | ses where "cookie_session now sessions r = Some ses" "used = None"
      "c = session_ctx ses (userGetByID users (sesUserID ses))"
  using assms by (auto simp: cookie_auth_def session_auth_def Let_def split: option.splits if_splits)

lemma DualAuth_Inr:
  assumes "DualAuthMiddleware hash required now r keys sessions users cache =
    (cache', Inr (c, used) :: 'a http_response + authenticated)"
  obtains "c = anonymous" "\<not> required" "used = None"
  | ses where "cookie_session now sessions r = Some ses" "used = None"
      "c = session_ctx ses (userGetByID users (sesUserID ses))"
  | token k where "token = trimSpace (trim_prefix (wrAuthorization r) ''Bearer '')" "prefix ''Bearer '' (wrAuthorization r)"
      "api_key_of hash now keys token = (Inr k :: 'a http_response + api_key)"
      "c = anonymous\<lparr>ctxAPIKey := Some k\<rparr>" "used = Some (keyID k)"
  using assms
  by (auto simp: DualAuthMiddleware_def Let_def split: if_splits sum.splits elim: cookie_auth_Inr)


definition demo_cookie_request :: web_request where
  "demo_cookie_request = demo_web ''GET'' ''/api/v1/pools'' (Some ''07'') []"

lemma demo_admitted:
  "DualAuthMiddleware demo_hash True 30 demo_cookie_request (acKeys demo_access2) (acSessions demo_access2) (acUsers demo_access2) []
     = ([(''u1'', (True, 30))], Inr (session_ctx demo_session2 (Some (demo_root\<lparr>userLastLoginAt := Some 20\<rparr>)), None)
          :: 'a http_response + authenticated)"
  by (simp add: DualAuthMiddleware_def demo_cookie_request_def demo_web_def cookie_auth_def cookie_session_def sessionGet_def demo_access2_eq
      demo_session2_def sessionIsExpired_def sessionIsValid_def copySession_def cloneStringStringMap_def hours_def session_auth_def
      cache_check_def userGetByID_def cache_set_def demo_root_def Let_def)


subsection \<open>What ends a session or a key\<close>

definition session_of_request :: "hash_fn \<Rightarrow> bool \<Rightarrow> go_time \<Rightarrow> web_request \<Rightarrow> active_cache \<Rightarrow> access \<Rightarrow> session option" where
  "session_of_request hash required now r cache x =
     (case snd (DualAuthMiddleware hash required now r (acKeys x) (acSessions x) (acUsers x) cache
              :: active_cache \<times> (unit http_response + authenticated)) of
        Inl e \<Rightarrow> None | Inr a \<Rightarrow> ctxSession (fst a))"

definition key_of_request :: "hash_fn \<Rightarrow> bool \<Rightarrow> go_time \<Rightarrow> web_request \<Rightarrow> active_cache \<Rightarrow> access \<Rightarrow> api_key option" where
  "key_of_request hash required now r cache x =
     (case snd (DualAuthMiddleware hash required now r (acKeys x) (acSessions x) (acUsers x) cache
              :: active_cache \<times> (unit http_response + authenticated)) of
        Inl e \<Rightarrow> None | Inr a \<Rightarrow> ctxAPIKey (fst a))"

lemma session_of_request_stored:
  assumes "session_inv (acSessions x)" "session_of_request hash required now r cache x = Some ses"
  shows "\<exists>y. map_of (ssSessions (acSessions x)) (sesID ses) = Some y \<and> sesUserID y = sesUserID ses"
proof -
  obtain cache' c used where a: "DualAuthMiddleware hash required now r (acKeys x) (acSessions x) (acUsers x) cache
      = (cache', Inr (c, used) :: unit http_response + authenticated)" and c: "ctxSession c = Some ses"
    using assms(2) by (auto simp: session_of_request_def split: sum.splits) (metis prod.collapse)
  from a show ?thesis
  proof (cases rule: DualAuth_Inr)
    case (2 s)
    then show ?thesis using cookie_session_Some(3)[OF 2(1) assms(1)] c by (simp add: session_ctx_def)
  qed (use c in \<open>simp_all add: anonymous_def\<close>)
qed

lemma key_of_request_valid:
  assumes "key_of_request hash required now r cache x = Some k"
  shows "\<exists>pre. keyGetByPrefix (acKeys x) pre = Some k \<and> \<not> keyRevoked k"
proof -
  obtain cache' c used where a: "DualAuthMiddleware hash required now r (acKeys x) (acSessions x) (acUsers x) cache
      = (cache', Inr (c, used) :: unit http_response + authenticated)" and c: "ctxAPIKey c = Some k"
    using assms by (auto simp: key_of_request_def split: sum.splits) (metis prod.collapse)
  from a show ?thesis
  proof (cases rule: DualAuth_Inr)
    case (3 token k')
    then show ?thesis using c by (auto simp: anonymous_def elim: api_key_of_Inr)
  qed (use c in \<open>simp_all add: anonymous_def session_ctx_def\<close>)
qed

lemma no_sessions_of:
  assumes "access_inv x" "i \<noteq> []" "acSessions y = sessionDeleteByUserID (acSessions x) i"
    "session_of_request hash required now r cache y = Some ses"
  shows "sesUserID ses \<noteq> i"
proof -
  have inv: "session_inv (acSessions x)" "session_inv (acSessions y)"
    using access_invD(3)[OF assms(1)] session_inv_delete_user assms(3) by auto
  show ?thesis using session_of_request_stored[OF inv(2) assms(4)]
      sessionDeleteByUserID_map_of[OF inv(1) assms(2), of "sesID ses"] assms(3)
    by (auto split: option.splits if_splits)
qed

lemma logout_ends:
  assumes "access_inv x" "ctxSession (envCtx env) = Some s" "rqMethod rq = ''POST''"
    "session_of_request hash required now r cache (fst (handleLogout env rq x)) = Some ses"
  shows "sesID ses \<noteq> sesID s"
proof
  assume e: "sesID ses = sesID s"
  have ss: "acSessions (fst (handleLogout env rq x)) = fst (sessionDelete (acSessions x) (sesID s))"
    using assms(2,3) by (simp add: handleLogout_def Let_def)
  then have "session_inv (acSessions (fst (handleLogout env rq x)))"
    using session_inv_delete access_invD(3)[OF assms(1)] by simp
  from session_of_request_stored[OF this assms(4)] this e ss show False
    by (auto simp: sessionDelete_map_of dest: session_invD(3) split: if_splits)
qed

lemma revoke_ends:
  assumes "access_inv x" "i \<noteq> []" "snd (handleRevokeSessions env i x) = RespJSON 200 (PDone ''sessions revoked'')"
    "session_of_request hash required now r cache (fst (handleRevokeSessions env i x)) = Some ses"
  shows "sesUserID ses \<noteq> i"
  by (rule no_sessions_of[OF assms(1,2) _ assms(4)])
    (use assms(3) in \<open>auto simp: handleRevokeSessions_def writeErr_def split: if_splits\<close>)

lemma deactivate_ends:
  assumes "access_inv x" "snd (deactivateUser env i x) = RespStatus 204"
    "session_of_request hash required now r cache (fst (deactivateUser env i x)) = Some ses"
  shows "sesUserID ses \<noteq> i"
proof -
  obtain u where u: "userGetByID (acUsers x) i = Some u"
    using assms(2) by (cases "userGetByID (acUsers x) i") (simp_all add: deactivateUser_def user_not_found_def writeErr_def)
  note k = user_known[OF assms(1) u]
  have "acSessions (fst (deactivateUser env i x)) = sessionDeleteByUserID (acSessions x) i"
    using u k update_user_store_ok[of x "u\<lparr>userIsActive := False, userUpdatedAt := envNow env\<rparr>" u]
    by (simp add: deactivateUser_def)
  from no_sessions_of[OF assms(1) k(3) this assms(3)] show ?thesis .
qed

lemma set_inactive_ends:
  assumes "access_inv x" "uuIsActive inp = Some False" "snd (updateUser env (Some inp) i x) = RespJSON 200 p"
    "session_of_request hash required now r cache (fst (updateUser env (Some inp) i x)) = Some ses"
  shows "sesUserID ses \<noteq> i"
proof (cases rule: updateUser_cases[OF assms(1), of env "Some inp" i])
  case (2 u v inp')
  then have "acSessions (fst (updateUser env (Some inp) i x)) = sessionDeleteByUserID (acSessions x) i"
    using assms(2) by simp
  from no_sessions_of[OF assms(1) user_known(3)[OF assms(1) 2(1)] this assms(4)] show ?thesis .
qed (use assms(3) in blast)

lemma revokeAPIKey_effect:
  assumes "snd (revokeAPIKey env i x) = RespStatus 204"
  shows "acKeys (fst (revokeAPIKey env i x)) = fst (keyRevoke (acKeys x) i)" "keyGetByID (acKeys x) i \<noteq> None"
  using assms by (cases "map_of (ksKeys (acKeys x)) i";
      simp add: revokeAPIKey_def keyRevoke_def keyGetByID_def not_found_def writeErr_def split: if_splits)+

lemma key_revoke_ends:
  assumes "access_inv x" "snd (revokeAPIKey env i x) = RespStatus 204"
    "key_of_request hash required now r cache (fst (revokeAPIKey env i x)) = Some k"
  shows "keyID k \<noteq> i"
proof
  assume e: "keyID k = i"
  note y = revokeAPIKey_effect[OF assms(2)]
  have "key_inv (fst (keyRevoke (acKeys x) i))"
    by (rule key_step_inv[OF key_step.revoke access_invD(1)[OF assms(1)]])
  from keyGetByPrefix_iff[OF this] key_of_request_valid[OF assms(3)] y e
  have "keyGetByID (fst (keyRevoke (acKeys x) i)) i = Some k" "\<not> keyRevoked k" by auto
  then show False using y(2) by (auto simp: keyRevoke_def keyGetByID_def split: option.splits)
qed



subsection \<open>Granting a session\<close>

lemma session_ids:
  assumes "session_inv s"
  shows "distinct (map sesID (sessionListByUserID now s uid))"
    "set (map sesID (sessionListByUserID now s uid)) =
       {i. \<exists>y. map_of (ssSessions s) i = Some y \<and> sesUserID y = uid \<and> sessionIsValid now y}"
proof -
  define es where "es = filter (\<lambda>(i, y). sesUserID y = uid \<and> sessionIsValid now y) (ssSessions s)"
  have "concat (map (\<lambda>(_, y). if sesUserID y = uid \<and> sessionIsValid now y then [copySession y] else []) m)
      = map (\<lambda>(i, y). copySession y) (filter (\<lambda>(i, y). sesUserID y = uid \<and> sessionIsValid now y) m)" for m :: "(string, session) gomap"
    by (induction m) (auto split: if_splits)
  then have l: "sessionListByUserID now s uid = map (\<lambda>(i, y). copySession y) es"
    unfolding sessionListByUserID_def es_def by simp
  have fst: "map sesID (sessionListByUserID now s uid) = map fst es"
    unfolding l using session_invD(1,3)[OF assms] by (auto simp: es_def gmap_mem_iff)
  have "distinct (map fst es)"
    using session_invD(1)[OF assms] unfolding es_def gmap_ok_def by (simp add: distinct_map_filter)
  then show "distinct (map sesID (sessionListByUserID now s uid))" unfolding fst .
  show "set (map sesID (sessionListByUserID now s uid)) =
       {i. \<exists>y. map_of (ssSessions s) i = Some y \<and> sesUserID y = uid \<and> sessionIsValid now y}"
    unfolding fst es_def using gmap_mem_iff[OF session_invD(1)[OF assms]] by force
qed

lemma delete_each_map_of:
  "map_of (ssSessions (fold (\<lambda>ses s. fst (sessionDelete s (sesID ses))) xs s)) i =
     (if i \<in> sesID ` set xs \<and> i \<noteq> [] then None else map_of (ssSessions s) i)"
  by (induction xs arbitrary: s) (auto simp: sessionDelete_map_of)

lemma evict_sessions_bound:
  assumes "session_inv s" "\<And>l. mset (xeOrd env l) = mset l" "0 \<le> n"
  shows "int (length (sessionListByUserID (envNow env) (evict_sessions env n uid s) uid)) \<le> n"
proof -
  define l where "l = sessionListByUserID (envNow env) s uid"
  define d where "d = take (nat (int (length l) - n)) (sort_key sesCreatedAt (xeOrd env l))"
  define t where "t = evict_sessions env n uid s"
  show ?thesis
  proof (cases "int (length l) > n")
    case True
    have t: "t = fold (\<lambda>ses s. fst (sessionDelete s (sesID ses))) d s"
      using True by (simp add: t_def evict_sessions_def Let_def l_def[symmetric] d_def[symmetric])
    have inv: "session_inv t" unfolding t_def by (rule evict_sessions_facts(1)[OF assms(1)])
    have m: "mset (sort_key sesCreatedAt (xeOrd env l)) = mset l" by (simp add: assms(2))
    have set: "set d \<subseteq> set l" using set_take_subset mset_eq_setD[OF m] unfolding d_def by metis
    have "mset (map sesID (sort_key sesCreatedAt (xeOrd env l))) = mset (map sesID l)"
      unfolding mset_map m ..
    then have "distinct (map sesID (sort_key sesCreatedAt (xeOrd env l)))"
      using session_ids(1)[OF assms(1), of "envNow env" uid] mset_eq_imp_distinct_iff unfolding l_def[symmetric] by blast
    then have dd: "distinct (map sesID d)" unfolding d_def take_map[symmetric] by (rule distinct_take)
    have len: "length d = nat (int (length l) - n)"
      using mset_eq_length[OF m] assms(3) unfolding d_def by simp
    have "set (map sesID (sessionListByUserID (envNow env) t uid)) = set (map sesID l) - set (map sesID d)"
      unfolding session_ids(2)[OF inv] session_ids(2)[OF assms(1), of "envNow env" uid, folded l_def]
      unfolding t delete_each_map_of
      by (auto simp: sessionIsValid_def dest: session_invD(3)[OF assms(1)] split: if_splits)
    moreover have "card (set (map sesID l) - set (map sesID d)) = length l - length d"
      using card_Diff_subset[of "set (map sesID d)" "set (map sesID l)"] set dd session_ids(1)[OF assms(1), of "envNow env" uid]
      by (simp add: l_def[symmetric] image_mono distinct_card distinct_map card_image)
    ultimately have "length (sessionListByUserID (envNow env) t uid) = length l - length d"
      using distinct_card[OF session_ids(1)[OF inv]] by (metis length_map)
    then show ?thesis using len True assms(3) unfolding t_def by simp
  qed (simp add: evict_sessions_def Let_def l_def)
qed

text \<open>A session opened after all the others of its user is not among the oldest.\<close>

lemma newest_kept:
  assumes "sorted (map f xs)" "distinct xs" "\<And>z. z \<in> set xs \<Longrightarrow> z \<noteq> y \<Longrightarrow> f z < f y" "n < length xs"
  shows "y \<notin> set (take n xs)"
proof
  assume y: "y \<in> set (take n xs)"
  obtain z where z: "z \<in> set (drop n xs)" using assms(4) by (cases "drop n xs") auto
  have "set (take n xs) \<inter> set (drop n xs) = {}" using assms(2) by (rule set_take_disj_set_drop_if_distinct) simp
  then have ne: "z \<noteq> y" using y z by blast
  have "sorted (map f (take n xs) @ map f (drop n xs))"
    using assms(1) unfolding map_append[symmetric] append_take_drop_id .
  then have "f y \<le> f z" using y z unfolding sorted_append by simp
  then show False using assms(3)[OF in_set_dropD[OF z] ne] by simp
qed

lemma session_list_mem:
  assumes "session_inv s"
  shows "z \<in> set (sessionListByUserID now s uid) \<longleftrightarrow>
    (\<exists>y. map_of (ssSessions s) (sesID z) = Some y \<and> z = copySession y \<and> sesUserID y = uid \<and> sessionIsValid now y)"
proof -
  have "z \<in> set (sessionListByUserID now s uid) \<longleftrightarrow>
      (\<exists>i y. map_of (ssSessions s) i = Some y \<and> z = copySession y \<and> sesUserID y = uid \<and> sessionIsValid now y)"
    unfolding sessionListByUserID_def using gmap_mem_iff[OF session_invD(1)[OF assms]] by (fastforce split: if_splits)
  moreover have "sesID (copySession y) = i" if "map_of (ssSessions s) i = Some y" for i y
    using session_invD(3)[OF assms that] by simp
  ultimately show ?thesis by blast
qed

lemma evict_keeps_newest:
  assumes "session_inv s" "\<And>l. mset (xeOrd env l) = mset l" "1 \<le> n" "map_of (ssSessions s) i = Some y"
    "\<And>j z. map_of (ssSessions s) j = Some z \<Longrightarrow> sesUserID z = uid \<Longrightarrow> j \<noteq> i \<Longrightarrow> sesCreatedAt z < sesCreatedAt y"
  shows "map_of (ssSessions (evict_sessions env n uid s)) i = Some y"
proof -
  define l where "l = sessionListByUserID (envNow env) s uid"
  define xs where "xs = sort_key sesCreatedAt (xeOrd env l)"
  define m where "m = nat (int (length l) - n)"
  have ms: "mset xs = mset l" by (simp add: xs_def assms(2))
  then have set: "set xs = set l" and len: "length xs = length l" by (auto dest: mset_eq_setD mset_eq_length)
  have mem: "z \<in> set l \<Longrightarrow> \<exists>z'. map_of (ssSessions s) (sesID z) = Some z' \<and> z = copySession z' \<and> sesUserID z' = uid" for z
    unfolding l_def session_list_mem[OF assms(1)] by blast
  have "i \<notin> sesID ` set (take m xs)" if big: "n < int (length l)"
  proof
    assume "i \<in> sesID ` set (take m xs)"
    then obtain w where w: "w \<in> set (take m xs)" "sesID w = i" by blast
    have wl: "w \<in> set l" using w(1) set in_set_takeD by metis
    then have wy: "w = copySession y" using mem[OF wl] w(2) assms(4) by simp
    have "distinct l" using session_ids(1)[OF assms(1)] unfolding l_def by (metis distinct_map)
    then have dx: "distinct xs" using ms mset_eq_imp_distinct_iff by blast
    have "w \<notin> set (take m xs)"
    proof (rule newest_kept[where f = sesCreatedAt and xs = xs])
      show "sorted (map sesCreatedAt xs)" by (simp add: xs_def)
      show "m < length xs" using big assms(3) len by (simp add: m_def)
      fix z assume z: "z \<in> set xs" "z \<noteq> w"
      obtain z' where z': "map_of (ssSessions s) (sesID z) = Some z'" "z = copySession z'" "sesUserID z' = uid"
        using mem z(1) set by blast
      have "sesID z \<noteq> i" using z(2) z'(1,2) assms(4) wy by auto
      from assms(5)[OF z'(1,3) this] show "sesCreatedAt z < sesCreatedAt w"
        using z'(2) wy by (simp add: copySession_def)
    qed (rule dx)
    then show False using w(1) by simp
  qed
  then show ?thesis using assms(4)
    by (simp add: evict_sessions_def Let_def l_def[symmetric] xs_def[symmetric] m_def[symmetric] delete_each_map_of)
qed

text \<open>The session that \<open>grant_session\<close> opens.\<close>

lemma grant_session_200:
  assumes "session_inv (acSessions x)" "\<And>l. mset (xeOrd env l) = mset l" "settings_error st = None"
    "grant_session env rq st u x = (y, RespJSON 200 p, ck)" "map_of (usUsers (acUsers x)) (userID u) = Some v"
  obtains ses where "ck = Some (session_cookie rq (sesID ses) (hours (stSessionDurationHours st) div 1000000000))"
    "sesUserID ses = userID u" "sesRole ses = userRole u" "sesCreatedAt ses = envNow env"
    "sesExpiresAt ses = envNow env + hours (stSessionDurationHours st)" "map_of (ssSessions (acSessions x)) (sesID ses) = None"
    "int (length (sessionListByUserID (envNow env) (acSessions y) (userID u))) \<le> stMaxSessionsPerUser st"
    "(\<forall>i z. map_of (ssSessions (acSessions x)) i = Some z \<longrightarrow> sesUserID z = userID u \<longrightarrow> sesCreatedAt z < envNow env) \<longrightarrow>
       map_of (ssSessions (acSessions y)) (sesID ses) = Some ses"
    "acUsers y = fst (userUpdateLastLogin (acUsers x) (userID u) (envNow env))"
proof -
  have st: "1 \<le> stSessionDurationHours st" "1 \<le> stMaxSessionsPerUser st" using assms(3) unfolding settings_error_None by auto
  have dur: "\<not> hours (stSessionDurationHours st) \<le> 0" using st(1) by (simp add: hours_def)
  obtain ses where new: "NewSession (envNow env) (xeSessionRnd env) (userID u) (userRole u) (hours (stSessionDurationHours st)) None = Some ses"
    using assms(4) by (cases "NewSession (envNow env) (xeSessionRnd env) (userID u) (userRole u) (hours (stSessionDurationHours st)) None")
      (simp_all add: grant_session_def Let_def writeErr_def)
  have f: "sesUserID ses = userID u" "sesRole ses = userRole u" "sesCreatedAt ses = envNow env"
    "sesExpiresAt ses = envNow env + hours (stSessionDurationHours st)" "copySession ses = ses"
    using new dur by (auto simp: NewSession_def Let_def copySession_def cloneStringStringMap_def split: option.splits)
  obtain s where c: "sessionCreate (acSessions x) (Some ses) = (s, None)"
    using assms(4) new by (cases "sessionCreate (acSessions x) (Some ses)") (auto simp: grant_session_def Let_def split: option.splits)
  have y: "ck = Some (session_cookie rq (sesID ses) (hours (stSessionDurationHours st) div 1000000000))"
    "acSessions y = evict_sessions env (stMaxSessionsPerUser st) (userID u) s"
    "acUsers y = fst (userUpdateLastLogin (acUsers x) (userID u) (envNow env))"
    using assms(4) new c by (auto simp: grant_session_def Let_def)
  have s: "map_of (ssSessions s) = (map_of (ssSessions (acSessions x)))(sesID ses \<mapsto> ses)" "map_of (ssSessions (acSessions x)) (sesID ses) = None"
    using c f by (auto simp: sessionCreate_def Let_def split: if_splits)
  have inv: "session_inv s" using session_inv_create[OF assms(1), of "Some ses"] c by simp
  show ?thesis
  proof (rule that[OF y(1) f(1-4) s(2) _ _ y(3)])
    show "int (length (sessionListByUserID (envNow env) (acSessions y) (userID u))) \<le> stMaxSessionsPerUser st"
      unfolding y(2) using evict_sessions_bound[OF inv assms(2)] st(2) by simp
    show "(\<forall>i z. map_of (ssSessions (acSessions x)) i = Some z \<longrightarrow> sesUserID z = userID u \<longrightarrow> sesCreatedAt z < envNow env) \<longrightarrow>
       map_of (ssSessions (acSessions y)) (sesID ses) = Some ses"
      unfolding y(2) by (rule impI, rule evict_keeps_newest[OF inv assms(2) st(2)]) (use s f in \<open>auto split: if_splits\<close>)
  qed
qed

lemma recordFailedLogin_not_200:
  "(case recordFailedLogin env u st x of
      (x, Inl e) \<Rightarrow> (x, RespErr 500 (Msg ''failed to record login failure'') (OfStore e), None)
    | (x, Inr True) \<Rightarrow> (x, writeErr 423 ''account locked'' ''too many failed login attempts'', None)
    | (x, Inr False) \<Rightarrow> (x, writeErr 401 ''invalid credentials'' [], None)) \<noteq> (y, RespJSON 200 p, ck)"
  by (auto simp: writeErr_def split: prod.split sum.split bool.split)

lemma login_user_200:
  assumes "login_user env rq inp st u x = (y, RespJSON 200 p, ck)"
  shows "userIsActive u" "xeCompare env (slice (userPasswordHash u)) (liPassword inp)"
    "grant_session env rq st u x = (y, RespJSON 200 p, ck)"
proof -
  have a: "userIsActive u" using assms by (rule contrapos_pp) (simp add: login_user_def writeErr_def)
  have c: "VerifyPassword (xeCompare env) (liPassword inp) (slice (userPasswordHash u)) = None"
    using assms by (rule contrapos_pp) (use a recordFailedLogin_not_200 in \<open>simp add: login_user_def\<close>)
  show "userIsActive u" by (rule a)
  show "xeCompare env (slice (userPasswordHash u)) (liPassword inp)" using c by (simp add: VerifyPassword_def split: if_splits)
  show "grant_session env rq st u x = (y, RespJSON 200 p, ck)" using assms a c by (simp add: login_user_def)
qed

text \<open>Before the password is looked at, the account is unlocked if its time is over.\<close>

lemma login_known_200:
  assumes "login_known env rq inp st u x = (y, RespJSON 200 p, ck)" "map_of (usUsers (acUsers x)) (userID u) = Some u" "userID u \<noteq> []"
  obtains v z where "\<not> still_locked (envNow env) u" "v = u \<or> v = cleared_lockout (envNow env) u"
    "acSessions z = acSessions x" "map_of (usUsers (acUsers z)) (userID u) = Some v"
    "login_user env rq inp st v z = (y, RespJSON 200 p, ck)"
proof -
  have nl: "\<not> still_locked (envNow env) u" using assms(1) by (rule contrapos_pn) (simp add: login_known_def)
  show ?thesis
  proof (cases "userLockedAt u = None")
    case True
    then show ?thesis using that[OF nl, of u x] assms nl by (simp add: login_known_def)
  next
    case False
    define z where "z = logAuditEventAs env 0 (''system'', ActorTypeAnonymous) ActionAccountUnlocked ResourceUserName
      (userID u) (userUsername u) 200 (fst (clearUserLockout env u x))"
    have c: "clearUserLockout env u x = (fst (clearUserLockout env u x), None)"
      "map_of (usUsers (acUsers z)) (userID u) = Some (cleared_lockout (envNow env) u)" "acSessions z = acSessions x"
      using update_user_store_ok[of x "cleared_lockout (envNow env) u" u] assms(2,3)
      by (simp_all add: clearUserLockout_def z_def)
    have "login_user env rq inp st (cleared_lockout (envNow env) u) z = (y, RespJSON 200 p, ck)"
      using assms(1) nl False c(1) unfolding login_known_def z_def
      by (metis (no_types, lifting) case_prod_conv option.simps(4))
    from that[OF nl _ c(3,2) this] show ?thesis by simp
  qed
qed

lemma handleLogin_200:
  assumes "handleLogin env rq body x = (y, RespJSON 200 p, ck)"
  obtains inp u where "body = Some inp" "acSettings x = None \<or> stLocalAuthEnabled (user_securitySettings x)"
    "userGetByUsername (acUsers x) (trimSpace (liUsername inp)) = Some u"
    "login_known env rq (inp\<lparr>liUsername := trimSpace (liUsername inp)\<rparr>) (user_securitySettings x) u x = (y, RespJSON 200 p, ck)"
proof -
  obtain inp where b: "body = Some inp" using assms
    by (cases body) (simp_all add: handleLogin_def method_not_allowed_def writeErr_def split: if_splits)
  obtain u where u: "userGetByUsername (acUsers x) (trimSpace (liUsername inp)) = Some u" using assms b
    by (cases "userGetByUsername (acUsers x) (trimSpace (liUsername inp))")
      (simp_all add: handleLogin_def Let_def method_not_allowed_def writeErr_def split: if_splits)
  show ?thesis
    by (rule that[OF b _ u]) (use assms b u in \<open>auto simp: handleLogin_def Let_def method_not_allowed_def writeErr_def split: if_splits\<close>)
qed

text \<open>C10: a sign-in is granted to the right person only, and for a bounded time. In every reachable state, when
  \<open>handleLogin\<close> answers 200, local sign-in is not turned off, the trimmed name is that of an active user whose account
  is not locked at that moment, and the password matches that user's hash. The cookie then names a new session of
  that user, with the user's role, that lasts for the hours of the settings, between 1 and 720; the user has at most
  the configured number of live sessions, between 1 and 100; the new session is stored if it is the user's latest; and
  the counters of failed attempts are reset.\<close>

theorem login_grants_session:
  assumes "access_reachable x" "\<And>l. mset (xeOrd env l) = mset l" "handleLogin env rq body x = (y, RespJSON 200 p, ck)"
  shows "\<exists>inp u ses w st. st = user_securitySettings x \<and> body = Some inp \<and> (acSettings x = None \<or> stLocalAuthEnabled st)
    \<and> userGetByUsername (acUsers x) (trimSpace (liUsername inp)) = Some u \<and> userIsActive u \<and> \<not> still_locked (envNow env) u
    \<and> xeCompare env (slice (userPasswordHash u)) (liPassword inp)
    \<and> ck = Some (session_cookie rq (sesID ses) (hours (stSessionDurationHours st) div 1000000000))
    \<and> map_of (ssSessions (acSessions x)) (sesID ses) = None
    \<and> sesUserID ses = userID u \<and> sesRole ses = userRole u \<and> stSessionDurationHours st \<in> {1..720}
    \<and> sesExpiresAt ses = envNow env + hours (stSessionDurationHours st)
    \<and> int (length (sessionListByUserID (envNow env) (acSessions y) (userID u))) \<le> stMaxSessionsPerUser st
    \<and> stMaxSessionsPerUser st \<in> {1..100}
    \<and> ((\<forall>i z. map_of (ssSessions (acSessions x)) i = Some z \<longrightarrow> sesUserID z = userID u \<longrightarrow> sesCreatedAt z < envNow env) \<longrightarrow>
         map_of (ssSessions (acSessions y)) (sesID ses) = Some ses)
    \<and> userGetByID (acUsers y) (userID u) = Some w \<and> userFailedLoginAttempts w = 0 \<and> userLockedAt w = None"
proof -
  define st where "st = user_securitySettings x"
  have inv: "access_inv x" using assms(1) by (rule access_reachable_inv)
  have ok: "settings_error st = None" unfolding st_def by (rule user_securitySettings_ok[OF access_invD(5)[OF inv]])
  then have bounds: "stSessionDurationHours st \<in> {1..720}" "stMaxSessionsPerUser st \<in> {1..100}"
    unfolding settings_error_None by blast+
  obtain inp u where l: "body = Some inp" "acSettings x = None \<or> stLocalAuthEnabled st"
    "userGetByUsername (acUsers x) (trimSpace (liUsername inp)) = Some u"
    "login_known env rq (inp\<lparr>liUsername := trimSpace (liUsername inp)\<rparr>) st u x = (y, RespJSON 200 p, ck)"
    using assms(3) unfolding st_def by (rule handleLogin_200)
  note k = user_known_by_name[OF inv l(3)]
  obtain v z where v: "\<not> still_locked (envNow env) u" "v = u \<or> v = cleared_lockout (envNow env) u"
    "acSessions z = acSessions x" "map_of (usUsers (acUsers z)) (userID u) = Some v"
    "login_user env rq (inp\<lparr>liUsername := trimSpace (liUsername inp)\<rparr>) st v z = (y, RespJSON 200 p, ck)"
    using l(4) k(1,3) by (rule login_known_200)
  have same: "userID v = userID u" "userRole v = userRole u" "userIsActive v = userIsActive u"
    "userPasswordHash v = userPasswordHash u" using v(2) by auto
  note g = login_user_200[OF v(5)]
  have zi: "session_inv (acSessions z)" using access_invD(3)[OF inv] v(3) by simp
  have zu: "map_of (usUsers (acUsers z)) (userID v) = Some v" using v(4) same by simp
  obtain ses where s: "ck = Some (session_cookie rq (sesID ses) (hours (stSessionDurationHours st) div 1000000000))"
    "sesUserID ses = userID v" "sesRole ses = userRole v" "sesCreatedAt ses = envNow env"
    "sesExpiresAt ses = envNow env + hours (stSessionDurationHours st)" "map_of (ssSessions (acSessions z)) (sesID ses) = None"
    "int (length (sessionListByUserID (envNow env) (acSessions y) (userID v))) \<le> stMaxSessionsPerUser st"
    "(\<forall>i a. map_of (ssSessions (acSessions z)) i = Some a \<longrightarrow> sesUserID a = userID v \<longrightarrow> sesCreatedAt a < envNow env) \<longrightarrow>
       map_of (ssSessions (acSessions y)) (sesID ses) = Some ses"
    "acUsers y = fst (userUpdateLastLogin (acUsers z) (userID v) (envNow env))"
    by (rule grant_session_200[OF zi assms(2) ok g(3) zu])
  obtain w where w: "userGetByID (acUsers y) (userID u) = Some w" "userFailedLoginAttempts w = 0" "userLockedAt w = None"
    using s(9) v(4) k(3) same by (simp add: userUpdateLastLogin_def userGetByID_def)
  show ?thesis
    by (intro exI conjI; (rule st_def l v(1) w s(1) bounds)?) (use s(2,3,5-8) same g(1,2) v(3) in \<open>simp_all\<close>)
qed

theorem login_grants_session_witness:
  "userGetByUsername (acUsers demo_access1) ''root'' = Some demo_root
   \<and> map_of (ssSessions (acSessions demo_access1)) ''07'' = None
   \<and> int (length (sessionListByUserID 20 (acSessions demo_access2) ''u1'')) \<le> 10"
proof -
  have e: "envNow (demo_access_env 20 anonymous) = 20" "\<And>l. mset (xeOrd (demo_access_env 20 anonymous) l) = mset l"
    by (simp_all add: demo_access_env_def)
  have st: "user_securitySettings demo_access1 = DefaultSecuritySettings"
    by (simp add: user_securitySettings_def demo_access1_eq demo_access0_def)
  have n: "userGetByUsername (acUsers demo_access1) ''root'' = Some demo_root"
    by (simp add: userGetByUsername_def demo_access1_eq)
  have c: "session_cookie (demo_web ''POST'' ''/'' None []) i t = \<lparr>ckValue = ''07'', ckSecure = True, ckStrict = True, ckMaxAge = 86400\<rparr> \<Longrightarrow> i = ''07''" for i t
    by (simp add: session_cookie_def)
  have d: "stMaxSessionsPerUser DefaultSecuritySettings = 10" "userID demo_root = ''u1''"
    by (simp_all add: DefaultSecuritySettings_def demo_root_def)
  show ?thesis
    using login_grants_session[OF demo_access_reachable(2) e(2) demo_login] unfolding e(1) st demo_access2_eq[symmetric]
  proof (elim exE conjE)
    fix inp u ses w st
    assume "st = DefaultSecuritySettings" "Some \<lparr>liUsername = ''root'', liPassword = ''correct-horse''\<rparr> = Some inp"
      "userGetByUsername (acUsers demo_access1) (trimSpace (liUsername inp)) = Some u"
      "Some \<lparr>ckValue = ''07'', ckSecure = True, ckStrict = True, ckMaxAge = 86400\<rparr> =
         Some (session_cookie (demo_web ''POST'' ''/'' None []) (sesID ses) (hours (stSessionDurationHours st) div 1000000000))"
      "map_of (ssSessions (acSessions demo_access1)) (sesID ses) = None"
      "int (length (sessionListByUserID 20 (acSessions demo_access2) (userID u))) \<le> stMaxSessionsPerUser st"
    then show ?thesis using n c[of "sesID ses"] d by (auto simp: demo_trims)
  qed
qed

end
