(* ===== verification/SignInProps.thy ===== *)
theory SignInProps
  imports AccessProps
begin

section \<open>Locking accounts, and the life of an API key\<close>

text \<open>
  Repeated wrong passwords lock an account for the configured time, and an API key that \<open>createAPIKey\<close>
  issues is good for what it says and as long as it says.
\<close>

subsection \<open>Wrong passwords\<close>

record attempt =
  atEnv :: access_env
  atRequest :: web_request
  atInput :: login_input

text \<open>A login attempt for the name \<open>n\<close>, and whether its password is wrong for \<open>u\<close>.\<close>

definition attempt_for :: "string \<Rightarrow> attempt \<Rightarrow> bool" where
  "attempt_for n a \<longleftrightarrow> rqMethod (atRequest a) = ''POST'' \<and> trimSpace (liUsername (atInput a)) = n \<and> liPassword (atInput a) \<noteq> []"

definition wrong_attempt :: "string \<Rightarrow> user \<Rightarrow> attempt \<Rightarrow> bool" where
  "wrong_attempt n u a \<longleftrightarrow> attempt_for n a \<and> \<not> xeCompare (atEnv a) (slice (userPasswordHash u)) (liPassword (atInput a))"

definition try_login :: "attempt \<Rightarrow> access \<Rightarrow> access \<times> user_response \<times> cookie option" where
  "try_login a x = handleLogin (atEnv a) (atRequest a) (Some (atInput a)) x"

definition after_attempts :: "attempt list \<Rightarrow> access \<Rightarrow> access" where
  "after_attempts as x = fold (\<lambda>a x. fst (try_login a x)) as x"

lemma user_securitySettings_cong: "acSettings y = acSettings x \<Longrightarrow> user_securitySettings y = user_securitySettings x"
  by (simp add: user_securitySettings_def)

lemma userGetByUsername_update:
  assumes "user_inv us" "userGetByUsername us n = Some u" "userID v = userID u" "userUsername v = userUsername u"
  shows "userGetByUsername (us\<lparr>usUsers := gput (userID u) v (usUsers us)\<rparr>) n = Some v"
  using assms by (auto simp: userGetByUsername_def user_inv_def split: option.splits if_splits)

lemma handleLogin_known:
  assumes "attempt_for n a" "acSettings x = None \<or> stLocalAuthEnabled (user_securitySettings x)" "n \<noteq> []"
    "userGetByUsername (acUsers x) n = Some u"
  shows "try_login a x = login_known (atEnv a) (atRequest a) ((atInput a)\<lparr>liUsername := n\<rparr>) (user_securitySettings x) u x"
  using assms by (auto simp: try_login_def handleLogin_def attempt_for_def Let_def)

text \<open>One wrong password: the counter goes up, and the account is locked when it reaches the limit.\<close>

lemma wrong_attempt_step:
  assumes "access_inv x" "wrong_attempt n u a" "acSettings x = None \<or> stLocalAuthEnabled (user_securitySettings x)"
    "userGetByUsername (acUsers x) n = Some u" "userIsActive u" "userLockedAt u = None"
  defines "st \<equiv> user_securitySettings x" and "y \<equiv> fst (try_login a x)"
  shows "access_inv y" "acSettings y = acSettings x" "acSessions y = acSessions x"
    "userGetByUsername (acUsers y) n = Some (failed_login (envNow (atEnv a)) st u)"
    "snd (try_login a x) = (if lockout_attempts_reached st (u\<lparr>userFailedLoginAttempts := userFailedLoginAttempts u + 1\<rparr>)
       then writeErr 423 ''account locked'' ''too many failed login attempts'' else writeErr 401 ''invalid credentials'' [], None)"
proof -
  note k = user_known_by_name[OF assms(1,4)]
  have n: "n \<noteq> []" using assms(4) by (auto simp: userGetByUsername_def)
  define v where "v = failed_login (envNow (atEnv a)) st u"
  have af: "attempt_for n a" using assms(2) by (simp add: wrong_attempt_def)
  have up: "update_user_store v x = (x\<lparr>acUsers := (acUsers x)\<lparr>usUsers := gput (userID u) v (usUsers (acUsers x))\<rparr>\<rparr>, None)"
    using update_user_store_ok[of x v u] k by (simp add: v_def)
  have l: "try_login a x = login_user (atEnv a) (atRequest a) ((atInput a)\<lparr>liUsername := n\<rparr>) st u x"
    unfolding handleLogin_known[OF af assms(3) n assms(4)] st_def by (simp add: login_known_def still_locked_def assms(6))
  have w: "VerifyPassword (xeCompare (atEnv a)) (liPassword (atInput a)) (slice (userPasswordHash u)) \<noteq> None"
    using assms(2) by (simp add: wrong_attempt_def VerifyPassword_def)
  show "access_inv y" unfolding y_def try_login_def by (rule handleLogin_inv[OF assms(1)])
  have r: "fst (try_login a x) = fst (recordFailedLogin (atEnv a) u st x)"
    "snd (try_login a x) = (if lockout_attempts_reached st (u\<lparr>userFailedLoginAttempts := userFailedLoginAttempts u + 1\<rparr>)
       then writeErr 423 ''account locked'' ''too many failed login attempts'' else writeErr 401 ''invalid credentials'' [], None)"
    using w assms(5) up unfolding l
    by (simp_all add: login_user_def recordFailedLogin_def Let_def v_def[symmetric] split: bool.split)
  have f: "acSettings (fst (recordFailedLogin (atEnv a) u st x)) = acSettings x"
    "acSessions (fst (recordFailedLogin (atEnv a) u st x)) = acSessions x"
    "acUsers (fst (recordFailedLogin (atEnv a) u st x)) = (acUsers x)\<lparr>usUsers := gput (userID u) v (usUsers (acUsers x))\<rparr>"
    using up by (simp_all add: recordFailedLogin_def Let_def v_def[symmetric])
  show "acSettings y = acSettings x" "acSessions y = acSessions x" unfolding y_def r f by (rule refl)+
  show "userGetByUsername (acUsers y) n = Some (failed_login (envNow (atEnv a)) st u)"
    unfolding y_def r f v_def[symmetric]
    by (rule userGetByUsername_update[OF access_invD(2)[OF assms(1)] assms(4)]) (simp_all add: v_def)
  show "snd (try_login a x) = (if lockout_attempts_reached st (u\<lparr>userFailedLoginAttempts := userFailedLoginAttempts u + 1\<rparr>)
       then writeErr 423 ''account locked'' ''too many failed login attempts'' else writeErr 401 ''invalid credentials'' [], None)"
    by (rule r(2))
qed

lemma after_attempts_Cons: "after_attempts (a # as) x = after_attempts as (fst (try_login a x))"
  by (simp add: after_attempts_def)

lemma wrong_attempts_count:
  assumes "list_all (wrong_attempt n u) as" "access_inv x" "acSettings x = None \<or> stLocalAuthEnabled (user_securitySettings x)"
    "userGetByUsername (acUsers x) n = Some v" "userPasswordHash v = userPasswordHash u" "userIsActive v" "userLockedAt v = None"
    "userFailedLoginAttempts v + int (length as) < stAccountLockoutAttempts (user_securitySettings x)"
  shows "access_inv (after_attempts as x)" "acSettings (after_attempts as x) = acSettings x"
    "acSessions (after_attempts as x) = acSessions x"
    "\<exists>w. userGetByUsername (acUsers (after_attempts as x)) n = Some w \<and> userPasswordHash w = userPasswordHash u \<and> userIsActive w
       \<and> userLockedAt w = None \<and> userFailedLoginAttempts w = userFailedLoginAttempts v + int (length as)"
proof -
  have "access_inv (after_attempts as x) \<and> acSettings (after_attempts as x) = acSettings x
      \<and> acSessions (after_attempts as x) = acSessions x
      \<and> (\<exists>w. userGetByUsername (acUsers (after_attempts as x)) n = Some w \<and> userPasswordHash w = userPasswordHash u \<and> userIsActive w
       \<and> userLockedAt w = None \<and> userFailedLoginAttempts w = userFailedLoginAttempts v + int (length as))"
    using assms
  proof (induction as arbitrary: x v)
    case (Cons a as)
    have w: "wrong_attempt n v a" using Cons.prems(1,5) by (simp add: wrong_attempt_def)
    note s = wrong_attempt_step[OF Cons.prems(2) w Cons.prems(3,4,6,7)]
    define v' where "v' = failed_login (envNow (atEnv a)) (user_securitySettings x) v"
    have v': "userFailedLoginAttempts v' = userFailedLoginAttempts v + 1" "userLockedAt v' = None"
      "userPasswordHash v' = userPasswordHash u" "userIsActive v'"
      using Cons.prems(5-8) by (simp_all add: v'_def failed_login_def Let_def lockout_attempts_reached_def)
    have st: "user_securitySettings (fst (try_login a x)) = user_securitySettings x" by (rule user_securitySettings_cong[OF s(2)])
    show ?case
      using Cons.IH[of "fst (try_login a x)" v'] Cons.prems s v' st unfolding after_attempts_Cons v'_def[symmetric] by (simp add: add.assoc)
  qed (simp add: after_attempts_def)
  then show "access_inv (after_attempts as x)" "acSettings (after_attempts as x) = acSettings x"
    "acSessions (after_attempts as x) = acSessions x"
    "\<exists>w. userGetByUsername (acUsers (after_attempts as x)) n = Some w \<and> userPasswordHash w = userPasswordHash u \<and> userIsActive w
       \<and> userLockedAt w = None \<and> userFailedLoginAttempts w = userFailedLoginAttempts v + int (length as)" by blast+
qed

text \<open>C11: repeated wrong passwords lock the account, and a locked account opens to no password. Take a reachable state
  with a limit of attempts in its settings, an active user that is not locked, and as many sign-in attempts with wrong
  passwords for its name as the limit leaves. Before the last of them the account is not locked; after the last one no
  session has been opened, and every further attempt for that name before the cooldown is over answers 423, sets no
  cookie and changes neither users nor sessions, whatever password it brings.\<close>

theorem wrong_passwords_lock_the_account:
  assumes "access_reachable x" "userGetByUsername (acUsers x) n = Some u" "userIsActive u" "userLockedAt u = None"
    "acSettings x = None \<or> stLocalAuthEnabled (user_securitySettings x)" "0 < stAccountLockoutAttempts (user_securitySettings x)"
    "list_all (wrong_attempt n u) (as @ [a])"
    "userFailedLoginAttempts u + int (length (as @ [a])) = stAccountLockoutAttempts (user_securitySettings x)"
    "attempt_for n b"
    "envNow (atEnv b) < envNow (atEnv a) + minutes (stAccountLockoutCooldownMinutes (user_securitySettings x))"
  shows "let y = after_attempts (as @ [a]) x; r = try_login b y in
    acSessions y = acSessions x \<and> (\<exists>d. fst (snd r) = RespErr 423 (Msg ''account locked'') d) \<and> snd (snd r) = None
    \<and> acSessions (fst r) = acSessions x \<and> acUsers (fst r) = acUsers y
    \<and> (\<exists>v. userGetByUsername (acUsers (after_attempts as x)) n = Some v \<and> userLockedAt v = None)"
proof -
  define st where "st = user_securitySettings x"
  define z where "z = after_attempts as x"
  define y where "y = after_attempts (as @ [a]) x"
  have inv: "access_inv x" using assms(1) by (rule access_reachable_inv)
  have wa: "list_all (wrong_attempt n u) as" "wrong_attempt n u a" using assms(7) by simp_all
  have cnt: "userFailedLoginAttempts u + int (length as) < stAccountLockoutAttempts st" using assms(8) by (simp add: st_def)
  note c = wrong_attempts_count[OF wa(1) inv assms(5,2) refl assms(3,4) cnt[unfolded st_def], folded z_def]
  obtain v where v: "userGetByUsername (acUsers z) n = Some v" "userPasswordHash v = userPasswordHash u" "userIsActive v"
    "userLockedAt v = None" "userFailedLoginAttempts v = userFailedLoginAttempts u + int (length as)" using c(4) by blast
  have st: "user_securitySettings z = st" unfolding st_def by (rule user_securitySettings_cong[OF c(2)])
  have auth: "acSettings z = None \<or> stLocalAuthEnabled (user_securitySettings z)" using assms(5) c(2) st by (simp add: st_def)
  have wv: "wrong_attempt n v a" using wa(2) v(2) by (simp add: wrong_attempt_def)
  have yz: "y = fst (try_login a z)" by (simp add: y_def z_def after_attempts_def)
  note s = wrong_attempt_step[OF c(1) wv auth v(1,3,4), folded yz, unfolded st]
  define w where "w = failed_login (envNow (atEnv a)) st v"
  have "lockout_attempts_reached st (v\<lparr>userFailedLoginAttempts := userFailedLoginAttempts v + 1\<rparr>)"
    using v(5) assms(6,8) by (simp add: lockout_attempts_reached_def st_def)
  then have locked: "still_locked (envNow (atEnv b)) w"
    using assms(10) by (simp add: w_def failed_login_def Let_def still_locked_def lockout_attempts_reached_def st_def)
  have n: "n \<noteq> []" using assms(2) by (auto simp: userGetByUsername_def)
  have auth': "acSettings y = None \<or> stLocalAuthEnabled (user_securitySettings y)"
    using auth s(2) user_securitySettings_cong[OF s(2)] by simp
  have b: "try_login b y = login_known (atEnv b) (atRequest b) ((atInput b)\<lparr>liUsername := n\<rparr>) (user_securitySettings y) w y"
    by (rule handleLogin_known[OF assms(9) auth' n]) (use s(4) w_def in simp)
  have "acSessions y = acSessions x" using s(3) c(3) by simp
  then show ?thesis using locked v(1,4) unfolding Let_def y_def[symmetric] z_def[symmetric] b by (auto simp: login_known_def)
qed

subsection \<open>Keys that \<open>createAPIKey\<close> issues\<close>

lemma plaintext_bearer:
  fixes kb :: AuthStores.bytes
  assumes "b64_encode kb \<noteq> []"
  shows "trimSpace (trim_prefix (''Bearer '' @ APIKeyPrefix @ b64_encode kb) ''Bearer '') = APIKeyPrefix @ b64_encode kb"
    "prefix ''cpam_'' (APIKeyPrefix @ b64_encode kb)"
proof -
  have "b64url (of_char (last (b64_encode kb)))"
    using b64_encode_chars[of kb] last_in_set[OF assms] unfolding list_all_iff by blast
  then have "graphic (last (APIKeyPrefix @ b64_encode kb))"
    using assms by (auto simp: graphic_def b64url_def)
  moreover have "graphic (hd (APIKeyPrefix @ b64_encode kb))" by (simp add: APIKeyPrefix_def graphic_def)
  ultimately have "trimSpace (APIKeyPrefix @ b64_encode kb) = APIKeyPrefix @ b64_encode kb"
    by (intro trimSpace_graphic) (simp_all add: APIKeyPrefix_def)
  then show "trimSpace (trim_prefix (''Bearer '' @ APIKeyPrefix @ b64_encode kb) ''Bearer '') = APIKeyPrefix @ b64_encode kb"
    by (simp add: trim_prefix_def)
  show "prefix ''cpam_'' (APIKeyPrefix @ b64_encode kb)" by (simp add: APIKeyPrefix_def)
qed

lemma key_error_responses:
  "key_input_error inp = Some r \<Longrightarrow> r \<noteq> RespJSON c p" "elevation_error env x ss = Some r \<Longrightarrow> r \<noteq> RespJSON c p"
  by (auto simp: key_input_error_def elevation_error_def writeErr_def Let_def split: if_splits option.splits)

lemma createAPIKey_201:
  assumes "createAPIKey env body x = (y, RespJSON 201 (PKey a))"
  obtains raw t where "body = Some raw" "key_input_error (raw\<lparr>kiName := trimSpace (kiName raw)\<rparr>) = None"
    "elevation_error env x (slice (kiScopes raw)) = None" "apiKeyExpiresAt (envNow env) (kiExpiresInDays raw) (key_settings x) = Inr t"
    "issue_key env (raw\<lparr>kiName := trimSpace (kiName raw)\<rparr>) t x = (y, RespJSON 201 (PKey a))"
proof -
  obtain raw where b: "body = Some raw" using assms by (cases body) (simp_all add: createAPIKey_def writeErr_def)
  have i: "key_input_error (raw\<lparr>kiName := trimSpace (kiName raw)\<rparr>) = None"
    using assms b key_error_responses(1)
    by (cases "key_input_error (raw\<lparr>kiName := trimSpace (kiName raw)\<rparr>)") (auto simp: createAPIKey_def)
  have e: "elevation_error env x (slice (kiScopes raw)) = None"
    using assms b i key_error_responses(2)
    by (cases "elevation_error env x (slice (kiScopes raw))") (auto simp: createAPIKey_def)
  obtain t where t: "apiKeyExpiresAt (envNow env) (kiExpiresInDays raw) (key_settings x) = Inr t"
    using assms b i e by (cases "apiKeyExpiresAt (envNow env) (kiExpiresInDays raw) (key_settings x)") (auto simp: createAPIKey_def)
  show ?thesis by (rule that[OF b i e t]) (use assms b i e t in \<open>simp add: createAPIKey_def\<close>)
qed

lemma apiKeyExpiresAt_bound:
  "apiKeyExpiresAt now req st = Inr t \<Longrightarrow> 0 < stAPIKeyMaxLifetimeDays st \<Longrightarrow>
     \<exists>e. t = Some e \<and> now < e \<and> e \<le> now + days (stAPIKeyMaxLifetimeDays st)"
  by (auto simp: apiKeyExpiresAt_def expiry_days_def days_def Let_def split: if_splits option.splits)

lemma key_input_scopes: "key_input_error inp = None \<Longrightarrow> list_all IsValidAPIKeyScope (slice (kiScopes inp))"
  by (auto simp: key_input_error_def find_None_iff list_all_iff split: if_splits option.splits)

text \<open>Issuing stores a new key under the prefix of the plaintext it returns.\<close>

lemma issue_key_201:
  assumes "access_inv x" "fresh_key_id env x" "xeKeyRnd env = Some kb" "issue_key env inp t x = (y, RespJSON 201 (PKey a))"
  obtains k salt where "acKeys y = fst (keyCreate (acKeys x) (Some k))" "keyGetByPrefix (acKeys y) (keyPrefix k) = Some k"
    "crKey a = APIKeyPrefix @ b64_encode kb" "keyPrefix k = take PrefixLength (b64_encode kb)"
    "keySalt k = Some salt" "keyHash k = Some (xeKeyHash env (crKey a) salt)" "\<not> keyRevoked k" "keyExpiresAt k = t"
    "keyScopes k = kiScopes inp" "crID a = keyID k" "crScopes a = keyScopes k"
proof (cases rule: issue_key_cases[of env inp t x])
  case (2 pt k g)
  have c: "snd (keyCreate (acKeys x) (Some k)) = None" using 2(5) assms(4) by simp
  then have a: "a = key_answer pt k" using 2(4) assms(4) by simp
  obtain salt where g: "pt = APIKeyPrefix @ b64_encode kb" "keyPrefix g = take PrefixLength (b64_encode kb)"
    "generateUUID (xeIDRnd env) = Some (keyID g)" "keyHash g = Some (xeKeyHash env pt salt)" "keySalt g = Some salt"
    "keyRevoked g = False" "keyExpiresAt g = t" "keyScopes g = kiScopes inp"
    by (rule GenerateAPIKey_Inr[OF 2(1)]) (use assms(3) in simp)
  have k: "keyID k = keyID g" "keyPrefix k = keyPrefix g" "keyHash k = keyHash g" "keySalt k = keySalt g"
    "keyRevoked k = keyRevoked g" "keyExpiresAt k = keyExpiresAt g" "keyScopes k = keyScopes g"
    using 2(2) by (simp_all split: option.splits)
  have new: "keyGetByID (acKeys x) (keyID k) = None" using assms(2) g(3) k(1) by (simp add: fresh_key_id_def)
  have y: "acKeys y = fst (keyCreate (acKeys x) (Some k))" using 2(3) assms(4) by simp
  have inv: "key_inv (acKeys y)" unfolding y
    by (rule key_step_inv[OF key_step.create[OF new] access_invD(1)[OF assms(1)]])
  have "map_of (ksPrefixIndex (acKeys x)) (keyPrefix k) = None" using c by (simp add: keyCreate_def split: if_splits)
  from keyCreate_ok[OF this] have "keyGetByID (acKeys y) (keyID k) = Some k" unfolding y by blast
  then have "keyGetByPrefix (acKeys y) (keyPrefix k) = Some k" using keyGetByPrefix_iff[OF inv] by blast
  then show ?thesis using that[OF y] a g k by (simp add: key_answer_def)
qed (use assms(4) in auto)

text \<open>A generated plaintext as a bearer token.\<close>

lemma bearer_auth:
  assumes "wrAuthorization r = ''Bearer '' @ APIKeyPrefix @ b64_encode kb" "8 \<le> length (b64_encode kb)"
    "keyGetByPrefix keys (take PrefixLength (b64_encode kb)) = Some k"
    "hash (APIKeyPrefix @ b64_encode kb) (slice (keySalt k)) = slice (keyHash k)"
  shows "DualAuthMiddleware hash required now r keys sessions users cache =
    (cache, if keyRevoked k then Inl (unauthorized ''API key has been revoked'')
       else if keyIsExpired now k then Inl (unauthorized ''API key has expired'')
       else Inr (anonymous\<lparr>ctxAPIKey := Some k\<rparr>, Some (keyID k)) :: 'a http_response + authenticated)"
proof -
  have ne: "b64_encode kb \<noteq> []" using assms(2) by auto
  have "prefix ''Bearer '' (wrAuthorization r)" by (simp add: assms(1))
  moreover have "trimSpace (trim_prefix (wrAuthorization r) ''Bearer '') = APIKeyPrefix @ b64_encode kb"
    unfolding assms(1) by (rule plaintext_bearer(1)[OF ne])
  moreover have "api_key_of hash now keys (APIKeyPrefix @ b64_encode kb) =
      (if keyRevoked k then Inl (unauthorized ''API key has been revoked'')
       else if keyIsExpired now k then Inl (unauthorized ''API key has expired'') else Inr k :: 'a http_response + api_key)"
    using assms(3,4) by (simp add: api_key_of_def ParseAPIKeyPrefix_generated[OF assms(2)] ValidateAPIKey_def auth_error_defs)
  ultimately show ?thesis using plaintext_bearer(2)[OF ne] by (simp add: DualAuthMiddleware_def)
qed

text \<open>C12: an API key that \<open>createAPIKey\<close> hands out is the key it says. From any reachable state, for a fresh id and
  32 random bytes, a 201 answer means: presented as a bearer token, the returned plaintext is let in by \<open>DualAuthMiddleware\<close> as
  exactly the stored key, at every time before its expiry and whatever sessions, users and cache there are; once expired
  or revoked it is refused; its scopes are the requested ones, all valid, and within the caller's role, by
  permission and, for a built-in role, by level; and if the settings limit the lifetime of keys, the key expires within that
  limit.\<close>

theorem issued_keys_work:
  assumes "access_reachable x" "fresh_key_id env x" "xeKeyRnd env = Some kb" "length kb = KeyBytes"
    "createAPIKey env body x = (y, RespJSON 201 (PKey a))"
  shows "\<exists>k. keyGetByID (acKeys y) (crID a) = Some k \<and> keyScopes k = crScopes a
    \<and> (\<forall>now required r sessions users cache. wrAuthorization r = ''Bearer '' @ crKey a \<longrightarrow>
        DualAuthMiddleware (xeKeyHash env) required now r (acKeys y) sessions users cache =
          (cache, if keyIsExpired now k then Inl (unauthorized ''API key has expired'')
                  else Inr (anonymous\<lparr>ctxAPIKey := Some k\<rparr>, Some (keyID k)) :: unit http_response + authenticated))
    \<and> (\<forall>now required r sessions users cache. wrAuthorization r = ''Bearer '' @ crKey a \<longrightarrow>
        DualAuthMiddleware (xeKeyHash env) required now r (fst (keyRevoke (acKeys y) (crID a))) sessions users cache =
          (cache, Inl (unauthorized ''API key has been revoked'') :: unit http_response + authenticated))
    \<and> list_all IsValidAPIKeyScope (slice (keyScopes k))
    \<and> (effective_role env \<noteq> RoleNone \<longrightarrow>
        list_all (ScopeAllowedByRolePermissions (acRoles x) (envNow env) (envCtx env) (effective_role env)) (slice (keyScopes k))
        \<and> (IsBuiltinRole (effective_role env) \<longrightarrow> RoleLevel (GetRoleFromScopes (slice (keyScopes k))) \<le> RoleLevel (effective_role env)))
    \<and> (0 < stAPIKeyMaxLifetimeDays (key_settings x) \<longrightarrow>
        (\<exists>e. keyExpiresAt k = Some e \<and> e \<le> envNow env + days (stAPIKeyMaxLifetimeDays (key_settings x))))"
proof -
  have inv: "access_inv x" using assms(1) by (rule access_reachable_inv)
  obtain raw t where r: "key_input_error (raw\<lparr>kiName := trimSpace (kiName raw)\<rparr>) = None"
    "elevation_error env x (slice (kiScopes raw)) = None" "apiKeyExpiresAt (envNow env) (kiExpiresInDays raw) (key_settings x) = Inr t"
    "issue_key env (raw\<lparr>kiName := trimSpace (kiName raw)\<rparr>) t x = (y, RespJSON 201 (PKey a))"
    using assms(5) by (rule createAPIKey_201)
  obtain k salt where k: "acKeys y = fst (keyCreate (acKeys x) (Some k))" "keyGetByPrefix (acKeys y) (keyPrefix k) = Some k"
    "crKey a = APIKeyPrefix @ b64_encode kb" "keyPrefix k = take PrefixLength (b64_encode kb)"
    "keySalt k = Some salt" "keyHash k = Some (xeKeyHash env (crKey a) salt)" "\<not> keyRevoked k" "keyExpiresAt k = t"
    "keyScopes k = kiScopes (raw\<lparr>kiName := trimSpace (kiName raw)\<rparr>)" "crID a = keyID k" "crScopes a = keyScopes k"
    by (rule issue_key_201[OF inv assms(2,3) r(4)])
  have len: "8 \<le> length (b64_encode kb)" using assms(4) by (simp add: length_b64_encode KeyBytes_def)
  have invy: "key_inv (acKeys y)" using access_invD(1)[OF createAPIKey_inv[OF inv assms(2), of body]] assms(5) by simp
  have id: "keyGetByID (acKeys y) (crID a) = Some k" using keyGetByPrefix_iff[OF invy] k(2,10) by simp
  have h: "xeKeyHash env (APIKeyPrefix @ b64_encode kb) (slice (keySalt k)) = slice (keyHash k)"
    using k(3,5,6) by (simp add: slice_Some)
  have revoked: "keyGetByPrefix (fst (keyRevoke (acKeys y) (crID a))) (keyPrefix k) = Some (k\<lparr>keyRevoked := True\<rparr>)"
    using keyGetByPrefix_iff[OF key_step_inv[OF key_step.revoke invy], of _ _ "k\<lparr>keyRevoked := True\<rparr>"] id k(10)
    by (auto simp: keyRevoke_def keyGetByID_def split: option.splits)
  have role: "effective_role env \<noteq> RoleNone \<longrightarrow>
      list_all (ScopeAllowedByRolePermissions (acRoles x) (envNow env) (envCtx env) (effective_role env)) (slice (keyScopes k))
      \<and> (IsBuiltinRole (effective_role env) \<longrightarrow> RoleLevel (GetRoleFromScopes (slice (keyScopes k))) \<le> RoleLevel (effective_role env))"
    using r(2) k(9) by (auto simp: elevation_error_def Let_def split: if_splits)
  show ?thesis
  proof (intro exI[of _ k] conjI allI impI)
    show "DualAuthMiddleware (xeKeyHash env) required now q (acKeys y) sessions users cache =
          (cache, if keyIsExpired now k then Inl (unauthorized ''API key has expired'')
                  else Inr (anonymous\<lparr>ctxAPIKey := Some k\<rparr>, Some (keyID k)) :: unit http_response + authenticated)"
      if "wrAuthorization q = ''Bearer '' @ crKey a" for now required q sessions users cache
      using bearer_auth[OF that[unfolded k(3)] len k(2)[unfolded k(4)], where hash = "xeKeyHash env" and 'a = unit] h k(7) by simp
    show "DualAuthMiddleware (xeKeyHash env) required now q (fst (keyRevoke (acKeys y) (crID a))) sessions users cache =
          (cache, Inl (unauthorized ''API key has been revoked'') :: unit http_response + authenticated)"
      if "wrAuthorization q = ''Bearer '' @ crKey a" for now required q sessions users cache
      using bearer_auth[OF that[unfolded k(3)] len revoked[unfolded k(4)], where hash = "xeKeyHash env" and 'a = unit] h by simp
    show "\<exists>e. keyExpiresAt k = Some e \<and> e \<le> envNow env + days (stAPIKeyMaxLifetimeDays (key_settings x))"
      if "0 < stAPIKeyMaxLifetimeDays (key_settings x)"
      using apiKeyExpiresAt_bound[OF r(3) that] k(8) by blast
  qed (use id k(9,11) role key_input_scopes[OF r(1)] in simp_all)
qed

definition demo_key_input :: key_input where
  "demo_key_input = \<lparr>kiName = ''ci'', kiScopes = Some [''pools:read''], kiExpiresInDays = None\<rparr>"

theorem issued_keys_work_witness:
  "\<exists>y a. createAPIKey (demo_access_env 30 anonymous) (Some demo_key_input) demo_access2 = (y, RespJSON 201 (PKey a))
     \<and> snd (DualAuthMiddleware demo_hash True 40 (demo_web ''GET'' ''/'' None (''Bearer '' @ crKey a)) (acKeys y) (acSessions y) (acUsers y) [])
       \<noteq> (Inl (unauthorized ''API key has been revoked'') :: unit http_response + authenticated)"
proof -
  define env where "env = demo_access_env 30 anonymous"
  have t: "trimSpace ''ci'' = ''ci''" by (rule trim_graphic; code_simp)
  have v: "IsValidAPIKeyScope ''pools:read''" by code_simp
  have role: "effective_role env = RoleNone"
    by (simp add: effective_role_def GetEffectiveRole_def env_def demo_access_env_def anonymous_def valid_session_def valid_key_def RoleNone_def)
  obtain i where i: "generateUUID (Some (replicate 16 2)) = Some i" by (simp add: generateUUID_def)
  have e: "elevation_error env demo_access2 (slice (kiScopes demo_key_input)) = None" by (simp add: elevation_error_def role)
  have n: "demo_key_input\<lparr>kiName := trimSpace (kiName demo_key_input)\<rparr> = demo_key_input" "key_input_error demo_key_input = None"
    by (simp_all add: demo_key_input_def t key_input_error_def slice_Some v)
  have ex: "apiKeyExpiresAt (envNow env) (kiExpiresInDays demo_key_input) (key_settings demo_access2) = Inr None"
    by (simp add: apiKeyExpiresAt_def expiry_days_def key_settings_def user_securitySettings_def demo_access2_eq demo_access1_eq
        demo_access0_def DefaultSecuritySettings_def demo_key_input_def)
  obtain y a where ya: "issue_key env demo_key_input None demo_access2 = (y, RespJSON 201 (PKey a))"
    by (simp add: issue_key_def env_def demo_access_env_def GenerateAPIKey_def i anonymous_def keyCreate_def demo_access2_eq
        demo_access1_eq demo_access0_def NewMemoryKeyStore_def Let_def)
  have c: "createAPIKey env (Some demo_key_input) demo_access2 = (y, RespJSON 201 (PKey a))"
    using ya by (simp add: createAPIKey_def n e ex)
  have f: "fresh_key_id env demo_access2"
    by (simp add: fresh_key_id_def env_def demo_access_env_def i keyGetByID_def demo_access2_eq demo_access1_eq demo_access0_def NewMemoryKeyStore_def)
  have kb: "xeKeyRnd env = Some (replicate KeyBytes 5)" "xeKeyHash env = demo_hash" by (simp_all add: env_def demo_access_env_def)
  have w: "wrAuthorization (demo_web ''GET'' ''/'' None (''Bearer '' @ crKey a)) = ''Bearer '' @ crKey a" by (simp add: demo_web_def)
  have "length (replicate KeyBytes (5 :: 8 word)) = KeyBytes" by simp
  note issued = issued_keys_work[OF demo_access_reachable(3) f kb(1) this c, unfolded kb(2)]
  obtain k where k: "\<forall>now required r sessions users cache. wrAuthorization r = ''Bearer '' @ crKey a \<longrightarrow>
        DualAuthMiddleware demo_hash required now r (acKeys y) sessions users cache =
          (cache, if keyIsExpired now k then Inl (unauthorized ''API key has expired'')
                  else Inr (anonymous\<lparr>ctxAPIKey := Some k\<rparr>, Some (keyID k)) :: unit http_response + authenticated)"
    using issued by (elim exE conjE) (rule that)
  have "snd (DualAuthMiddleware demo_hash True 40 (demo_web ''GET'' ''/'' None (''Bearer '' @ crKey a)) (acKeys y) (acSessions y) (acUsers y) [])
       \<noteq> (Inl (unauthorized ''API key has been revoked'') :: unit http_response + authenticated)"
    unfolding k[rule_format, OF w] by (simp add: unauthorized_def writeErr_def)
  with c show ?thesis unfolding env_def by blast
qed

text \<open>A limit of two attempts, and two wrong passwords.\<close>

definition demo_limit :: security_settings where
  "demo_limit = DefaultSecuritySettings\<lparr>stAccountLockoutAttempts := 2\<rparr>"

definition demo_req_env :: req_env where
  "demo_req_env = req_env.truncate (demo_access_env 5 anonymous)"

definition demo_locked0 :: access where
  "demo_locked0 = demo_access0\<lparr>acSettings := Some NewMemorySettingsStore\<rparr>"

definition demo_locked1 :: access where
  "demo_locked1 = with_settings demo_locked0 (fst (handleUpdateSecuritySettings demo_req_env (Some demo_limit) (settings_server NewMemorySettingsStore demo_locked0)))"

definition demo_locked2 :: access where
  "demo_locked2 = fst (handleSetup (demo_access_env 10 anonymous) (demo_web ''POST'' ''/'' None [])
     (Some \<lparr>suUsername = ''root'', suPassword = ''correct-horse'', suEmail = ''r@x''\<rparr>) demo_locked1)"

definition demo_attempt :: "go_time \<Rightarrow> string \<Rightarrow> attempt" where
  "demo_attempt t pw = \<lparr>atEnv = demo_access_env t anonymous, atRequest = demo_web ''POST'' ''/'' None [],
     atInput = \<lparr>liUsername = ''root'', liPassword = pw\<rparr>\<rparr>"

lemma demo_locked_reachable: "access_reachable demo_locked2"
proof -
  have 0: "access_reachable demo_locked0"
    by (rule access_reachable.start) (simp add: access_start_def demo_locked0_def demo_access0_def)
  have s: "acSettings demo_locked0 = Some NewMemorySettingsStore" by (simp add: demo_locked0_def)
  have 1: "access_reachable demo_locked1"
    unfolding demo_locked1_def by (rule access_reachable.step[OF 0 access_step.settings[OF s]])
  show ?thesis unfolding demo_locked2_def by (rule access_reachable.step[OF 1 access_step.first_user])
qed

lemma demo_locked_settings:
  assumes "acSettings x = acSettings demo_locked1"
  shows "stAccountLockoutAttempts (user_securitySettings x) = 2" "stLocalAuthEnabled (user_securitySettings x)"
    "stAccountLockoutCooldownMinutes (user_securitySettings x) = 15"
proof -
  have ok: "settings_error demo_limit = None"
    using default_settings_ok unfolding settings_error_None demo_limit_def by (simp add: DefaultSecuritySettings_def)
  then have "acSettings x = Some (UpdateSecuritySettings NewMemorySettingsStore (Some (NormalizeSecuritySettings (Some demo_limit))))"
    unfolding assms demo_locked1_def
    by (simp add: with_settings_def handleUpdateSecuritySettings_def Let_def demo_limit_def DefaultSecuritySettings_def settings_server_def)
  from updated_settings_numbers[OF normalize_settings_ok[OF ok] this]
  have "same_numbers demo_limit (user_securitySettings x)" by (rule same_numbers_trans[OF normalize_same[OF ok]])
  then show "stAccountLockoutAttempts (user_securitySettings x) = 2" "stLocalAuthEnabled (user_securitySettings x)"
    "stAccountLockoutCooldownMinutes (user_securitySettings x) = 15"
    by (cases "user_securitySettings x"; simp add: same_numbers_def demo_limit_def DefaultSecuritySettings_def)+
qed

lemma demo_locked2_users:
  "acUsers demo_locked2 = \<lparr>usUsers = [(''u1'', demo_root)], usUsernameIndex = [(''root'', ''u1'')]\<rparr>"
  "acSettings demo_locked2 = acSettings demo_locked1"
  by (simp_all add: demo_locked2_def handleSetup_def demo_locked1_def with_settings_def demo_locked0_def demo_access0_def demo_web_def demo_trims
      ValidatePassword_def DefaultMinPasswordLength_def MaxPasswordLength_def Let_def userList_def NewMemoryUserStore_def
      demo_access_env_def userCreate_def demo_root_def)

theorem wrong_passwords_lock_the_account_witness:
  "\<exists>d. fst (snd (try_login (demo_attempt 40 ''correct-horse'') (after_attempts [demo_attempt 20 ''guess1'', demo_attempt 30 ''guess2''] demo_locked2)))
     = RespErr 423 (Msg ''account locked'') d"
proof -
  note st = demo_locked_settings[OF demo_locked2_users(2)]
  have u: "userGetByUsername (acUsers demo_locked2) ''root'' = Some demo_root"
    by (simp add: demo_locked2_users userGetByUsername_def)
  have r: "userIsActive demo_root" "userLockedAt demo_root = None" "userFailedLoginAttempts demo_root = 0"
    by (simp_all add: demo_root_def)
  have ne: "demo_digest ''correct-horse'' \<noteq> demo_digest ''guess1''" "demo_digest ''correct-horse'' \<noteq> demo_digest ''guess2''"
    by (simp_all add: demo_digest_def)
  have w: "list_all (wrong_attempt ''root'' demo_root) ([demo_attempt 20 ''guess1''] @ [demo_attempt 30 ''guess2''])"
    using ne by (simp add: wrong_attempt_def attempt_for_def demo_attempt_def demo_web_def demo_trims demo_access_env_def demo_root_def slice_Some)
  have b: "attempt_for ''root'' (demo_attempt 40 ''correct-horse'')" 
    by (simp add: attempt_for_def demo_attempt_def demo_web_def demo_trims)
  have t: "envNow (atEnv (demo_attempt 40 ''correct-horse'')) < envNow (atEnv (demo_attempt 30 ''guess2''))
      + minutes (stAccountLockoutCooldownMinutes (user_securitySettings demo_locked2))"
    by (simp add: st demo_attempt_def demo_access_env_def minutes_def)
  have n: "0 < stAccountLockoutAttempts (user_securitySettings demo_locked2)"
    "userFailedLoginAttempts demo_root + int (length ([demo_attempt 20 ''guess1''] @ [demo_attempt 30 ''guess2''])) =
      stAccountLockoutAttempts (user_securitySettings demo_locked2)" by (simp_all add: st r)
  show ?thesis
    using wrong_passwords_lock_the_account[OF demo_locked_reachable u r(1,2) disjI2[OF st(2)] n(1) w n(2) b t]
    unfolding Let_def by simp
qed

subsection \<open>The state as a whole\<close>

text \<open>C18: the stores of access control stay consistent with each other. In every state that sign-ins, sign-outs, the
  management of users, keys, roles and settings and the session cleanup reach: every stored session is filed under its id
  and belongs to an existing, active user; the lookups by user name and by key prefix find exactly the record with that name
  or prefix; and the security settings in force pass the checks of their handler.\<close>

theorem access_state_consistent:
  assumes "access_reachable x"
  shows "(\<forall>i ses. map_of (ssSessions (acSessions x)) i = Some ses \<longrightarrow>
      sesID ses = i \<and> (\<exists>u. userGetByID (acUsers x) (sesUserID ses) = Some u \<and> userIsActive u))
    \<and> (\<forall>n u. n \<noteq> [] \<longrightarrow>
      (userGetByUsername (acUsers x) n = Some u \<longleftrightarrow> userGetByID (acUsers x) (userID u) = Some u \<and> userUsername u = n))
    \<and> (\<forall>p k. keyGetByPrefix (acKeys x) p = Some k \<longleftrightarrow> keyGetByID (acKeys x) (keyID k) = Some k \<and> keyPrefix k = p)
    \<and> settings_error (user_securitySettings x) = None"
proof -
  have inv: "access_inv x" using assms by (rule access_reachable_inv)
  have "sesID ses = i \<and> (\<exists>u. userGetByID (acUsers x) (sesUserID ses) = Some u \<and> userIsActive u)"
    if "map_of (ssSessions (acSessions x)) i = Some ses" for i ses
    using session_invD(3)[OF access_invD(3)[OF inv] that] liveD[OF access_invD(4)[OF inv] that]
    by (auto simp: userGetByID_def)
  then show ?thesis
    using userGetByUsername_iff[OF access_invD(2)[OF inv]] keyGetByPrefix_iff[OF access_invD(1)[OF inv]]
      user_securitySettings_ok[OF access_invD(5)[OF inv]] by blast
qed

theorem access_state_consistent_witness:
  "(\<exists>u. userGetByID (acUsers demo_access2) ''u1'' = Some u \<and> userIsActive u)
   \<and> settings_error (user_securitySettings demo_access2) = None"
proof -
  have "map_of (ssSessions (acSessions demo_access2)) ''07'' = Some demo_session2" "sesUserID demo_session2 = ''u1''"
    by (simp_all add: demo_access2_eq demo_session2_def)
  then show ?thesis using access_state_consistent[OF demo_access_reachable(3)] by metis
qed

subsection \<open>What an update of a user leaves alone\<close>

text \<open>A user's sessions keep the role they were opened with, and keys outlive their owner's account: a change of role touches no
  session, and deactivating a user touches no key.\<close>

theorem role_change_keeps_sessions:
  assumes "access_inv x" "uuIsActive inp \<noteq> Some False"
  shows "acSessions (fst (updateUser env (Some inp) i x)) = acSessions x"
  using updateUser_cases[OF assms(1), of env "Some inp" i] assms(2) by cases simp_all

theorem deactivation_keeps_keys: "acKeys (fst (deactivateUser env i x)) = acKeys x"
  by (auto simp: deactivateUser_def update_user_store_def split: option.split prod.split)

text \<open>A password is stored without its outer spaces.\<close>

theorem created_password_trimmed:
  assumes "createUser env (Some raw) x = (y, RespJSON 201 p)"
  shows "\<exists>u. userGetByID (acUsers y) (xeUUID env) = Some u \<and> userPasswordHash u = xeHashPassword env (trimSpace (uiPassword raw))"
proof -
  have e: "create_input_error (trimmed_input raw) = None"
    using assms by (cases "create_input_error (trimmed_input raw)")
      (auto simp: createUser_def create_input_error_def weak_password_def writeErr_def split: if_splits)
  obtain role where r: "normalizeAndValidateRole x (uiRole (trimmed_input raw)) True = Some role"
    using assms e by (cases "normalizeAndValidateRole x (uiRole (trimmed_input raw)) True") (auto simp: createUser_def writeErr_def)
  obtain h where h: "xeHashPassword env (trimSpace (uiPassword raw)) = Some h"
    using assms e r by (cases "xeHashPassword env (trimSpace (uiPassword raw))")
      (auto simp: createUser_def writeErr_def trimmed_input_def)
  show ?thesis using assms e r h
    by (auto simp: createUser_def Let_def trimmed_input_def userCreate_def userGetByID_def writeErr_def split: if_splits)
qed

end
