(* ===== verification/Spec2Isabelle.thy ===== *)
theory Spec2Isabelle
  imports Validation StoreProps RbacProps PlanningProps RecommendationProps ApiProps DiscoveryProps DriftProps SchemaProps ImportProps SignInProps
begin

text \<open>
CloudPAM: a cloud IP address manager.

CloudPAM (\<open>cmd/\<close>, \<open>internal/\<close>) is an HTTP server that plans IPv4 address space. Its users and
agents manage a forest of \<^emph>\<open>pools\<close> (CIDR blocks, each inside its parent), cloud \<^emph>\<open>accounts\<close> that own
pools, and the cloud \<^emph>\<open>resources\<close> that discovery finds. This development models the Go code of the
server that carries this logic, from the parsing of addresses up to the handlers of the HTTP API, over
the in-memory stores, and proves what the code keeps and computes. Every definition is a translation
of the Go function or type of the same name; the map of the manifest names the file and the lines.

\<^bold>\<open>How Go is read.\<close> A struct is a record, a pointer, nil slice or nil map is an option, a string is its
list of bytes, a map is an association list with distinct keys, \<open>time.Time\<close> is an integer number of
nanoseconds and the clock is an argument. An error result is a sum type, with errors compared by the
sentinel that they wrap. A panic, or a loop that does not return, is \<open>None\<close> of an outer option.
32-bit address arithmetic is done on \<open>32 word\<close> and wraps as in Go; page arithmetic wraps at 64 bits
(\<open>wrap64\<close>); ids are unbounded. \<open>float64\<close> is a rational number, rounded by a parameter where the code
relies on rounding. Every store operation holds the store's lock from start to end, so it is one
atomic step; a handler calls several and other requests may run between them, which the model of a
single request does not show. The order in which a map is iterated is the order of the association
list where the result does not depend on it, and an argument (\<open>map_order\<close>) where it does. Randomness,
hashes and UUIDs are parameters. Text that is only shown to people (most descriptions, log lines,
error details made by other packages) is left out.

\<^bold>\<open>The parts, from the bottom up.\<close>

\<^item> \<open>Prelude\<close>, \<open>GoLib\<close>: the shared vocabulary; the parts of Go's standard library that the code uses
(\<open>strconv\<close>, \<open>strings\<close>, UTF-8, slices, the paging of a listing).
\<^item> \<open>NetIP\<close>, \<open>Cidr\<close>, \<open>CidrFacts\<close>: \<open>net/netip\<close> as far as it is used, and the CIDR helpers of
\<open>internal/cidr\<close>, \<open>internal/api/cidr.go\<close> and \<open>internal/planning/cidr_helpers.go\<close>: containment is the subset
relation of the address sets, a range is cut into the fewest aligned blocks, subnets partition
their parent.
\<^item> \<open>Domain\<close>, \<open>Validation\<close>: \<open>internal/domain\<close> and \<open>internal/validation\<close>: what the validators accept.
\<^item> \<open>PoolStore\<close>, \<open>PoolStoreFacts\<close>, \<open>PoolForest\<close>, \<open>StoreProps\<close>: \<open>MemoryStore\<close> (\<open>internal/storage/store.go\<close>)
with its step relation \<open>store_step\<close>, the invariant of all reachable stores (the live pools form a
forest, so the recursions over it end), cascades, statistics, hierarchy and search.
\<^item> \<open>StoreOps\<close>: the Go interface \<open>storage.Store\<close> as a record of operations, and the contract \<open>pool_store\<close>
that its users rely on, as a locale; \<open>MemoryStore\<close> is an interpretation of it (\<open>mem\<close>).
\<^item> \<open>AuthStores\<close>, \<open>AuthStoreFacts\<close>, \<open>AuthStoreProps\<close>, \<open>Rbac\<close>, \<open>RbacProps\<close>: \<open>internal/auth\<close>: API keys, users and
sessions and their stores; roles, permissions, scopes and the permission middleware.
\<^item> \<open>Planning\<close>, \<open>GapFacts\<close>, \<open>Compliance\<close>, \<open>Analysis\<close>, \<open>AnalysisFacts\<close>, \<open>PlanningProps\<close>: \<open>internal/planning\<close>:
gap and fragmentation analysis, the compliance rules, and the report made of them.
\<^item> \<open>Recommendations\<close>, \<open>RecommendationProps\<close>: recommendations, generated, applied and dismissed.
\<^item> \<open>AuditLog\<close>: the in-memory audit logger (\<open>internal/audit\<close>).
\<^item> \<open>Http\<close>, \<open>PoolHandlers\<close>, \<open>AccountHandlers\<close>, \<open>BlockHandlers\<close>: requests, responses and the handlers of
\<open>internal/api\<close> for pools, accounts, blocks and search, open and protected.
\<^item> \<open>ApiFacts\<close>, \<open>ApiSteps\<close>, \<open>ApiProps\<close>: the address plan and the steps of a server that answers any
sequence of these requests; what holds of every state it reaches is proved once inside \<open>pool_store\<close>
and read off for the in-memory store.
\<^item> \<open>Discovery\<close>, \<open>DiscoveryFacts\<close>, \<open>DiscoverySync\<close>, \<open>DiscoveryProps\<close>: \<open>MemoryDiscoveryStore\<close>, the sync
service and the handlers of syncs, agents and ingest.
\<^item> \<open>Drift\<close>, \<open>DriftProps\<close>: the drift store, the detector and its API.
\<^item> \<open>SchemaHandlers\<close>, \<open>SchemaFacts\<close>, \<open>SchemaProps\<close>: the schema planner (\<open>internal/api/schema_handlers.go\<close>): the conflict
check and the bulk creation of a tree of pools.
\<^item> \<open>NetworkStore\<close>: the store of network objects and relationships (\<open>internal/storage/network_memory.go\<close>,
\<open>internal/domain/network.go\<close>); its keys come from SHA-1, a parameter.
\<^item> \<open>DiscoveryImport\<close>, \<open>ImportFacts\<close>, \<open>ImportProps\<close>: listing and linking resources, the preview and the apply of an
import and the import of an account (\<open>internal/api/discovery_handlers.go\<close>), over the pool, discovery and network stores.
\<^item> \<open>Settings\<close>, \<open>Middleware\<close>, \<open>UserHandlers\<close>, \<open>KeyHandlers\<close>, \<open>RoleHandlers\<close>: the security settings, the
middleware and the handlers of sign-in, users, API keys and roles (\<open>internal/api\<close>, \<open>internal/domain/settings.go\<close>,
\<open>internal/storage/settings_memory.go\<close>), over one state \<open>access\<close> of all the stores they share.
\<^item> \<open>AccessFacts\<close>, \<open>AccessProps\<close>, \<open>SignInProps\<close>: the steps of these handlers, the invariant of the states they reach,
and what follows for admission, sign-in, lockout, revocation and issued keys.

\<^bold>\<open>What the properties show.\<close> For the stores: the invariants of all reachable states, what each operation
changes and what it keeps, and that the recursive walks return. For the address plan: in every state the
API reaches, a child lies strictly inside its live parent and siblings are equal or disjoint, and a block
is reported free exactly when no child meets it. For access: what a role or a key may do, that a
protected route acts only with the permission of its method, whom the middleware admits, when a sign-in is
granted or an account locked, and how keys, sessions and roles live and end.
For planning: gaps are exactly the free addresses, scores stay in their bounds, rules report what they say.
For discovery: a sync stores what it saw and marks the rest stale, a detection reports exactly the
drift, and an import creates and links only what was selected. Where the code does not do what it means to, a lemma shows the behaviour and the manifest lists it
as a finding.

\<^bold>\<open>Bounds and fuel.\<close> No definition uses fuel. The walks over the pool tree and the loops over pages are
partial functions whose return is proved from the invariant; the properties about pages ask that a store holds
fewer than \<open>2 ^ 61\<close> records and page numbers keep the product with the page size below \<open>2 ^ 62\<close>, so that
64-bit arithmetic does not wrap; what happens when it wraps is a lemma of its own.

\<^bold>\<open>Not modelled.\<close> The SQLite and PostgreSQL stores (their logic is SQL); OIDC, password hashing,
the bootstrap, system, update and export handlers (I/O and third-party protocols), and the handlers that draw the network; the collectors
that call the AWS and GCP APIs (a parameter of the sync); the language-model client and the
planning by conversation; logging, metrics and the forwarding of audit events; the OpenAPI description; the
programs under \<open>cmd/\<close>, the agent's HTTP client and the Terraform provider; the web interface. JSON and
CSV decoding is left to the library: a handler receives the decoded body, or the failure to decode.
\<close>

end
